(* ===== verification/Prelude.thy ===== *)
theory Prelude
  imports Complex_Main "HOL-Library.Word"
begin

text \<open>
  Shared vocabulary of the development: the widths of the C++ integer types, the
  conversions between integers and floating-point values that the firmware uses, the
  collections of rewrite rules the component theories extend, and generic lemmas about
  lists and words that more than one component needs.

  Signed fixed-width integers (\<open>int16_t\<close>, \<open>int32_t\<close>) are kept as words and read with
  \<open>sint\<close>, because a cast between the signed and the unsigned type of one width does not
  change the bits.
\<close>

unbundle bit_operations_syntax

type_synonym u8 = "8 word"
type_synonym u16 = "16 word"
type_synonym u32 = "32 word"
type_synonym i16 = "16 word"
type_synonym i32 = "32 word"

text \<open>Rewrite collections: encoders and decoders, link operations, controller phases.\<close>

named_theorems codec_simps
named_theorems link_simps
named_theorems phase_simps
named_theorems float_simps

subsection \<open>Conversions the C++ code makes\<close>

text \<open>Truncation towards zero, as a cast of a floating-point value to an integer type does.\<close>

definition trunc :: "real \<Rightarrow> int" where
  "trunc x = (if 0 \<le> x then \<lfloor>x\<rfloor> else - \<lfloor>- x\<rfloor>)"

text \<open>\<open>std::lround\<close>: nearest integer, halves away from zero.\<close>

definition lround :: "real \<Rightarrow> int" where
  "lround x = (if 0 \<le> x then \<lfloor>x + 1 / 2\<rfloor> else - \<lfloor>- x + 1 / 2\<rfloor>)"

text \<open>Division of machine integers in C++ truncates towards zero.\<close>

definition cdiv :: "int \<Rightarrow> int \<Rightarrow> int" where
  "cdiv a b = sgn a * sgn b * (\<bar>a\<bar> div \<bar>b\<bar>)"

definition cmod :: "int \<Rightarrow> int \<Rightarrow> int" where
  "cmod a b = a - cdiv a b * b"

lemma trunc_of_int [simp]: "trunc (of_int n) = n"
  by (auto simp: trunc_def simp flip: of_int_minus)

lemma trunc_0 [simp]: "trunc 0 = 0"
  by (simp add: trunc_def)

lemma trunc_nonneg: "0 \<le> x \<Longrightarrow> 0 \<le> trunc x"
  by (simp add: trunc_def)

lemma trunc_mono: "x \<le> y \<Longrightarrow> trunc x \<le> trunc y"
proof -
  assume le: "x \<le> y"
  consider "0 \<le> x" | "x < 0" "0 \<le> y" | "y < 0" by linarith
  then show ?thesis
  proof cases
    case 1
    with le show ?thesis by (simp add: trunc_def floor_mono)
  next
    case 2
    then have "0 \<le> \<lfloor>- x\<rfloor>" "0 \<le> \<lfloor>y\<rfloor>" by simp_all
    then have "- \<lfloor>- x\<rfloor> \<le> \<lfloor>y\<rfloor>" by linarith
    with 2 show ?thesis by (simp add: trunc_def)
  next
    case 3
    with le have "\<lfloor>- y\<rfloor> \<le> \<lfloor>- x\<rfloor>" by (simp add: floor_mono)
    with 3 le show ?thesis by (simp add: trunc_def)
  qed
qed

lemma lround_0 [simp]: "lround 0 = 0"
  by (simp add: lround_def)

lemma lround_of_int [simp]: "lround (of_int n) = n"
proof (cases "0 \<le> n")
  case True
  then show ?thesis by (simp add: lround_def floor_eq_iff)
next
  case False
  then have "\<lfloor>- (of_int n :: real) + 1 / 2\<rfloor> = - n" by (simp add: floor_eq_iff)
  with False show ?thesis by (simp add: lround_def)
qed

lemma lround_mono: "x \<le> y \<Longrightarrow> lround x \<le> lround y"
proof -
  assume le: "x \<le> y"
  consider "0 \<le> x" | "x < 0" "0 \<le> y" | "y < 0" by linarith
  then show ?thesis
  proof cases
    case 1
    with le show ?thesis by (simp add: lround_def floor_mono)
  next
    case 2
    then have "0 \<le> \<lfloor>- x + 1 / 2\<rfloor>" "0 \<le> \<lfloor>y + 1 / 2\<rfloor>" by simp_all
    then have "- \<lfloor>- x + 1 / 2\<rfloor> \<le> \<lfloor>y + 1 / 2\<rfloor>" by linarith
    with 2 show ?thesis by (simp only: lround_def) simp
  next
    case 3
    with le have "\<lfloor>- y + 1 / 2\<rfloor> \<le> \<lfloor>- x + 1 / 2\<rfloor>" by (intro floor_mono) simp
    with 3 le show ?thesis by (simp add: lround_def)
  qed
qed

lemma lround_nonneg: "0 \<le> x \<Longrightarrow> 0 \<le> lround x"
  by (simp add: lround_def)

lemma lround_nonpos: "x \<le> 0 \<Longrightarrow> lround x \<le> 0"
  using lround_mono [of x 0] by simp

subsection \<open>Lists\<close>

lemma take_update_same [simp]: "i < length xs \<Longrightarrow> (xs[i := v]) ! i = v"
  by simp

lemma drop_butlast_Cons: "xs \<noteq> [] \<Longrightarrow> drop 1 xs = tl xs"
  by (cases xs) auto

subsection \<open>Words\<close>

lemma word_succ_nonzero_or_wrap: "(w :: 'a::len word) + 1 = 0 \<Longrightarrow> w = - 1"
  by (metis add_eq_0_iff add.commute)

text \<open>Storing an integer that fits in a signed type and reading it back.\<close>

lemma sint_word_of_int32:
  "- 2147483648 \<le> n \<Longrightarrow> n < 2147483648 \<Longrightarrow> sint (word_of_int n :: i32) = n"
  by (simp add: signed_of_int signed_take_bit_int_eq_self)

lemma sint_word_of_int16:
  "- 32768 \<le> n \<Longrightarrow> n < 32768 \<Longrightarrow> sint (word_of_int n :: i16) = n"
  by (simp add: signed_of_int signed_take_bit_int_eq_self)

end
