(* ===== verification/Utf8.thy ===== *)
theory Utf8
  imports Prelude
begin

text \<open>
  The UTF-8 codec of the input channels (\<^verbatim>\<open>UTF8.h\<close>, \<^verbatim>\<open>UTF8.cpp\<close>): a decoder that takes
  one byte at a time and keeps the partial code point, a decoder for a whole byte vector,
  and the encoder. The result -1, 0 or 1 of the C++ function with its output parameter is
  the datatype \<open>utf8_result\<close>.
\<close>

record utf8 =
  u_num :: u32
  u_state :: u8

definition utf8_new :: utf8 where
  "utf8_new = \<lparr>u_num = 0, u_state = 0\<rparr>"

datatype utf8_result = Utf8Error | Utf8More | Utf8Done u32

definition utf8_decode :: "u8 \<Rightarrow> utf8 \<Rightarrow> utf8_result \<times> utf8" where
  "utf8_decode ch u =
     (if u_state u \<noteq> 0 then
        (if ch AND 0xc0 \<noteq> 0x80 then (Utf8Error, u\<lparr>u_state := 0\<rparr>)
         else
           let u = u\<lparr>u_state := u_state u - 1,
                     u_num := push_bit 6 (u_num u) OR ucast (ch AND 0x3f)\<rparr>
           in if u_state u \<noteq> 0 then (Utf8More, u) else (Utf8Done (u_num u), u))
      else if ch < 0x80 then (Utf8Done (ucast ch), u)
      else if ch < 0xbf then (Utf8Done (ucast ch), u)
      else if 0xf8 \<le> ch then (Utf8Error, u)
      else if 0xf0 \<le> ch then (Utf8More, u\<lparr>u_state := 3, u_num := ucast (ch AND 0x07)\<rparr>)
      else if 0xe0 \<le> ch then (Utf8More, u\<lparr>u_state := 2, u_num := ucast (ch AND 0x0f)\<rparr>)
      else if 0xc0 \<le> ch then (Utf8More, u\<lparr>u_state := 1, u_num := ucast (ch AND 0x1f)\<rparr>)
      else (Utf8Error, u))"

text \<open>The vector decoder: the value of a vector that holds one whole sequence.\<close>

fun utf8_decode_all :: "u8 list \<Rightarrow> utf8 \<Rightarrow> u32 option \<times> utf8" where
  "utf8_decode_all [] u = (None, u)"
| "utf8_decode_all (ch # rest) u =
     (case utf8_decode ch u of
        (Utf8Error, u) \<Rightarrow> (None, u)
      | (Utf8Done v, u) \<Rightarrow> (if rest = [] then Some v else None, u)
      | (Utf8More, u) \<Rightarrow> utf8_decode_all rest u)"

definition utf8_encode :: "u32 \<Rightarrow> u8 list" where
  "utf8_encode v =
     (if 0x110000 \<le> v then []
      else if 0x10000 \<le> v then
        [0xf0 OR ucast (drop_bit 18 v AND 0x07), 0x80 OR ucast (drop_bit 12 v AND 0x3f),
         0x80 OR ucast (drop_bit 6 v AND 0x3f), 0x80 OR ucast (v AND 0x3f)]
      else if 0x800 \<le> v then
        [0xe0 OR ucast (drop_bit 12 v AND 0x0f), 0x80 OR ucast (drop_bit 6 v AND 0x3f),
         0x80 OR ucast (v AND 0x3f)]
      else if 0x80 \<le> v then
        [0xc0 OR ucast (drop_bit 6 v AND 0x1f), 0x80 OR ucast (v AND 0x3f)]
      else [ucast v])"

subsection \<open>Bytes of a sequence\<close>

text \<open>A marker in the high bits and a payload below it add up.\<close>

lemma or_payload:
  assumes "x AND m = (x :: u8)" "k AND m = 0" "uint k + uint m < 256"
  shows "uint (k OR x) = uint k + uint x" "(k OR x) AND m = x" "uint x \<le> uint m"
proof -
  have "k AND x = 0" using assms(1,2) by (metis and.commute and.left_commute and_zero_eq)
  then have "k OR x = k + x" by (simp add: disjunctive_add_eq_or)
  moreover show le: "uint x \<le> uint m"
    using assms(1) AND_upper2 [of "uint m" "uint x"] by (metis uint_and uint_ge_0)
  ultimately show "uint (k OR x) = uint k + uint x"
    using assms(3) by (simp add: uint_plus_if')
  show "(k OR x) AND m = x" using assms(1,2) by (simp add: bit.conj_disj_distrib2)
qed

lemma lead_byte_2:
  "x AND 0x1f = x \<Longrightarrow> utf8_decode (0xc0 OR x) (u\<lparr>u_state := 0\<rparr>) = (Utf8More, u\<lparr>u_state := 1, u_num := ucast x\<rparr>)"
  using or_payload [of x "0x1f" "0xc0"] by (simp add: utf8_decode_def word_less_def word_le_def)
    (use uint_ge_0 [of x] in linarith)

lemma lead_byte_3:
  "x AND 0x0f = x \<Longrightarrow> utf8_decode (0xe0 OR x) (u\<lparr>u_state := 0\<rparr>) = (Utf8More, u\<lparr>u_state := 2, u_num := ucast x\<rparr>)"
  using or_payload [of x "0x0f" "0xe0"] by (simp add: utf8_decode_def word_less_def word_le_def)
    (use uint_ge_0 [of x] in linarith)

lemma lead_byte_4:
  "x AND 0x07 = x \<Longrightarrow> utf8_decode (0xf0 OR x) (u\<lparr>u_state := 0\<rparr>) = (Utf8More, u\<lparr>u_state := 3, u_num := ucast x\<rparr>)"
  using or_payload [of x "0x07" "0xf0"] by (simp add: utf8_decode_def word_less_def word_le_def)
    (use uint_ge_0 [of x] in linarith)

lemma trail_byte:
  assumes "x AND 0x3f = x" "u_state u = n + 1" "n + 1 \<noteq> 0"
  shows "utf8_decode (0x80 OR x) u =
    (let v = push_bit 6 (u_num u) OR ucast x
     in if n \<noteq> 0 then (Utf8More, u\<lparr>u_state := n, u_num := v\<rparr>)
        else (Utf8Done v, u\<lparr>u_state := n, u_num := v\<rparr>))"
proof -
  have "(0x80 OR x) AND 0x3f = x" using or_payload(2) [of x "0x3f" "0x80"] assms(1) by simp
  moreover have "x AND 0xc0 = 0"
  proof -
    have "x AND 0xc0 = (x AND 0x3f) AND 0xc0" using assms(1) by simp
    then show ?thesis by (simp add: and.assoc)
  qed
  then have "(0x80 OR x) AND 0xc0 = 0x80" by (simp add: bit.conj_disj_distrib2)
  ultimately show ?thesis using assms(2,3) by (simp add: utf8_decode_def Let_def)
qed

subsection \<open>Round trip\<close>

text \<open>Putting the six-bit groups back together.\<close>

lemma group_step:
  "push_bit 6 (drop_bit (k + 6) v) OR (drop_bit k v AND 0x3f) = drop_bit k (v :: u32)"
proof (rule bit_word_eqI)
  fix n assume n: "n < LENGTH(32)"
  have m: "(0x3f :: u32) = mask 6" by (simp add: mask_eq_decr_exp)
  show "bit (push_bit 6 (drop_bit (k + 6) v) OR (drop_bit k v AND 0x3f)) n \<longleftrightarrow> bit (drop_bit k v) n"
    using n unfolding m by (auto simp: bit_simps less_diff_conv)
qed

text \<open>The byte that the encoder makes of a group.\<close>

lemma group_byte:
  "(ucast (w AND 0x3f) :: u8) AND 0x3f = ucast (w AND (0x3f :: u32))"
  "(ucast (w AND 0x1f) :: u8) AND 0x1f = ucast (w AND (0x1f :: u32))"
  "(ucast (w AND 0x0f) :: u8) AND 0x0f = ucast (w AND (0x0f :: u32))"
  "(ucast (w AND 0x07) :: u8) AND 0x07 = ucast (w AND (0x07 :: u32))"
  "(ucast (ucast (w AND 0x3f) :: u8) :: u32) = w AND 0x3f"
  "(ucast (ucast (w AND 0x1f) :: u8) :: u32) = w AND 0x1f"
  "(ucast (ucast (w AND 0x0f) :: u8) :: u32) = w AND 0x0f"
  "(ucast (ucast (w AND 0x07) :: u8) :: u32) = w AND 0x07"
proof -
  have m: "(0x3f :: u32) = mask 6" "(0x1f :: u32) = mask 5" "(0x0f :: u32) = mask 4" "(0x07 :: u32) = mask 3"
    "(0x3f :: u8) = mask 6" "(0x1f :: u8) = mask 5" "(0x0f :: u8) = mask 4" "(0x07 :: u8) = mask 3"
    by (simp_all add: mask_eq_decr_exp)
  show "(ucast (w AND 0x3f) :: u8) AND 0x3f = ucast (w AND (0x3f :: u32))"
    "(ucast (w AND 0x1f) :: u8) AND 0x1f = ucast (w AND (0x1f :: u32))"
    "(ucast (w AND 0x0f) :: u8) AND 0x0f = ucast (w AND (0x0f :: u32))"
    "(ucast (w AND 0x07) :: u8) AND 0x07 = ucast (w AND (0x07 :: u32))"
    "(ucast (ucast (w AND 0x3f) :: u8) :: u32) = w AND 0x3f"
    "(ucast (ucast (w AND 0x1f) :: u8) :: u32) = w AND 0x1f"
    "(ucast (ucast (w AND 0x0f) :: u8) :: u32) = w AND 0x0f"
    "(ucast (ucast (w AND 0x07) :: u8) :: u32) = w AND 0x07"
    unfolding m by (auto intro!: bit_word_eqI simp: bit_simps)
qed

lemmas utf8_group_simps = group_byte lead_byte_2 lead_byte_3 lead_byte_4 trail_byte

lemma top_group: "unat v < 2 ^ (k + j) \<Longrightarrow> drop_bit k v AND mask j = drop_bit k (v :: u32)"
proof (rule bit_word_eqI)
  fix n assume "unat v < 2 ^ (k + j)"
  then have "take_bit (k + j) (unat v) = unat v" by (simp add: take_bit_nat_eq_self)
  then have "bit (unat v) i \<Longrightarrow> i < k + j" for i by (metis bit_take_bit_iff)
  then have "bit v i \<Longrightarrow> i < k + j" for i by (simp add: bit_unsigned_iff bit_imp_le_length)
  from this [of "k + n"] show "bit (drop_bit k v AND mask j) n \<longleftrightarrow> bit (drop_bit k v) n"
    by (auto simp: bit_simps dest: bit_imp_le_length)
qed

lemma utf8_roundtrip:
  assumes "v < 0x110000" "u_state u = 0"
  shows "fst (utf8_decode_all (utf8_encode v) u) = Some v"
proof -
  have u: "u = u\<lparr>u_state := 0\<rparr>" using assms(2) by simp
  consider "0x10000 \<le> v" | "0x800 \<le> v" "v < 0x10000" | "0x80 \<le> v" "v < 0x800" | "v < 0x80"
    by (meson not_le)
  then show ?thesis
  proof cases
    case 1
    then have r: "(0x110000 \<le> v) = False" "(0x10000 \<le> v) = True"
      using assms(1) by (auto simp: word_le_def word_less_def)
    have top: "drop_bit 18 v AND 0x07 = drop_bit 18 v"
      using top_group [of v 18 3] assms(1) by (simp add: mask_eq_decr_exp word_less_nat_alt)
    note b = group_byte(4,8) [of "drop_bit 18 v", unfolded top]
    have g: "push_bit 6 (drop_bit 18 v) OR (drop_bit 12 v AND 0x3f) = drop_bit 12 v"
      "push_bit 6 (drop_bit 12 v) OR (drop_bit 6 v AND 0x3f) = drop_bit 6 v"
      "push_bit 6 (drop_bit 6 v) OR (v AND 0x3f) = v"
      using group_step [of 12 v] group_step [of 6 v] group_step [of 0 v] by simp_all
    show ?thesis
      by (subst u) (simp add: utf8_encode_def r utf8_group_simps top b g Let_def)
  next
    case 2
    then have r: "(0x110000 \<le> v) = False" "(0x10000 \<le> v) = False" "(0x800 \<le> v) = True"
      using assms(1) by (auto simp: word_le_def word_less_def)
    have top: "drop_bit 12 v AND 0x0f = drop_bit 12 v"
      using top_group [of v 12 4] 2 by (simp add: mask_eq_decr_exp word_less_nat_alt)
    note b = group_byte(3,7) [of "drop_bit 12 v", unfolded top]
    have g: "push_bit 6 (drop_bit 12 v) OR (drop_bit 6 v AND 0x3f) = drop_bit 6 v"
      "push_bit 6 (drop_bit 6 v) OR (v AND 0x3f) = v"
      using group_step [of 6 v] group_step [of 0 v] by simp_all
    show ?thesis
      by (subst u) (simp add: utf8_encode_def r utf8_group_simps top b g Let_def)
  next
    case 3
    then have r: "(0x110000 \<le> v) = False" "(0x10000 \<le> v) = False" "(0x800 \<le> v) = False" "(0x80 \<le> v) = True"
      using assms(1) by (auto simp: word_le_def word_less_def)
    have top: "drop_bit 6 v AND 0x1f = drop_bit 6 v"
      using top_group [of v 6 5] 3 by (simp add: mask_eq_decr_exp word_less_nat_alt)
    note b = group_byte(2,6) [of "drop_bit 6 v", unfolded top]
    have g: "push_bit 6 (drop_bit 6 v) OR (v AND 0x3f) = v"
      using group_step [of 0 v] by simp
    show ?thesis
      by (subst u) (simp add: utf8_encode_def r utf8_group_simps top b g Let_def)
  next
    case 4
    have "uint v < 128" using 4 by (simp add: word_less_def)
    then have "uint (ucast v :: u8) = uint v" by (simp add: unsigned_ucast_eq take_bit_int_eq_self)
    then have "(ucast v :: u8) < 0x80" using \<open>uint v < 128\<close> by (simp add: word_less_def)
    moreover have "uint (take_bit 8 v) = take_bit 8 (uint v)" by (rule unsigned_take_bit_eq)
    then have "uint (take_bit 8 v) = uint v" using \<open>uint v < 128\<close> by (simp only: take_bit_int_eq_self_iff) simp
    then have "take_bit 8 v = v" by (simp only: word_uint_eq_iff)
    moreover have "(ucast (ucast v :: u8) :: u32) = take_bit 8 v"
      by (rule bit_word_eqI) (auto simp: bit_simps)
    moreover have "(0x110000 \<le> v) = False" "(0x10000 \<le> v) = False" "(0x800 \<le> v) = False"
      "(0x80 \<le> v) = False" using 4 by (auto simp: word_le_def word_less_def)
    ultimately show ?thesis using assms(2) by (simp add: utf8_encode_def utf8_decode_def)
  qed
qed

end
