(* ===== verification/StringUtil.thy ===== *)
theory StringUtil
  imports Prelude
begin

text \<open>
  The string helpers of \<^verbatim>\<open>string_util.cpp\<close> and the two conversions of the C library
  that the EDM commands and reports use (\<open>strtol\<close> in base ten, \<open>std::to_string\<close>). A
  \<open>string_view\<close> is a HOL string. A function that returns a \<open>bool\<close> and writes its result
  through a reference returns the pair, or an option where the result is only written on
  success. \<open>from_float\<close>, which hands its text to \<open>strtof\<close>, is not modelled.
\<close>

subsection \<open>Characters\<close>

definition tolower :: "char \<Rightarrow> char" where
  "tolower c = (let n = of_char c :: nat in if 65 \<le> n \<and> n \<le> 90 then char_of (n + 32) else c)"

definition isdigit :: "char \<Rightarrow> bool" where
  "isdigit c \<longleftrightarrow> (let n = of_char c :: nat in 48 \<le> n \<and> n \<le> 57)"

definition digit_val :: "char \<Rightarrow> nat" where
  "digit_val c = of_char c - 48"

definition digit_char :: "nat \<Rightarrow> char" where
  "digit_char d = char_of (48 + d)"

definition eq_ignore_case :: "char \<Rightarrow> char \<Rightarrow> bool" where
  "eq_ignore_case lhs rhs \<longleftrightarrow> tolower lhs = tolower rhs"

text \<open>The set of \<open>trim\<close>, which is also what \<open>isspace\<close> accepts.\<close>

definition is_ws :: "char \<Rightarrow> bool" where
  "is_ws c \<longleftrightarrow> (let n = of_char c :: nat in n = 32 \<or> 9 \<le> n \<and> n \<le> 13)"

subsection \<open>Comparing\<close>

definition equal_ignore_case :: "string \<Rightarrow> string \<Rightarrow> bool" where
  "equal_ignore_case a b \<longleftrightarrow> list_all2 eq_ignore_case a b"

definition starts_with_ignore_case :: "string \<Rightarrow> string \<Rightarrow> bool" where
  "starts_with_ignore_case a b \<longleftrightarrow>
     (if length a < length b then False
      else list_all2 eq_ignore_case (take (length b) a) b)"

definition ends_with_ignore_case :: "string \<Rightarrow> string \<Rightarrow> bool" where
  "ends_with_ignore_case a b \<longleftrightarrow>
     (if length a < length b then False
      else list_all2 eq_ignore_case b (drop (length a - length b) a))"

subsection \<open>Trimming and splitting\<close>

fun find_first :: "(char \<Rightarrow> bool) \<Rightarrow> string \<Rightarrow> nat option" where
  "find_first p [] = None"
| "find_first p (c # cs) = (if p c then Some 0 else map_option Suc (find_first p cs))"

definition find_last :: "(char \<Rightarrow> bool) \<Rightarrow> string \<Rightarrow> nat option" where
  "find_last p s = map_option (\<lambda>i. length s - 1 - i) (find_first p (rev s))"

definition trim :: "string \<Rightarrow> string" where
  "trim s =
     (case find_first (\<lambda>c. \<not> is_ws c) s of
        None \<Rightarrow> []
      | Some start \<Rightarrow>
          (case find_last (\<lambda>c. \<not> is_ws c) s of
             None \<Rightarrow> drop start s
           | Some stop \<Rightarrow> take (stop - start + 1) (drop start s)))"

text \<open>\<open>split\<close>: whether there was a delimiter, the new \<open>input\<close> and \<open>next\<close>.\<close>

definition split_at :: "string \<Rightarrow> char \<Rightarrow> bool \<times> string \<times> string" where
  "split_at s delim =
     (case find_first (\<lambda>c. c = delim) s of
        Some pos \<Rightarrow> (True, take pos s, drop (pos + 1) s)
      | None \<Rightarrow> (False, s, []))"

text \<open>\<open>split_prefix\<close>: the new \<open>prefix\<close> and \<open>rest\<close>, or nothing when \<open>rest\<close> was empty.\<close>

definition split_prefix :: "string \<Rightarrow> char \<Rightarrow> (string \<times> string) option" where
  "split_prefix rest delim =
     (if rest = [] then None
      else case find_first (\<lambda>c. c = delim) rest of
             Some pos \<Rightarrow> Some (take pos rest, drop (pos + 1) rest)
           | None \<Rightarrow> Some (rest, []))"

subsection \<open>Numbers\<close>

definition from_xdigit :: "char \<Rightarrow> u8 option" where
  "from_xdigit c =
     (if isdigit c then Some (word_of_nat (digit_val c))
      else let n = of_char (tolower c) :: nat
           in if 97 \<le> n \<and> n \<le> 102 then Some (word_of_nat (10 + n - 97)) else None)"

fun from_hex_loop :: "u8 \<Rightarrow> string \<Rightarrow> bool \<times> u8" where
  "from_hex_loop v [] = (True, v)"
| "from_hex_loop v (c # cs) =
     (let v = push_bit 4 v
      in case from_xdigit c of None \<Rightarrow> (False, v) | Some x \<Rightarrow> from_hex_loop (v + x) cs)"

definition from_hex :: "string \<Rightarrow> bool \<times> u8" where
  "from_hex str = (if length str = 0 \<or> 2 < length str then (False, 0) else from_hex_loop 0 str)"

fun from_decimal_loop :: "u32 \<Rightarrow> string \<Rightarrow> bool \<times> u32" where
  "from_decimal_loop v [] = (True, v)"
| "from_decimal_loop v (c # cs) =
     (if \<not> isdigit c then (False, v)
      else from_decimal_loop (v * 10 + word_of_nat (of_char c) - 48) cs)"

definition from_decimal_u32 :: "string \<Rightarrow> bool \<times> u32" where
  "from_decimal_u32 str = (if length str = 0 then (False, 0) else from_decimal_loop 0 str)"

text \<open>The longest run of digits at the start, its value and what follows.\<close>

definition digits_val :: "nat \<Rightarrow> string \<Rightarrow> nat" where
  "digits_val v ds = foldl (\<lambda>v c. v * 10 + digit_val c) v ds"

text \<open>
  \<open>std::from_chars\<close> on an \<open>int32_t\<close>: an optional minus sign and at least one digit; a
  value out of range is an error, and so is here a text that is not used up.
\<close>

definition from_decimal_i32 :: "string \<Rightarrow> i32 option" where
  "from_decimal_i32 sv =
     (let (neg, ds) = (case sv of [] \<Rightarrow> (False, []) | c # cs \<Rightarrow>
            if c = CHR ''-'' then (True, cs) else (False, sv));
          v = (if neg then - int (digits_val 0 ds) else int (digits_val 0 ds))
      in if ds = [] \<or> \<not> list_all isdigit ds then None
         else if v < - (2 ^ 31) \<or> 2 ^ 31 \<le> v then None
         else Some (word_of_int v))"

text \<open>
  \<open>strtol (s, &end, 10)\<close> with a 32-bit \<open>long\<close>: leading white space, an optional sign, the
  digits; the value saturates. The second component is the text at \<open>end\<close>, all of \<open>s\<close> when
  there is no digit.
\<close>

definition strtol10 :: "string \<Rightarrow> int \<times> string" where
  "strtol10 s =
     (let t = dropWhile is_ws s;
          (neg, t) = (case t of [] \<Rightarrow> (False, []) | c # cs \<Rightarrow>
            if c = CHR ''-'' then (True, cs) else if c = CHR ''+'' then (False, cs) else (False, t));
          ds = takeWhile isdigit t;
          v = (if neg then - int (digits_val 0 ds) else int (digits_val 0 ds))
      in if ds = [] then (0, s)
         else (max (- (2 ^ 31)) (min (2 ^ 31 - 1) v), dropWhile isdigit t))"

text \<open>\<open>std::to_string\<close> of an integer.\<close>

fun show_nat :: "nat \<Rightarrow> string" where
  "show_nat n = (if n < 10 then [digit_char n] else show_nat (n div 10) @ [digit_char (n mod 10)])"

declare show_nat.simps [simp del]

definition to_string :: "int \<Rightarrow> string" where
  "to_string n = (if n < 0 then CHR ''-'' # show_nat (nat (- n)) else show_nat (nat n))"

subsection \<open>Lemmas: digits\<close>

lemma of_char_digit_char: "d < 10 \<Longrightarrow> (of_char (digit_char d) :: nat) = 48 + d"
  by (simp add: digit_char_def)

lemma isdigit_digit_char [simp]: "d < 10 \<Longrightarrow> isdigit (digit_char d)"
  by (simp add: isdigit_def of_char_digit_char)

lemma digit_val_digit_char [simp]: "d < 10 \<Longrightarrow> digit_val (digit_char d) = d"
  by (simp add: digit_val_def of_char_digit_char)

lemma digit_val_less: "isdigit c \<Longrightarrow> digit_val c < 10"
  by (auto simp: isdigit_def digit_val_def Let_def)

lemma isdigit_of_char: "isdigit c \<Longrightarrow> (of_char c :: nat) = 48 + digit_val c"
  by (simp add: isdigit_def digit_val_def Let_def)

lemma digits_val_append: "digits_val v (xs @ ys) = digits_val (digits_val v xs) ys"
  by (simp add: digits_val_def)

lemma digits_val_simps [simp]:
  "digits_val v [] = v" "digits_val v (c # cs) = digits_val (v * 10 + digit_val c) cs"
  by (simp_all add: digits_val_def)

lemma show_nat_digits: "list_all isdigit (show_nat n)"
  by (induction n rule: show_nat.induct) (subst show_nat.simps, simp)

lemma show_nat_ne [simp]: "show_nat n \<noteq> []"
  by (subst show_nat.simps) simp

lemma show_nat_length: "m < 10 ^ Suc k \<Longrightarrow> length (show_nat m) \<le> Suc k"
proof (induction k arbitrary: m)
  case 0
  then show ?case by (subst show_nat.simps) simp
next
  case (Suc k)
  show ?case
  proof (cases "m < 10")
    case True
    then show ?thesis by (subst show_nat.simps) simp
  next
    case False
    have "m div 10 < 10 ^ Suc k" using Suc.prems by (simp add: less_mult_imp_div_less mult.commute)
    from Suc.IH [OF this] False show ?thesis by (subst show_nat.simps) simp
  qed
qed

lemma digits_val_show_nat [simp]: "digits_val 0 (show_nat n) = n"
proof (induction n rule: show_nat.induct)
  case (1 n)
  then show ?case by (subst show_nat.simps) (simp add: digits_val_append)
qed

subsection \<open>Lemmas: parsing\<close>

lemma from_decimal_loop_digits:
  "list_all isdigit cs \<Longrightarrow> from_decimal_loop v cs = (True, word_of_nat (digits_val (unat v) cs))"
proof (induction cs arbitrary: v)
  case (Cons c cs)
  define w where "w = v * 10 + word_of_nat (of_char c) - 48"
  have w: "w = word_of_nat (unat v * 10 + digit_val c)"
    using Cons.prems by (simp add: w_def isdigit_of_char)
  have wrap: "(word_of_nat (digits_val a cs) :: u32) = word_of_nat (digits_val b cs)"
    if "(word_of_nat a :: u32) = word_of_nat b" for a b
    using that
  proof (induction cs arbitrary: a b)
    case (Cons d ds)
    have "(word_of_nat (a * 10 + digit_val d) :: u32) = word_of_nat (b * 10 + digit_val d)"
      using Cons.prems by simp
    then show ?case by (simp add: Cons.IH)
  qed simp
  have "from_decimal_loop w cs = (True, word_of_nat (digits_val (unat w) cs))"
    using Cons by simp
  also have "(word_of_nat (digits_val (unat w) cs) :: u32)
      = word_of_nat (digits_val (unat v * 10 + digit_val c) cs)"
    by (rule wrap) (simp add: w)
  finally show ?case using Cons.prems by (simp add: w_def)
qed simp

lemma from_decimal_loop_fst: "fst (from_decimal_loop v cs) \<longleftrightarrow> list_all isdigit cs"
  by (induction cs arbitrary: v) simp_all

lemma from_decimal_u32_spec:
  "fst (from_decimal_u32 s) \<longleftrightarrow> s \<noteq> [] \<and> list_all isdigit s"
  "s \<noteq> [] \<Longrightarrow> list_all isdigit s \<Longrightarrow> snd (from_decimal_u32 s) = word_of_nat (digits_val 0 s)"
  by (simp_all add: from_decimal_u32_def from_decimal_loop_fst from_decimal_loop_digits)

lemma from_decimal_u32_show: "from_decimal_u32 (show_nat n) = (True, word_of_nat n)"
  by (simp add: from_decimal_u32_def from_decimal_loop_digits show_nat_digits)

lemma show_nat_no_minus: "show_nat n \<noteq> CHR ''-'' # cs"
  using show_nat_digits [of n] by (auto simp: isdigit_def)

lemma from_decimal_i32_to_string:
  assumes "- (2 ^ 31) \<le> n" "n < 2 ^ 31"
  shows "from_decimal_i32 (to_string n) = Some (word_of_int n)"
proof (cases "n < 0")
  case True
  then show ?thesis using assms
    by (simp add: from_decimal_i32_def to_string_def show_nat_digits)
next
  case False
  obtain c cs where s: "show_nat (nat n) = c # cs" by (meson neq_Nil_conv show_nat_ne)
  then have "c \<noteq> CHR ''-''" using show_nat_no_minus by blast
  moreover have "digits_val 0 (c # cs) = nat n" "list_all isdigit (c # cs)"
    by (simp_all only: s [symmetric] digits_val_show_nat show_nat_digits)
  ultimately show ?thesis using assms False s
    by (simp add: from_decimal_i32_def to_string_def)
qed

lemma from_decimal_i32_range:
  "from_decimal_i32 s = Some v \<Longrightarrow> \<exists>ds. ds \<noteq> [] \<and> list_all isdigit ds
     \<and> (s = ds \<and> sint v = int (digits_val 0 ds)
        \<or> s = CHR ''-'' # ds \<and> sint v = - int (digits_val 0 ds))"
proof -
  assume "from_decimal_i32 s = Some v"
  moreover obtain neg ds where d: "(case s of [] \<Rightarrow> (False, []) | c # cs \<Rightarrow>
            if c = CHR ''-'' then (True, cs) else (False, s)) = (neg, ds)" by fastforce
  ultimately have ok: "ds \<noteq> []" "list_all isdigit ds"
    and r: "- (2 ^ 31) \<le> (if neg then - int (digits_val 0 ds) else int (digits_val 0 ds))"
      "(if neg then - int (digits_val 0 ds) else int (digits_val 0 ds)) < 2 ^ 31"
    and v: "v = word_of_int (if neg then - int (digits_val 0 ds) else int (digits_val 0 ds))"
    by (auto simp: from_decimal_i32_def d Let_def not_less split: if_splits)
  have "sint v = (if neg then - int (digits_val 0 ds) else int (digits_val 0 ds))"
    unfolding v by (rule sint_word_of_int32) (use r in simp_all)
  then show ?thesis using d ok by (auto split: list.splits if_splits)
qed

subsection \<open>Lemmas: trimming and splitting\<close>

lemma find_first_Some:
  "find_first p s = Some i \<Longrightarrow> i < length s \<and> p (s ! i) \<and> takeWhile (\<lambda>c. \<not> p c) s = take i s
     \<and> dropWhile (\<lambda>c. \<not> p c) s = drop i s"
  by (induction s arbitrary: i) (auto split: if_splits)

lemma find_first_None: "find_first p s = None \<longleftrightarrow> (\<forall>c \<in> set s. \<not> p c)"
  by (induction s) auto

lemma split_at_spec:
  assumes "split_at s delim = (found, a, b)"
  shows "delim \<notin> set a" and "found \<Longrightarrow> s = a @ delim # b"
    and "\<not> found \<Longrightarrow> s = a \<and> b = [] \<and> delim \<notin> set s"
proof -
  have "delim \<notin> set a \<and> (found \<longrightarrow> s = a @ delim # b) \<and> (\<not> found \<longrightarrow> s = a \<and> b = [] \<and> delim \<notin> set s)"
  proof (cases "find_first (\<lambda>c. c = delim) s")
    case None
    with assms show ?thesis by (auto simp: split_at_def find_first_None)
  next
    case (Some pos)
    from find_first_Some [OF Some] have p: "pos < length s" "s ! pos = delim"
      "takeWhile (\<lambda>c. c \<noteq> delim) s = take pos s" by simp_all
    then have "s = take pos s @ delim # drop (Suc pos) s" by (metis id_take_nth_drop)
    moreover have "delim \<notin> set (take pos s)" using p(3) by (metis set_takeWhileD)
    moreover have "found \<and> a = take pos s \<and> b = drop (Suc pos) s"
      using assms Some by (simp add: split_at_def)
    ultimately show ?thesis by metis
  qed
  then show "delim \<notin> set a" "found \<Longrightarrow> s = a @ delim # b"
    "\<not> found \<Longrightarrow> s = a \<and> b = [] \<and> delim \<notin> set s" by blast+
qed

definition trim_spec :: "string \<Rightarrow> string" where
  "trim_spec s = rev (dropWhile is_ws (rev (dropWhile is_ws s)))"

lemma trim_eq_spec: "trim s = trim_spec s"
proof (cases "find_first (\<lambda>c. \<not> is_ws c) s")
  case None
  then have "dropWhile is_ws s = []" by (auto simp: find_first_None dropWhile_eq_Nil_conv)
  with None show ?thesis by (simp only: trim_def trim_spec_def option.case rev.simps dropWhile.simps)
next
  case (Some start)
  from find_first_Some [OF Some] have st: "start < length s" "\<not> is_ws (s ! start)"
    "dropWhile is_ws s = drop start s" by simp_all
  have ex: "\<exists>c \<in> set (rev s). \<not> is_ws c" using st by auto
  then obtain i where i: "find_first (\<lambda>c. \<not> is_ws c) (rev s) = Some i"
    by (metis find_first_None not_None_eq)
  from find_first_Some [OF i] have il: "i < length s" "\<not> is_ws (rev s ! i)"
    "dropWhile is_ws (rev s) = drop i (rev s)" by simp_all
  have stop: "find_last (\<lambda>c. \<not> is_ws c) s = Some (length s - 1 - i)"
    by (simp add: find_last_def i)
  have len: "start \<le> length s - 1 - i"
  proof (rule ccontr)
    assume "\<not> ?thesis"
    then have lt: "length s - 1 - start < i" using st(1) il(1) by linarith
    have "takeWhile is_ws (rev s) = take i (rev s)" using find_first_Some [OF i] by simp
    then have "\<forall>c \<in> set (take i (rev s)). is_ws c" by (metis set_takeWhileD)
    moreover have "rev s ! (length s - 1 - start) \<in> set (take i (rev s))"
      using lt il(1) by (auto simp: in_set_conv_nth intro!: exI [of _ "length s - 1 - start"])
    moreover have "rev s ! (length s - 1 - start) = s ! start"
      using st(1) by (simp add: rev_nth)
    ultimately show False using st(2) by simp
  qed
  have "dropWhile is_ws (take (length s - start) (rev s)) = drop i (take (length s - start) (rev s))"
  proof -
    have mi: "min i (length s - start) = i" using len il(1) st(1) by (simp add: min_def)
    have split: "take (length s - start) (rev s)
        = take i (rev s) @ rev s ! i # drop (Suc i) (take (length s - start) (rev s))"
    proof -
      have "i < length (take (length s - start) (rev s))" using len il(1) st(1) by simp
      from id_take_nth_drop [OF this] show ?thesis using len il(1) st(1) by (simp add: mi)
    qed
    have "takeWhile is_ws (rev s) = take i (rev s)" using find_first_Some [OF i] by simp
    then have ws: "\<forall>c \<in> set (take i (rev s)). is_ws c" by (metis set_takeWhileD)
    have "dropWhile is_ws (take (length s - start) (rev s))
        = rev s ! i # drop (Suc i) (take (length s - start) (rev s))"
      by (subst split) (use ws il(2) in \<open>simp add: dropWhile_append2\<close>)
    also have "\<dots> = drop i (take (length s - start) (rev s))"
      using il(1) by (subst (2) split) (simp add: mi min_absorb2)
    finally show ?thesis .
  qed
  then have "dropWhile is_ws (rev (drop start s)) = drop i (take (length s - start) (rev s))"
    by (simp add: rev_drop)
  then have "trim_spec s = rev (drop i (rev (drop start s)))"
    by (simp only: trim_spec_def st(3) rev_drop)
  also have "\<dots> = take (length s - start - i) (drop start s)"
    by (simp only: rev_drop [of i "rev (drop start s)"] rev_rev_ident length_rev length_drop)
  also have "length s - start - i = length s - 1 - i - start + 1"
    using len il(1) st(1) by linarith
  finally show ?thesis by (simp add: trim_def Some stop)
qed

lemma equal_ignore_case_refl: "equal_ignore_case s s"
  by (simp add: equal_ignore_case_def eq_ignore_case_def list.rel_refl)

lemma equal_ignore_case_map: "equal_ignore_case a b \<longleftrightarrow> map tolower a = map tolower b"
  by (simp add: equal_ignore_case_def eq_ignore_case_def [abs_def] list.rel_eq [symmetric]
      list.rel_map)

end
