(* ===== verification/ChannelInput.thy ===== *)
theory ChannelInput
  imports Utf8 StringUtil
begin

text \<open>
  The input side of a channel (\<^verbatim>\<open>Channel.h\<close>, \<^verbatim>\<open>Channel.cpp\<close>, \<^verbatim>\<open>RealtimeCmd.cpp\<close>): bytes
  that stand for realtime commands are picked off and acted upon at once, the others are
  assembled into lines. Reading the device, the line editor of a subclass and the report
  texts are not modelled: \<open>read()\<close> is the list of bytes that it still returns, and
  \<open>realtimeOkay\<close> is a parameter. What a channel makes the system do is a list of actions.
\<close>

subsection \<open>Realtime commands\<close>

datatype rt_cmd = CmdNone | CmdReset | CmdStatusReport | CmdCycleStart | CmdFeedHold | CmdSafetyDoor
  | CmdJogCancel | CmdDebugReport | CmdMacro nat | CmdFeedOvrReset | CmdFeedOvrCoarsePlus
  | CmdFeedOvrCoarseMinus | CmdFeedOvrFinePlus | CmdFeedOvrFineMinus | CmdRapidOvrReset
  | CmdRapidOvrMedium | CmdRapidOvrLow | CmdRapidOvrExtraLow | CmdSpindleOvrReset
  | CmdSpindleOvrCoarsePlus | CmdSpindleOvrCoarseMinus | CmdSpindleOvrFinePlus
  | CmdSpindleOvrFineMinus | CmdSpindleOvrStop | CmdCoolantFloodOvrToggle | CmdCoolantMistOvrToggle

text \<open>The enumerators of \<open>Cmd\<close> in the order of their codes; a byte that is none of them is none.\<close>

definition rt_cmd_table :: "(u8 \<times> rt_cmd) list" where
  "rt_cmd_table =
     [(0x18, CmdReset), (0x3f, CmdStatusReport), (0x7e, CmdCycleStart), (0x21, CmdFeedHold),
      (0x84, CmdSafetyDoor), (0x85, CmdJogCancel), (0x86, CmdDebugReport), (0x87, CmdMacro 0),
      (0x88, CmdMacro 1), (0x89, CmdMacro 2), (0x8a, CmdMacro 3), (0x90, CmdFeedOvrReset),
      (0x91, CmdFeedOvrCoarsePlus), (0x92, CmdFeedOvrCoarseMinus), (0x93, CmdFeedOvrFinePlus),
      (0x94, CmdFeedOvrFineMinus), (0x95, CmdRapidOvrReset), (0x96, CmdRapidOvrMedium),
      (0x97, CmdRapidOvrLow), (0x98, CmdRapidOvrExtraLow), (0x99, CmdSpindleOvrReset),
      (0x9a, CmdSpindleOvrCoarsePlus), (0x9b, CmdSpindleOvrCoarseMinus),
      (0x9c, CmdSpindleOvrFinePlus), (0x9d, CmdSpindleOvrFineMinus), (0x9e, CmdSpindleOvrStop),
      (0xa0, CmdCoolantFloodOvrToggle), (0xa1, CmdCoolantMistOvrToggle)]"

definition rt_cmd_of :: "u8 \<Rightarrow> rt_cmd" where
  "rt_cmd_of b = (case map_of rt_cmd_table b of None \<Rightarrow> CmdNone | Some c \<Rightarrow> c)"

datatype accessory_override = SpindleStopOvr | FloodToggle | MistToggle

datatype rt_event = RtResetEvent | CycleStartEvent | FeedHoldEvent | SafetyDoorEvent
  | MotionCancelEvent | DebugEvent | AccessoryOverrideEvent accessory_override
  | FeedOverrideEvent int | RapidOverrideEvent int | SpindleOverrideEvent int | MacroEvent nat

datatype channel_action = SendEvent rt_event | ReportStatus | AlarmExpanderReset
  | PinEvent u32 bool | UnregisteredPin u32 | DecodeError u8 | AutoReport

text \<open>The status report is a direct call; every other command sends an event to the protocol task.\<close>

fun execute_realtime_command :: "bool \<Rightarrow> rt_cmd \<Rightarrow> channel_action list" where
  "execute_realtime_command jogging CmdReset = [SendEvent RtResetEvent]"
| "execute_realtime_command jogging CmdStatusReport = [ReportStatus]"
| "execute_realtime_command jogging CmdCycleStart = [SendEvent CycleStartEvent]"
| "execute_realtime_command jogging CmdFeedHold = [SendEvent FeedHoldEvent]"
| "execute_realtime_command jogging CmdSafetyDoor = [SendEvent SafetyDoorEvent]"
| "execute_realtime_command jogging CmdJogCancel = (if jogging then [SendEvent MotionCancelEvent] else [])"
| "execute_realtime_command jogging CmdDebugReport = [SendEvent DebugEvent]"
| "execute_realtime_command jogging CmdSpindleOvrStop = [SendEvent (AccessoryOverrideEvent SpindleStopOvr)]"
| "execute_realtime_command jogging CmdFeedOvrReset = [SendEvent (FeedOverrideEvent 100)]"
| "execute_realtime_command jogging CmdFeedOvrCoarsePlus = [SendEvent (FeedOverrideEvent 10)]"
| "execute_realtime_command jogging CmdFeedOvrCoarseMinus = [SendEvent (FeedOverrideEvent (- 10))]"
| "execute_realtime_command jogging CmdFeedOvrFinePlus = [SendEvent (FeedOverrideEvent 1)]"
| "execute_realtime_command jogging CmdFeedOvrFineMinus = [SendEvent (FeedOverrideEvent (- 1))]"
| "execute_realtime_command jogging CmdRapidOvrReset = [SendEvent (RapidOverrideEvent 100)]"
| "execute_realtime_command jogging CmdRapidOvrMedium = [SendEvent (RapidOverrideEvent 50)]"
| "execute_realtime_command jogging CmdRapidOvrLow = [SendEvent (RapidOverrideEvent 25)]"
| "execute_realtime_command jogging CmdRapidOvrExtraLow = [SendEvent (RapidOverrideEvent 5)]"
| "execute_realtime_command jogging CmdSpindleOvrReset = [SendEvent (SpindleOverrideEvent 100)]"
| "execute_realtime_command jogging CmdSpindleOvrCoarsePlus = [SendEvent (SpindleOverrideEvent 10)]"
| "execute_realtime_command jogging CmdSpindleOvrCoarseMinus = [SendEvent (SpindleOverrideEvent (- 10))]"
| "execute_realtime_command jogging CmdSpindleOvrFinePlus = [SendEvent (SpindleOverrideEvent 1)]"
| "execute_realtime_command jogging CmdSpindleOvrFineMinus = [SendEvent (SpindleOverrideEvent (- 1))]"
| "execute_realtime_command jogging CmdCoolantFloodOvrToggle = [SendEvent (AccessoryOverrideEvent FloodToggle)]"
| "execute_realtime_command jogging CmdCoolantMistOvrToggle = [SendEvent (AccessoryOverrideEvent MistToggle)]"
| "execute_realtime_command jogging (CmdMacro n) = [SendEvent (MacroEvent n)]"
| "execute_realtime_command jogging CmdNone = []"

definition is_realtime_command :: "u8 \<Rightarrow> bool" where
  "is_realtime_command b \<longleftrightarrow> 0x80 \<le> b \<or>
     (let cmd = rt_cmd_of b
      in cmd = CmdReset \<or> cmd = CmdStatusReport \<or> cmd = CmdCycleStart \<or> cmd = CmdFeedHold)"

subsection \<open>The channel\<close>

definition PinACK :: u32 where "PinACK = 0xB2"
definition PinNAK :: u32 where "PinNAK = 0xB3"
definition PinRST :: u32 where "PinRST = 0xB4"
definition PinLowFirst :: u32 where "PinLowFirst = 0x100"
definition PinLowLast :: u32 where "PinLowLast = 0x13f"
definition PinHighFirst :: u32 where "PinHighFirst = 0x140"
definition PinHighLast :: u32 where "PinHighLast = 0x17f"
definition maxLine :: nat where "maxLine = 255"

record channel =
  cn_line :: "u8 list"
  cn_lastWasCR :: bool
  cn_queue :: "u8 list"
  cn_utf8 :: utf8
  cn_ackwait :: int
  cn_active :: bool
  cn_paused :: bool
  cn_reportInterval :: u32
  cn_nextReportTime :: i32
  cn_lastTool :: u8

definition channel_new :: channel where
  "channel_new = \<lparr>cn_line = [], cn_lastWasCR = False, cn_queue = [], cn_utf8 = utf8_new,
     cn_ackwait = 0, cn_active = True, cn_paused = False, cn_reportInterval = 0,
     cn_nextReportTime = 0, cn_lastTool = 0\<rparr>"

definition channel_pause :: "channel \<Rightarrow> channel" where
  "channel_pause c = c\<lparr>cn_paused := True\<rparr>"

definition channel_resume :: "channel \<Rightarrow> channel" where
  "channel_resume c = c\<lparr>cn_paused := False\<rparr>"

definition flushRx :: "channel \<Rightarrow> channel" where
  "flushRx c = c\<lparr>cn_line := [], cn_lastWasCR := False, cn_queue := []\<rparr>"

definition rx_buffer_available :: "channel \<Rightarrow> int" where
  "rx_buffer_available c = max 0 (256 - int (length (cn_queue c)))"

definition setReportInterval :: "u32 \<Rightarrow> u32 \<Rightarrow> channel \<Rightarrow> u32 \<times> channel" where
  "setReportInterval ticks ms c =
     (let actual = ms;
          actual = (if actual \<noteq> 0 then max actual 50 else actual)
      in (actual, c\<lparr>cn_reportInterval := actual, cn_nextReportTime := ucast ticks,
                    cn_lastTool := 255\<rparr>))"

text \<open>The files that a listing shows: known G-code extensions, directories, nothing hidden.\<close>

definition gcode_extensions :: string where
  "gcode_extensions = ''.g .gc .gco .gcode .nc .ngc .ncc .txt .cnc .tap''"

function has_extension :: "string \<Rightarrow> string \<Rightarrow> bool" where
  "has_extension extension extensions =
     (if extensions = [] then False
      else
        let next_extension = takeWhile (\<lambda>c. c \<noteq> CHR '' '') extensions
        in if extension = next_extension then True
           else if dropWhile (\<lambda>c. c \<noteq> CHR '' '') extensions = [] then False
           else has_extension extension (tl (dropWhile (\<lambda>c. c \<noteq> CHR '' '') extensions)))"
  by pat_completeness auto
termination
proof (relation "measure (\<lambda>(e, es). length es)", goal_cases)
  case (2 extension extensions n)
  have "length (dropWhile (\<lambda>c. c \<noteq> CHR '' '') extensions) \<le> length extensions"
    by (rule length_dropWhile_le)
  with 2 show ?case by (cases "dropWhile (\<lambda>c. c \<noteq> CHR '' '') extensions") auto
qed simp

declare has_extension.simps [simp del]

definition is_visible :: "string \<Rightarrow> string \<Rightarrow> bool \<Rightarrow> bool" where
  "is_visible stem extension isdir =
     (if stem \<noteq> [] \<and> hd stem = CHR ''.'' then False
      else if stem = ''System Volume Information'' then False
      else if isdir then True
      else has_extension (map tolower extension) gcode_extensions)"

lemma has_extension_table:
  "has_extension e gcode_extensions \<longleftrightarrow>
     e \<in> {''.g'', ''.gc'', ''.gco'', ''.gcode'', ''.nc'', ''.ngc'', ''.ncc'', ''.txt'', ''.cnc'', ''.tap''}"
  unfolding gcode_extensions_def by (simp add: has_extension.simps)

text \<open>\<open>strcpy\<close> copies up to the first NUL.\<close>

definition copy_line :: "channel \<Rightarrow> u8 list" where
  "copy_line c = takeWhile (\<lambda>b. b \<noteq> 0) (cn_line c)"

definition lineComplete :: "u8 \<Rightarrow> channel \<Rightarrow> u8 list option \<times> channel" where
  "lineComplete ch c =
     (if ch = 0x0a then
        (if cn_lastWasCR c then (None, c\<lparr>cn_lastWasCR := False\<rparr>)
         else (Some (copy_line c), c\<lparr>cn_line := []\<rparr>))
      else
        let c = c\<lparr>cn_lastWasCR := (ch = 0x0d)\<rparr>
        in if cn_lastWasCR c then (Some (copy_line c), c\<lparr>cn_line := []\<rparr>)
           else if ch = 0x08 then (None, c\<lparr>cn_line := butlast (cn_line c)\<rparr>)
           else if length (cn_line c) < maxLine - 1 then (None, c\<lparr>cn_line := cn_line c @ [ch]\<rparr>)
           else (None, c))"

definition pin_event :: "(u32 \<Rightarrow> bool) \<Rightarrow> u32 \<Rightarrow> bool \<Rightarrow> channel_action list" where
  "pin_event registered pinnum active =
     (if registered pinnum then [PinEvent pinnum active] else [UnregisteredPin pinnum])"

text \<open>The cast of the decoded code point to the 8-bit enumeration keeps its low byte.\<close>

definition handleRealtimeCharacter ::
    "bool \<Rightarrow> (u32 \<Rightarrow> bool) \<Rightarrow> u8 \<Rightarrow> channel \<Rightarrow> channel_action list \<times> channel" where
  "handleRealtimeCharacter jogging registered ch c =
     (if ch AND 0xf8 = 0xf8 then ([], c)
      else case utf8_decode ch (cn_utf8 c) of
        (Utf8Error, u) \<Rightarrow> ([DecodeError ch], c\<lparr>cn_utf8 := u, cn_active := False\<rparr>)
      | (Utf8More, u) \<Rightarrow> ([], c\<lparr>cn_utf8 := u\<rparr>)
      | (Utf8Done cmd, u) \<Rightarrow>
          let c = c\<lparr>cn_utf8 := u, cn_active := True\<rparr>
          in if cmd = PinACK then ([], c\<lparr>cn_ackwait := 0\<rparr>)
             else if cmd = PinNAK then ([], c\<lparr>cn_ackwait := - 1\<rparr>)
             else if cmd = PinRST then ([AlarmExpanderReset], c\<lparr>cn_ackwait := - 1\<rparr>)
             else if PinLowFirst \<le> cmd \<and> cmd < PinLowLast
             then (pin_event registered (cmd - PinLowFirst) False, c)
             else if PinHighFirst \<le> cmd \<and> cmd < PinHighLast
             then (pin_event registered (cmd - PinHighFirst) True, c)
             else (execute_realtime_command jogging (rt_cmd_of (ucast cmd)), c))"

definition channel_push ::
    "bool \<Rightarrow> (u32 \<Rightarrow> bool) \<Rightarrow> u8 \<Rightarrow> channel \<Rightarrow> channel_action list \<times> channel" where
  "channel_push jogging registered b c =
     (if is_realtime_command b then handleRealtimeCharacter jogging registered b c
      else ([], c\<lparr>cn_queue := cn_queue c @ [b]\<rparr>))"

fun push_all ::
    "bool \<Rightarrow> (u32 \<Rightarrow> bool) \<Rightarrow> u8 list \<Rightarrow> channel \<Rightarrow> channel_action list \<times> channel" where
  "push_all jogging registered [] c = ([], c)"
| "push_all jogging registered (b # bs) c =
     (case channel_push jogging registered b c of (acts, c) \<Rightarrow>
        (case push_all jogging registered bs c of (acts', c) \<Rightarrow> (acts @ acts', c)))"

lemma handle_rt_same [simp]:
  "cn_queue (snd (handleRealtimeCharacter jg rg ch c)) = cn_queue c"
  "cn_line (snd (handleRealtimeCharacter jg rg ch c)) = cn_line c"
  "cn_lastWasCR (snd (handleRealtimeCharacter jg rg ch c)) = cn_lastWasCR c"
  by (simp_all add: handleRealtimeCharacter_def Let_def split: prod.split utf8_result.split)

lemma lineComplete_queue [simp]: "cn_queue (snd (lineComplete ch c)) = cn_queue c"
  by (simp add: lineComplete_def Let_def)

subsection \<open>Polling\<close>

text \<open>
  The loop of \<open>pollLine\<close>: the pushed bytes come first when a line is wanted, then what
  \<open>read()\<close> returns; a byte is a realtime command, is queued when no line is wanted, or goes
  into the line. The result of the loop is the completed line, if any, the actions, and what
  is left to read.
\<close>

definition next_byte :: "bool \<Rightarrow> u8 list \<Rightarrow> channel \<Rightarrow> (u8 \<times> u8 list \<times> channel) option" where
  "next_byte want incoming c =
     (if want \<and> cn_queue c \<noteq> []
      then Some (hd (cn_queue c), incoming, c\<lparr>cn_queue := tl (cn_queue c)\<rparr>)
      else case incoming of [] \<Rightarrow> None | ch # rest \<Rightarrow> Some (ch, rest, c))"

definition poll_byte ::
    "(u8 \<Rightarrow> bool) \<Rightarrow> bool \<Rightarrow> (u32 \<Rightarrow> bool) \<Rightarrow> bool \<Rightarrow> u8 \<Rightarrow> channel
       \<Rightarrow> u8 list option \<times> channel_action list \<times> channel" where
  "poll_byte rtok jogging registered want ch c =
     (let c = c\<lparr>cn_active := True\<rparr>
      in if rtok ch \<and> is_realtime_command ch
         then (None, handleRealtimeCharacter jogging registered ch c)
         else if \<not> want then (None, [], c\<lparr>cn_queue := cn_queue c @ [ch]\<rparr>)
         else case lineComplete ch c of (line, c) \<Rightarrow> (line, [], c))"

definition poll_size :: "bool \<Rightarrow> u8 list \<Rightarrow> channel \<Rightarrow> nat" where
  "poll_size want incoming c = length incoming + (if want then length (cn_queue c) else 0)"

lemma next_byte_size:
  "next_byte want incoming c = Some (ch, rest, c') \<Longrightarrow> poll_size want rest c' < poll_size want incoming c"
  by (auto simp: next_byte_def poll_size_def split: if_splits list.splits)

lemma poll_byte_size: "poll_size want rest (snd (snd (poll_byte rtok jg rg want ch c))) = poll_size want rest c"
  using lineComplete_queue [of ch "c\<lparr>cn_active := True\<rparr>"]
  by (auto simp: poll_byte_def poll_size_def Let_def simp del: lineComplete_queue split: prod.split)

function poll_loop ::
    "(u8 \<Rightarrow> bool) \<Rightarrow> bool \<Rightarrow> (u32 \<Rightarrow> bool) \<Rightarrow> bool \<Rightarrow> u8 list \<Rightarrow> channel
       \<Rightarrow> u8 list option \<times> channel_action list \<times> u8 list \<times> channel" where
  "poll_loop rtok jogging registered want incoming c =
     (case next_byte want incoming c of
        None \<Rightarrow> (None, if cn_active c then [AutoReport] else [], incoming, c)
      | Some (ch, rest, c) \<Rightarrow>
          (case poll_byte rtok jogging registered want ch c of
             (Some line, acts, c) \<Rightarrow> (Some line, acts, rest, c)
           | (None, acts, c) \<Rightarrow>
               (case poll_loop rtok jogging registered want rest c of
                  (line, acts', rest, c) \<Rightarrow> (line, acts @ acts', rest, c))))"
  by pat_completeness auto
termination
proof (relation "measure (\<lambda>(rtok, jogging, registered, want, incoming, c). poll_size want incoming c)",
    goal_cases)
  case 1
  show ?case by simp
next
  case prems: (2 rtok jg rg want incoming c b ch y rest c1 r q z c2)
  then have "poll_byte rtok jg rg want ch c1 = (None, z, c2)" by simp
  then have "poll_size want rest c2 = poll_size want rest c1"
    using poll_byte_size [of want rest rtok jg rg ch c1] by simp
  with prems next_byte_size [of want incoming c ch rest c1] show ?case by simp
qed

declare poll_loop.simps [simp del]

text \<open>A paused channel answers \<open>Ok\<close> without a line; \<open>NoData\<close> is the other answer.\<close>

datatype poll_status = PollOk "u8 list option" | PollNoData

definition pollLine ::
    "(u8 \<Rightarrow> bool) \<Rightarrow> bool \<Rightarrow> (u32 \<Rightarrow> bool) \<Rightarrow> bool \<Rightarrow> u8 list \<Rightarrow> channel
       \<Rightarrow> poll_status \<times> channel_action list \<times> u8 list \<times> channel" where
  "pollLine rtok jogging registered want incoming c =
     (if cn_paused c then (PollOk None, [], incoming, c)
      else case poll_loop rtok jogging registered want incoming c of
             (Some line, r) \<Rightarrow> (PollOk (Some line), r)
           | (None, r) \<Rightarrow> (PollNoData, r))"

subsection \<open>Lines\<close>

text \<open>The lines that a sequence of bytes completes.\<close>

fun assemble :: "u8 list \<Rightarrow> channel \<Rightarrow> u8 list list \<times> channel" where
  "assemble [] c = ([], c)"
| "assemble (b # bs) c =
     (case lineComplete b c of (line, c) \<Rightarrow>
        (case assemble bs c of (lines, c) \<Rightarrow> (case line of None \<Rightarrow> lines | Some l \<Rightarrow> l # lines, c)))"

lemma assemble_append:
  "assemble (xs @ ys) c =
     (case assemble xs c of (ls, c') \<Rightarrow> (case assemble ys c' of (ls', c'') \<Rightarrow> (ls @ ls', c'')))"
  by (induction xs arbitrary: c) (auto split: prod.split option.split)

text \<open>The line never outgrows its buffer, which keeps room for the terminator.\<close>

lemma lineComplete_bound:
  "length (cn_line c) < maxLine \<Longrightarrow> length (cn_line (snd (lineComplete b c))) < maxLine"
  by (auto simp: lineComplete_def Let_def)

lemma assemble_bound:
  "length (cn_line c) < maxLine \<Longrightarrow> length (cn_line (snd (assemble bs c))) < maxLine"
proof (induction bs arbitrary: c)
  case (Cons b bs)
  show ?case
    using Cons.IH [OF lineComplete_bound [OF Cons.prems, of b]] by (simp add: case_prod_unfold)
qed simp

text \<open>Text bytes are those without a meaning of their own inside a line.\<close>

definition text_byte :: "u8 \<Rightarrow> bool" where
  "text_byte b \<longleftrightarrow> b \<notin> {0, 0x08, 0x0a, 0x0d}"

lemma assemble_text:
  assumes "list_all text_byte l" "length (cn_line c) + length l < maxLine" "l \<noteq> [] \<or> \<not> cn_lastWasCR c"
  shows "assemble l c = ([], c\<lparr>cn_line := cn_line c @ l, cn_lastWasCR := False\<rparr>)"
  using assms
proof (induction l arbitrary: c)
  case (Cons b l)
  have "lineComplete b c = (None, c\<lparr>cn_lastWasCR := False, cn_line := cn_line c @ [b]\<rparr>)"
    using Cons.prems by (simp add: lineComplete_def text_byte_def Let_def)
  then show ?case
    using Cons.IH [of "c\<lparr>cn_lastWasCR := False, cn_line := cn_line c @ [b]\<rparr>"] Cons.prems by simp
qed simp

definition line_end :: "u8 list \<Rightarrow> bool" where
  "line_end e \<longleftrightarrow> e \<in> {[0x0a], [0x0d], [0x0d, 0x0a]}"

lemma assemble_line:
  assumes "list_all text_byte l" "length l < maxLine" "line_end e"
    "cn_line c = []" "cn_lastWasCR c \<Longrightarrow> e \<noteq> [0x0a]"
  shows "\<exists>c'. assemble (l @ e) c = ([l], c') \<and> cn_line c' = [] \<and> (cn_lastWasCR c' \<longleftrightarrow> e = [0x0d])"
proof -
  have nz: "takeWhile (\<lambda>b. b \<noteq> 0) l = l"
    using assms(1) by (auto simp: takeWhile_eq_all_conv list_all_iff text_byte_def)
  show ?thesis
  proof (cases "l = []")
    case True
    with assms show ?thesis
      by (auto simp: line_end_def lineComplete_def copy_line_def Let_def)
  next
    case False
    have "assemble l c = ([], c\<lparr>cn_line := l, cn_lastWasCR := False\<rparr>)"
      using assemble_text [OF assms(1)] assms(2,4) False by simp
    with assms(3) nz show ?thesis
      by (auto simp: line_end_def assemble_append lineComplete_def copy_line_def Let_def)
  qed
qed

lemma assemble_lines:
  assumes "list_all (\<lambda>l. list_all text_byte l \<and> length l < maxLine) ls" "line_end e"
    "cn_line c = []" "cn_lastWasCR c \<Longrightarrow> e \<noteq> [0x0a]"
  shows "\<exists>c'. assemble (concat (map (\<lambda>l. l @ e) ls)) c = (ls, c') \<and> cn_line c' = []"
  using assms(1,3,4)
proof (induction ls arbitrary: c)
  case (Cons l ls)
  from assemble_line [of l e c] Cons.prems assms(2) obtain c1 where
    c1: "assemble (l @ e) c = ([l], c1)" "cn_line c1 = []" "cn_lastWasCR c1 \<longleftrightarrow> e = [0x0d]" by auto
  with Cons.IH [of c1] Cons.prems obtain c2 where
    "assemble (concat (map (\<lambda>l. l @ e) ls)) c1 = (ls, c2)" "cn_line c2 = []" by auto
  with c1 show ?case by (simp add: assemble_append [of "l @ e", simplified])
qed simp

subsection \<open>Realtime bytes and lines do not interfere\<close>

definition same_line :: "channel \<Rightarrow> channel \<Rightarrow> bool" where
  "same_line c d \<longleftrightarrow> cn_line c = cn_line d \<and> cn_lastWasCR c = cn_lastWasCR d"

lemma lineComplete_same:
  "same_line c d \<Longrightarrow> fst (lineComplete b c) = fst (lineComplete b d)
     \<and> same_line (snd (lineComplete b c)) (snd (lineComplete b d))"
  by (simp add: same_line_def lineComplete_def copy_line_def Let_def)

lemma assemble_same:
  "same_line c d \<Longrightarrow> fst (assemble bs c) = fst (assemble bs d)
     \<and> same_line (snd (assemble bs c)) (snd (assemble bs d))"
proof (induction bs arbitrary: c d)
  case (Cons b bs)
  note l = lineComplete_same [OF Cons.prems, of b]
  with Cons.IH [of "snd (lineComplete b c)" "snd (lineComplete b d)"]
  show ?case by (simp add: case_prod_unfold split: option.split)
qed simp

text \<open>The bytes that go into lines.\<close>

definition line_bytes :: "(u8 \<Rightarrow> bool) \<Rightarrow> u8 list \<Rightarrow> u8 list" where
  "line_bytes rtok bs = filter (\<lambda>b. \<not> (rtok b \<and> is_realtime_command b)) bs"

definition stream :: "u8 list \<Rightarrow> channel \<Rightarrow> u8 list" where
  "stream incoming c = cn_queue c @ incoming"

lemma next_byte_stream:
  "next_byte True incoming c = Some (ch, rest, c') \<Longrightarrow>
     stream incoming c = ch # stream rest c' \<and> same_line c c'"
  "next_byte True incoming c = None \<Longrightarrow> stream incoming c = []"
  by (auto simp: next_byte_def stream_def same_line_def split: if_splits list.splits)

lemma poll_byte_assemble:
  assumes "poll_byte rtok jg rg True ch c = (line, acts, c')"
  shows "fst (assemble (line_bytes rtok [ch]) c) = (case line of None \<Rightarrow> [] | Some l \<Rightarrow> [l])"
    "same_line (snd (assemble (line_bytes rtok [ch]) c)) c'" "cn_queue c' = cn_queue c"
proof -
  have "same_line c (c\<lparr>cn_active := True\<rparr>)" by (simp add: same_line_def)
  note l = lineComplete_same [OF this, of ch]
  have g: "fst (assemble (line_bytes rtok [ch]) c) = (case line of None \<Rightarrow> [] | Some l \<Rightarrow> [l])
      \<and> same_line (snd (assemble (line_bytes rtok [ch]) c)) c' \<and> cn_queue c' = cn_queue c"
  proof (cases "rtok ch \<and> is_realtime_command ch")
    case True
    with assms have "c' = snd (handleRealtimeCharacter jg rg ch (c\<lparr>cn_active := True\<rparr>))" "line = None"
      by (auto simp: poll_byte_def Let_def)
    with True show ?thesis by (simp add: line_bytes_def same_line_def)
  next
    case False
    with assms have "line = fst (lineComplete ch (c\<lparr>cn_active := True\<rparr>))"
      "c' = snd (lineComplete ch (c\<lparr>cn_active := True\<rparr>))"
      by (auto simp: poll_byte_def Let_def split: prod.splits)
    with False l show ?thesis
      by (auto simp: line_bytes_def case_prod_unfold split: option.split)
  qed
  then show "fst (assemble (line_bytes rtok [ch]) c) = (case line of None \<Rightarrow> [] | Some l \<Rightarrow> [l])"
    "same_line (snd (assemble (line_bytes rtok [ch]) c)) c'" "cn_queue c' = cn_queue c" by blast+
qed

lemma poll_loop_assemble:
  "poll_loop rtok jg rg True incoming c = (line, acts, rest, c') \<Longrightarrow>
     \<exists>used. stream incoming c = used @ stream rest c'
       \<and> fst (assemble (line_bytes rtok used) c) = (case line of None \<Rightarrow> [] | Some l \<Rightarrow> [l])
       \<and> same_line (snd (assemble (line_bytes rtok used) c)) c'
       \<and> (line = None \<longrightarrow> stream rest c' = [])"
proof (induction "poll_size True incoming c" arbitrary: incoming c line acts rest c' rule: less_induct)
  case less
  show ?case
  proof (cases "next_byte True incoming c")
    case None
    with less.prems have "line = None" "rest = incoming" "c' = c"
      by (simp_all add: poll_loop.simps [of rtok jg rg True])
    with next_byte_stream(2) [OF None] show ?thesis
      by (intro exI [of _ "[]"]) (simp add: line_bytes_def same_line_def)
  next
    case (Some n)
    then obtain ch inc c1 where n: "next_byte True incoming c = Some (ch, inc, c1)" by (cases n) auto
    obtain l1 as1 c2 where b: "poll_byte rtok jg rg True ch c1 = (l1, as1, c2)" by (metis prod_cases3)
    note ns = next_byte_stream(1) [OF n] and pb = poll_byte_assemble [OF b]
    have st: "stream inc c2 = stream inc c1" by (simp add: stream_def pb(3))
    have one: "fst (assemble (line_bytes rtok [ch]) c) = (case l1 of None \<Rightarrow> [] | Some l \<Rightarrow> [l])"
      "same_line (snd (assemble (line_bytes rtok [ch]) c)) c2"
      using assemble_same [of c c1 "line_bytes rtok [ch]"] ns pb by (auto simp: same_line_def)
    show ?thesis
    proof (cases l1)
      case (Some l)
      with less.prems n b have "line = Some l" "rest = inc" "c' = c2"
        by (simp_all add: poll_loop.simps [of rtok jg rg True])
      with ns one st Some show ?thesis by (intro exI [of _ "[ch]"]) simp
    next
      case None
      obtain as2 where r: "poll_loop rtok jg rg True inc c2 = (line, as2, rest, c')"
        using less.prems n b None by (auto simp: poll_loop.simps [of rtok jg rg True incoming] split: prod.splits)
      have "poll_size True inc c2 < poll_size True incoming c"
        using next_byte_size [OF n] poll_byte_size [of True inc rtok jg rg ch c1] b by simp
      from less.hyps [OF this r] obtain used where u: "stream inc c2 = used @ stream rest c'"
        "fst (assemble (line_bytes rtok used) c2) = (case line of None \<Rightarrow> [] | Some l \<Rightarrow> [l])"
        "same_line (snd (assemble (line_bytes rtok used) c2)) c'" "line = None \<longrightarrow> stream rest c' = []"
        by blast
      have app: "line_bytes rtok (ch # used) = line_bytes rtok [ch] @ line_bytes rtok used"
        by (simp add: line_bytes_def)
      have s2: "fst (assemble (line_bytes rtok used) (snd (assemble (line_bytes rtok [ch]) c)))
          = fst (assemble (line_bytes rtok used) c2)
        \<and> same_line (snd (assemble (line_bytes rtok used) (snd (assemble (line_bytes rtok [ch]) c))))
            (snd (assemble (line_bytes rtok used) c2))"
        by (rule assemble_same [OF one(2)])
      have "fst (assemble (line_bytes rtok (ch # used)) c) = (case line of None \<Rightarrow> [] | Some l \<Rightarrow> [l])
          \<and> same_line (snd (assemble (line_bytes rtok (ch # used)) c)) c'"
        unfolding app using s2 u one(1) None
        by (simp add: assemble_append case_prod_unfold same_line_def)
      then show ?thesis using ns st u(1,4) by (intro exI [of _ "ch # used"]) simp
    qed
  qed
qed

subsection \<open>Code points and commands\<close>

text \<open>
  A byte from 0xf8 up never gets past the decoder, so a decoded character reaches the
  commands whole. The cast then keeps the low byte of its code point.
\<close>

lemma mask_f8: "ch AND 0xf8 = (0xf8 :: u8) \<Longrightarrow> fst (utf8_decode ch u) = Utf8Error"
proof -
  assume f8: "ch AND 0xf8 = 0xf8"
  have "ch AND 0xc0 = (ch AND 0xf8) AND 0xc0" by (simp add: and.assoc)
  then have "ch AND 0xc0 = 0xc0" by (simp add: f8)
  moreover have "ch AND 0xf8 \<le> ch" by (rule word_and_le2)
  then have "0xf8 \<le> ch" by (simp only: f8)
  moreover from this have "\<not> ch < 0x80" "\<not> ch < 0xbf" by (auto simp: word_le_def word_less_def)
  ultimately show ?thesis by (simp add: utf8_decode_def)
qed

lemma decode_high_byte:
  assumes "utf8_decode ch u = (Utf8More, u') \<or> (utf8_decode ch u = (Utf8Done v, u') \<and> 0x80 \<le> v)"
  shows "0x80 \<le> ch"
proof (rule ccontr)
  assume "\<not> 0x80 \<le> ch"
  then have lt: "ch < 0x80" by simp
  have "ch AND 0xc0 \<noteq> 0x80"
  proof
    assume "ch AND 0xc0 = 0x80"
    moreover have "ch AND 0xc0 \<le> ch" by (rule word_and_le2)
    ultimately show False using lt by simp
  qed
  moreover have "\<not> 0x80 \<le> (ucast ch :: u32)"
    using lt by (simp add: word_le_def word_less_def unsigned_ucast_eq take_bit_int_eq_self)
  ultimately show False using assms lt by (auto simp: utf8_decode_def split: if_splits)
qed

lemma push_code_point:
  assumes "utf8_decode_all bs (cn_utf8 c) = (Some v, u')" "0x180 \<le> v"
  shows "push_all jg rg bs c =
    (execute_realtime_command jg (rt_cmd_of (ucast v)), c\<lparr>cn_utf8 := u', cn_active := True\<rparr>)"
  using assms(1)
proof (induction bs arbitrary: c)
  case (Cons b bs)
  have v: "0x80 \<le> v" using assms(2) by (simp add: word_le_def)
  obtain r u where d: "utf8_decode b (cn_utf8 c) = (r, u)" by fastforce
  have r: "r = Utf8More \<or> r = Utf8Done v \<and> bs = [] \<and> u = u'"
    using Cons.prems by (cases r) (auto simp: d split: if_splits)
  then have hi: "0x80 \<le> b" using decode_high_byte [of b "cn_utf8 c" u v] d v by auto
  have nf: "b AND 0xf8 \<noteq> 0xf8" using mask_f8 [of b "cn_utf8 c"] d r by auto
  show ?case
  proof (cases "r = Utf8More")
    case True
    have "channel_push jg rg b c = ([], c\<lparr>cn_utf8 := u\<rparr>)"
      using hi nf by (simp add: channel_push_def is_realtime_command_def handleRealtimeCharacter_def d True)
    then show ?thesis using Cons.IH [of "c\<lparr>cn_utf8 := u\<rparr>"] Cons.prems by (simp add: d True)
  next
    case False
    with r have f: "r = Utf8Done v" "bs = []" "u = u'" by auto
    have n: "v \<noteq> PinACK \<and> v \<noteq> PinNAK \<and> v \<noteq> PinRST \<and> \<not> (PinLowFirst \<le> v \<and> v < PinLowLast)
        \<and> \<not> (PinHighFirst \<le> v \<and> v < PinHighLast)"
      using assms(2) by (auto simp: PinACK_def PinNAK_def PinRST_def PinLowFirst_def PinLowLast_def
          PinHighFirst_def PinHighLast_def word_le_def word_less_def)
    then have "(PinLowFirst \<le> v \<and> v < PinLowLast) = False" "(PinHighFirst \<le> v \<and> v < PinHighLast) = False"
      by blast+
    then show ?thesis using hi nf f n
      by (simp only: push_all.simps channel_push_def is_realtime_command_def handleRealtimeCharacter_def d
          Let_def prod.case utf8_result.case if_True if_False simp_thms append_Nil2)
  qed
qed simp

lemma push_character:
  assumes "0x180 \<le> v" "v < 0x110000" "u_state (cn_utf8 c) = 0"
  shows "fst (push_all jg rg (utf8_encode v) c) = execute_realtime_command jg (rt_cmd_of (ucast v))"
proof -
  obtain u' where "utf8_decode_all (utf8_encode v) (cn_utf8 c) = (Some v, u')"
    using utf8_roundtrip [OF assms(2,3)] by (metis prod.collapse)
  from push_code_point [OF this assms(1)] show ?thesis by simp
qed

end
