(* ===== verification/CanFrame.thy ===== *)
theory CanFrame
  imports Prelude
begin

text \<open>
  The CAN-FD frame (\<^verbatim>\<open>EDM/Can/CanFrame.h\<close>), the little-endian accessors that all
  message codecs use (\<^verbatim>\<open>EDM/Psu/Endian.h\<close>), and their laws: a field reads back what was
  written, and writing one field leaves every disjoint field alone. The payload array of
  64 bytes is a list; pointers into it are offsets.
\<close>

subsection \<open>Frames\<close>

record can_frame =
  cf_id :: u16
  cf_len :: u8
  cf_fd :: bool
  cf_brs :: bool
  cf_data :: "u8 list"

definition mk_frame :: "u16 \<Rightarrow> u8 \<Rightarrow> can_frame" where
  "mk_frame i l = \<lparr>cf_id = i, cf_len = l, cf_fd = True, cf_brs = True, cf_data = replicate 64 0\<rparr>"

definition wf_frame :: "can_frame \<Rightarrow> bool" where
  "wf_frame f \<longleftrightarrow> length (cf_data f) = 64 \<and> unat (cf_len f) \<le> 64"

lemma mk_frame_simps [simp]:
  "cf_id (mk_frame i l) = i" "cf_len (mk_frame i l) = l" "cf_data (mk_frame i l) = replicate 64 0"
  by (simp_all add: mk_frame_def)

subsection \<open>Little-endian accessors\<close>

definition put_u8 :: "u8 list \<Rightarrow> nat \<Rightarrow> u8 \<Rightarrow> u8 list" where
  "put_u8 d p v = d[p := v]"

definition get_u8 :: "u8 list \<Rightarrow> nat \<Rightarrow> u8" where
  "get_u8 d p = d ! p"

definition put_u16 :: "u8 list \<Rightarrow> nat \<Rightarrow> u16 \<Rightarrow> u8 list" where
  "put_u16 d p v = d[p := ucast v, p + 1 := ucast (drop_bit 8 v)]"

definition get_u16 :: "u8 list \<Rightarrow> nat \<Rightarrow> u16" where
  "get_u16 d p = ucast (d ! p) OR push_bit 8 (ucast (d ! (p + 1)))"

definition put_i16 :: "u8 list \<Rightarrow> nat \<Rightarrow> i16 \<Rightarrow> u8 list" where
  "put_i16 d p v = put_u16 d p v"

definition get_i16 :: "u8 list \<Rightarrow> nat \<Rightarrow> i16" where
  "get_i16 d p = get_u16 d p"

definition put_u32 :: "u8 list \<Rightarrow> nat \<Rightarrow> u32 \<Rightarrow> u8 list" where
  "put_u32 d p v = d[p := ucast v, p + 1 := ucast (drop_bit 8 v),
     p + 2 := ucast (drop_bit 16 v), p + 3 := ucast (drop_bit 24 v)]"

definition get_u32 :: "u8 list \<Rightarrow> nat \<Rightarrow> u32" where
  "get_u32 d p = ucast (d ! p) OR push_bit 8 (ucast (d ! (p + 1)))
     OR push_bit 16 (ucast (d ! (p + 2))) OR push_bit 24 (ucast (d ! (p + 3)))"

lemma length_put [simp]:
  "length (put_u8 d p v) = length d" "length (put_u16 d p w) = length d"
  "length (put_i16 d p w) = length d" "length (put_u32 d p x) = length d"
  by (simp_all add: put_u8_def put_u16_def put_i16_def put_u32_def)

text \<open>The bytes of a word, put together again, are the word.\<close>

lemma u16_bytes: "ucast (ucast (v :: u16) :: u8) OR push_bit 8 (ucast (ucast (drop_bit 8 v) :: u8)) = v"
proof (rule bit_word_eqI)
  fix n assume "n < LENGTH(16)"
  then have "n < 16" by simp
  then consider "n < 8" | "8 \<le> n" "n < 16" by linarith
  then show "bit (ucast (ucast v :: u8) OR push_bit 8 (ucast (ucast (drop_bit 8 v) :: u8)) :: u16) n = bit v n"
    by cases (auto simp: bit_or_iff bit_ucast_iff bit_push_bit_iff bit_drop_bit_eq)
qed

lemma u32_bytes:
  "ucast (ucast (v :: u32) :: u8) OR push_bit 8 (ucast (ucast (drop_bit 8 v) :: u8))
     OR push_bit 16 (ucast (ucast (drop_bit 16 v) :: u8))
     OR push_bit 24 (ucast (ucast (drop_bit 24 v) :: u8)) = v" (is "?l = v")
proof (rule bit_word_eqI)
  fix n assume "n < LENGTH(32)"
  then have "n < 32" by simp
  then consider "n < 8" | "8 \<le> n" "n < 16" | "16 \<le> n" "n < 24" | "24 \<le> n" "n < 32"
    by linarith
  then show "bit ?l n = bit v n"
    by cases (auto simp: bit_or_iff bit_ucast_iff bit_push_bit_iff bit_drop_bit_eq)
qed

lemma get_put_same [codec_simps]:
  "p < length d \<Longrightarrow> get_u8 (put_u8 d p v) p = v"
  "p + 1 < length d \<Longrightarrow> get_u16 (put_u16 d p w) p = w"
  "p + 1 < length d \<Longrightarrow> get_i16 (put_i16 d p w) p = w"
  "p + 3 < length d \<Longrightarrow> get_u32 (put_u32 d p x) p = x"
  by (simp_all add: get_u8_def put_u8_def get_u16_def put_u16_def get_i16_def put_i16_def
      get_u32_def put_u32_def nth_list_update u16_bytes u32_bytes)

text \<open>Writing a field does not change a field that starts elsewhere and does not overlap it.\<close>

lemma get_u8_put_other [codec_simps]:
  "p \<noteq> q \<Longrightarrow> get_u8 (put_u8 d p v) q = get_u8 d q"
  "q < p \<or> p + 1 < q \<Longrightarrow> get_u8 (put_u16 d p w) q = get_u8 d q"
  "q < p \<or> p + 1 < q \<Longrightarrow> get_u8 (put_i16 d p w) q = get_u8 d q"
  "q < p \<or> p + 3 < q \<Longrightarrow> get_u8 (put_u32 d p x) q = get_u8 d q"
  by (auto simp: get_u8_def put_u8_def put_u16_def put_i16_def put_u32_def)

lemma get_u16_bytes: "get_u16 d q = ucast (get_u8 d q) OR push_bit 8 (ucast (get_u8 d (q + 1)))"
  by (simp add: get_u16_def get_u8_def)

lemma get_u16_put_other [codec_simps]:
  "p < q \<or> q + 1 < p \<Longrightarrow> get_u16 (put_u8 d p v) q = get_u16 d q"
  "q + 1 < p \<or> p + 1 < q \<Longrightarrow> get_u16 (put_u16 d p w) q = get_u16 d q"
  "q + 1 < p \<or> p + 1 < q \<Longrightarrow> get_u16 (put_i16 d p w) q = get_u16 d q"
  "q + 1 < p \<or> p + 3 < q \<Longrightarrow> get_u16 (put_u32 d p x) q = get_u16 d q"
  by (auto simp: get_u16_bytes get_u8_put_other)

lemma get_i16_put_other [codec_simps]:
  "p < q \<or> q + 1 < p \<Longrightarrow> get_i16 (put_u8 d p v) q = get_i16 d q"
  "q + 1 < p \<or> p + 1 < q \<Longrightarrow> get_i16 (put_u16 d p w) q = get_i16 d q"
  "q + 1 < p \<or> p + 1 < q \<Longrightarrow> get_i16 (put_i16 d p w) q = get_i16 d q"
  "q + 1 < p \<or> p + 3 < q \<Longrightarrow> get_i16 (put_u32 d p x) q = get_i16 d q"
  by (simp_all add: get_i16_def get_u16_put_other)

text \<open>
  Little-endian byte lists, the reference layout of the message catalogue: reading a
  field of a payload that holds the bytes of a value gives the value.
\<close>

definition le16 :: "u16 \<Rightarrow> u8 list" where
  "le16 v = [ucast v, ucast (drop_bit 8 v)]"

definition le32 :: "u32 \<Rightarrow> u8 list" where
  "le32 v = [ucast v, ucast (drop_bit 8 v), ucast (drop_bit 16 v), ucast (drop_bit 24 v)]"

lemma length_le [simp]: "length (le16 v) = 2" "length (le32 w) = 4"
  by (simp_all add: le16_def le32_def)

text \<open>Accessors skip a prefix of the payload; this walks the layout field by field.\<close>

lemma get_head:
  "get_u8 (b # r) 0 = b" "get_u16 (le16 v @ r) 0 = v" "get_i16 (le16 v @ r) 0 = v"
  "get_u32 (le32 w @ r) 0 = w"
  by (simp_all add: get_u8_def get_u16_def get_i16_def get_u32_def le16_def le32_def
      u16_bytes u32_bytes)

lemma get_skip:
  "n \<le> p \<Longrightarrow> length xs = n \<Longrightarrow> get_u8 (xs @ r) p = get_u8 r (p - n)"
  "n \<le> p \<Longrightarrow> length xs = n \<Longrightarrow> get_u16 (xs @ r) p = get_u16 r (p - n)"
  "n \<le> p \<Longrightarrow> length xs = n \<Longrightarrow> get_i16 (xs @ r) p = get_i16 r (p - n)"
  "n \<le> p \<Longrightarrow> length xs = n \<Longrightarrow> get_u32 (xs @ r) p = get_u32 r (p - n)"
  by (auto simp: get_u8_def get_u16_def get_i16_def get_u32_def nth_append Suc_diff_le)

lemma get_skip_le [codec_simps]:
  "2 \<le> p \<Longrightarrow> get_u8 (le16 v @ r) p = get_u8 r (p - 2)"
  "2 \<le> p \<Longrightarrow> get_u16 (le16 v @ r) p = get_u16 r (p - 2)"
  "2 \<le> p \<Longrightarrow> get_i16 (le16 v @ r) p = get_i16 r (p - 2)"
  "2 \<le> p \<Longrightarrow> get_u32 (le16 v @ r) p = get_u32 r (p - 2)"
  "4 \<le> p \<Longrightarrow> get_u8 (le32 w @ r) p = get_u8 r (p - 4)"
  "4 \<le> p \<Longrightarrow> get_u16 (le32 w @ r) p = get_u16 r (p - 4)"
  "4 \<le> p \<Longrightarrow> get_i16 (le32 w @ r) p = get_i16 r (p - 4)"
  "4 \<le> p \<Longrightarrow> get_u32 (le32 w @ r) p = get_u32 r (p - 4)"
  by (rule get_skip; simp)+

lemma get_skip_byte [codec_simps]:
  "0 < p \<Longrightarrow> get_u8 (b # r) p = get_u8 r (p - 1)"
  "0 < p \<Longrightarrow> get_u16 (b # r) p = get_u16 r (p - 1)"
  "0 < p \<Longrightarrow> get_i16 (b # r) p = get_i16 r (p - 1)"
  "0 < p \<Longrightarrow> get_u32 (b # r) p = get_u32 r (p - 1)"
  by (auto simp: get_u8_def get_u16_def get_i16_def get_u32_def nth_Cons')

lemmas get_head_codec [codec_simps] = get_head

text \<open>A field depends only on its own bytes: equal prefixes give equal reads.\<close>

lemma get_take:
  assumes "take n d = take n e" and "length d = length e"
  shows "p < n \<Longrightarrow> get_u8 d p = get_u8 e p"
    and "p + 1 < n \<Longrightarrow> get_u16 d p = get_u16 e p"
    and "p + 1 < n \<Longrightarrow> get_i16 d p = get_i16 e p"
    and "p + 3 < n \<Longrightarrow> get_u32 d p = get_u32 e p"
proof -
  have nth: "d ! q = e ! q" if "q < n" for q
    using assms(1) that by (metis nth_take)
  show "p < n \<Longrightarrow> get_u8 d p = get_u8 e p" by (simp add: get_u8_def nth)
  show "p + 1 < n \<Longrightarrow> get_u16 d p = get_u16 e p" by (simp add: get_u16_def nth)
  show "p + 1 < n \<Longrightarrow> get_i16 d p = get_i16 e p" by (simp add: get_i16_def get_u16_def nth)
  show "p + 3 < n \<Longrightarrow> get_u32 d p = get_u32 e p" by (simp add: get_u32_def nth)
qed

end
