(* ===== verification/PsuProtocol.thy ===== *)
theory PsuProtocol
  imports CanFrame
begin

text \<open>
  The message catalogue of the power-supply link (\<^verbatim>\<open>EDM/Psu/Protocol.h\<close>,
  \<^verbatim>\<open>EDM/Psu/Protocol.cpp\<close>): identifiers, payload structures, the two encoders and the
  seven decoders. A decoder returns \<open>None\<close> where the C++ function returns false. The
  reference layouts at the end are the byte sequences the catalogue prescribes; each
  decoder is proved to invert its layout and to look at no byte past it.
\<close>

subsection \<open>Identifiers and commands\<close>

definition ID_SET_MODE_BOUNDS :: u16 where "ID_SET_MODE_BOUNDS = 0x010"
definition ID_ACK_MODE_BOUNDS :: u16 where "ID_ACK_MODE_BOUNDS = 0x011"
definition ID_CONTROL :: u16 where "ID_CONTROL = 0x020"
definition ID_STATS_AGG :: u16 where "ID_STATS_AGG = 0x100"
definition ID_WIRE_BREAK :: u16 where "ID_WIRE_BREAK = 0x200"
definition ID_FAULT :: u16 where "ID_FAULT = 0x201"
definition ID_ARC_BURST :: u16 where "ID_ARC_BURST = 0x202"
definition ID_INFO :: u16 where "ID_INFO = 0x210"
definition ID_PSU_STATUS :: u16 where "ID_PSU_STATUS = 0x300"

lemmas psu_id_defs = ID_SET_MODE_BOUNDS_def ID_ACK_MODE_BOUNDS_def ID_CONTROL_def
  ID_STATS_AGG_def ID_WIRE_BREAK_def ID_FAULT_def ID_ARC_BURST_def ID_INFO_def ID_PSU_STATUS_def

definition kProtocolVersion :: u16 where "kProtocolVersion = 1"

datatype control = CTRL_START_CUT | CTRL_STOP_CUT | CTRL_CLEAR_FAULT | CTRL_REBOOT | CTRL_POLARITY

fun control_byte :: "control \<Rightarrow> u8" where
  "control_byte CTRL_START_CUT = 1"
| "control_byte CTRL_STOP_CUT = 2"
| "control_byte CTRL_CLEAR_FAULT = 3"
| "control_byte CTRL_REBOOT = 4"
| "control_byte CTRL_POLARITY = 5"

subsection \<open>Payloads\<close>

record set_mode_bounds =
  smb_mode_id :: u8
  smb_seq :: u16
  smb_freq_max_kHz :: u16
  smb_on_time_max_ns :: u16
  smb_off_time_min_ns :: u16
  smb_peak_I_setpoint_dA :: u16
  smb_peak_I_limit_hw_dA :: u16
  smb_polarity :: u8
  smb_flags :: u16
  smb_gap_V_arc_mV :: u16
  smb_gap_V_short_mV :: u16
  smb_ignition_timeout_us :: u16

record ack_mode_bounds =
  ack_seq :: u16
  ack_freq_max_kHz :: u16
  ack_on_time_max_ns :: u16
  ack_off_time_min_ns :: u16
  ack_peak_I_setpoint_dA :: u16
  ack_peak_I_limit_hw_dA :: u16
  ack_status :: u8

record stats_agg =
  st_window_id :: u32
  st_n_normal :: u16
  st_n_arc :: u16
  st_n_short :: u16
  st_n_open :: u16
  st_ignition_delay_mean_ns :: u16
  st_ignition_delay_stddev_ns :: u16
  st_peak_I_mean_dA :: u16
  st_peak_I_max_dA :: u16
  st_gap_V_recovery_mean_ns :: u16
  st_energy_delivered_uJ :: u32
  st_temp_GaN_dC :: i16
  st_temp_L_dC :: i16
  st_dc_link_V_dV :: u16
  st_dc_link_I_avg_dA :: u16
  st_state :: u8
  st_mode_id_active :: u8
  st_flags :: u16

record wire_break_imminent =
  wb_severity :: u8
  wb_cause_flags :: u8
  wb_recent_short_count :: u16
  wb_recent_arc_count :: u16
  wb_ignition_delay_var_ns2 :: u32
  wb_timestamp_ms_since_start :: u32

record psu_fault =
  flt_fault_code :: u8
  flt_severity :: u8
  flt_detail :: "u8 list"

record arc_burst =
  ab_consecutive_arcs :: u16

record psu_status =
  ps_state :: u8
  ps_fpga_version :: u16
  ps_mcu_version :: u16
  ps_protocol_version :: u16
  ps_uptime_s :: u32
  ps_fault_count :: u16

text \<open>The members' default initialisers.\<close>

definition stats_agg_default :: stats_agg where
  "stats_agg_default = \<lparr>st_window_id = 0, st_n_normal = 0, st_n_arc = 0, st_n_short = 0,
     st_n_open = 0, st_ignition_delay_mean_ns = 0, st_ignition_delay_stddev_ns = 0,
     st_peak_I_mean_dA = 0, st_peak_I_max_dA = 0, st_gap_V_recovery_mean_ns = 0,
     st_energy_delivered_uJ = 0, st_temp_GaN_dC = 0, st_temp_L_dC = 0, st_dc_link_V_dV = 0,
     st_dc_link_I_avg_dA = 0, st_state = 0, st_mode_id_active = 0, st_flags = 0\<rparr>"

definition set_mode_bounds_default :: set_mode_bounds where
  "set_mode_bounds_default = \<lparr>smb_mode_id = 0, smb_seq = 0, smb_freq_max_kHz = 0,
     smb_on_time_max_ns = 0, smb_off_time_min_ns = 0, smb_peak_I_setpoint_dA = 0,
     smb_peak_I_limit_hw_dA = 0, smb_polarity = 0, smb_flags = 0, smb_gap_V_arc_mV = 0,
     smb_gap_V_short_mV = 0, smb_ignition_timeout_us = 0\<rparr>"

subsection \<open>Encoders\<close>

definition encodeSetModeBounds :: "set_mode_bounds \<Rightarrow> can_frame" where
  "encodeSetModeBounds m =
     (let f = mk_frame ID_SET_MODE_BOUNDS 24;
          d = cf_data f;
          d = put_u8 d 0 (smb_mode_id m);
          d = put_u16 d 1 (smb_seq m);
          d = put_u16 d 3 (smb_freq_max_kHz m);
          d = put_u16 d 5 (smb_on_time_max_ns m);
          d = put_u16 d 7 (smb_off_time_min_ns m);
          d = put_u16 d 9 (smb_peak_I_setpoint_dA m);
          d = put_u16 d 11 (smb_peak_I_limit_hw_dA m);
          d = put_u8 d 15 (smb_polarity m);
          d = put_u16 d 16 (smb_flags m);
          d = put_u16 d 18 (smb_gap_V_arc_mV m);
          d = put_u16 d 20 (smb_gap_V_short_mV m);
          d = put_u16 d 22 (smb_ignition_timeout_us m)
      in f\<lparr>cf_data := d\<rparr>)"

definition encodeControl :: "control \<Rightarrow> u8 \<Rightarrow> can_frame" where
  "encodeControl cmd arg =
     (let f = mk_frame ID_CONTROL 2
      in f\<lparr>cf_data := (cf_data f)[0 := control_byte cmd, 1 := arg]\<rparr>)"

subsection \<open>Decoders\<close>

definition decodeStatsAgg :: "can_frame \<Rightarrow> stats_agg option" where
  "decodeStatsAgg f =
     (if cf_id f \<noteq> ID_STATS_AGG \<or> cf_len f < 38 then None
      else let d = cf_data f in Some
        \<lparr>st_window_id = get_u32 d 0,
         st_n_normal = get_u16 d 4,
         st_n_arc = get_u16 d 6,
         st_n_short = get_u16 d 8,
         st_n_open = get_u16 d 10,
         st_ignition_delay_mean_ns = get_u16 d 12,
         st_ignition_delay_stddev_ns = get_u16 d 14,
         st_peak_I_mean_dA = get_u16 d 16,
         st_peak_I_max_dA = get_u16 d 18,
         st_gap_V_recovery_mean_ns = get_u16 d 20,
         st_energy_delivered_uJ = get_u32 d 22,
         st_temp_GaN_dC = get_i16 d 26,
         st_temp_L_dC = get_i16 d 28,
         st_dc_link_V_dV = get_u16 d 30,
         st_dc_link_I_avg_dA = get_u16 d 32,
         st_state = get_u8 d 34,
         st_mode_id_active = get_u8 d 35,
         st_flags = get_u16 d 36\<rparr>)"

definition decodeAckModeBounds :: "can_frame \<Rightarrow> ack_mode_bounds option" where
  "decodeAckModeBounds f =
     (if cf_id f \<noteq> ID_ACK_MODE_BOUNDS \<or> cf_len f < 13 then None
      else let d = cf_data f in Some
        \<lparr>ack_seq = get_u16 d 0,
         ack_freq_max_kHz = get_u16 d 2,
         ack_on_time_max_ns = get_u16 d 4,
         ack_off_time_min_ns = get_u16 d 6,
         ack_peak_I_setpoint_dA = get_u16 d 8,
         ack_peak_I_limit_hw_dA = get_u16 d 10,
         ack_status = get_u8 d 12\<rparr>)"

definition decodeWireBreak :: "can_frame \<Rightarrow> wire_break_imminent option" where
  "decodeWireBreak f =
     (if cf_id f \<noteq> ID_WIRE_BREAK \<or> cf_len f < 14 then None
      else let d = cf_data f in Some
        \<lparr>wb_severity = get_u8 d 0,
         wb_cause_flags = get_u8 d 1,
         wb_recent_short_count = get_u16 d 2,
         wb_recent_arc_count = get_u16 d 4,
         wb_ignition_delay_var_ns2 = get_u32 d 6,
         wb_timestamp_ms_since_start = get_u32 d 10\<rparr>)"

text \<open>The six detail bytes: zeroed, then overwritten by the bytes the frame carries.\<close>

definition decodeFault :: "can_frame \<Rightarrow> psu_fault option" where
  "decodeFault f =
     (if cf_id f \<noteq> ID_FAULT \<or> cf_len f < 2 then None
      else let n = (if 8 < cf_len f then 6 else unat (cf_len f - 2)) in Some
        \<lparr>flt_fault_code = cf_data f ! 0,
         flt_severity = cf_data f ! 1,
         flt_detail = take n (drop 2 (cf_data f)) @ replicate (6 - n) 0\<rparr>)"

definition decodeArcBurst :: "can_frame \<Rightarrow> arc_burst option" where
  "decodeArcBurst f =
     (if cf_id f \<noteq> ID_ARC_BURST \<or> cf_len f < 2 then None
      else Some \<lparr>ab_consecutive_arcs = get_u16 (cf_data f) 0\<rparr>)"

definition decodeInfo :: "can_frame \<Rightarrow> nat \<Rightarrow> u8 list option" where
  "decodeInfo f out_cap =
     (if cf_id f \<noteq> ID_INFO \<or> out_cap = 0 then None
      else let n = (if unat (cf_len f) < out_cap - 1 then unat (cf_len f) else out_cap - 1)
           in Some (take n (cf_data f) @ [0]))"

definition decodePsuStatus :: "can_frame \<Rightarrow> psu_status option" where
  "decodePsuStatus f =
     (if cf_id f \<noteq> ID_PSU_STATUS \<or> cf_len f < 13 then None
      else let d = cf_data f in Some
        \<lparr>ps_state = get_u8 d 0,
         ps_fpga_version = get_u16 d 1,
         ps_mcu_version = get_u16 d 3,
         ps_protocol_version = get_u16 d 5,
         ps_uptime_s = get_u32 d 7,
         ps_fault_count = get_u16 d 11\<rparr>)"

lemmas psu_decode_defs = decodeStatsAgg_def decodeAckModeBounds_def decodeWireBreak_def
  decodeFault_def decodeArcBurst_def decodeInfo_def decodePsuStatus_def

subsection \<open>Reference layouts\<close>

definition layoutStatsAgg :: "stats_agg \<Rightarrow> u8 list \<Rightarrow> u8 list" where
  "layoutStatsAgg s r =
     le32 (st_window_id s) @ le16 (st_n_normal s) @ le16 (st_n_arc s) @ le16 (st_n_short s) @
     le16 (st_n_open s) @ le16 (st_ignition_delay_mean_ns s) @
     le16 (st_ignition_delay_stddev_ns s) @ le16 (st_peak_I_mean_dA s) @
     le16 (st_peak_I_max_dA s) @ le16 (st_gap_V_recovery_mean_ns s) @
     le32 (st_energy_delivered_uJ s) @ le16 (st_temp_GaN_dC s) @ le16 (st_temp_L_dC s) @
     le16 (st_dc_link_V_dV s) @ le16 (st_dc_link_I_avg_dA s) @ st_state s #
     st_mode_id_active s # le16 (st_flags s) @ r"

definition layoutAckModeBounds :: "ack_mode_bounds \<Rightarrow> u8 list \<Rightarrow> u8 list" where
  "layoutAckModeBounds a r =
     le16 (ack_seq a) @ le16 (ack_freq_max_kHz a) @ le16 (ack_on_time_max_ns a) @
     le16 (ack_off_time_min_ns a) @ le16 (ack_peak_I_setpoint_dA a) @
     le16 (ack_peak_I_limit_hw_dA a) @ ack_status a # r"

definition layoutWireBreak :: "wire_break_imminent \<Rightarrow> u8 list \<Rightarrow> u8 list" where
  "layoutWireBreak w r =
     wb_severity w # wb_cause_flags w # le16 (wb_recent_short_count w) @
     le16 (wb_recent_arc_count w) @ le32 (wb_ignition_delay_var_ns2 w) @
     le32 (wb_timestamp_ms_since_start w) @ r"

definition layoutPsuStatus :: "psu_status \<Rightarrow> u8 list \<Rightarrow> u8 list" where
  "layoutPsuStatus p r =
     ps_state p # le16 (ps_fpga_version p) @ le16 (ps_mcu_version p) @
     le16 (ps_protocol_version p) @ le32 (ps_uptime_s p) @ le16 (ps_fault_count p) @ r"

lemma decodeStatsAgg_layout:
  assumes "cf_id f = ID_STATS_AGG" "38 \<le> cf_len f" "cf_data f = layoutStatsAgg s r"
  shows "decodeStatsAgg f = Some s"
  using assms by (simp add: decodeStatsAgg_def layoutStatsAgg_def codec_simps not_less)

lemma decodeAckModeBounds_layout:
  assumes "cf_id f = ID_ACK_MODE_BOUNDS" "13 \<le> cf_len f" "cf_data f = layoutAckModeBounds a r"
  shows "decodeAckModeBounds f = Some a"
  using assms by (simp add: decodeAckModeBounds_def layoutAckModeBounds_def codec_simps not_less)

lemma decodeWireBreak_layout:
  assumes "cf_id f = ID_WIRE_BREAK" "14 \<le> cf_len f" "cf_data f = layoutWireBreak w r"
  shows "decodeWireBreak f = Some w"
  using assms by (simp add: decodeWireBreak_def layoutWireBreak_def codec_simps not_less)

lemma decodePsuStatus_layout:
  assumes "cf_id f = ID_PSU_STATUS" "13 \<le> cf_len f" "cf_data f = layoutPsuStatus p r"
  shows "decodePsuStatus f = Some p"
  using assms by (simp add: decodePsuStatus_def layoutPsuStatus_def codec_simps not_less)

text \<open>
  The command frame, byte for byte: the two reserved bytes 13 and 14 and everything past
  the 24 payload bytes are zero.
\<close>

definition layoutSetModeBounds :: "set_mode_bounds \<Rightarrow> u8 list" where
  "layoutSetModeBounds m =
     smb_mode_id m # le16 (smb_seq m) @ le16 (smb_freq_max_kHz m) @ le16 (smb_on_time_max_ns m) @
     le16 (smb_off_time_min_ns m) @ le16 (smb_peak_I_setpoint_dA m) @
     le16 (smb_peak_I_limit_hw_dA m) @ [0, 0] @ smb_polarity m # le16 (smb_flags m) @
     le16 (smb_gap_V_arc_mV m) @ le16 (smb_gap_V_short_mV m) @ le16 (smb_ignition_timeout_us m)"

lemma length_layoutSetModeBounds [simp]: "length (layoutSetModeBounds m) = 24"
  by (simp add: layoutSetModeBounds_def)

lemma replicate_64: "replicate 64 (0 :: u8) =
  [0,0,0,0,0,0,0,0,0,0,0,0,0,0,0,0,0,0,0,0,0,0,0,0] @ replicate 40 0"
proof -
  have "replicate 64 (0 :: u8) = replicate (24 + 40) 0" by simp
  also have "\<dots> = replicate 24 0 @ replicate 40 0" by (rule replicate_add)
  also have "replicate 24 (0 :: u8) = [0,0,0,0,0,0,0,0,0,0,0,0,0,0,0,0,0,0,0,0,0,0,0,0]"
    by (simp add: numeral_eq_Suc)
  finally show ?thesis .
qed

lemma encodeSetModeBounds_frame [simp]:
  "cf_id (encodeSetModeBounds m) = ID_SET_MODE_BOUNDS" "cf_len (encodeSetModeBounds m) = 24"
  "cf_fd (encodeSetModeBounds m)" "cf_brs (encodeSetModeBounds m)"
  by (simp_all add: encodeSetModeBounds_def Let_def mk_frame_def)

lemma encodeSetModeBounds_layout:
  "cf_data (encodeSetModeBounds m) = layoutSetModeBounds m @ replicate 40 0"
  unfolding encodeSetModeBounds_def Let_def
  by (simp add: replicate_64 put_u8_def put_u16_def layoutSetModeBounds_def le16_def del: replicate.simps)

lemma layoutSetModeBounds_read:
  fixes m :: set_mode_bounds and r :: "u8 list"
  defines "d \<equiv> layoutSetModeBounds m @ r"
  shows "m = \<lparr>smb_mode_id = get_u8 d 0, smb_seq = get_u16 d 1, smb_freq_max_kHz = get_u16 d 3,
    smb_on_time_max_ns = get_u16 d 5, smb_off_time_min_ns = get_u16 d 7,
    smb_peak_I_setpoint_dA = get_u16 d 9, smb_peak_I_limit_hw_dA = get_u16 d 11,
    smb_polarity = get_u8 d 15, smb_flags = get_u16 d 16, smb_gap_V_arc_mV = get_u16 d 18,
    smb_gap_V_short_mV = get_u16 d 20, smb_ignition_timeout_us = get_u16 d 22\<rparr>"
  by (simp add: d_def layoutSetModeBounds_def codec_simps)

text \<open>
  Bounds: what a decoder returns depends on the valid bytes of the frame only, so stale
  bytes past \<open>len\<close> in a receive buffer cannot leak into a message.
\<close>

lemma take_eq_prefix: "n \<le> m \<Longrightarrow> take m xs = take m ys \<Longrightarrow> take n xs = take n ys"
  by (metis min.absorb2 min.commute take_take)

lemma decode_valid_bytes_aux:
  assumes "length (cf_data f) = length (cf_data g)" "cf_id f = cf_id g" "cf_len f = cf_len g"
    and "take (unat (cf_len f)) (cf_data f) = take (unat (cf_len f)) (cf_data g)"
  shows "decodeStatsAgg f = decodeStatsAgg g"
    and "decodeAckModeBounds f = decodeAckModeBounds g"
    and "decodeWireBreak f = decodeWireBreak g"
    and "decodeFault f = decodeFault g"
    and "decodeArcBurst f = decodeArcBurst g"
    and "decodeInfo f cap = decodeInfo g cap"
    and "decodePsuStatus f = decodePsuStatus g"
proof -
  let ?n = "unat (cf_len f)"
  note rd = get_take [OF assms(4,1)]
  have le: "\<not> cf_len g < w \<Longrightarrow> unat w \<le> ?n" for w
    using assms(3) by (simp add: not_less word_le_nat_alt)
  show "decodeStatsAgg f = decodeStatsAgg g"
    using le [of 38] assms(2,3) by (auto simp: decodeStatsAgg_def Let_def rd)
  show "decodeAckModeBounds f = decodeAckModeBounds g"
    using le [of 13] assms(2,3) by (auto simp: decodeAckModeBounds_def Let_def rd)
  show "decodeWireBreak f = decodeWireBreak g"
    using le [of 14] assms(2,3) by (auto simp: decodeWireBreak_def Let_def rd)
  show "decodeArcBurst f = decodeArcBurst g"
    using le [of 2] assms(2,3) by (auto simp: decodeArcBurst_def rd)
  show "decodePsuStatus f = decodePsuStatus g"
    using le [of 13] assms(2,3) by (auto simp: decodePsuStatus_def Let_def rd)
  show "decodeInfo f cap = decodeInfo g cap"
    using assms(2,3) take_eq_prefix [OF _ assms(4)] by (auto simp: decodeInfo_def Let_def)
  show "decodeFault f = decodeFault g"
  proof (cases "cf_id f \<noteq> ID_FAULT \<or> cf_len f < 2")
    case True
    then show ?thesis using assms(2,3) by (auto simp: decodeFault_def)
  next
    case False
    define n where "n = (if 8 < cf_len f then 6 else unat (cf_len f - 2))"
    have two: "2 \<le> ?n" using False by (simp add: not_less word_le_nat_alt)
    have "2 + n \<le> ?n"
      using False two by (auto simp: n_def word_less_nat_alt unat_sub not_less word_le_nat_alt)
    then have "take (2 + n) (cf_data f) = take (2 + n) (cf_data g)"
      by (rule take_eq_prefix [OF _ assms(4)])
    then have det: "take n (drop 2 (cf_data f)) = take n (drop 2 (cf_data g))"
      by (metis drop_take add.commute add_diff_cancel_left')
    have "cf_data f ! 0 = cf_data g ! 0" "cf_data f ! 1 = cf_data g ! 1"
      using two rd(1) [unfolded get_u8_def] by auto
    with det False assms(2,3) show ?thesis by (simp add: decodeFault_def Let_def n_def)
  qed
qed

end
