(* ===== verification/EventQueue.thy ===== *)
theory EventQueue
  imports Prelude
begin

text \<open>
  The bounded event queues of the links: \<^verbatim>\<open>std::deque\<close> with drop-oldest overflow
  (\<^verbatim>\<open>CanPsuLink\<close>, \<^verbatim>\<open>CanDielLink\<close>) and the ring buffer of \<^verbatim>\<open>SimPsuLink\<close>. Both implement
  one contract, the locale \<open>event_queue\<close>: seen through \<open>contents\<close> a push appends and
  evicts the oldest element of a full queue, a pop takes the oldest. The consequences
  (capacity, order, which events survive a burst) are proved once in the locale.
\<close>

subsection \<open>The contract\<close>

definition bq_push :: "nat \<Rightarrow> 'e list \<Rightarrow> 'e \<Rightarrow> 'e list" where
  "bq_push cap xs e = (if cap \<le> length xs then tl xs else xs) @ [e]"

text \<open>The youngest \<open>n\<close> elements.\<close>

definition lastn :: "nat \<Rightarrow> 'e list \<Rightarrow> 'e list" where
  "lastn n xs = drop (length xs - n) xs"

lemma lastn_all: "length xs \<le> n \<Longrightarrow> lastn n xs = xs"
  by (simp add: lastn_def)

lemma length_lastn [simp]: "length (lastn n xs) = min n (length xs)"
  by (simp add: lastn_def)

lemma lastn_suffix: "length ys \<le> n \<Longrightarrow> \<exists>zs. lastn n (xs @ ys) = zs @ ys"
proof -
  assume le: "length ys \<le> n"
  have "lastn n (xs @ ys) = drop (length xs + length ys - n) xs @ ys"
    using le by (simp add: lastn_def drop_append)
  then show ?thesis by blast
qed

lemma bq_push_lastn:
  assumes "0 < cap" "length xs \<le> cap"
  shows "bq_push cap xs e = lastn cap (xs @ [e])"
proof (cases "length xs = cap")
  case True
  with assms(1) have "xs \<noteq> []" by auto
  then show ?thesis using True by (cases xs) (simp_all add: bq_push_def lastn_def)
next
  case False
  with assms(2) show ?thesis by (simp add: bq_push_def lastn_all)
qed

lemma lastn_lastn_append: "0 < n \<Longrightarrow> lastn n (lastn n xs @ ys) = lastn n (xs @ ys)"
proof (cases "length xs \<le> n")
  case True
  then show ?thesis by (simp add: lastn_all)
next
  case False
  then have "xs = take (length xs - n) xs @ lastn n xs" by (simp add: lastn_def)
  moreover have len: "length (lastn n xs) = n" using False by simp
  ultimately have "lastn n (xs @ ys) =
      drop (length xs + length ys - n) (take (length xs - n) xs @ (lastn n xs @ ys))"
    by (metis append.assoc length_append lastn_def)
  also have "\<dots> = drop (length ys) (lastn n xs @ ys)" using False by simp
  also have "\<dots> = lastn n (lastn n xs @ ys)" using len by (simp add: lastn_def)
  finally show ?thesis by simp
qed

locale event_queue =
  fixes push :: "'e \<Rightarrow> 'q \<Rightarrow> 'q"
    and pop :: "'q \<Rightarrow> ('e \<times> 'q) option"
    and contents :: "'q \<Rightarrow> 'e list"
    and qinv :: "'q \<Rightarrow> bool"
    and cap :: nat
  assumes cap_pos: "0 < cap"
    and qinv_bound: "qinv q \<Longrightarrow> length (contents q) \<le> cap"
    and contents_push: "qinv q \<Longrightarrow> contents (push e q) = bq_push cap (contents q) e"
    and qinv_push: "qinv q \<Longrightarrow> qinv (push e q)"
    and pop_empty: "qinv q \<Longrightarrow> contents q = [] \<Longrightarrow> pop q = None"
    and pop_oldest: "qinv q \<Longrightarrow> contents q = e # es \<Longrightarrow>
           \<exists>q'. pop q = Some (e, q') \<and> contents q' = es \<and> qinv q'"
begin

lemma push_youngest: "qinv q \<Longrightarrow> contents (push e q) = lastn cap (contents q @ [e])"
  using bq_push_lastn [OF cap_pos qinv_bound] contents_push by metis

text \<open>A burst of events: exactly the youngest \<open>cap\<close> survive, in order.\<close>

lemma burst: "qinv q \<Longrightarrow> contents (fold push es q) = lastn cap (contents q @ es) \<and> qinv (fold push es q)"
proof (induction es arbitrary: q)
  case Nil
  then show ?case by (simp add: lastn_all qinv_bound)
next
  case (Cons e es)
  have "qinv (push e q)" using Cons.prems by (rule qinv_push)
  then have "contents (fold push es (push e q)) = lastn cap (contents (push e q) @ es)"
    and "qinv (fold push es (push e q))"
    using Cons.IH by auto
  then show ?case
    using Cons.prems cap_pos by (simp add: push_youngest lastn_lastn_append)
qed

text \<open>An event is delivered if fewer than \<open>cap\<close> events follow it before it is popped.\<close>

lemma survives:
  assumes "qinv q" "length es < cap"
  shows "e \<in> set (contents (fold push es (push e q)))"
proof -
  have b: "contents (fold push (e # es) q) = lastn cap (contents q @ e # es)"
    using burst [OF assms(1)] by blast
  have "length (e # es) \<le> cap" using assms(2) by simp
  then obtain zs where "lastn cap (contents q @ e # es) = zs @ e # es"
    using lastn_suffix by blast
  with b have "contents (fold push es (push e q)) = zs @ e # es" by (simp only: fold_simps)
  then show ?thesis by (simp only: set_append set_simps Un_iff insert_iff simp_thms)
qed

lemma pop_cases:
  assumes "qinv q"
  obtains (Empty) "contents q = []" "pop q = None"
    | (Oldest) e q' where "contents q = e # contents q'" "pop q = Some (e, q')" "qinv q'"
proof (cases "contents q")
  case Nil
  show thesis by (rule Empty [OF Nil pop_empty [OF assms Nil]])
next
  case (Cons e es)
  from pop_oldest [OF assms Cons] obtain q' where
    q': "pop q = Some (e, q')" "contents q' = es" "qinv q'" by blast
  with Cons have "contents q = e # contents q'" by simp
  then show thesis using q'(1,3) by (rule Oldest)
qed

lemma pop_None_iff: "qinv q \<Longrightarrow> pop q = None \<longleftrightarrow> contents q = []"
  by (rule pop_cases [of q]) simp_all

end

text \<open>
  A client sees a source of events only through \<open>pop\<close>; this smaller contract is what
  the link interfaces promise. Popping until a budget is used or nothing is left
  delivers the pending events in order and leaves the rest.
\<close>

fun drain :: "('q \<Rightarrow> ('e \<times> 'q) option) \<Rightarrow> nat \<Rightarrow> 'q \<Rightarrow> 'e list \<times> 'q" where
  "drain pop 0 q = ([], q)"
| "drain pop (Suc n) q =
     (case pop q of None \<Rightarrow> ([], q)
      | Some (e, q') \<Rightarrow> (case drain pop n q' of (es, q'') \<Rightarrow> (e # es, q'')))"

locale event_source =
  fixes pop :: "'q \<Rightarrow> ('e \<times> 'q) option"
    and pending :: "'q \<Rightarrow> 'e list"
    and sinv :: "'q \<Rightarrow> bool"
  assumes none_pending: "sinv q \<Longrightarrow> pending q = [] \<Longrightarrow> pop q = None"
    and oldest_pending: "sinv q \<Longrightarrow> pending q = e # es \<Longrightarrow>
           \<exists>q'. pop q = Some (e, q') \<and> pending q' = es \<and> sinv q'"
begin

lemma drain_take:
  "sinv q \<Longrightarrow> fst (drain pop n q) = take n (pending q)
     \<and> pending (snd (drain pop n q)) = drop n (pending q) \<and> sinv (snd (drain pop n q))"
proof (induction n arbitrary: q)
  case 0
  then show ?case by simp
next
  case (Suc n)
  show ?case
  proof (cases "pending q")
    case Nil
    then show ?thesis using Suc.prems none_pending by simp
  next
    case (Cons e es)
    with Suc.prems obtain q' where "pop q = Some (e, q')" "pending q' = es" "sinv q'"
      using oldest_pending by blast
    then show ?thesis using Suc.IH [of q'] Cons by (auto split: prod.split)
  qed
qed

end

sublocale event_queue \<subseteq> src: event_source pop contents qinv
  by unfold_locales (auto simp: pop_empty pop_oldest)

subsection \<open>The double-ended queue\<close>

definition deque_push :: "nat \<Rightarrow> 'e \<Rightarrow> 'e list \<Rightarrow> 'e list" where
  "deque_push cap e q = (let q = (if cap \<le> length q then tl q else q) in q @ [e])"

definition deque_pop :: "'e list \<Rightarrow> ('e \<times> 'e list) option" where
  "deque_pop q = (case q of [] \<Rightarrow> None | e # es \<Rightarrow> Some (e, es))"

lemma deque_queue:
  assumes "0 < cap"
  shows "event_queue (deque_push cap) deque_pop (\<lambda>q. q) (\<lambda>q. length q \<le> cap) cap"
  using assms by unfold_locales (auto simp: deque_push_def bq_push_def deque_pop_def)

subsection \<open>The ring buffer\<close>

record 'e ring =
  rg_evts :: "'e list"
  rg_head :: nat
  rg_count :: nat

definition ring_push :: "nat \<Rightarrow> 'e \<Rightarrow> 'e ring \<Rightarrow> 'e ring" where
  "ring_push cap e r =
     (let r = (if cap \<le> rg_count r
               then r\<lparr>rg_head := (rg_head r + 1) mod cap, rg_count := rg_count r - 1\<rparr> else r);
          r = r\<lparr>rg_evts := (rg_evts r)[(rg_head r + rg_count r) mod cap := e]\<rparr>
      in r\<lparr>rg_count := rg_count r + 1\<rparr>)"

definition ring_pop :: "nat \<Rightarrow> 'e ring \<Rightarrow> ('e \<times> 'e ring) option" where
  "ring_pop cap r =
     (if rg_count r = 0 then None
      else Some (rg_evts r ! rg_head r,
                 r\<lparr>rg_head := (rg_head r + 1) mod cap, rg_count := rg_count r - 1\<rparr>))"

definition ring_contents :: "nat \<Rightarrow> 'e ring \<Rightarrow> 'e list" where
  "ring_contents cap r = map (\<lambda>i. rg_evts r ! ((rg_head r + i) mod cap)) [0..<rg_count r]"

definition ring_inv :: "nat \<Rightarrow> 'e ring \<Rightarrow> bool" where
  "ring_inv cap r \<longleftrightarrow> length (rg_evts r) = cap \<and> rg_head r < cap \<and> rg_count r \<le> cap"

lemma ring_index_inj:
  assumes "i < cap" "j < cap" "(h + i) mod cap = (h + j) mod (cap :: nat)"
  shows "i = j"
proof -
  have le: "x = y" if "x \<le> y" "y < cap" "(h + x) mod cap = (h + y) mod cap" for x y
  proof -
    from that have "cap dvd h + y - (h + x)"
      by (metis add_le_cancel_left mod_eq_dvd_iff_nat)
    with that show ?thesis by (auto dest: dvd_imp_le)
  qed
  show ?thesis
    using assms le [of i j] le [of j i] by (metis nat_le_linear)
qed

text \<open>Dropping the oldest element is a step of the head index.\<close>

lemma ring_drop_oldest:
  assumes "0 < rg_count r"
  shows "ring_contents cap (r\<lparr>rg_head := (rg_head r + 1) mod cap, rg_count := rg_count r - 1\<rparr>)
    = tl (ring_contents cap r)"
proof -
  have "tl (map f [0..<n]) = map (\<lambda>i. f (i + 1)) [0..<n - 1]" for f :: "nat \<Rightarrow> 'a" and n
    by (rule nth_equalityI) (auto simp: nth_tl)
  then show ?thesis by (simp add: ring_contents_def mod_add_left_eq add.assoc)
qed

text \<open>Writing at the tail index of a ring with room appends.\<close>

lemma ring_append:
  assumes "ring_inv cap r" "rg_count r < cap"
  shows "ring_contents cap (r\<lparr>rg_evts := (rg_evts r)[(rg_head r + rg_count r) mod cap := e],
           rg_count := rg_count r + 1\<rparr>) = ring_contents cap r @ [e]"
proof -
  have other: "(rg_evts r)[(rg_head r + rg_count r) mod cap := e] ! ((rg_head r + i) mod cap)
      = rg_evts r ! ((rg_head r + i) mod cap)" if "i < rg_count r" for i
    using ring_index_inj [of "rg_count r" cap i "rg_head r"] that assms(2)
    by (metis less_trans nat_neq_iff nth_list_update_neq)
  have "(rg_head r + rg_count r) mod cap < length (rg_evts r)"
    using assms by (simp add: ring_inv_def)
  then show ?thesis by (simp add: ring_contents_def other)
qed

lemma ring_queue:
  assumes "0 < cap"
  shows "event_queue (ring_push cap) (ring_pop cap) (ring_contents cap) (ring_inv cap) cap"
proof
  show "0 < cap" by (rule assms)
next
  fix r :: "'a ring" assume inv: "ring_inv cap r"
  show "length (ring_contents cap r) \<le> cap"
    using inv by (simp add: ring_contents_def ring_inv_def)
next
  fix r :: "'a ring" and e assume inv: "ring_inv cap r"
  show "ring_contents cap (ring_push cap e r) = bq_push cap (ring_contents cap r) e"
  proof (cases "cap \<le> rg_count r")
    case True
    define r' where "r' = r\<lparr>rg_head := (rg_head r + 1) mod cap, rg_count := rg_count r - 1\<rparr>"
    have "ring_inv cap r'" "rg_count r' < cap"
      using inv True assms by (auto simp: r'_def ring_inv_def)
    then have "ring_contents cap (r'\<lparr>rg_evts := (rg_evts r')[(rg_head r' + rg_count r') mod cap := e],
           rg_count := rg_count r' + 1\<rparr>) = ring_contents cap r' @ [e]"
      by (rule ring_append)
    then have "ring_contents cap (ring_push cap e r) = ring_contents cap r' @ [e]"
      using True by (simp add: ring_push_def Let_def r'_def)
    also have "ring_contents cap r' = tl (ring_contents cap r)"
      unfolding r'_def using True assms by (intro ring_drop_oldest) simp
    finally show ?thesis using True by (simp add: bq_push_def ring_contents_def)
  next
    case False
    then show ?thesis
      using ring_append [OF inv, of e] by (simp add: ring_push_def Let_def bq_push_def ring_contents_def)
  qed
  show "ring_inv cap (ring_push cap e r)"
    using inv assms by (auto simp: ring_inv_def ring_push_def Let_def)
next
  fix r :: "'a ring" assume "ring_inv cap r" "ring_contents cap r = []"
  then show "ring_pop cap r = None" by (simp add: ring_pop_def ring_contents_def)
next
  fix r :: "'a ring" and e es assume inv: "ring_inv cap r" and c: "ring_contents cap r = e # es"
  have pos: "0 < rg_count r" using c by (cases "rg_count r") (simp_all add: ring_contents_def)
  have "e = ring_contents cap r ! 0" using c by simp
  also have "\<dots> = rg_evts r ! rg_head r"
    using pos inv by (simp add: ring_contents_def ring_inv_def)
  finally have e: "rg_evts r ! rg_head r = e" by simp
  show "\<exists>q'. ring_pop cap r = Some (e, q') \<and> ring_contents cap q' = es \<and> ring_inv cap q'"
    using pos e inv c assms ring_drop_oldest [OF pos, of cap]
    by (auto simp: ring_pop_def ring_inv_def)
qed

end
