(* ===== verification/PsuLink.thy ===== *)
theory PsuLink
  imports PsuProtocol EventQueue
begin

text \<open>
  The power-supply link. \<^verbatim>\<open>IPsuLink\<close> (\<^verbatim>\<open>EDM/Psu/IPsuLink.h\<close>) is the abstract class the
  controller holds a reference to; its virtual functions are the record \<open>psu_ops\<close>, so a
  client of the interface takes the operations as an argument. The locale \<open>psu_link\<close>
  states what every implementation promises, and \<^verbatim>\<open>CanPsuLink\<close>
  (\<^verbatim>\<open>EDM/Psu/PsuLink.h\<close>, \<^verbatim>\<open>EDM/Psu/PsuLink.cpp\<close>) is the implementation over a CAN-FD bus.
  The bus is the trace of frames sent on it. The lock \<^verbatim>\<open>EdmLock\<close> makes every operation
  atomic, so one operation is one step of the model.
\<close>

subsection \<open>The interface\<close>

datatype psu_event =
    EvWireBreak wire_break_imminent
  | EvFault psu_fault
  | EvArcBurst arc_burst
  | EvInfo "u8 list"

record 'l psu_ops =
  po_setModeBounds :: "set_mode_bounds \<Rightarrow> 'l \<Rightarrow> u16 \<times> 'l"
  po_startCut :: "'l \<Rightarrow> 'l"
  po_stopCut :: "'l \<Rightarrow> 'l"
  po_clearFault :: "'l \<Rightarrow> 'l"
  po_latestStats :: "'l \<Rightarrow> stats_agg option"
  po_popEvent :: "'l \<Rightarrow> (psu_event \<times> 'l) option"
  po_isConnected :: "'l \<Rightarrow> bool"
  po_protocolCompatible :: "'l \<Rightarrow> bool"
  po_lastAckStatus :: "'l \<Rightarrow> u16"

text \<open>Everything a client can read without changing the link.\<close>

definition psu_view :: "'l psu_ops \<Rightarrow> 'l \<Rightarrow> stats_agg option \<times> bool \<times> bool \<times> u16" where
  "psu_view ops l = (po_latestStats ops l, po_isConnected ops l,
     po_protocolCompatible ops l, po_lastAckStatus ops l)"

text \<open>
  The contract. \<open>spark\<close> tells whether the supply has been commanded to cut, \<open>pending\<close>
  the events not yet delivered, \<open>linv\<close> the representation invariant.
\<close>

locale psu_link =
  fixes ops :: "'l psu_ops"
    and spark :: "'l \<Rightarrow> bool"
    and pending :: "'l \<Rightarrow> psu_event list"
    and linv :: "'l \<Rightarrow> bool"
  assumes start_spark: "linv l \<Longrightarrow> spark (po_startCut ops l)"
    and stop_spark: "linv l \<Longrightarrow> \<not> spark (po_stopCut ops l)"
    and bounds_spark: "linv l \<Longrightarrow> spark (snd (po_setModeBounds ops m l)) = spark l"
    and clear_spark: "linv l \<Longrightarrow> spark (po_clearFault ops l) = spark l"
    and command_linv: "linv l \<Longrightarrow> linv (po_startCut ops l) \<and> linv (po_stopCut ops l)
          \<and> linv (po_clearFault ops l) \<and> linv (snd (po_setModeBounds ops m l))"
    and command_pending: "linv l \<Longrightarrow> pending (po_startCut ops l) = pending l
          \<and> pending (po_stopCut ops l) = pending l \<and> pending (po_clearFault ops l) = pending l
          \<and> pending (snd (po_setModeBounds ops m l)) = pending l"
    and command_view: "linv l \<Longrightarrow> psu_view ops (po_startCut ops l) = psu_view ops l
          \<and> psu_view ops (po_stopCut ops l) = psu_view ops l
          \<and> psu_view ops (po_clearFault ops l) = psu_view ops l
          \<and> psu_view ops (snd (po_setModeBounds ops m l)) = psu_view ops l"
    and pop_None: "linv l \<Longrightarrow> pending l = [] \<Longrightarrow> po_popEvent ops l = None"
    and pop_Some: "linv l \<Longrightarrow> pending l = e # es \<Longrightarrow> \<exists>l'. po_popEvent ops l = Some (e, l')
          \<and> pending l' = es \<and> spark l' = spark l \<and> psu_view ops l' = psu_view ops l \<and> linv l'"
begin

lemma pop_step:
  assumes "linv l" "po_popEvent ops l = Some (e, l')"
  shows "pending l = e # pending l'" "spark l' = spark l" "psu_view ops l' = psu_view ops l"
    "linv l'"
proof -
  obtain e' es where p: "pending l = e' # es"
    using assms pop_None by (cases "pending l") auto
  from pop_Some [OF assms(1) p] assms(2)
  show "pending l = e # pending l'" "spark l' = spark l" "psu_view ops l' = psu_view ops l"
    "linv l'"
    using p by auto
qed

lemma pop_empty_iff: "linv l \<Longrightarrow> po_popEvent ops l = None \<longleftrightarrow> pending l = []"
  using pop_None pop_Some by (cases "pending l") fastforce+

end

sublocale psu_link \<subseteq> src: event_source "po_popEvent ops" pending linv
proof
  fix l assume "linv l" "pending l = []"
  then show "po_popEvent ops l = None" by (rule pop_None)
next
  fix l e es assume "linv l" "pending l = e # es"
  then show "\<exists>l'. po_popEvent ops l = Some (e, l') \<and> pending l' = es \<and> linv l'"
    using pop_Some by blast
qed

subsection \<open>The CAN implementation\<close>

definition kMaxEvents :: nat where "kMaxEvents = 32"

record can_psu_link =
  cpl_sent :: "can_frame list"
  cpl_seq :: u16
  cpl_stats :: stats_agg
  cpl_stats_valid :: bool
  cpl_events :: "psu_event list"
  cpl_heartbeat_seen :: bool
  cpl_protocol_ok :: bool
  cpl_last_ack_status :: u16

definition can_psu_init :: can_psu_link where
  "can_psu_init = \<lparr>cpl_sent = [], cpl_seq = 1, cpl_stats = stats_agg_default,
     cpl_stats_valid = False, cpl_events = [], cpl_heartbeat_seen = False,
     cpl_protocol_ok = False, cpl_last_ack_status = 0\<rparr>"

definition bus_send :: "can_frame \<Rightarrow> can_psu_link \<Rightarrow> can_psu_link" where
  "bus_send f l = l\<lparr>cpl_sent := cpl_sent l @ [f]\<rparr>"

definition can_setModeBounds :: "set_mode_bounds \<Rightarrow> can_psu_link \<Rightarrow> u16 \<times> can_psu_link" where
  "can_setModeBounds m_in l =
     (let m = m_in\<lparr>smb_seq := cpl_seq l\<rparr>;
          l = l\<lparr>cpl_seq := cpl_seq l + 1\<rparr>;
          l = (if cpl_seq l = 0 then l\<lparr>cpl_seq := 1\<rparr> else l);
          l = bus_send (encodeSetModeBounds m) l
      in (smb_seq m, l))"

definition can_startCut :: "can_psu_link \<Rightarrow> can_psu_link" where
  "can_startCut l = bus_send (encodeControl CTRL_START_CUT 0) l"

definition can_stopCut :: "can_psu_link \<Rightarrow> can_psu_link" where
  "can_stopCut l = bus_send (encodeControl CTRL_STOP_CUT 0) l"

definition can_clearFault :: "can_psu_link \<Rightarrow> can_psu_link" where
  "can_clearFault l = bus_send (encodeControl CTRL_CLEAR_FAULT 0) l"

definition can_latestStats :: "can_psu_link \<Rightarrow> stats_agg option" where
  "can_latestStats l = (if cpl_stats_valid l then Some (cpl_stats l) else None)"

definition can_popEvent :: "can_psu_link \<Rightarrow> (psu_event \<times> can_psu_link) option" where
  "can_popEvent l =
     (case deque_pop (cpl_events l) of
        None \<Rightarrow> None
      | Some (e, q) \<Rightarrow> Some (e, l\<lparr>cpl_events := q\<rparr>))"

definition can_pushEvent :: "psu_event \<Rightarrow> can_psu_link \<Rightarrow> can_psu_link" where
  "can_pushEvent e l = l\<lparr>cpl_events := deque_push kMaxEvents e (cpl_events l)\<rparr>"

text \<open>The receive handler: one \<open>case\<close> of the switch per identifier.\<close>

definition can_onFrame :: "can_frame \<Rightarrow> can_psu_link \<Rightarrow> can_psu_link" where
  "can_onFrame f l =
     (if cf_id f = ID_STATS_AGG then
        (case decodeStatsAgg f of Some s \<Rightarrow> l\<lparr>cpl_stats := s, cpl_stats_valid := True\<rparr> | None \<Rightarrow> l)
      else if cf_id f = ID_ACK_MODE_BOUNDS then
        (case decodeAckModeBounds f of
           Some a \<Rightarrow> l\<lparr>cpl_last_ack_status := ucast (ack_status a)\<rparr> | None \<Rightarrow> l)
      else if cf_id f = ID_PSU_STATUS then
        (case decodePsuStatus f of
           Some st \<Rightarrow> l\<lparr>cpl_heartbeat_seen := True,
                       cpl_protocol_ok := (ps_protocol_version st = kProtocolVersion)\<rparr>
         | None \<Rightarrow> l)
      else if cf_id f = ID_WIRE_BREAK then
        (case decodeWireBreak f of Some w \<Rightarrow> can_pushEvent (EvWireBreak w) l | None \<Rightarrow> l)
      else if cf_id f = ID_FAULT then
        (case decodeFault f of Some w \<Rightarrow> can_pushEvent (EvFault w) l | None \<Rightarrow> l)
      else if cf_id f = ID_ARC_BURST then
        (case decodeArcBurst f of Some w \<Rightarrow> can_pushEvent (EvArcBurst w) l | None \<Rightarrow> l)
      else if cf_id f = ID_INFO then
        (case decodeInfo f 61 of Some t \<Rightarrow> can_pushEvent (EvInfo t) l | None \<Rightarrow> l)
      else l)"

definition can_psu_ops :: "can_psu_link psu_ops" where
  "can_psu_ops = \<lparr>po_setModeBounds = can_setModeBounds, po_startCut = can_startCut,
     po_stopCut = can_stopCut, po_clearFault = can_clearFault,
     po_latestStats = can_latestStats, po_popEvent = can_popEvent,
     po_isConnected = cpl_heartbeat_seen, po_protocolCompatible = cpl_protocol_ok,
     po_lastAckStatus = cpl_last_ack_status\<rparr>"

lemma can_psu_ops_sel:
  "po_setModeBounds can_psu_ops = can_setModeBounds" "po_startCut can_psu_ops = can_startCut"
  "po_stopCut can_psu_ops = can_stopCut" "po_clearFault can_psu_ops = can_clearFault"
  "po_latestStats can_psu_ops = can_latestStats" "po_popEvent can_psu_ops = can_popEvent"
  "po_isConnected can_psu_ops = cpl_heartbeat_seen"
  "po_protocolCompatible can_psu_ops = cpl_protocol_ok"
  "po_lastAckStatus can_psu_ops = cpl_last_ack_status"
  by (simp_all add: can_psu_ops_def)

text \<open>
  What the frames on the bus command: a supply that obeys the control frames cuts after
  a start command and until the next stop command.
\<close>

definition spark_step :: "can_frame \<Rightarrow> bool \<Rightarrow> bool" where
  "spark_step f b =
     (if cf_id f = ID_CONTROL then
        (if cf_data f ! 0 = control_byte CTRL_START_CUT then True
         else if cf_data f ! 0 = control_byte CTRL_STOP_CUT then False else b)
      else b)"

definition can_spark :: "can_psu_link \<Rightarrow> bool" where
  "can_spark l = fold spark_step (cpl_sent l) False"

definition can_linv :: "can_psu_link \<Rightarrow> bool" where
  "can_linv l \<longleftrightarrow> length (cpl_events l) \<le> kMaxEvents \<and> cpl_seq l \<noteq> 0"

interpretation can_events: event_queue "deque_push kMaxEvents" deque_pop "\<lambda>q. q"
    "\<lambda>q. length q \<le> kMaxEvents" kMaxEvents
  by (rule deque_queue) (simp add: kMaxEvents_def)

lemma encodeControl_simps [simp]:
  "cf_id (encodeControl c a) = ID_CONTROL" "cf_len (encodeControl c a) = 2"
  "cf_data (encodeControl c a) ! 0 = control_byte c" "cf_data (encodeControl c a) ! Suc 0 = a"
  by (simp_all add: encodeControl_def Let_def)

lemma can_spark_send: "can_spark (bus_send f l) = spark_step f (can_spark l)"
  by (simp add: can_spark_def bus_send_def)

lemma bus_send_simps [simp]:
  "cpl_events (bus_send f l) = cpl_events l" "cpl_seq (bus_send f l) = cpl_seq l"
  "cpl_stats (bus_send f l) = cpl_stats l" "cpl_stats_valid (bus_send f l) = cpl_stats_valid l"
  "cpl_heartbeat_seen (bus_send f l) = cpl_heartbeat_seen l"
  "cpl_protocol_ok (bus_send f l) = cpl_protocol_ok l"
  "cpl_last_ack_status (bus_send f l) = cpl_last_ack_status l"
  "cpl_sent (bus_send f l) = cpl_sent l @ [f]"
  by (simp_all add: bus_send_def)

lemmas can_command_defs = can_startCut_def can_stopCut_def can_clearFault_def
  can_setModeBounds_def Let_def

lemma can_spark_more [simp]: "can_spark (l\<lparr>cpl_seq := n\<rparr>) = can_spark l"
  "can_spark (l\<lparr>cpl_events := q\<rparr>) = can_spark l"
  by (simp_all add: can_spark_def)

interpretation can_link: psu_link can_psu_ops can_spark cpl_events can_linv
proof
  fix l :: can_psu_link and m
  assume "can_linv l"
  show "can_spark (po_startCut can_psu_ops l)" "\<not> can_spark (po_stopCut can_psu_ops l)"
    "can_spark (po_clearFault can_psu_ops l) = can_spark l"
    "can_spark (snd (po_setModeBounds can_psu_ops m l)) = can_spark l"
    by (simp_all add: can_psu_ops_def can_command_defs can_spark_send spark_step_def
        ID_CONTROL_def ID_SET_MODE_BOUNDS_def)
next
  fix l :: can_psu_link and m
  assume "can_linv l"
  then show "can_linv (po_startCut can_psu_ops l) \<and> can_linv (po_stopCut can_psu_ops l)
      \<and> can_linv (po_clearFault can_psu_ops l)
      \<and> can_linv (snd (po_setModeBounds can_psu_ops m l))"
    by (simp add: can_psu_ops_def can_command_defs can_linv_def)
next
  fix l :: can_psu_link and m
  show "cpl_events (po_startCut can_psu_ops l) = cpl_events l
      \<and> cpl_events (po_stopCut can_psu_ops l) = cpl_events l
      \<and> cpl_events (po_clearFault can_psu_ops l) = cpl_events l
      \<and> cpl_events (snd (po_setModeBounds can_psu_ops m l)) = cpl_events l"
    by (simp add: can_psu_ops_def can_command_defs)
next
  fix l :: can_psu_link and m
  show "psu_view can_psu_ops (po_startCut can_psu_ops l) = psu_view can_psu_ops l
      \<and> psu_view can_psu_ops (po_stopCut can_psu_ops l) = psu_view can_psu_ops l
      \<and> psu_view can_psu_ops (po_clearFault can_psu_ops l) = psu_view can_psu_ops l
      \<and> psu_view can_psu_ops (snd (po_setModeBounds can_psu_ops m l)) = psu_view can_psu_ops l"
    by (simp add: psu_view_def can_psu_ops_def can_command_defs can_latestStats_def)
next
  fix l :: can_psu_link
  assume "cpl_events l = []"
  then show "po_popEvent can_psu_ops l = None"
    by (simp add: can_psu_ops_def can_popEvent_def deque_pop_def)
next
  fix l :: can_psu_link and e es
  assume "can_linv l" "cpl_events l = e # es"
  then show "\<exists>l'. po_popEvent can_psu_ops l = Some (e, l') \<and> cpl_events l' = es
      \<and> can_spark l' = can_spark l \<and> psu_view can_psu_ops l' = psu_view can_psu_ops l
      \<and> can_linv l'"
    by (simp add: can_psu_ops_def can_popEvent_def deque_pop_def psu_view_def
        can_latestStats_def can_linv_def)
qed

subsection \<open>Reception\<close>

lemma can_onFrame_linv: "can_linv l \<Longrightarrow> can_linv (can_onFrame f l)"
  by (auto simp: can_onFrame_def can_linv_def can_pushEvent_def can_events.qinv_push
      split: option.splits)

lemma can_onFrame_spark: "can_spark (can_onFrame f l) = can_spark l"
  by (simp add: can_onFrame_def can_pushEvent_def can_spark_def split: option.split)

lemma can_onFrame_sent: "cpl_sent (can_onFrame f l) = cpl_sent l"
  by (simp add: can_onFrame_def can_pushEvent_def split: option.split)

text \<open>Which event a frame queues, if any.\<close>

definition event_of_frame :: "can_frame \<Rightarrow> psu_event option" where
  "event_of_frame f =
     (if cf_id f = ID_WIRE_BREAK then map_option EvWireBreak (decodeWireBreak f)
      else if cf_id f = ID_FAULT then map_option EvFault (decodeFault f)
      else if cf_id f = ID_ARC_BURST then map_option EvArcBurst (decodeArcBurst f)
      else if cf_id f = ID_INFO then map_option EvInfo (decodeInfo f 61) else None)"

lemma can_onFrame_events:
  "cpl_events (can_onFrame f l) =
     (case event_of_frame f of None \<Rightarrow> cpl_events l
      | Some e \<Rightarrow> deque_push kMaxEvents e (cpl_events l))"
  by (auto simp: can_onFrame_def event_of_frame_def can_pushEvent_def psu_id_defs
      split: option.split)

lemma can_onFrames_events:
  "cpl_events (fold can_onFrame fs l) =
     fold (deque_push kMaxEvents) (List.map_filter event_of_frame fs) (cpl_events l)"
  by (induction fs arbitrary: l)
    (auto simp: List.map_filter_simps can_onFrame_events split: option.splits)

lemma can_onFrames_linv: "can_linv l \<Longrightarrow> can_linv (fold can_onFrame fs l)"
  by (induction fs arbitrary: l) (auto simp: can_onFrame_linv)

end
