(* ===== verification/Float32.thy ===== *)
theory Float32
  imports Prelude "HOL-Library.Log_Nat"
begin

text \<open>
  The C++ type \<open>float\<close>. A finite single-precision value is a real number that
  \<^verbatim>\<open>f32\<close> leaves unchanged, and every arithmetic operation of the firmware is the exact
  operation followed by \<^verbatim>\<open>f32\<close>, which rounds to the nearest value with a 24-bit
  significand, ties to even, with gradual underflow at 2^-149. This is IEEE-754
  binary32 arithmetic without its special values: infinities and NaN do not occur in the
  model (the exponent has no upper bound), and the two zeros are one. Fused
  multiply-add contraction is not used.
\<close>

subsection \<open>Rounding\<close>

text \<open>Nearest integer, ties to even.\<close>

definition rhe :: "real \<Rightarrow> int" where
  "rhe x =
     (let f = \<lfloor>x\<rfloor>; d = x - of_int f
      in if d < 1 / 2 then f else if 1 / 2 < d then f + 1 else if even f then f else f + 1)"

text \<open>
  Rounding of a nonnegative number given in units of 2^-149: the number of low bits
  dropped is what exceeds 24 significant bits.
\<close>

definition drop_bits :: "real \<Rightarrow> nat" where
  "drop_bits x = floorlog 2 (nat \<lfloor>x\<rfloor>) - 24"

definition rnd24 :: "real \<Rightarrow> real" where
  "rnd24 x = of_int (rhe (x / 2 ^ drop_bits x)) * 2 ^ drop_bits x"

definition f32 :: "real \<Rightarrow> real" where
  "f32 x = sgn x * (rnd24 (\<bar>x\<bar> * 2 ^ 149) / 2 ^ 149)"

definition is_f32 :: "real \<Rightarrow> bool" where
  "is_f32 x \<longleftrightarrow> f32 x = x"

lemma rhe_of_int [simp]: "rhe (of_int n) = n"
  by (simp add: rhe_def)

lemma rhe_bounds: "\<lfloor>x\<rfloor> \<le> rhe x" "rhe x \<le> \<lfloor>x\<rfloor> + 1"
  by (auto simp: rhe_def Let_def)

lemma rhe_mono: "x \<le> y \<Longrightarrow> rhe x \<le> rhe y"
proof -
  assume le: "x \<le> y"
  then have fl: "\<lfloor>x\<rfloor> \<le> \<lfloor>y\<rfloor>" by (rule floor_mono)
  show ?thesis
  proof (cases "\<lfloor>x\<rfloor> = \<lfloor>y\<rfloor>")
    case True
    with le show ?thesis by (auto simp: rhe_def Let_def)
  next
    case False
    with fl have "\<lfloor>x\<rfloor> + 1 \<le> \<lfloor>y\<rfloor>" by simp
    with rhe_bounds(2)[of x] rhe_bounds(1)[of y] show ?thesis by simp
  qed
qed

lemma rhe_le_of_int: "x \<le> of_int n \<Longrightarrow> rhe x \<le> n"
  using rhe_mono [of x "of_int n"] by simp

lemma rhe_ge_of_int: "of_int n \<le> x \<Longrightarrow> n \<le> rhe x"
  using rhe_mono [of "of_int n" x] by simp

lemma drop_bits_mono: "x \<le> y \<Longrightarrow> drop_bits x \<le> drop_bits y"
  by (simp add: drop_bits_def diff_le_mono floorlog_mono floor_mono nat_mono)

lemma drop_bits_upper: "0 \<le> x \<Longrightarrow> x < 2 ^ (24 + drop_bits x)"
proof -
  assume x: "0 \<le> x"
  define n where "n = nat \<lfloor>x\<rfloor>"
  have "n < 2 ^ (24 + drop_bits x)"
  proof (cases "n = 0")
    case True
    then show ?thesis by simp
  next
    case False
    then have "n < 2 ^ floorlog 2 n" using floorlog_bounds [of n 2] by simp
    also have "(2::nat) ^ floorlog 2 n \<le> 2 ^ (24 + drop_bits x)"
      by (rule power_increasing) (auto simp: drop_bits_def n_def)
    finally show ?thesis .
  qed
  then have "real n + 1 \<le> 2 ^ (24 + drop_bits x)"
    by (metis Suc_leI of_nat_Suc of_nat_le_iff of_nat_numeral of_nat_power add.commute)
  moreover have "x < real n + 1" using x by (simp add: n_def)
  ultimately show ?thesis by simp
qed

lemma drop_bits_lower: "0 < drop_bits x \<Longrightarrow> 2 ^ (23 + drop_bits x) \<le> x"
proof -
  assume d: "0 < drop_bits x"
  define n where "n = nat \<lfloor>x\<rfloor>"
  from d have n: "0 < n" and e: "floorlog 2 n - 1 = 23 + drop_bits x"
    by (auto simp: drop_bits_def n_def floorlog_def split: if_splits)
  from n have "2 ^ (floorlog 2 n - 1) \<le> n" using floorlog_bounds [of n 2] by simp
  then have "2 ^ (23 + drop_bits x) \<le> n" by (simp only: e)
  then have "2 ^ (23 + drop_bits x) \<le> real n"
    by (metis of_nat_le_iff of_nat_numeral of_nat_power)
  also have "real n \<le> x" using n by (simp add: n_def)
  finally show ?thesis .
qed

lemma rnd24_le: "0 \<le> x \<Longrightarrow> rnd24 x \<le> 2 ^ (24 + drop_bits x)"
proof -
  assume "0 \<le> x"
  then have "x / 2 ^ drop_bits x \<le> of_int (2 ^ 24)"
    using drop_bits_upper [of x] by (simp add: field_simps power_add)
  then have "rhe (x / 2 ^ drop_bits x) \<le> 2 ^ 24" by (rule rhe_le_of_int)
  then have "real_of_int (rhe (x / 2 ^ drop_bits x)) \<le> of_int (2 ^ 24)"
    by (simp only: of_int_le_iff)
  then show ?thesis by (simp add: rnd24_def power_add)
qed

lemma rnd24_ge: "0 < drop_bits x \<Longrightarrow> 2 ^ (23 + drop_bits x) \<le> rnd24 x"
proof -
  assume "0 < drop_bits x"
  then have "of_int (2 ^ 23) \<le> x / 2 ^ drop_bits x"
    using drop_bits_lower [of x] by (simp add: field_simps power_add)
  then have "2 ^ 23 \<le> rhe (x / 2 ^ drop_bits x)" by (rule rhe_ge_of_int)
  then have "of_int (2 ^ 23) \<le> real_of_int (rhe (x / 2 ^ drop_bits x))"
    by (simp only: of_int_le_iff)
  then show ?thesis by (simp add: rnd24_def power_add)
qed

lemma rnd24_0 [simp]: "rnd24 0 = 0"
  by (simp add: rnd24_def rhe_def)

lemma rnd24_mono:
  assumes "0 \<le> x" "x \<le> y"
  shows "rnd24 x \<le> rnd24 y"
proof (cases "drop_bits x = drop_bits y")
  case True
  with assms show ?thesis
    by (auto simp: rnd24_def intro!: mult_right_mono rhe_mono divide_right_mono)
next
  case False
  with drop_bits_mono [OF assms(2)] have lt: "drop_bits x < drop_bits y" by simp
  have "rnd24 x \<le> 2 ^ (24 + drop_bits x)" using assms(1) by (rule rnd24_le)
  also have "\<dots> \<le> 2 ^ (23 + drop_bits y)" using lt by (intro power_increasing) auto
  also have "\<dots> \<le> rnd24 y" using lt by (intro rnd24_ge) simp
  finally show ?thesis .
qed

lemma rnd24_nonneg: "0 \<le> x \<Longrightarrow> 0 \<le> rnd24 x"
  using rnd24_mono [of 0 x] by simp

text \<open>Every number with at most 24 significant bits is representable.\<close>

lemma rnd24_exact:
  assumes "m \<le> 2 ^ 24"
  shows "rnd24 (of_nat (m * 2 ^ k)) = of_nat (m * 2 ^ k)"
proof -
  define n where "n = m * 2 ^ k"
  define j where "j = drop_bits (real n)"
  have "2 ^ j dvd n"
  proof (cases "j \<le> k")
    case True
    then show ?thesis by (simp add: n_def le_imp_power_dvd)
  next
    case False
    then have "2 ^ (23 + j) \<le> real n" unfolding j_def by (intro drop_bits_lower) simp
    then have low: "2 ^ (23 + j) \<le> n"
      by (metis of_nat_le_iff of_nat_numeral of_nat_power)
    have up: "n \<le> 2 ^ (24 + k)" using assms by (simp add: n_def power_add)
    from low up have "(2::nat) ^ (23 + j) \<le> 2 ^ (24 + k)" by (rule order_trans)
    then have "23 + j \<le> 24 + k" by (rule power_le_imp_le_exp [rotated]) simp
    with False have "j = k + 1" by simp
    with low up have "n = 2 ^ (24 + k)" by simp
    moreover have "(2::nat) ^ j dvd 2 ^ (24 + k)"
      using \<open>j = k + 1\<close> by (intro le_imp_power_dvd) simp
    ultimately show ?thesis by simp
  qed
  then obtain q where q: "n = 2 ^ j * q" by (rule dvdE)
  have "real n / 2 ^ j = of_int (int q)" by (simp add: q)
  then have "rhe (real n / 2 ^ j) = int q" by (simp only: rhe_of_int)
  then show ?thesis by (simp add: rnd24_def flip: n_def j_def) (simp add: q)
qed

lemma rnd24_idem: "0 \<le> x \<Longrightarrow> rnd24 (rnd24 x) = rnd24 x"
proof -
  assume x: "0 \<le> x"
  define r where "r = rhe (x / 2 ^ drop_bits x)"
  have "0 \<le> r" unfolding r_def using x by (intro rhe_ge_of_int) simp
  have "x / 2 ^ drop_bits x \<le> of_int (2 ^ 24)"
    using x drop_bits_upper [of x] by (simp add: field_simps power_add)
  then have "r \<le> 2 ^ 24" unfolding r_def by (rule rhe_le_of_int)
  define m where "m = nat r"
  have m: "m \<le> 2 ^ 24" and rm: "r = int m"
    using \<open>0 \<le> r\<close> \<open>r \<le> 2 ^ 24\<close> by (auto simp: m_def)
  have "rnd24 x = of_nat (m * 2 ^ drop_bits x)"
    by (simp add: rnd24_def rm flip: r_def)
  then show ?thesis using rnd24_exact [OF m] by simp
qed

subsection \<open>Laws of the rounding to single precision\<close>

lemma f32_0 [simp]: "f32 0 = 0"
  by (simp add: f32_def)

lemma f32_uminus [simp]: "f32 (- x) = - f32 x"
  by (simp add: f32_def sgn_minus)

lemma f32_nonneg_eq: "0 \<le> x \<Longrightarrow> f32 x = rnd24 (x * 2 ^ 149) / 2 ^ 149"
  by (cases "x = 0") (simp_all add: f32_def)

lemma f32_nonneg: "0 \<le> x \<Longrightarrow> 0 \<le> f32 x"
  by (simp add: f32_nonneg_eq rnd24_nonneg)

lemma f32_nonpos: "x \<le> 0 \<Longrightarrow> f32 x \<le> 0"
  using f32_nonneg [of "- x"] by simp

lemma f32_mono_nonneg: "0 \<le> x \<Longrightarrow> x \<le> y \<Longrightarrow> f32 x \<le> f32 y"
  by (simp add: f32_nonneg_eq divide_right_mono rnd24_mono)

theorem f32_mono: "x \<le> y \<Longrightarrow> f32 x \<le> f32 y"
proof -
  assume le: "x \<le> y"
  consider "0 \<le> x" | "x \<le> 0" "0 \<le> y" | "y \<le> 0" by linarith
  then show ?thesis
  proof cases
    case 1
    with le show ?thesis by (simp add: f32_mono_nonneg)
  next
    case 2
    then show ?thesis using f32_nonpos f32_nonneg by (meson order_trans)
  next
    case 3
    with le have "f32 (- y) \<le> f32 (- x)" by (intro f32_mono_nonneg) auto
    then show ?thesis by simp
  qed
qed

theorem f32_idem [simp]: "f32 (f32 x) = f32 x"
proof -
  have pos: "f32 (f32 y) = f32 y" if "0 \<le> y" for y
    using that f32_nonneg [of y]
    by (simp add: f32_nonneg_eq rnd24_nonneg rnd24_idem)
  show ?thesis
  proof (cases "0 \<le> x")
    case True
    then show ?thesis by (rule pos)
  next
    case False
    then have "f32 (f32 (- x)) = f32 (- x)" by (intro pos) simp
    then show ?thesis by simp
  qed
qed

lemma is_f32_f32 [simp]: "is_f32 (f32 x)"
  by (simp add: is_f32_def)

lemma is_f32_0 [simp]: "is_f32 0"
  by (simp add: is_f32_def)

lemma is_f32_uminus [simp]: "is_f32 (- x) = is_f32 x"
  by (simp add: is_f32_def)

text \<open>A rounded bound: rounding cannot cross a representable value.\<close>

lemma f32_le_bound: "x \<le> b \<Longrightarrow> is_f32 b \<Longrightarrow> f32 x \<le> b"
  using f32_mono [of x b] by (simp add: is_f32_def)

lemma f32_ge_bound: "b \<le> x \<Longrightarrow> is_f32 b \<Longrightarrow> b \<le> f32 x"
  using f32_mono [of b x] by (simp add: is_f32_def)

lemma f32_dyadic:
  assumes "m \<le> 2 ^ 24" and "k \<le> 149"
  shows "f32 (of_nat m / 2 ^ k) = of_nat m / 2 ^ k"
proof -
  have e: "of_nat m / 2 ^ k * 2 ^ 149 = (of_nat (m * 2 ^ (149 - k)) :: real)"
  proof -
    have "(2::real) ^ 149 = 2 ^ k * 2 ^ (149 - k)"
      using assms(2) by (simp only: power_add [symmetric] le_add_diff_inverse)
    then have "of_nat m / 2 ^ k * 2 ^ 149 = of_nat m * ((2::real) ^ k * 2 ^ (149 - k)) / 2 ^ k"
      by (simp only: times_divide_eq_left)
    also have "\<dots> = of_nat m * 2 ^ (149 - k)" by simp
    finally show ?thesis by (simp only: of_nat_mult of_nat_power of_nat_numeral)
  qed
  have "f32 (of_nat m / 2 ^ k) = of_nat (m * 2 ^ (149 - k)) / 2 ^ 149"
    by (simp only: f32_nonneg_eq e rnd24_exact [OF assms(1)] zero_le_divide_iff of_nat_0_le_iff
        zero_le_power zero_le_numeral simp_thms)
  also have "\<dots> = of_nat m / 2 ^ k" by (simp only: e [symmetric]) simp
  finally show ?thesis .
qed

lemma f32_of_nat: "n \<le> 2 ^ 24 \<Longrightarrow> f32 (of_nat n) = of_nat n"
  using f32_dyadic [of n 0] by simp

lemma f32_of_int: "\<bar>n\<bar> \<le> 2 ^ 24 \<Longrightarrow> f32 (of_int n) = of_int n"
proof (cases "0 \<le> n")
  case True
  then obtain m where "n = int m" by (rule nonneg_int_cases)
  moreover assume "\<bar>n\<bar> \<le> 2 ^ 24"
  ultimately show ?thesis using f32_of_nat [of m] by simp
next
  case False
  then obtain m where m: "n = - int m" by (metis int_cases2 of_nat_0_le_iff)
  assume "\<bar>n\<bar> \<le> 2 ^ 24"
  with m have "m \<le> 2 ^ 24" by simp
  then show ?thesis using f32_of_nat [of m] m by simp
qed

subsection \<open>Evaluating exact operations\<close>

text \<open>
  Closed terms whose value has a short binary expansion evaluate by rewriting: the
  side conditions are decided on numerals.
\<close>

lemma f32_1 [simp]: "f32 1 = 1"
  using f32_of_nat [of 1] by simp

lemma f32_numeral [float_simps]: "(numeral a :: nat) \<le> 2 ^ 24 \<Longrightarrow> f32 (numeral a) = numeral a"
  using f32_of_nat [of "numeral a"] by simp

lemma dvd_power_of_two: "(b :: nat) dvd 2 ^ n \<Longrightarrow> \<exists>k \<le> n. b = 2 ^ k"
proof (induction n arbitrary: b)
  case 0
  then show ?case by simp
next
  case (Suc n)
  show ?case
  proof (cases "even b")
    case True
    then obtain c where c: "b = 2 * c" by (rule evenE)
    with Suc.prems have "c dvd 2 ^ n" by simp
    then obtain k where "k \<le> n" "c = 2 ^ k" using Suc.IH by blast
    with c show ?thesis by (intro exI [of _ "Suc k"]) simp
  next
    case False
    then have "coprime b (2 ^ Suc n)" by simp
    with Suc.prems have "is_unit b" using coprime_absorb_left by blast
    then have "b = 1" by simp
    then show ?thesis by (intro exI [of _ 0]) simp
  qed
qed

lemma dyadic_denominator:
  assumes "(b :: nat) dvd 2 ^ 100"
  obtains k where "b = 2 ^ k" "k \<le> 149"
proof -
  from assms obtain k where "b = 2 ^ k" "k \<le> 100"
    using dvd_power_of_two [of b 100] by blast
  then show ?thesis using that [of k] by simp
qed

lemma f32_frac [float_simps]:
  assumes "(numeral b :: nat) dvd 2 ^ 100" and "(numeral a :: nat) \<le> 2 ^ 24"
  shows "f32 (numeral a / numeral b) = numeral a / numeral b"
proof -
  from assms(1) obtain k where k: "(numeral b :: nat) = 2 ^ k" "k \<le> 149"
    by (rule dyadic_denominator)
  then have "(numeral b :: real) = 2 ^ k" by (metis of_nat_numeral of_nat_power)
  then show ?thesis using f32_dyadic [OF assms(2) k(2)] by simp
qed

lemma f32_unit_frac [float_simps]:
  assumes "(numeral b :: nat) dvd 2 ^ 100"
  shows "f32 (1 / numeral b) = 1 / numeral b"
proof -
  from assms obtain k where k: "(numeral b :: nat) = 2 ^ k" "k \<le> 149"
    by (rule dyadic_denominator)
  then have "(numeral b :: real) = 2 ^ k" by (metis of_nat_numeral of_nat_power)
  then show ?thesis using f32_dyadic [of 1 k] k(2) by simp
qed

subsection \<open>Arithmetic of the type float\<close>

definition fadd :: "real \<Rightarrow> real \<Rightarrow> real" where "fadd a b = f32 (a + b)"
definition fsub :: "real \<Rightarrow> real \<Rightarrow> real" where "fsub a b = f32 (a - b)"
definition fmul :: "real \<Rightarrow> real \<Rightarrow> real" where "fmul a b = f32 (a * b)"
definition fdiv :: "real \<Rightarrow> real \<Rightarrow> real" where "fdiv a b = f32 (a / b)"
definition fsqrt :: "real \<Rightarrow> real" where "fsqrt a = f32 (sqrt a)"
definition fhypot :: "real \<Rightarrow> real \<Rightarrow> real" where "fhypot a b = f32 (sqrt (a ^ 2 + b ^ 2))"

text \<open>Conversion of an integer to \<open>float\<close>.\<close>

definition fint :: "int \<Rightarrow> real" where "fint n = f32 (of_int n)"

text \<open>Trigonometry of the C library.\<close>

definition fcos :: "real \<Rightarrow> real" where "fcos x = f32 (cos x)"
definition fsin :: "real \<Rightarrow> real" where "fsin x = f32 (sin x)"

definition fatan2 :: "real \<Rightarrow> real \<Rightarrow> real" where
  "fatan2 y x = f32 (if 0 < x then arctan (y / x)
     else if x < 0 then (if 0 \<le> y then arctan (y / x) + pi else arctan (y / x) - pi)
     else if 0 < y then pi / 2 else if y < 0 then - pi / 2 else 0)"

text \<open>The helper \<open>clampf\<close> that several translation units define.\<close>

definition clampf :: "real \<Rightarrow> real \<Rightarrow> real \<Rightarrow> real" where
  "clampf v lo hi = (if v < lo then lo else if hi < v then hi else v)"

lemmas fop_defs = fadd_def fsub_def fmul_def fdiv_def

lemma is_f32_ops [simp]:
  "is_f32 (fadd a b)" "is_f32 (fsub a b)" "is_f32 (fmul a b)" "is_f32 (fdiv a b)"
  "is_f32 (fsqrt a)" "is_f32 (fhypot a b)" "is_f32 (fint n)"
  by (simp_all add: fop_defs fsqrt_def fhypot_def fint_def)

lemma is_f32_clampf: "is_f32 v \<Longrightarrow> is_f32 lo \<Longrightarrow> is_f32 hi \<Longrightarrow> is_f32 (clampf v lo hi)"
  by (simp add: clampf_def)

lemma clampf_bounds: "lo \<le> hi \<Longrightarrow> lo \<le> clampf v lo hi \<and> clampf v lo hi \<le> hi"
  by (auto simp: clampf_def)

lemma clampf_id: "lo \<le> v \<Longrightarrow> v \<le> hi \<Longrightarrow> clampf v lo hi = v"
  by (simp add: clampf_def)

lemma clampf_mono: "v \<le> w \<Longrightarrow> lo \<le> hi \<Longrightarrow> clampf v lo hi \<le> clampf w lo hi"
  by (auto simp: clampf_def)

lemma fint_nonneg: "0 \<le> n \<Longrightarrow> 0 \<le> fint n"
  by (simp add: fint_def f32_nonneg)

lemma fint_mono: "m \<le> n \<Longrightarrow> fint m \<le> fint n"
  by (simp add: fint_def f32_mono)

lemma fint_nonpos: "n \<le> 0 \<Longrightarrow> fint n \<le> 0"
  by (simp add: fint_def f32_nonpos)

lemma fint_0 [simp]: "fint 0 = 0"
  by (simp add: fint_def)

lemma fint_exact: "\<bar>n\<bar> \<le> 2 ^ 24 \<Longrightarrow> fint n = of_int n"
  by (simp add: fint_def f32_of_int)

lemma fhypot_nonneg: "0 \<le> fhypot a b"
  by (simp add: fhypot_def f32_nonneg)

subsection \<open>Linear interpolation\<close>

text \<open>\<^verbatim>\<open>lerpf\<close>, as the two simulators define it.\<close>

definition flerp :: "real \<Rightarrow> real \<Rightarrow> real \<Rightarrow> real" where
  "flerp a b t = fadd a (fmul (fsub b a) t)"

lemma flerp_mono: "a \<le> b \<Longrightarrow> r \<le> r' \<Longrightarrow> flerp a b r \<le> flerp a b r'"
proof -
  assume "a \<le> b" "r \<le> r'"
  then have "fsub b a * r \<le> fsub b a * r'"
    by (intro mult_left_mono) (simp_all add: fsub_def f32_nonneg)
  then show ?thesis by (simp add: flerp_def fadd_def fmul_def f32_mono)
qed

lemma flerp_antimono: "b \<le> a \<Longrightarrow> r \<le> r' \<Longrightarrow> flerp a b r' \<le> flerp a b r"
proof -
  assume "b \<le> a" "r \<le> r'"
  then have "fsub b a * r' \<le> fsub b a * r"
    by (intro mult_left_mono_neg) (simp_all add: fsub_def f32_nonpos)
  then show ?thesis by (simp add: flerp_def fadd_def fmul_def f32_mono)
qed

text \<open>
  Rounding at most doubles a magnitude (the worst case is the smallest subnormal), so an
  interpolation with a factor of at most a quarter cannot leave an interval that holds
  both of its ends.
\<close>

lemma rhe_le_double: "0 \<le> x \<Longrightarrow> of_int (rhe x) \<le> 2 * x"
proof -
  assume x: "0 \<le> x"
  then have fl: "0 \<le> \<lfloor>x\<rfloor>" "of_int \<lfloor>x\<rfloor> \<le> x" by simp_all
  show ?thesis
  proof (cases "\<lfloor>x\<rfloor> = 0")
    case True
    with x show ?thesis by (auto simp: rhe_def Let_def)
  next
    case False
    with fl(1) have "1 \<le> \<lfloor>x\<rfloor>" by linarith
    then have one: "1 \<le> real_of_int \<lfloor>x\<rfloor>" by (simp only: one_le_floor of_int_1_le_iff)
    have "real_of_int (rhe x) \<le> of_int (\<lfloor>x\<rfloor> + 1)"
      using rhe_bounds(2) [of x] by (simp only: of_int_le_iff)
    also have "\<dots> = of_int \<lfloor>x\<rfloor> + 1" by (simp only: of_int_add of_int_1)
    finally show ?thesis using one fl(2) by linarith
  qed
qed

lemma f32_le_double: "0 \<le> x \<Longrightarrow> f32 x \<le> 2 * x"
proof -
  assume x: "0 \<le> x"
  define y where "y = x * 2 ^ 149"
  have "of_int (rhe (y / 2 ^ drop_bits y)) \<le> 2 * (y / 2 ^ drop_bits y)"
    by (rule rhe_le_double) (simp add: y_def x)
  then have "rnd24 y \<le> 2 * (y / 2 ^ drop_bits y) * 2 ^ drop_bits y"
    unfolding rnd24_def by (rule mult_right_mono) simp
  then have "rnd24 y \<le> 2 * y" by simp
  then show ?thesis using x by (simp add: f32_nonneg_eq y_def field_simps)
qed

lemma flerp_upper:
  assumes "0 \<le> t" "t \<le> 1 / 4" "a \<le> M" "b \<le> M" "is_f32 M"
  shows "flerp a b t \<le> M"
proof (cases "a \<le> b")
  case True
  then have d: "0 \<le> fsub b a" "fsub b a \<le> 2 * (b - a)"
    using f32_le_double [of "b - a"] by (simp_all only: fsub_def f32_nonneg diff_ge_0_iff_ge)
  have "fmul (fsub b a) t \<le> 2 * (fsub b a * t)"
    using d(1) assms(1) by (simp add: fmul_def f32_le_double)
  also have "fsub b a * t \<le> 2 * (b - a) * (1 / 4)"
    by (rule mult_mono) (use d assms True in auto)
  finally have "a + fmul (fsub b a) t \<le> M" using assms(4) by simp
  then show ?thesis unfolding flerp_def fadd_def by (rule f32_le_bound) (rule assms(5))
next
  case False
  then have "fmul (fsub b a) t \<le> 0"
    using assms(1) by (simp add: fmul_def fsub_def f32_nonpos mult_nonpos_nonneg)
  then have "a + fmul (fsub b a) t \<le> M" using assms(3) by simp
  then show ?thesis unfolding flerp_def fadd_def by (rule f32_le_bound) (rule assms(5))
qed

lemma flerp_uminus: "flerp (- a) (- b) t = - flerp a b t"
proof -
  have "- b - - a = - (b - a)" by simp
  then show ?thesis
    by (simp only: flerp_def fadd_def fmul_def fsub_def f32_uminus mult_minus_left
        flip: minus_add_distrib)
qed

lemma flerp_lower:
  assumes "0 \<le> t" "t \<le> 1 / 4" "m \<le> a" "m \<le> b" "is_f32 m"
  shows "m \<le> flerp a b t"
  using flerp_upper [of t "- a" "- m" "- b"] assms by (simp add: flerp_uminus)

lemma flerp_decay:
  assumes "0 \<le> t" "t \<le> 1" "0 \<le> a" "is_f32 a"
  shows "0 \<le> flerp a 0 t" "flerp a 0 t \<le> a"
proof -
  have d: "fsub 0 a = - a" using assms(4) by (simp add: fsub_def is_f32_def)
  have le: "a * t \<le> a" using assms by (simp add: mult_left_le)
  then have "f32 (a * t) \<le> a" using assms(4) by (rule f32_le_bound)
  moreover have "0 \<le> f32 (a * t)" using assms by (intro f32_nonneg) simp
  ultimately show "0 \<le> flerp a 0 t" "flerp a 0 t \<le> a"
    using assms(4) by (auto simp: flerp_def d fadd_def fmul_def intro!: f32_nonneg f32_le_bound)
qed

end
