(* ===== verification/SimPsu.thy ===== *)
theory SimPsu
  imports PsuLink Float32
begin

text \<open>
  \<^verbatim>\<open>SimPsuLink\<close> (\<^verbatim>\<open>EDM/Psu/SimPsuLink.h\<close>, \<^verbatim>\<open>EDM/Psu/SimPsuLink.cpp\<close>), the in-firmware
  simulator of the supply: a one-dimensional gap that the commanded velocity closes or
  opens, from which it derives the pulse-classifier counts, and an eight-slot ring of
  events. It implements the contract \<open>psu_link\<close>.
\<close>

definition kEvtCap :: nat where "kEvtCap = 8"

record sim_psu =
  sim_connected :: bool
  sim_cutting :: bool
  sim_gap_mm :: real
  sim_ideal_gap_mm :: real
  sim_coupling :: real
  sim_last_v_um_s :: i32
  sim_seq :: u16
  sim_window :: u32
  sim_stats :: stats_agg
  sim_stats_valid :: bool
  sim_mode :: set_mode_bounds
  sim_evts :: "psu_event ring"

text \<open>The slots of the ring are uninitialised in the code; here they hold empty texts.\<close>

definition sim_init :: sim_psu where
  "sim_init = \<lparr>sim_connected = False, sim_cutting = False, sim_gap_mm = f32 0.02,
     sim_ideal_gap_mm = f32 0.02, sim_coupling = 0, sim_last_v_um_s = 0, sim_seq = 0,
     sim_window = 0, sim_stats = stats_agg_default, sim_stats_valid = False,
     sim_mode = set_mode_bounds_default,
     sim_evts = \<lparr>rg_evts = replicate kEvtCap (EvInfo []), rg_head = 0, rg_count = 0\<rparr>\<rparr>"

definition sim_begin :: "sim_psu \<Rightarrow> sim_psu" where
  "sim_begin l = l\<lparr>sim_connected := True\<rparr>"

definition sim_setGap :: "real \<Rightarrow> sim_psu \<Rightarrow> sim_psu" where
  "sim_setGap mm l = l\<lparr>sim_gap_mm := (if mm < 0 then 0 else mm)\<rparr>"

definition sim_setVelocityCoupling :: "real \<Rightarrow> sim_psu \<Rightarrow> sim_psu" where
  "sim_setVelocityCoupling c l = l\<lparr>sim_coupling := c\<rparr>"

definition sim_applyCommandedVelocity :: "i32 \<Rightarrow> sim_psu \<Rightarrow> sim_psu" where
  "sim_applyCommandedVelocity v l = l\<lparr>sim_last_v_um_s := v\<rparr>"

definition sim_pushEvent :: "psu_event \<Rightarrow> sim_psu \<Rightarrow> sim_psu" where
  "sim_pushEvent e l = l\<lparr>sim_evts := ring_push kEvtCap e (sim_evts l)\<rparr>"

definition sim_popEvent :: "sim_psu \<Rightarrow> (psu_event \<times> sim_psu) option" where
  "sim_popEvent l =
     (case ring_pop kEvtCap (sim_evts l) of
        None \<Rightarrow> None
      | Some (e, r) \<Rightarrow> Some (e, l\<lparr>sim_evts := r\<rparr>))"

definition sim_setModeBounds :: "set_mode_bounds \<Rightarrow> sim_psu \<Rightarrow> u16 \<times> sim_psu" where
  "sim_setModeBounds m l =
     (let l = l\<lparr>sim_mode := m, sim_seq := sim_seq l + 1\<rparr> in (sim_seq l, l))"

definition sim_startCut :: "sim_psu \<Rightarrow> sim_psu" where
  "sim_startCut l = l\<lparr>sim_cutting := True\<rparr>"

definition sim_stopCut :: "sim_psu \<Rightarrow> sim_psu" where
  "sim_stopCut l = l\<lparr>sim_cutting := False\<rparr>"

definition sim_clearFault :: "sim_psu \<Rightarrow> sim_psu" where
  "sim_clearFault l = l"

definition sim_latestStats :: "sim_psu \<Rightarrow> stats_agg option" where
  "sim_latestStats l = (if sim_stats_valid l then Some (sim_stats l) else None)"

subsection \<open>The gap model\<close>

text \<open>Fractions of short, arc, normal and open pulses at the relative gap \<open>r\<close>.\<close>

definition sim_fractions :: "real \<Rightarrow> real \<times> real \<times> real \<times> real" where
  "sim_fractions r =
     (if r \<le> 1 then
        (flerp (f32 0.90) (f32 0.06) r, flerp (f32 0.05) (f32 0.08) r,
         flerp (f32 0.05) (f32 0.80) r, flerp (f32 0.00) (f32 0.06) r)
      else
        let t = fdiv (fsub r 1) 3; t = (if 1 < t then 1 else t)
        in (flerp (f32 0.06) (f32 0.00) t, flerp (f32 0.08) (f32 0.01) t,
            flerp (f32 0.80) (f32 0.02) t, flerp (f32 0.06) (f32 0.97) t))"

definition sim_count :: "real \<Rightarrow> int" where
  "sim_count f = trunc (fadd (fmul f 100) (1 / 2))"

definition sim_gap_step :: "sim_psu \<Rightarrow> real" where
  "sim_gap_step l =
     (let g = fsub (sim_gap_mm l) (fmul (sim_coupling l) (fint (sint (sim_last_v_um_s l))))
      in if g < 0 then 0 else g)"

definition sim_tick :: "sim_psu \<Rightarrow> sim_psu" where
  "sim_tick l =
     (let l = l\<lparr>sim_gap_mm := sim_gap_step l\<rparr>;
          r = (if 0 < sim_ideal_gap_mm l then fdiv (sim_gap_mm l) (sim_ideal_gap_mm l) else 0);
          (fs, fa, fn, fo) = sim_fractions r;
          n_short = sim_count fs;
          n_arc = sim_count fa;
          n_open = sim_count fo;
          n_normal = 100 - n_short - n_arc - n_open;
          n_normal = (if n_normal < 0 then 0 else n_normal);
          s = stats_agg_default\<lparr>
            st_window_id := sim_window l,
            st_n_normal := word_of_int n_normal,
            st_n_arc := word_of_int n_arc,
            st_n_short := word_of_int n_short,
            st_n_open := word_of_int n_open,
            st_ignition_delay_mean_ns :=
              word_of_int (trunc (fadd 2000 (fmul 8000 (if 3 < r then 3 else r)))),
            st_ignition_delay_stddev_ns := 200,
            st_state := (if sim_cutting l then 0 else 1),
            st_mode_id_active := smb_mode_id (sim_mode l),
            st_dc_link_V_dV := 800\<rparr>
      in l\<lparr>sim_window := sim_window l + 1, sim_stats := s, sim_stats_valid := True\<rparr>)"

definition sim_psu_ops :: "sim_psu psu_ops" where
  "sim_psu_ops = \<lparr>po_setModeBounds = sim_setModeBounds, po_startCut = sim_startCut,
     po_stopCut = sim_stopCut, po_clearFault = sim_clearFault,
     po_latestStats = sim_latestStats, po_popEvent = sim_popEvent,
     po_isConnected = sim_connected, po_protocolCompatible = sim_connected,
     po_lastAckStatus = (\<lambda>_. 0)\<rparr>"

subsection \<open>The simulator is a link\<close>

definition sim_pending :: "sim_psu \<Rightarrow> psu_event list" where
  "sim_pending l = ring_contents kEvtCap (sim_evts l)"

definition sim_linv :: "sim_psu \<Rightarrow> bool" where
  "sim_linv l \<longleftrightarrow> ring_inv kEvtCap (sim_evts l)"

interpretation sim_events: event_queue "ring_push kEvtCap" "ring_pop kEvtCap"
    "ring_contents kEvtCap" "ring_inv kEvtCap" kEvtCap
  by (rule ring_queue) (simp add: kEvtCap_def)

lemmas sim_command_defs = sim_startCut_def sim_stopCut_def sim_clearFault_def
  sim_setModeBounds_def Let_def

interpretation sim_link: psu_link sim_psu_ops sim_cutting sim_pending sim_linv
proof
  fix l :: sim_psu and m
  show "sim_cutting (po_startCut sim_psu_ops l)" "\<not> sim_cutting (po_stopCut sim_psu_ops l)"
    "sim_cutting (po_clearFault sim_psu_ops l) = sim_cutting l"
    "sim_cutting (snd (po_setModeBounds sim_psu_ops m l)) = sim_cutting l"
    by (simp_all add: sim_psu_ops_def sim_command_defs)
next
  fix l :: sim_psu and m
  assume "sim_linv l"
  then show "sim_linv (po_startCut sim_psu_ops l) \<and> sim_linv (po_stopCut sim_psu_ops l)
      \<and> sim_linv (po_clearFault sim_psu_ops l)
      \<and> sim_linv (snd (po_setModeBounds sim_psu_ops m l))"
    by (simp add: sim_psu_ops_def sim_command_defs sim_linv_def)
next
  fix l :: sim_psu and m
  show "sim_pending (po_startCut sim_psu_ops l) = sim_pending l
      \<and> sim_pending (po_stopCut sim_psu_ops l) = sim_pending l
      \<and> sim_pending (po_clearFault sim_psu_ops l) = sim_pending l
      \<and> sim_pending (snd (po_setModeBounds sim_psu_ops m l)) = sim_pending l"
    by (simp add: sim_psu_ops_def sim_command_defs sim_pending_def)
next
  fix l :: sim_psu and m
  show "psu_view sim_psu_ops (po_startCut sim_psu_ops l) = psu_view sim_psu_ops l
      \<and> psu_view sim_psu_ops (po_stopCut sim_psu_ops l) = psu_view sim_psu_ops l
      \<and> psu_view sim_psu_ops (po_clearFault sim_psu_ops l) = psu_view sim_psu_ops l
      \<and> psu_view sim_psu_ops (snd (po_setModeBounds sim_psu_ops m l)) = psu_view sim_psu_ops l"
    by (simp add: psu_view_def sim_psu_ops_def sim_command_defs sim_latestStats_def)
next
  fix l :: sim_psu
  assume "sim_linv l" "sim_pending l = []"
  then have "ring_pop kEvtCap (sim_evts l) = None"
    unfolding sim_linv_def sim_pending_def by (rule sim_events.pop_empty)
  then show "po_popEvent sim_psu_ops l = None"
    by (simp add: sim_psu_ops_def sim_popEvent_def)
next
  fix l :: sim_psu and e es
  assume "sim_linv l" "sim_pending l = e # es"
  then obtain r where "ring_pop kEvtCap (sim_evts l) = Some (e, r)"
    "ring_contents kEvtCap r = es" "ring_inv kEvtCap r"
    using sim_events.pop_oldest [of "sim_evts l" e es]
    by (auto simp: sim_linv_def sim_pending_def)
  then show "\<exists>l'. po_popEvent sim_psu_ops l = Some (e, l') \<and> sim_pending l' = es
      \<and> sim_cutting l' = sim_cutting l \<and> psu_view sim_psu_ops l' = psu_view sim_psu_ops l
      \<and> sim_linv l'"
    by (simp add: sim_psu_ops_def sim_popEvent_def psu_view_def sim_latestStats_def
        sim_linv_def sim_pending_def)
qed

lemma sim_init_linv: "sim_linv sim_init"
  by (simp add: sim_linv_def sim_init_def ring_inv_def kEvtCap_def)

subsection \<open>Behaviour of the gap model\<close>

lemma sim_tick_simps [simp]:
  "sim_cutting (sim_tick l) = sim_cutting l" "sim_connected (sim_tick l) = sim_connected l"
  "sim_evts (sim_tick l) = sim_evts l" "sim_gap_mm (sim_tick l) = sim_gap_step l"
  "sim_window (sim_tick l) = sim_window l + 1" "sim_stats_valid (sim_tick l)"
  "st_window_id (sim_stats (sim_tick l)) = sim_window l"
  "sim_ideal_gap_mm (sim_tick l) = sim_ideal_gap_mm l"
  by (simp_all add: sim_tick_def Let_def split: prod.split)

lemma sim_gap_nonneg: "0 \<le> sim_gap_mm (sim_tick l)"
  by (simp add: sim_gap_step_def Let_def)

text \<open>
  The simulated plant has the sign a gap servo relies on: advancing cannot open the gap
  and retracting cannot close it.
\<close>

lemma sim_advance_closes:
  assumes "0 \<le> sim_coupling l" "is_f32 (sim_gap_mm l)" "0 \<le> sim_gap_mm l"
    and "0 \<le> sint (sim_last_v_um_s l)"
  shows "sim_gap_mm (sim_tick l) \<le> sim_gap_mm l"
proof -
  have "0 \<le> fmul (sim_coupling l) (fint (sint (sim_last_v_um_s l)))"
    using assms(1,4) by (simp add: fmul_def f32_nonneg fint_nonneg)
  then have "fsub (sim_gap_mm l) (fmul (sim_coupling l) (fint (sint (sim_last_v_um_s l))))
      \<le> sim_gap_mm l"
    unfolding fsub_def by (intro f32_le_bound) (use assms(2) in simp_all)
  then show ?thesis using assms(3) by (simp add: sim_gap_step_def Let_def)
qed

lemma sim_retract_opens:
  assumes "0 \<le> sim_coupling l" "is_f32 (sim_gap_mm l)" "0 \<le> sim_gap_mm l"
    and "sint (sim_last_v_um_s l) \<le> 0"
  shows "sim_gap_mm l \<le> sim_gap_mm (sim_tick l)"
proof -
  have "fint (sint (sim_last_v_um_s l)) \<le> 0"
    using assms(4) by (rule fint_nonpos)
  then have "fmul (sim_coupling l) (fint (sint (sim_last_v_um_s l))) \<le> 0"
    using assms(1) by (simp add: fmul_def f32_nonpos mult_nonneg_nonpos)
  then have "sim_gap_mm l
      \<le> fsub (sim_gap_mm l) (fmul (sim_coupling l) (fint (sint (sim_last_v_um_s l))))"
    unfolding fsub_def by (intro f32_ge_bound) (use assms(2) in simp_all)
  then show ?thesis using assms(3) by (simp add: sim_gap_step_def Let_def)
qed

text \<open>
  Inside the ideal gap a smaller gap never lowers the number of short pulses, and never
  raises the number of open pulses.
\<close>

lemma sim_count_mono: "f \<le> g \<Longrightarrow> sim_count f \<le> sim_count g"
  by (simp add: sim_count_def fadd_def fmul_def trunc_mono f32_mono)

lemma sim_short_open_monotone:
  assumes "r \<le> r'" "r' \<le> 1"
  shows "sim_count (fst (sim_fractions r')) \<le> sim_count (fst (sim_fractions r))"
    and "sim_count (snd (snd (snd (sim_fractions r)))) \<le> sim_count (snd (snd (snd (sim_fractions r'))))"
proof -
  have r: "r \<le> 1" using assms by simp
  have "flerp (f32 0.90) (f32 0.06) r' \<le> flerp (f32 0.90) (f32 0.06) r"
    by (intro flerp_antimono f32_mono assms(1)) simp
  then show "sim_count (fst (sim_fractions r')) \<le> sim_count (fst (sim_fractions r))"
    using assms(2) r by (simp add: sim_fractions_def sim_count_mono)
  have "flerp (f32 0) (f32 0.06) r \<le> flerp (f32 0) (f32 0.06) r'"
    by (intro flerp_mono f32_mono assms(1)) simp
  then show "sim_count (snd (snd (snd (sim_fractions r)))) \<le> sim_count (snd (snd (snd (sim_fractions r'))))"
    using assms(2) r by (simp add: sim_fractions_def sim_count_mono)
qed

end
