(* ===== verification/DielLink.thy ===== *)
theory DielLink
  imports DielProtocol EventQueue Float32
begin

text \<open>
  The dielectric link. \<^verbatim>\<open>IDielLink\<close> (\<^verbatim>\<open>EDM/Diel/IDielLink.h\<close>) is the record \<open>diel_ops\<close> with
  the contract \<open>diel_link\<close>; \<^verbatim>\<open>CanDielLink\<close> (\<^verbatim>\<open>EDM/Diel/CanDielLink.h\<close>, \<^verbatim>\<open>.cpp\<close>) and
  \<^verbatim>\<open>SimDielLink\<close> (\<^verbatim>\<open>EDM/Diel/SimDielLink.h\<close>, \<^verbatim>\<open>.cpp\<close>) are its two implementations.
\<close>

subsection \<open>The interface\<close>

datatype diel_event = DielFaultEvt diel_fault

record 'd diel_ops =
  do_setDiel :: "set_diel \<Rightarrow> 'd \<Rightarrow> u16 \<times> 'd"
  do_latestStats :: "'d \<Rightarrow> diel_stats option"
  do_popEvent :: "'d \<Rightarrow> (diel_event \<times> 'd) option"
  do_isConnected :: "'d \<Rightarrow> bool"
  do_protocolCompatible :: "'d \<Rightarrow> bool"
  do_present :: "'d \<Rightarrow> bool"

definition diel_presence :: "'d diel_ops \<Rightarrow> 'd \<Rightarrow> bool \<times> bool \<times> bool" where
  "diel_presence ops d = (do_isConnected ops d, do_protocolCompatible ops d, do_present ops d)"

text \<open>
  A command never makes a module appear or vanish and never loses an event; taking an
  event changes nothing a client can read. A module that is present is connected.
\<close>

locale diel_link =
  fixes ops :: "'d diel_ops"
    and pending :: "'d \<Rightarrow> diel_event list"
    and dinv :: "'d \<Rightarrow> bool"
  assumes set_dinv: "dinv d \<Longrightarrow> dinv (snd (do_setDiel ops s d))"
    and set_presence: "dinv d \<Longrightarrow> diel_presence ops (snd (do_setDiel ops s d)) = diel_presence ops d"
    and set_pending: "dinv d \<Longrightarrow> pending (snd (do_setDiel ops s d)) = pending d"
    and present_connected: "dinv d \<Longrightarrow> do_present ops d \<Longrightarrow> do_isConnected ops d"
    and dpop_None: "dinv d \<Longrightarrow> pending d = [] \<Longrightarrow> do_popEvent ops d = None"
    and dpop_Some: "dinv d \<Longrightarrow> pending d = e # es \<Longrightarrow> \<exists>d'. do_popEvent ops d = Some (e, d')
          \<and> pending d' = es \<and> do_latestStats ops d' = do_latestStats ops d
          \<and> diel_presence ops d' = diel_presence ops d \<and> dinv d'"
begin

text \<open>Any sequence of commands leaves presence and pending events alone.\<close>

lemma sets_keep:
  "dinv d \<Longrightarrow> diel_presence ops (fold (\<lambda>s d. snd (do_setDiel ops s d)) ss d) = diel_presence ops d
     \<and> pending (fold (\<lambda>s d. snd (do_setDiel ops s d)) ss d) = pending d"
  by (induction ss arbitrary: d) (simp_all add: set_dinv set_presence set_pending)

end

sublocale diel_link \<subseteq> src: event_source "do_popEvent ops" pending dinv
proof
  fix d assume "dinv d" "pending d = []"
  then show "do_popEvent ops d = None" by (rule dpop_None)
next
  fix d e es assume "dinv d" "pending d = e # es"
  then show "\<exists>d'. do_popEvent ops d = Some (e, d') \<and> pending d' = es \<and> dinv d'"
    using dpop_Some by blast
qed

subsection \<open>The CAN implementation\<close>

definition diel_kMaxEvents :: nat where "diel_kMaxEvents = 16"

record can_diel_link =
  cdl_sent :: "can_frame list"
  cdl_seq :: u16
  cdl_stats :: diel_stats
  cdl_stats_valid :: bool
  cdl_events :: "diel_event list"
  cdl_heartbeat_seen :: bool
  cdl_protocol_ok :: bool
  cdl_last_ack_status :: u8

definition can_diel_init :: can_diel_link where
  "can_diel_init = \<lparr>cdl_sent = [], cdl_seq = 1, cdl_stats = diel_stats_default,
     cdl_stats_valid = False, cdl_events = [], cdl_heartbeat_seen = False,
     cdl_protocol_ok = False, cdl_last_ack_status = 0\<rparr>"

definition can_setDiel :: "set_diel \<Rightarrow> can_diel_link \<Rightarrow> u16 \<times> can_diel_link" where
  "can_setDiel s_in d =
     (let s = s_in\<lparr>sd_seq := cdl_seq d\<rparr>;
          d = d\<lparr>cdl_seq := cdl_seq d + 1\<rparr>;
          d = (if cdl_seq d = 0 then d\<lparr>cdl_seq := 1\<rparr> else d);
          d = d\<lparr>cdl_sent := cdl_sent d @ [encodeSetDiel s]\<rparr>
      in (sd_seq s, d))"

definition can_diel_latestStats :: "can_diel_link \<Rightarrow> diel_stats option" where
  "can_diel_latestStats d = (if \<not> cdl_stats_valid d then None else Some (cdl_stats d))"

definition can_diel_popEvent :: "can_diel_link \<Rightarrow> (diel_event \<times> can_diel_link) option" where
  "can_diel_popEvent d =
     (case deque_pop (cdl_events d) of
        None \<Rightarrow> None
      | Some (e, q) \<Rightarrow> Some (e, d\<lparr>cdl_events := q\<rparr>))"

definition can_diel_onFrame :: "can_frame \<Rightarrow> can_diel_link \<Rightarrow> can_diel_link" where
  "can_diel_onFrame f d =
     (if cf_id f = ID_DIEL_STATS then
        (case decodeDielStats f of
           Some s \<Rightarrow> d\<lparr>cdl_stats := s, cdl_stats_valid := True\<rparr> | None \<Rightarrow> d)
      else if cf_id f = ID_ACK_DIEL then
        (case decodeAckDiel f of Some a \<Rightarrow> d\<lparr>cdl_last_ack_status := ad_status a\<rparr> | None \<Rightarrow> d)
      else if cf_id f = ID_DIEL_STATUS then
        (case decodeDielStatus f of
           Some st \<Rightarrow> d\<lparr>cdl_heartbeat_seen := True,
                       cdl_protocol_ok := (dst_protocol_version st = diel_kProtocolVersion)\<rparr>
         | None \<Rightarrow> d)
      else if cf_id f = ID_DIEL_FAULT then
        (case decodeDielFault f of
           Some e \<Rightarrow> d\<lparr>cdl_events := deque_push diel_kMaxEvents (DielFaultEvt e) (cdl_events d)\<rparr>
         | None \<Rightarrow> d)
      else d)"

definition can_diel_ops :: "can_diel_link diel_ops" where
  "can_diel_ops = \<lparr>do_setDiel = can_setDiel, do_latestStats = can_diel_latestStats,
     do_popEvent = can_diel_popEvent, do_isConnected = cdl_heartbeat_seen,
     do_protocolCompatible = cdl_protocol_ok, do_present = cdl_heartbeat_seen\<rparr>"

definition can_dinv :: "can_diel_link \<Rightarrow> bool" where
  "can_dinv d \<longleftrightarrow> length (cdl_events d) \<le> diel_kMaxEvents \<and> cdl_seq d \<noteq> 0"

interpretation diel_events: event_queue "deque_push diel_kMaxEvents" deque_pop "\<lambda>q. q"
    "\<lambda>q. length q \<le> diel_kMaxEvents" diel_kMaxEvents
  by (rule deque_queue) (simp add: diel_kMaxEvents_def)

interpretation can_diel: diel_link can_diel_ops cdl_events can_dinv
proof
  fix d :: can_diel_link and s
  assume "can_dinv d"
  then show "can_dinv (snd (do_setDiel can_diel_ops s d))"
    "diel_presence can_diel_ops (snd (do_setDiel can_diel_ops s d)) = diel_presence can_diel_ops d"
    "cdl_events (snd (do_setDiel can_diel_ops s d)) = cdl_events d"
    by (simp_all add: can_diel_ops_def can_setDiel_def Let_def can_dinv_def diel_presence_def)
next
  fix d :: can_diel_link assume "do_present can_diel_ops d"
  then show "do_isConnected can_diel_ops d" by (simp add: can_diel_ops_def)
next
  fix d :: can_diel_link assume "cdl_events d = []"
  then show "do_popEvent can_diel_ops d = None"
    by (simp add: can_diel_ops_def can_diel_popEvent_def deque_pop_def)
next
  fix d :: can_diel_link and e es
  assume "can_dinv d" "cdl_events d = e # es"
  then show "\<exists>d'. do_popEvent can_diel_ops d = Some (e, d') \<and> cdl_events d' = es
      \<and> do_latestStats can_diel_ops d' = do_latestStats can_diel_ops d
      \<and> diel_presence can_diel_ops d' = diel_presence can_diel_ops d \<and> can_dinv d'"
    by (simp add: can_diel_ops_def can_diel_popEvent_def deque_pop_def can_diel_latestStats_def
        diel_presence_def can_dinv_def)
qed

lemma can_diel_onFrame_dinv: "can_dinv d \<Longrightarrow> can_dinv (can_diel_onFrame f d)"
  by (auto simp: can_diel_onFrame_def can_dinv_def diel_events.qinv_push split: option.splits)

lemma can_diel_onFrame_other:
  "cf_id f \<notin> {ID_DIEL_STATS, ID_ACK_DIEL, ID_DIEL_STATUS, ID_DIEL_FAULT} \<Longrightarrow>
     can_diel_onFrame f d = d"
  by (simp add: can_diel_onFrame_def)

text \<open>A received statistics frame is what the next reader gets.\<close>

lemma can_diel_onFrame_stats:
  "decodeDielStats f = Some s \<Longrightarrow> can_diel_latestStats (can_diel_onFrame f d) = Some s"
  by (auto simp: can_diel_onFrame_def can_diel_latestStats_def decodeDielStats_def
      split: if_splits)

end
