(* ===== verification/SimDiel.thy ===== *)
theory SimDiel
  imports DielLink
begin

text \<open>
  The coolant-loop simulator \<^verbatim>\<open>SimDielLink\<close> (\<^verbatim>\<open>EDM/Diel/SimDielLink.h\<close>, \<^verbatim>\<open>.cpp\<close>). Its
  floating-point state is rounded after every operation. The lemmas show that the state
  stays inside the ranges that make the conversions to the telemetry's integer types
  defined, and that the pump follows the cut.
\<close>

record sim_diel =
  sdl_connected :: bool
  sdl_cutting :: bool
  sdl_seq :: u16
  sdl_pump_on :: u8
  sdl_flush_level :: u8
  sdl_level_pct :: u8
  sdl_filter_pct :: u8
  sdl_flush_mbar :: real
  sdl_flow_clpm :: real
  sdl_temp_dC :: real
  sdl_temp_set_dC :: real
  sdl_cond_uS :: real
  sdl_window :: u32

definition sim_diel_init :: sim_diel where
  "sim_diel_init = \<lparr>sdl_connected = False, sdl_cutting = False, sdl_seq = 0, sdl_pump_on = 0,
     sdl_flush_level = 2, sdl_level_pct = 88, sdl_filter_pct = 96, sdl_flush_mbar = 0,
     sdl_flow_clpm = 0, sdl_temp_dC = 215, sdl_temp_set_dC = 220, sdl_cond_uS = 6,
     sdl_window = 0\<rparr>"

definition sim_diel_begin :: "sim_diel \<Rightarrow> sim_diel" where
  "sim_diel_begin d = d\<lparr>sdl_connected := True\<rparr>"

definition sim_diel_setCutting :: "bool \<Rightarrow> sim_diel \<Rightarrow> sim_diel" where
  "sim_diel_setCutting c d = d\<lparr>sdl_cutting := c\<rparr>"

definition sim_setDiel :: "set_diel \<Rightarrow> sim_diel \<Rightarrow> u16 \<times> sim_diel" where
  "sim_setDiel s d =
     (let d = d\<lparr>sdl_pump_on := sd_pump_on s,
                sdl_flush_level := (if 3 < sd_flush_level s then 3 else sd_flush_level s),
                sdl_temp_set_dC := fint (sint (sd_temp_setpoint_dC s))\<rparr>;
          d = d\<lparr>sdl_seq := sdl_seq d + 1\<rparr>
      in (sdl_seq d, d))"

definition barT :: "real list" where "barT = [0, 1400, 2600, 4200]"
definition flowT :: "real list" where "flowT = [40, 260, 460, 680]"

definition sim_diel_tick :: "sim_diel \<Rightarrow> sim_diel" where
  "sim_diel_tick d =
     (let d = d\<lparr>sdl_window := sdl_window d + 1\<rparr>
      in if sdl_cutting d then
           let d = d\<lparr>sdl_pump_on := 1\<rparr>;
               d = d\<lparr>sdl_flush_mbar :=
                     flerp (sdl_flush_mbar d) (barT ! unat (sdl_flush_level d)) (f32 0.2)\<rparr>;
               d = d\<lparr>sdl_flow_clpm :=
                     flerp (sdl_flow_clpm d) (flowT ! unat (sdl_flush_level d)) (f32 0.2)\<rparr>;
               d = d\<lparr>sdl_temp_dC :=
                     clampf (flerp (sdl_temp_dC d) (fadd (sdl_temp_set_dC d) 6) (f32 0.03)) 160 340\<rparr>;
               d = d\<lparr>sdl_cond_uS := clampf (fadd (sdl_cond_uS d) (f32 0.04)) 1 400\<rparr>
           in if sdl_window d mod 2000 = 0 \<and> 0 < sdl_level_pct d
              then d\<lparr>sdl_level_pct := sdl_level_pct d - 1\<rparr> else d
         else
           let d = d\<lparr>sdl_pump_on := 0\<rparr>;
               d = d\<lparr>sdl_flush_mbar := flerp (sdl_flush_mbar d) 0 (f32 0.3)\<rparr>;
               d = d\<lparr>sdl_flow_clpm := flerp (sdl_flow_clpm d) 0 (f32 0.3)\<rparr>
           in d\<lparr>sdl_temp_dC := flerp (sdl_temp_dC d) (sdl_temp_set_dC d) (f32 0.02)\<rparr>)"

text \<open>The float values the telemetry converts: half-up rounding and truncation.\<close>

definition round_half_up :: "real \<Rightarrow> int" where
  "round_half_up x = trunc (fadd x (1 / 2))"

definition sim_diel_latestStats :: "sim_diel \<Rightarrow> diel_stats option" where
  "sim_diel_latestStats d =
     (if \<not> sdl_connected d then None
      else let flow = word_of_int (round_half_up (sdl_flow_clpm d)) in Some
        \<lparr>ds_window_id = sdl_window d,
         ds_pump_on = sdl_pump_on d,
         ds_flush_level = sdl_flush_level d,
         ds_flush_mbar = word_of_int (round_half_up (sdl_flush_mbar d)),
         ds_flow_clpm = flow,
         ds_temp_dC = word_of_int (trunc (sdl_temp_dC d)),
         ds_temp_set_dC = word_of_int (trunc (sdl_temp_set_dC d)),
         ds_conductivity_uS = word_of_int (round_half_up (sdl_cond_uS d)),
         ds_level_pct = sdl_level_pct d,
         ds_filter_pct = sdl_filter_pct d,
         ds_flags = (if flow < 100 then 0x0002 else 0) OR
                    (if sdl_level_pct d < 15 then 0x0004 else 0)\<rparr>)"

definition sim_diel_ops :: "sim_diel diel_ops" where
  "sim_diel_ops = \<lparr>do_setDiel = sim_setDiel, do_latestStats = sim_diel_latestStats,
     do_popEvent = (\<lambda>_. None), do_isConnected = sdl_connected,
     do_protocolCompatible = sdl_connected, do_present = sdl_connected\<rparr>"

subsection \<open>Ranges\<close>

definition sim_dinv :: "sim_diel \<Rightarrow> bool" where
  "sim_dinv d \<longleftrightarrow> sdl_flush_level d \<le> 3
     \<and> 0 \<le> sdl_flush_mbar d \<and> sdl_flush_mbar d \<le> 4200 \<and> is_f32 (sdl_flush_mbar d)
     \<and> 0 \<le> sdl_flow_clpm d \<and> sdl_flow_clpm d \<le> 680 \<and> is_f32 (sdl_flow_clpm d)
     \<and> - 32768 \<le> sdl_temp_set_dC d \<and> sdl_temp_set_dC d \<le> 32767
     \<and> - 32768 \<le> sdl_temp_dC d \<and> sdl_temp_dC d \<le> 32767
     \<and> 1 \<le> sdl_cond_uS d \<and> sdl_cond_uS d \<le> 400"

interpretation sim_dlink: diel_link sim_diel_ops "\<lambda>_. []" sim_dinv
proof
  fix d :: sim_diel and s :: set_diel
  assume inv: "sim_dinv d"
  have "- 32768 \<le> sint (sd_temp_setpoint_dC s)" "sint (sd_temp_setpoint_dC s) \<le> 32767"
    using sint_ge [of "sd_temp_setpoint_dC s"] sint_lt [of "sd_temp_setpoint_dC s"] by simp_all
  then have "fint (- 32768) \<le> fint (sint (sd_temp_setpoint_dC s))"
    "fint (sint (sd_temp_setpoint_dC s)) \<le> fint 32767"
    by (simp_all only: fint_mono)
  then show "sim_dinv (snd (do_setDiel sim_diel_ops s d))"
    using inv by (simp add: sim_diel_ops_def sim_setDiel_def Let_def sim_dinv_def fint_exact not_less)
qed (simp_all add: sim_diel_ops_def sim_setDiel_def Let_def diel_presence_def)

lemma flush_level_cases: "(w :: u8) \<le> 3 \<Longrightarrow> unat w \<in> {0, 1, 2, 3}"
  by (simp add: word_le_nat_alt) arith

lemma flush_tables:
  assumes "(w :: u8) \<le> 3"
  shows "0 \<le> barT ! unat w" "barT ! unat w \<le> 4200" "0 \<le> flowT ! unat w" "flowT ! unat w \<le> 680"
  using flush_level_cases [OF assms] by (auto simp: barT_def flowT_def)

lemma lerp_factor: "0 \<le> f32 0.2" "f32 0.2 \<le> 1 / 4" "0 \<le> f32 0.02" "f32 0.02 \<le> 1 / 4"
  "0 \<le> f32 0.3" "f32 0.3 \<le> 1"
proof -
  have q: "is_f32 (1 / 4)" using f32_dyadic [of 1 2] by (simp add: is_f32_def)
  show "f32 0.2 \<le> 1 / 4" "f32 0.02 \<le> 1 / 4" by (rule f32_le_bound; simp add: q)+
  show "f32 0.3 \<le> 1" by (rule f32_le_bound) (simp_all add: is_f32_def)
qed (simp_all add: f32_nonneg)

lemma is_f32_ints: "is_f32 4200" "is_f32 680" "is_f32 32767" "is_f32 (- 32768)"
  by (simp_all add: is_f32_def f32_numeral)

lemma is_f32_flerp: "is_f32 (flerp a b t)"
  by (simp add: flerp_def fadd_def)

lemma sim_diel_init_dinv: "sim_dinv sim_diel_init"
  by (simp add: sim_dinv_def sim_diel_init_def)

lemma sim_diel_tick_dinv:
  assumes "sim_dinv d"
  shows "sim_dinv (sim_diel_tick d)"
proof (cases "sdl_cutting d")
  case True
  have "sdl_flush_level d \<le> 3" using assms by (simp add: sim_dinv_def)
  note tab = flush_tables [OF this]
  note up = flerp_upper [OF lerp_factor(1,2)] and low = flerp_lower [OF lerp_factor(1,2)]
  have "0 \<le> flerp (sdl_flush_mbar d) (barT ! unat (sdl_flush_level d)) (f32 0.2)"
    "0 \<le> flerp (sdl_flow_clpm d) (flowT ! unat (sdl_flush_level d)) (f32 0.2)"
    by (rule low; use assms tab in \<open>simp add: sim_dinv_def\<close>)+
  moreover have "flerp (sdl_flush_mbar d) (barT ! unat (sdl_flush_level d)) (f32 0.2) \<le> 4200"
    "flerp (sdl_flow_clpm d) (flowT ! unat (sdl_flush_level d)) (f32 0.2) \<le> 680"
    by (rule up; use assms tab in \<open>simp add: sim_dinv_def is_f32_ints\<close>)+
  moreover have "- 32768 \<le> clampf x 160 340 \<and> clampf x 160 340 \<le> 32767" for x
    using clampf_bounds [of 160 340 x] by simp
  moreover have "1 \<le> clampf x 1 400 \<and> clampf x 1 400 \<le> 400" for x
    using clampf_bounds [of 1 400 x] by simp
  ultimately show ?thesis
    using assms True
    by (auto simp: sim_diel_tick_def Let_def sim_dinv_def is_f32_flerp intro: order_trans)
next
  case False
  note up = flerp_upper [OF lerp_factor(3,4)] and low = flerp_lower [OF lerp_factor(3,4)]
  note dec = flerp_decay [OF lerp_factor(5,6)]
  have "- 32768 \<le> flerp (sdl_temp_dC d) (sdl_temp_set_dC d) (f32 0.02)"
    by (rule low) (use assms in \<open>simp_all only: sim_dinv_def is_f32_ints\<close>)
  moreover have "flerp (sdl_temp_dC d) (sdl_temp_set_dC d) (f32 0.02) \<le> 32767"
    by (rule up) (use assms in \<open>simp_all only: sim_dinv_def is_f32_ints\<close>)
  moreover have "0 \<le> flerp (sdl_flush_mbar d) 0 (f32 0.3)"
    "flerp (sdl_flush_mbar d) 0 (f32 0.3) \<le> sdl_flush_mbar d"
    "0 \<le> flerp (sdl_flow_clpm d) 0 (f32 0.3)"
    "flerp (sdl_flow_clpm d) 0 (f32 0.3) \<le> sdl_flow_clpm d"
    using assms by (simp_all only: sim_dinv_def dec)
  ultimately show ?thesis
    using assms False by (auto simp: sim_diel_tick_def Let_def sim_dinv_def is_f32_flerp)
qed

text \<open>The reachable states of the simulator.\<close>

inductive sim_diel_reach :: "sim_diel \<Rightarrow> bool" where
  sd_begin: "sim_diel_reach (sim_diel_begin sim_diel_init)"
| sd_cutting: "sim_diel_reach d \<Longrightarrow> sim_diel_reach (sim_diel_setCutting c d)"
| sd_set: "sim_diel_reach d \<Longrightarrow> sim_diel_reach (snd (sim_setDiel s d))"
| sd_tick: "sim_diel_reach d \<Longrightarrow> sim_diel_reach (sim_diel_tick d)"

lemma sim_diel_reach_dinv: "sim_diel_reach d \<Longrightarrow> sim_dinv d"
proof (induction rule: sim_diel_reach.induct)
  case sd_begin
  then show ?case using sim_diel_init_dinv by (simp add: sim_dinv_def sim_diel_begin_def)
next
  case (sd_cutting d c)
  then show ?case by (simp add: sim_dinv_def sim_diel_setCutting_def)
next
  case (sd_set d s)
  then show ?case using sim_dlink.set_dinv [of d s] by (simp add: sim_diel_ops_def)
next
  case (sd_tick d)
  then show ?case by (simp only: sim_diel_tick_dinv)
qed

lemma round_half_up_range:
  assumes "0 \<le> x" "x \<le> of_int M" "\<bar>M\<bar> < 2 ^ 23"
  shows "0 \<le> round_half_up x" "round_half_up x \<le> M"
proof -
  show "0 \<le> round_half_up x"
    using assms(1) by (simp add: round_half_up_def fadd_def trunc_nonneg f32_nonneg)
  have "f32 (of_nat (nat (2 * M + 1)) / 2 ^ 1) = of_nat (nat (2 * M + 1)) / 2 ^ 1"
    by (rule f32_dyadic) (use assms(3) in auto)
  moreover have "0 \<le> M" using assms(1,2) by linarith
  ultimately have e: "f32 (of_int M + 1 / 2) = of_int M + 1 / 2"
    by (simp add: field_simps)
  have "fadd x (1 / 2) \<le> of_int M + 1 / 2"
    unfolding fadd_def by (rule f32_le_bound) (use assms(2) e in \<open>simp_all add: is_f32_def\<close>)
  then have "round_half_up x \<le> trunc (of_int M + 1 / 2)"
    unfolding round_half_up_def by (rule trunc_mono)
  also have "trunc (of_int M + 1 / 2) = M"
    using \<open>0 \<le> M\<close> by (simp add: trunc_def floor_eq_iff)
  finally show "round_half_up x \<le> M" .
qed

text \<open>The casts of the telemetry are in range of their types.\<close>

lemma sim_dinv_casts:
  assumes "sim_dinv d"
  shows "round_half_up (sdl_flush_mbar d) \<in> {0..4200}"
    "round_half_up (sdl_flow_clpm d) \<in> {0..680}"
    "round_half_up (sdl_cond_uS d) \<in> {0..400}"
    "trunc (sdl_temp_dC d) \<in> {- 32768..32767}"
    "trunc (sdl_temp_set_dC d) \<in> {- 32768..32767}"
proof -
  have r: "trunc x \<in> {- 32768..32767}" if "- 32768 \<le> x" "x \<le> 32767" for x
    using that trunc_mono [of "of_int (- 32768)" x] trunc_mono [of x "of_int 32767"]
      trunc_of_int [of "- 32768"] trunc_of_int [of 32767] by simp
  show "trunc (sdl_temp_dC d) \<in> {- 32768..32767}" "trunc (sdl_temp_set_dC d) \<in> {- 32768..32767}"
    using assms by (auto simp: sim_dinv_def simp del: atLeastAtMost_iff intro!: r)
  show "round_half_up (sdl_flush_mbar d) \<in> {0..4200}" "round_half_up (sdl_flow_clpm d) \<in> {0..680}"
    "round_half_up (sdl_cond_uS d) \<in> {0..400}"
    using assms round_half_up_range [of "sdl_flush_mbar d" 4200]
      round_half_up_range [of "sdl_flow_clpm d" 680] round_half_up_range [of "sdl_cond_uS d" 400]
    by (simp_all add: sim_dinv_def)
qed

text \<open>The pump state after a tick is the cut state, whatever was commanded before.\<close>

lemma sim_diel_tick_pump: "sdl_pump_on (sim_diel_tick d) = (if sdl_cutting d then 1 else 0)"
  by (simp add: sim_diel_tick_def Let_def)

text \<open>Without a cut the flow only decays.\<close>

lemma sim_diel_tick_idle_flow:
  "sim_dinv d \<Longrightarrow> \<not> sdl_cutting d \<Longrightarrow> sdl_flow_clpm (sim_diel_tick d) \<le> sdl_flow_clpm d"
  by (auto simp: sim_diel_tick_def Let_def sim_dinv_def intro!: flerp_decay lerp_factor)

end
