(* ===== verification/Tension.thy ===== *)
theory Tension
  imports Prelude Float32
begin

text \<open>
  The wire-tension controller (\<^verbatim>\<open>EDM/Feed/TensionController.h\<close>, \<^verbatim>\<open>TensionController.cpp\<close>):
  one \<open>tension_step\<close> reads a filtered tension, applies a clamped PI correction on a
  feed-forward rate, detects a mechanical collapse of the wire and produces the step rates
  of the feed and tension motors. The C++ function is one sequence of blocks over the
  state \<open>ns\<close>; each block is a definition here, in the order of the code. Floats are
  \<open>f32\<close> values (theory \<open>Float32\<close>), the millisecond counters are \<open>u32\<close> words that wrap.
\<close>

subsection \<open>Data\<close>

record tension_config =
  tc_default_feed_mm_min :: real
  tc_feed_steps_per_mm :: real
  tc_feed_max_sps :: real
  tc_ff_ratio :: real
  tc_setpoint_N :: real
  tc_Kp :: real
  tc_Ki :: real
  tc_tens_alpha :: real
  tc_tens_deadband_N :: real
  tc_pi_clamp_sps :: real
  tc_tension_min_sps :: real
  tc_tension_max_sps :: real
  tc_tension_hold_sps :: real
  tc_integ_bleed :: real
  tc_sev_tension_scale :: "real list"
  tc_collapse_N :: real
  tc_collapse_frac :: real
  tc_loaded_frac :: real
  tc_loaded_recent_ms :: u32
  tc_collapse_ms :: u32

definition tension_config_default :: tension_config where
  "tension_config_default = \<lparr>tc_default_feed_mm_min = 60, tc_feed_steps_per_mm = 100,
     tc_feed_max_sps = 4000, tc_ff_ratio = 1, tc_setpoint_N = 5, tc_Kp = 40, tc_Ki = 8,
     tc_tens_alpha = f32 0.30, tc_tens_deadband_N = 1 / 4, tc_pi_clamp_sps = 400,
     tc_tension_min_sps = 0, tc_tension_max_sps = 4000, tc_tension_hold_sps = 200,
     tc_integ_bleed = 1 / 2, tc_sev_tension_scale = [1, f32 0.85, f32 0.60, 0],
     tc_collapse_N = 1 / 2, tc_collapse_frac = f32 0.20, tc_loaded_frac = 1 / 2,
     tc_loaded_recent_ms = 200, tc_collapse_ms = 30\<rparr>"

record tension_input =
  ti_measured_N :: real
  ti_meas_valid :: bool
  ti_feed_cap_mult :: real
  ti_severity :: u8
  ti_cutting :: bool
  ti_commanded_feed_mm_min :: real
  ti_dt_ms :: u32

definition tension_input_default :: tension_input where
  "tension_input_default = \<lparr>ti_measured_N = 0, ti_meas_valid = False, ti_feed_cap_mult = 1,
     ti_severity = 0, ti_cutting = False, ti_commanded_feed_mm_min = -1, ti_dt_ms = 12\<rparr>"

record tension_state =
  ts_meas_f :: real
  ts_e_f :: real
  ts_integ :: real
  ts_collapse_accum_ms :: u32
  ts_since_loaded_ms :: u32
  ts_collapse_latched :: bool
  ts_meas_primed :: bool

definition tension_reset :: tension_state where
  "tension_reset = \<lparr>ts_meas_f = 0, ts_e_f = 0, ts_integ = 0, ts_collapse_accum_ms = 0,
     ts_since_loaded_ms = 0, ts_collapse_latched = False, ts_meas_primed = False\<rparr>"

record tension_output =
  to_next :: tension_state
  to_feed_steps_per_s :: i32
  to_tension_steps_per_s :: i32
  to_ff_sps :: real
  to_pi_sps :: real
  to_e_filtered :: real
  to_integrator :: real
  to_meas_f_N :: real
  to_tension_collapse :: bool

definition setSetpointN :: "real \<Rightarrow> tension_config \<Rightarrow> tension_config" where
  "setSetpointN n c = c\<lparr>tc_setpoint_N := n\<rparr>"

subsection \<open>The blocks of the step\<close>

definition tension_sev :: "tension_input \<Rightarrow> nat" where
  "tension_sev inp = (if 3 < ti_severity inp then 3 else unat (ti_severity inp))"

definition tension_scale :: "tension_config \<Rightarrow> tension_input \<Rightarrow> real" where
  "tension_scale c inp = tc_sev_tension_scale c ! tension_sev inp"

definition tension_feed :: "tension_config \<Rightarrow> tension_input \<Rightarrow> real" where
  "tension_feed c inp =
     (let feed_mm_min = if 0 \<le> ti_commanded_feed_mm_min inp
            then ti_commanded_feed_mm_min inp else tc_default_feed_mm_min c;
          feed_sps = fmul (fdiv feed_mm_min 60) (tc_feed_steps_per_mm c);
          feed_sps = if \<not> ti_cutting inp then 0 else feed_sps
      in clampf (fmul feed_sps (ti_feed_cap_mult inp)) 0 (tc_feed_max_sps c))"

definition sp_eff :: "tension_config \<Rightarrow> tension_input \<Rightarrow> real" where
  "sp_eff c inp = fmul (tc_setpoint_N c) (tension_scale c inp)"

definition tension_ema :: "tension_config \<Rightarrow> tension_input \<Rightarrow> tension_state \<Rightarrow> tension_state" where
  "tension_ema c inp s =
     (if ti_meas_valid inp
      then s\<lparr>ts_meas_f := if ts_meas_primed s
               then fadd (fmul (tc_tens_alpha c) (ti_measured_N inp))
                      (fmul (fsub 1 (tc_tens_alpha c)) (ts_meas_f s))
               else ti_measured_N inp,
             ts_meas_primed := True\<rparr>
      else s)"

definition in_deadband :: "tension_config \<Rightarrow> real \<Rightarrow> bool" where
  "in_deadband c e \<longleftrightarrow> \<bar>e\<bar> < tc_tens_deadband_N c"

text \<open>Lines 38 to 46: the error, and the integrator where the loop is active.\<close>

definition tension_integ ::
    "tension_config \<Rightarrow> tension_input \<Rightarrow> tension_state \<Rightarrow> tension_state \<Rightarrow> tension_state" where
  "tension_integ c inp s ns =
     (let e = fsub (sp_eff c inp) (ts_meas_f ns);
          ns = ns\<lparr>ts_e_f := e\<rparr>;
          active = ti_cutting inp \<and> ti_meas_valid inp \<and> tension_sev inp < 3
            \<and> \<not> ts_collapse_latched s;
          imax = fdiv (tc_pi_clamp_sps c) (tc_Ki c);
          dt = fdiv (fint (uint (ti_dt_ms inp))) 1000
      in if 0 < tc_Ki c \<and> \<not> in_deadband c e \<and> active
         then ns\<lparr>ts_integ := clampf (fadd (ts_integ ns) (fmul e dt)) (- imax) imax\<rparr>
         else ns)"

definition tension_pi :: "tension_config \<Rightarrow> tension_state \<Rightarrow> real" where
  "tension_pi c ns =
     clampf (if in_deadband c (ts_e_f ns) then 0
             else fadd (fmul (tc_Kp c) (ts_e_f ns)) (fmul (tc_Ki c) (ts_integ ns)))
       (- tc_pi_clamp_sps c) (tc_pi_clamp_sps c)"

text \<open>Lines 52 to 64: the collapse detector.\<close>

definition is_loaded :: "tension_config \<Rightarrow> tension_input \<Rightarrow> bool" where
  "is_loaded c inp \<longleftrightarrow> fmul (tc_loaded_frac c) (sp_eff c inp) < ti_measured_N inp"

definition since_loaded :: "tension_config \<Rightarrow> tension_input \<Rightarrow> tension_state \<Rightarrow> u32" where
  "since_loaded c inp s =
     (if is_loaded c inp then 0
      else let acc = ts_since_loaded_ms s + ti_dt_ms inp
           in if acc < ts_since_loaded_ms s then 0xFFFFFFFF else acc)"

definition is_slack :: "tension_config \<Rightarrow> tension_input \<Rightarrow> bool" where
  "is_slack c inp \<longleftrightarrow> ti_measured_N inp < tc_collapse_N c
     \<and> ti_measured_N inp < fmul (tc_collapse_frac c) (sp_eff c inp)"

definition was_loaded_recently :: "tension_config \<Rightarrow> tension_input \<Rightarrow> tension_state \<Rightarrow> bool" where
  "was_loaded_recently c inp s \<longleftrightarrow>
     is_loaded c inp \<or> since_loaded c inp s \<le> tc_loaded_recent_ms c"

definition collapse_accum :: "tension_config \<Rightarrow> tension_input \<Rightarrow> tension_state \<Rightarrow> u32" where
  "collapse_accum c inp s =
     (if is_slack c inp \<and> was_loaded_recently c inp s
      then ts_collapse_accum_ms s + ti_dt_ms inp else 0)"

definition tension_collapse ::
    "tension_config \<Rightarrow> tension_input \<Rightarrow> tension_state \<Rightarrow> tension_state \<Rightarrow> tension_state" where
  "tension_collapse c inp s ns =
     (if ti_cutting inp \<and> ti_meas_valid inp
      then ns\<lparr>ts_since_loaded_ms := since_loaded c inp s,
              ts_collapse_accum_ms := collapse_accum c inp s,
              ts_collapse_latched := ts_collapse_latched ns
                \<or> tc_collapse_ms c \<le> collapse_accum c inp s\<rparr>
      else ns)"

text \<open>Lines 65 to 73: the safe rates of a collapse or a severe wire break.\<close>

definition tension_stop :: "tension_input \<Rightarrow> tension_state \<Rightarrow> bool" where
  "tension_stop inp ns \<longleftrightarrow> 3 \<le> tension_sev inp \<or> ts_collapse_latched ns"

definition tension_step :: "tension_config \<Rightarrow> tension_state \<Rightarrow> tension_input \<Rightarrow> tension_output" where
  "tension_step c s inp =
     (let feed_sps = tension_feed c inp;
          ns = tension_ema c inp s;
          ff_sps = fmul (tc_ff_ratio c) feed_sps;
          ns = tension_integ c inp s ns;
          pi_sps = tension_pi c ns;
          tension_sps = fadd (fmul ff_sps (tension_scale c inp)) pi_sps;
          ns = tension_collapse c inp s ns;
          stop = tension_stop inp ns;
          feed_sps = if stop then 0 else feed_sps;
          tension_sps = if stop then tc_tension_hold_sps c else tension_sps;
          ns = if stop then ns\<lparr>ts_integ := fmul (ts_integ ns) (tc_integ_bleed c)\<rparr> else ns;
          tension_sps = clampf tension_sps (tc_tension_min_sps c) (tc_tension_max_sps c)
      in \<lparr>to_next = ns,
          to_feed_steps_per_s = word_of_int (lround feed_sps),
          to_tension_steps_per_s = word_of_int (lround tension_sps),
          to_ff_sps = ff_sps, to_pi_sps = pi_sps, to_e_filtered = ts_e_f ns,
          to_integrator = ts_integ ns, to_meas_f_N = ts_meas_f ns,
          to_tension_collapse = ts_collapse_latched ns\<rparr>)"

subsection \<open>Configurations that make sense\<close>

text \<open>What the defaults satisfy and the configuration reader does not check.\<close>

definition wf_tension_config :: "tension_config \<Rightarrow> bool" where
  "wf_tension_config c \<longleftrightarrow>
     0 \<le> tc_feed_max_sps c \<and> tc_feed_max_sps c < 2147483000
     \<and> tc_tension_min_sps c \<le> tc_tension_max_sps c
     \<and> - 2147483000 < tc_tension_min_sps c \<and> tc_tension_max_sps c < 2147483000
     \<and> 0 \<le> tc_pi_clamp_sps c \<and> 0 \<le> tc_integ_bleed c \<and> tc_integ_bleed c \<le> 1
     \<and> is_f32 (tc_pi_clamp_sps c) \<and> length (tc_sev_tension_scale c) = 4"

lemma wf_tension_config_default: "wf_tension_config tension_config_default"
  by (simp add: wf_tension_config_def tension_config_default_def is_f32_def float_simps)

subsection \<open>What one step does\<close>

lemma tension_sev_le: "tension_sev inp \<le> 3"
  by (simp add: tension_sev_def word_le_nat_alt not_less)

lemma tension_sev_severe: "3 \<le> tension_sev inp \<longleftrightarrow> 3 \<le> ti_severity inp"
  by (auto simp: tension_sev_def word_le_nat_alt word_less_nat_alt)

lemma tension_ema_fields [simp]:
  "ts_integ (tension_ema c inp s) = ts_integ s"
  "ts_collapse_latched (tension_ema c inp s) = ts_collapse_latched s"
  "ts_collapse_accum_ms (tension_ema c inp s) = ts_collapse_accum_ms s"
  "ts_since_loaded_ms (tension_ema c inp s) = ts_since_loaded_ms s"
  by (simp_all add: tension_ema_def)

lemma tension_integ_fields [simp]:
  "ts_collapse_latched (tension_integ c inp s ns) = ts_collapse_latched ns"
  "ts_collapse_accum_ms (tension_integ c inp s ns) = ts_collapse_accum_ms ns"
  "ts_since_loaded_ms (tension_integ c inp s ns) = ts_since_loaded_ms ns"
  "ts_meas_f (tension_integ c inp s ns) = ts_meas_f ns"
  "ts_meas_primed (tension_integ c inp s ns) = ts_meas_primed ns"
  by (simp_all add: tension_integ_def Let_def)

lemma tension_collapse_fields [simp]:
  "ts_integ (tension_collapse c inp s ns) = ts_integ ns"
  "ts_e_f (tension_collapse c inp s ns) = ts_e_f ns"
  "ts_meas_f (tension_collapse c inp s ns) = ts_meas_f ns"
  by (simp_all add: tension_collapse_def)

lemma tension_step_latched:
  "ts_collapse_latched (to_next (tension_step c s inp)) \<longleftrightarrow>
     ts_collapse_latched s
       \<or> ti_cutting inp \<and> ti_meas_valid inp \<and> tc_collapse_ms c \<le> collapse_accum c inp s"
  by (auto simp: tension_step_def Let_def tension_collapse_def)

lemma tension_step_counters:
  "ts_collapse_accum_ms (to_next (tension_step c s inp)) =
     (if ti_cutting inp \<and> ti_meas_valid inp then collapse_accum c inp s else ts_collapse_accum_ms s)"
  "ts_since_loaded_ms (to_next (tension_step c s inp)) =
     (if ti_cutting inp \<and> ti_meas_valid inp then since_loaded c inp s else ts_since_loaded_ms s)"
  by (auto simp: tension_step_def Let_def tension_collapse_def)

lemma tension_step_collapse [simp]:
  "to_tension_collapse (tension_step c s inp) = ts_collapse_latched (to_next (tension_step c s inp))"
  by (simp add: tension_step_def Let_def)

lemma tension_step_stop:
  assumes "3 \<le> ti_severity inp \<or> to_tension_collapse (tension_step c s inp)"
  shows "to_feed_steps_per_s (tension_step c s inp) = 0"
    and "to_tension_steps_per_s (tension_step c s inp) = word_of_int (lround
      (clampf (tc_tension_hold_sps c) (tc_tension_min_sps c) (tc_tension_max_sps c)))"
  using assms by (auto simp: tension_step_def Let_def tension_stop_def tension_sev_severe)

lemma tension_feed_idle: "\<not> ti_cutting inp \<Longrightarrow> 0 \<le> tc_feed_max_sps c \<Longrightarrow> tension_feed c inp = 0"
  by (simp add: tension_feed_def fmul_def clampf_def)

lemma tension_step_idle:
  "\<not> ti_cutting inp \<Longrightarrow> wf_tension_config c \<Longrightarrow> to_feed_steps_per_s (tension_step c s inp) = 0"
  by (simp add: tension_step_def Let_def tension_feed_idle wf_tension_config_def)

text \<open>The rates stay inside the configured bounds, read back as signed integers.\<close>

lemma sint_lround_bounds:
  assumes "lo \<le> x" "x \<le> hi" "- 2147483000 < lo" "hi < 2147483000"
  shows "lround lo \<le> sint (word_of_int (lround x) :: i32)"
    and "sint (word_of_int (lround x) :: i32) \<le> lround hi"
proof -
  have "- 2147483000 \<le> lround lo" using lround_mono [of "- 2147483000" lo] assms(3)
    lround_of_int [of "- 2147483000"] by simp
  moreover have "lround hi \<le> 2147483000" using lround_mono [of hi 2147483000] assms(4)
    lround_of_int [of "2147483000"] by simp
  moreover have "lround lo \<le> lround x" "lround x \<le> lround hi"
    using assms(1,2) by (simp_all add: lround_mono)
  ultimately show "lround lo \<le> sint (word_of_int (lround x) :: i32)"
    "sint (word_of_int (lround x) :: i32) \<le> lround hi"
    by (simp_all only: sint_word_of_int32)
qed

lemma tension_step_feed_bounds:
  assumes "wf_tension_config c"
  shows "0 \<le> sint (to_feed_steps_per_s (tension_step c s inp))"
    and "sint (to_feed_steps_per_s (tension_step c s inp)) \<le> lround (tc_feed_max_sps c)"
proof -
  define x where "x = (if tension_stop inp (tension_collapse c inp s
      (tension_integ c inp s (tension_ema c inp s))) then 0 else tension_feed c inp)"
  have eq: "to_feed_steps_per_s (tension_step c s inp) = word_of_int (lround x)"
    by (simp add: tension_step_def Let_def x_def)
  have "0 \<le> tension_feed c inp \<and> tension_feed c inp \<le> tc_feed_max_sps c"
    unfolding tension_feed_def Let_def using assms
    by (intro clampf_bounds) (simp add: wf_tension_config_def)
  then have x: "0 \<le> x" "x \<le> tc_feed_max_sps c"
    using assms by (auto simp: x_def wf_tension_config_def)
  show "0 \<le> sint (to_feed_steps_per_s (tension_step c s inp))"
    "sint (to_feed_steps_per_s (tension_step c s inp)) \<le> lround (tc_feed_max_sps c)"
    using sint_lround_bounds [OF x] assms unfolding eq wf_tension_config_def by simp_all
qed

lemma tension_step_tension_bounds:
  assumes "wf_tension_config c"
  shows "lround (tc_tension_min_sps c) \<le> sint (to_tension_steps_per_s (tension_step c s inp))"
    and "sint (to_tension_steps_per_s (tension_step c s inp)) \<le> lround (tc_tension_max_sps c)"
proof -
  obtain v where eq: "to_tension_steps_per_s (tension_step c s inp)
      = word_of_int (lround (clampf v (tc_tension_min_sps c) (tc_tension_max_sps c)))"
    by (simp add: tension_step_def Let_def)
  have b: "tc_tension_min_sps c \<le> clampf v (tc_tension_min_sps c) (tc_tension_max_sps c)"
    "clampf v (tc_tension_min_sps c) (tc_tension_max_sps c) \<le> tc_tension_max_sps c"
    using clampf_bounds [of "tc_tension_min_sps c" "tc_tension_max_sps c" v] assms
    by (simp_all add: wf_tension_config_def)
  show "lround (tc_tension_min_sps c) \<le> sint (to_tension_steps_per_s (tension_step c s inp))"
    "sint (to_tension_steps_per_s (tension_step c s inp)) \<le> lround (tc_tension_max_sps c)"
    using sint_lround_bounds [OF b] assms unfolding eq wf_tension_config_def by simp_all
qed

text \<open>The PI correction never exceeds its clamp, and the integrator never winds past it.\<close>

lemma tension_pi_bounds: "0 \<le> tc_pi_clamp_sps c \<Longrightarrow> \<bar>to_pi_sps (tension_step c s inp)\<bar> \<le> tc_pi_clamp_sps c"
  using clampf_bounds [of "- tc_pi_clamp_sps c" "tc_pi_clamp_sps c"]
  by (simp add: tension_step_def Let_def tension_pi_def abs_le_iff) (metis minus_le_iff)

definition tension_integ_ok :: "tension_config \<Rightarrow> tension_state \<Rightarrow> bool" where
  "tension_integ_ok c s \<longleftrightarrow> \<bar>ts_integ s\<bar> \<le> fdiv (tc_pi_clamp_sps c) (tc_Ki c)"

lemma tension_integ_keeps:
  assumes "tension_integ_ok c s" "ts_integ ns = ts_integ s"
  shows "tension_integ_ok c (tension_integ c inp s ns)"
proof -
  have "0 \<le> fdiv (tc_pi_clamp_sps c) (tc_Ki c)"
    using assms(1) by (auto simp: tension_integ_ok_def)
  then have "\<bar>clampf v (- fdiv (tc_pi_clamp_sps c) (tc_Ki c)) (fdiv (tc_pi_clamp_sps c) (tc_Ki c))\<bar>
      \<le> fdiv (tc_pi_clamp_sps c) (tc_Ki c)" for v
    by (auto simp: clampf_def)
  then show ?thesis using assms by (simp add: tension_integ_ok_def tension_integ_def Let_def)
qed

lemma is_f32_fdiv_abs: "\<bar>x\<bar> \<le> fdiv a b \<Longrightarrow> 0 \<le> k \<Longrightarrow> k \<le> 1 \<Longrightarrow> \<bar>fmul x k\<bar> \<le> fdiv a b"
proof -
  assume x: "\<bar>x\<bar> \<le> fdiv a b" and k: "0 \<le> k" "k \<le> 1"
  have "\<bar>x * k\<bar> \<le> \<bar>x\<bar>" using k by (simp add: abs_mult mult_left_le)
  with x have "- fdiv a b \<le> x * k" "x * k \<le> fdiv a b" by linarith+
  then have "- fdiv a b \<le> f32 (x * k)" "f32 (x * k) \<le> fdiv a b"
    by (simp_all add: f32_le_bound f32_ge_bound)
  then show ?thesis by (simp add: fmul_def abs_le_iff)
qed

lemma tension_step_integ_ok:
  assumes "wf_tension_config c" "tension_integ_ok c s"
  shows "tension_integ_ok c (to_next (tension_step c s inp))"
proof -
  have "tension_integ_ok c (tension_integ c inp s (tension_ema c inp s))"
    using assms(2) by (rule tension_integ_keeps) simp
  then show ?thesis using assms(1)
    by (simp add: tension_step_def Let_def tension_integ_ok_def is_f32_fdiv_abs wf_tension_config_def)
qed

subsection \<open>Runs, and the collapse detector\<close>

definition tension_run :: "tension_config \<Rightarrow> tension_state \<Rightarrow> tension_input list \<Rightarrow> tension_state" where
  "tension_run c s inps = foldl (\<lambda>s inp. to_next (tension_step c s inp)) s inps"

lemma tension_run_simps [simp]:
  "tension_run c s [] = s"
  "tension_run c s (inp # inps) = tension_run c (to_next (tension_step c s inp)) inps"
  "tension_run c s (inps @ inps') = tension_run c (tension_run c s inps) inps'"
  by (simp_all add: tension_run_def)

lemma tension_run_latched: "ts_collapse_latched s \<Longrightarrow> ts_collapse_latched (tension_run c s inps)"
  by (induction inps arbitrary: s) (simp_all add: tension_step_latched)

lemma tension_run_integ_ok:
  "wf_tension_config c \<Longrightarrow> tension_integ_ok c s \<Longrightarrow> tension_integ_ok c (tension_run c s inps)"
  by (induction inps arbitrary: s) (simp_all add: tension_step_integ_ok)

text \<open>How long the wire has been slack at the end of a history of readings.\<close>

fun slack_time :: "tension_config \<Rightarrow> nat \<Rightarrow> tension_input list \<Rightarrow> nat" where
  "slack_time c t [] = t"
| "slack_time c t (inp # inps) =
     slack_time c (if ti_cutting inp \<and> ti_meas_valid inp
                   then if is_slack c inp then t + unat (ti_dt_ms inp) else 0 else t) inps"

lemma slack_time_append: "slack_time c t (xs @ ys) = slack_time c (slack_time c t xs) ys"
  by (induction xs arbitrary: t) simp_all

lemma slack_time_mono: "t \<le> u \<Longrightarrow> slack_time c t xs \<le> slack_time c u xs"
  by (induction xs arbitrary: t u) simp_all

lemma collapse_accum_le:
  "unat (collapse_accum c inp s) \<le>
     (if is_slack c inp then unat (ts_collapse_accum_ms s) + unat (ti_dt_ms inp) else 0)"
  by (simp add: collapse_accum_def unat_word_ariths)

lemma tension_run_accum:
  "unat (ts_collapse_accum_ms (tension_run c s inps))
     \<le> slack_time c (unat (ts_collapse_accum_ms s)) inps"
proof (induction inps arbitrary: s)
  case (Cons inp inps)
  have "unat (ts_collapse_accum_ms (to_next (tension_step c s inp)))
      \<le> (if ti_cutting inp \<and> ti_meas_valid inp
          then if is_slack c inp then unat (ts_collapse_accum_ms s) + unat (ti_dt_ms inp) else 0
          else unat (ts_collapse_accum_ms s))"
    using collapse_accum_le [of c inp s] by (simp add: tension_step_counters)
  from Cons [of "to_next (tension_step c s inp)"] slack_time_mono [OF this, of c inps]
  show ?case by simp
qed simp

text \<open>No false trip: a latched collapse has seen the wire slack for the debounce time.\<close>

lemma tension_run_collapse_sound:
  assumes "\<not> ts_collapse_latched s" "ts_collapse_latched (tension_run c s inps)"
  shows "\<exists>k \<le> length inps.
    unat (tc_collapse_ms c) \<le> slack_time c (unat (ts_collapse_accum_ms s)) (take k inps)"
  using assms(2)
proof (induction inps rule: rev_induct)
  case Nil
  with assms(1) show ?case by simp
next
  case (snoc inp inps)
  show ?case
  proof (cases "ts_collapse_latched (tension_run c s inps)")
    case True
    with snoc.IH obtain k where "k \<le> length inps"
      "unat (tc_collapse_ms c) \<le> slack_time c (unat (ts_collapse_accum_ms s)) (take k inps)" by blast
    then show ?thesis by (intro exI [of _ k]) simp
  next
    case False
    with snoc.prems have now: "ti_cutting inp" "ti_meas_valid inp"
      "tc_collapse_ms c \<le> collapse_accum c inp (tension_run c s inps)"
      by (auto simp: tension_step_latched)
    then have "unat (tc_collapse_ms c) \<le> unat (ts_collapse_accum_ms (tension_run c s (inps @ [inp])))"
      by (simp add: tension_step_counters word_le_nat_alt)
    with tension_run_accum [of c s "inps @ [inp]"] show ?thesis
      by (intro exI [of _ "length (inps @ [inp])"]) simp
  qed
qed

text \<open>No missed trip: readings slack for the debounce time, soon after the wire was loaded.\<close>

definition slack_reading :: "tension_config \<Rightarrow> tension_input \<Rightarrow> bool" where
  "slack_reading c inp \<longleftrightarrow> ti_cutting inp \<and> ti_meas_valid inp \<and> is_slack c inp"

definition total_ms :: "tension_input list \<Rightarrow> nat" where
  "total_ms inps = (\<Sum>inp\<leftarrow>inps. unat (ti_dt_ms inp))"

lemma total_ms_simps [simp]:
  "total_ms [] = 0" "total_ms (inp # inps) = unat (ti_dt_ms inp) + total_ms inps"
  by (simp_all add: total_ms_def)

lemma since_loaded_le:
  assumes "unat (ts_since_loaded_ms s) + unat (ti_dt_ms inp) < 2 ^ 32"
  shows "unat (since_loaded c inp s) \<le> unat (ts_since_loaded_ms s) + unat (ti_dt_ms inp)"
  using assms
  by (auto simp: since_loaded_def Let_def word_less_nat_alt unat_word_ariths)

lemma tension_run_slack:
  assumes "\<forall>inp \<in> set inps. slack_reading c inp"
    and "unat (ts_since_loaded_ms s) + total_ms inps \<le> unat (tc_loaded_recent_ms c)"
    and "unat (ts_collapse_accum_ms s) + total_ms inps < 2 ^ 32"
  shows "unat (ts_collapse_accum_ms (tension_run c s inps))
      = unat (ts_collapse_accum_ms s) + total_ms inps"
  using assms
proof (induction inps arbitrary: s)
  case (Cons inp inps)
  define s' where "s' = to_next (tension_step c s inp)"
  have slack: "slack_reading c inp" using Cons.prems(1) by simp
  have lt: "unat (tc_loaded_recent_ms c) < 2 ^ 32" using unsigned_less [of "tc_loaded_recent_ms c"] by simp
  have since: "unat (since_loaded c inp s) \<le> unat (ts_since_loaded_ms s) + unat (ti_dt_ms inp)"
    by (rule since_loaded_le) (use Cons.prems(2) lt in simp)
  then have "was_loaded_recently c inp s"
    using Cons.prems(2) by (simp add: was_loaded_recently_def word_le_nat_alt)
  with slack have acc: "unat (ts_collapse_accum_ms s') = unat (ts_collapse_accum_ms s) + unat (ti_dt_ms inp)"
    using Cons.prems(3)
    by (simp add: s'_def tension_step_counters slack_reading_def collapse_accum_def unat_word_ariths)
  have "unat (ts_since_loaded_ms s') \<le> unat (ts_since_loaded_ms s) + unat (ti_dt_ms inp)"
    using slack since by (simp add: s'_def tension_step_counters slack_reading_def)
  with Cons.prems acc have "unat (ts_collapse_accum_ms (tension_run c s' inps))
      = unat (ts_collapse_accum_ms s') + total_ms inps"
    by (intro Cons.IH) simp_all
  with acc show ?case by (simp flip: s'_def)
qed simp

lemma tension_run_collapse_complete:
  assumes "\<forall>inp \<in> set inps. slack_reading c inp" "inps \<noteq> []"
    and "unat (ts_since_loaded_ms s) + total_ms inps \<le> unat (tc_loaded_recent_ms c)"
    and "unat (ts_collapse_accum_ms s) + total_ms inps < 2 ^ 32"
    and "unat (tc_collapse_ms c) \<le> unat (ts_collapse_accum_ms s) + total_ms inps"
  shows "ts_collapse_latched (tension_run c s inps)"
proof -
  obtain ys y where ys: "inps = ys @ [y]" using assms(2) by (meson rev_exhaust)
  have "unat (tc_collapse_ms c) \<le> unat (ts_collapse_accum_ms (tension_run c s inps))"
    using tension_run_slack [OF assms(1,3,4)] assms(5) by simp
  moreover have "slack_reading c y" using assms(1) ys by simp
  ultimately show ?thesis
    by (simp add: ys tension_step_latched tension_step_counters slack_reading_def word_le_nat_alt)
qed

text \<open>A wire that was never loaded counts as loaded for its first milliseconds.\<close>

lemma tension_reset_counters [simp]:
  "ts_since_loaded_ms tension_reset = 0" "ts_collapse_accum_ms tension_reset = 0"
  "ts_collapse_latched tension_reset = False" "ts_integ tension_reset = 0"
  by (simp_all add: tension_reset_def)

lemma tension_integ_ok_reset: "0 \<le> tc_pi_clamp_sps c \<Longrightarrow> 0 \<le> tc_Ki c \<Longrightarrow> tension_integ_ok c tension_reset"
  by (simp add: tension_integ_ok_def fdiv_def f32_nonneg)

end
