(* ===== verification/Hx711.thy ===== *)
theory Hx711
  imports Prelude Float32
begin

text \<open>
  The load-cell converter (\<^verbatim>\<open>EDM/Feed/Hx711Calibration.h\<close>, \<^verbatim>\<open>Hx711.h\<close>, \<^verbatim>\<open>Hx711.cpp\<close>). The
  level that the data pin shows at the i-th sampling of a burst is the argument
  \<open>dout i\<close>; the levels written to the clock pin are the trace \<open>hx_sck\<close>. The critical
  section and the microsecond delays are not modelled.
\<close>

subsection \<open>Calibration\<close>

definition hx711SignExtend :: "u32 \<Rightarrow> i32" where
  "hx711SignExtend v24 =
     (if v24 AND 0x800000 \<noteq> 0 then v24 OR 0xFF000000 else v24 AND 0x00FFFFFF)"

record hx711_calibration =
  hc_offset :: i32
  hc_counts_per_N :: real

definition hx711_calibration_default :: hx711_calibration where
  "hx711_calibration_default = \<lparr>hc_offset = 0, hc_counts_per_N = 1000\<rparr>"

definition toNewtons :: "hx711_calibration \<Rightarrow> i32 \<Rightarrow> real" where
  "toNewtons cal raw =
     fdiv (fsub (fint (sint raw)) (fint (sint (hc_offset cal)))) (hc_counts_per_N cal)"

definition withCalibration :: "i32 \<Rightarrow> real \<Rightarrow> hx711_calibration" where
  "withCalibration newOffset newCountsPerN = \<lparr>hc_offset = newOffset, hc_counts_per_N = newCountsPerN\<rparr>"

subsection \<open>The driver\<close>

record hx711 =
  hx_dout_defined :: bool
  hx_sck_defined :: bool
  hx_gain_pulses :: int
  hx_channel_gain :: int
  hx_cal :: hx711_calibration
  hx_sck :: "bool list"

definition hx711_new :: "bool \<Rightarrow> bool \<Rightarrow> hx711" where
  "hx711_new dout sck = \<lparr>hx_dout_defined = dout, hx_sck_defined = sck, hx_gain_pulses = 1,
     hx_channel_gain = 128, hx_cal = hx711_calibration_default, hx_sck = []\<rparr>"

definition hx711_begin :: "hx711 \<Rightarrow> hx711" where
  "hx711_begin h = h\<lparr>hx_sck := hx_sck h @ [False]\<rparr>"

text \<open>Data-ready is a low level on the data pin.\<close>

definition dataReady :: "bool \<Rightarrow> bool" where
  "dataReady dout_level \<longleftrightarrow> \<not> dout_level"

definition shift_in :: "u32 \<Rightarrow> bool list \<Rightarrow> u32" where
  "shift_in v bs = foldl (\<lambda>v b. push_bit 1 v OR (if b then 1 else 0)) v bs"

definition readRaw :: "hx711 \<Rightarrow> (nat \<Rightarrow> bool) \<Rightarrow> i32 \<times> hx711" where
  "readRaw h dout =
     (hx711SignExtend (shift_in 0 (map dout [0..<24])),
      h\<lparr>hx_sck := hx_sck h @ concat (replicate 24 [True, False])
                    @ concat (replicate (nat (hx_gain_pulses h)) [True, False])\<rparr>)"

fun tare_sum :: "hx711 \<Rightarrow> int \<Rightarrow> (nat \<Rightarrow> bool) list \<Rightarrow> int \<times> hx711" where
  "tare_sum h acc [] = (acc, h)"
| "tare_sum h acc (dout # bursts) =
     (case readRaw h dout of (raw, h') \<Rightarrow> tare_sum h' (acc + sint raw) bursts)"

text \<open>\<open>tare n\<close> takes \<open>n\<close> readings (at least one); \<open>bursts i\<close> is the data pin in reading \<open>i\<close>.\<close>

definition tare :: "hx711 \<Rightarrow> int \<Rightarrow> (nat \<Rightarrow> nat \<Rightarrow> bool) \<Rightarrow> hx711" where
  "tare h n bursts =
     (let n = if n < 1 then 1 else n
      in case tare_sum h 0 (map bursts [0..<nat n]) of
           (acc, h') \<Rightarrow> h'\<lparr>hx_cal := withCalibration (word_of_int (cdiv acc n))
                               (hc_counts_per_N (hx_cal h'))\<rparr>)"

definition hx711_afterParse :: "hx711 \<Rightarrow> hx711" where
  "hx711_afterParse h = h\<lparr>hx_gain_pulses :=
     (if hx_channel_gain h = 64 then 3 else if hx_channel_gain h = 32 then 2 else 1)\<rparr>"

text \<open>Assertions that fail raise; \<open>Inl\<close> carries the message.\<close>

definition hx711_validate :: "hx711 \<Rightarrow> string + unit" where
  "hx711_validate h =
     (if \<not> hx_dout_defined h then Inl ''HX711 dout_pin must be configured''
      else if \<not> hx_sck_defined h then Inl ''HX711 sck_pin must be configured''
      else if \<not> (hx_channel_gain h = 128 \<or> hx_channel_gain h = 64 \<or> hx_channel_gain h = 32)
      then Inl ''HX711 channel_gain must be 128, 64 or 32''
      else Inr ())"

subsection \<open>Sign extension\<close>

lemma shift_in_horner:
  "shift_in v bs = push_bit (length bs) v + horner_sum of_bool 2 (rev bs)"
proof (induction bs arbitrary: v)
  case (Cons b bs)
  have "push_bit 1 v OR (if b then 1 else 0) = push_bit 1 v + of_bool b"
    by (cases b) (simp_all add: or_one_eq)
  with Cons show ?case
    by (simp add: shift_in_def horner_sum_append push_bit_add push_bit_eq_mult algebra_simps)
qed (simp add: shift_in_def)

lemma shift_in_bits:
  "shift_in 0 (map (\<lambda>i. bit w (23 - i)) [0..<24]) = take_bit 24 (w :: u32)"
proof -
  have "rev (map (\<lambda>i. bit w (23 - i)) [0..<24]) = map (bit w) [0..<24]"
    by (simp add: upt_rec numeral_eq_Suc)
  then show ?thesis
    by (simp add: shift_in_horner horner_sum_bit_eq_take_bit)
qed

lemma hx711SignExtend_bits:
  "bit (hx711SignExtend v) k \<longleftrightarrow> k < 32 \<and> bit v (min k 23)"
proof -
  have hi: "(0xFF000000 :: u32) = NOT (mask 24)" "(0x00FFFFFF :: u32) = mask 24"
    by (simp_all add: mask_eq_exp_minus_1)
  have sg: "v AND 0x800000 \<noteq> 0 \<longleftrightarrow> bit v 23"
    using and_exp_eq_0_iff_not_bit [of v 23] by simp
  show ?thesis
  proof (cases "k < 32")
    case True
    then show ?thesis
      by (auto simp: hx711SignExtend_def sg hi bit_simps min_def less_Suc_eq_le)
  next
    case False
    then show ?thesis using bit_imp_le_length [of "hx711SignExtend v" k] by auto
  qed
qed

lemma sint_hx711SignExtend: "sint (hx711SignExtend v) = signed_take_bit 23 (uint v)"
  by (rule bit_eqI) (auto simp: bit_sint_iff hx711SignExtend_bits bit_signed_take_bit_iff bit_uint_iff min_def)

lemma sint_hx711SignExtend_range:
  "- 8388608 \<le> sint (hx711SignExtend v)" "sint (hx711SignExtend v) < 8388608"
  using signed_take_bit_int_greater_eq_minus_exp [of 23 "uint v"] signed_take_bit_int_less_exp [of 23 "uint v"]
  by (simp_all add: sint_hx711SignExtend)

text \<open>A reading is the 24-bit two's complement number the converter shifts out.\<close>

definition hx711_bits :: "int \<Rightarrow> nat \<Rightarrow> bool" where
  "hx711_bits n i = bit n (23 - i)"

lemma readRaw_bits:
  assumes "- 8388608 \<le> n" "n < 8388608"
  shows "sint (fst (readRaw h (hx711_bits n))) = n"
proof -
  have eq: "map (hx711_bits n) [0..<24] = map (\<lambda>i. bit (word_of_int n :: u32) (23 - i)) [0..<24]"
    by (auto simp: hx711_bits_def bit_word_of_int_iff)
  have "sint (fst (readRaw h (hx711_bits n))) = signed_take_bit 23 (uint (take_bit 24 (word_of_int n :: u32)))"
    by (simp only: readRaw_def fst_conv eq shift_in_bits sint_hx711SignExtend)
  also have "\<dots> = signed_take_bit 23 n"
    by (rule bit_eqI) (auto simp: bit_signed_take_bit_iff bit_uint_iff bit_take_bit_iff bit_word_of_int_iff min_def)
  also have "\<dots> = n" using assms by (simp add: signed_take_bit_int_eq_self)
  finally show ?thesis .
qed

lemma readRaw_range:
  "- 8388608 \<le> sint (fst (readRaw h dout))" "sint (fst (readRaw h dout)) < 8388608"
  by (simp_all add: readRaw_def sint_hx711SignExtend_range)

lemma readRaw_clock:
  "hx_sck (snd (readRaw h dout))
     = hx_sck h @ concat (replicate (24 + nat (hx_gain_pulses h)) [True, False])"
  by (simp add: readRaw_def replicate_add)

lemma readRaw_same [simp]:
  "hx_gain_pulses (snd (readRaw h dout)) = hx_gain_pulses h"
  "hx_cal (snd (readRaw h dout)) = hx_cal h"
  "hx_channel_gain (snd (readRaw h dout)) = hx_channel_gain h"
  by (simp_all add: readRaw_def)

lemma pulses_of_gain:
  "hx711_validate h = Inr () \<Longrightarrow>
     hx_gain_pulses (hx711_afterParse h) \<in> {1, 2, 3}"
  by (simp add: hx711_afterParse_def)

subsection \<open>Tare\<close>

lemma tare_sum_range:
  "acc - 8388608 * int (length bursts) \<le> fst (tare_sum h acc bursts)
     \<and> fst (tare_sum h acc bursts) \<le> acc + 8388607 * int (length bursts)"
proof (induction bursts arbitrary: h acc)
  case (Cons dout bursts)
  obtain raw h' where rr: "readRaw h dout = (raw, h')" by fastforce
  then have "- 8388608 \<le> sint raw" "sint raw < 8388608"
    using readRaw_range [of h dout] by simp_all
  with Cons [of "acc + sint raw" h'] show ?case
    by (simp add: rr)
qed simp

lemma tare_sum_cal: "hx_cal (snd (tare_sum h acc bursts)) = hx_cal h"
proof (induction bursts arbitrary: h acc)
  case (Cons dout bursts)
  obtain raw h' where rr: "readRaw h dout = (raw, h')" by fastforce
  then have "hx_cal h' = hx_cal h" using readRaw_same(2) [of h dout] by simp
  with Cons show ?case by (simp add: rr)
qed simp

lemma cdiv_between:
  assumes "0 < n" "- (b * n) \<le> a" "a \<le> d * n" "0 \<le> b" "0 \<le> d"
  shows "- b \<le> cdiv a n" "cdiv a n \<le> d"
proof -
  have up: "\<bar>a\<bar> div n \<le> k" if "\<bar>a\<bar> \<le> k * n" for k
    using zdiv_mono1 [OF that assms(1)] assms(1) by simp
  have nn: "0 \<le> \<bar>a\<bar> div n" using assms(1) by (simp add: pos_imp_zdiv_nonneg_iff)
  have cd: "cdiv a n = sgn a * (\<bar>a\<bar> div n)" using assms(1) by (simp add: cdiv_def)
  show "- b \<le> cdiv a n"
  proof (cases "0 \<le> a")
    case True
    then show ?thesis using nn assms(4) by (simp add: cd sgn_if)
  next
    case False
    then show ?thesis using up [of b] assms(2) by (simp add: cd)
  qed
  show "cdiv a n \<le> d"
  proof (cases "0 \<le> a")
    case True
    then show ?thesis using up [of d] assms(3,5) nn by (simp add: cd sgn_if)
  next
    case False
    then show ?thesis using nn assms(5) by (simp add: cd)
  qed
qed

lemma tare_offset_range:
  "- 8388608 \<le> sint (hc_offset (hx_cal (tare h n bursts)))"
  "sint (hc_offset (hx_cal (tare h n bursts))) \<le> 8388607"
proof -
  define m where "m = (if n < 1 then 1 else n)"
  define acc where "acc = fst (tare_sum h 0 (map bursts [0..<nat m]))"
  have m: "0 < m" by (simp add: m_def)
  have off: "hc_offset (hx_cal (tare h n bursts)) = word_of_int (cdiv acc m)"
    by (simp add: tare_def Let_def m_def acc_def withCalibration_def case_prod_unfold)
  have "- (8388608 * m) \<le> acc" "acc \<le> 8388607 * m"
    using tare_sum_range [of 0 "map bursts [0..<nat m]" h] m by (simp_all add: acc_def)
  then have "- 8388608 \<le> cdiv acc m" "cdiv acc m \<le> 8388607"
    using cdiv_between [OF m, of 8388608 acc 8388607] by simp_all
  then show "- 8388608 \<le> sint (hc_offset (hx_cal (tare h n bursts)))"
    "sint (hc_offset (hx_cal (tare h n bursts))) \<le> 8388607"
    unfolding off by (simp_all only: sint_word_of_int32)
qed

text \<open>Taring on a constant reading makes that reading zero newtons.\<close>

lemma tare_sum_const:
  assumes "- 8388608 \<le> n" "n < 8388608"
  shows "fst (tare_sum h acc (replicate k (hx711_bits n))) = acc + int k * n"
proof (induction k arbitrary: h acc)
  case (Suc k)
  obtain raw h' where rr: "readRaw h (hx711_bits n) = (raw, h')" by fastforce
  with readRaw_bits [OF assms, of h] have "sint raw = n" by simp
  then show ?case by (simp add: rr Suc algebra_simps)
qed simp

lemma toNewtons_offset: "toNewtons cal (hc_offset cal) = 0"
  by (simp add: toNewtons_def fdiv_def fsub_def)

lemma toNewtons_mono:
  "0 < hc_counts_per_N cal \<Longrightarrow> sint a \<le> sint b \<Longrightarrow> toNewtons cal a \<le> toNewtons cal b"
  by (simp add: toNewtons_def fdiv_def fsub_def f32_mono divide_right_mono fint_mono)

lemma tare_const:
  assumes "- 8388608 \<le> n" "n < 8388608"
  shows "toNewtons (hx_cal (tare h k (\<lambda>_. hx711_bits n))) (fst (readRaw h' (hx711_bits n))) = 0"
proof -
  define m where "m = (if k < 1 then 1 else k)"
  have m: "0 < m" by (simp add: m_def)
  have rep: "map (\<lambda>_. hx711_bits n) [0..<nat m] = replicate (nat m) (hx711_bits n)"
    by (simp add: map_replicate_const)
  have "fst (tare_sum h 0 (replicate (nat m) (hx711_bits n))) = m * n"
    using m by (simp add: tare_sum_const [OF assms])
  moreover have "cdiv (m * n) m = n"
    using m by (simp add: cdiv_def abs_mult sgn_mult mult.commute [of "\<bar>n\<bar>"] sgn_mult_abs)
  ultimately have off: "hc_offset (hx_cal (tare h k (\<lambda>_. hx711_bits n))) = word_of_int n"
    by (simp add: tare_def Let_def m_def [symmetric] rep withCalibration_def case_prod_unfold)
  have raw: "fst (readRaw h' (hx711_bits n)) = word_of_int n"
    using arg_cong [OF readRaw_bits [OF assms, of h'], of "word_of_int :: int \<Rightarrow> i32"] by simp
  show ?thesis unfolding raw off [symmetric] by (rule toNewtons_offset)
qed

end
