(* ===== verification/StepGen.thy ===== *)
theory StepGen
  imports Prelude
begin

text \<open>
  The step generator (\<^verbatim>\<open>EDM/Feed/StepGen.h\<close>, \<^verbatim>\<open>StepGen.cpp\<close>): the task sets a rate, a
  timer interrupt toggles the step pin. The state holds the half period, the two levels the
  code keeps and the level last written to each pin. Arming the hardware timer is a TODO of
  the source and not modelled; \<open>std::abs\<close> of the least integer is undefined in C++ and
  wraps here.
\<close>

definition TIMER_HZ :: u32 where "TIMER_HZ = 1000000"

record step_gen =
  sg_half_period_ticks :: u32
  sg_dir_level :: bool
  sg_step_level :: bool
  sg_step_pin :: bool
  sg_dir_pin :: bool
  sg_disable_pin :: bool
  sg_timer_num :: int

definition step_gen_new :: step_gen where
  "step_gen_new = \<lparr>sg_half_period_ticks = 0, sg_dir_level = False, sg_step_level = False,
     sg_step_pin = False, sg_dir_pin = False, sg_disable_pin = False, sg_timer_num = - 1\<rparr>"

definition step_gen_enable :: "bool \<Rightarrow> step_gen \<Rightarrow> step_gen" where
  "step_gen_enable on g = g\<lparr>sg_disable_pin := \<not> on\<rparr>"

definition step_gen_begin :: "int \<Rightarrow> step_gen \<Rightarrow> step_gen" where
  "step_gen_begin timer_num g =
     step_gen_enable False
       (g\<lparr>sg_timer_num := timer_num, sg_step_pin := False, sg_dir_pin := sg_dir_level g\<rparr>)"

definition half_period :: "i32 \<Rightarrow> u32" where
  "half_period steps_per_s =
     (if steps_per_s \<noteq> 0
      then let mag = (if sint steps_per_s < 0 then - steps_per_s else steps_per_s);
               half = TIMER_HZ div (2 * mag)
           in if half = 0 then 1 else half
      else 0)"

definition setRate :: "i32 \<Rightarrow> step_gen \<Rightarrow> step_gen" where
  "setRate steps_per_s g =
     (let dir = sint steps_per_s < 0
      in g\<lparr>sg_dir_level := dir, sg_dir_pin := dir,
           sg_half_period_ticks := half_period steps_per_s\<rparr>)"

definition onTimer :: "step_gen \<Rightarrow> step_gen" where
  "onTimer g =
     (if sg_half_period_ticks g = 0 then g
      else g\<lparr>sg_step_level := \<not> sg_step_level g, sg_step_pin := \<not> sg_step_level g\<rparr>)"

subsection \<open>Rates and pulses\<close>

lemma half_period_zero [simp]: "half_period r = 0 \<longleftrightarrow> r = 0"
  by (simp add: half_period_def Let_def)

lemma half_period_nat:
  assumes "sint r \<noteq> 0" "\<bar>sint r\<bar> \<le> 500000"
  shows "uint (half_period r) = 1000000 div (2 * \<bar>sint r\<bar>)"
proof -
  define mag where "mag = (if sint r < 0 then - r else r)"
  have nz: "r \<noteq> 0" using assms(1) by auto
  have read: "uint (word_of_int k :: u32) = k" if "0 \<le> k" "k < 2 ^ 32" for k
    using that by (simp add: unsigned_of_int take_bit_int_eq_self)
  have mag: "uint mag = \<bar>sint r\<bar>"
  proof (cases "sint r < 0")
    case True
    then have "uint mag = uint (word_of_int (- sint r) :: u32)" by (simp add: mag_def)
    also have "\<dots> = - sint r" by (rule read) (use True assms in simp_all)
    finally show ?thesis using True by simp
  next
    case False
    then have "uint mag = uint (word_of_int (sint r) :: u32)" by (simp add: mag_def)
    also have "\<dots> = sint r" by (rule read) (use False assms in simp_all)
    finally show ?thesis using False by simp
  qed
  then have "uint (2 * mag) = 2 * \<bar>sint r\<bar>"
    using assms by (simp add: uint_word_ariths)
  then have "uint (TIMER_HZ div (2 * mag)) = 1000000 div (2 * \<bar>sint r\<bar>)"
    by (simp add: uint_div TIMER_HZ_def)
  moreover have "0 < 1000000 div (2 * \<bar>sint r\<bar>)"
    using assms by (simp add: pos_imp_zdiv_pos_iff)
  ultimately show ?thesis
    using nz by (auto simp: half_period_def Let_def mag_def [symmetric])
qed

text \<open>The period is the longest one that still reaches the rate.\<close>

lemma half_period_rate:
  assumes "sint r \<noteq> 0" "\<bar>sint r\<bar> \<le> 500000"
  shows "2 * \<bar>sint r\<bar> * uint (half_period r) \<le> 1000000"
    and "1000000 < 2 * \<bar>sint r\<bar> * (uint (half_period r) + 1)"
    and "1 \<le> uint (half_period r)"
proof -
  define d where "d = 2 * \<bar>sint r\<bar>"
  have d: "0 < d" "d \<le> 1000000" using assms by (simp_all add: d_def)
  have h: "uint (half_period r) = 1000000 div d" by (simp add: half_period_nat [OF assms] d_def)
  have m: "d * (1000000 div d) + 1000000 mod d = 1000000" "0 \<le> 1000000 mod d" "1000000 mod d < d"
    using d by simp_all
  show "2 * \<bar>sint r\<bar> * uint (half_period r) \<le> 1000000"
    unfolding d_def [symmetric] h using m by linarith
  show "1000000 < 2 * \<bar>sint r\<bar> * (uint (half_period r) + 1)"
    unfolding d_def [symmetric] h distrib_left using m by linarith
  show "1 \<le> uint (half_period r)"
    unfolding h using d by (simp add: pos_imp_zdiv_pos_iff int_one_le_iff_zero_less)
qed

lemma onTimer_parked: "sg_half_period_ticks g = 0 \<Longrightarrow> (onTimer ^^ k) g = g"
  by (induction k) (simp_all add: onTimer_def)

lemma onTimer_half [simp]: "sg_half_period_ticks (onTimer g) = sg_half_period_ticks g"
  by (simp add: onTimer_def)

lemma onTimer_toggles:
  "sg_half_period_ticks g \<noteq> 0 \<Longrightarrow> sg_step_level ((onTimer ^^ k) g) \<longleftrightarrow> (sg_step_level g \<noteq> odd k)"
  "sg_half_period_ticks ((onTimer ^^ k) g) = sg_half_period_ticks g"
proof (induction k)
  case (Suc k)
  { case 1
    with Suc show ?case by (simp add: onTimer_def) }
  { case 2
    show ?case using Suc(2) by simp }
qed simp_all

text \<open>The pulse train of \<open>k\<close> interrupts: the number of rising edges written to the pin.\<close>

fun rising_edges :: "nat \<Rightarrow> step_gen \<Rightarrow> nat" where
  "rising_edges 0 g = 0"
| "rising_edges (Suc k) g =
     (if \<not> sg_step_level g \<and> sg_step_level (onTimer g) then 1 else 0) + rising_edges k (onTimer g)"

lemma rising_edges_count:
  "rising_edges k g =
     (if sg_half_period_ticks g = 0 then 0
      else if sg_step_level g then k div 2 else (k + 1) div 2)"
proof (induction k arbitrary: g)
  case (Suc k)
  have lvl: "sg_half_period_ticks g \<noteq> 0 \<Longrightarrow> sg_step_level (onTimer g) = (\<not> sg_step_level g)"
    "sg_half_period_ticks g = 0 \<Longrightarrow> onTimer g = g"
    by (simp_all add: onTimer_def)
  show ?case using lvl by (simp add: Suc)
qed simp

end
