(* ===== verification/ModeTable.thy ===== *)
theory ModeTable
  imports PsuProtocol Float32
begin

text \<open>
  The table of cutting modes (\<^verbatim>\<open>EDM/Servo/ModeTable.h\<close>, \<^verbatim>\<open>EDM/Servo/ModeTable.cpp\<close>): the
  S-word bands, the parameters of a mode, the \<^verbatim>\<open>SET_MODE_BOUNDS\<close> message built from them
  with the optional scaling of the peak current inside a band, and the next lower energy.
\<close>

datatype edm_mode = ModeIdle | ModeRough | ModeFinish | ModeIgnite

record mode_params =
  mp_mode_id :: u8
  mp_freq_max_kHz :: u16
  mp_on_time_max_ns :: u16
  mp_off_time_min_ns :: u16
  mp_peak_I_setpoint_dA :: u16
  mp_peak_I_limit_hw_dA :: u16
  mp_polarity :: u8
  mp_flags :: u16
  mp_gap_V_arc_mV :: u16
  mp_gap_V_short_mV :: u16
  mp_ignition_timeout_us :: u16
  mp_ign_delay_nom_ns :: u16

definition mode_params_default :: mode_params where
  "mode_params_default = \<lparr>mp_mode_id = 0, mp_freq_max_kHz = 0, mp_on_time_max_ns = 0,
     mp_off_time_min_ns = 0, mp_peak_I_setpoint_dA = 0, mp_peak_I_limit_hw_dA = 0,
     mp_polarity = 0, mp_flags = 0, mp_gap_V_arc_mV = 0, mp_gap_V_short_mV = 0,
     mp_ignition_timeout_us = 0, mp_ign_delay_nom_ns = 10000\<rparr>"

record mode_table =
  mt_rough :: mode_params
  mt_finish :: mode_params
  mt_ignite :: mode_params
  mt_ignite_max :: u16
  mt_finish_max :: u16
  mt_adaptive_setpoint :: bool

definition mode_table_default :: mode_table where
  "mode_table_default = \<lparr>mt_rough = mode_params_default, mt_finish = mode_params_default,
     mt_ignite = mode_params_default, mt_ignite_max = 99, mt_finish_max = 499,
     mt_adaptive_setpoint = False\<rparr>"

definition modeForSword :: "mode_table \<Rightarrow> u16 \<Rightarrow> edm_mode" where
  "modeForSword t s =
     (if s = 0 then ModeIdle
      else if s \<le> mt_ignite_max t then ModeIgnite
      else if s \<le> mt_finish_max t then ModeFinish
      else ModeRough)"

fun mode_parameters :: "mode_table \<Rightarrow> edm_mode \<Rightarrow> mode_params" where
  "mode_parameters t ModeRough = mt_rough t"
| "mode_parameters t ModeFinish = mt_finish t"
| "mode_parameters t m = mt_ignite t"

text \<open>The S-word band of a mode, as the adaptive branch of \<^verbatim>\<open>build\<close> computes it.\<close>

fun sword_band :: "mode_table \<Rightarrow> edm_mode \<Rightarrow> u16 \<times> u16" where
  "sword_band t ModeIgnite = (1, mt_ignite_max t)"
| "sword_band t ModeFinish = (mt_ignite_max t + 1, mt_finish_max t)"
| "sword_band t m = (mt_finish_max t + 1, 1000)"

definition adaptive_peak :: "mode_params \<Rightarrow> u16 \<Rightarrow> u16 \<Rightarrow> u16 \<Rightarrow> u16" where
  "adaptive_peak p lo hi s_word =
     (let s_word = (if s_word < lo then lo else s_word);
          s_word = (if hi < s_word then hi else s_word);
          t = (if lo < hi then fdiv (fint (uint s_word - uint lo)) (fint (uint hi - uint lo)) else 0);
          base = uint (mp_peak_I_setpoint_dA p);
          scaled = (word_of_int (trunc (fmul (fint base) (fadd (1 / 2) (fmul (1 / 2) t)))) :: u32);
          scaled = (if ucast (mp_peak_I_limit_hw_dA p) < scaled
                    then ucast (mp_peak_I_limit_hw_dA p) else scaled)
      in ucast scaled)"

definition build :: "mode_table \<Rightarrow> edm_mode \<Rightarrow> u16 \<Rightarrow> u16 \<Rightarrow> set_mode_bounds" where
  "build t m s_word seq =
     (let p = mode_parameters t m;
          b = \<lparr>smb_mode_id = mp_mode_id p, smb_seq = seq,
               smb_freq_max_kHz = mp_freq_max_kHz p,
               smb_on_time_max_ns = mp_on_time_max_ns p,
               smb_off_time_min_ns = mp_off_time_min_ns p,
               smb_peak_I_setpoint_dA = mp_peak_I_setpoint_dA p,
               smb_peak_I_limit_hw_dA = mp_peak_I_limit_hw_dA p,
               smb_polarity = mp_polarity p, smb_flags = mp_flags p,
               smb_gap_V_arc_mV = mp_gap_V_arc_mV p, smb_gap_V_short_mV = mp_gap_V_short_mV p,
               smb_ignition_timeout_us = mp_ignition_timeout_us p\<rparr>
      in if mt_adaptive_setpoint t \<and> m \<noteq> ModeIdle
         then let (lo, hi) = sword_band t m
              in b\<lparr>smb_peak_I_setpoint_dA := adaptive_peak p lo hi s_word\<rparr>
         else b)"

fun lowerEnergy :: "edm_mode \<Rightarrow> edm_mode" where
  "lowerEnergy ModeRough = ModeFinish"
| "lowerEnergy ModeFinish = ModeIgnite"
| "lowerEnergy m = ModeIgnite"

subsection \<open>Bands\<close>

lemma modeForSword_idle_iff: "modeForSword t s = ModeIdle \<longleftrightarrow> s = 0"
  by (simp add: modeForSword_def)

text \<open>Energy order of the cutting modes, and the monotone response to the S word.\<close>

fun mode_energy :: "edm_mode \<Rightarrow> nat" where
  "mode_energy ModeIdle = 0"
| "mode_energy ModeIgnite = 1"
| "mode_energy ModeFinish = 2"
| "mode_energy ModeRough = 3"

lemma modeForSword_mono: "s \<le> s' \<Longrightarrow> mode_energy (modeForSword t s) \<le> mode_energy (modeForSword t s')"
  by (auto simp: modeForSword_def word_gt_0)

lemma lowerEnergy_decreases: "m \<noteq> ModeIdle \<Longrightarrow> mode_energy (lowerEnergy m) \<le> mode_energy m"
  by (cases m) auto

lemma lowerEnergy_twice: "lowerEnergy (lowerEnergy m) = ModeIgnite"
  by (cases m) auto

subsection \<open>The adaptive setpoint\<close>

text \<open>The position inside the band, a number between 0 and 1.\<close>

definition band_pos :: "u16 \<Rightarrow> u16 \<Rightarrow> u16 \<Rightarrow> real" where
  "band_pos lo hi s =
     (let s = (if s < lo then lo else s); s = (if hi < s then hi else s)
      in if lo < hi then fdiv (fint (uint s - uint lo)) (fint (uint hi - uint lo)) else 0)"

definition scaled_peak :: "mode_params \<Rightarrow> real \<Rightarrow> int" where
  "scaled_peak p t = trunc (fmul (fint (uint (mp_peak_I_setpoint_dA p))) (fadd (1 / 2) (fmul (1 / 2) t)))"

lemma adaptive_peak_eq:
  "adaptive_peak p lo hi s =
     (let scaled = (word_of_int (scaled_peak p (band_pos lo hi s)) :: u32)
      in ucast (if ucast (mp_peak_I_limit_hw_dA p) < scaled
                then ucast (mp_peak_I_limit_hw_dA p) else scaled))"
  by (simp add: adaptive_peak_def band_pos_def scaled_peak_def Let_def)

lemma band_pos_bounds: "0 \<le> band_pos lo hi s" "band_pos lo hi s \<le> 1"
proof -
  define s' where "s' = (let s = (if s < lo then lo else s) in if hi < s then hi else s)"
  have eq: "band_pos lo hi s = (if lo < hi then fdiv (fint (uint s' - uint lo)) (fint (uint hi - uint lo)) else 0)"
    by (simp add: band_pos_def s'_def Let_def)
  have "0 \<le> band_pos lo hi s \<and> band_pos lo hi s \<le> 1"
  proof (cases "lo < hi")
    case True
    then have s': "lo \<le> s'" "s' \<le> hi" by (auto simp: s'_def Let_def not_less)
    then have i: "0 \<le> uint s' - uint lo" "uint s' - uint lo \<le> uint hi - uint lo"
      by (simp_all add: word_le_def)
    have "fint (uint s' - uint lo) \<le> fint (uint hi - uint lo)" using i(2) by (rule fint_mono)
    moreover have "0 \<le> fint (uint s' - uint lo)" using i(1) by (rule fint_nonneg)
    ultimately have "0 \<le> fint (uint s' - uint lo) / fint (uint hi - uint lo)"
      "fint (uint s' - uint lo) / fint (uint hi - uint lo) \<le> 1"
      by (auto simp: divide_le_eq_1 le_less)
    then show ?thesis
      using True f32_mono [of _ "1 :: real"] by (simp add: eq fdiv_def f32_nonneg)
  next
    case False
    then show ?thesis by (simp add: eq)
  qed
  then show "0 \<le> band_pos lo hi s" "band_pos lo hi s \<le> 1" by auto
qed

lemma band_pos_mono: "s \<le> s' \<Longrightarrow> band_pos lo hi s \<le> band_pos lo hi s'"
proof (cases "lo < hi")
  case False
  then show ?thesis by (simp add: band_pos_def)
next
  case True
  let ?c = "\<lambda>s. let s = (if s < lo then lo else s) in if hi < s then hi else s"
  assume "s \<le> s'"
  then have "?c s \<le> ?c s'" by (auto simp: Let_def not_less)
  then have "fint (uint (?c s) - uint lo) \<le> fint (uint (?c s') - uint lo)"
    by (intro fint_mono) (simp add: word_le_def)
  moreover have "0 \<le> fint (uint hi - uint lo)"
    using True by (intro fint_nonneg) (simp add: word_less_def)
  ultimately show ?thesis
    using True by (simp add: band_pos_def Let_def fdiv_def f32_mono divide_right_mono)
qed

lemma scaled_peak_mono: "t \<le> t' \<Longrightarrow> scaled_peak p t \<le> scaled_peak p t'"
proof -
  assume "t \<le> t'"
  then have "fadd (1 / 2) (fmul (1 / 2) t) \<le> fadd (1 / 2) (fmul (1 / 2) t')"
    by (simp add: fadd_def fmul_def f32_mono)
  then show ?thesis
    unfolding scaled_peak_def
    by (intro trunc_mono) (simp add: fmul_def f32_mono mult_left_mono fint_nonneg)
qed

lemma scaled_peak_bounds:
  assumes "0 \<le> t" "t \<le> 1"
  shows "0 \<le> scaled_peak p t" "scaled_peak p t \<le> uint (mp_peak_I_setpoint_dA p)"
proof -
  let ?b = "uint (mp_peak_I_setpoint_dA p)"
  have b: "0 \<le> ?b" "?b < 2 ^ 16" using uint_lt2p [of "mp_peak_I_setpoint_dA p"] by simp_all
  have half: "f32 (1 / 2) = 1 / 2" by (simp add: float_simps)
  have zero: "0 \<le> scaled_peak p 0"
    by (auto simp: scaled_peak_def fadd_def fmul_def half intro!: trunc_nonneg f32_nonneg mult_nonneg_nonneg fint_nonneg)
  then show "0 \<le> scaled_peak p t" using scaled_peak_mono [OF assms(1)] by (rule order_trans)
  have one: "trunc (fmul (fint n) (fadd (1 / 2) (fmul (1 / 2) 1))) = n" if "0 \<le> n" "n < 2 ^ 16" for n
    using that by (simp add: fint_exact fadd_def fmul_def half f32_of_int)
  have "scaled_peak p 1 = ?b" unfolding scaled_peak_def using b by (rule one)
  then show "scaled_peak p t \<le> ?b" using scaled_peak_mono [OF assms(2), of p] by simp
qed

text \<open>
  The value on the wire, as an integer: the scaled current cut at the hardware limit.
\<close>

lemma uint_adaptive_peak:
  "uint (adaptive_peak p lo hi s)
     = min (uint (mp_peak_I_limit_hw_dA p)) (scaled_peak p (band_pos lo hi s))"
proof -
  define n where "n = scaled_peak p (band_pos lo hi s)"
  have n: "0 \<le> n" "n < 2 ^ 16"
    using scaled_peak_bounds [OF band_pos_bounds, of p lo hi s]
      uint_lt2p [of "mp_peak_I_setpoint_dA p"] by (auto simp: n_def)
  then have w: "uint (word_of_int n :: u32) = n"
    by (simp add: uint_word_of_int mod_pos_pos_trivial)
  have l: "uint (ucast (mp_peak_I_limit_hw_dA p) :: u32) = uint (mp_peak_I_limit_hw_dA p)"
    using uint_lt2p [of "mp_peak_I_limit_hw_dA p"]
    by (simp add: unsigned_ucast_eq take_bit_eq_mod mod_pos_pos_trivial)
  have small: "uint (ucast x :: u16) = uint x" if "uint (x :: u32) < 2 ^ 16" for x
    using that by (simp add: unsigned_ucast_eq take_bit_eq_mod mod_pos_pos_trivial)
  show ?thesis
  proof (cases "(ucast (mp_peak_I_limit_hw_dA p) :: u32) < word_of_int n")
    case True
    then have "uint (mp_peak_I_limit_hw_dA p) < n" by (simp add: word_less_def w l)
    with True n l show ?thesis
      by (simp add: adaptive_peak_eq Let_def small w flip: n_def)
  next
    case False
    then have "n \<le> uint (mp_peak_I_limit_hw_dA p)" by (simp add: word_less_def w l)
    with False n show ?thesis
      by (simp add: adaptive_peak_eq Let_def small w min_absorb2 flip: n_def)
  qed
qed

end
