(* ===== verification/GapServo.thy ===== *)
theory GapServo
  imports Float32
begin

text \<open>
  The gap servo (\<^verbatim>\<open>EDM/Servo/GapServo.h\<close>, \<^verbatim>\<open>EDM/Servo/GapServo.cpp\<close>): one pure step from
  the previous state and the classifier ratios of a telemetry window to a signed feed
  velocity. The step is composed of the blocks of the C++ function: the filtered error,
  the short counter, the decimated PI controller, the priority chain that selects the
  velocity, and the final cap and clamp.
\<close>

datatype servo_state = SvHold | SvTrack | SvRetract | SvArcHold | SvBreakRelief

record servo_config =
  sc_short_ref :: real
  sc_open_ref :: real
  sc_w_short :: real
  sc_w_open :: real
  sc_w_delay :: real
  sc_alpha :: real
  sc_Kp :: real
  sc_Ki :: real
  sc_deadband :: real
  sc_v_feed_max :: real
  sc_v_retract :: real
  sc_v_touch :: real
  sc_short_retract :: real
  sc_arc_brake :: real
  sc_arc_hold :: real
  sc_integ_bleed :: real
  sc_n_min :: u16
  sc_consec_short_limit :: u8
  sc_pi_decimation :: u8
  sc_dt_pi :: real

definition servo_config_default :: servo_config where
  "servo_config_default = \<lparr>sc_short_ref = f32 0.08, sc_open_ref = f32 0.15, sc_w_short = 1,
     sc_w_open = 1 / 2, sc_w_delay = f32 0.3, sc_alpha = f32 0.2, sc_Kp = 8, sc_Ki = 0,
     sc_deadband = f32 0.03, sc_v_feed_max = 4, sc_v_retract = 6, sc_v_touch = 1 / 2,
     sc_short_retract = f32 0.30, sc_arc_brake = f32 0.20, sc_arc_hold = f32 0.40,
     sc_integ_bleed = 1 / 2, sc_n_min = 20, sc_consec_short_limit = 3, sc_pi_decimation = 5,
     sc_dt_pi = f32 0.005\<rparr>"

record gap_servo_input =
  gi_valid :: bool
  gi_open_ratio :: real
  gi_short_ratio :: real
  gi_arc_ratio :: real
  gi_normal_ratio :: real
  gi_ign_delay_norm :: real
  gi_total_pulses :: u16
  gi_feed_cap_mult :: real
  gi_force_break_relief :: bool
  gi_in_touch_off :: bool

definition gap_servo_input_default :: gap_servo_input where
  "gap_servo_input_default = \<lparr>gi_valid = False, gi_open_ratio = 0, gi_short_ratio = 0,
     gi_arc_ratio = 0, gi_normal_ratio = 0, gi_ign_delay_norm = 0, gi_total_pulses = 0,
     gi_feed_cap_mult = 1, gi_force_break_relief = False, gi_in_touch_off = False\<rparr>"

record gap_servo_state =
  gs_state :: servo_state
  gs_e_f :: real
  gs_integ :: real
  gs_consec_short :: u8
  gs_decim_count :: u8
  gs_last_v :: real

text \<open>\<^verbatim>\<open>GapServo::reset()\<close>.\<close>

definition gap_servo_reset :: gap_servo_state where
  "gap_servo_reset = \<lparr>gs_state = SvHold, gs_e_f = 0, gs_integ = 0, gs_consec_short = 0,
     gs_decim_count = 0, gs_last_v = 0\<rparr>"

record gap_servo_output =
  go_next :: gap_servo_state
  go_v_s_um_s :: i32
  go_v_cmd_mm_min :: real
  go_state :: servo_state
  go_g_telemetry :: real
  go_g_target :: real
  go_e_filtered :: real
  go_integrator :: real

definition gap_servo_output_default :: gap_servo_output where
  "gap_servo_output_default = \<lparr>go_next = gap_servo_reset, go_v_s_um_s = 0, go_v_cmd_mm_min = 0,
     go_state = SvHold, go_g_telemetry = 0, go_g_target = 0, go_e_filtered = 0, go_integrator = 0\<rparr>"

subsection \<open>The blocks of a step\<close>

text \<open>Filtered error and gap telemetry.\<close>

definition servo_error :: "servo_config \<Rightarrow> gap_servo_state \<Rightarrow> gap_servo_input \<Rightarrow> real \<times> real" where
  "servo_error c s inp =
     (if gi_valid inp then
        let e_delay = clampf (gi_ign_delay_norm inp) (- 1) 1;
            e_raw = fadd (fsub (fmul (sc_w_open c) (fsub (gi_open_ratio inp) (sc_open_ref c)))
                               (fmul (sc_w_short c) (fsub (gi_short_ratio inp) (sc_short_ref c))))
                         (fmul (sc_w_delay c) e_delay);
            e_f = fadd (fmul (sc_alpha c) e_raw) (fmul (fsub 1 (sc_alpha c)) (gs_e_f s));
            g = fadd (fsub (fmul (sc_w_open c) (gi_open_ratio inp))
                           (fmul (sc_w_short c) (gi_short_ratio inp)))
                     (fmul (sc_w_delay c) e_delay)
        in (e_f, g)
      else (gs_e_f s, 0))"

definition servo_g_target :: "servo_config \<Rightarrow> real" where
  "servo_g_target c = fsub (fmul (sc_w_open c) (sc_open_ref c)) (fmul (sc_w_short c) (sc_short_ref c))"

text \<open>Consecutive short windows, saturating at 255.\<close>

definition servo_count_short :: "servo_config \<Rightarrow> gap_servo_input \<Rightarrow> u8 \<Rightarrow> u8" where
  "servo_count_short c inp n =
     (if gi_valid inp then
        (if fmul (sc_short_ref c) 2 < gi_short_ratio inp then (if n < 255 then n + 1 else n) else 0)
      else n)"

text \<open>
  The PI controller, every \<open>pi_decimation\<close>-th valid window. The argument is the state
  whose error is already filtered; the result is the new state and \<open>v_pi\<close>.
\<close>

definition servo_pi :: "servo_config \<Rightarrow> gap_servo_input \<Rightarrow> gap_servo_state \<Rightarrow> gap_servo_state \<times> real" where
  "servo_pi c inp ns =
     (if gi_valid inp then
        let ns = ns\<lparr>gs_decim_count := gs_decim_count ns + 1\<rparr>
        in if sc_pi_decimation c \<le> gs_decim_count ns then
             let ns = ns\<lparr>gs_decim_count := 0\<rparr>;
                 in_db = (\<bar>gs_e_f ns\<bar> < sc_deadband c);
                 ns = (if 0 < sc_Ki c \<and> \<not> in_db then
                         let i = fadd (gs_integ ns) (fmul (gs_e_f ns) (sc_dt_pi c));
                             imax = fdiv (sc_v_feed_max c) (sc_Ki c)
                         in ns\<lparr>gs_integ := clampf i (- imax) imax\<rparr>
                       else ns);
                 v = (if in_db then 0
                      else fadd (fmul (sc_Kp c) (gs_e_f ns)) (fmul (sc_Ki c) (gs_integ ns)));
                 v = clampf v (- sc_v_retract c) (sc_v_feed_max c)
             in (ns\<lparr>gs_last_v := v\<rparr>, v)
           else (ns, gs_last_v ns)
      else (ns, gs_last_v ns))"

text \<open>The priority chain: touch-off, stale data, break relief, shorts, arcs, tracking.\<close>

definition servo_select ::
    "servo_config \<Rightarrow> gap_servo_input \<Rightarrow> gap_servo_state \<Rightarrow> real \<Rightarrow> gap_servo_state \<times> real \<times> servo_state" where
  "servo_select c inp ns v_pi =
     (if gi_in_touch_off inp then (ns, sc_v_touch c, SvTrack)
      else if \<not> gi_valid inp then (ns, 0, SvHold)
      else if gi_force_break_relief inp then
        (ns\<lparr>gs_integ := fmul (gs_integ ns) (sc_integ_bleed c)\<rparr>, - sc_v_retract c, SvBreakRelief)
      else if sc_short_retract c < gi_short_ratio inp \<or> sc_consec_short_limit c \<le> gs_consec_short ns then
        (ns\<lparr>gs_integ := fmul (gs_integ ns) (sc_integ_bleed c)\<rparr>, - sc_v_retract c, SvRetract)
      else if sc_arc_hold c < gi_arc_ratio inp then (ns, 0, SvArcHold)
      else if sc_arc_brake c < gi_arc_ratio inp then
        let taper = fmul (sc_v_feed_max c)
                      (fsub 1 (fdiv (fsub (gi_arc_ratio inp) (sc_arc_brake c)) (fsub 1 (sc_arc_brake c))))
        in (ns, if v_pi < taper then v_pi else taper, SvTrack)
      else (ns, v_pi, if \<bar>gs_e_f ns\<bar> < sc_deadband c then SvHold else SvTrack))"

definition servo_step :: "servo_config \<Rightarrow> gap_servo_state \<Rightarrow> gap_servo_input \<Rightarrow> gap_servo_output" where
  "servo_step c s inp =
     (let (e_f, g) = servo_error c s inp;
          ns = s\<lparr>gs_e_f := e_f, gs_consec_short := servo_count_short c inp (gs_consec_short s)\<rparr>;
          (ns, v_pi) = servo_pi c inp ns;
          (ns, v, st) = servo_select c inp ns v_pi;
          v = (if 0 < v then fmul v (gi_feed_cap_mult inp) else v);
          v = clampf v (- sc_v_retract c) (sc_v_feed_max c);
          ns = ns\<lparr>gs_state := st\<rparr>
      in \<lparr>go_next = ns,
          go_v_s_um_s = word_of_int (lround (fdiv (fmul v 1000) 60)),
          go_v_cmd_mm_min = v,
          go_state = st,
          go_g_telemetry = g,
          go_g_target = servo_g_target c,
          go_e_filtered = gs_e_f ns,
          go_integrator = gs_integ ns\<rparr>)"

subsection \<open>Projections of a step\<close>

text \<open>The state after the PI block, and the selected velocity before the final clamp.\<close>

definition servo_mid :: "servo_config \<Rightarrow> gap_servo_state \<Rightarrow> gap_servo_input \<Rightarrow> gap_servo_state \<times> real" where
  "servo_mid c s inp = servo_pi c inp
     (s\<lparr>gs_e_f := fst (servo_error c s inp), gs_consec_short := servo_count_short c inp (gs_consec_short s)\<rparr>)"

definition servo_sel :: "servo_config \<Rightarrow> gap_servo_state \<Rightarrow> gap_servo_input \<Rightarrow> gap_servo_state \<times> real \<times> servo_state" where
  "servo_sel c s inp = (case servo_mid c s inp of (ns, v_pi) \<Rightarrow> servo_select c inp ns v_pi)"

definition cap_velocity :: "servo_config \<Rightarrow> gap_servo_input \<Rightarrow> real \<Rightarrow> real" where
  "cap_velocity c inp v =
     clampf (if 0 < v then fmul v (gi_feed_cap_mult inp) else v) (- sc_v_retract c) (sc_v_feed_max c)"

lemma servo_step_proj:
  "go_v_cmd_mm_min (servo_step c s inp) = cap_velocity c inp (fst (snd (servo_sel c s inp)))"
  "go_state (servo_step c s inp) = snd (snd (servo_sel c s inp))"
  "go_next (servo_step c s inp) = (fst (servo_sel c s inp))\<lparr>gs_state := go_state (servo_step c s inp)\<rparr>"
  "go_v_s_um_s (servo_step c s inp)
     = word_of_int (lround (fdiv (fmul (go_v_cmd_mm_min (servo_step c s inp)) 1000) 60))"
  "go_integrator (servo_step c s inp) = gs_integ (go_next (servo_step c s inp))"
  "go_g_target (servo_step c s inp) = servo_g_target c"
  by (simp_all add: servo_step_def servo_sel_def servo_mid_def cap_velocity_def Let_def
      split: prod.split)

lemma servo_pi_frame [simp]:
  "gs_e_f (fst (servo_pi c inp ns)) = gs_e_f ns"
  "gs_consec_short (fst (servo_pi c inp ns)) = gs_consec_short ns"
  by (simp_all add: servo_pi_def Let_def)

lemma servo_mid_frame [simp]:
  "gs_consec_short (fst (servo_mid c s inp)) = servo_count_short c inp (gs_consec_short s)"
  by (simp add: servo_mid_def)

lemma servo_select_frame [simp]:
  "gs_consec_short (fst (servo_select c inp ns v)) = gs_consec_short ns"
  "gs_last_v (fst (servo_select c inp ns v)) = gs_last_v ns"
  by (simp_all add: servo_select_def Let_def)

lemma servo_step_consec:
  "gs_consec_short (go_next (servo_step c s inp)) = servo_count_short c inp (gs_consec_short s)"
  by (simp add: servo_step_proj servo_sel_def split: prod.split)
    (metis fst_conv servo_mid_frame servo_select_frame(1))

subsection \<open>The velocity command\<close>

text \<open>A configuration whose limits make sense.\<close>

definition wf_servo_config :: "servo_config \<Rightarrow> bool" where
  "wf_servo_config c \<longleftrightarrow> 0 \<le> sc_v_feed_max c \<and> 0 \<le> sc_v_retract c \<and>
     0 \<le> sc_integ_bleed c \<and> sc_integ_bleed c \<le> 1"

lemma wf_servo_config_default: "wf_servo_config servo_config_default"
  by (simp add: wf_servo_config_def servo_config_default_def)

lemma cap_velocity_bounds:
  "wf_servo_config c \<Longrightarrow> - sc_v_retract c \<le> cap_velocity c inp v \<and> cap_velocity c inp v \<le> sc_v_feed_max c"
  unfolding cap_velocity_def by (rule clampf_bounds) (simp add: wf_servo_config_def)

lemma cap_velocity_pos: "wf_servo_config c \<Longrightarrow> 0 < cap_velocity c inp v \<Longrightarrow> 0 < v"
  by (auto simp: cap_velocity_def clampf_def wf_servo_config_def split: if_splits)

lemma cap_velocity_retract: "wf_servo_config c \<Longrightarrow> cap_velocity c inp (- sc_v_retract c) = - sc_v_retract c"
  by (simp add: cap_velocity_def clampf_def wf_servo_config_def)

lemma cap_velocity_zero_cap:
  "wf_servo_config c \<Longrightarrow> gi_feed_cap_mult inp = 0 \<Longrightarrow> cap_velocity c inp v \<le> 0"
  by (auto simp: cap_velocity_def clampf_def fmul_def wf_servo_config_def)

text \<open>Which velocities the priority chain can select outside touch-off.\<close>

lemma servo_select_positive:
  assumes "wf_servo_config c" "0 < fst (snd (servo_select c inp ns v))" "\<not> gi_in_touch_off inp"
  shows "gi_valid inp" "\<not> gi_force_break_relief inp" "gi_short_ratio inp \<le> sc_short_retract c"
    "gs_consec_short ns < sc_consec_short_limit c" "gi_arc_ratio inp \<le> sc_arc_hold c"
  using assms by (auto simp: servo_select_def wf_servo_config_def Let_def not_le split: if_splits)

lemma servo_select_short:
  assumes "gi_valid inp" "\<not> gi_in_touch_off inp" "\<not> gi_force_break_relief inp"
    and "sc_short_retract c < gi_short_ratio inp \<or> sc_consec_short_limit c \<le> gs_consec_short ns"
  shows "snd (servo_select c inp ns v) = (- sc_v_retract c, SvRetract)"
  using assms by (auto simp: servo_select_def)

lemma servo_select_relief:
  assumes "gi_valid inp" "\<not> gi_in_touch_off inp" "gi_force_break_relief inp"
  shows "snd (servo_select c inp ns v) = (- sc_v_retract c, SvBreakRelief)"
  using assms by (simp add: servo_select_def)

subsection \<open>Runs of short windows\<close>

text \<open>A window that counts as short.\<close>

definition short_window :: "servo_config \<Rightarrow> gap_servo_input \<Rightarrow> bool" where
  "short_window c inp \<longleftrightarrow> gi_valid inp \<and> fmul (sc_short_ref c) 2 < gi_short_ratio inp"

fun servo_run :: "servo_config \<Rightarrow> gap_servo_state \<Rightarrow> gap_servo_input list \<Rightarrow> gap_servo_state" where
  "servo_run c s [] = s"
| "servo_run c s (inp # inps) = servo_run c (go_next (servo_step c s inp)) inps"

lemma count_short_unat:
  "short_window c inp \<Longrightarrow> unat (servo_count_short c inp n) = min 255 (unat n + 1)"
proof -
  assume "short_window c inp"
  then have eq: "servo_count_short c inp n = (if n < 255 then n + 1 else n)"
    by (simp add: servo_count_short_def short_window_def)
  show ?thesis
  proof (cases "n < 255")
    case True
    then have "unat n < 255" by (simp add: word_less_nat_alt)
    then have "unat (n + 1) = unat n + 1" by (simp add: unat_word_ariths)
    with True \<open>unat n < 255\<close> show ?thesis by (simp add: eq)
  next
    case False
    then have "255 \<le> unat n" by (simp add: word_less_nat_alt)
    moreover have "unat n < 256" using unsigned_less [of n] by simp
    ultimately show ?thesis using False by (simp add: eq)
  qed
qed

lemma servo_run_consec:
  "list_all (short_window c) inps \<Longrightarrow>
     unat (gs_consec_short (servo_run c s inps)) = min 255 (unat (gs_consec_short s) + length inps)"
proof (induction inps arbitrary: s)
  case Nil
  have "unat (gs_consec_short s) < 256" using unsigned_less [of "gs_consec_short s"] by simp
  then show ?case by simp
next
  case (Cons inp inps)
  then show ?case by (simp add: servo_step_consec count_short_unat)
qed

subsection \<open>Anti-windup\<close>

definition integ_bounded :: "servo_config \<Rightarrow> gap_servo_state \<Rightarrow> bool" where
  "integ_bounded c s \<longleftrightarrow> \<bar>gs_integ s\<bar> \<le> fdiv (sc_v_feed_max c) (sc_Ki c)"

lemma servo_pi_integ:
  assumes "wf_servo_config c" "0 < sc_Ki c" "integ_bounded c ns"
  shows "integ_bounded c (fst (servo_pi c inp ns))"
proof -
  have "0 \<le> fdiv (sc_v_feed_max c) (sc_Ki c)"
    using assms(1,2) by (simp add: fdiv_def f32_nonneg wf_servo_config_def)
  then have "\<bar>clampf i (- fdiv (sc_v_feed_max c) (sc_Ki c)) (fdiv (sc_v_feed_max c) (sc_Ki c))\<bar>
      \<le> fdiv (sc_v_feed_max c) (sc_Ki c)" for i
    by (auto simp: clampf_def)
  with assms(3) show ?thesis by (simp add: servo_pi_def integ_bounded_def Let_def)
qed

lemma bleed_bounded:
  assumes "\<bar>x\<bar> \<le> m" "is_f32 m" "0 \<le> b" "b \<le> 1"
  shows "\<bar>fmul x b\<bar> \<le> m"
proof -
  have "\<bar>x * b\<bar> \<le> \<bar>x\<bar>" using assms(3,4) by (simp add: abs_mult mult_left_le)
  then have "x * b \<le> m" "- m \<le> x * b" using assms(1) by linarith+
  then have "f32 (x * b) \<le> m" "- m \<le> f32 (x * b)"
    using assms(2) by (auto intro: f32_le_bound f32_ge_bound)
  then show ?thesis by (simp add: fmul_def abs_le_iff)
qed

lemma servo_select_integ:
  assumes "wf_servo_config c" "integ_bounded c ns"
  shows "integ_bounded c (fst (servo_select c inp ns v))"
  using assms bleed_bounded [of "gs_integ ns" "fdiv (sc_v_feed_max c) (sc_Ki c)" "sc_integ_bleed c"]
  by (auto simp: servo_select_def integ_bounded_def wf_servo_config_def Let_def)

lemma servo_step_integ:
  assumes "wf_servo_config c" "0 < sc_Ki c" "integ_bounded c s"
  shows "integ_bounded c (go_next (servo_step c s inp))"
proof -
  have "integ_bounded c (fst (servo_mid c s inp))"
    unfolding servo_mid_def by (rule servo_pi_integ [OF assms(1,2)])
      (use assms(3) in \<open>simp add: integ_bounded_def\<close>)
  then have "integ_bounded c (fst (servo_sel c s inp))"
    by (auto simp: servo_sel_def servo_select_integ [OF assms(1)] split: prod.split)
  then show ?thesis by (simp add: servo_step_proj(3) integ_bounded_def)
qed

lemma servo_run_integ:
  "wf_servo_config c \<Longrightarrow> 0 < sc_Ki c \<Longrightarrow> integ_bounded c s \<Longrightarrow> integ_bounded c (servo_run c s inps)"
  by (induction inps arbitrary: s) (simp_all add: servo_step_integ)

end
