(* ===== verification/Controller.thy ===== *)
theory Controller
  imports PsuLink DielLink ModeTable GapServo
begin

text \<open>
  The EDM controller (\<^verbatim>\<open>EDM/Control/EdmController.h\<close>, \<^verbatim>\<open>EdmController.cpp\<close>), with the
  fault reasons and the report of \<^verbatim>\<open>EDM/Servo/FaultReason.h\<close> and \<^verbatim>\<open>EDM/Servo/EdmReport.h\<close>.
  The two links it holds are parameters: the operations are the arguments \<open>ops\<close> and
  \<open>dops\<close>, the links' states are the fields \<open>ctl_link\<close> and \<open>ctl_diel\<close>. \<^verbatim>\<open>tick\<close> is the
  composition of its blocks, one definition per block of the C++ function; the local
  variables that the blocks share are the record \<open>tick_locals\<close>.
\<close>

subsection \<open>Data\<close>

datatype edm_state = StIdle | StArmed | StTouchOff | StCutting | StHold | StBreakRelief
  | StStallFault | StFault

datatype fault_reason = FrNone | FrAckTimeout | FrProtocolMismatch | FrTouchOffNoContact
  | FrServoStall | FrHeartbeatLost | FrPsuFault | FrSensorDisagree | FrDielectricNotReady
  | FrDielectricLost

text \<open>The numbers of the enumerators, which the report carries.\<close>

fun edm_state_code :: "edm_state \<Rightarrow> u8" where
  "edm_state_code StIdle = 0"
| "edm_state_code StArmed = 1"
| "edm_state_code StTouchOff = 2"
| "edm_state_code StCutting = 3"
| "edm_state_code StHold = 4"
| "edm_state_code StBreakRelief = 5"
| "edm_state_code StStallFault = 6"
| "edm_state_code StFault = 7"

fun fault_code :: "fault_reason \<Rightarrow> u8" where
  "fault_code FrNone = 0"
| "fault_code FrAckTimeout = 1"
| "fault_code FrProtocolMismatch = 2"
| "fault_code FrTouchOffNoContact = 3"
| "fault_code FrServoStall = 4"
| "fault_code FrHeartbeatLost = 5"
| "fault_code FrPsuFault = 6"
| "fault_code FrSensorDisagree = 7"
| "fault_code FrDielectricNotReady = 8"
| "fault_code FrDielectricLost = 9"

fun servo_state_code :: "servo_state \<Rightarrow> u8" where
  "servo_state_code SvHold = 0"
| "servo_state_code SvTrack = 1"
| "servo_state_code SvRetract = 2"
| "servo_state_code SvArcHold = 3"
| "servo_state_code SvBreakRelief = 4"

record controller_timers =
  ct_tele_hold :: u32
  ct_tele_fault :: u32
  ct_ack :: u32
  ct_stall :: u32
  ct_break_relief :: u32
  ct_clear :: u32
  ct_touchoff_budget :: u32

definition controller_timers_default :: controller_timers where
  "controller_timers_default = \<lparr>ct_tele_hold = 20, ct_tele_fault = 200, ct_ack = 200,
     ct_stall = 2000, ct_break_relief = 50, ct_clear = 500, ct_touchoff_budget = 6000\<rparr>"

record diel_interlock =
  di_required :: bool
  di_flow_min_clpm :: u16
  di_level_min_pct :: u8
  di_conductivity_warn_uS :: u16

definition diel_interlock_default :: diel_interlock where
  "diel_interlock_default = \<lparr>di_required = False, di_flow_min_clpm = 100,
     di_level_min_pct = 15, di_conductivity_warn_uS = 20\<rparr>"

record edm_report =
  rp_window_id :: u32
  rp_psu_state :: u8
  rp_connected :: bool
  rp_protocol_ok :: bool
  rp_last_ack_status :: u16
  rp_controller_state :: u8
  rp_fault_reason :: u8
  rp_servo_state :: u8
  rp_active_mode_id :: u8
  rp_s_word :: u16
  rp_n_normal :: u16
  rp_n_arc :: u16
  rp_n_short :: u16
  rp_n_open :: u16
  rp_total_pulses :: u16
  rp_open_ratio_milli :: i16
  rp_short_ratio_milli :: i16
  rp_arc_ratio_milli :: i16
  rp_v_cmd_um_s :: i32
  rp_g_milli :: i16
  rp_g_target_milli :: i16
  rp_e_filtered_milli :: i16
  rp_integrator_milli :: i16
  rp_feed_cap_pct :: u8
  rp_wire_break_sev :: u8
  rp_peak_I_mean_dA :: u16
  rp_peak_I_max_dA :: u16
  rp_energy_delivered_uJ :: u32
  rp_temp_GaN_dC :: i16
  rp_temp_L_dC :: i16
  rp_dc_link_V_dV :: u16
  rp_flags :: u16
  rp_diel_present :: bool
  rp_diel_pump_on :: u8
  rp_diel_flush_level :: u8
  rp_diel_level_pct :: u8
  rp_diel_filter_pct :: u8
  rp_diel_flush_mbar :: u16
  rp_diel_flow_clpm :: u16
  rp_diel_conductivity_uS :: u16
  rp_diel_temp_dC :: i16
  rp_diel_temp_set_dC :: i16
  rp_diel_flags :: u16

definition edm_report_default :: edm_report where
  "edm_report_default = \<lparr>rp_window_id = 0, rp_psu_state = 0, rp_connected = False,
     rp_protocol_ok = False, rp_last_ack_status = 0, rp_controller_state = 0,
     rp_fault_reason = 0, rp_servo_state = 0, rp_active_mode_id = 0, rp_s_word = 0,
     rp_n_normal = 0, rp_n_arc = 0, rp_n_short = 0, rp_n_open = 0, rp_total_pulses = 0,
     rp_open_ratio_milli = 0, rp_short_ratio_milli = 0, rp_arc_ratio_milli = 0,
     rp_v_cmd_um_s = 0, rp_g_milli = 0, rp_g_target_milli = 0, rp_e_filtered_milli = 0,
     rp_integrator_milli = 0, rp_feed_cap_pct = 100, rp_wire_break_sev = 0,
     rp_peak_I_mean_dA = 0, rp_peak_I_max_dA = 0, rp_energy_delivered_uJ = 0,
     rp_temp_GaN_dC = 0, rp_temp_L_dC = 0, rp_dc_link_V_dV = 0, rp_flags = 0,
     rp_diel_present = False, rp_diel_pump_on = 0, rp_diel_flush_level = 0,
     rp_diel_level_pct = 0, rp_diel_filter_pct = 0, rp_diel_flush_mbar = 0,
     rp_diel_flow_clpm = 0, rp_diel_conductivity_uS = 0, rp_diel_temp_dC = 0,
     rp_diel_temp_set_dC = 0, rp_diel_flags = 0\<rparr>"

record ('l, 'd) edm_controller =
  ctl_link :: 'l
  ctl_servo_cfg :: servo_config
  ctl_modes :: mode_table
  ctl_t :: controller_timers
  ctl_ss :: gap_servo_state
  ctl_state :: edm_state
  ctl_fault :: fault_reason
  ctl_mode :: edm_mode
  ctl_s_word :: u16
  ctl_now :: u32
  ctl_last_window_id :: u32
  ctl_have_window :: bool
  ctl_last_window_change_ms :: u32
  ctl_arm_deadline :: u32
  ctl_arm_fresh :: bool
  ctl_touchoff_start :: u32
  ctl_touchoff_contig :: u8
  ctl_stall_since :: u32
  ctl_break_relief_until :: u32
  ctl_lostgap_contig :: u8
  ctl_wire_break_sev :: u8
  ctl_sev_clear_after :: u32
  ctl_feed_cap_mult :: real
  ctl_seq :: u16
  ctl_last_sent :: set_mode_bounds
  ctl_have_sent :: bool
  ctl_report :: edm_report
  ctl_diel :: "'d option"
  ctl_dielCfg :: diel_interlock

definition controller_init ::
    "'l \<Rightarrow> servo_config \<Rightarrow> mode_table \<Rightarrow> controller_timers \<Rightarrow> ('l, 'd) edm_controller" where
  "controller_init link cfg modes timers =
     \<lparr>ctl_link = link, ctl_servo_cfg = cfg, ctl_modes = modes, ctl_t = timers,
      ctl_ss = gap_servo_reset, ctl_state = StIdle, ctl_fault = FrNone, ctl_mode = ModeIdle,
      ctl_s_word = 0, ctl_now = 0, ctl_last_window_id = 0, ctl_have_window = False,
      ctl_last_window_change_ms = 0, ctl_arm_deadline = 0, ctl_arm_fresh = False,
      ctl_touchoff_start = 0, ctl_touchoff_contig = 0, ctl_stall_since = 0,
      ctl_break_relief_until = 0, ctl_lostgap_contig = 0, ctl_wire_break_sev = 0,
      ctl_sev_clear_after = 0, ctl_feed_cap_mult = 1, ctl_seq = 0,
      ctl_last_sent = set_mode_bounds_default, ctl_have_sent = False,
      ctl_report = edm_report_default, ctl_diel = None, ctl_dielCfg = diel_interlock_default\<rparr>"

definition attachDielectric ::
    "'d option \<Rightarrow> diel_interlock \<Rightarrow> ('l, 'd) edm_controller \<Rightarrow> ('l, 'd) edm_controller" where
  "attachDielectric d cfg c = c\<lparr>ctl_diel := d, ctl_dielCfg := cfg\<rparr>"

subsection \<open>Requests\<close>

definition requestStop :: "'l psu_ops \<Rightarrow> ('l, 'd) edm_controller \<Rightarrow> ('l, 'd) edm_controller" where
  "requestStop ops c =
     (let c = c\<lparr>ctl_link := po_stopCut ops (ctl_link c)\<rparr>
      in c\<lparr>ctl_state := StIdle, ctl_mode := ModeIdle, ctl_ss := gap_servo_reset\<rparr>)"

definition notifyCutComplete :: "'l psu_ops \<Rightarrow> ('l, 'd) edm_controller \<Rightarrow> ('l, 'd) edm_controller" where
  "notifyCutComplete ops c = (if ctl_state c \<noteq> StFault then requestStop ops c else c)"

definition clearFault :: "'l psu_ops \<Rightarrow> ('l, 'd) edm_controller \<Rightarrow> ('l, 'd) edm_controller" where
  "clearFault ops c =
     (if ctl_state c = StFault \<or> ctl_state c = StStallFault then
        let c = c\<lparr>ctl_link := po_clearFault ops (ctl_link c)\<rparr>
        in c\<lparr>ctl_state := StIdle, ctl_fault := FrNone\<rparr>
      else c)"

definition enterFault ::
    "'l psu_ops \<Rightarrow> fault_reason \<Rightarrow> ('l, 'd) edm_controller \<Rightarrow> ('l, 'd) edm_controller" where
  "enterFault ops r c =
     (let c = c\<lparr>ctl_link := po_stopCut ops (ctl_link c)\<rparr>
      in c\<lparr>ctl_state := StFault, ctl_fault := r\<rparr>)"

text \<open>The comparison of the two structures looks at every field but the sequence number.\<close>

definition maybeSendModeBounds :: "'l psu_ops \<Rightarrow> ('l, 'd) edm_controller \<Rightarrow> ('l, 'd) edm_controller" where
  "maybeSendModeBounds ops c =
     (let want = build (ctl_modes c) (ctl_mode c) (ctl_s_word c) 0;
          a = want\<lparr>smb_seq := 0\<rparr>;
          b = (ctl_last_sent c)\<lparr>smb_seq := 0\<rparr>
      in if \<not> ctl_have_sent c \<or> a \<noteq> b then
           let c = c\<lparr>ctl_seq := ctl_seq c + 1\<rparr>;
               want = want\<lparr>smb_seq := ctl_seq c\<rparr>;
               c = c\<lparr>ctl_link := snd (po_setModeBounds ops want (ctl_link c))\<rparr>
           in c\<lparr>ctl_last_sent := want, ctl_have_sent := True\<rparr>
         else c)"

definition requestCut ::
    "'l psu_ops \<Rightarrow> u16 \<Rightarrow> ('l, 'd) edm_controller \<Rightarrow> ('l, 'd) edm_controller" where
  "requestCut ops s_word c =
     (if ctl_state c = StFault \<or> ctl_state c = StStallFault then c
      else
        let c = c\<lparr>ctl_s_word := s_word\<rparr>;
            c = c\<lparr>ctl_mode := modeForSword (ctl_modes c) s_word\<rparr>
        in if ctl_mode c = ModeIdle then requestStop ops c
           else
             let c = c\<lparr>ctl_state := StArmed\<rparr>;
                 c = c\<lparr>ctl_arm_deadline := ctl_now c + ct_ack (ctl_t c)\<rparr>;
                 c = c\<lparr>ctl_arm_fresh := True\<rparr>
             in maybeSendModeBounds ops c)"

subsection \<open>Events\<close>

text \<open>The response to a wire break by the worst severity seen.\<close>

definition break_response :: "'l psu_ops \<Rightarrow> ('l, 'd) edm_controller \<Rightarrow> ('l, 'd) edm_controller" where
  "break_response ops c =
     (if 3 \<le> ctl_wire_break_sev c then
        let c = c\<lparr>ctl_feed_cap_mult := 0\<rparr>;
            c = c\<lparr>ctl_state := StBreakRelief\<rparr>;
            c = c\<lparr>ctl_break_relief_until := ctl_now c + ct_break_relief (ctl_t c)\<rparr>;
            c = c\<lparr>ctl_mode := ModeIgnite\<rparr>
        in maybeSendModeBounds ops c
      else if ctl_wire_break_sev c = 2 then
        let c = c\<lparr>ctl_feed_cap_mult := f32 0.3\<rparr>;
            c = c\<lparr>ctl_mode := lowerEnergy (ctl_mode c)\<rparr>
        in maybeSendModeBounds ops c
      else c\<lparr>ctl_feed_cap_mult := f32 0.6\<rparr>)"

definition on_wire_break ::
    "'l psu_ops \<Rightarrow> wire_break_imminent \<Rightarrow> ('l, 'd) edm_controller \<Rightarrow> ('l, 'd) edm_controller" where
  "on_wire_break ops w c =
     (let sev = wb_severity w;
          c = (if ctl_wire_break_sev c < sev then c\<lparr>ctl_wire_break_sev := sev\<rparr> else c);
          c = c\<lparr>ctl_sev_clear_after := ctl_now c + ct_clear (ctl_t c)\<rparr>
      in break_response ops c)"

fun drain_loop :: "'l psu_ops \<Rightarrow> nat \<Rightarrow> ('l, 'd) edm_controller \<Rightarrow> ('l, 'd) edm_controller" where
  "drain_loop ops 0 c = c"
| "drain_loop ops (Suc budget) c =
     (case po_popEvent ops (ctl_link c) of
        None \<Rightarrow> c
      | Some (e, l) \<Rightarrow>
          let c = c\<lparr>ctl_link := l\<rparr>
          in (case e of
                EvFault _ \<Rightarrow> enterFault ops FrPsuFault c
              | EvWireBreak w \<Rightarrow> drain_loop ops budget (on_wire_break ops w c)
              | _ \<Rightarrow> drain_loop ops budget c))"

definition drainEvents :: "'l psu_ops \<Rightarrow> ('l, 'd) edm_controller \<Rightarrow> ('l, 'd) edm_controller" where
  "drainEvents ops c = drain_loop ops 8 c"

subsection \<open>Servo input\<close>

definition pulse_total :: "stats_agg \<Rightarrow> u32" where
  "pulse_total s = ucast (st_n_normal s) + ucast (st_n_arc s) + ucast (st_n_short s) + ucast (st_n_open s)"

definition fratio :: "u16 \<Rightarrow> u32 \<Rightarrow> real" where
  "fratio n N = fdiv (fint (uint n)) (fint (uint N))"

definition buildInput :: "stats_agg \<Rightarrow> bool \<Rightarrow> ('l, 'd) edm_controller \<Rightarrow> gap_servo_input" where
  "buildInput s fresh c =
     (let inp = gap_servo_input_default;
          N = pulse_total s;
          inp = inp\<lparr>gi_total_pulses := ucast (if 65535 < N then 65535 else N)\<rparr>;
          inp = inp\<lparr>gi_valid := (fresh \<and> ucast (sc_n_min (ctl_servo_cfg c)) \<le> N)\<rparr>;
          inp = (if gi_valid inp then
                   let inp = inp\<lparr>gi_open_ratio := fratio (st_n_open s) N,
                                 gi_short_ratio := fratio (st_n_short s) N,
                                 gi_arc_ratio := fratio (st_n_arc s) N,
                                 gi_normal_ratio := fratio (st_n_normal s) N\<rparr>;
                       nom = fint (uint (mp_ign_delay_nom_ns
                               (mode_parameters (ctl_modes c) (ctl_mode c))))
                   in if 0 < nom
                      then inp\<lparr>gi_ign_delay_norm :=
                             fdiv (fsub (fint (uint (st_ignition_delay_mean_ns s))) nom) nom\<rparr>
                      else inp
                 else inp)
      in inp\<lparr>gi_feed_cap_mult := ctl_feed_cap_mult c,
             gi_in_touch_off := (ctl_state c = StTouchOff),
             gi_force_break_relief := (ctl_state c = StBreakRelief)\<rparr>)"

definition dielReadyToCut :: "diel_stats \<Rightarrow> ('l, 'd) edm_controller \<Rightarrow> bool" where
  "dielReadyToCut s c \<longleftrightarrow> di_flow_min_clpm (ctl_dielCfg c) \<le> ds_flow_clpm s
     \<and> di_level_min_pct (ctl_dielCfg c) \<le> ds_level_pct s"

subsection \<open>The tick\<close>

text \<open>The local variables of \<^verbatim>\<open>tick\<close> that its blocks read.\<close>

record tick_locals =
  tl_connected :: bool
  tl_proto :: bool
  tl_got :: bool
  tl_s :: stats_agg
  tl_fresh :: bool
  tl_stale_hold :: bool
  tl_stale_fault :: bool
  tl_dgot :: bool
  tl_ds :: diel_stats
  tl_dielReq :: bool
  tl_dielPresent :: bool
  tl_dielOk :: bool

text \<open>Link telemetry: the window bookkeeping, then the locals.\<close>

definition tick_telemetry ::
    "'l psu_ops \<Rightarrow> 'd diel_ops \<Rightarrow> ('l, 'd) edm_controller \<Rightarrow> tick_locals \<times> ('l, 'd) edm_controller" where
  "tick_telemetry ops dops c =
     (let now_ms = ctl_now c;
          got = (po_latestStats ops (ctl_link c) \<noteq> None);
          s = (case po_latestStats ops (ctl_link c) of None \<Rightarrow> stats_agg_default | Some s \<Rightarrow> s);
          fresh = (got \<and> (\<not> ctl_have_window c \<or> st_window_id s \<noteq> ctl_last_window_id c));
          c = (if fresh then c\<lparr>ctl_last_window_id := st_window_id s, ctl_have_window := True,
                              ctl_last_window_change_ms := now_ms\<rparr> else c);
          dstats = (case ctl_diel c of None \<Rightarrow> None | Some d \<Rightarrow> do_latestStats dops d);
          dgot = (dstats \<noteq> None);
          ds = (case dstats of None \<Rightarrow> diel_stats_default | Some x \<Rightarrow> x);
          dpres = (case ctl_diel c of None \<Rightarrow> False | Some d \<Rightarrow> do_present dops d);
          dielReq = (ctl_diel c \<noteq> None \<and> di_required (ctl_dielCfg c))
      in (\<lparr>tl_connected = po_isConnected ops (ctl_link c),
           tl_proto = po_protocolCompatible ops (ctl_link c),
           tl_got = got, tl_s = s, tl_fresh = fresh,
           tl_stale_hold = (ct_tele_hold (ctl_t c) < now_ms - ctl_last_window_change_ms c),
           tl_stale_fault = (ct_tele_fault (ctl_t c) < now_ms - ctl_last_window_change_ms c),
           tl_dgot = dgot, tl_ds = ds, tl_dielReq = dielReq, tl_dielPresent = dpres,
           tl_dielOk = (\<not> dielReq \<or> dgot \<and> dpres \<and> dielReadyToCut ds c)\<rparr>, c))"

definition tick_diel_report :: "tick_locals \<Rightarrow> ('l, 'd) edm_controller \<Rightarrow> ('l, 'd) edm_controller" where
  "tick_diel_report tv c =
     (let r = ctl_report c; ds = tl_ds tv;
          r = r\<lparr>rp_diel_present := tl_dielPresent tv\<rparr>;
          r = (if tl_dgot tv then
                 let r = r\<lparr>rp_diel_pump_on := ds_pump_on ds,
                           rp_diel_flush_level := ds_flush_level ds,
                           rp_diel_flush_mbar := ds_flush_mbar ds,
                           rp_diel_flow_clpm := ds_flow_clpm ds,
                           rp_diel_temp_dC := ds_temp_dC ds,
                           rp_diel_temp_set_dC := ds_temp_set_dC ds,
                           rp_diel_conductivity_uS := ds_conductivity_uS ds,
                           rp_diel_level_pct := ds_level_pct ds,
                           rp_diel_filter_pct := ds_filter_pct ds\<rparr>;
                     dfl = ds_flags ds;
                     dfl = (if di_conductivity_warn_uS (ctl_dielCfg c) < ds_conductivity_uS ds
                            then dfl OR 0x0008 else dfl)
                 in r\<lparr>rp_diel_flags := dfl\<rparr>
               else r)
      in c\<lparr>ctl_report := r\<rparr>)"

definition tick_health ::
    "'l psu_ops \<Rightarrow> tick_locals \<Rightarrow> ('l, 'd) edm_controller \<Rightarrow> ('l, 'd) edm_controller" where
  "tick_health ops tv c =
     (if ctl_state c \<noteq> StFault \<and> ctl_state c \<noteq> StStallFault \<and> ctl_state c \<noteq> StIdle then
        (if tl_got tv \<and> st_state (tl_s tv) = 2 then enterFault ops FrPsuFault c
         else if \<not> tl_proto tv then enterFault ops FrProtocolMismatch c
         else if \<not> tl_connected tv \<and> tl_stale_fault tv then enterFault ops FrHeartbeatLost c
         else if ctl_have_window c \<and> tl_stale_fault tv then enterFault ops FrHeartbeatLost c
         else c)
      else c)"

definition tick_diel_loss ::
    "'l psu_ops \<Rightarrow> tick_locals \<Rightarrow> ('l, 'd) edm_controller \<Rightarrow> ('l, 'd) edm_controller" where
  "tick_diel_loss ops tv c =
     (if tl_dielReq tv \<and> (ctl_state c = StCutting \<or> ctl_state c = StHold \<or> ctl_state c = StBreakRelief) then
        (if \<not> tl_dielPresent tv \<or> \<not> (tl_dgot tv \<and> dielReadyToCut (tl_ds tv) c)
         then enterFault ops FrDielectricLost c else c)
      else c)"

definition tick_armed ::
    "'l psu_ops \<Rightarrow> tick_locals \<Rightarrow> ('l, 'd) edm_controller \<Rightarrow> ('l, 'd) edm_controller" where
  "tick_armed ops tv c =
     (if ctl_state c = StArmed then
        (if \<not> tl_proto tv then enterFault ops FrProtocolMismatch c
         else if ctl_arm_fresh c then c\<lparr>ctl_arm_fresh := False\<rparr>
         else if tl_connected tv \<and> po_lastAckStatus ops (ctl_link c) = 0 \<and> tl_dielOk tv then
           let c = c\<lparr>ctl_link := po_startCut ops (ctl_link c)\<rparr>;
               c = c\<lparr>ctl_ss := gap_servo_reset\<rparr>;
               c = c\<lparr>ctl_state := StTouchOff\<rparr>
           in c\<lparr>ctl_touchoff_start := ctl_now c, ctl_touchoff_contig := 0\<rparr>
         else if ctl_arm_deadline c \<le> ctl_now c then
           enterFault ops (if tl_dielReq tv \<and> \<not> tl_dielOk tv then FrDielectricNotReady
                           else FrAckTimeout) c
         else c)
      else c)"

definition tick_relief :: "('l, 'd) edm_controller \<Rightarrow> ('l, 'd) edm_controller" where
  "tick_relief c =
     (if ctl_state c = StBreakRelief \<and> ctl_break_relief_until c \<le> ctl_now c
      then c\<lparr>ctl_state := StTouchOff, ctl_touchoff_start := ctl_now c, ctl_touchoff_contig := 0\<rparr>
      else c)"

definition tick_sev_clear :: "'l psu_ops \<Rightarrow> ('l, 'd) edm_controller \<Rightarrow> ('l, 'd) edm_controller" where
  "tick_sev_clear ops c =
     (if 0 < ctl_wire_break_sev c \<and> ctl_sev_clear_after c \<le> ctl_now c then
        let c = c\<lparr>ctl_wire_break_sev := 0, ctl_feed_cap_mult := 1\<rparr>
        in if ctl_state c = StTouchOff \<or> ctl_state c = StCutting \<or> ctl_state c = StHold then
             maybeSendModeBounds ops (c\<lparr>ctl_mode := modeForSword (ctl_modes c) (ctl_s_word c)\<rparr>)
           else c
      else c)"

text \<open>What the servo block does after the step, by state: touch-off, and cutting or holding.\<close>

definition servo_touchoff ::
    "'l psu_ops \<Rightarrow> gap_servo_input \<Rightarrow> ('l, 'd) edm_controller \<Rightarrow> ('l, 'd) edm_controller" where
  "servo_touchoff ops inp c =
     (let c = (if gi_valid inp \<and> 1 / 2 < fsub 1 (gi_open_ratio inp) then
                 let c = c\<lparr>ctl_touchoff_contig := ctl_touchoff_contig c + 1\<rparr>
                 in if 2 \<le> ctl_touchoff_contig c
                    then c\<lparr>ctl_state := StCutting, ctl_ss := (ctl_ss c)\<lparr>gs_integ := 0\<rparr>\<rparr>
                    else c
               else c\<lparr>ctl_touchoff_contig := 0\<rparr>)
      in if ct_touchoff_budget (ctl_t c) < ctl_now c - ctl_touchoff_start c
         then enterFault ops FrTouchOffNoContact c else c)"

definition servo_lost_gap :: "gap_servo_input \<Rightarrow> ('l, 'd) edm_controller \<Rightarrow> ('l, 'd) edm_controller" where
  "servo_lost_gap inp c =
     (if gi_valid inp \<and> f32 0.95 < gi_open_ratio inp then
        let c = c\<lparr>ctl_lostgap_contig := ctl_lostgap_contig c + 1\<rparr>
        in if 5 \<le> ctl_lostgap_contig c
           then c\<lparr>ctl_state := StTouchOff, ctl_touchoff_start := ctl_now c, ctl_touchoff_contig := 0\<rparr>
           else c
      else c\<lparr>ctl_lostgap_contig := 0\<rparr>)"

definition gap_healthy :: "gap_servo_input \<Rightarrow> ('l, 'd) edm_controller \<Rightarrow> bool" where
  "gap_healthy inp c \<longleftrightarrow> gi_valid inp
     \<and> gi_short_ratio inp \<le> fmul (sc_short_ref (ctl_servo_cfg c)) 2
     \<and> gi_arc_ratio inp \<le> sc_arc_brake (ctl_servo_cfg c)"

definition servo_stall ::
    "'l psu_ops \<Rightarrow> gap_servo_input \<Rightarrow> gap_servo_output \<Rightarrow> ('l, 'd) edm_controller \<Rightarrow> ('l, 'd) edm_controller" where
  "servo_stall ops inp out c =
     (let advancing = (0 < go_v_cmd_mm_min out);
          healthy = gap_healthy inp c
      in if go_state out = SvHold \<or> go_state out = SvArcHold \<or> go_v_cmd_mm_min out \<le> 0 then
           let c = (if ctl_state c = StCutting
                    then c\<lparr>ctl_state := StHold, ctl_stall_since := ctl_now c\<rparr> else c)
           in if healthy then c\<lparr>ctl_stall_since := ctl_now c\<rparr>
              else if \<not> advancing \<and> ct_stall (ctl_t c) < ctl_now c - ctl_stall_since c
                      \<and> (go_state out = SvRetract \<or> go_state out = SvHold) then
                let c = c\<lparr>ctl_link := po_stopCut ops (ctl_link c)\<rparr>
                in c\<lparr>ctl_state := StStallFault, ctl_fault := FrServoStall\<rparr>
              else c
         else if ctl_state c = StHold then c\<lparr>ctl_state := StCutting\<rparr>
         else c)"

definition active_state :: "edm_state \<Rightarrow> bool" where
  "active_state st \<longleftrightarrow> st = StTouchOff \<or> st = StCutting \<or> st = StHold \<or> st = StBreakRelief"

definition tick_servo ::
    "'l psu_ops \<Rightarrow> tick_locals \<Rightarrow> ('l, 'd) edm_controller \<Rightarrow> gap_servo_output option \<times> ('l, 'd) edm_controller" where
  "tick_servo ops tv c =
     (if active_state (ctl_state c) then
        let inp = buildInput (tl_s tv) (tl_fresh tv) c;
            inp = (if tl_stale_hold tv then inp\<lparr>gi_valid := False\<rparr> else inp);
            out = servo_step (ctl_servo_cfg c) (ctl_ss c) inp;
            c = c\<lparr>ctl_ss := go_next out\<rparr>;
            c = (if ctl_state c = StTouchOff then servo_touchoff ops inp c
                 else if ctl_state c = StCutting \<or> ctl_state c = StHold
                 then servo_stall ops inp out (servo_lost_gap inp c)
                 else c)
        in (Some out, c)
      else (None, c))"

definition milli :: "real \<Rightarrow> i16" where
  "milli x = word_of_int (lround (fmul x 1000))"

definition ratio_milli :: "u16 \<Rightarrow> u32 \<Rightarrow> i16" where
  "ratio_milli n N = ucast ((ucast n * 1000 :: u32) div N)"

definition tick_report ::
    "'l psu_ops \<Rightarrow> tick_locals \<Rightarrow> gap_servo_output option \<Rightarrow> ('l, 'd) edm_controller \<Rightarrow> ('l, 'd) edm_controller" where
  "tick_report ops tv out_opt c =
     (let s = tl_s tv; N = pulse_total s; r = ctl_report c;
          r = r\<lparr>rp_window_id := st_window_id s, rp_psu_state := st_state s,
                rp_connected := tl_connected tv, rp_protocol_ok := tl_proto tv,
                rp_last_ack_status := po_lastAckStatus ops (ctl_link c),
                rp_controller_state := edm_state_code (ctl_state c),
                rp_fault_reason := fault_code (ctl_fault c),
                rp_active_mode_id := mp_mode_id (mode_parameters (ctl_modes c) (ctl_mode c)),
                rp_s_word := ctl_s_word c,
                rp_n_normal := st_n_normal s, rp_n_arc := st_n_arc s,
                rp_n_short := st_n_short s, rp_n_open := st_n_open s\<rparr>;
          r = (case out_opt of
                 Some out \<Rightarrow>
                   let r = r\<lparr>rp_servo_state := servo_state_code (go_state out),
                             rp_v_cmd_um_s := go_v_s_um_s out,
                             rp_g_milli := milli (go_g_telemetry out),
                             rp_g_target_milli := milli (go_g_target out),
                             rp_e_filtered_milli := milli (go_e_filtered out),
                             rp_integrator_milli := milli (go_integrator out)\<rparr>
                   in if 0 < N then
                        r\<lparr>rp_open_ratio_milli := ratio_milli (st_n_open s) N,
                          rp_short_ratio_milli := ratio_milli (st_n_short s) N,
                          rp_arc_ratio_milli := ratio_milli (st_n_arc s) N,
                          rp_total_pulses := ucast (if 65535 < N then 65535 else N)\<rparr>
                      else r
               | None \<Rightarrow> r\<lparr>rp_servo_state := servo_state_code SvHold, rp_v_cmd_um_s := 0\<rparr>);
          r = r\<lparr>rp_feed_cap_pct := word_of_int (trunc (fadd (fmul (ctl_feed_cap_mult c) 100) (1 / 2))),
                rp_wire_break_sev := ctl_wire_break_sev c,
                rp_peak_I_mean_dA := st_peak_I_mean_dA s, rp_peak_I_max_dA := st_peak_I_max_dA s,
                rp_energy_delivered_uJ := st_energy_delivered_uJ s,
                rp_temp_GaN_dC := st_temp_GaN_dC s, rp_temp_L_dC := st_temp_L_dC s,
                rp_dc_link_V_dV := st_dc_link_V_dV s, rp_flags := st_flags s\<rparr>
      in c\<lparr>ctl_report := r\<rparr>)"

text \<open>The state part of a tick, and the whole tick.\<close>

definition tick_guards ::
    "'l psu_ops \<Rightarrow> tick_locals \<Rightarrow> ('l, 'd) edm_controller \<Rightarrow> ('l, 'd) edm_controller" where
  "tick_guards ops tv c =
     tick_sev_clear ops (tick_relief (tick_armed ops tv (tick_diel_loss ops tv (tick_health ops tv
       (tick_diel_report tv c)))))"

definition tick ::
    "'l psu_ops \<Rightarrow> 'd diel_ops \<Rightarrow> u32 \<Rightarrow> ('l, 'd) edm_controller \<Rightarrow> ('l, 'd) edm_controller" where
  "tick ops dops now_ms c =
     (let c = c\<lparr>ctl_now := now_ms\<rparr>;
          c = drainEvents ops c;
          (tv, c) = tick_telemetry ops dops c;
          (out, c) = tick_servo ops tv (tick_guards ops tv c)
      in tick_report ops tv out c)"

end
