(* ===== verification/ControllerSafety.thy ===== *)
theory ControllerSafety
  imports Controller SimPsu
begin

text \<open>
  Safety of the controller. Everything that mentions the supply is proved once in the
  context of the contract \<open>psu_link\<close>, for any implementation of the link: which blocks of
  a tick can switch the spark, that a stopped or faulted controller never sparks, and
  which state changes a tick can make. \<open>edm_trans\<close> is the abstract state machine that a
  tick without pending events refines.
\<close>

subsection \<open>Projections of the operations\<close>

lemma maybeSend_simps [simp]:
  "ctl_state (maybeSendModeBounds ops c) = ctl_state c"
  "ctl_fault (maybeSendModeBounds ops c) = ctl_fault c"
  "ctl_mode (maybeSendModeBounds ops c) = ctl_mode c"
  "ctl_now (maybeSendModeBounds ops c) = ctl_now c"
  "ctl_t (maybeSendModeBounds ops c) = ctl_t c"
  "ctl_servo_cfg (maybeSendModeBounds ops c) = ctl_servo_cfg c"
  "ctl_feed_cap_mult (maybeSendModeBounds ops c) = ctl_feed_cap_mult c"
  "ctl_wire_break_sev (maybeSendModeBounds ops c) = ctl_wire_break_sev c"
  "ctl_touchoff_contig (maybeSendModeBounds ops c) = ctl_touchoff_contig c"
  "ctl_touchoff_start (maybeSendModeBounds ops c) = ctl_touchoff_start c"
  "ctl_ss (maybeSendModeBounds ops c) = ctl_ss c"
  "ctl_diel (maybeSendModeBounds ops c) = ctl_diel c"
  "ctl_dielCfg (maybeSendModeBounds ops c) = ctl_dielCfg c"
  "ctl_have_window (maybeSendModeBounds ops c) = ctl_have_window c"
  "ctl_last_window_change_ms (maybeSendModeBounds ops c) = ctl_last_window_change_ms c"
  "ctl_arm_fresh (maybeSendModeBounds ops c) = ctl_arm_fresh c"
  "ctl_arm_deadline (maybeSendModeBounds ops c) = ctl_arm_deadline c"
  "ctl_have_sent (maybeSendModeBounds ops c)"
  by (simp_all add: maybeSendModeBounds_def Let_def)

lemma enterFault_simps [simp]:
  "ctl_state (enterFault ops r c) = StFault" "ctl_fault (enterFault ops r c) = r"
  "ctl_link (enterFault ops r c) = po_stopCut ops (ctl_link c)"
  "ctl_now (enterFault ops r c) = ctl_now c" "ctl_t (enterFault ops r c) = ctl_t c"
  "ctl_feed_cap_mult (enterFault ops r c) = ctl_feed_cap_mult c"
  "ctl_wire_break_sev (enterFault ops r c) = ctl_wire_break_sev c"
  "ctl_servo_cfg (enterFault ops r c) = ctl_servo_cfg c"
  "ctl_diel (enterFault ops r c) = ctl_diel c" "ctl_dielCfg (enterFault ops r c) = ctl_dielCfg c"
  "ctl_have_window (enterFault ops r c) = ctl_have_window c"
  by (simp_all add: enterFault_def Let_def)

lemma tick_report_simps [simp]:
  "ctl_state (tick_report ops tv out c) = ctl_state c"
  "ctl_link (tick_report ops tv out c) = ctl_link c"
  "ctl_fault (tick_report ops tv out c) = ctl_fault c"
  "ctl_wire_break_sev (tick_report ops tv out c) = ctl_wire_break_sev c"
  "ctl_feed_cap_mult (tick_report ops tv out c) = ctl_feed_cap_mult c"
  by (simp_all add: tick_report_def Let_def)

lemma tick_telemetry_simps [simp]:
  "ctl_state (snd (tick_telemetry ops dops c)) = ctl_state c"
  "ctl_arm_fresh (snd (tick_telemetry ops dops c)) = ctl_arm_fresh c"
  "ctl_link (snd (tick_telemetry ops dops c)) = ctl_link c"
  "ctl_wire_break_sev (snd (tick_telemetry ops dops c)) = ctl_wire_break_sev c"
  "ctl_feed_cap_mult (snd (tick_telemetry ops dops c)) = ctl_feed_cap_mult c"
  "ctl_now (snd (tick_telemetry ops dops c)) = ctl_now c"
  "ctl_t (snd (tick_telemetry ops dops c)) = ctl_t c"
  "ctl_servo_cfg (snd (tick_telemetry ops dops c)) = ctl_servo_cfg c"
  "ctl_diel (snd (tick_telemetry ops dops c)) = ctl_diel c"
  "ctl_dielCfg (snd (tick_telemetry ops dops c)) = ctl_dielCfg c"
  by (simp_all add: tick_telemetry_def Let_def)

lemma tick_diel_report_simps [simp]:
  "ctl_state (tick_diel_report tv c) = ctl_state c" "ctl_link (tick_diel_report tv c) = ctl_link c"
  "ctl_now (tick_diel_report tv c) = ctl_now c" "ctl_t (tick_diel_report tv c) = ctl_t c"
  "ctl_have_window (tick_diel_report tv c) = ctl_have_window c"
  "ctl_feed_cap_mult (tick_diel_report tv c) = ctl_feed_cap_mult c"
  "ctl_wire_break_sev (tick_diel_report tv c) = ctl_wire_break_sev c"
  "ctl_servo_cfg (tick_diel_report tv c) = ctl_servo_cfg c"
  by (simp_all add: tick_diel_report_def Let_def)

text \<open>The blocks of a tick, named for the proofs.\<close>

definition tick_drained :: "'l psu_ops \<Rightarrow> u32 \<Rightarrow> ('l, 'd) edm_controller \<Rightarrow> ('l, 'd) edm_controller" where
  "tick_drained ops now_ms c = drainEvents ops (c\<lparr>ctl_now := now_ms\<rparr>)"

definition tick_view ::
    "'l psu_ops \<Rightarrow> 'd diel_ops \<Rightarrow> u32 \<Rightarrow> ('l, 'd) edm_controller \<Rightarrow> tick_locals" where
  "tick_view ops dops now_ms c = fst (tick_telemetry ops dops (tick_drained ops now_ms c))"

definition tick_gathered ::
    "'l psu_ops \<Rightarrow> 'd diel_ops \<Rightarrow> u32 \<Rightarrow> ('l, 'd) edm_controller \<Rightarrow> ('l, 'd) edm_controller" where
  "tick_gathered ops dops now_ms c = snd (tick_telemetry ops dops (tick_drained ops now_ms c))"

definition tick_guarded ::
    "'l psu_ops \<Rightarrow> 'd diel_ops \<Rightarrow> u32 \<Rightarrow> ('l, 'd) edm_controller \<Rightarrow> ('l, 'd) edm_controller" where
  "tick_guarded ops dops now_ms c =
     tick_guards ops (tick_view ops dops now_ms c) (tick_gathered ops dops now_ms c)"

lemma tick_split:
  "tick ops dops now_ms c =
     (let tv = tick_view ops dops now_ms c; sv = tick_servo ops tv (tick_guarded ops dops now_ms c)
      in tick_report ops tv (fst sv) (snd sv))"
  by (simp add: tick_def tick_guarded_def tick_view_def tick_gathered_def tick_drained_def Let_def
      split_beta)

lemma tick_state:
  "ctl_state (tick ops dops now_ms c) =
     ctl_state (snd (tick_servo ops (tick_view ops dops now_ms c) (tick_guarded ops dops now_ms c)))"
  "ctl_link (tick ops dops now_ms c) =
     ctl_link (snd (tick_servo ops (tick_view ops dops now_ms c) (tick_guarded ops dops now_ms c)))"
  by (simp_all add: tick_split Let_def)

subsection \<open>The abstract state machine\<close>

definition spark_off_state :: "edm_state \<Rightarrow> bool" where
  "spark_off_state st \<longleftrightarrow> st = StIdle \<or> st = StStallFault \<or> st = StFault"

inductive edm_trans :: "edm_state \<Rightarrow> edm_state \<Rightarrow> bool" where
  et_stay: "edm_trans st st"
| et_ready: "edm_trans StArmed StTouchOff"
| et_contact: "edm_trans StTouchOff StCutting"
| et_hold: "edm_trans StCutting StHold"
| et_resume: "edm_trans StHold StCutting"
| et_lost: "st = StCutting \<or> st = StHold \<Longrightarrow> edm_trans st StTouchOff"
| et_relieved: "edm_trans StBreakRelief StTouchOff"
| et_stall: "st = StCutting \<or> st = StHold \<Longrightarrow> edm_trans st StStallFault"
| et_fault: "\<not> spark_off_state st \<Longrightarrow> edm_trans st StFault"

code_pred edm_trans .

inductive_simps edm_trans_from_off: "edm_trans StIdle st" "edm_trans StFault st"
  "edm_trans StStallFault st"

inductive_cases edm_trans_to_cutting: "edm_trans st StCutting"

text \<open>Only a tick in which the controller is already in touch-off or holding starts cutting.\<close>

lemma edm_trans_cutting: "edm_trans st StCutting \<Longrightarrow> st = StCutting \<or> st = StTouchOff \<or> st = StHold"
  by (erule edm_trans_to_cutting) auto

subsection \<open>State changes of the blocks\<close>

lemma tick_health_state:
  "ctl_state (tick_health ops tv c) = ctl_state c
   \<or> \<not> spark_off_state (ctl_state c) \<and> ctl_state (tick_health ops tv c) = StFault"
  by (auto simp: tick_health_def spark_off_state_def)

lemma tick_diel_loss_state:
  "ctl_state (tick_diel_loss ops tv c) = ctl_state c
   \<or> \<not> spark_off_state (ctl_state c) \<and> ctl_state (tick_diel_loss ops tv c) = StFault"
  by (auto simp: tick_diel_loss_def spark_off_state_def)

lemma tick_armed_state:
  "ctl_state (tick_armed ops tv c) = ctl_state c
   \<or> ctl_state c = StArmed \<and> ctl_state (tick_armed ops tv c) = StFault
   \<or> ctl_state c = StArmed \<and> ctl_state (tick_armed ops tv c) = StTouchOff
     \<and> ctl_touchoff_contig (tick_armed ops tv c) = 0
     \<and> ctl_touchoff_start (tick_armed ops tv c) = ctl_now (tick_armed ops tv c)"
  by (auto simp: tick_armed_def Let_def)

lemma tick_relief_state:
  "ctl_state (tick_relief c) = ctl_state c \<and> tick_relief c = c
   \<or> ctl_state c = StBreakRelief \<and> ctl_state (tick_relief c) = StTouchOff
     \<and> ctl_touchoff_contig (tick_relief c) = 0
     \<and> ctl_touchoff_start (tick_relief c) = ctl_now (tick_relief c)"
  by (auto simp: tick_relief_def)

lemma tick_sev_clear_simps [simp]:
  "ctl_state (tick_sev_clear ops c) = ctl_state c"
  "ctl_touchoff_contig (tick_sev_clear ops c) = ctl_touchoff_contig c"
  "ctl_touchoff_start (tick_sev_clear ops c) = ctl_touchoff_start c"
  "ctl_now (tick_sev_clear ops c) = ctl_now c"
  "ctl_have_window (tick_sev_clear ops c) = ctl_have_window c"
  by (simp_all add: tick_sev_clear_def Let_def)

text \<open>A touch-off that starts in this tick neither finds contact nor times out in it.\<close>

definition fresh_touchoff :: "('l, 'd) edm_controller \<Rightarrow> bool" where
  "fresh_touchoff c \<longleftrightarrow> ctl_touchoff_contig c = 0 \<and> ctl_touchoff_start c = ctl_now c"

lemma tick_guards_state:
  obtains (Same) "ctl_state (tick_guards ops tv c) = ctl_state c"
  | (Fault) "\<not> spark_off_state (ctl_state c)" "ctl_state (tick_guards ops tv c) = StFault"
  | (TouchOff) "ctl_state c = StArmed \<or> ctl_state c = StBreakRelief"
      "ctl_state (tick_guards ops tv c) = StTouchOff" "fresh_touchoff (tick_guards ops tv c)"
proof -
  define h where "h = tick_diel_loss ops tv (tick_health ops tv (tick_diel_report tv c))"
  define a where "a = tick_armed ops tv h"
  have h: "ctl_state h = ctl_state c \<or> \<not> spark_off_state (ctl_state c) \<and> ctl_state h = StFault"
    using tick_diel_loss_state [of ops tv "tick_health ops tv (tick_diel_report tv c)"]
      tick_health_state [of ops tv "tick_diel_report tv c"]
    by (auto simp: h_def)
  have g: "tick_guards ops tv c = tick_sev_clear ops (tick_relief a)"
    by (simp add: tick_guards_def a_def h_def)
  have armed: "\<not> spark_off_state StArmed" by (simp add: spark_off_state_def)
  show thesis
    using h tick_armed_state [of ops tv h, folded a_def] tick_relief_state [of a] armed
      Same Fault TouchOff
    by (auto simp: g fresh_touchoff_def)
qed

lemma servo_lost_gap_state:
  "ctl_state (servo_lost_gap inp c) = ctl_state c \<or> ctl_state (servo_lost_gap inp c) = StTouchOff"
  by (simp add: servo_lost_gap_def Let_def)

lemma servo_stall_state:
  "edm_trans (ctl_state c) (ctl_state (servo_stall ops inp out c))
   \<or> ctl_state (servo_stall ops inp out c) = StStallFault"
  by (auto simp: servo_stall_def Let_def intro: edm_trans.intros)

lemma servo_touchoff_state:
  "ctl_state c = StTouchOff \<Longrightarrow> edm_trans StTouchOff (ctl_state (servo_touchoff ops inp c))"
  by (auto simp: servo_touchoff_def Let_def spark_off_state_def intro: edm_trans.intros)

lemma servo_touchoff_fresh:
  "ctl_state c = StTouchOff \<Longrightarrow> fresh_touchoff c \<Longrightarrow> ctl_state (servo_touchoff ops inp c) = StTouchOff"
proof -
  have "\<not> (2 :: u8) \<le> 1" by (simp add: word_le_nat_alt)
  then show "ctl_state c = StTouchOff \<Longrightarrow> fresh_touchoff c \<Longrightarrow> ?thesis"
    by (simp add: servo_touchoff_def fresh_touchoff_def Let_def)
qed

lemma tick_servo_inactive:
  "\<not> active_state (ctl_state c) \<Longrightarrow> tick_servo ops tv c = (None, c)"
  by (simp add: tick_servo_def)

lemma tick_servo_fresh:
  assumes "ctl_state c = StTouchOff" "fresh_touchoff c"
  shows "ctl_state (snd (tick_servo ops tv c)) = StTouchOff"
proof -
  have "fresh_touchoff (c\<lparr>ctl_ss := x\<rparr>)" for x
    using assms(2) by (simp add: fresh_touchoff_def)
  then show ?thesis
    using assms(1) by (simp add: tick_servo_def active_state_def Let_def servo_touchoff_fresh)
qed

lemma servo_stall_touchoff:
  "ctl_state c = StTouchOff \<Longrightarrow> ctl_state (servo_stall ops inp out c) \<in> {StTouchOff, StStallFault}"
  by (simp add: servo_stall_def Let_def)

lemma servo_cut_state:
  assumes "ctl_state c = StCutting \<or> ctl_state c = StHold"
  shows "edm_trans (ctl_state c) (ctl_state (servo_stall ops inp out (servo_lost_gap inp c)))"
  using servo_lost_gap_state [of inp c]
proof
  assume "ctl_state (servo_lost_gap inp c) = ctl_state c"
  then show ?thesis
    using servo_stall_state [of "servo_lost_gap inp c" ops inp out] assms
    by (auto intro: et_stall)
next
  assume "ctl_state (servo_lost_gap inp c) = StTouchOff"
  then show ?thesis
    using servo_stall_touchoff [of "servo_lost_gap inp c" ops inp out] assms
    by (auto intro: et_stall et_lost)
qed

lemma tick_servo_state: "edm_trans (ctl_state c) (ctl_state (snd (tick_servo ops tv c)))"
proof (cases "ctl_state c = StCutting \<or> ctl_state c = StHold")
  case True
  then have "edm_trans (ctl_state (c\<lparr>ctl_ss := s\<rparr>))
      (ctl_state (servo_stall ops inp out (servo_lost_gap inp (c\<lparr>ctl_ss := s\<rparr>))))" for s inp out
    by (intro servo_cut_state) simp
  with True show ?thesis by (auto simp: tick_servo_def active_state_def Let_def)
next
  case False
  then show ?thesis
    by (auto simp: tick_servo_def active_state_def Let_def servo_touchoff_state et_stay)
qed

text \<open>One tick, after its events are drained, is one step of the abstract machine.\<close>

lemma tick_trans: "edm_trans (ctl_state (tick_drained ops now_ms c)) (ctl_state (tick ops dops now_ms c))"
proof -
  define g where "g = tick_guarded ops dops now_ms c"
  define tv where "tv = tick_view ops dops now_ms c"
  have g_eq: "g = tick_guards ops tv (tick_gathered ops dops now_ms c)"
    by (simp add: g_def tv_def tick_guarded_def)
  have st: "ctl_state (tick_gathered ops dops now_ms c) = ctl_state (tick_drained ops now_ms c)"
    by (simp add: tick_gathered_def)
  have goal: "ctl_state (tick ops dops now_ms c) = ctl_state (snd (tick_servo ops tv g))"
    by (simp add: tick_state g_def tv_def)
  show ?thesis
  proof (rule tick_guards_state [of ops tv "tick_gathered ops dops now_ms c", folded g_eq])
    assume "ctl_state g = ctl_state (tick_gathered ops dops now_ms c)"
    then show ?thesis using tick_servo_state [of g ops tv] by (simp add: goal st)
  next
    assume "\<not> spark_off_state (ctl_state (tick_gathered ops dops now_ms c))" "ctl_state g = StFault"
    then show ?thesis by (simp add: goal st tick_servo_inactive active_state_def et_fault)
  next
    assume "ctl_state (tick_gathered ops dops now_ms c) = StArmed
        \<or> ctl_state (tick_gathered ops dops now_ms c) = StBreakRelief"
      "ctl_state g = StTouchOff" "fresh_touchoff g"
    then show ?thesis by (auto simp: goal st tick_servo_fresh intro: et_ready et_relieved)
  qed
qed

subsection \<open>Draining events\<close>

lemma on_wire_break_state:
  "ctl_state (on_wire_break ops w c) = ctl_state c \<or> ctl_state (on_wire_break ops w c) = StBreakRelief"
  by (simp add: on_wire_break_def break_response_def Let_def)

lemma drain_loop_state:
  "ctl_state (drain_loop ops n c) \<in> {ctl_state c, StBreakRelief, StFault}"
proof (induction n arbitrary: c)
  case 0
  then show ?case by simp
next
  case (Suc n)
  show ?case
  proof (cases "po_popEvent ops (ctl_link c)")
    case None
    then show ?thesis by simp
  next
    case (Some r)
    obtain e l where r: "r = (e, l)" by (cases r)
    show ?thesis
    proof (cases e)
      case (EvWireBreak w)
      then show ?thesis
        using Suc.IH [of "on_wire_break ops w (c\<lparr>ctl_link := l\<rparr>)"]
          on_wire_break_state [of ops w "c\<lparr>ctl_link := l\<rparr>"] Some r by auto
    qed (use Suc.IH [of "c\<lparr>ctl_link := l\<rparr>"] Some r in auto)
  qed
qed

lemma tick_drained_state:
  "ctl_state (tick_drained ops now_ms c) \<in> {ctl_state c, StBreakRelief, StFault}"
  using drain_loop_state [of ops 8 "c\<lparr>ctl_now := now_ms\<rparr>"]
  by (simp add: tick_drained_def drainEvents_def)

lemma tick_drained_none:
  "po_popEvent ops (ctl_link c) = None \<Longrightarrow> tick_drained ops now_ms c = c\<lparr>ctl_now := now_ms\<rparr>"
proof -
  assume "po_popEvent ops (ctl_link c) = None"
  then have "drain_loop ops (Suc 7) (c\<lparr>ctl_now := now_ms\<rparr>) = c\<lparr>ctl_now := now_ms\<rparr>"
    by (simp only: drain_loop.simps) simp
  then show ?thesis by (simp add: tick_drained_def drainEvents_def eval_nat_numeral)
qed

text \<open>Draining changes neither the configuration nor the arming and dielectric fields.\<close>

lemma break_response_frame [simp]:
  "ctl_arm_fresh (break_response ops c) = ctl_arm_fresh c"
  "ctl_diel (break_response ops c) = ctl_diel c"
  "ctl_dielCfg (break_response ops c) = ctl_dielCfg c"
  "ctl_now (break_response ops c) = ctl_now c" "ctl_t (break_response ops c) = ctl_t c"
  "ctl_servo_cfg (break_response ops c) = ctl_servo_cfg c"
  "ctl_arm_deadline (break_response ops c) = ctl_arm_deadline c"
  "ctl_have_window (break_response ops c) = ctl_have_window c"
  "ctl_wire_break_sev (break_response ops c) = ctl_wire_break_sev c"
  by (simp_all add: break_response_def Let_def)

lemma on_wire_break_frame [simp]:
  "ctl_arm_fresh (on_wire_break ops w c) = ctl_arm_fresh c"
  "ctl_diel (on_wire_break ops w c) = ctl_diel c"
  "ctl_dielCfg (on_wire_break ops w c) = ctl_dielCfg c"
  "ctl_now (on_wire_break ops w c) = ctl_now c" "ctl_t (on_wire_break ops w c) = ctl_t c"
  "ctl_servo_cfg (on_wire_break ops w c) = ctl_servo_cfg c"
  "ctl_arm_deadline (on_wire_break ops w c) = ctl_arm_deadline c"
  "ctl_have_window (on_wire_break ops w c) = ctl_have_window c"
  by (simp_all add: on_wire_break_def Let_def)

lemma enterFault_frame [simp]:
  "ctl_arm_fresh (enterFault ops r c) = ctl_arm_fresh c"
  "ctl_arm_deadline (enterFault ops r c) = ctl_arm_deadline c"
  by (simp_all add: enterFault_def Let_def)

definition drain_frame :: "('l, 'd) edm_controller \<Rightarrow> _" where
  "drain_frame c = (ctl_arm_fresh c, ctl_diel c, ctl_dielCfg c, ctl_now c, ctl_t c,
     ctl_servo_cfg c, ctl_arm_deadline c, ctl_have_window c)"

lemma drain_frame_steps [simp]:
  "drain_frame (on_wire_break ops w c) = drain_frame c"
  "drain_frame (enterFault ops r c) = drain_frame c"
  "drain_frame (c\<lparr>ctl_link := l\<rparr>) = drain_frame c"
  by (simp_all add: drain_frame_def)

lemma drain_loop_frame: "drain_frame (drain_loop ops n c) = drain_frame c"
proof (induction n arbitrary: c)
  case 0
  then show ?case by simp
next
  case (Suc n)
  then show ?case
    by (simp add: Let_def split: option.split prod.split psu_event.split)
qed

lemma tick_drained_frame [simp]:
  "ctl_arm_fresh (tick_drained ops now_ms c) = ctl_arm_fresh c"
  "ctl_diel (tick_drained ops now_ms c) = ctl_diel c"
  "ctl_dielCfg (tick_drained ops now_ms c) = ctl_dielCfg c"
  "ctl_now (tick_drained ops now_ms c) = now_ms"
  "ctl_t (tick_drained ops now_ms c) = ctl_t c"
  "ctl_servo_cfg (tick_drained ops now_ms c) = ctl_servo_cfg c"
  "ctl_arm_deadline (tick_drained ops now_ms c) = ctl_arm_deadline c"
  "ctl_have_window (tick_drained ops now_ms c) = ctl_have_window c"
  using drain_loop_frame [of ops 8 "c\<lparr>ctl_now := now_ms\<rparr>"]
  by (simp_all add: tick_drained_def drainEvents_def drain_frame_def)

text \<open>What the locals of a tick say about the links.\<close>

definition diel_ok :: "'d diel_ops \<Rightarrow> ('l, 'd) edm_controller \<Rightarrow> bool" where
  "diel_ok dops c \<longleftrightarrow>
     (case ctl_diel c of
        None \<Rightarrow> True
      | Some d \<Rightarrow> di_required (ctl_dielCfg c) \<longrightarrow>
          do_present dops d \<and>
          (case do_latestStats dops d of None \<Rightarrow> False | Some s \<Rightarrow> dielReadyToCut s c))"

lemma tick_view_simps:
  "tl_connected (tick_view ops dops now_ms c) = po_isConnected ops (ctl_link (tick_drained ops now_ms c))"
  "tl_proto (tick_view ops dops now_ms c) = po_protocolCompatible ops (ctl_link (tick_drained ops now_ms c))"
  "tl_got (tick_view ops dops now_ms c) \<longleftrightarrow> po_latestStats ops (ctl_link (tick_drained ops now_ms c)) \<noteq> None"
  by (simp_all add: tick_view_def tick_telemetry_def Let_def)

lemma tick_view_dielOk: "tl_dielOk (tick_view ops dops now_ms c) = diel_ok dops c"
  by (auto simp: tick_view_def tick_telemetry_def Let_def diel_ok_def dielReadyToCut_def
      split: option.splits)

definition cut_permitted :: "'l psu_ops \<Rightarrow> 'd diel_ops \<Rightarrow> ('l, 'd) edm_controller \<Rightarrow> bool" where
  "cut_permitted ops dops c \<longleftrightarrow>
     ctl_state c = StArmed \<and> \<not> ctl_arm_fresh c \<and> po_isConnected ops (ctl_link c)
     \<and> po_protocolCompatible ops (ctl_link c) \<and> po_lastAckStatus ops (ctl_link c) = 0
     \<and> diel_ok dops c"

subsection \<open>The spark\<close>

text \<open>
  \<open>spark_safe\<close>: the link is well formed, and a controller that is idle or faulted has
  the spark off. \<open>quiet_step\<close>: a step that keeps this, never switches the spark on, and
  leaves the link's view alone.
\<close>

definition spark_safe :: "('l \<Rightarrow> bool) \<Rightarrow> ('l \<Rightarrow> bool) \<Rightarrow> ('l, 'd) edm_controller \<Rightarrow> bool" where
  "spark_safe spark linv c \<longleftrightarrow>
     linv (ctl_link c) \<and> (spark_off_state (ctl_state c) \<longrightarrow> \<not> spark (ctl_link c))"

definition quiet_step ::
    "'l psu_ops \<Rightarrow> ('l \<Rightarrow> bool) \<Rightarrow> ('l \<Rightarrow> bool) \<Rightarrow> ('l, 'd) edm_controller \<Rightarrow> ('l, 'd) edm_controller \<Rightarrow> bool" where
  "quiet_step ops spark linv c c' \<longleftrightarrow>
     (spark_safe spark linv c \<longrightarrow>
        spark_safe spark linv c' \<and> (spark (ctl_link c') \<longrightarrow> spark (ctl_link c))
        \<and> psu_view ops (ctl_link c') = psu_view ops (ctl_link c))"

lemma quiet_refl [simp]: "quiet_step ops spark linv c c"
  by (simp add: quiet_step_def)

lemma quiet_trans:
  "quiet_step ops spark linv a b \<Longrightarrow> quiet_step ops spark linv b c \<Longrightarrow> quiet_step ops spark linv a c"
  by (simp add: quiet_step_def)

lemma quiet_if:
  "quiet_step ops spark linv c a \<Longrightarrow> quiet_step ops spark linv c b \<Longrightarrow>
     quiet_step ops spark linv c (if P then a else b)"
  by simp

text \<open>A step that leaves the link alone and enters no stopped state is quiet.\<close>

lemma quiet_same_link:
  "ctl_link c' = ctl_link c \<Longrightarrow> (spark_off_state (ctl_state c') \<Longrightarrow> spark_off_state (ctl_state c)) \<Longrightarrow>
     quiet_step ops spark linv c c'"
  by (simp add: quiet_step_def spark_safe_def)

context psu_link
begin

lemmas link_laws = start_spark stop_spark bounds_spark clear_spark command_linv command_view

lemma quiet_enterFault: "quiet_step ops spark linv c (enterFault ops r c)"
  by (simp add: quiet_step_def spark_safe_def link_laws)

lemma quiet_maybeSend: "quiet_step ops spark linv c (maybeSendModeBounds ops c)"
  by (simp add: quiet_step_def spark_safe_def maybeSendModeBounds_def Let_def link_laws)

lemma quiet_requestStop: "quiet_step ops spark linv c (requestStop ops c)"
  by (simp add: quiet_step_def spark_safe_def requestStop_def Let_def link_laws)

lemma quiet_clearFault: "quiet_step ops spark linv c (clearFault ops c)"
  by (auto simp: quiet_step_def spark_safe_def clearFault_def Let_def link_laws spark_off_state_def)

lemma quiet_notify: "quiet_step ops spark linv c (notifyCutComplete ops c)"
  by (simp add: notifyCutComplete_def quiet_requestStop)

lemma quiet_requestCut: "quiet_step ops spark linv c (requestCut ops s c)"
proof (cases "ctl_state c = StFault \<or> ctl_state c = StStallFault")
  case True
  then show ?thesis by (simp add: requestCut_def)
next
  case False
  define c1 where "c1 = c\<lparr>ctl_s_word := s, ctl_mode := modeForSword (ctl_modes c) s\<rparr>"
  have q1: "quiet_step ops spark linv c c1"
    by (rule quiet_same_link) (simp_all add: c1_def)
  show ?thesis
  proof (cases "modeForSword (ctl_modes c) s = ModeIdle")
    case True
    then show ?thesis
      using False quiet_trans [OF q1 quiet_requestStop]
      by (simp add: requestCut_def c1_def Let_def)
  next
    case no: False
    define c2 where "c2 = c1\<lparr>ctl_state := StArmed, ctl_arm_deadline := ctl_now c + ct_ack (ctl_t c),
        ctl_arm_fresh := True\<rparr>"
    have "quiet_step ops spark linv c1 c2"
      by (rule quiet_same_link) (simp_all add: c2_def spark_off_state_def)
    with q1 have "quiet_step ops spark linv c (maybeSendModeBounds ops c2)"
      using quiet_trans quiet_maybeSend by metis
    then show ?thesis using False no by (simp add: requestCut_def c1_def c2_def Let_def)
  qed
qed

lemma quiet_break_response: "quiet_step ops spark linv c (break_response ops c)"
proof -
  define c2 where "c2 = c\<lparr>ctl_feed_cap_mult := 0, ctl_state := StBreakRelief,
      ctl_break_relief_until := ctl_now c + ct_break_relief (ctl_t c), ctl_mode := ModeIgnite\<rparr>"
  define c3 where "c3 = c\<lparr>ctl_feed_cap_mult := f32 0.3, ctl_mode := lowerEnergy (ctl_mode c)\<rparr>"
  have "quiet_step ops spark linv c (maybeSendModeBounds ops c2)"
    by (rule quiet_trans [OF quiet_same_link quiet_maybeSend])
      (simp_all add: c2_def spark_off_state_def)
  moreover have "quiet_step ops spark linv c (maybeSendModeBounds ops c3)"
    by (rule quiet_trans [OF quiet_same_link quiet_maybeSend]) (simp_all add: c3_def)
  moreover have "quiet_step ops spark linv c (c\<lparr>ctl_feed_cap_mult := f32 0.6\<rparr>)"
    by (rule quiet_same_link) simp_all
  ultimately show ?thesis by (simp add: break_response_def Let_def c2_def c3_def)
qed

lemma quiet_on_wire_break: "quiet_step ops spark linv c (on_wire_break ops w c)"
  unfolding on_wire_break_def Let_def
  by (rule quiet_trans [OF quiet_same_link quiet_break_response]) (simp_all split: if_splits)

lemma quiet_pop:
  assumes "po_popEvent ops (ctl_link c) = Some (e, l)"
  shows "quiet_step ops spark linv c (c\<lparr>ctl_link := l\<rparr>)"
  using pop_step [OF _ assms] by (simp add: quiet_step_def spark_safe_def)

lemma quiet_drain_loop: "quiet_step ops spark linv c (drain_loop ops n c)"
proof (induction n arbitrary: c)
  case 0
  then show ?case by simp
next
  case (Suc n)
  show ?case
  proof (cases "po_popEvent ops (ctl_link c)")
    case None
    then show ?thesis by simp
  next
    case (Some r)
    obtain e l where r: "r = (e, l)" by (cases r)
    have q: "quiet_step ops spark linv c (c\<lparr>ctl_link := l\<rparr>)" using Some r by (intro quiet_pop) simp
    have "quiet_step ops spark linv c (drain_loop ops n (on_wire_break ops w (c\<lparr>ctl_link := l\<rparr>)))" for w
      by (rule quiet_trans [OF quiet_trans [OF q quiet_on_wire_break] Suc.IH])
    moreover have "quiet_step ops spark linv c (enterFault ops FrPsuFault (c\<lparr>ctl_link := l\<rparr>))"
      by (rule quiet_trans [OF q quiet_enterFault])
    moreover have "quiet_step ops spark linv c (drain_loop ops n (c\<lparr>ctl_link := l\<rparr>))"
      by (rule quiet_trans [OF q Suc.IH])
    ultimately show ?thesis using Some r by (cases e) auto
  qed
qed

lemma quiet_drained: "quiet_step ops spark linv c (tick_drained ops now_ms c)"
  unfolding tick_drained_def drainEvents_def
  by (rule quiet_trans [OF quiet_same_link quiet_drain_loop]) simp_all

lemma quiet_gathered: "quiet_step ops spark linv c (tick_gathered ops dops now_ms c)"
  unfolding tick_gathered_def
  by (rule quiet_trans [OF quiet_drained quiet_same_link]) simp_all

lemma quiet_diel_report: "quiet_step ops spark linv c (tick_diel_report tv c)"
  by (rule quiet_same_link) simp_all

lemma quiet_health: "quiet_step ops spark linv c (tick_health ops tv c)"
  by (simp add: tick_health_def quiet_enterFault)

lemma quiet_diel_loss: "quiet_step ops spark linv c (tick_diel_loss ops tv c)"
  by (simp add: tick_diel_loss_def quiet_enterFault)

lemma quiet_relief: "quiet_step ops spark linv c (tick_relief c)"
  by (rule quiet_same_link) (simp_all add: tick_relief_def spark_off_state_def split: if_splits)

lemma quiet_sev_clear: "quiet_step ops spark linv c (tick_sev_clear ops c)"
proof -
  define d where "d = c\<lparr>ctl_wire_break_sev := 0, ctl_feed_cap_mult := 1\<rparr>"
  have d: "quiet_step ops spark linv c d"
    by (rule quiet_same_link) (simp_all add: d_def)
  have "quiet_step ops spark linv c
      (maybeSendModeBounds ops (d\<lparr>ctl_mode := modeForSword (ctl_modes d) (ctl_s_word d)\<rparr>))"
    by (rule quiet_trans [OF quiet_trans [OF d quiet_same_link] quiet_maybeSend]) simp_all
  with d show ?thesis
    unfolding tick_sev_clear_def Let_def d_def [symmetric] by (intro quiet_if quiet_refl)
qed

lemma quiet_fault_if:
  assumes "quiet_step ops spark linv c c'"
  shows "quiet_step ops spark linv c (if b then enterFault ops r c' else c')"
  by (rule quiet_if [OF quiet_trans [OF assms quiet_enterFault] assms])

lemma quiet_servo_touchoff: "quiet_step ops spark linv c (servo_touchoff ops inp c)"
  unfolding servo_touchoff_def Let_def
  by (rule quiet_fault_if, rule quiet_same_link)
    (simp_all add: spark_off_state_def split: if_splits)

lemma quiet_lost_gap: "quiet_step ops spark linv c (servo_lost_gap inp c)"
  by (rule quiet_same_link)
    (simp_all add: servo_lost_gap_def Let_def spark_off_state_def split: if_splits)

lemma quiet_servo_stall: "quiet_step ops spark linv c (servo_stall ops inp out c)"
proof -
  define h where "h = (if ctl_state c = StCutting
      then c\<lparr>ctl_state := StHold, ctl_stall_since := ctl_now c\<rparr> else c)"
  have q1: "quiet_step ops spark linv c h"
    by (rule quiet_same_link) (simp_all add: h_def spark_off_state_def split: if_splits)
  have q2: "quiet_step ops spark linv h (h\<lparr>ctl_link := po_stopCut ops (ctl_link h),
      ctl_state := StStallFault, ctl_fault := FrServoStall\<rparr>)" for h :: "('l, 'd) edm_controller"
    by (simp add: quiet_step_def spark_safe_def link_laws)
  have q3: "quiet_step ops spark linv c (h\<lparr>ctl_stall_since := n\<rparr>)" for n
    by (rule quiet_trans [OF q1 quiet_same_link]) simp_all
  have q4: "quiet_step ops spark linv c (if ctl_state c = StHold then c\<lparr>ctl_state := StCutting\<rparr> else c)"
    by (rule quiet_same_link) (simp_all add: spark_off_state_def split: if_splits)
  show ?thesis
    unfolding servo_stall_def Let_def h_def [symmetric]
    by (intro quiet_if q1 q3 q4 quiet_trans [OF q1 q2])
qed

lemma quiet_servo: "quiet_step ops spark linv c (snd (tick_servo ops tv c))"
proof -
  have s: "quiet_step ops spark linv c (c\<lparr>ctl_ss := x\<rparr>)" for x
    by (rule quiet_same_link) simp_all
  have "quiet_step ops spark linv c (servo_touchoff ops inp (c\<lparr>ctl_ss := x\<rparr>))"
    "quiet_step ops spark linv c (servo_stall ops inp out (servo_lost_gap inp (c\<lparr>ctl_ss := x\<rparr>)))"
    for inp x out
    by (rule quiet_trans [OF s quiet_servo_touchoff],
        rule quiet_trans [OF quiet_trans [OF s quiet_lost_gap] quiet_servo_stall])
  then show ?thesis by (simp add: tick_servo_def Let_def s)
qed

text \<open>The armed block is the only one that switches the spark on, and it says when.\<close>

lemma tick_armed_cases:
  obtains (Quiet) "quiet_step ops spark linv c (tick_armed ops tv c)"
  | (Start) "ctl_state c = StArmed" "\<not> ctl_arm_fresh c" "tl_proto tv" "tl_connected tv"
      "po_lastAckStatus ops (ctl_link c) = 0" "tl_dielOk tv"
      "ctl_link (tick_armed ops tv c) = po_startCut ops (ctl_link c)"
      "ctl_state (tick_armed ops tv c) = StTouchOff"
proof (cases "ctl_state c = StArmed \<and> tl_proto tv \<and> \<not> ctl_arm_fresh c \<and> tl_connected tv
    \<and> po_lastAckStatus ops (ctl_link c) = 0 \<and> tl_dielOk tv")
  case True
  then show thesis by (intro Start) (simp_all add: tick_armed_def Let_def)
next
  case False
  have "quiet_step ops spark linv c (c\<lparr>ctl_arm_fresh := False\<rparr>)"
    by (rule quiet_same_link) simp_all
  then have "quiet_step ops spark linv c (tick_armed ops tv c)"
    using False by (auto simp: tick_armed_def quiet_enterFault)
  then show thesis by (rule Quiet)
qed

lemma quiet_before_armed:
  "quiet_step ops spark linv c
     (tick_diel_loss ops tv (tick_health ops tv (tick_diel_report tv c)))"
  by (rule quiet_trans [OF quiet_trans [OF quiet_diel_report quiet_health] quiet_diel_loss])

lemma quiet_after_armed: "quiet_step ops spark linv c (tick_sev_clear ops (tick_relief c))"
  by (rule quiet_trans [OF quiet_relief quiet_sev_clear])

lemma before_armed_frame:
  "ctl_state (tick_diel_loss ops tv (tick_health ops tv (tick_diel_report tv c))) = StArmed \<Longrightarrow>
     ctl_state c = StArmed
     \<and> ctl_arm_fresh (tick_diel_loss ops tv (tick_health ops tv (tick_diel_report tv c))) = ctl_arm_fresh c"
  by (auto simp: tick_diel_loss_def tick_health_def tick_diel_report_def Let_def split: if_splits)

text \<open>
  The main lemma: a tick keeps the invariant, and if it switches the spark on, the
  controller was armed and every permission held when the tick began.
\<close>

lemma tick_spark:
  assumes safe: "spark_safe spark linv c"
  shows "spark_safe spark linv (tick ops dops now_ms c)
    \<and> (spark (ctl_link (tick ops dops now_ms c)) \<longrightarrow> spark (ctl_link c) \<or> cut_permitted ops dops c)"
proof -
  define g where "g = tick_gathered ops dops now_ms c"
  define tv where "tv = tick_view ops dops now_ms c"
  define b where "b = tick_diel_loss ops tv (tick_health ops tv (tick_diel_report tv g))"
  define a where "a = tick_armed ops tv b"
  define e where "e = snd (tick_servo ops tv (tick_sev_clear ops (tick_relief a)))"
  have link: "ctl_link (tick ops dops now_ms c) = ctl_link e"
    and state: "ctl_state (tick ops dops now_ms c) = ctl_state e"
    by (simp_all add: tick_state tick_guarded_def tick_guards_def g_def tv_def b_def a_def e_def)
  have cb: "quiet_step ops spark linv c b"
    unfolding b_def g_def by (rule quiet_trans [OF quiet_gathered quiet_before_armed])
  have ae: "quiet_step ops spark linv a e"
    unfolding e_def by (rule quiet_trans [OF quiet_after_armed quiet_servo])
  have bs: "spark_safe spark linv b" "spark (ctl_link b) \<longrightarrow> spark (ctl_link c)"
    "psu_view ops (ctl_link b) = psu_view ops (ctl_link c)"
    using cb safe by (auto simp: quiet_step_def)
  show ?thesis
  proof (rule tick_armed_cases [of b tv, folded a_def])
    assume "quiet_step ops spark linv b a"
    then have "quiet_step ops spark linv c e" using quiet_trans [OF cb quiet_trans [OF _ ae]] by blast
    then show ?thesis using safe by (auto simp: quiet_step_def spark_safe_def link state)
  next
    assume arm: "ctl_state b = StArmed" "\<not> ctl_arm_fresh b" "tl_proto tv" "tl_connected tv"
      "po_lastAckStatus ops (ctl_link b) = 0" "tl_dielOk tv"
      "ctl_link a = po_startCut ops (ctl_link b)" "ctl_state a = StTouchOff"
    have "spark_safe spark linv a"
      using arm(7,8) bs(1) by (simp add: spark_safe_def command_linv spark_off_state_def)
    then have e: "spark_safe spark linv e" using ae by (simp add: quiet_step_def)
    have g: "ctl_state g = StArmed" "ctl_arm_fresh b = ctl_arm_fresh g"
      using before_armed_frame [of tv g] arm(1) by (simp_all add: b_def)
    have st: "ctl_state c = StArmed"
      using g(1) tick_drained_state [of ops now_ms c] by (auto simp: g_def tick_gathered_def)
    have fresh: "\<not> ctl_arm_fresh c"
      using arm(2) g(2) by (simp add: g_def tick_gathered_def)
    have "psu_view ops (ctl_link (tick_drained ops now_ms c)) = psu_view ops (ctl_link c)"
      using quiet_drained [of c now_ms] safe by (simp add: quiet_step_def)
    then have "cut_permitted ops dops c"
      using arm bs(3) st fresh
      by (simp add: cut_permitted_def tv_def tick_view_simps tick_view_dielOk psu_view_def)
    with e show ?thesis by (simp add: spark_safe_def link state)
  qed
qed

end

subsection \<open>Reachable controllers\<close>

text \<open>
  The calls the rest of the firmware makes on the controller, interleaved with what the
  world does to the links: \<open>env\<close> relates link states that a received frame or a simulator
  tick connects, and the dielectric link may change at any time.
\<close>

inductive ctl_step ::
    "'l psu_ops \<Rightarrow> 'd diel_ops \<Rightarrow> ('l \<Rightarrow> 'l \<Rightarrow> bool) \<Rightarrow> ('l, 'd) edm_controller \<Rightarrow> ('l, 'd) edm_controller \<Rightarrow> bool"
  for ops :: "'l psu_ops" and dops :: "'d diel_ops" and env :: "'l \<Rightarrow> 'l \<Rightarrow> bool" where
  cs_cut: "ctl_step ops dops env c (requestCut ops s c)"
| cs_stop: "ctl_step ops dops env c (requestStop ops c)"
| cs_complete: "ctl_step ops dops env c (notifyCutComplete ops c)"
| cs_clear: "ctl_step ops dops env c (clearFault ops c)"
| cs_attach: "ctl_step ops dops env c (attachDielectric d cfg c)"
| cs_tick: "ctl_step ops dops env c (tick ops dops now_ms c)"
| cs_link: "env (ctl_link c) l \<Longrightarrow> ctl_step ops dops env c (c\<lparr>ctl_link := l\<rparr>)"
| cs_diel: "ctl_step ops dops env c (c\<lparr>ctl_diel := Some d\<rparr>)"

inductive ctl_reach ::
    "'l psu_ops \<Rightarrow> 'd diel_ops \<Rightarrow> ('l \<Rightarrow> 'l \<Rightarrow> bool) \<Rightarrow> 'l \<Rightarrow> ('l, 'd) edm_controller \<Rightarrow> bool"
  for ops :: "'l psu_ops" and dops :: "'d diel_ops" and env :: "'l \<Rightarrow> 'l \<Rightarrow> bool" and l0 :: 'l where
  cr_init: "ctl_reach ops dops env l0 (controller_init l0 cfg modes timers)"
| cr_step: "ctl_reach ops dops env l0 c \<Longrightarrow> ctl_step ops dops env c c' \<Longrightarrow> ctl_reach ops dops env l0 c'"

text \<open>An environment that the contract allows: it neither switches the spark nor breaks the link.\<close>

definition env_ok :: "('l \<Rightarrow> bool) \<Rightarrow> ('l \<Rightarrow> bool) \<Rightarrow> ('l \<Rightarrow> 'l \<Rightarrow> bool) \<Rightarrow> bool" where
  "env_ok spark linv env \<longleftrightarrow> (\<forall>l l'. env l l' \<longrightarrow> linv l \<longrightarrow> linv l' \<and> spark l' = spark l)"

context psu_link
begin

lemma step_spark_safe:
  assumes "env_ok spark linv env" "spark_safe spark linv c" "ctl_step ops dops env c c'"
  shows "spark_safe spark linv c'"
  using assms(3)
proof cases
  case (cs_cut s)
  then show ?thesis using quiet_requestCut [of c s] assms(2) by (simp add: quiet_step_def)
next
  case cs_stop
  then show ?thesis using quiet_requestStop [of c] assms(2) by (simp add: quiet_step_def)
next
  case cs_complete
  then show ?thesis using quiet_notify [of c] assms(2) by (simp add: quiet_step_def)
next
  case cs_clear
  then show ?thesis using quiet_clearFault [of c] assms(2) by (simp add: quiet_step_def)
next
  case (cs_tick now_ms)
  then show ?thesis using tick_spark [OF assms(2)] by simp
next
  case (cs_link l)
  then show ?thesis using assms(1,2) by (auto simp: spark_safe_def env_ok_def)
qed (use assms(2) in \<open>simp_all add: spark_safe_def attachDielectric_def\<close>)

lemma reach_spark_safe:
  assumes "env_ok spark linv env" "linv l0" "\<not> spark l0" "ctl_reach ops dops env l0 c"
  shows "spark_safe spark linv c"
  using assms(4)
proof induction
  case (cr_init cfg modes timers)
  then show ?case using assms(2,3) by (simp add: spark_safe_def controller_init_def)
next
  case (cr_step c c')
  then show ?case using step_spark_safe [OF assms(1)] by blast
qed

end

text \<open>The environments of the two links.\<close>

definition can_env :: "can_psu_link \<Rightarrow> can_psu_link \<Rightarrow> bool" where
  "can_env l l' \<longleftrightarrow> (\<exists>f. l' = can_onFrame f l)"

lemma can_env_ok: "env_ok can_spark can_linv can_env"
  by (auto simp: env_ok_def can_env_def can_onFrame_linv can_onFrame_spark)

text \<open>The simulator's task ticks it, feeds the commanded velocity back, and may queue events.\<close>

definition sim_env :: "sim_psu \<Rightarrow> sim_psu \<Rightarrow> bool" where
  "sim_env l l' \<longleftrightarrow> l' = sim_tick l \<or> (\<exists>v. l' = sim_applyCommandedVelocity v l)
     \<or> (\<exists>e. l' = sim_pushEvent e l) \<or> (\<exists>mm. l' = sim_setGap mm l) \<or> l' = sim_begin l"

lemma sim_env_ok: "env_ok sim_cutting sim_linv sim_env"
  by (auto simp: env_ok_def sim_env_def sim_linv_def sim_applyCommandedVelocity_def
      sim_pushEvent_def sim_setGap_def sim_begin_def sim_events.qinv_push)

end
