(* ===== verification/ControllerBehaviour.thy ===== *)
theory ControllerBehaviour
  imports ControllerSafety
begin

text \<open>
  What the controller does on each branch: the watchdog over the telemetry, the bounded
  waits, the feed cap that a wire break imposes, and the mode bounds it sends.
\<close>

subsection \<open>The watchdog\<close>

text \<open>The supply's view that a tick accepts as healthy, at the telemetry age \<open>age\<close>.\<close>

definition psu_healthy :: "'l psu_ops \<Rightarrow> controller_timers \<Rightarrow> bool \<Rightarrow> u32 \<Rightarrow> 'l \<Rightarrow> bool" where
  "psu_healthy ops t have_window age l \<longleftrightarrow>
     po_protocolCompatible ops l
     \<and> (case po_latestStats ops l of None \<Rightarrow> True | Some s \<Rightarrow> st_state s \<noteq> 2)
     \<and> (have_window \<or> \<not> po_isConnected ops l \<longrightarrow> age \<le> ct_tele_fault t)"

lemma tick_health_passed:
  assumes "\<not> spark_off_state (ctl_state (tick_health ops tv c))"
  shows "tick_health ops tv c = c" "tl_proto tv" "\<not> (tl_got tv \<and> st_state (tl_s tv) = 2)"
    "ctl_have_window c \<or> \<not> tl_connected tv \<longrightarrow> \<not> tl_stale_fault tv"
  using assms by (auto simp: tick_health_def spark_off_state_def split: if_splits)

lemma off_states:
  "spark_off_state st \<Longrightarrow> st \<noteq> StArmed \<and> st \<noteq> StTouchOff \<and> st \<noteq> StCutting \<and> st \<noteq> StHold
     \<and> st \<noteq> StBreakRelief"
  by (auto simp: spark_off_state_def)

lemma off_preserved:
  "spark_off_state (ctl_state c) \<Longrightarrow> tick_diel_loss ops tv c = c"
  "spark_off_state (ctl_state c) \<Longrightarrow> tick_armed ops tv c = c"
  "spark_off_state (ctl_state c) \<Longrightarrow> tick_relief c = c"
  by (drule off_states, simp add: tick_diel_loss_def tick_armed_def tick_relief_def)+

lemma tick_guards_off:
  assumes "spark_off_state (ctl_state (tick_health ops tv (tick_diel_report tv c)))"
  shows "spark_off_state (ctl_state (tick_guards ops tv c))"
  using assms by (simp add: tick_guards_def off_preserved)

lemma tick_off_guards:
  "spark_off_state (ctl_state (tick_guarded ops dops now_ms c)) \<Longrightarrow>
     spark_off_state (ctl_state (tick ops dops now_ms c))"
  using off_states [of "ctl_state (tick_guarded ops dops now_ms c)"]
  by (simp add: tick_state tick_servo_inactive active_state_def)

text \<open>The age of the telemetry that the tick computes.\<close>

definition telemetry_age :: "('l, 'd) edm_controller \<Rightarrow> u32" where
  "telemetry_age c = ctl_now c - ctl_last_window_change_ms c"

lemma tick_view_stale:
  "tl_stale_fault (tick_view ops dops now_ms c) \<longleftrightarrow>
     ct_tele_fault (ctl_t c) < telemetry_age (tick_gathered ops dops now_ms c)"
  by (simp add: tick_view_def tick_gathered_def tick_telemetry_def Let_def telemetry_age_def)

lemma tick_view_stats:
  "tl_got (tick_view ops dops now_ms c) \<and> st_state (tl_s (tick_view ops dops now_ms c)) = 2 \<longleftrightarrow>
     (case po_latestStats ops (ctl_link (tick_drained ops now_ms c)) of
        None \<Rightarrow> False | Some s \<Rightarrow> st_state s = 2)"
  by (simp add: tick_view_def tick_telemetry_def Let_def split: option.split)

context psu_link
begin

lemma tick_watchdog:
  assumes "spark_safe spark linv c" "\<not> spark_off_state (ctl_state (tick ops dops now_ms c))"
  shows "psu_healthy ops (ctl_t c) (ctl_have_window (tick_gathered ops dops now_ms c))
    (telemetry_age (tick_gathered ops dops now_ms c)) (ctl_link c)"
proof -
  define g where "g = tick_gathered ops dops now_ms c"
  define tv where "tv = tick_view ops dops now_ms c"
  have "\<not> spark_off_state (ctl_state (tick_guards ops tv g))"
    using assms(2) tick_off_guards by (auto simp: tick_guarded_def g_def tv_def)
  then have ok: "\<not> spark_off_state (ctl_state (tick_health ops tv (tick_diel_report tv g)))"
    using tick_guards_off by blast
  note passed = tick_health_passed [OF ok, simplified]
  have "psu_view ops (ctl_link (tick_drained ops now_ms c)) = psu_view ops (ctl_link c)"
    using quiet_drained [of c now_ms] assms(1) by (simp add: quiet_step_def)
  then have v: "po_latestStats ops (ctl_link (tick_drained ops now_ms c)) = po_latestStats ops (ctl_link c)"
    "po_isConnected ops (ctl_link (tick_drained ops now_ms c)) = po_isConnected ops (ctl_link c)"
    "po_protocolCompatible ops (ctl_link (tick_drained ops now_ms c)) = po_protocolCompatible ops (ctl_link c)"
    by (simp_all add: psu_view_def)
  show ?thesis
    using passed(2-) tick_view_stale [of ops dops now_ms c] tick_view_stats [of ops dops now_ms c]
    by (auto simp: psu_healthy_def tv_def g_def tick_view_simps v not_less split: option.splits)
qed

end

subsection \<open>Bounded waits\<close>

lemma guards_armed_leaves:
  assumes "\<not> ctl_arm_fresh c" "ctl_arm_deadline c \<le> ctl_now c"
  shows "ctl_state (tick_guards ops tv c) \<noteq> StArmed"
proof -
  define h where "h = tick_diel_loss ops tv (tick_health ops tv (tick_diel_report tv c))"
  have f: "ctl_arm_fresh h = ctl_arm_fresh c" "ctl_arm_deadline h = ctl_arm_deadline c"
    "ctl_now h = ctl_now c"
    by (simp_all add: h_def tick_diel_loss_def tick_health_def tick_diel_report_def Let_def)
  have "ctl_state (tick_armed ops tv h) \<noteq> StArmed"
    using assms by (auto simp: tick_armed_def Let_def f)
  then have "ctl_state (tick_relief (tick_armed ops tv h)) \<noteq> StArmed"
    by (simp add: tick_relief_def)
  then show ?thesis by (simp add: tick_guards_def h_def)
qed

lemma tick_servo_not_armed:
  "ctl_state c \<noteq> StArmed \<Longrightarrow> ctl_state (snd (tick_servo ops tv c)) \<noteq> StArmed"
  using tick_servo_state [of c ops tv] by (auto elim: edm_trans.cases)

text \<open>An armed controller whose deadline has passed decides: it starts or it faults.\<close>

lemma tick_arm_decides:
  assumes "\<not> ctl_arm_fresh c" "ctl_arm_deadline c \<le> now_ms"
  shows "ctl_state (tick ops dops now_ms c) \<noteq> StArmed"
proof -
  have "ctl_state (tick_guarded ops dops now_ms c) \<noteq> StArmed"
    unfolding tick_guarded_def
    by (rule guards_armed_leaves)
      (use assms in \<open>simp_all add: tick_gathered_def tick_telemetry_def Let_def\<close>)
  then show ?thesis by (simp add: tick_state tick_servo_not_armed)
qed

text \<open>
  The transitions out of the armed state, given what the tick sees. The first tick after
  arming only settles.
\<close>

lemma tick_armed_functional:
  assumes "ctl_state c = StArmed" "tl_proto tv"
  shows "ctl_arm_fresh c \<Longrightarrow> tick_armed ops tv c = c\<lparr>ctl_arm_fresh := False\<rparr>"
    and "\<not> ctl_arm_fresh c \<Longrightarrow> \<not> (tl_connected tv \<and> po_lastAckStatus ops (ctl_link c) = 0 \<and> tl_dielOk tv) \<Longrightarrow>
      ctl_now c < ctl_arm_deadline c \<Longrightarrow> tick_armed ops tv c = c"
    and "\<not> ctl_arm_fresh c \<Longrightarrow> \<not> (tl_connected tv \<and> po_lastAckStatus ops (ctl_link c) = 0 \<and> tl_dielOk tv) \<Longrightarrow>
      ctl_arm_deadline c \<le> ctl_now c \<Longrightarrow> tick_armed ops tv c =
        enterFault ops (if tl_dielReq tv \<and> \<not> tl_dielOk tv then FrDielectricNotReady else FrAckTimeout) c"
  using assms by (auto simp: tick_armed_def not_le)

text \<open>A touch-off that outlasts its budget faults, whatever the gap shows.\<close>

lemma servo_touchoff_timeout:
  assumes "ct_touchoff_budget (ctl_t c) < ctl_now c - ctl_touchoff_start c"
  shows "ctl_state (servo_touchoff ops inp c) = StFault"
    "ctl_fault (servo_touchoff ops inp c) = FrTouchOffNoContact"
  using assms by (simp_all add: servo_touchoff_def Let_def)

text \<open>Contact needs two valid windows in a row with less than half of the pulses open.\<close>

lemma servo_touchoff_contact:
  assumes "ctl_state c = StTouchOff" "ctl_state (servo_touchoff ops inp c) = StCutting"
  shows "gi_valid inp" "1 / 2 < fsub 1 (gi_open_ratio inp)" "2 \<le> ctl_touchoff_contig c + 1"
  using assms by (auto simp: servo_touchoff_def Let_def split: if_splits)

text \<open>A healthy gap is never a stall.\<close>

lemma servo_stall_healthy:
  assumes "gap_healthy inp c" "ctl_state c \<noteq> StStallFault"
  shows "ctl_state (servo_stall ops inp out c) \<noteq> StStallFault"
    "ctl_link (servo_stall ops inp out c) = ctl_link c"
  using assms by (auto simp: servo_stall_def Let_def)

subsection \<open>Faults stay latched without events\<close>

lemma tick_off_stays:
  assumes "spark_off_state (ctl_state c)" "po_popEvent ops (ctl_link c) = None"
  shows "ctl_state (tick ops dops now_ms c) = ctl_state c"
  using tick_trans [of ops now_ms c dops] assms
  by (auto simp: tick_drained_none spark_off_state_def edm_trans_from_off)

text \<open>
  But draining a critical wire break enters the relief state from every state, the two
  fault states and idle included.
\<close>

lemma on_wire_break_critical:
  "3 \<le> wb_severity w \<Longrightarrow> ctl_state (on_wire_break ops w c) = StBreakRelief"
proof -
  assume "3 \<le> wb_severity w"
  then have "3 \<le> (if ctl_wire_break_sev c < wb_severity w then wb_severity w else ctl_wire_break_sev c)"
    by (auto simp: not_less intro: order_trans)
  then have "3 \<le> ctl_wire_break_sev (if ctl_wire_break_sev c < wb_severity w
      then c\<lparr>ctl_wire_break_sev := wb_severity w\<rparr> else c)" (is "_ \<le> ctl_wire_break_sev ?d")
    by (cases "ctl_wire_break_sev c < wb_severity w") simp_all
  then show ?thesis
    unfolding on_wire_break_def Let_def break_response_def by (simp del: if_split)
qed

subsection \<open>The feed cap\<close>

text \<open>The cap a severity imposes; without a break the cap is 1, or 0.6 after an event of severity 0.\<close>

definition cap_for :: "u8 \<Rightarrow> real \<Rightarrow> bool" where
  "cap_for sev cap \<longleftrightarrow>
     (if 3 \<le> sev then cap = 0 else if sev = 2 then cap = f32 0.3
      else if sev = 1 then cap = f32 0.6 else cap = 1 \<or> cap = f32 0.6)"

definition cap_inv :: "('l, 'd) edm_controller \<Rightarrow> bool" where
  "cap_inv c \<longleftrightarrow> cap_for (ctl_wire_break_sev c) (ctl_feed_cap_mult c)"

lemma break_response_cap: "cap_inv (break_response ops c)"
proof -
  have "cap_for s (f32 0.3)" if "s = 2" for s
    using that by (simp add: cap_for_def word_le_nat_alt)
  moreover have "cap_for s 0" if "3 \<le> s" for s
    using that by (simp add: cap_for_def)
  moreover have "cap_for s (f32 0.6)" if "\<not> 3 \<le> s" "s \<noteq> 2" for s
    using that by (simp add: cap_for_def)
  ultimately show ?thesis by (simp add: cap_inv_def break_response_def Let_def)
qed

lemma cap_inv_cong:
  "ctl_wire_break_sev c' = ctl_wire_break_sev c \<Longrightarrow> ctl_feed_cap_mult c' = ctl_feed_cap_mult c \<Longrightarrow>
     cap_inv c' = cap_inv c"
  by (simp only: cap_inv_def)

lemma drain_loop_cap: "cap_inv c \<Longrightarrow> cap_inv (drain_loop ops n c)"
proof (induction n arbitrary: c)
  case 0
  then show ?case by simp
next
  case (Suc n)
  have "cap_inv (c\<lparr>ctl_link := l\<rparr>)" "cap_inv (enterFault ops r (c\<lparr>ctl_link := l\<rparr>))" for l r
    using Suc.prems by (simp_all add: cap_inv_def)
  moreover have "cap_inv (drain_loop ops n (on_wire_break ops w (c\<lparr>ctl_link := l\<rparr>)))" for w l
    by (rule Suc.IH) (simp add: on_wire_break_def Let_def break_response_cap)
  moreover have "cap_inv (drain_loop ops n (c\<lparr>ctl_link := l\<rparr>))" for l
    by (rule Suc.IH) (use Suc.prems in \<open>simp add: cap_inv_def\<close>)
  ultimately show ?case
    using Suc.prems by (simp add: Let_def split: option.split prod.split psu_event.split)
qed

definition same_cap :: "('l, 'd) edm_controller \<Rightarrow> ('l, 'd) edm_controller \<Rightarrow> bool" where
  "same_cap c c' \<longleftrightarrow> ctl_wire_break_sev c' = ctl_wire_break_sev c
     \<and> ctl_feed_cap_mult c' = ctl_feed_cap_mult c"

lemma same_cap_trans: "same_cap a b \<Longrightarrow> same_cap b c \<Longrightarrow> same_cap a c"
  by (simp add: same_cap_def)

lemma same_cap_inv: "same_cap c c' \<Longrightarrow> cap_inv c' = cap_inv c"
  by (simp add: same_cap_def cap_inv_def)

lemma same_cap_if:
  "same_cap c a \<Longrightarrow> same_cap c b \<Longrightarrow> same_cap c (if P then a else b)"
  by simp

lemma same_cap_stall: "same_cap c (servo_stall ops inp out c)"
proof -
  define h where "h = (if ctl_state c = StCutting
      then c\<lparr>ctl_state := StHold, ctl_stall_since := ctl_now c\<rparr> else c)"
  have "same_cap c h" by (simp add: h_def same_cap_def)
  then have "same_cap c h" "same_cap c (h\<lparr>ctl_stall_since := n\<rparr>)"
    "same_cap c (h\<lparr>ctl_link := l, ctl_state := StStallFault, ctl_fault := FrServoStall\<rparr>)"
    "same_cap c (if ctl_state c = StHold then c\<lparr>ctl_state := StCutting\<rparr> else c)" for n l
    by (simp_all add: same_cap_def)
  note facts = this
  show ?thesis
    unfolding servo_stall_def Let_def h_def [symmetric]
    by (intro same_cap_if facts(1,2,4)) (use facts(3) in simp)
qed

lemma same_cap_touchoff: "same_cap c (servo_touchoff ops inp c)"
  unfolding servo_touchoff_def Let_def by (intro same_cap_if) (simp_all add: same_cap_def)

lemma same_cap_steps:
  "same_cap c (tick_diel_report tv c)" "same_cap c (tick_health ops tv c)"
  "same_cap c (tick_diel_loss ops tv c)" "same_cap c (tick_armed ops tv c)"
  "same_cap c (tick_relief c)" "same_cap c (servo_lost_gap inp c)"
  by (simp_all add: same_cap_def tick_health_def tick_diel_loss_def tick_armed_def tick_relief_def
      servo_lost_gap_def Let_def)

lemma same_cap_servo: "same_cap c (snd (tick_servo ops tv c))"
proof -
  have s: "same_cap c (c\<lparr>ctl_ss := x\<rparr>)" for x by (simp add: same_cap_def)
  note t = same_cap_trans [OF s]
  have "same_cap c (servo_touchoff ops inp (c\<lparr>ctl_ss := x\<rparr>))"
    "same_cap c (servo_stall ops inp out (servo_lost_gap inp (c\<lparr>ctl_ss := x\<rparr>)))" for inp x out
    by (rule t [OF same_cap_touchoff],
        rule same_cap_trans [OF t [OF same_cap_steps(6)] same_cap_stall])
  then show ?thesis by (simp add: tick_servo_def Let_def s) (simp add: same_cap_def)
qed

lemma sev_clear_cap: "cap_inv c \<Longrightarrow> cap_inv (tick_sev_clear ops c)"
  proof -
  assume "cap_inv c"
  moreover have "cap_for 0 1" by (simp add: cap_for_def)
  ultimately show ?thesis by (simp add: tick_sev_clear_def Let_def cap_inv_def)
qed

lemma tick_guards_cap: "cap_inv c \<Longrightarrow> cap_inv (tick_guards ops tv c)"
  unfolding tick_guards_def
  by (rule sev_clear_cap) (simp only: same_cap_inv [OF same_cap_steps(1)] same_cap_inv [OF same_cap_steps(2)]
      same_cap_inv [OF same_cap_steps(3)] same_cap_inv [OF same_cap_steps(4)] same_cap_inv [OF same_cap_steps(5)])

lemma tick_cap: "cap_inv c \<Longrightarrow> cap_inv (tick ops dops now_ms c)"
proof -
  assume inv: "cap_inv c"
  then have "cap_inv (tick_drained ops now_ms c)"
    unfolding tick_drained_def drainEvents_def by (intro drain_loop_cap) (simp add: cap_inv_def)
  then have "cap_inv (tick_gathered ops dops now_ms c)"
    by (simp add: cap_inv_def tick_gathered_def)
  then have "cap_inv (tick_guarded ops dops now_ms c)"
    unfolding tick_guarded_def by (rule tick_guards_cap)
  then show ?thesis
    by (simp add: tick_split Let_def cap_inv_cong [OF tick_report_simps(4,5)] same_cap_inv [OF same_cap_servo])
qed

lemma ctl_step_cap: "ctl_step ops dops env c c' \<Longrightarrow> cap_inv c \<Longrightarrow> cap_inv c'"
  by (induction rule: ctl_step.induct)
    (simp_all add: tick_cap, simp_all add: cap_inv_def requestCut_def requestStop_def
      notifyCutComplete_def clearFault_def attachDielectric_def Let_def)

lemma ctl_reach_cap: "ctl_reach ops dops env l0 c \<Longrightarrow> cap_inv c"
  by (induction rule: ctl_reach.induct)
    (simp add: cap_inv_def cap_for_def controller_init_def, blast intro: ctl_step_cap)

subsection \<open>The reported velocity\<close>

text \<open>Limits of at most 16000 mm/min keep the conversion to um/s far from wrapping.\<close>

definition servo_limits_ok :: "servo_config \<Rightarrow> bool" where
  "servo_limits_ok c \<longleftrightarrow> wf_servo_config c \<and> sc_v_feed_max c \<le> 16000 \<and> sc_v_retract c \<le> 16000"

definition um_per_s :: "real \<Rightarrow> int" where
  "um_per_s v = lround (fdiv (fmul v 1000) 60)"

lemma um_per_s_mono: "v \<le> w \<Longrightarrow> um_per_s v \<le> um_per_s w"
  unfolding um_per_s_def fdiv_def fmul_def
  by (intro lround_mono f32_mono divide_right_mono mult_right_mono) simp_all

lemma um_per_s_0 [simp]: "um_per_s 0 = 0"
  by (simp add: um_per_s_def fdiv_def fmul_def)

lemma um_per_s_16000: "um_per_s 16000 \<le> 266667" "- 266667 \<le> um_per_s (- 16000)"
proof -
  have e: "f32 16000000 = 16000000" "f32 266667 = 266667"
    by (simp_all add: f32_numeral)
  have "f32 (16000000 / 60) \<le> 266667"
    by (rule f32_le_bound) (simp_all add: is_f32_def e)
  then have "fdiv (fmul 16000 1000) 60 \<le> 266667" by (simp add: fmul_def fdiv_def e)
  then have "lround (fdiv (fmul 16000 1000) 60) \<le> lround (of_int 266667)"
    by (intro lround_mono) simp
  then show up: "um_per_s 16000 \<le> 266667" unfolding um_per_s_def by (simp only: lround_of_int)
  have neg: "lround (- x) = - lround x" for x
    by (auto simp: lround_def)
  have "fdiv (fmul (- 16000) 1000) 60 = - fdiv (fmul 16000 1000) 60"
    by (simp only: fdiv_def fmul_def mult_minus_left f32_uminus minus_divide_left [symmetric])
  then have "um_per_s (- 16000) = - um_per_s 16000" by (simp add: um_per_s_def neg)
  with up show "- 266667 \<le> um_per_s (- 16000)" by simp
qed

lemma servo_velocity_int:
  assumes "servo_limits_ok c"
  shows "sint (go_v_s_um_s (servo_step c s inp)) = um_per_s (go_v_cmd_mm_min (servo_step c s inp))"
    and "\<bar>um_per_s (go_v_cmd_mm_min (servo_step c s inp))\<bar> \<le> 266667"
proof -
  define v where "v = go_v_cmd_mm_min (servo_step c s inp)"
  have "- sc_v_retract c \<le> v \<and> v \<le> sc_v_feed_max c"
    using assms cap_velocity_bounds [of c inp] by (simp add: v_def servo_step_proj servo_limits_ok_def)
  then have "- 16000 \<le> v" "v \<le> 16000" using assms by (simp_all add: servo_limits_ok_def)
  then have "um_per_s (- 16000) \<le> um_per_s v" "um_per_s v \<le> um_per_s 16000"
    by (simp_all add: um_per_s_mono)
  with um_per_s_16000 have r: "- 266667 \<le> um_per_s v" "um_per_s v \<le> 266667" by simp_all
  then show "\<bar>um_per_s (go_v_cmd_mm_min (servo_step c s inp))\<bar> \<le> 266667"
    by (simp add: v_def)
  have "sint (word_of_int (um_per_s v) :: i32) = um_per_s v"
    by (rule sint_word_of_int32) (use r in simp_all)
  then show "sint (go_v_s_um_s (servo_step c s inp)) = um_per_s (go_v_cmd_mm_min (servo_step c s inp))"
    by (simp add: servo_step_proj(4) um_per_s_def v_def)
qed

lemma tick_report_velocity:
  "rp_v_cmd_um_s (ctl_report (tick_report ops tv out c)) =
     (case out of None \<Rightarrow> 0 | Some x \<Rightarrow> go_v_s_um_s x)"
  "rp_wire_break_sev (ctl_report (tick_report ops tv out c)) = ctl_wire_break_sev c"
  "rp_controller_state (ctl_report (tick_report ops tv out c)) = edm_state_code (ctl_state c)"
  "rp_feed_cap_pct (ctl_report (tick_report ops tv out c)) =
     word_of_int (trunc (fadd (fmul (ctl_feed_cap_mult c) 100) (1 / 2)))"
  by (simp_all add: tick_report_def Let_def split: option.split)

lemma buildInput_cap [simp]:
  "gi_feed_cap_mult (buildInput s fresh c) = ctl_feed_cap_mult c"
  "gi_in_touch_off (buildInput s fresh c) \<longleftrightarrow> ctl_state c = StTouchOff"
  "gi_force_break_relief (buildInput s fresh c) \<longleftrightarrow> ctl_state c = StBreakRelief"
  by (simp_all add: buildInput_def Let_def)

text \<open>The input of the servo step in a tick, and its output.\<close>

definition servo_input :: "tick_locals \<Rightarrow> ('l, 'd) edm_controller \<Rightarrow> gap_servo_input" where
  "servo_input tv c =
     (let inp = buildInput (tl_s tv) (tl_fresh tv) c
      in if tl_stale_hold tv then inp\<lparr>gi_valid := False\<rparr> else inp)"

lemma tick_servo_output:
  "fst (tick_servo ops tv c) =
     (if active_state (ctl_state c)
      then Some (servo_step (ctl_servo_cfg c) (ctl_ss c) (servo_input tv c)) else None)"
  by (simp add: tick_servo_def servo_input_def Let_def)

lemma servo_input_cap [simp]:
  "gi_feed_cap_mult (servo_input tv c) = ctl_feed_cap_mult c"
  "gi_in_touch_off (servo_input tv c) \<longleftrightarrow> ctl_state c = StTouchOff"
  "gi_force_break_relief (servo_input tv c) \<longleftrightarrow> ctl_state c = StBreakRelief"
  by (simp_all add: servo_input_def Let_def)

lemma tick_velocity:
  defines "v ops dops now_ms c \<equiv> sint (rp_v_cmd_um_s (ctl_report (tick ops dops now_ms c)))"
  assumes cfg: "servo_limits_ok (ctl_servo_cfg (tick_guarded ops dops now_ms c))"
  shows "v ops dops now_ms c =
    (if active_state (ctl_state (tick_guarded ops dops now_ms c)) then
       um_per_s (go_v_cmd_mm_min (servo_step (ctl_servo_cfg (tick_guarded ops dops now_ms c))
         (ctl_ss (tick_guarded ops dops now_ms c))
         (servo_input (tick_view ops dops now_ms c) (tick_guarded ops dops now_ms c))))
     else 0)"
  using servo_velocity_int(1) [OF cfg]
  by (simp add: v_def tick_split Let_def tick_report_velocity tick_servo_output)

lemma guards_cfg [simp]: "ctl_servo_cfg (tick_guards ops tv c) = ctl_servo_cfg c"
proof -
  have "ctl_servo_cfg (tick_health ops tv d) = ctl_servo_cfg d"
    "ctl_servo_cfg (tick_diel_loss ops tv d) = ctl_servo_cfg d"
    "ctl_servo_cfg (tick_relief d) = ctl_servo_cfg d"
    "ctl_servo_cfg (tick_sev_clear ops d) = ctl_servo_cfg d" for d :: "('a, 'b) edm_controller"
    by (simp_all add: tick_health_def tick_diel_loss_def tick_relief_def tick_sev_clear_def Let_def)
  moreover have "ctl_servo_cfg (tick_armed ops tv d) = ctl_servo_cfg d" for d :: "('a, 'b) edm_controller"
    by (simp add: tick_armed_def Let_def)
  ultimately show ?thesis by (simp only: tick_guards_def tick_diel_report_simps)
qed

lemma tick_guarded_cfg [simp]: "ctl_servo_cfg (tick_guarded ops dops now_ms c) = ctl_servo_cfg c"
  by (simp add: tick_guarded_def tick_gathered_def)

text \<open>While a critical break is active, the reported velocity is never an advance.\<close>

lemma tick_no_advance_in_break:
  assumes cap: "cap_inv c" and cfg: "servo_limits_ok (ctl_servo_cfg c)"
    and sev: "3 \<le> rp_wire_break_sev (ctl_report (tick ops dops now_ms c))"
  shows "sint (rp_v_cmd_um_s (ctl_report (tick ops dops now_ms c))) \<le> 0"
proof -
  define g where "g = tick_guarded ops dops now_ms c"
  define tv where "tv = tick_view ops dops now_ms c"
  have "cap_inv (tick_drained ops now_ms c)"
    unfolding tick_drained_def drainEvents_def
    by (rule drain_loop_cap) (use cap in \<open>simp add: cap_inv_def\<close>)
  then have "cap_inv (tick_gathered ops dops now_ms c)"
    by (simp add: cap_inv_def tick_gathered_def)
  then have gi: "cap_inv g" unfolding g_def tick_guarded_def by (rule tick_guards_cap)
  have "ctl_wire_break_sev (snd (tick_servo ops tv g)) = ctl_wire_break_sev g"
    using same_cap_servo [of g ops tv] by (simp add: same_cap_def)
  with sev have "3 \<le> ctl_wire_break_sev g"
    by (simp add: tick_split Let_def tick_report_velocity tv_def g_def)
  with gi have zero: "ctl_feed_cap_mult g = 0" by (simp add: cap_inv_def cap_for_def)
  have "go_v_cmd_mm_min (servo_step (ctl_servo_cfg g) (ctl_ss g) (servo_input tv g)) \<le> 0"
    using cap_velocity_zero_cap [of "ctl_servo_cfg g"] cfg zero
    by (simp add: servo_step_proj servo_limits_ok_def g_def)
  then have "um_per_s (go_v_cmd_mm_min (servo_step (ctl_servo_cfg g) (ctl_ss g) (servo_input tv g)))
      \<le> um_per_s 0" by (rule um_per_s_mono)
  then show ?thesis
    using tick_velocity [of ops dops now_ms c] cfg by (simp add: g_def tv_def)
qed

text \<open>A controller that is stopped, faulted or armed commands no motion.\<close>

lemma tick_inactive_velocity:
  "\<not> active_state (ctl_state (tick_guarded ops dops now_ms c)) \<Longrightarrow>
     rp_v_cmd_um_s (ctl_report (tick ops dops now_ms c)) = 0"
  by (simp add: tick_split Let_def tick_report_velocity tick_servo_output)

subsection \<open>Sending mode bounds\<close>

text \<open>What was last sent is what the table prescribes for the mode; sending again is a no-op.\<close>

lemma maybeSend_last_sent:
  "(ctl_last_sent (maybeSendModeBounds ops c))\<lparr>smb_seq := 0\<rparr>
     = (build (ctl_modes c) (ctl_mode c) (ctl_s_word c) 0)\<lparr>smb_seq := 0\<rparr>"
  by (auto simp: maybeSendModeBounds_def Let_def)

lemma maybeSend_idem: "maybeSendModeBounds ops (maybeSendModeBounds ops c) = maybeSendModeBounds ops c"
proof -
  define d where "d = maybeSendModeBounds ops c"
  have m: "ctl_modes d = ctl_modes c" "ctl_mode d = ctl_mode c" "ctl_s_word d = ctl_s_word c"
    "ctl_have_sent d"
    by (simp_all add: d_def maybeSendModeBounds_def Let_def)
  have "(ctl_last_sent d)\<lparr>smb_seq := 0\<rparr> = (build (ctl_modes d) (ctl_mode d) (ctl_s_word d) 0)\<lparr>smb_seq := 0\<rparr>"
    unfolding m unfolding d_def by (rule maybeSend_last_sent)
  then have "maybeSendModeBounds ops d = d" using m(4) by (simp add: maybeSendModeBounds_def Let_def)
  then show ?thesis by (simp add: d_def)
qed

text \<open>
  Over CAN: the frame that arming puts on the bus is the table's entry for the commanded
  S word, with the link's own sequence number.
\<close>

lemma can_requestCut_frame:
  assumes "ctl_state c \<noteq> StFault" "ctl_state c \<noteq> StStallFault" "s \<noteq> 0" "\<not> ctl_have_sent c"
  shows "cpl_sent (ctl_link (requestCut can_psu_ops s c)) = cpl_sent (ctl_link c) @
    [encodeSetModeBounds ((build (ctl_modes c) (modeForSword (ctl_modes c) s) s 0)
       \<lparr>smb_seq := cpl_seq (ctl_link c)\<rparr>)]"
    and "ctl_state (requestCut can_psu_ops s c) = StArmed"
  using assms
  by (simp_all add: requestCut_def Let_def modeForSword_idle_iff maybeSendModeBounds_def can_psu_ops_def
      can_setModeBounds_def bus_send_def)

subsection \<open>Starting a cut\<close>

text \<open>The health check of a tick passes exactly on a healthy supply.\<close>

lemma tick_health_ok:
  fixes c :: "('l, 'd) edm_controller"
  assumes none: "po_popEvent ops (ctl_link c) = None"
    and "psu_healthy ops (ctl_t c) (ctl_have_window (tick_gathered ops dops now_ms c))
      (telemetry_age (tick_gathered ops dops now_ms c)) (ctl_link c)"
  shows "tick_health ops (tick_view ops dops now_ms c)
      (tick_diel_report (tick_view ops dops now_ms c) (tick_gathered ops dops now_ms c))
    = tick_diel_report (tick_view ops dops now_ms c) (tick_gathered ops dops now_ms c)"
proof -
  have d: "ctl_link (tick_drained ops now_ms c) = ctl_link c"
    using tick_drained_none [OF none] by simp
  show ?thesis
    using assms(2) tick_view_stale [of ops dops now_ms c] tick_view_stats [of ops dops now_ms c]
    by (auto simp: tick_health_def psu_healthy_def tick_view_simps d not_less split: option.splits)
qed

lemma servo_touchoff_link:
  "\<not> ct_touchoff_budget (ctl_t c) < ctl_now c - ctl_touchoff_start c \<Longrightarrow>
     ctl_link (servo_touchoff ops inp c) = ctl_link c"
  by (simp add: servo_touchoff_def Let_def)

lemma tick_sev_clear_touchoff_link:
  "ctl_wire_break_sev c = 0 \<Longrightarrow> tick_sev_clear ops c = c"
  by (simp add: tick_sev_clear_def)

context psu_link
begin

text \<open>A permitted controller with a healthy supply and no events switches the spark on in this tick.\<close>

lemma tick_starts:
  fixes c :: "('l, 'd) edm_controller"
  assumes inv: "spark_safe spark linv c" and none: "po_popEvent ops (ctl_link c) = None"
    and perm: "cut_permitted ops dops c"
    and healthy: "psu_healthy ops (ctl_t c) (ctl_have_window (tick_gathered ops dops now_ms c))
      (telemetry_age (tick_gathered ops dops now_ms c)) (ctl_link c)"
  shows "spark (ctl_link (tick ops dops now_ms c))" "ctl_state (tick ops dops now_ms c) = StTouchOff"
proof -
  define tv where "tv = tick_view ops dops now_ms c"
  define r where "r = tick_diel_report tv (tick_gathered ops dops now_ms c)"
  have d: "tick_drained ops now_ms c = c\<lparr>ctl_now := now_ms\<rparr>"
    by (rule tick_drained_none [OF none])
  have r: "ctl_state r = StArmed" "\<not> ctl_arm_fresh r" "ctl_link r = ctl_link c"
    "ctl_t r = ctl_t c"
    using perm by (simp_all add: r_def tick_gathered_def d cut_permitted_def tick_diel_report_def Let_def)
  have h: "tick_health ops tv r = r"
    unfolding r_def tv_def by (rule tick_health_ok [OF none healthy])
  have l: "tick_diel_loss ops tv r = r" using r by (simp add: tick_diel_loss_def)
  define a where "a = tick_armed ops tv r"
  have a: "ctl_state a = StTouchOff" "ctl_link a = po_startCut ops (ctl_link c)" "fresh_touchoff a"
    "ctl_t a = ctl_t c"
    using perm r
    by (simp_all add: a_def tick_armed_def tv_def tick_view_simps tick_view_dielOk d cut_permitted_def
        Let_def fresh_touchoff_def)
  define g where "g = tick_guarded ops dops now_ms c"
  have g: "g = tick_sev_clear ops a"
    using a(1) by (simp add: g_def tick_guarded_def tick_guards_def a_def h l tick_relief_def
        flip: tv_def r_def)
  have st: "ctl_state g = StTouchOff" "fresh_touchoff g"
    using a(1,3) by (simp_all add: g fresh_touchoff_def)
  show "ctl_state (tick ops dops now_ms c) = StTouchOff"
    using tick_servo_fresh [OF st] by (simp add: tick_state flip: g_def tv_def)
  have lc: "linv (ctl_link c)" using inv by (simp add: spark_safe_def)
  then have "linv (ctl_link a) \<and> spark (ctl_link a)"
    using command_linv start_spark by (simp add: a(2))
  then have sg: "spark (ctl_link g)"
    by (simp add: g tick_sev_clear_def Let_def maybeSendModeBounds_def bounds_spark)
  have "ctl_link (snd (tick_servo ops tv g)) = ctl_link g"
    using st by (simp add: tick_servo_def active_state_def Let_def servo_touchoff_link fresh_touchoff_def)
  with sg show "spark (ctl_link (tick ops dops now_ms c))"
    by (simp add: tick_state flip: g_def tv_def)
qed

end

text \<open>The settling tick after arming changes nothing but the flag, the clock and the report.\<close>

lemma tick_settles:
  fixes c :: "('l, 'd) edm_controller"
  assumes none: "po_popEvent ops (ctl_link c) = None" and "ctl_state c = StArmed" "ctl_arm_fresh c"
    and "ctl_wire_break_sev c = 0" "po_protocolCompatible ops (ctl_link c)"
    and healthy: "psu_healthy ops (ctl_t c) (ctl_have_window (tick_gathered ops dops now_ms c))
      (telemetry_age (tick_gathered ops dops now_ms c)) (ctl_link c)"
  shows "ctl_state (tick ops dops now_ms c) = StArmed" "\<not> ctl_arm_fresh (tick ops dops now_ms c)"
    "ctl_link (tick ops dops now_ms c) = ctl_link c"
    "ctl_diel (tick ops dops now_ms c) = ctl_diel c"
    "ctl_dielCfg (tick ops dops now_ms c) = ctl_dielCfg c"
proof -
  define tv where "tv = tick_view ops dops now_ms c"
  define r where "r = tick_diel_report tv (tick_gathered ops dops now_ms c)"
  have d: "tick_drained ops now_ms c = c\<lparr>ctl_now := now_ms\<rparr>"
    by (rule tick_drained_none [OF none])
  have r: "ctl_state r = StArmed" "ctl_arm_fresh r" "ctl_link r = ctl_link c"
    "ctl_wire_break_sev r = 0" "ctl_diel r = ctl_diel c" "ctl_dielCfg r = ctl_dielCfg c"
    using assms by (simp_all add: r_def tick_gathered_def d tick_diel_report_def Let_def)
  have "tick_health ops tv r = r"
    unfolding r_def tv_def by (rule tick_health_ok [OF none healthy])
  moreover have "tick_diel_loss ops tv r = r" using r(1) by (simp add: tick_diel_loss_def)
  moreover have "tl_proto tv" using assms(5) by (simp add: tv_def tick_view_simps d)
  then have "tick_armed ops tv r = r\<lparr>ctl_arm_fresh := False\<rparr>"
    using r(1,2) by (simp add: tick_armed_def)
  moreover have "tick_sev_clear ops (tick_relief (r\<lparr>ctl_arm_fresh := False\<rparr>)) = r\<lparr>ctl_arm_fresh := False\<rparr>"
    using r(1,4) by (simp add: tick_relief_def tick_sev_clear_def)
  ultimately have "tick_guarded ops dops now_ms c = r\<lparr>ctl_arm_fresh := False\<rparr>"
    by (simp only: tick_guarded_def tick_guards_def tv_def r_def)
  then show "ctl_state (tick ops dops now_ms c) = StArmed" "\<not> ctl_arm_fresh (tick ops dops now_ms c)"
    "ctl_link (tick ops dops now_ms c) = ctl_link c"
    "ctl_diel (tick ops dops now_ms c) = ctl_diel c"
    "ctl_dielCfg (tick ops dops now_ms c) = ctl_dielCfg c"
    using r by (simp_all add: tick_split Let_def tick_servo_inactive active_state_def tick_report_def)
qed

text \<open>The escape from a latched fault, over CAN: the queue holds one critical wire break.\<close>

lemma drain_one_break:
  assumes "cpl_events (ctl_link c) = [EvWireBreak w]"
  shows "drainEvents can_psu_ops c =
    on_wire_break can_psu_ops w (c\<lparr>ctl_link := (ctl_link c)\<lparr>cpl_events := []\<rparr>\<rparr>)"
proof -
  define d where "d = on_wire_break can_psu_ops w (c\<lparr>ctl_link := (ctl_link c)\<lparr>cpl_events := []\<rparr>\<rparr>)"
  have link: "cpl_events (ctl_link (maybeSendModeBounds can_psu_ops e)) = cpl_events (ctl_link e)"
    for e :: "(can_psu_link, 'a) edm_controller"
    by (simp add: maybeSendModeBounds_def Let_def can_psu_ops_sel can_setModeBounds_def)
  have "cpl_events (ctl_link d) = []"
    by (simp add: d_def on_wire_break_def break_response_def Let_def link)
  then have "po_popEvent can_psu_ops (ctl_link d) = None"
    by (simp add: can_psu_ops_sel can_popEvent_def deque_pop_def)
  then have rest: "drain_loop can_psu_ops (Suc 6) d = d"
    by (simp only: drain_loop.simps option.case)
  have "drain_loop can_psu_ops (Suc 7) c = drain_loop can_psu_ops 7 d"
    unfolding drain_loop.simps using assms
    by (simp add: can_psu_ops_sel can_popEvent_def deque_pop_def d_def Let_def)
  then show ?thesis using rest by (simp add: drainEvents_def eval_nat_numeral d_def)
qed

lemma drain_critical_break:
  assumes "cpl_events (ctl_link c) = [EvWireBreak w]" "3 \<le> wb_severity w"
  shows "ctl_state (drainEvents can_psu_ops c) = StBreakRelief"
  using on_wire_break_critical [OF assms(2)] by (simp add: drain_one_break [OF assms(1)])

text \<open>The severity the tick reports: the drained one, unless its time is over.\<close>

lemma tick_reported_severity:
  "rp_wire_break_sev (ctl_report (tick ops dops now_ms c)) =
     (if ctl_sev_clear_after (tick_drained ops now_ms c) \<le> now_ms then 0
      else ctl_wire_break_sev (tick_drained ops now_ms c))"
proof -
  define g where "g = tick_gathered ops dops now_ms c"
  define tv where "tv = tick_view ops dops now_ms c"
  have f: "(ctl_wire_break_sev d', ctl_sev_clear_after d', ctl_now d')
        = (ctl_wire_break_sev d, ctl_sev_clear_after d, ctl_now d)"
    if "d' \<in> {tick_diel_report tv d, tick_health ops tv d, tick_diel_loss ops tv d,
        tick_armed ops tv d, tick_relief d}" for d d' :: "('a, 'b) edm_controller"
    using that by (auto simp: tick_diel_report_def tick_health_def tick_diel_loss_def tick_armed_def
        tick_relief_def enterFault_def Let_def)
  define a where "a = tick_relief (tick_armed ops tv (tick_diel_loss ops tv (tick_health ops tv
      (tick_diel_report tv g))))"
  have a: "(ctl_wire_break_sev a, ctl_sev_clear_after a, ctl_now a)
      = (ctl_wire_break_sev g, ctl_sev_clear_after g, ctl_now g)"
    unfolding a_def using f by (metis (no_types) insertI1 insertI2)
  have "ctl_wire_break_sev (tick_guarded ops dops now_ms c) =
      (if ctl_sev_clear_after g \<le> ctl_now g then 0 else ctl_wire_break_sev g)"
    using a by (auto simp: tick_guarded_def tick_guards_def a_def [symmetric] tick_sev_clear_def Let_def
        word_gt_0 simp flip: g_def tv_def)
  moreover have "rp_wire_break_sev (ctl_report (tick ops dops now_ms c))
      = ctl_wire_break_sev (tick_guarded ops dops now_ms c)"
    using same_cap_servo [of "tick_guarded ops dops now_ms c" ops tv]
    by (simp add: tick_split Let_def tick_report_velocity same_cap_def tv_def)
  moreover have "ctl_sev_clear_after g = ctl_sev_clear_after (tick_drained ops now_ms c)"
    by (simp add: g_def tick_gathered_def tick_telemetry_def Let_def)
  ultimately show ?thesis by (simp add: g_def tick_gathered_def)
qed

lemma servo_limits_ok_default: "servo_limits_ok servo_config_default"
  using wf_servo_config_default by (simp add: servo_limits_ok_def servo_config_default_def)

subsection \<open>The drain loop returns within its budget\<close>

text \<open>What a drain with a budget leaves: events are consumed in order, up to and with a fault.\<close>

fun undrained :: "nat \<Rightarrow> psu_event list \<Rightarrow> psu_event list" where
  "undrained 0 es = es"
| "undrained (Suc n) [] = []"
| "undrained (Suc n) (EvFault f # es) = es"
| "undrained (Suc n) (EvWireBreak w # es) = undrained n es"
| "undrained (Suc n) (EvArcBurst b # es) = undrained n es"
| "undrained (Suc n) (EvInfo i # es) = undrained n es"

lemma undrained_length:
  "length (undrained n es) \<le> length es"
  "0 < n \<Longrightarrow> es \<noteq> [] \<Longrightarrow> length (undrained n es) < length es"
  by (induction n es rule: undrained.induct) auto

lemma undrained_no_fault:
  "(\<And>f. EvFault f \<notin> set (take n es)) \<Longrightarrow> undrained n es = drop n es"
  by (induction n es rule: undrained.induct) auto

context psu_link
begin

lemma break_pending:
  assumes "linv (ctl_link c)"
  shows "linv (ctl_link (on_wire_break ops w c))"
    "pending (ctl_link (on_wire_break ops w c)) = pending (ctl_link c)"
proof -
  have m: "linv (ctl_link (maybeSendModeBounds ops c)) \<and>
      pending (ctl_link (maybeSendModeBounds ops c)) = pending (ctl_link c)"
    if "linv (ctl_link c)" for c
    using command_linv [OF that] command_pending [OF that] that
    by (simp add: maybeSendModeBounds_def Let_def)
  show "linv (ctl_link (on_wire_break ops w c))"
    "pending (ctl_link (on_wire_break ops w c)) = pending (ctl_link c)"
    using assms by (simp_all add: on_wire_break_def break_response_def Let_def m)
qed

lemma drain_pending:
  fixes c :: "('l, 'b) edm_controller"
  assumes "linv (ctl_link c)"
  shows "pending (ctl_link (drain_loop ops n c)) = undrained n (pending (ctl_link c))"
  using assms
proof (induction n arbitrary: c)
  case 0
  then show ?case by simp
next
  case (Suc n)
  show ?case
  proof (cases "pending (ctl_link c)")
    case Nil
    with Suc.prems show ?thesis by (simp add: pop_None)
  next
    case (Cons e es)
    from pop_Some [OF Suc.prems Cons] obtain l' where
      l': "po_popEvent ops (ctl_link c) = Some (e, l')" "pending l' = es" "linv l'" by blast
    have sub: "pending (ctl_link (drain_loop ops n d)) = undrained n es"
      if "linv (ctl_link d)" "pending (ctl_link d) = es" for d :: "('l, 'b) edm_controller"
      using Suc.IH [OF that(1)] that(2) by simp
    show ?thesis
      using l' command_pending [of l'] break_pending [of "c\<lparr>ctl_link := l'\<rparr>"]
      by (cases e) (simp_all add: Cons sub enterFault_def Let_def)
  qed
qed

end

end
