(* ===== verification/WireFeed.thy ===== *)
theory WireFeed
  imports Tension Hx711 StepGen ControllerBehaviour
begin

text \<open>
  The wire-feed facade (\<^verbatim>\<open>EDM/Feed/WireFeed.h\<close>, \<^verbatim>\<open>WireFeed.cpp\<close>) and the task that
  calls it. The nullable configuration sections and the load cell are options. One tick
  gets the level of the converter's data pin, the levels of the next burst and, when a
  controller is attached, the three values of its report that the code reads.
\<close>

subsection \<open>Configuration\<close>

record motor_cfg =
  mc_steps_per_mm :: real
  mc_default_feed_mm_min :: real
  mc_min_sps :: real
  mc_max_sps :: real
  mc_hold_sps :: real

definition motor_cfg_default :: motor_cfg where
  "motor_cfg_default = \<lparr>mc_steps_per_mm = 100, mc_default_feed_mm_min = 60, mc_min_sps = 0,
     mc_max_sps = 4000, mc_hold_sps = 200\<rparr>"

record tension_ctrl_cfg =
  tk_ff_ratio :: real
  tk_setpoint_N :: real
  tk_kp :: real
  tk_ki :: real
  tk_alpha :: real
  tk_deadband_N :: real
  tk_pi_clamp_sps :: real
  tk_integ_bleed :: real

definition tension_ctrl_cfg_default :: tension_ctrl_cfg where
  "tension_ctrl_cfg_default = \<lparr>tk_ff_ratio = 1, tk_setpoint_N = 5, tk_kp = 40, tk_ki = 8,
     tk_alpha = f32 0.30, tk_deadband_N = 1 / 4, tk_pi_clamp_sps = 400, tk_integ_bleed = 1 / 2\<rparr>"

record collapse_cfg =
  cc_threshold_N :: real
  cc_frac :: real
  cc_loaded_frac :: real
  cc_loaded_recent_ms :: u32
  cc_debounce_ms :: u32

definition collapse_cfg_default :: collapse_cfg where
  "collapse_cfg_default = \<lparr>cc_threshold_N = 1 / 2, cc_frac = f32 0.20, cc_loaded_frac = 1 / 2,
     cc_loaded_recent_ms = 200, cc_debounce_ms = 30\<rparr>"

record wire_feed_config =
  wc_feed_motor :: "motor_cfg option"
  wc_tension_motor :: "motor_cfg option"
  wc_tension_control :: "tension_ctrl_cfg option"
  wc_collapse :: "collapse_cfg option"
  wc_load_cell :: "hx711 option"
  wc_sev_tension_scale :: "real list"

text \<open>One block of \<open>buildTensionConfig\<close> per section.\<close>

definition apply_feed_motor :: "motor_cfg option \<Rightarrow> tension_config \<Rightarrow> tension_config" where
  "apply_feed_motor m tc = (case m of None \<Rightarrow> tc | Some m \<Rightarrow>
     tc\<lparr>tc_feed_steps_per_mm := mc_steps_per_mm m, tc_default_feed_mm_min := mc_default_feed_mm_min m,
        tc_feed_max_sps := mc_max_sps m\<rparr>)"

definition apply_tension_motor :: "motor_cfg option \<Rightarrow> tension_config \<Rightarrow> tension_config" where
  "apply_tension_motor m tc = (case m of None \<Rightarrow> tc | Some m \<Rightarrow>
     tc\<lparr>tc_tension_min_sps := mc_min_sps m, tc_tension_max_sps := mc_max_sps m,
        tc_tension_hold_sps := mc_hold_sps m\<rparr>)"

definition apply_tension_control :: "tension_ctrl_cfg option \<Rightarrow> tension_config \<Rightarrow> tension_config" where
  "apply_tension_control k tc = (case k of None \<Rightarrow> tc | Some k \<Rightarrow>
     tc\<lparr>tc_ff_ratio := tk_ff_ratio k, tc_setpoint_N := tk_setpoint_N k, tc_Kp := tk_kp k,
        tc_Ki := tk_ki k, tc_tens_alpha := tk_alpha k, tc_tens_deadband_N := tk_deadband_N k,
        tc_pi_clamp_sps := tk_pi_clamp_sps k, tc_integ_bleed := tk_integ_bleed k\<rparr>)"

definition apply_collapse :: "collapse_cfg option \<Rightarrow> tension_config \<Rightarrow> tension_config" where
  "apply_collapse k tc = (case k of None \<Rightarrow> tc | Some k \<Rightarrow>
     tc\<lparr>tc_collapse_N := cc_threshold_N k, tc_collapse_frac := cc_frac k,
        tc_loaded_frac := cc_loaded_frac k, tc_loaded_recent_ms := cc_loaded_recent_ms k,
        tc_collapse_ms := cc_debounce_ms k\<rparr>)"

definition apply_sev_scale :: "real list \<Rightarrow> tension_config \<Rightarrow> tension_config" where
  "apply_sev_scale xs tc = (if length xs = 4 then tc\<lparr>tc_sev_tension_scale := xs\<rparr> else tc)"

definition buildTensionConfig :: "wire_feed_config \<Rightarrow> tension_config" where
  "buildTensionConfig cfg =
     apply_sev_scale (wc_sev_tension_scale cfg)
       (apply_collapse (wc_collapse cfg)
         (apply_tension_control (wc_tension_control cfg)
           (apply_tension_motor (wc_tension_motor cfg)
             (apply_feed_motor (wc_feed_motor cfg) tension_config_default))))"

subsection \<open>The facade\<close>

record wire_feed =
  wf_controller :: tension_config
  wf_state :: tension_state
  wf_hx711 :: "hx711 option"
  wf_feedGen :: step_gen
  wf_tensionGen :: step_gen
  wf_last_ms :: u32
  wf_last_raw :: i32
  wf_last_N :: real

definition wire_feed_new :: wire_feed where
  "wire_feed_new = \<lparr>wf_controller = tension_config_default, wf_state = tension_reset,
     wf_hx711 = None, wf_feedGen = step_gen_new, wf_tensionGen = step_gen_new,
     wf_last_ms = 0, wf_last_raw = 0, wf_last_N = 0\<rparr>"

definition wire_feed_begin :: "wire_feed_config \<Rightarrow> u32 \<Rightarrow> wire_feed \<Rightarrow> wire_feed" where
  "wire_feed_begin cfg now_ms w =
     w\<lparr>wf_controller := buildTensionConfig cfg, wf_state := tension_reset,
       wf_hx711 := map_option hx711_begin (wc_load_cell cfg),
       wf_feedGen := (case wc_feed_motor cfg of None \<Rightarrow> wf_feedGen w
                      | Some _ \<Rightarrow> step_gen_begin 2 (wf_feedGen w)),
       wf_tensionGen := (case wc_tension_motor cfg of None \<Rightarrow> wf_tensionGen w
                         | Some _ \<Rightarrow> step_gen_begin 3 (wf_tensionGen w)),
       wf_last_ms := now_ms\<rparr>"

definition resetCollapse :: "wire_feed \<Rightarrow> wire_feed" where
  "resetCollapse w = w\<lparr>wf_state := tension_reset\<rparr>"

definition tensionCollapsed :: "wire_feed \<Rightarrow> bool" where
  "tensionCollapsed w = ts_collapse_latched (wf_state w)"

definition setTensionSetpointN :: "real \<Rightarrow> wire_feed \<Rightarrow> wire_feed" where
  "setTensionSetpointN n w = w\<lparr>wf_controller := setSetpointN n (wf_controller w)\<rparr>"

text \<open>What the facade reads of the controller's report.\<close>

record feed_view =
  fv_cap :: u8
  fv_sev :: u8
  fv_state :: u8

definition feed_view_of :: "('l, 'd) edm_controller \<Rightarrow> feed_view" where
  "feed_view_of c = \<lparr>fv_cap = rp_feed_cap_pct (ctl_report c),
     fv_sev = rp_wire_break_sev (ctl_report c), fv_state = rp_controller_state (ctl_report c)\<rparr>"

definition feed_view_none :: feed_view where
  "feed_view_none = \<lparr>fv_cap = 100, fv_sev = 0, fv_state = edm_state_code StIdle\<rparr>"

definition feed_cutting :: "feed_view \<Rightarrow> bool" where
  "feed_cutting v \<longleftrightarrow> fv_state v \<in> {edm_state_code StCutting, edm_state_code StTouchOff,
     edm_state_code StHold, edm_state_code StBreakRelief}"

definition sample_cell :: "bool \<Rightarrow> (nat \<Rightarrow> bool) \<Rightarrow> wire_feed \<Rightarrow> bool \<times> wire_feed" where
  "sample_cell dout_level dout w =
     (case wf_hx711 w of None \<Rightarrow> (False, w)
      | Some h \<Rightarrow>
          if dataReady dout_level
          then let (raw, h) = readRaw h dout
               in (True, w\<lparr>wf_hx711 := Some h, wf_last_raw := raw,
                           wf_last_N := toNewtons (hx_cal h) raw\<rparr>)
          else (False, w))"

definition feed_input :: "bool \<Rightarrow> feed_view \<Rightarrow> u32 \<Rightarrow> wire_feed \<Rightarrow> tension_input" where
  "feed_input fresh v now_ms w =
     \<lparr>ti_measured_N = wf_last_N w, ti_meas_valid = fresh,
      ti_feed_cap_mult = fdiv (fint (uint (fv_cap v))) 100, ti_severity = fv_sev v,
      ti_cutting = feed_cutting v, ti_commanded_feed_mm_min = - 1,
      ti_dt_ms = now_ms - wf_last_ms w\<rparr>"

definition drive_feed :: "feed_view \<Rightarrow> tension_output \<Rightarrow> step_gen \<Rightarrow> step_gen" where
  "drive_feed v out g =
     (if 3 \<le> fv_sev v \<or> to_tension_collapse out then step_gen_enable False g
      else if feed_cutting v then step_gen_enable True g else g)"

definition wire_feed_tick ::
    "feed_view option \<Rightarrow> bool \<Rightarrow> (nat \<Rightarrow> bool) \<Rightarrow> u32 \<Rightarrow> wire_feed \<Rightarrow> wire_feed" where
  "wire_feed_tick ctl dout_level dout now_ms w =
     (let (fresh, w) = sample_cell dout_level dout w;
          v = (case ctl of None \<Rightarrow> feed_view_none | Some v \<Rightarrow> v);
          out = tension_step (wf_controller w) (wf_state w) (feed_input fresh v now_ms w)
      in w\<lparr>wf_last_ms := now_ms, wf_state := to_next out,
           wf_feedGen := drive_feed v out (setRate (to_feed_steps_per_s out) (wf_feedGen w)),
           wf_tensionGen := setRate (to_tension_steps_per_s out) (wf_tensionGen w)\<rparr>)"

subsection \<open>The configuration the tension controller gets\<close>

lemma buildTensionConfig_sections:
  "tc_feed_max_sps (buildTensionConfig cfg)
     = (case wc_feed_motor cfg of None \<Rightarrow> 4000 | Some m \<Rightarrow> mc_max_sps m)"
  "tc_tension_min_sps (buildTensionConfig cfg)
     = (case wc_tension_motor cfg of None \<Rightarrow> 0 | Some m \<Rightarrow> mc_min_sps m)"
  "tc_tension_max_sps (buildTensionConfig cfg)
     = (case wc_tension_motor cfg of None \<Rightarrow> 4000 | Some m \<Rightarrow> mc_max_sps m)"
  "tc_tension_hold_sps (buildTensionConfig cfg)
     = (case wc_tension_motor cfg of None \<Rightarrow> 200 | Some m \<Rightarrow> mc_hold_sps m)"
  "tc_collapse_ms (buildTensionConfig cfg)
     = (case wc_collapse cfg of None \<Rightarrow> 30 | Some k \<Rightarrow> cc_debounce_ms k)"
  "length (tc_sev_tension_scale (buildTensionConfig cfg)) = 4"
  by (simp_all add: buildTensionConfig_def apply_sev_scale_def apply_collapse_def
      apply_tension_control_def apply_tension_motor_def apply_feed_motor_def
      tension_config_default_def split: option.split)

subsection \<open>The emergency stop of the feed axis\<close>

definition feed_stopped :: "wire_feed \<Rightarrow> bool" where
  "feed_stopped w \<longleftrightarrow> sg_half_period_ticks (wf_feedGen w) = 0 \<and> sg_disable_pin (wf_feedGen w)"

definition view_of :: "feed_view option \<Rightarrow> feed_view" where
  "view_of ctl = (case ctl of None \<Rightarrow> feed_view_none | Some v \<Rightarrow> v)"

lemma setRate_fields [simp]:
  "sg_half_period_ticks (setRate r g) = half_period r"
  "sg_disable_pin (setRate r g) = sg_disable_pin g"
  by (simp_all add: setRate_def Let_def)

lemma sample_cell_same [simp]:
  "wf_state (snd (sample_cell l dout w)) = wf_state w"
  "wf_controller (snd (sample_cell l dout w)) = wf_controller w"
  "wf_feedGen (snd (sample_cell l dout w)) = wf_feedGen w"
  "wf_last_ms (snd (sample_cell l dout w)) = wf_last_ms w"
  by (simp_all add: sample_cell_def Let_def split_beta split: option.split)

text \<open>The output of the tension controller that one tick uses.\<close>

definition feed_output ::
    "feed_view option \<Rightarrow> bool \<Rightarrow> (nat \<Rightarrow> bool) \<Rightarrow> u32 \<Rightarrow> wire_feed \<Rightarrow> tension_output" where
  "feed_output ctl l dout now_ms w =
     (let w' = snd (sample_cell l dout w)
      in tension_step (wf_controller w) (wf_state w)
           (feed_input (fst (sample_cell l dout w)) (view_of ctl) now_ms w'))"

lemma wire_feed_tick_fields:
  "wf_controller (wire_feed_tick ctl l dout now_ms w) = wf_controller w"
  "wf_state (wire_feed_tick ctl l dout now_ms w) = to_next (feed_output ctl l dout now_ms w)"
  "wf_feedGen (wire_feed_tick ctl l dout now_ms w) = drive_feed (view_of ctl)
     (feed_output ctl l dout now_ms w)
     (setRate (to_feed_steps_per_s (feed_output ctl l dout now_ms w)) (wf_feedGen w))"
  "wf_last_ms (wire_feed_tick ctl l dout now_ms w) = now_ms"
  by (simp_all add: wire_feed_tick_def feed_output_def view_of_def Let_def split_beta)

lemma feed_input_fields [simp]:
  "ti_severity (feed_input fresh v now_ms w) = fv_sev v"
  "ti_cutting (feed_input fresh v now_ms w) = feed_cutting v"
  "ti_meas_valid (feed_input fresh v now_ms w) = fresh"
  "ti_dt_ms (feed_input fresh v now_ms w) = now_ms - wf_last_ms w"
  by (simp_all add: feed_input_def)

lemma wire_feed_tick_stop:
  assumes "3 \<le> fv_sev (view_of ctl) \<or> tensionCollapsed (wire_feed_tick ctl l dout now_ms w)"
  shows "feed_stopped (wire_feed_tick ctl l dout now_ms w)"
proof -
  define out where "out = feed_output ctl l dout now_ms w"
  have stop: "3 \<le> fv_sev (view_of ctl) \<or> to_tension_collapse out"
    using assms by (auto simp: tensionCollapsed_def wire_feed_tick_fields out_def feed_output_def Let_def)
  then have "to_feed_steps_per_s out = 0"
    unfolding out_def feed_output_def Let_def by (intro tension_step_stop(1)) simp
  then show ?thesis using stop
    by (simp add: feed_stopped_def wire_feed_tick_fields drive_feed_def step_gen_enable_def
        flip: out_def)
qed

lemma wire_feed_tick_collapsed:
  "tensionCollapsed w \<Longrightarrow> tensionCollapsed (wire_feed_tick ctl l dout now_ms w)"
  by (simp add: tensionCollapsed_def wire_feed_tick_fields feed_output_def Let_def tension_step_latched)

lemma wire_feed_tick_rate:
  assumes "wf_tension_config (wf_controller w)"
  shows "\<exists>r :: i32. 0 \<le> sint r \<and> sint r \<le> lround (tc_feed_max_sps (wf_controller w))
    \<and> sg_half_period_ticks (wf_feedGen (wire_feed_tick ctl l dout now_ms w)) = half_period r
    \<and> (\<not> feed_cutting (view_of ctl) \<longrightarrow> r = 0)"
proof (intro exI conjI impI)
  let ?r = "to_feed_steps_per_s (feed_output ctl l dout now_ms w)"
  show "0 \<le> sint ?r" "sint ?r \<le> lround (tc_feed_max_sps (wf_controller w))"
    using tension_step_feed_bounds [OF assms] by (simp_all add: feed_output_def Let_def)
  show "sg_half_period_ticks (wf_feedGen (wire_feed_tick ctl l dout now_ms w)) = half_period ?r"
    by (simp add: wire_feed_tick_fields drive_feed_def step_gen_enable_def)
  show "?r = 0" if "\<not> feed_cutting (view_of ctl)"
    using tension_step_idle [OF _ assms] that by (simp add: feed_output_def Let_def)
qed

subsection \<open>The task: any number of ticks\<close>

record feed_tick =
  ft_ctl :: "feed_view option"
  ft_level :: bool
  ft_dout :: "nat \<Rightarrow> bool"
  ft_now :: u32

text \<open>\<open>wireFeedLoop\<close> ticks with the current time, forever; \<open>feed_loop\<close> is a prefix of it.\<close>

fun feed_loop :: "feed_tick list \<Rightarrow> wire_feed \<Rightarrow> wire_feed" where
  "feed_loop [] w = w"
| "feed_loop (t # ts) w =
     feed_loop ts (wire_feed_tick (ft_ctl t) (ft_level t) (ft_dout t) (ft_now t) w)"

lemma feed_loop_collapsed:
  assumes "tensionCollapsed w"
  shows "tensionCollapsed (feed_loop ts w) \<and> (ts \<noteq> [] \<longrightarrow> feed_stopped (feed_loop ts w))"
  using assms
proof (induction ts arbitrary: w)
  case (Cons t ts)
  let ?w = "wire_feed_tick (ft_ctl t) (ft_level t) (ft_dout t) (ft_now t) w"
  have c: "tensionCollapsed ?w" using Cons.prems by (rule wire_feed_tick_collapsed)
  then have "feed_stopped ?w" by (intro wire_feed_tick_stop) simp
  with Cons.IH [OF c] show ?case by (cases ts) simp_all
qed simp

subsection \<open>With the controller\<close>

lemma on_wire_break_records:
  assumes "3 \<le> wb_severity b"
  shows "3 \<le> ctl_wire_break_sev (on_wire_break ops b c)"
    and "ctl_sev_clear_after (on_wire_break ops b c) = ctl_now c + ct_clear (ctl_t c)"
proof -
  have q: "ctl_wire_break_sev (break_response ops d) = ctl_wire_break_sev d"
    "ctl_sev_clear_after (break_response ops d) = ctl_sev_clear_after d" for d :: "('a, 'b) edm_controller"
    by (simp_all add: break_response_def maybeSendModeBounds_def Let_def)
  have "3 \<le> (if ctl_wire_break_sev c < wb_severity b then wb_severity b else ctl_wire_break_sev c)"
    using assms by (auto simp: not_less intro: order_trans)
  then show "3 \<le> ctl_wire_break_sev (on_wire_break ops b c)"
    "ctl_sev_clear_after (on_wire_break ops b c) = ctl_now c + ct_clear (ctl_t c)"
    by (simp_all add: on_wire_break_def q Let_def split: if_splits)
qed

lemma critical_break_reported:
  assumes "cpl_events (ctl_link c) = [EvWireBreak b]" "3 \<le> wb_severity b"
    and "now_ms < now_ms + ct_clear (ctl_t c)"
  shows "3 \<le> fv_sev (feed_view_of (tick can_psu_ops dops now_ms c))"
proof -
  have ev: "cpl_events (ctl_link (c\<lparr>ctl_now := now_ms\<rparr>)) = [EvWireBreak b]" using assms(1) by simp
  have "tick_drained can_psu_ops now_ms c = on_wire_break can_psu_ops b
      (c\<lparr>ctl_now := now_ms, ctl_link := (ctl_link c)\<lparr>cpl_events := []\<rparr>\<rparr>)"
    unfolding tick_drained_def using drain_one_break [OF ev] by simp
  then show ?thesis
    by (simp add: feed_view_of_def tick_reported_severity not_le assms(3)
        on_wire_break_records [OF assms(2)])
qed

lemma critical_break_stops_feed:
  assumes "cpl_events (ctl_link c) = [EvWireBreak b]" "3 \<le> wb_severity b"
    and "now_ms < now_ms + ct_clear (ctl_t c)"
  shows "feed_stopped (wire_feed_tick (Some (feed_view_of (tick can_psu_ops dops now_ms c)))
    l dout t w)"
  by (rule wire_feed_tick_stop) (simp add: view_of_def critical_break_reported [OF assms])

end
