(* ===== verification/NgcError.thy ===== *)
theory NgcError
  imports Prelude
begin

text \<open>
  The error codes (\<^verbatim>\<open>Error.h\<close>) that the G-code interpreter returns. They are 8-bit numbers
  and not a datatype, because a program can raise any of the 256 codes
  (\<open>O100 ERROR[n]\<close>). A function that returns a code and writes its result through a
  reference has the type \<open>'a reading\<close>: the result with the text that is left, or the code.
\<close>

type_synonym gc_error = u8

definition EOk :: gc_error where [simp]: "EOk = 0"
definition EExpectedCommandLetter :: gc_error where [simp]: "EExpectedCommandLetter = 1"
definition EBadNumberFormat :: gc_error where [simp]: "EBadNumberFormat = 2"
definition ENegativeValue :: gc_error where [simp]: "ENegativeValue = 4"
definition ELineLengthExceeded :: gc_error where [simp]: "ELineLengthExceeded = 14"
definition EInvalidJogCommand :: gc_error where [simp]: "EInvalidJogCommand = 16"
definition EGcodeUnsupportedCommand :: gc_error where [simp]: "EGcodeUnsupportedCommand = 20"
definition EGcodeModalGroupViolation :: gc_error where [simp]: "EGcodeModalGroupViolation = 21"
definition EGcodeUndefinedFeedRate :: gc_error where [simp]: "EGcodeUndefinedFeedRate = 22"
definition EGcodeCommandValueNotInteger :: gc_error where [simp]: "EGcodeCommandValueNotInteger = 23"
definition EGcodeAxisCommandConflict :: gc_error where [simp]: "EGcodeAxisCommandConflict = 24"
definition EGcodeWordRepeated :: gc_error where [simp]: "EGcodeWordRepeated = 25"
definition EGcodeNoAxisWords :: gc_error where [simp]: "EGcodeNoAxisWords = 26"
definition EGcodeInvalidLineNumber :: gc_error where [simp]: "EGcodeInvalidLineNumber = 27"
definition EGcodeValueWordMissing :: gc_error where [simp]: "EGcodeValueWordMissing = 28"
definition EGcodeUnsupportedCoordSys :: gc_error where [simp]: "EGcodeUnsupportedCoordSys = 29"
definition EGcodeG53InvalidMotionMode :: gc_error where [simp]: "EGcodeG53InvalidMotionMode = 30"
definition EGcodeAxisWordsExist :: gc_error where [simp]: "EGcodeAxisWordsExist = 31"
definition EGcodeNoAxisWordsInPlane :: gc_error where [simp]: "EGcodeNoAxisWordsInPlane = 32"
definition EGcodeInvalidTarget :: gc_error where [simp]: "EGcodeInvalidTarget = 33"
definition EGcodeArcRadiusError :: gc_error where [simp]: "EGcodeArcRadiusError = 34"
definition EGcodeNoOffsetsInPlane :: gc_error where [simp]: "EGcodeNoOffsetsInPlane = 35"
definition EGcodeUnusedWords :: gc_error where [simp]: "EGcodeUnusedWords = 36"
definition EGcodeG43DynamicAxisError :: gc_error where [simp]: "EGcodeG43DynamicAxisError = 37"
definition EGcodeMaxValueExceeded :: gc_error where [simp]: "EGcodeMaxValueExceeded = 38"
definition EPParamMaxExceeded :: gc_error where [simp]: "EPParamMaxExceeded = 39"
definition EReset :: gc_error where [simp]: "EReset = 113"
definition EJogCancelled :: gc_error where [simp]: "EJogCancelled = 130"
definition EExpressionDivideByZero :: gc_error where [simp]: "EExpressionDivideByZero = 170"
definition EExpressionInvalidArgument :: gc_error where [simp]: "EExpressionInvalidArgument = 171"
definition EExpressionInvalidResult :: gc_error where [simp]: "EExpressionInvalidResult = 172"
definition EExpressionUnknownOp :: gc_error where [simp]: "EExpressionUnknownOp = 173"
definition EExpressionArgumentOutOfRange :: gc_error where [simp]: "EExpressionArgumentOutOfRange = 174"
definition EExpressionSyntaxError :: gc_error where [simp]: "EExpressionSyntaxError = 175"
definition EFlowControlSyntaxError :: gc_error where [simp]: "EFlowControlSyntaxError = 176"
definition EFlowControlNotExecutingMacro :: gc_error where [simp]: "EFlowControlNotExecutingMacro = 177"
definition EFlowControlOutOfMemory :: gc_error where [simp]: "EFlowControlOutOfMemory = 178"
definition EFlowControlStackOverflow :: gc_error where [simp]: "EFlowControlStackOverflow = 179"
definition EParameterAssignmentFailed :: gc_error where [simp]: "EParameterAssignmentFailed = 180"
definition EGcodeValueWordInvalid :: gc_error where [simp]: "EGcodeValueWordInvalid = 181"

text \<open>
  \<open>None\<close> stands for a call without a defined result: the fuel is used up or an array
  would be read outside its bounds. A function that returns a \<open>bool\<close> has the error \<open>()\<close>.
\<close>

type_synonym ('e, 'a) reading = "('e + 'a \<times> string) option"

definition bind_reading ::
    "('e, 'a) reading \<Rightarrow> ('a \<Rightarrow> string \<Rightarrow> ('e, 'b) reading) \<Rightarrow> ('e, 'b) reading" where
  "bind_reading m f =
     (case m of None \<Rightarrow> None | Some (Inl e) \<Rightarrow> Some (Inl e) | Some (Inr (a, rest)) \<Rightarrow> f a rest)"

definition or_error :: "'f \<Rightarrow> ('e, 'a) reading \<Rightarrow> ('f, 'a) reading" where
  "or_error e m = (case m of None \<Rightarrow> None | Some (Inl _) \<Rightarrow> Some (Inl e) | Some (Inr r) \<Rightarrow> Some (Inr r))"

lemma bind_reading_simps [simp]:
  "bind_reading None f = None" "bind_reading (Some (Inl e)) f = Some (Inl e)"
  "bind_reading (Some (Inr (a, rest))) f = f a rest"
  by (simp_all add: bind_reading_def)

lemma or_error_simps [simp]:
  "or_error e None = None" "or_error e (Some (Inl e')) = Some (Inl e)"
  "or_error e (Some (Inr r)) = Some (Inr r)"
  by (simp_all add: or_error_def)

lemma bind_reading_None: "bind_reading m f = None \<longleftrightarrow>
    m = None \<or> (\<exists>a rest. m = Some (Inr (a, rest)) \<and> f a rest = None)"
  by (auto simp: bind_reading_def split: option.splits sum.splits)

lemma bind_reading_Inr: "bind_reading m f = Some (Inr r) \<longleftrightarrow>
    (\<exists>a rest. m = Some (Inr (a, rest)) \<and> f a rest = Some (Inr r))"
  by (auto simp: bind_reading_def split: option.splits sum.splits)

lemma or_error_None [simp]: "or_error e m = None \<longleftrightarrow> m = None"
  by (auto simp: or_error_def split: option.splits sum.splits)

lemma or_error_Inr [simp]: "or_error e m = Some (Inr r) \<longleftrightarrow> m = Some (Inr r)"
  by (auto simp: or_error_def split: option.splits sum.splits)

end
