(* ===== verification/NgcNumber.thy ===== *)
theory NgcNumber
  imports StringUtil Float32 NgcError
begin

text \<open>
  Numbers in G-code (\<^verbatim>\<open>NutsBolts.cpp\<close>, \<open>read_float\<close> and \<open>uint_to_float\<close>). A pointer into
  a line is the text that is left; reading at the end of the text gives the terminator
  NUL. The exponent is an 8-bit signed integer and the digits are collected in 32 bits, as
  in the code. \<open>double\<close> arithmetic, which the literal \<open>10.0\<close> brings in, rounds to 53 bits.
\<close>

subsection \<open>Double precision\<close>

definition rnd53 :: "real \<Rightarrow> real" where
  "rnd53 x = (let k = floorlog 2 (nat \<lfloor>x\<rfloor>) - 53 in of_int (rhe (x / 2 ^ k)) * 2 ^ k)"

definition f64 :: "real \<Rightarrow> real" where
  "f64 x = sgn x * (rnd53 (\<bar>x\<bar> * 2 ^ 1074) / 2 ^ 1074)"

lemma f64_0 [simp]: "f64 0 = 0"
  by (simp add: f64_def)

lemma f64_uminus [simp]: "f64 (- x) = - f64 x"
  by (simp add: f64_def sgn_minus)

subsection \<open>Text\<close>

definition peek :: "string \<Rightarrow> char" where
  "peek s = (case s of [] \<Rightarrow> CHR 0x00 | c # _ \<Rightarrow> c)"

lemma peek_simps [simp]: "peek [] = CHR 0x00" "peek (c # s) = c"
  by (simp_all add: peek_def)

definition toupper :: "char \<Rightarrow> char" where
  "toupper c = (let n = of_char c :: nat in if 97 \<le> n \<and> n \<le> 122 then char_of (n - 32) else c)"

definition isalpha :: "char \<Rightarrow> bool" where
  "isalpha c \<longleftrightarrow> (let n = of_char c :: nat in 65 \<le> n \<and> n \<le> 90 \<or> 97 \<le> n \<and> n \<le> 122)"

subsection \<open>Reading a number\<close>

type_synonym i8 = "8 word"

definition MAX_INT_DIGITS :: nat where "MAX_INT_DIGITS = 8"

function shrink :: "int \<Rightarrow> real \<Rightarrow> int \<times> real" where
  "shrink expo fval = (if expo \<le> - 2 then shrink (expo + 2) (fmul fval (f32 0.01)) else (expo, fval))"
  by pat_completeness auto
termination by (relation "measure (\<lambda>(expo, _). nat (- expo))") auto

primrec grow :: "nat \<Rightarrow> real \<Rightarrow> real" where
  "grow 0 fval = fval"
| "grow (Suc n) fval = grow n (f32 (f64 (fval * 10)))"

definition uint_to_float :: "u32 \<Rightarrow> i8 \<Rightarrow> real" where
  "uint_to_float intval expo =
     (let fval = fint (uint intval)
      in if fval \<noteq> 0 then
           let (expo, fval) = shrink (sint expo) fval
           in if expo < 0 then fmul fval (f32 0.1)
              else if 0 < expo then grow (nat expo) fval
              else fval
         else fval)"

text \<open>The loop: the value, the exponent and the number of digits, and the text that is left.\<close>

fun read_digits :: "u32 \<Rightarrow> i8 \<Rightarrow> nat \<Rightarrow> bool \<Rightarrow> string \<Rightarrow> u32 \<times> i8 \<times> nat \<times> string" where
  "read_digits intval expo ndigit isdecimal [] = (intval, expo, ndigit, [])"
| "read_digits intval expo ndigit isdecimal (c # cs) =
     (if isdigit c then
        let ndigit = ndigit + 1
        in if ndigit \<le> MAX_INT_DIGITS then
             let expo = (if isdecimal then expo - 1 else expo);
                 intval = intval * 10 + of_char c - 48
             in read_digits intval expo ndigit isdecimal cs
           else
             let expo = (if \<not> isdecimal then expo + 1 else expo)
             in read_digits intval expo ndigit isdecimal cs
      else if c = CHR ''.'' \<and> \<not> isdecimal then read_digits intval expo ndigit True cs
      else (intval, expo, ndigit, c # cs))"

definition read_float :: "string \<Rightarrow> (real \<times> string) option" where
  "read_float line =
     (let c = peek line;
          (isnegative, ptr) = (if c = CHR ''-'' then (True, tl line)
                               else if c = CHR ''+'' then (False, tl line)
                               else (False, line));
          (intval, expo, ndigit, ptr) = read_digits 0 0 0 False ptr
      in if ndigit = 0 then None
         else let fval = uint_to_float intval expo
              in Some (if isnegative then - fval else fval, ptr))"

subsection \<open>Lemmas\<close>

lemma shrink_id [simp]: "- 2 < expo \<Longrightarrow> shrink expo fval = (expo, fval)"
  by (subst shrink.simps) simp

declare shrink.simps [simp del]

lemma uint_to_float_0 [simp]: "uint_to_float intval 0 = fint (uint intval)"
  by (simp add: uint_to_float_def Let_def)

text \<open>A run of at most eight digits is read as the number it denotes.\<close>

lemma digit_word: "isdigit c \<Longrightarrow> (of_char c :: u32) - 48 = word_of_nat (digit_val c)"
proof -
  assume "isdigit c"
  then have "(of_char c :: nat) = 48 + digit_val c" by (rule isdigit_of_char)
  then have "(of_char c :: u32) = word_of_nat (48 + digit_val c)"
    by (metis of_nat_of_char)
  then show ?thesis by simp
qed

lemma read_digits_int:
  assumes "list_all isdigit ds" "nd + length ds \<le> 8" "rest = [] \<or> \<not> isdigit (hd rest) \<and> hd rest \<noteq> CHR ''.''"
  shows "read_digits (word_of_nat v) 0 nd False (ds @ rest)
           = (word_of_nat (digits_val v ds), 0, nd + length ds, rest)"
  using assms
proof (induction ds arbitrary: v nd)
  case Nil
  then show ?case by (cases rest) auto
next
  case (Cons c cs)
  have "word_of_nat v * 10 + of_char c - 48 = (word_of_nat (v * 10 + digit_val c) :: u32)"
    using digit_word [of c] Cons.prems(1) by (simp add: algebra_simps)
  moreover have "read_digits (word_of_nat v) 0 nd False ((c # cs) @ rest)
      = read_digits (word_of_nat v * 10 + of_char c - 48) 0 (nd + 1) False (cs @ rest)"
    using Cons.prems by (simp add: MAX_INT_DIGITS_def)
  moreover have "read_digits (word_of_nat (v * 10 + digit_val c)) 0 (nd + 1) False (cs @ rest)
      = (word_of_nat (digits_val (v * 10 + digit_val c) cs), 0, nd + 1 + length cs, rest)"
    by (rule Cons.IH) (use Cons.prems in auto)
  ultimately show ?case by (simp only: digits_val_simps list.size add.assoc Suc_eq_plus1 add_0 add.commute [of 1])
qed

lemma read_float_nat:
  assumes "n < 10 ^ 8" "rest = [] \<or> \<not> isdigit (hd rest) \<and> hd rest \<noteq> CHR ''.''"
  shows "read_float (show_nat n @ rest) = Some (fint (int n), rest)"
proof -
  obtain c cs where s: "show_nat n = c # cs" by (cases "show_nat n") auto
  have d: "isdigit c" using show_nat_digits [of n] s by simp
  have r: "read_digits 0 0 0 False (show_nat n @ rest)
      = (word_of_nat n, 0, length (show_nat n), rest)"
    using read_digits_int [of "show_nat n" 0 rest 0] show_nat_digits [of n] show_nat_length [of n 7]
      assms by simp
  have u: "uint (word_of_nat n :: u32) = int n"
    using assms(1) by (simp add: unsigned_of_nat take_bit_nat_eq_self)
  have "c \<noteq> CHR ''-''" "c \<noteq> CHR ''+''" using d by (auto simp: isdigit_def)
  then show ?thesis using r by (simp add: read_float_def s u Let_def del: read_digits.simps)
qed

end
