(* ===== verification/NgcOperators.thy ===== *)
theory NgcOperators
  imports NgcNumber
begin

text \<open>
  The operators of G-code expressions (\<^verbatim>\<open>Expression.cpp\<close>): their values, their precedence and
  their names. A float is a real number rounded to single precision; the constants and the
  products with \<open>DEGRAD\<close> and \<open>RADDEG\<close> are double and rounded twice, as in C++. The functions
  of the C library are correctly rounded. Infinities and NaN do not occur: where C++ gives
  one (\<open>MOD\<close> by zero, zero to a negative power, overflow) the model gives a real number.
\<close>

subsection \<open>Operators\<close>

datatype ngc_binary_op = Binary_NoOp | Binary_DividedBy | Binary_Modulo | Binary_Power | Binary_Times
  | Binary_And2 | Binary_ExclusiveOR | Binary_Minus | Binary_NotExclusiveOR | Binary_Plus
  | Binary_RightBracket | Binary_LT | Binary_EQ | Binary_NE | Binary_LE | Binary_GE | Binary_GT

datatype ngc_unary_op = Unary_ABS | Unary_ACOS | Unary_ASIN | Unary_ATAN | Unary_COS | Unary_EXP
  | Unary_FIX | Unary_FUP | Unary_LN | Unary_Round | Unary_SIN | Unary_SQRT | Unary_TAN | Unary_Exists

definition M_PI :: real where "M_PI = f64 pi"
definition DEGRAD :: real where "DEGRAD = f64 (180 / M_PI)"
definition RADDEG :: real where "RADDEG = f64 (M_PI / 180)"
definition TOLERANCE_EQUAL :: real where "TOLERANCE_EQUAL = f64 0.00001"

definition float_of_bool :: "bool \<Rightarrow> real" where
  "float_of_bool b = (if b then 1 else 0)"

subsection \<open>Binary operations\<close>

text \<open>\<open>fmodf\<close> is exact; \<open>powf\<close> with its cases for a base that is not positive.\<close>

definition fmodf :: "real \<Rightarrow> real \<Rightarrow> real" where
  "fmodf x y = x - of_int (trunc (x / y)) * y"

definition powf :: "real \<Rightarrow> real \<Rightarrow> real" where
  "powf x y = f32 (if y = 0 then 1
                   else if 0 \<le> x then x powr y
                   else if even \<lfloor>y\<rfloor> then (- x) powr y else - ((- x) powr y))"

definition execute_binary1 :: "real \<Rightarrow> ngc_binary_op \<Rightarrow> real \<Rightarrow> gc_error + real" where
  "execute_binary1 lhs operation rhs =
     (case operation of
        Binary_DividedBy \<Rightarrow>
          if rhs = 0 then Inl EExpressionDivideByZero else Inr (fdiv lhs rhs)
      | Binary_Modulo \<Rightarrow>
          let lhs = fmodf lhs rhs in Inr (if lhs < 0 then fadd lhs \<bar>rhs\<bar> else lhs)
      | Binary_Power \<Rightarrow>
          if lhs < 0 \<and> of_int \<lfloor>rhs\<rfloor> \<noteq> rhs then Inl EExpressionInvalidArgument
          else Inr (powf lhs rhs)
      | Binary_Times \<Rightarrow> Inr (fmul lhs rhs)
      | _ \<Rightarrow> Inl EExpressionUnknownOp)"

definition execute_binary2 :: "real \<Rightarrow> ngc_binary_op \<Rightarrow> real \<Rightarrow> gc_error + real" where
  "execute_binary2 lhs operation rhs =
     (case operation of
        Binary_And2 \<Rightarrow> Inr (if lhs = 0 \<or> rhs = 0 then 0 else 1)
      | Binary_ExclusiveOR \<Rightarrow>
          Inr (if lhs = 0 \<and> rhs \<noteq> 0 \<or> lhs \<noteq> 0 \<and> rhs = 0 then 1 else 0)
      | Binary_Minus \<Rightarrow> Inr (fsub lhs rhs)
      | Binary_NotExclusiveOR \<Rightarrow> Inr (if lhs \<noteq> 0 \<or> rhs \<noteq> 0 then 1 else 0)
      | Binary_Plus \<Rightarrow> Inr (fadd lhs rhs)
      | Binary_LT \<Rightarrow> Inr (float_of_bool (lhs < rhs))
      | Binary_EQ \<Rightarrow>
          let diff = fsub lhs rhs; diff = (if diff < 0 then - diff else diff)
          in Inr (float_of_bool (diff < TOLERANCE_EQUAL))
      | Binary_NE \<Rightarrow>
          let diff = fsub lhs rhs; diff = (if diff < 0 then - diff else diff)
          in Inr (float_of_bool (TOLERANCE_EQUAL \<le> diff))
      | Binary_LE \<Rightarrow> Inr (float_of_bool (lhs \<le> rhs))
      | Binary_GE \<Rightarrow> Inr (float_of_bool (rhs \<le> lhs))
      | Binary_GT \<Rightarrow> Inr (float_of_bool (rhs < lhs))
      | _ \<Rightarrow> Inl EExpressionUnknownOp)"

text \<open>The comparison with \<open>Binary_Binary2\<close> selects the first five of the enumeration.\<close>

definition execute_binary :: "real \<Rightarrow> ngc_binary_op \<Rightarrow> real \<Rightarrow> gc_error + real" where
  "execute_binary lhs operation rhs =
     (if operation \<in> {Binary_NoOp, Binary_DividedBy, Binary_Modulo, Binary_Power, Binary_Times}
      then execute_binary1 lhs operation rhs
      else execute_binary2 lhs operation rhs)"

subsection \<open>Unary operations\<close>

definition to_degrees :: "real \<Rightarrow> real" where "to_degrees x = f32 (f64 (x * DEGRAD))"
definition to_radians :: "real \<Rightarrow> real" where "to_radians x = f32 (f64 (x * RADDEG))"

definition execute_unary :: "real \<Rightarrow> ngc_unary_op \<Rightarrow> gc_error + real" where
  "execute_unary operand operation =
     (case operation of
        Unary_ABS \<Rightarrow> Inr (if operand < 0 then fmul (- 1) operand else operand)
      | Unary_ACOS \<Rightarrow>
          if operand < - 1 \<or> 1 < operand then Inl EExpressionArgumentOutOfRange
          else Inr (to_degrees (f32 (arccos operand)))
      | Unary_ASIN \<Rightarrow>
          if operand < - 1 \<or> 1 < operand then Inl EExpressionArgumentOutOfRange
          else Inr (to_degrees (f32 (arcsin operand)))
      | Unary_COS \<Rightarrow> Inr (fcos (to_radians operand))
      | Unary_Exists \<Rightarrow> Inr operand
      | Unary_EXP \<Rightarrow> Inr (f32 (exp operand))
      | Unary_FIX \<Rightarrow> Inr (f32 (of_int \<lfloor>operand\<rfloor>))
      | Unary_FUP \<Rightarrow> Inr (f32 (of_int \<lceil>operand\<rceil>))
      | Unary_LN \<Rightarrow>
          if operand \<le> 0 then Inl EExpressionArgumentOutOfRange else Inr (f32 (ln operand))
      | Unary_Round \<Rightarrow>
          Inr (fint (trunc (fadd operand (if operand < 0 then - (1 / 2) else 1 / 2))))
      | Unary_SIN \<Rightarrow> Inr (fsin (to_radians operand))
      | Unary_SQRT \<Rightarrow>
          if operand < 0 then Inl EExpressionArgumentOutOfRange else Inr (fsqrt operand)
      | Unary_TAN \<Rightarrow> Inr (f32 (tan (to_radians operand)))
      | _ \<Rightarrow> Inl EExpressionUnknownOp)"

subsection \<open>Precedence\<close>

fun precedence :: "ngc_binary_op \<Rightarrow> nat" where
  "precedence Binary_RightBracket = 1"
| "precedence Binary_And2 = 2"
| "precedence Binary_ExclusiveOR = 2"
| "precedence Binary_NotExclusiveOR = 2"
| "precedence Binary_LT = 3"
| "precedence Binary_EQ = 3"
| "precedence Binary_NE = 3"
| "precedence Binary_LE = 3"
| "precedence Binary_GE = 3"
| "precedence Binary_GT = 3"
| "precedence Binary_Minus = 4"
| "precedence Binary_Plus = 4"
| "precedence Binary_NoOp = 5"
| "precedence Binary_DividedBy = 5"
| "precedence Binary_Modulo = 5"
| "precedence Binary_Times = 5"
| "precedence Binary_Power = 6"

lemma precedence_bounds: "1 \<le> precedence op" "precedence op \<le> 6"
  by (cases op; simp)+

lemma precedence_1 [simp]: "precedence op = 1 \<longleftrightarrow> op = Binary_RightBracket"
    "precedence op \<le> 1 \<longleftrightarrow> op = Binary_RightBracket"
    "precedence op \<le> Suc 0 \<longleftrightarrow> op = Binary_RightBracket"
    "precedence op = Suc 0 \<longleftrightarrow> op = Binary_RightBracket"
  by (cases op; simp)+

subsection \<open>Names\<close>

text \<open>\<open>strncmp(line + pos, name, n)\<close> with \<open>n\<close> the length of the name.\<close>

definition next_is :: "string \<Rightarrow> string \<Rightarrow> bool" where
  "next_is name line \<longleftrightarrow> take (length name) line = name"

definition read_operation :: "string \<Rightarrow> gc_error + ngc_binary_op \<times> string" where
  "read_operation line =
     (let c = peek line; line = tl line;
          unknown = Inl EExpressionUnknownOp;
          named = (\<lambda>name op. if next_is name line then Inr (op, drop (length name) line) else unknown)
      in if c = CHR ''+'' then Inr (Binary_Plus, line)
         else if c = CHR ''-'' then Inr (Binary_Minus, line)
         else if c = CHR ''/'' then Inr (Binary_DividedBy, line)
         else if c = CHR ''*'' then
           (if peek line = CHR ''*'' then Inr (Binary_Power, tl line) else Inr (Binary_Times, line))
         else if c = CHR '']'' then Inr (Binary_RightBracket, line)
         else if c = CHR ''A'' then named ''ND'' Binary_And2
         else if c = CHR ''M'' then named ''OD'' Binary_Modulo
         else if c = CHR ''O'' then named ''R'' Binary_NotExclusiveOR
         else if c = CHR ''X'' then named ''OR'' Binary_ExclusiveOR
         else if c = CHR ''E'' then named ''Q'' Binary_EQ
         else if c = CHR ''N'' then named ''E'' Binary_NE
         else if c = CHR ''G'' then
           (if peek line = CHR ''E'' then Inr (Binary_GE, tl line) else named ''T'' Binary_GT)
         else if c = CHR ''L'' then
           (if peek line = CHR ''E'' then Inr (Binary_LE, tl line) else named ''T'' Binary_LT)
         else unknown)"

definition read_operation_unary :: "string \<Rightarrow> gc_error + ngc_unary_op \<times> string" where
  "read_operation_unary line =
     (let c = peek line; line = tl line;
          named = (\<lambda>name op other. if next_is name line then Inr (op, drop (length name) line) else other);
          unknown = Inl EExpressionUnknownOp
      in if c = CHR ''A'' then
           named ''BS'' Unary_ABS (named ''COS'' Unary_ACOS (named ''SIN'' Unary_ASIN
             (named ''TAN'' Unary_ATAN unknown)))
         else if c = CHR ''C'' then named ''OS'' Unary_COS unknown
         else if c = CHR ''E'' then named ''XP'' Unary_EXP (named ''XISTS'' Unary_Exists unknown)
         else if c = CHR ''F'' then named ''IX'' Unary_FIX (named ''UP'' Unary_FUP unknown)
         else if c = CHR ''L'' then named ''N'' Unary_LN unknown
         else if c = CHR ''R'' then named ''OUND'' Unary_Round unknown
         else if c = CHR ''S'' then named ''IN'' Unary_SIN (named ''QRT'' Unary_SQRT unknown)
         else if c = CHR ''T'' then named ''AN'' Unary_TAN unknown
         else unknown)"

subsection \<open>A successful read consumes text\<close>

lemma read_digits_length:
  "read_digits v ex nd d line = (v', ex', nd', rest) \<Longrightarrow>
     length rest \<le> length line \<and> (nd < nd' \<longrightarrow> length rest < length line) \<and> nd \<le> nd'"
proof (induction v ex nd d line arbitrary: v' ex' nd' rest rule: read_digits.induct)
  case (2 intval expo ndigit isdecimal c cs)
  consider "isdigit c" "ndigit + 1 \<le> MAX_INT_DIGITS" | "isdigit c" "\<not> ndigit + 1 \<le> MAX_INT_DIGITS"
    | "\<not> isdigit c" "c = CHR ''.'' \<and> \<not> isdecimal"
    | "\<not> isdigit c" "\<not> (c = CHR ''.'' \<and> \<not> isdecimal)" by blast
  then show ?case
  proof cases
    case 1
    with 2(4) 2(1) [OF 1(1) refl 1(2) refl refl] show ?thesis by (fastforce simp: Let_def)
  next
    case 2
    with \<open>read_digits _ _ _ _ _ = _\<close> "2.IH"(2) [OF 2(1) refl 2(2) refl] show ?thesis
      by (fastforce simp: Let_def)
  next
    case 3
    with \<open>read_digits _ _ _ _ _ = _\<close> "2.IH"(3) [OF 3] show ?thesis by fastforce
  next
    case 4
    with \<open>read_digits _ _ _ _ _ = _\<close> show ?thesis by simp
  qed
qed simp

lemma read_float_length: "read_float line = Some (v, rest) \<Longrightarrow> length rest < length line"
proof -
  assume a: "read_float line = Some (v, rest)"
  define ptr where "ptr = (if peek line = CHR ''-'' \<or> peek line = CHR ''+'' then tl line else line)"
  obtain iv ex nd r where r: "read_digits 0 0 0 False ptr = (iv, ex, nd, r)"
    by (cases "read_digits 0 0 0 False ptr") auto
  have "0 < nd \<and> r = rest" using a r
    by (auto simp: read_float_def ptr_def Let_def split: if_splits prod.splits)
  then have "length rest < length ptr" using read_digits_length [OF r] by auto
  also have "length ptr \<le> length line" by (simp add: ptr_def)
  finally show ?thesis .
qed

text \<open>The result \<open>r\<close> leaves at most the text \<open>line\<close>; the rules follow the branches of the code.\<close>

definition leaves :: "string \<Rightarrow> 'e + 'a \<times> string \<Rightarrow> bool" where
  "leaves line r \<longleftrightarrow> (case r of Inl _ \<Rightarrow> True | Inr (_, rest) \<Rightarrow> length rest \<le> length line)"

lemma leaves_intros:
  "leaves line a \<Longrightarrow> leaves line b \<Longrightarrow> leaves line (if c then a else b)"
  "leaves line (Inl e)" "leaves line (Inr (x, line))" "leaves line (Inr (x, tl line))"
  "leaves line (Inr (x, drop n line))"
  by (simp_all add: leaves_def)

lemma read_operation_length: "read_operation line = Inr (op, rest) \<Longrightarrow> length rest < length line"
proof (cases line)
  case (Cons c cs)
  moreover have "leaves (tl line) (read_operation line)"
    unfolding read_operation_def Let_def by (intro leaves_intros)
  moreover assume "read_operation line = Inr (op, rest)"
  ultimately show ?thesis by (simp add: leaves_def)
qed (simp add: read_operation_def)

lemma read_operation_unary_length:
  "read_operation_unary line = Inr (op, rest) \<Longrightarrow> length rest < length line"
proof (cases line)
  case (Cons c cs)
  moreover have "leaves (tl line) (read_operation_unary line)"
    unfolding read_operation_unary_def Let_def by (intro leaves_intros)
  moreover assume "read_operation_unary line = Inr (op, rest)"
  ultimately show ?thesis by (simp add: leaves_def)
qed (simp add: read_operation_unary_def)

end
