(* ===== verification/NgcExpression.thy ===== *)
theory NgcExpression
  imports NgcOperators
begin

text \<open>
  The evaluator of G-code expressions (\<^verbatim>\<open>Expression.cpp\<close>) with the readers of numbers and
  parameter references it is mutually recursive with (\<open>read_number\<close> and \<open>get_param_ref\<close> of
  \<^verbatim>\<open>Parameters.cpp\<close>). The recursion carries fuel; \<open>fuel_for\<close> is enough for every line.
  The values of parameters (\<open>pget\<close>) and their existence (\<open>pexists\<close>) are arguments, which
  \<open>NgcParameters\<close> supplies. The evaluator keeps its two stacks in arrays of seven; an access
  outside them has the result \<open>None\<close>, and the lemmas show that it does not occur.
\<close>

subsection \<open>The evaluator\<close>

definition MAX_STACK :: nat where "MAX_STACK = 7"

record param_ref =
  pr_name :: string
  pr_id :: u32

definition param_number :: "real \<Rightarrow> param_ref" where
  "param_number result = \<lparr>pr_name = [], pr_id = word_of_int (trunc result)\<rparr>"

text \<open>The name up to the closing bracket, in upper case and without spaces.\<close>

fun read_param_name :: "string \<Rightarrow> (string \<times> string) option" where
  "read_param_name [] = None"
| "read_param_name (c # cs) =
     (if c = CHR ''>'' then Some ([], cs)
      else map_option (\<lambda>(name, rest). (if is_ws c then name else toupper c # name, rest))
             (read_param_name cs))"

text \<open>The text between the brackets of \<open>EXISTS\<close>.\<close>

fun read_exists_arg :: "string \<Rightarrow> (string \<times> string) option" where
  "read_exists_arg [] = None"
| "read_exists_arg (c # cs) =
     (if c = CHR '']'' then Some ([], cs)
      else map_option (\<lambda>(arg, rest). (c # arg, rest)) (read_exists_arg cs))"

text \<open>
  The inner loop: while the operator just read does not bind tighter than the one below
  it, the operation below is executed. The stack index goes down with every round but the
  last one.
\<close>

function reduce_stack ::
    "nat \<Rightarrow> real list \<Rightarrow> ngc_binary_op list \<Rightarrow> gc_error + nat \<times> real list \<times> ngc_binary_op list" where
  "reduce_stack si values operators =
     (if precedence (operators ! si) \<le> precedence (operators ! (si - 1)) then
        case execute_binary (values ! (si - 1)) (operators ! (si - 1)) (values ! si) of
          Inl status \<Rightarrow> Inl status
        | Inr lhs \<Rightarrow>
            let values = values[si - 1 := lhs];
                operators = operators[si - 1 := operators ! si]
            in if 1 < si \<and> precedence (operators ! (si - 1)) \<le> precedence (operators ! (si - 2))
               then reduce_stack (si - 1) values operators
               else Inr (si, values, operators)
      else Inr (si, values, operators))"
  by pat_completeness auto
termination by (relation "measure fst") auto

declare reduce_stack.simps [simp del]

function read_number :: "(param_ref \<Rightarrow> real option) \<Rightarrow> (string \<Rightarrow> bool) \<Rightarrow> nat \<Rightarrow> bool \<Rightarrow> string
      \<Rightarrow> (unit, real) reading"
  and get_param_ref :: "(param_ref \<Rightarrow> real option) \<Rightarrow> (string \<Rightarrow> bool) \<Rightarrow> nat \<Rightarrow> string
      \<Rightarrow> (unit, param_ref) reading"
  and read_atan :: "(param_ref \<Rightarrow> real option) \<Rightarrow> (string \<Rightarrow> bool) \<Rightarrow> nat \<Rightarrow> real \<Rightarrow> string
      \<Rightarrow> (gc_error, real) reading"
  and read_unary :: "(param_ref \<Rightarrow> real option) \<Rightarrow> (string \<Rightarrow> bool) \<Rightarrow> nat \<Rightarrow> string
      \<Rightarrow> (gc_error, real) reading"
  and expression :: "(param_ref \<Rightarrow> real option) \<Rightarrow> (string \<Rightarrow> bool) \<Rightarrow> nat \<Rightarrow> string
      \<Rightarrow> (gc_error, real) reading"
  and expression_loop :: "(param_ref \<Rightarrow> real option) \<Rightarrow> (string \<Rightarrow> bool) \<Rightarrow> nat \<Rightarrow> nat \<Rightarrow> real list
      \<Rightarrow> ngc_binary_op list \<Rightarrow> string \<Rightarrow> (gc_error, real) reading"
where
  "read_number pget pexists 0 in_expression line = None"
| "read_number pget pexists (Suc n) in_expression line =
     (let c = peek line
      in if c = CHR ''#'' then
           bind_reading (get_param_ref pget pexists n (tl line)) (\<lambda>param_ref line.
             case pget param_ref of
               Some result \<Rightarrow> Some (Inr (result, line))
             | None \<Rightarrow> Some (Inl ()))
         else if c = CHR ''['' then or_error () (expression pget pexists n line)
         else if in_expression \<and> isalpha c then or_error () (read_unary pget pexists n line)
         else if in_expression \<and> c = CHR ''-'' then
           bind_reading (read_number pget pexists n in_expression (tl line)) (\<lambda>result line.
             Some (Inr (- result, line)))
         else if in_expression \<and> c = CHR ''+'' then
           read_number pget pexists n in_expression (tl line)
         else case read_float line of Some r \<Rightarrow> Some (Inr r) | None \<Rightarrow> Some (Inl ()))"
| "get_param_ref pget pexists 0 line = None"
| "get_param_ref pget pexists (Suc n) line =
     (let c = peek line
      in if c = CHR ''#'' then
           bind_reading (get_param_ref pget pexists n (tl line)) (\<lambda>next_param_ref line.
             case pget next_param_ref of
               Some result \<Rightarrow> Some (Inr (param_number result, line))
             | None \<Rightarrow> Some (Inl ()))
         else if c = CHR ''<'' then
           (case read_param_name (tl line) of
              Some (name, rest) \<Rightarrow> Some (Inr (\<lparr>pr_name = name, pr_id = 0\<rparr>, rest))
            | None \<Rightarrow> Some (Inl ()))
         else if c = CHR ''['' then
           bind_reading (or_error () (expression pget pexists n line)) (\<lambda>result line.
             Some (Inr (param_number result, line)))
         else case read_float line of
                Some (result, rest) \<Rightarrow> Some (Inr (param_number result, rest))
              | None \<Rightarrow> Some (Inl ()))"
| "read_atan pget pexists 0 v line = None"
| "read_atan pget pexists (Suc n) v line =
     (if peek line \<noteq> CHR ''/'' then Some (Inl EExpressionSyntaxError)
      else let line = tl line
           in if peek line \<noteq> CHR ''['' then Some (Inl EExpressionSyntaxError)
              else bind_reading (expression pget pexists n line) (\<lambda>argument2 line.
                     Some (Inr (to_degrees (fatan2 v argument2), line))))"
| "read_unary pget pexists 0 line = None"
| "read_unary pget pexists (Suc n) line =
     (case read_operation_unary line of
        Inl status \<Rightarrow> Some (Inl status)
      | Inr (operation, line) \<Rightarrow>
          if peek line \<noteq> CHR ''['' then Some (Inl EExpressionSyntaxError)
          else if operation = Unary_Exists then
            (case read_exists_arg (tl line) of
               None \<Rightarrow> Some (Inl EExpressionSyntaxError)
             | Some (arg, rest) \<Rightarrow> Some (Inr (float_of_bool (pexists arg), rest)))
          else
            bind_reading (expression pget pexists n line) (\<lambda>v line.
              if operation = Unary_ATAN then read_atan pget pexists n v line
              else case execute_unary v operation of
                     Inl status \<Rightarrow> Some (Inl status)
                   | Inr v \<Rightarrow> Some (Inr (v, line))))"
| "expression pget pexists 0 line = None"
| "expression pget pexists (Suc n) line =
     (if peek line \<noteq> CHR ''['' then Some (Inl EGcodeUnsupportedCommand)
      else
        bind_reading (or_error EBadNumberFormat (read_number pget pexists n True (tl line)))
          (\<lambda>v line. case read_operation line of
             Inl status \<Rightarrow> Some (Inl status)
           | Inr (operation, line) \<Rightarrow>
               expression_loop pget pexists n 1 ((replicate MAX_STACK 0)[0 := v])
                 ((replicate MAX_STACK Binary_NoOp)[0 := operation]) line))"
| "expression_loop pget pexists 0 si values operators line = None"
| "expression_loop pget pexists (Suc n) si values operators line =
     (if operators ! 0 = Binary_RightBracket then Some (Inr (values ! 0, line))
      else if \<not> si < MAX_STACK then None
      else
        bind_reading (or_error EBadNumberFormat (read_number pget pexists n True line))
          (\<lambda>v line. case read_operation line of
             Inl status \<Rightarrow> Some (Inl status)
           | Inr (operation, line) \<Rightarrow>
               let values = values[si := v]; operators = operators[si := operation]
               in if precedence (operators ! (si - 1)) < precedence (operators ! si) then
                    expression_loop pget pexists n (si + 1) values operators line
                  else case reduce_stack si values operators of
                         Inl status \<Rightarrow> Some (Inl status)
                       | Inr (si, values, operators) \<Rightarrow>
                           expression_loop pget pexists n si values operators line))"
  by pat_completeness auto
termination
  by (relation "measure (\<lambda>x. case x of
      Inl (Inl (_, _, n, _)) \<Rightarrow> n
    | Inl (Inr (Inl (_, _, n, _))) \<Rightarrow> n
    | Inl (Inr (Inr (_, _, n, _))) \<Rightarrow> n
    | Inr (Inl (_, _, n, _)) \<Rightarrow> n
    | Inr (Inr (Inl (_, _, n, _))) \<Rightarrow> n
    | Inr (Inr (Inr (_, _, n, _))) \<Rightarrow> n)") auto

definition fuel_for :: "string \<Rightarrow> nat" where
  "fuel_for line = 4 * length line + 4"

lemmas reading_defs = read_number.simps get_param_ref.simps read_atan.simps read_unary.simps
  expression.simps expression_loop.simps

declare reading_defs [simp del]

subsection \<open>Every reader consumes text\<close>

definition below :: "nat \<Rightarrow> ('e, 'a) reading \<Rightarrow> bool" where
  "below k m \<longleftrightarrow> (\<forall>v rest. m = Some (Inr (v, rest)) \<longrightarrow> length rest < k)"

lemma below_simps [simp]:
  "below k None" "below k (Some (Inl e))" "below k (Some (Inr (v, rest))) \<longleftrightarrow> length rest < k"
  "below k (or_error e m) \<longleftrightarrow> below k m"
  by (auto simp: below_def)

lemma below_bind:
  "below k m \<Longrightarrow> (\<And>v rest. length rest < k \<Longrightarrow> below k' (f v rest)) \<Longrightarrow> below k' (bind_reading m f)"
  by (fastforce simp: below_def bind_reading_Inr)

lemma below_bind_error:
  "below k m \<Longrightarrow> (\<And>v rest. length rest < k \<Longrightarrow> below k' (f v rest))
     \<Longrightarrow> below k' (bind_reading (or_error e m) f)"
  by (rule below_bind) simp_all

lemma below_mono: "below k m \<Longrightarrow> k \<le> k' \<Longrightarrow> below k' m"
  by (fastforce simp: below_def)

lemma read_param_name_length: "read_param_name line = Some (name, rest) \<Longrightarrow> length rest < length line"
  by (induction line arbitrary: name) (auto split: if_splits simp: less_SucI)

lemma read_exists_arg_length: "read_exists_arg line = Some (arg, rest) \<Longrightarrow> length rest < length line"
  by (induction line arbitrary: arg) (auto split: if_splits simp: less_SucI)

lemma tl_length: "peek line \<noteq> CHR 0x00 \<Longrightarrow> length (tl line) < length line"
  by (cases line) auto

lemma tl_below: "below (length (tl line)) m \<Longrightarrow> below (length line) m"
  by (erule below_mono) simp

lemma readers_below:
  "below (length line) (read_number pget pexists n b line)
   \<and> below (length line) (get_param_ref pget pexists n line)
   \<and> below (length line) (read_atan pget pexists n v line)
   \<and> below (length line) (read_unary pget pexists n line)
   \<and> below (length line) (expression pget pexists n line)
   \<and> below (Suc (length line)) (expression_loop pget pexists n si vals ops line)"
proof (induction n arbitrary: line v b si vals ops)
  case 0
  show ?case by (simp add: reading_defs)
next
  case (Suc n)
  have num: "below k (read_number pget pexists n b l)" if "length l \<le> k" for k b l
    using Suc.IH [of l b] that by (blast intro: below_mono)
  have ref: "below k (get_param_ref pget pexists n l)" if "length l \<le> k" for k l
    using Suc.IH [of l] that by (blast intro: below_mono)
  have ata: "below k (read_atan pget pexists n v l)" if "length l \<le> k" for k v l
    using Suc.IH [of l _ v] that by (blast intro: below_mono)
  have una: "below k (read_unary pget pexists n l)" if "length l \<le> k" for k l
    using Suc.IH [of l] that by (blast intro: below_mono)
  have exr: "below k (expression pget pexists n l)" if "length l \<le> k" for k l
    using Suc.IH [of l] that by (blast intro: below_mono)
  have loop: "below k (expression_loop pget pexists n si vs os l)" if "length l < k" for k si vs os l
    using Suc.IH [of l _ _ si vs os] that by (meson Suc_leI below_mono)
  have flt: "below (length line) (case read_float line of Some r \<Rightarrow> Some (Inr r) | None \<Rightarrow> Some (Inl ()))"
    by (auto split: option.split dest: read_float_length)
  have le: "length rest < length (tl line) \<Longrightarrow> length rest < length line" for rest :: string
    by simp
  have 1: "below (length line) (read_number pget pexists (Suc n) b line)"
    unfolding reading_defs Let_def using flt
    by (auto intro!: below_bind [OF ref [OF order_refl]] below_bind [OF num [OF order_refl]] num una exr
        split: option.split)
  have 2: "below (length line) (get_param_ref pget pexists (Suc n) line)"
    unfolding reading_defs Let_def
    by (auto intro!: below_bind [OF ref [OF order_refl]] below_bind_error [OF exr [OF order_refl]]
        dest!: read_float_length read_param_name_length split: option.split)
  have 3: "below (length line) (read_atan pget pexists (Suc n) v line)"
    unfolding reading_defs Let_def by (auto intro!: below_bind [OF exr [OF order_refl]])
  have 4: "below (length line) (read_unary pget pexists (Suc n) line)"
    unfolding reading_defs
    by (auto intro!: below_bind [OF exr [OF order_refl]] ata
        dest!: read_operation_unary_length read_exists_arg_length split: option.split sum.split)
  have 5: "below (length line) (expression pget pexists (Suc n) line)"
    unfolding reading_defs
    by (auto intro!: below_bind_error [OF num [OF order_refl]] loop
        dest!: read_operation_length split: sum.split)
  have 6: "below (Suc (length line)) (expression_loop pget pexists (Suc n) si vals ops line)"
    unfolding reading_defs Let_def
    by (auto intro!: below_bind_error [OF num [OF order_refl]] loop
        dest!: read_operation_length split: sum.split)
  from 1 2 3 4 5 6 show ?case by blast
qed

subsection \<open>The stack stays in its array\<close>

definition stack_ok :: "nat \<Rightarrow> real list \<Rightarrow> ngc_binary_op list \<Rightarrow> bool" where
  "stack_ok si vals ops \<longleftrightarrow> length vals = MAX_STACK \<and> length ops = MAX_STACK \<and> 1 \<le> si \<and> si \<le> 6
     \<and> (\<forall>i. Suc i < si \<longrightarrow> precedence (ops ! i) < precedence (ops ! Suc i))"

text \<open>The operators of the stack bind ever tighter, and there are five levels to climb.\<close>

lemma stack_ok_precedence:
  assumes "stack_ok si vals ops" "i < si"
  shows "precedence (ops ! 0) + i \<le> precedence (ops ! i)"
  using assms(2)
proof (induction i)
  case (Suc i)
  then have "precedence (ops ! i) < precedence (ops ! Suc i)" using assms(1) by (simp add: stack_ok_def)
  with Suc show ?case by simp
qed simp

lemma stack_ok_index:
  assumes "stack_ok si vals ops" "ops ! 0 \<noteq> Binary_RightBracket"
  shows "si \<le> 5"
proof -
  have "1 \<le> si" using assms(1) by (simp add: stack_ok_def)
  moreover have "precedence (ops ! 0) + (si - 1) \<le> precedence (ops ! (si - 1))"
    using stack_ok_precedence [OF assms(1), of "si - 1"] calculation by simp
  moreover have "precedence (ops ! (si - 1)) \<le> 6" by (rule precedence_bounds)
  moreover have "2 \<le> precedence (ops ! 0)"
    using assms(2) precedence_bounds(1) [of "ops ! 0"] precedence_1(1) [of "ops ! 0"] by linarith
  ultimately show ?thesis by linarith
qed

lemma reduce_stack_ok:
  assumes "stack_ok si vals ops" "reduce_stack si vals ops = Inr (si', vals', ops')"
    "precedence (ops ! si) \<le> precedence (ops ! (si - 1))"
  shows "stack_ok si' vals' ops' \<and> si' \<le> si"
  using assms
proof (induction si vals ops rule: reduce_stack.induct)
  case (1 si vals ops)
  obtain lhs where x: "execute_binary (vals ! (si - 1)) (ops ! (si - 1)) (vals ! si) = Inr lhs"
    using 1(3,4) by (auto simp: reduce_stack.simps [of si vals ops] split: sum.splits)
  define vs os where "vs = vals[si - 1 := lhs]" and "os = ops[si - 1 := ops ! si]"
  have step: "reduce_stack si vals ops =
      (if 1 < si \<and> precedence (os ! (si - 1)) \<le> precedence (os ! (si - 2))
       then reduce_stack (si - 1) vs os else Inr (si, vs, os))"
    by (subst reduce_stack.simps) (simp only: 1(4) x vs_def os_def Let_def sum.case if_True)
  have len: "length vs = MAX_STACK" "length os = MAX_STACK" "1 \<le> si" "si \<le> 6"
    using 1(2) by (simp_all add: vs_def os_def stack_ok_def)
  have os: "os ! (si - 1) = ops ! si" "i < si - 1 \<Longrightarrow> os ! i = ops ! i" for i
    using len 1(2) by (simp_all add: os_def stack_ok_def MAX_STACK_def)
  have inc: "precedence (os ! i) < precedence (os ! Suc i)" if "Suc i < si - 1" for i
    using 1(2) that by (simp add: os stack_ok_def)
  show ?case
  proof (cases "1 < si \<and> precedence (os ! (si - 1)) \<le> precedence (os ! (si - 2))")
    case True
    have "stack_ok (si - 1) vs os" using True len inc by (auto simp: stack_ok_def)
    moreover have "reduce_stack (si - 1) vs os = Inr (si', vals', ops')"
      using 1(3) step True by simp
    moreover have "precedence (os ! (si - 1)) \<le> precedence (os ! (si - 1 - 1))"
      using True by (simp add: numeral_2_eq_2)
    ultimately show ?thesis
      using 1(1) [OF 1(4) x vs_def os_def] True by (simp add: vs_def os_def) linarith
  next
    case False
    have "Inr (si, vs, os) = (Inr (si', vals', ops') :: gc_error + _)"
      using 1(3) step False by auto
    moreover have "precedence (os ! i) < precedence (os ! Suc i)" if "Suc i < si" for i
    proof (cases "Suc i < si - 1")
      case top: False
      with that have "si - 1 = Suc i" "si - 2 = i" "1 < si" by linarith+
      with False show ?thesis by (metis not_le)
    qed (rule inc)
    ultimately show ?thesis using len by (simp add: stack_ok_def)
  qed
qed

subsection \<open>Enough fuel\<close>

text \<open>A call with a result, a value or an error; the rules follow the structure of the readers.\<close>

definition returns :: "('e, 'a) reading \<Rightarrow> bool" where
  "returns m \<longleftrightarrow> m \<noteq> None"

lemma returns_simps [simp]: "returns (Some r)" "returns (or_error e m) \<longleftrightarrow> returns m"
  by (simp_all add: returns_def)

lemma returns_bind:
  "returns m \<Longrightarrow> (\<And>v rest. m = Some (Inr (v, rest)) \<Longrightarrow> returns (f v rest)) \<Longrightarrow> returns (bind_reading m f)"
  by (auto simp: returns_def bind_reading_None)

lemma returns_bind_error:
  "returns m \<Longrightarrow> (\<And>v rest. m = Some (Inr (v, rest)) \<Longrightarrow> returns (f v rest))
     \<Longrightarrow> returns (bind_reading (or_error e m) f)"
  by (rule returns_bind) auto

lemma stack_ok_update:
  assumes "stack_ok si vals ops"
  shows "stack_ok si (vals[si := v]) (ops[si := op])"
  using assms by (simp add: stack_ok_def)

lemma stack_ok_push:
  assumes "stack_ok si vals ops" "si \<le> 5" "precedence (ops ! (si - 1)) < precedence op"
  shows "stack_ok (si + 1) (vals[si := v]) (ops[si := op])"
proof -
  have "precedence (ops[si := op] ! i) < precedence (ops[si := op] ! Suc i)" if "Suc i < si + 1" for i
  proof (cases "Suc i = si")
    case True
    with assms show ?thesis by (auto simp: stack_ok_def MAX_STACK_def)
  next
    case False
    with assms(1) that show ?thesis by (simp add: stack_ok_def)
  qed
  with assms show ?thesis by (simp add: stack_ok_def)
qed

lemma stack_ok_start:
  "stack_ok 1 ((replicate MAX_STACK 0)[0 := v]) ((replicate MAX_STACK Binary_NoOp)[0 := op])"
  by (simp add: stack_ok_def)

lemma below_D: "below k m \<Longrightarrow> m = Some (Inr (v, rest)) \<Longrightarrow> length rest < k"
  by (simp add: below_def)

lemma read_number_below:
  "read_number pget pexists n b line = Some (Inr (v, rest)) \<Longrightarrow> length rest < length line"
  using readers_below by (blast dest: below_D)

lemma get_param_ref_below:
  "get_param_ref pget pexists n line = Some (Inr (r, rest)) \<Longrightarrow> length rest < length line"
  using readers_below by (blast dest: below_D)

lemma expression_below:
  "expression pget pexists n line = Some (Inr (v, rest)) \<Longrightarrow> length rest < length line"
  using readers_below by (blast dest: below_D)

lemma readers_defined:
  "(4 * length line + 3 \<le> n \<longrightarrow> returns (read_number pget pexists n b line))
   \<and> (4 * length line + 3 \<le> n \<longrightarrow> returns (get_param_ref pget pexists n line))
   \<and> (4 * length line + 1 \<le> n \<longrightarrow> returns (read_atan pget pexists n v line))
   \<and> (4 * length line + 1 \<le> n \<longrightarrow> returns (read_unary pget pexists n line))
   \<and> (4 * length line + 1 \<le> n \<longrightarrow> returns (expression pget pexists n line))
   \<and> (4 * length line + 4 \<le> n \<longrightarrow> stack_ok si vals ops
        \<longrightarrow> returns (expression_loop pget pexists n si vals ops line))"
proof (induction n arbitrary: line v b si vals ops)
  case 0
  show ?case by simp
next
  case (Suc n)
  have num: "returns (read_number pget pexists n b l)" if "4 * length l + 3 \<le> n" for b l
    using Suc.IH [of l b] that by blast
  have ref: "returns (get_param_ref pget pexists n l)" if "4 * length l + 3 \<le> n" for l
    using Suc.IH [of l] that by blast
  have ata: "returns (read_atan pget pexists n v l)" if "4 * length l + 1 \<le> n" for v l
    using Suc.IH [of l _ v] that by blast
  have una: "returns (read_unary pget pexists n l)" if "4 * length l + 1 \<le> n" for l
    using Suc.IH [of l] that by blast
  have exr: "returns (expression pget pexists n l)" if "4 * length l + 1 \<le> n" for l
    using Suc.IH [of l] that by blast
  have loop: "returns (expression_loop pget pexists n si vs os l)"
    if "4 * length l + 4 \<le> n" "stack_ok si vs os" for si vs os l
    using Suc.IH [of l _ _ si vs os] that by blast
  have tl: "4 * length (tl line) + 3 \<le> n" if "4 * length line \<le> n" "peek line \<noteq> CHR 0x00"
    using that by (cases line) auto
  have 1: "returns (read_number pget pexists (Suc n) b line)" if "4 * length line + 3 \<le> Suc n"
    unfolding reading_defs Let_def using that
    by (auto split: option.split intro!: returns_bind ref num una exr tl)
  have 2: "returns (get_param_ref pget pexists (Suc n) line)" if "4 * length line + 3 \<le> Suc n"
    unfolding reading_defs Let_def using that
    by (auto split: option.split intro!: returns_bind returns_bind_error ref exr tl)
  have 3: "returns (read_atan pget pexists (Suc n) v line)" if "4 * length line + 1 \<le> Suc n"
    unfolding reading_defs Let_def using that tl
    by (fastforce intro!: returns_bind exr)
  have 4: "returns (read_unary pget pexists (Suc n) line)" if "4 * length line + 1 \<le> Suc n"
    unfolding reading_defs using that
    by (fastforce split: option.split sum.split intro!: returns_bind exr ata
        dest!: read_operation_unary_length expression_below)
  have step: "4 * length l2 + 4 \<le> n"
    if "read_number pget pexists n True l = Some (Inr (v, l1))" "read_operation l1 = Inr (op, l2)"
      "4 * length l + 1 \<le> Suc n" for v l l1 op l2
    using read_number_below [OF that(1)] read_operation_length [OF that(2)] that(3) by simp
  have 5: "returns (expression pget pexists (Suc n) line)" if "4 * length line + 1 \<le> Suc n"
  proof (cases "peek line = CHR ''[''")
    case True
    with that have "4 * length (tl line) + 3 \<le> n" by (intro tl) simp_all
    moreover have "4 * length l2 + 4 \<le> n"
      if "read_number pget pexists n True (tl line) = Some (Inr (v, l1))" "read_operation l1 = Inr (op, l2)"
      for v l1 op l2
      using step [OF that] calculation by simp
    ultimately show ?thesis unfolding reading_defs using True
      by (auto split: sum.split intro!: returns_bind_error num loop stack_ok_start simp del: One_nat_def)
  qed (simp add: reading_defs)
  have 6: "returns (expression_loop pget pexists (Suc n) si vals ops line)"
    if len: "4 * length line + 4 \<le> Suc n" and ok: "stack_ok si vals ops"
  proof (cases "ops ! 0 = Binary_RightBracket")
    case True
    then show ?thesis by (simp add: reading_defs)
  next
    case False
    then have si: "si \<le> 5" "si < MAX_STACK"
      using stack_ok_index [OF ok] by (simp_all add: MAX_STACK_def)
    have nth: "ops[si := op] ! si = op" "ops[si := op] ! (si - 1) = ops ! (si - 1)" for op
      using ok si by (auto simp: stack_ok_def nth_list_update)
    have "returns (case reduce_stack si (vals[si := v]) (ops[si := op]) of
        Inl status \<Rightarrow> Some (Inl status)
      | Inr (si, vals, ops) \<Rightarrow> expression_loop pget pexists n si vals ops l2)"
      if "4 * length l2 + 4 \<le> n" "\<not> precedence (ops ! (si - 1)) < precedence op" for v op l2
      using that reduce_stack_ok [OF stack_ok_update [OF ok], of v op]
      by (auto split: sum.split intro!: loop simp: nth not_less simp del: One_nat_def)
    moreover have "4 * length l2 + 4 \<le> n"
      if "read_number pget pexists n True line = Some (Inr (v, l1))" "read_operation l1 = Inr (op, l2)"
      for v l1 op l2
      using step [OF that] len by simp
    ultimately show ?thesis unfolding reading_defs Let_def using False si len
      by (auto split: sum.split intro!: returns_bind_error num loop stack_ok_push [OF ok]
          simp: nth simp del: One_nat_def)
  qed
  from 1 2 3 4 5 6 show ?case by blast
qed

subsection \<open>More fuel changes nothing\<close>

definition agrees :: "('e, 'a) reading \<Rightarrow> ('e, 'a) reading \<Rightarrow> bool" where
  "agrees m m' \<longleftrightarrow> (returns m \<longrightarrow> m' = m)"

lemma agrees_refl [simp]: "agrees m m" "agrees None m"
  by (simp_all add: agrees_def returns_def)

lemma agrees_bind:
  "agrees m m' \<Longrightarrow> (\<And>v rest. agrees (f v rest) (f' v rest)) \<Longrightarrow> agrees (bind_reading m f) (bind_reading m' f')"
  by (auto simp: agrees_def returns_def bind_reading_def split: option.splits sum.splits)

lemma agrees_error: "agrees m m' \<Longrightarrow> agrees (or_error e m) (or_error e m')"
  by (auto simp: agrees_def)

lemma agrees_if: "agrees a a' \<Longrightarrow> agrees b b' \<Longrightarrow> agrees (if c then a else b) (if c then a' else b')"
  by simp

lemma agrees_option: "(\<And>x. agrees (f x) (f' x)) \<Longrightarrow>
    agrees (case r of None \<Rightarrow> a | Some x \<Rightarrow> f x) (case r of None \<Rightarrow> a | Some x \<Rightarrow> f' x)"
  by (simp split: option.split)

lemma agrees_sum: "(\<And>x. agrees (f x) (f' x)) \<Longrightarrow>
    agrees (case r of Inl e \<Rightarrow> g e | Inr x \<Rightarrow> f x) (case r of Inl e \<Rightarrow> g e | Inr x \<Rightarrow> f' x)"
  by (simp split: sum.split)

lemma agrees_prod: "(\<And>x y. agrees (f x y) (f' x y)) \<Longrightarrow>
    agrees (case p of (x, y) \<Rightarrow> f x y) (case p of (x, y) \<Rightarrow> f' x y)"
  by (simp split: prod.split)

lemmas agrees_intros = agrees_if agrees_bind agrees_error agrees_option agrees_sum agrees_prod agrees_refl

lemma readers_agree:
  "n \<le> m \<Longrightarrow>
     agrees (read_number pget pexists n b line) (read_number pget pexists m b line)
   \<and> agrees (get_param_ref pget pexists n line) (get_param_ref pget pexists m line)
   \<and> agrees (read_atan pget pexists n v line) (read_atan pget pexists m v line)
   \<and> agrees (read_unary pget pexists n line) (read_unary pget pexists m line)
   \<and> agrees (expression pget pexists n line) (expression pget pexists m line)
   \<and> agrees (expression_loop pget pexists n si vals ops line)
        (expression_loop pget pexists m si vals ops line)"
proof (induction n arbitrary: m line v b si vals ops)
  case 0
  show ?case by (simp add: reading_defs)
next
  case (Suc n)
  then obtain k where m: "m = Suc k" and le: "n \<le> k" by (cases m) auto
  have ih: "agrees (read_number pget pexists n b line) (read_number pget pexists k b line)"
    "agrees (get_param_ref pget pexists n line) (get_param_ref pget pexists k line)"
    "agrees (read_atan pget pexists n v line) (read_atan pget pexists k v line)"
    "agrees (read_unary pget pexists n line) (read_unary pget pexists k line)"
    "agrees (expression pget pexists n line) (expression pget pexists k line)"
    "agrees (expression_loop pget pexists n si vals ops line)
       (expression_loop pget pexists k si vals ops line)" for b line v si vals ops
    using Suc.IH [OF le, of b line v si vals ops] by blast+
  show ?case unfolding m reading_defs Let_def by (intro conjI agrees_intros ih)
qed

subsection \<open>The readers without fuel\<close>

definition ngc_expression ::
    "(param_ref \<Rightarrow> real option) \<Rightarrow> (string \<Rightarrow> bool) \<Rightarrow> string \<Rightarrow> gc_error + real \<times> string" where
  "ngc_expression pget pexists line = the (expression pget pexists (fuel_for line) line)"

definition ngc_number ::
    "(param_ref \<Rightarrow> real option) \<Rightarrow> (string \<Rightarrow> bool) \<Rightarrow> bool \<Rightarrow> string \<Rightarrow> (real \<times> string) option" where
  "ngc_number pget pexists in_expression line =
     (case the (read_number pget pexists (fuel_for line) in_expression line) of
        Inl _ \<Rightarrow> None | Inr r \<Rightarrow> Some r)"

definition ngc_param_ref ::
    "(param_ref \<Rightarrow> real option) \<Rightarrow> (string \<Rightarrow> bool) \<Rightarrow> string \<Rightarrow> (param_ref \<times> string) option" where
  "ngc_param_ref pget pexists line =
     (case the (get_param_ref pget pexists (fuel_for line) line) of
        Inl _ \<Rightarrow> None | Inr r \<Rightarrow> Some r)"

lemma expression_fuel:
  assumes "4 * length line + 1 \<le> n"
  shows "expression pget pexists n line = Some (ngc_expression pget pexists line)"
proof -
  let ?k = "4 * length line + 1"
  have "returns (expression pget pexists ?k line)" using readers_defined by blast
  moreover have "agrees (expression pget pexists ?k line) (expression pget pexists n line)"
    using readers_agree [OF assms] by blast
  moreover have "agrees (expression pget pexists ?k line) (expression pget pexists (fuel_for line) line)"
    using readers_agree [of ?k "fuel_for line"] by (simp add: fuel_for_def)
  ultimately show ?thesis by (auto simp: agrees_def ngc_expression_def returns_def)
qed

lemma read_number_fuel:
  assumes "4 * length line + 3 \<le> n"
  shows "read_number pget pexists n b line
    = Some (case ngc_number pget pexists b line of None \<Rightarrow> Inl () | Some r \<Rightarrow> Inr r)"
proof -
  let ?k = "4 * length line + 3"
  have "returns (read_number pget pexists ?k b line)" using readers_defined by blast
  moreover have "agrees (read_number pget pexists ?k b line) (read_number pget pexists n b line)"
    using readers_agree [OF assms] by blast
  moreover have "agrees (read_number pget pexists ?k b line)
      (read_number pget pexists (fuel_for line) b line)"
    using readers_agree [of ?k "fuel_for line"] by (simp add: fuel_for_def)
  ultimately show ?thesis
    by (auto simp: agrees_def ngc_number_def returns_def split: sum.split)
qed

lemma get_param_ref_fuel:
  assumes "4 * length line + 3 \<le> n"
  shows "get_param_ref pget pexists n line
    = Some (case ngc_param_ref pget pexists line of None \<Rightarrow> Inl () | Some r \<Rightarrow> Inr r)"
proof -
  let ?k = "4 * length line + 3"
  have "returns (get_param_ref pget pexists ?k line)" using readers_defined by blast
  moreover have "agrees (get_param_ref pget pexists ?k line) (get_param_ref pget pexists n line)"
    using readers_agree [OF assms] by blast
  moreover have "agrees (get_param_ref pget pexists ?k line)
      (get_param_ref pget pexists (fuel_for line) line)"
    using readers_agree [of ?k "fuel_for line"] by (simp add: fuel_for_def)
  ultimately show ?thesis
    by (auto simp: agrees_def ngc_param_ref_def returns_def split: sum.split)
qed

lemma ngc_number_length:
  "ngc_number pget pexists b line = Some (v, rest) \<Longrightarrow> length rest < length line"
  using read_number_fuel [of line "fuel_for line" pget pexists b]
  by (auto simp: fuel_for_def dest!: read_number_below)

end
