(* ===== verification/GcodeState.thy ===== *)
theory GcodeState
  imports NgcExpression
begin

text \<open>
  The data of the G-code interpreter (\<^verbatim>\<open>GCode.h\<close>, \<^verbatim>\<open>Types.h\<close>, \<^verbatim>\<open>Job.h\<close>): the modal groups,
  the values of a block, the state between blocks, the stack of jobs. An enumeration is a
  datatype, but \<open>CoordIndex\<close>, which the code computes with and converts from numbers, is a
  16-bit word. A vector over the axes is a list of \<open>MAX_N_AXIS\<close> reals.

  The globals of the interpreter are one record, the world. What it reads from the rest of
  the firmware is the environment, an observation made for one line; what it makes the rest
  of the firmware do is the list of its actions.
\<close>

subsection \<open>Axes\<close>

definition MAX_N_AXIS :: nat where "MAX_N_AXIS = 9"
definition X_AXIS :: nat where "X_AXIS = 0"
definition Y_AXIS :: nat where "Y_AXIS = 1"
definition Z_AXIS :: nat where "Z_AXIS = 2"
definition A_AXIS :: nat where "A_AXIS = 3"
definition B_AXIS :: nat where "B_AXIS = 4"
definition C_AXIS :: nat where "C_AXIS = 5"
definition U_AXIS :: nat where "U_AXIS = 6"
definition V_AXIS :: nat where "V_AXIS = 7"
definition W_AXIS :: nat where "W_AXIS = 8"

lemmas axis_defs = MAX_N_AXIS_def X_AXIS_def Y_AXIS_def Z_AXIS_def A_AXIS_def B_AXIS_def C_AXIS_def
  U_AXIS_def V_AXIS_def W_AXIS_def

definition is_linear :: "nat \<Rightarrow> bool" where
  "is_linear axis \<longleftrightarrow> axis < A_AXIS \<or> C_AXIS < axis"

definition MM_PER_INCH :: real where "MM_PER_INCH = f32 25.4"
definition INCH_PER_MM :: real where "INCH_PER_MM = f32 0.0393701"

subsection \<open>Modal groups\<close>

datatype non_modal = NmNoAction | NmDwell | NmSetCoordinateData | NmGoHome0 | NmSetHome0 | NmGoHome1
  | NmSetHome1 | NmAbsoluteOverride | NmSetCoordinateOffset | NmResetCoordinateOffset

datatype gc_motion = MoSeek | MoLinear | MoCwArc | MoCcwArc | MoProbeToward | MoProbeTowardNoError
  | MoProbeAway | MoProbeAwayNoError | MoNone

datatype gc_plane = PlaneXY | PlaneZX | PlaneYZ
datatype gc_distance = DistanceAbsolute | DistanceIncremental
datatype program_flow = PfRunning | PfPaused | PfOptionalStop | PfCompletedM2 | PfCompletedM30
datatype gc_feed_rate = UnitsPerMin | InverseTime
datatype gc_units = UnitsMm | UnitsInches
datatype gc_coolant = CoolantNone | CoolantM7 | CoolantM8 | CoolantM9
datatype io_control = IoNone | DigitalOnSync | DigitalOffSync | DigitalOnImmediate
  | DigitalOffImmediate | WaitOnInput | SetAnalogSync | SetAnalogImmediate
datatype tool_length_offset = TloCancel | TloEnableDynamic
datatype override_control = OvParkingMotion | OvDisabled
datatype spindle_state = SpDisable | SpCw | SpCcw | SpUnknown
datatype axis_command = AcNone | AcNonModal | AcMotionMode | AcToolLengthOffset
datatype gc_update_pos = UpdTarget | UpdSystem | UpdNone
datatype wait_on_input_mode = WaitImmediate | WaitRise | WaitFall | WaitHigh | WaitLow

record coolant_state =
  co_mist :: bool
  co_flood :: bool

text \<open>The numbers of the enumerations that a program can read.\<close>

primrec motion_code :: "gc_motion \<Rightarrow> int" where
  "motion_code MoSeek = 0" | "motion_code MoLinear = 10" | "motion_code MoCwArc = 20"
| "motion_code MoCcwArc = 30" | "motion_code MoProbeToward = 382"
| "motion_code MoProbeTowardNoError = 383" | "motion_code MoProbeAway = 384"
| "motion_code MoProbeAwayNoError = 385" | "motion_code MoNone = 800"

primrec plane_code :: "gc_plane \<Rightarrow> int" where
  "plane_code PlaneXY = 170" | "plane_code PlaneZX = 180" | "plane_code PlaneYZ = 190"

primrec spindle_state_code :: "spindle_state \<Rightarrow> nat" where
  "spindle_state_code SpDisable = 5" | "spindle_state_code SpCw = 3"
| "spindle_state_code SpCcw = 4" | "spindle_state_code SpUnknown = 0"

definition CI_G54 :: u16 where "CI_G54 = 0"
definition CI_NWCSystems :: u16 where "CI_NWCSystems = 9"
definition CI_G28 :: u16 where "CI_G28 = 9"
definition CI_G30 :: u16 where "CI_G30 = 10"
definition CI_G92 :: u16 where "CI_G92 = 11"
definition CI_TLO :: u16 where "CI_TLO = 12"

lemmas coord_index_defs = CI_G54_def CI_NWCSystems_def CI_G28_def CI_G30_def CI_G92_def CI_TLO_def

definition MaxUserDigitalPin :: nat where "MaxUserDigitalPin = 8"
definition MaxUserAnalogPin :: nat where "MaxUserAnalogPin = 4"
definition MaxToolNumber :: nat where "MaxToolNumber = 99999999"

subsection \<open>Blocks and the state between blocks\<close>

record gc_modal =
  m_motion :: gc_motion
  m_feed_rate :: gc_feed_rate
  m_units :: gc_units
  m_distance :: gc_distance
  m_plane_select :: gc_plane
  m_tool_length :: tool_length_offset
  m_coord_select :: u16
  m_program_flow :: program_flow
  m_coolant :: coolant_state
  m_spindle :: spindle_state
  m_tool_change :: bool
  m_set_tool_number :: bool
  m_io_control :: io_control
  m_override :: override_control

record gc_values =
  v_e :: u8
  v_f :: real
  v_ijk :: "real list"
  v_l :: u8
  v_n :: i32
  v_o :: u32
  v_p :: real
  v_q :: real
  v_r :: real
  v_s :: real
  v_xyz :: "real list"

record parser_state =
  gs_modal :: gc_modal
  gs_spindle_speed :: real
  gs_feed_rate :: real
  gs_selected_tool :: u32
  gs_current_tool :: i32
  gs_line_number :: i32
  gs_position :: "real list"
  gs_coord_system :: "real list"
  gs_coord_offset :: "real list"
  gs_tool_length_offset :: "real list"
  gs_skip_blocks :: bool

record parser_block =
  b_non_modal_command :: non_modal
  b_modal :: gc_modal
  b_values :: gc_values
  b_coolant :: gc_coolant

definition zero_axes :: "real list" where
  "zero_axes = replicate MAX_N_AXIS 0"

definition gc_values_zero :: gc_values where
  "gc_values_zero = \<lparr>v_e = 0, v_f = 0, v_ijk = [0, 0, 0], v_l = 0, v_n = 0, v_o = 0, v_p = 0,
     v_q = 0, v_r = 0, v_s = 0, v_xyz = zero_axes\<rparr>"

definition modal_defaults :: gc_modal where
  "modal_defaults = \<lparr>m_motion = MoSeek, m_feed_rate = UnitsPerMin, m_units = UnitsMm,
     m_distance = DistanceAbsolute, m_plane_select = PlaneXY, m_tool_length = TloCancel,
     m_coord_select = CI_G54, m_program_flow = PfRunning,
     m_coolant = \<lparr>co_mist = False, co_flood = False\<rparr>, m_spindle = SpDisable,
     m_tool_change = False, m_set_tool_number = False, m_io_control = IoNone,
     m_override = OvParkingMotion\<rparr>"

subsection \<open>Jobs\<close>

text \<open>
  A running file or macro: its local parameters, the place of the next line and the line
  number of its channel, and whether the channel was told to end.
\<close>

record job_source =
  js_id :: nat
  js_local_params :: "string \<rightharpoonup> real"
  js_position :: nat
  js_line_number :: nat
  js_ended :: bool

subsection \<open>Flow control\<close>

datatype ngc_cmd = Op_NoOp | Op_If | Op_ElseIf | Op_Else | Op_EndIf | Op_Do | Op_Continue | Op_Break
  | Op_While | Op_EndWhile | Op_Repeat | Op_EndRepeat | Op_Return | Op_RaiseAlarm | Op_RaiseError

text \<open>The job that an entry belongs to, if any, is its identity; a deleted job keeps its identity.\<close>

record ngc_stack_entry =
  fe_o_label :: u32
  fe_operation :: ngc_cmd
  fe_file :: "nat option"
  fe_file_pos :: nat
  fe_line_number :: nat
  fe_expr :: string
  fe_repeats :: u32
  fe_skip :: bool
  fe_handled :: bool
  fe_brk :: bool

end
