(* ===== verification/EdmSpindle.thy ===== *)
theory EdmSpindle
  imports SimPsu SimDiel WireFeed GcodeState
begin

text \<open>
  The spindle facade (\<^verbatim>\<open>EDM/EdmSpindle.h\<close>, \<^verbatim>\<open>EdmSpindle.cpp\<close>) and the dielectric task
  (\<^verbatim>\<open>EdmDielTask.cpp\<close>). The links that the code keeps behind pointers live in the
  controller that shares them: \<open>ctl_link\<close> is the power-supply link and \<open>ctl_diel\<close> the
  dielectric link. In this revision both are always simulators; the CAN paths of \<open>init\<close> are
  unfinished and fall back to them. Starting a task is not modelled here, its body is.
\<close>

subsection \<open>Configuration\<close>

record edm_diel_config =
  ed_use_sim :: bool
  ed_required :: bool
  ed_flow_min_clpm :: u32
  ed_level_min_pct :: u32
  ed_conductivity_warn_uS :: u32
  ed_temp_setpoint_dC :: i32
  ed_default_flush_level :: u32

definition edm_diel_config_default :: edm_diel_config where
  "edm_diel_config_default = \<lparr>ed_use_sim = True, ed_required = False, ed_flow_min_clpm = 100,
     ed_level_min_pct = 15, ed_conductivity_warn_uS = 20, ed_temp_setpoint_dC = 220,
     ed_default_flush_level = 2\<rparr>"

record edm_spindle =
  es_cfg :: servo_config
  es_modes :: mode_table
  es_use_sim :: bool
  es_report_hz :: i32
  es_ctl :: "(sim_psu, sim_diel) edm_controller option"
  es_feed_cfg :: "wire_feed_config option"
  es_feed :: "wire_feed option"
  es_diel_cfg :: "edm_diel_config option"
  es_diel_temp_setpoint_dC :: i32
  es_diel_default_flush_level :: u32
  es_current_state :: spindle_state
  es_current_speed :: u32

definition edm_spindle_new ::
    "wire_feed_config option \<Rightarrow> edm_diel_config option \<Rightarrow> edm_spindle" where
  "edm_spindle_new feed_cfg diel_cfg = \<lparr>es_cfg = servo_config_default,
     es_modes = mode_table_default, es_use_sim = True, es_report_hz = 10, es_ctl = None,
     es_feed_cfg = feed_cfg, es_feed = None, es_diel_cfg = diel_cfg,
     es_diel_temp_setpoint_dC = 220, es_diel_default_flush_level = 2,
     es_current_state = SpUnknown, es_current_speed = 0\<rparr>"

definition dielDefaults :: "edm_spindle \<Rightarrow> set_diel" where
  "dielDefaults s = set_diel_default\<lparr>sd_flush_level := ucast (es_diel_default_flush_level s),
     sd_temp_setpoint_dC := ucast (es_diel_temp_setpoint_dC s),
     sd_deioniser_enable := 1, sd_pump_on := 1\<rparr>"

text \<open>\<open>_diel->setDiel\<close> on the link that the controller shares.\<close>

definition spindle_setDiel :: "set_diel \<Rightarrow> edm_spindle \<Rightarrow> edm_spindle" where
  "spindle_setDiel sd s =
     s\<lparr>es_ctl := map_option (\<lambda>c. c\<lparr>ctl_diel := map_option (\<lambda>d. snd (sim_setDiel sd d)) (ctl_diel c)\<rparr>)
       (es_ctl s)\<rparr>"

subsection \<open>Operations\<close>

definition build_interlock :: "edm_diel_config \<Rightarrow> diel_interlock" where
  "build_interlock dcfg = \<lparr>di_required = ed_required dcfg,
     di_flow_min_clpm = ucast (ed_flow_min_clpm dcfg),
     di_level_min_pct = ucast (ed_level_min_pct dcfg),
     di_conductivity_warn_uS = ucast (ed_conductivity_warn_uS dcfg)\<rparr>"

definition edm_init :: "u32 \<Rightarrow> edm_spindle \<Rightarrow> edm_spindle" where
  "edm_init now_ms s =
     (let link = sim_begin sim_init;
          ctl = controller_init link (es_cfg s) (es_modes s) controller_timers_default;
          dcfg = (case es_diel_cfg s of Some d \<Rightarrow> d | None \<Rightarrow> edm_diel_config_default);
          s = s\<lparr>es_diel_temp_setpoint_dC := ed_temp_setpoint_dC dcfg,
                es_diel_default_flush_level := ed_default_flush_level dcfg\<rparr>;
          sim = sim_diel_begin sim_diel_init;
          ctl = attachDielectric (Some sim) (build_interlock dcfg) ctl;
          s = spindle_setDiel (dielDefaults s) (s\<lparr>es_ctl := Some ctl\<rparr>)
      in case es_feed_cfg s of
           None \<Rightarrow> s
         | Some cfg \<Rightarrow> s\<lparr>es_feed := Some (wire_feed_begin cfg now_ms wire_feed_new)\<rparr>)"

definition edm_setState :: "spindle_state \<Rightarrow> u32 \<Rightarrow> edm_spindle \<Rightarrow> edm_spindle" where
  "edm_setState st speed s =
     (case es_ctl s of
        None \<Rightarrow> s
      | Some c \<Rightarrow>
          let c = (if st = SpDisable \<or> speed = 0 then requestStop sim_psu_ops c
                   else requestCut sim_psu_ops (ucast speed) c)
          in s\<lparr>es_ctl := Some c, es_current_state := st, es_current_speed := speed\<rparr>)"

subsection \<open>The tasks\<close>

text \<open>One iteration of \<open>edmServoLoop\<close>, \<open>edmDielLoop\<close> and \<open>wireFeedLoop\<close>.\<close>

definition servo_task :: "u32 \<Rightarrow> edm_spindle \<Rightarrow> edm_spindle" where
  "servo_task now_ms s = s\<lparr>es_ctl := map_option (tick sim_psu_ops sim_diel_ops now_ms) (es_ctl s)\<rparr>"

definition isCutting :: "edm_state \<Rightarrow> bool" where
  "isCutting s \<longleftrightarrow> s = StTouchOff \<or> s = StCutting \<or> s = StHold \<or> s = StBreakRelief"

definition diel_task_ctl :: "(sim_psu, sim_diel) edm_controller \<Rightarrow> (sim_psu, sim_diel) edm_controller" where
  "diel_task_ctl c = c\<lparr>ctl_diel := map_option
     (\<lambda>d. sim_diel_tick (sim_diel_setCutting (isCutting (ctl_state c)) d)) (ctl_diel c)\<rparr>"

definition diel_task :: "edm_spindle \<Rightarrow> edm_spindle" where
  "diel_task s = s\<lparr>es_ctl := map_option diel_task_ctl (es_ctl s)\<rparr>"

definition feed_task :: "u32 \<Rightarrow> bool \<Rightarrow> (nat \<Rightarrow> bool) \<Rightarrow> edm_spindle \<Rightarrow> edm_spindle" where
  "feed_task now_ms dout_level dout s =
     s\<lparr>es_feed := map_option
         (wire_feed_tick (map_option feed_view_of (es_ctl s)) dout_level dout now_ms) (es_feed s)\<rparr>"

end
