(* ===== verification/JsonEncoder.thy ===== *)
theory JsonEncoder
  imports StringUtil
begin

text \<open>
  The JSON encoder of \<^verbatim>\<open>JSONEncoder.h\<close> and \<^verbatim>\<open>JSONEncoder.cpp\<close>: text collected in a line
  buffer and handed over in pieces, to a channel inside \<open>[MSG:JSON:...]\<close> packets, to a
  channel as plain lines, or to a callback. What is handed over is the trace \<open>je_out\<close>. The
  contents of \<open>count\<close> above the current level, which C++ leaves uninitialised, are zeros;
  they are written before they are read.
\<close>

subsection \<open>State\<close>

datatype json_out = JoBegin string | JoEnd string | JoAcked string | JoLog string
  | JoCallback string

record json_encoder =
  je_tag :: "string option"
  je_channel :: bool
  je_level :: u32
  je_count :: "u32 list"
  je_linebuf :: string
  je_category :: string
  je_out :: "json_out list"

definition MAX_JSON_LEVEL :: u32 where "MAX_JSON_LEVEL = 16"

definition json_channel :: "string option \<Rightarrow> json_encoder" where
  "json_channel json_tag = \<lparr>je_tag = json_tag, je_channel = True, je_level = 0,
     je_count = replicate 16 0, je_linebuf = [], je_category = ''nvs'', je_out = []\<rparr>"

definition json_callback :: json_encoder where
  "json_callback = \<lparr>je_tag = None, je_channel = False, je_level = 0,
     je_count = replicate 16 0, je_linebuf = [], je_category = [], je_out = []\<rparr>"

definition je_emit :: "json_out \<Rightarrow> json_encoder \<Rightarrow> json_encoder" where
  "je_emit e j = j\<lparr>je_out := je_out j @ [e]\<rparr>"

subsection \<open>Text\<close>

definition je_flush :: "json_encoder \<Rightarrow> json_encoder" where
  "je_flush j =
     (if je_linebuf j \<noteq> []
      then (je_emit (if je_channel j
                     then if je_tag j \<noteq> None then JoAcked (je_linebuf j) else JoLog (je_linebuf j)
                     else JoCallback (je_linebuf j)) j)\<lparr>je_linebuf := []\<rparr>
      else j)"

definition je_add :: "char \<Rightarrow> json_encoder \<Rightarrow> json_encoder" where
  "je_add c j =
     (let j = j\<lparr>je_linebuf := je_linebuf j @ [c]\<rparr>
      in if je_channel j \<and> 100 \<le> length (je_linebuf j) then je_flush j else j)"

definition je_adds :: "string \<Rightarrow> json_encoder \<Rightarrow> json_encoder" where
  "je_adds s j = fold je_add s j"

definition json_verbatim :: "string \<Rightarrow> json_encoder \<Rightarrow> json_encoder" where
  "json_verbatim s j = je_adds (filter (\<lambda>c. c \<noteq> CHR 0x0A) s) j"

definition json_escape :: "char \<Rightarrow> string" where
  "json_escape c =
     (if c = CHR 0x08 then [CHR 0x5C, CHR ''b'']
      else if c = CHR 0x0A then [CHR 0x5C, CHR ''n'']
      else if c = CHR 0x0C then [CHR 0x5C, CHR ''f'']
      else if c = CHR 0x0D then [CHR 0x5C, CHR ''r'']
      else if c = CHR 0x09 then [CHR 0x5C, CHR ''t'']
      else if c = CHR 0x22 then [CHR 0x5C, CHR 0x22]
      else if c = CHR 0x5C then [CHR 0x5C, c]
      else [c])"

text \<open>The text that \<open>quoted\<close> adds; a C string ends at its first NUL.\<close>

definition c_str :: "string \<Rightarrow> string" where
  "c_str s = takeWhile (\<lambda>c. c \<noteq> CHR 0x00) s"

definition json_quote :: "string \<Rightarrow> string" where
  "json_quote s = [CHR 0x22] @ concat (map json_escape (c_str s)) @ [CHR 0x22]"

definition je_quoted :: "string \<Rightarrow> json_encoder \<Rightarrow> json_encoder" where
  "je_quoted s j = je_adds (json_quote s) j"

subsection \<open>Levels and lines\<close>

definition je_indent :: "json_encoder \<Rightarrow> json_encoder" where
  "je_indent j = je_adds (replicate (unat (2 * je_level j)) CHR '' '') j"

definition je_line :: "json_encoder \<Rightarrow> json_encoder" where
  "je_line j =
     (if je_channel j
      then if je_tag j \<noteq> None then j
           else je_indent ((je_emit (JoLog (je_linebuf j)) j)\<lparr>je_linebuf := []\<rparr>)
      else je_indent (je_add CHR 0x0A j))"

definition je_bump :: "json_encoder \<Rightarrow> json_encoder" where
  "je_bump j = j\<lparr>je_count := (je_count j)
     [unat (je_level j) := je_count j ! unat (je_level j) + 1]\<rparr>"

definition je_comma_line :: "json_encoder \<Rightarrow> json_encoder" where
  "je_comma_line j =
     je_bump (if je_count j ! unat (je_level j) \<noteq> 0 then je_line (je_add CHR '','' j) else j)"

definition je_comma :: "json_encoder \<Rightarrow> json_encoder" where
  "je_comma j = je_bump (if je_count j ! unat (je_level j) \<noteq> 0 then je_add CHR '','' j else j)"

definition inc_level :: "json_encoder \<Rightarrow> json_encoder" where
  "inc_level j =
     (let l = (if je_level j + 1 = MAX_JSON_LEVEL then je_level j else je_level j + 1)
      in j\<lparr>je_level := l, je_count := (je_count j)[unat l := 0]\<rparr>)"

definition dec_level :: "json_encoder \<Rightarrow> json_encoder" where
  "dec_level j = j\<lparr>je_level := je_level j - 1\<rparr>"

subsection \<open>Elements\<close>

definition json_string :: "string \<Rightarrow> json_encoder \<Rightarrow> json_encoder" where
  "json_string s j = je_quoted s (je_comma_line j)"

definition begin_member :: "string \<Rightarrow> json_encoder \<Rightarrow> json_encoder" where
  "begin_member tag j = je_add CHR '':'' (je_quoted tag (je_comma_line j))"

definition json_member :: "string \<Rightarrow> string \<Rightarrow> json_encoder \<Rightarrow> json_encoder" where
  "json_member tag v j = je_quoted v (begin_member tag j)"

definition json_member_int :: "string \<Rightarrow> i32 \<Rightarrow> json_encoder \<Rightarrow> json_encoder" where
  "json_member_int tag v j = json_member tag (to_string (sint v)) j"

definition begin_array :: "string \<Rightarrow> json_encoder \<Rightarrow> json_encoder" where
  "begin_array tag j = je_line (inc_level (je_add CHR ''['' (begin_member tag j)))"

definition end_array :: "json_encoder \<Rightarrow> json_encoder" where
  "end_array j = je_add CHR '']'' (je_line (dec_level j))"

definition begin_member_object :: "string \<Rightarrow> json_encoder \<Rightarrow> json_encoder" where
  "begin_member_object tag j =
     inc_level (je_add CHR ''{'' (je_add CHR '':'' (je_quoted tag (je_comma_line j))))"

definition begin_object :: "json_encoder \<Rightarrow> json_encoder" where
  "begin_object j = inc_level (je_add CHR ''{'' (je_comma_line j))"

definition end_object :: "json_encoder \<Rightarrow> json_encoder" where
  "end_object j = je_add CHR ''}'' (je_line (dec_level j))"

definition json_begin :: "json_encoder \<Rightarrow> json_encoder" where
  "json_begin j =
     begin_object (case je_tag j of Some t \<Rightarrow> if je_channel j then je_emit (JoBegin t) j else j
                   | None \<Rightarrow> j)"

definition json_end :: "json_encoder \<Rightarrow> json_encoder" where
  "json_end j =
     (let j = je_flush (je_line (end_object j))
      in case je_tag j of Some t \<Rightarrow> if je_channel j then je_emit (JoEnd t) j else j | None \<Rightarrow> j)"

subsection \<open>Configuration items of the WebUI\<close>

definition begin_webui :: "string \<Rightarrow> string \<Rightarrow> string \<Rightarrow> json_encoder \<Rightarrow> json_encoder" where
  "begin_webui name type val j =
     (let j = begin_object j;
          j = json_member ''F'' (je_category j) j;
          j = json_member ''P'' name j;
          j = json_member ''H'' name j;
          j = json_member ''T'' type j
      in json_member ''V'' val j)"

definition begin_webui_int :: "string \<Rightarrow> string \<Rightarrow> i32 \<Rightarrow> json_encoder \<Rightarrow> json_encoder" where
  "begin_webui_int name type val j = begin_webui name type (to_string (sint val)) j"

definition begin_webui_range ::
    "string \<Rightarrow> string \<Rightarrow> string \<Rightarrow> i32 \<Rightarrow> i32 \<Rightarrow> json_encoder \<Rightarrow> json_encoder" where
  "begin_webui_range name type val lo hi j =
     json_member_int ''M'' lo (json_member_int ''S'' hi (begin_webui name type val j))"

definition id_value_object :: "string \<Rightarrow> string \<Rightarrow> json_encoder \<Rightarrow> json_encoder" where
  "id_value_object i v j =
     end_object (json_member ''value'' v (json_member ''id'' i (begin_object j)))"

definition id_value_object_int :: "string \<Rightarrow> i32 \<Rightarrow> json_encoder \<Rightarrow> json_encoder" where
  "id_value_object_int i v j = id_value_object i (to_string (sint v)) j"

subsection \<open>Encapsulated text\<close>

text \<open>
  The bytes an encapsulated encoder has produced: the contents of its packets, which the
  receiver splices, and what is still in the line buffer.
\<close>

definition tagged :: "json_encoder \<Rightarrow> bool" where
  "tagged j \<longleftrightarrow> je_channel j \<and> je_tag j \<noteq> None"

fun packet :: "json_out \<Rightarrow> string" where
  "packet (JoAcked s) = s"
| "packet _ = []"

definition json_sent :: "json_encoder \<Rightarrow> string" where
  "json_sent j = concat (map packet (je_out j))"

definition json_text :: "json_encoder \<Rightarrow> string" where
  "json_text j = json_sent j @ je_linebuf j"

text \<open>\<open>prints s j j'\<close>: the step from \<open>j\<close> to \<open>j'\<close> adds the text \<open>s\<close> and nothing else.\<close>

definition prints :: "string \<Rightarrow> json_encoder \<Rightarrow> json_encoder \<Rightarrow> bool" where
  "prints s j j' \<longleftrightarrow> tagged j' \<and> json_text j' = json_text j @ s
     \<and> je_level j' = je_level j \<and> je_count j' = je_count j"

lemma prints_add: "tagged j \<Longrightarrow> prints [c] j (je_add c j)"
  by (simp add: prints_def je_add_def je_flush_def je_emit_def tagged_def json_text_def
      json_sent_def Let_def)

lemma prints_trans: "prints s j j' \<Longrightarrow> prints t j' j'' \<Longrightarrow> prints (s @ t) j j''"
  by (simp add: prints_def)

lemma prints_tagged: "prints s j j' \<Longrightarrow> tagged j'"
  by (simp add: prints_def)

lemma prints_adds: "tagged j \<Longrightarrow> prints s j (je_adds s j)"
proof (induction s arbitrary: j)
  case Nil
  then show ?case by (simp add: je_adds_def prints_def)
next
  case (Cons c s)
  have p: "prints [c] j (je_add c j)" using Cons.prems by (rule prints_add)
  from prints_trans [OF p Cons.IH [OF prints_tagged [OF p]]] show ?case
    by (simp add: je_adds_def)
qed

lemma prints_quoted: "tagged j \<Longrightarrow> prints (json_quote s) j (je_quoted s j)"
  by (simp add: je_quoted_def prints_adds)

lemma prints_verbatim: "tagged j \<Longrightarrow> prints (filter (\<lambda>c. c \<noteq> CHR 0x0A) s) j (json_verbatim s j)"
  by (simp add: json_verbatim_def prints_adds)

lemma tagged_line [simp]: "tagged j \<Longrightarrow> je_line j = j"
  by (simp add: tagged_def je_line_def)

text \<open>
  \<open>moves s l n j j'\<close>: \<open>j'\<close> is at the level \<open>l\<close> of \<open>j\<close>, has printed \<open>s\<close> and counts \<open>n\<close> more
  elements at that level; the outer levels are untouched.
\<close>

definition moves :: "string \<Rightarrow> nat \<Rightarrow> json_encoder \<Rightarrow> json_encoder \<Rightarrow> bool" where
  "moves s n j j' \<longleftrightarrow> tagged j' \<and> json_text j' = json_text j @ s \<and> je_level j' = je_level j
     \<and> length (je_count j') = length (je_count j)
     \<and> (\<forall>i < unat (je_level j). je_count j' ! i = je_count j ! i)
     \<and> je_count j' ! unat (je_level j) = je_count j ! unat (je_level j) + of_nat n"

lemma moves_trans: "moves s m j j' \<Longrightarrow> moves t n j' j'' \<Longrightarrow> moves (s @ t) (m + n) j j''"
  by (simp add: moves_def)

lemma moves_prints: "moves s n j j' \<Longrightarrow> prints t j' j'' \<Longrightarrow> moves (s @ t) n j j''"
  by (simp add: moves_def prints_def)

lemma moves_refl: "tagged j \<Longrightarrow> moves [] 0 j j"
  by (simp add: moves_def)

definition levels_ok :: "json_encoder \<Rightarrow> bool" where
  "levels_ok j \<longleftrightarrow> tagged j \<and> length (je_count j) = 16 \<and> unat (je_level j) < 16"

lemma moves_levels_ok: "levels_ok j \<Longrightarrow> moves s n j j' \<Longrightarrow> levels_ok j'"
  by (simp add: levels_ok_def moves_def)

definition comma_text :: "bool \<Rightarrow> string" where
  "comma_text sep = (if sep then '','' else [])"

definition je_more :: "json_encoder \<Rightarrow> bool" where
  "je_more j \<longleftrightarrow> je_count j ! unat (je_level j) \<noteq> 0"

lemma moves_comma_line: "levels_ok j \<Longrightarrow> moves (comma_text (je_more j)) 1 j (je_comma_line j)"
proof -
  assume ok: "levels_ok j"
  then have t: "tagged j" and l: "unat (je_level j) < length (je_count j)"
    by (simp_all add: levels_ok_def)
  have bump: "moves s 1 j (je_bump j')" if "prints s j j'" for s j'
    using that l by (simp add: moves_def prints_def je_bump_def tagged_def json_text_def json_sent_def)
  show ?thesis
  proof (cases "je_more j")
    case True
    have p: "prints '','' j (je_add CHR '','' j)" using t by (rule prints_add)
    with True show ?thesis
      using bump [OF p] tagged_line [OF prints_tagged [OF p]]
      by (simp add: je_comma_line_def je_more_def comma_text_def)
  next
    case False
    have "prints [] j j" using t by (simp add: prints_def)
    from bump [OF this] False show ?thesis by (simp add: je_comma_line_def je_more_def comma_text_def)
  qed
qed

lemma moves_begin_member:
  assumes "levels_ok j"
  shows "moves (comma_text (je_more j) @ json_quote tag @ '':'') 1 j (begin_member tag j)"
proof -
  have m: "moves (comma_text (je_more j)) 1 j (je_comma_line j)"
    using assms by (rule moves_comma_line)
  then have t: "tagged (je_comma_line j)" by (simp add: moves_def)
  have p: "prints (json_quote tag) (je_comma_line j) (je_quoted tag (je_comma_line j))"
    using t by (rule prints_quoted)
  have "moves ((comma_text (je_more j) @ json_quote tag) @ '':'') 1 j (begin_member tag j)"
    unfolding begin_member_def
    by (rule moves_prints [OF moves_prints [OF m p] prints_add [OF prints_tagged [OF p]]])
  then show ?thesis by simp
qed

text \<open>Opening a level after some output, printing inside it, and closing it again.\<close>

lemma inc_level_fields:
  assumes "levels_ok j" "unat (je_level j) < 15"
  shows "unat (je_level (inc_level j)) = Suc (unat (je_level j))" and "levels_ok (inc_level j)"
    and "json_text (inc_level j) = json_text j" and "\<not> je_more (inc_level j)"
    and "i \<le> unat (je_level j) \<Longrightarrow> je_count (inc_level j) ! i = je_count j ! i"
    and "je_level (inc_level j) = je_level j + 1"
proof -
  have lt: "unat (je_level j) + 1 < 2 ^ 32" using assms(2) by simp
  then have u: "unat (je_level j + 1) = Suc (unat (je_level j))" by (simp add: unat_word_ariths)
  then have ne: "je_level j + 1 \<noteq> MAX_JSON_LEVEL"
    using assms(2) by (auto simp: MAX_JSON_LEVEL_def)
  show "unat (je_level (inc_level j)) = Suc (unat (je_level j))"
    using u ne by (simp add: inc_level_def Let_def)
  show "levels_ok (inc_level j)" using assms u ne
    by (simp add: inc_level_def levels_ok_def tagged_def Let_def)
  show "json_text (inc_level j) = json_text j"
    by (simp add: inc_level_def json_text_def json_sent_def Let_def)
  show "\<not> je_more (inc_level j)" using assms u ne
    by (simp add: inc_level_def je_more_def levels_ok_def Let_def)
  show "i \<le> unat (je_level j) \<Longrightarrow> je_count (inc_level j) ! i = je_count j ! i"
    using u ne by (simp add: inc_level_def Let_def)
  show "je_level (inc_level j) = je_level j + 1" using ne by (simp add: inc_level_def Let_def)
qed

lemma moves_nested:
  assumes m: "moves s 1 j k" and ok: "levels_ok j" and lvl: "unat (je_level j) < 15"
    and inner: "moves t n (inc_level k) k'"
  shows "moves (s @ t @ [c]) 1 j (je_add c (je_line (dec_level k')))"
proof -
  have ok': "levels_ok k" using moves_levels_ok [OF ok m] .
  have lvl': "unat (je_level k) < 15" using m lvl by (simp add: moves_def)
  note inc = inc_level_fields [OF ok' lvl']
  have dec: "je_level (dec_level k') = je_level j"
  proof -
    have "je_level k' = je_level k + 1"
      using inner inc(6) by (simp add: moves_def)
    then show ?thesis using m by (simp add: dec_level_def moves_def)
  qed
  have tx: "json_text (dec_level k') = json_text j @ s @ t"
    using inner m inc(3) by (simp add: moves_def dec_level_def json_text_def json_sent_def)
  have tg: "tagged (dec_level k')" using inner by (simp add: moves_def tagged_def dec_level_def)
  have counts: "je_count k' ! i = je_count k ! i" if "i \<le> unat (je_level k)" for i
    using inner inc(1) inc(5) [OF that] that by (simp add: moves_def)
  have "moves (s @ t) 1 j (dec_level k')"
    using m inner inc(2) ok' tx tg dec counts
    by (simp add: moves_def levels_ok_def) (simp add: dec_level_def)
  from moves_prints [OF this prints_add [OF tg]] tg show ?thesis by simp
qed

subsection \<open>Trees\<close>

text \<open>
  The objects a client writes with the element operations, as trees: a quoted string, a
  verbatim literal, a nested object, an array of strings and objects.
\<close>

datatype json = JStr string | JRaw string | JObj json_members | JArr json_elems
  and json_members = MNil | MCons string json json_members
  and json_elems = ENil | EStr string json_elems | EObj json_members json_elems

primrec render_value :: "json \<Rightarrow> string"
  and render_members :: "json_members \<Rightarrow> bool \<Rightarrow> string"
  and render_elems :: "json_elems \<Rightarrow> bool \<Rightarrow> string" where
  "render_value (JStr s) = json_quote s"
| "render_value (JRaw s) = filter (\<lambda>c. c \<noteq> CHR 0x0A) s"
| "render_value (JObj ms) = ''{'' @ render_members ms False @ ''}''"
| "render_value (JArr es) = ''['' @ render_elems es False @ '']''"
| "render_members MNil sep = []"
| "render_members (MCons tag v ms) sep =
     comma_text sep @ json_quote tag @ '':'' @ render_value v @ render_members ms True"
| "render_elems ENil sep = []"
| "render_elems (EStr s es) sep = comma_text sep @ json_quote s @ render_elems es True"
| "render_elems (EObj ms es) sep =
     comma_text sep @ ''{'' @ render_members ms False @ ''}'' @ render_elems es True"

text \<open>The calls that write a tree.\<close>

primrec write_value :: "json \<Rightarrow> string \<Rightarrow> json_encoder \<Rightarrow> json_encoder"
  and write_members :: "json_members \<Rightarrow> json_encoder \<Rightarrow> json_encoder"
  and write_elems :: "json_elems \<Rightarrow> json_encoder \<Rightarrow> json_encoder" where
  "write_value (JStr s) tag j = json_member tag s j"
| "write_value (JRaw s) tag j = json_verbatim s (begin_member tag j)"
| "write_value (JObj ms) tag j = end_object (write_members ms (begin_member_object tag j))"
| "write_value (JArr es) tag j = end_array (write_elems es (begin_array tag j))"
| "write_members MNil j = j"
| "write_members (MCons tag v ms) j = write_members ms (write_value v tag j)"
| "write_elems ENil j = j"
| "write_elems (EStr s es) j = write_elems es (json_string s j)"
| "write_elems (EObj ms es) j = write_elems es (end_object (write_members ms (begin_object j)))"

primrec json_depth :: "json \<Rightarrow> nat"
  and members_depth :: "json_members \<Rightarrow> nat"
  and elems_depth :: "json_elems \<Rightarrow> nat" where
  "json_depth (JStr s) = 0"
| "json_depth (JRaw s) = 0"
| "json_depth (JObj ms) = Suc (members_depth ms)"
| "json_depth (JArr es) = Suc (elems_depth es)"
| "members_depth MNil = 0"
| "members_depth (MCons tag v ms) = max (json_depth v) (members_depth ms)"
| "elems_depth ENil = 0"
| "elems_depth (EStr s es) = elems_depth es"
| "elems_depth (EObj ms es) = max (Suc (members_depth ms)) (elems_depth es)"

primrec members_count :: "json_members \<Rightarrow> nat" where
  "members_count MNil = 0"
| "members_count (MCons tag v ms) = Suc (members_count ms)"

primrec elems_count :: "json_elems \<Rightarrow> nat" where
  "elems_count ENil = 0"
| "elems_count (EStr s es) = Suc (elems_count es)"
| "elems_count (EObj ms es) = Suc (elems_count es)"

text \<open>No object or array has \<open>2 ^ 32\<close> elements, where the counter of a level would wrap.\<close>

primrec json_small :: "json \<Rightarrow> bool"
  and members_small :: "json_members \<Rightarrow> bool"
  and elems_small :: "json_elems \<Rightarrow> bool" where
  "json_small (JStr s) = True"
| "json_small (JRaw s) = True"
| "json_small (JObj ms) = (members_count ms < 2 ^ 32 \<and> members_small ms)"
| "json_small (JArr es) = (elems_count es < 2 ^ 32 \<and> elems_small es)"
| "members_small MNil = True"
| "members_small (MCons tag v ms) = (json_small v \<and> members_small ms)"
| "elems_small ENil = True"
| "elems_small (EStr s es) = elems_small es"
| "elems_small (EObj ms es) = (members_count ms < 2 ^ 32 \<and> members_small ms \<and> elems_small es)"

lemma moves_more:
  assumes "moves s (Suc 0) j j'" "unat (je_count j ! unat (je_level j)) + Suc n < 2 ^ 32"
  shows "je_more j'" and "unat (je_count j' ! unat (je_level j')) = Suc (unat (je_count j ! unat (je_level j)))"
proof -
  have "je_count j' ! unat (je_level j') = je_count j ! unat (je_level j) + 1"
    using assms(1) by (simp add: moves_def)
  then show u: "unat (je_count j' ! unat (je_level j')) = Suc (unat (je_count j ! unat (je_level j)))"
    using assms(2) by (simp add: unat_word_ariths)
  then show "je_more j'" by (auto simp: je_more_def)
qed

lemma moves_begin_object:
  assumes "levels_ok j"
  shows "moves (comma_text (je_more j) @ ''{'') 1 j (je_add CHR ''{'' (je_comma_line j))"
  using moves_prints [OF moves_comma_line [OF assms] prints_add] moves_comma_line [OF assms]
  by (simp add: moves_def)

text \<open>Writing a tree prints its rendering, as long as it nests less deep than the encoder.\<close>

lemma write_tree:
  "levels_ok j \<Longrightarrow> unat (je_level j) + json_depth v < 16 \<Longrightarrow> json_small v \<Longrightarrow>
     moves (comma_text (je_more j) @ json_quote tag @ '':'' @ render_value v) 1 j (write_value v tag j)"
  "levels_ok j \<Longrightarrow> unat (je_level j) + members_depth ms < 16 \<Longrightarrow> members_small ms \<Longrightarrow>
     unat (je_count j ! unat (je_level j)) + members_count ms < 2 ^ 32 \<Longrightarrow>
     moves (render_members ms (je_more j)) (members_count ms) j (write_members ms j)"
  "levels_ok j \<Longrightarrow> unat (je_level j) + elems_depth es < 16 \<Longrightarrow> elems_small es \<Longrightarrow>
     unat (je_count j ! unat (je_level j)) + elems_count es < 2 ^ 32 \<Longrightarrow>
     moves (render_elems es (je_more j)) (elems_count es) j (write_elems es j)"
proof (induction v and ms and es arbitrary: tag j and j and j)
  case (JStr s)
  have m: "moves (comma_text (je_more j) @ json_quote tag @ '':'') 1 j (begin_member tag j)"
    using JStr by (intro moves_begin_member)
  then have "tagged (begin_member tag j)" by (simp add: moves_def)
  from moves_prints [OF m prints_quoted [OF this]] show ?case by (simp add: json_member_def)
next
  case (JRaw s)
  have m: "moves (comma_text (je_more j) @ json_quote tag @ '':'') 1 j (begin_member tag j)"
    using JRaw by (intro moves_begin_member)
  then have "tagged (begin_member tag j)" by (simp add: moves_def)
  from moves_prints [OF m prints_verbatim [OF this]] show ?case by simp
next
  case (JObj ms)
  have lvl: "unat (je_level j) < 15" using JObj.prems(2) by simp
  define k where "k = je_add CHR ''{'' (begin_member tag j)"
  have m0: "moves (comma_text (je_more j) @ json_quote tag @ '':'') 1 j (begin_member tag j)"
    using JObj.prems(1) by (rule moves_begin_member)
  then have "tagged (begin_member tag j)" by (simp add: moves_def)
  from moves_prints [OF m0 prints_add [OF this]]
  have m: "moves ((comma_text (je_more j) @ json_quote tag @ '':'') @ ''{'') 1 j k"
    unfolding k_def .
  have ok: "levels_ok k" using moves_levels_ok [OF JObj.prems(1) m] .
  have lk: "unat (je_level k) < 15" using m lvl by (simp add: moves_def)
  note inc = inc_level_fields [OF ok lk]
  have kl: "je_level k = je_level j" using m by (simp add: moves_def)
  have z: "je_count (inc_level k) ! unat (je_level (inc_level k)) = 0"
    using inc(4) by (simp add: je_more_def)
  have inner: "moves (render_members ms False) (members_count ms) (inc_level k)
      (write_members ms (inc_level k))"
    using JObj.IH [OF inc(2)] JObj.prems inc(1,4) kl z by simp
  have bo: "begin_member_object tag j = inc_level k"
    by (simp add: begin_member_object_def k_def begin_member_def)
  show ?case
    using moves_nested [OF m JObj.prems(1) lvl inner, of "CHR ''}''"]
    by (simp add: end_object_def bo)
next
  case (JArr es)
  have lvl: "unat (je_level j) < 15" using JArr.prems(2) by simp
  define k where "k = je_add CHR ''['' (begin_member tag j)"
  have m0: "moves (comma_text (je_more j) @ json_quote tag @ '':'') 1 j (begin_member tag j)"
    using JArr.prems(1) by (rule moves_begin_member)
  then have "tagged (begin_member tag j)" by (simp add: moves_def)
  from moves_prints [OF m0 prints_add [OF this]]
  have m: "moves ((comma_text (je_more j) @ json_quote tag @ '':'') @ ''['') 1 j k"
    unfolding k_def .
  have ok: "levels_ok k" using moves_levels_ok [OF JArr.prems(1) m] .
  have lk: "unat (je_level k) < 15" using m lvl by (simp add: moves_def)
  note inc = inc_level_fields [OF ok lk]
  have kl: "je_level k = je_level j" using m by (simp add: moves_def)
  have z: "je_count (inc_level k) ! unat (je_level (inc_level k)) = 0"
    using inc(4) by (simp add: je_more_def)
  have inner: "moves (render_elems es False) (elems_count es) (inc_level k)
      (write_elems es (inc_level k))"
    using JArr.IH [OF inc(2)] JArr.prems inc(1,4) kl z by simp
  have bo: "begin_array tag j = inc_level k"
    using inc(2) by (simp add: begin_array_def k_def levels_ok_def)
  show ?case
    using moves_nested [OF m JArr.prems(1) lvl inner, of "CHR '']''"]
    by (simp add: end_array_def bo)
next
  case MNil
  then show ?case by (simp add: moves_refl levels_ok_def)
next
  case (MCons tag v ms)
  have m: "moves (comma_text (je_more j) @ json_quote tag @ '':'' @ render_value v) (Suc 0) j
      (write_value v tag j)"
    using MCons.IH(1) [of j tag] MCons.prems by simp
  have ok: "levels_ok (write_value v tag j)" using moves_levels_ok [OF MCons.prems(1) m] .
  have more: "je_more (write_value v tag j)"
    "unat (je_count (write_value v tag j) ! unat (je_level (write_value v tag j)))
      = Suc (unat (je_count j ! unat (je_level j)))"
    using moves_more [OF m, of "members_count ms"] MCons.prems(4) by simp_all
  have l: "je_level (write_value v tag j) = je_level j" using m by (simp add: moves_def)
  have "moves (render_members ms True) (members_count ms) (write_value v tag j)
      (write_members ms (write_value v tag j))"
    using MCons.IH(2) [OF ok] MCons.prems more l by simp
  from moves_trans [OF m this] show ?case by simp
next
  case ENil
  then show ?case by (simp add: moves_refl levels_ok_def)
next
  case (EStr s es)
  have m0: "moves (comma_text (je_more j)) 1 j (je_comma_line j)"
    using EStr.prems(1) by (rule moves_comma_line)
  then have "tagged (je_comma_line j)" by (simp add: moves_def)
  from moves_prints [OF m0 prints_quoted [OF this]]
  have m: "moves (comma_text (je_more j) @ json_quote s) (Suc 0) j (json_string s j)"
    by (simp add: json_string_def)
  have ok: "levels_ok (json_string s j)" using moves_levels_ok [OF EStr.prems(1) m] .
  have more: "je_more (json_string s j)"
    "unat (je_count (json_string s j) ! unat (je_level (json_string s j)))
      = Suc (unat (je_count j ! unat (je_level j)))"
    using moves_more [OF m, of "elems_count es"] EStr.prems(4) by simp_all
  have l: "je_level (json_string s j) = je_level j" using m by (simp add: moves_def)
  have "moves (render_elems es True) (elems_count es) (json_string s j)
      (write_elems es (json_string s j))"
    using EStr.IH [OF ok] EStr.prems more l by simp
  from moves_trans [OF m this] show ?case by simp
next
  case (EObj ms es)
  define k where "k = je_add CHR ''{'' (je_comma_line j)"
  have m0: "moves (comma_text (je_more j) @ ''{'') 1 j k"
    unfolding k_def using EObj.prems(1) by (rule moves_begin_object)
  have lvl: "unat (je_level j) < 15" using EObj.prems(2) by simp
  have ok: "levels_ok k" using moves_levels_ok [OF EObj.prems(1) m0] .
  have kl: "je_level k = je_level j" using m0 by (simp add: moves_def)
  have lk: "unat (je_level k) < 15" using kl lvl by simp
  note inc = inc_level_fields [OF ok lk]
  have z: "je_count (inc_level k) ! unat (je_level (inc_level k)) = 0"
    using inc(4) by (simp add: je_more_def)
  have inner: "moves (render_members ms False) (members_count ms) (inc_level k)
      (write_members ms (inc_level k))"
    using EObj.IH(1) [OF inc(2)] EObj.prems inc(1,4) kl z by simp
  define k2 where "k2 = end_object (write_members ms (begin_object j))"
  have m: "moves ((comma_text (je_more j) @ ''{'') @ render_members ms False @ ''}'') (Suc 0) j k2"
    using moves_nested [OF m0 EObj.prems(1) lvl inner, of "CHR ''}''"]
    by (simp add: k2_def end_object_def begin_object_def k_def)
  have ok2: "levels_ok k2" using moves_levels_ok [OF EObj.prems(1) m] .
  have more: "je_more k2" "unat (je_count k2 ! unat (je_level k2)) = Suc (unat (je_count j ! unat (je_level j)))"
    using moves_more [OF m, of "elems_count es"] EObj.prems(4) by simp_all
  have l: "je_level k2 = je_level j" using m by (simp add: moves_def)
  have "moves (render_elems es True) (elems_count es) k2 (write_elems es k2)"
    using EObj.IH(2) [OF ok2] EObj.prems more l by simp
  from moves_trans [OF m this] show ?case by (simp add: k2_def)
qed

subsection \<open>Packets\<close>

text \<open>No packet is empty or longer than 100 characters, whatever is written.\<close>

definition packet_ok :: "json_out \<Rightarrow> bool" where
  "packet_ok e \<longleftrightarrow> (case e of JoAcked s \<Rightarrow> s \<noteq> [] \<and> length s \<le> 100 | _ \<Rightarrow> True)"

definition packets_ok :: "json_encoder \<Rightarrow> bool" where
  "packets_ok j \<longleftrightarrow> length (je_linebuf j) < 100 \<and> list_all packet_ok (je_out j)"

lemma packets_add: "tagged j \<Longrightarrow> packets_ok j \<Longrightarrow> packets_ok (je_add c j) \<and> tagged (je_add c j)"
  by (auto simp: packets_ok_def je_add_def je_flush_def je_emit_def tagged_def packet_ok_def Let_def)

lemma packets_adds: "tagged j \<and> packets_ok j \<Longrightarrow> tagged (je_adds s j) \<and> packets_ok (je_adds s j)"
  by (induction s arbitrary: j) (simp_all add: je_adds_def packets_add)

lemma packets_bump: "tagged j \<and> packets_ok j \<Longrightarrow> tagged (je_bump j) \<and> packets_ok (je_bump j)"
  by (simp add: je_bump_def packets_ok_def tagged_def)

lemma packets_levels:
  "tagged j \<and> packets_ok j \<Longrightarrow> tagged (inc_level j) \<and> packets_ok (inc_level j)"
  "tagged j \<and> packets_ok j \<Longrightarrow> tagged (dec_level j) \<and> packets_ok (dec_level j)"
  by (simp_all add: inc_level_def dec_level_def packets_ok_def tagged_def Let_def)

lemma packets_comma_line: "tagged j \<and> packets_ok j \<Longrightarrow> tagged (je_comma_line j) \<and> packets_ok (je_comma_line j)"
  unfolding je_comma_line_def by (intro packets_bump) (simp add: packets_add)

lemma packets_elements:
  assumes "tagged j \<and> packets_ok j"
  shows "tagged (begin_member tag j) \<and> packets_ok (begin_member tag j)"
    and "tagged (json_member tag v j) \<and> packets_ok (json_member tag v j)"
    and "tagged (json_verbatim v j) \<and> packets_ok (json_verbatim v j)"
    and "tagged (json_string v j) \<and> packets_ok (json_string v j)"
    and "tagged (begin_member_object tag j) \<and> packets_ok (begin_member_object tag j)"
    and "tagged (begin_object j) \<and> packets_ok (begin_object j)"
    and "tagged (begin_array tag j) \<and> packets_ok (begin_array tag j)"
    and "tagged (end_object j) \<and> packets_ok (end_object j)"
    and "tagged (end_array j) \<and> packets_ok (end_array j)"
proof -
  have q: "tagged (je_quoted s k) \<and> packets_ok (je_quoted s k)" if "tagged k \<and> packets_ok k" for s k
    unfolding je_quoted_def using that by (rule packets_adds)
  have a: "tagged (je_add c k) \<and> packets_ok (je_add c k)" if "tagged k \<and> packets_ok k" for c k
    using that packets_add by blast
  have b: "tagged (begin_member tag k) \<and> packets_ok (begin_member tag k)"
    if "tagged k \<and> packets_ok k" for tag k
    unfolding begin_member_def using that by (intro a q packets_comma_line)
  show "tagged (begin_member tag j) \<and> packets_ok (begin_member tag j)" using assms by (rule b)
  show "tagged (json_member tag v j) \<and> packets_ok (json_member tag v j)"
    unfolding json_member_def using assms by (intro q b)
  show "tagged (json_verbatim v j) \<and> packets_ok (json_verbatim v j)"
    unfolding json_verbatim_def using assms by (intro packets_adds)
  show "tagged (json_string v j) \<and> packets_ok (json_string v j)"
    unfolding json_string_def using assms by (intro q packets_comma_line)
  show "tagged (begin_member_object tag j) \<and> packets_ok (begin_member_object tag j)"
    unfolding begin_member_object_def using assms by (intro packets_levels a q packets_comma_line)
  show "tagged (begin_object j) \<and> packets_ok (begin_object j)"
    unfolding begin_object_def using assms by (intro packets_levels a packets_comma_line)
  show "tagged (begin_array tag j) \<and> packets_ok (begin_array tag j)"
    using packets_levels(1) [OF a [OF b [OF assms]]] by (simp add: begin_array_def)
  show "tagged (end_object j) \<and> packets_ok (end_object j)"
    using packets_levels(2) [OF assms] a by (simp add: end_object_def)
  show "tagged (end_array j) \<and> packets_ok (end_array j)"
    using packets_levels(2) [OF assms] a by (simp add: end_array_def)
qed

lemma packets_tree:
  "tagged j \<and> packets_ok j \<Longrightarrow> tagged (write_value v tag j) \<and> packets_ok (write_value v tag j)"
  "tagged j \<and> packets_ok j \<Longrightarrow> tagged (write_members ms j) \<and> packets_ok (write_members ms j)"
  "tagged j \<and> packets_ok j \<Longrightarrow> tagged (write_elems es j) \<and> packets_ok (write_elems es j)"
  by (induction v and ms and es arbitrary: tag j and j and j)
    (simp_all add: packets_elements)

subsection \<open>Documents\<close>

definition json_document :: "string \<Rightarrow> json_members \<Rightarrow> json_encoder" where
  "json_document tag ms = json_end (write_members ms (json_begin (json_channel (Some tag))))"

lemma json_flush_text: "tagged j \<Longrightarrow> json_sent (je_flush j) = json_text j \<and> je_linebuf (je_flush j) = []"
  by (simp add: je_flush_def je_emit_def json_text_def json_sent_def tagged_def)

lemma json_document_text:
  assumes "members_depth ms < 15" "members_small ms" "members_count ms < 2 ^ 32"
  shows "json_sent (json_document tag ms) = ''{'' @ render_members ms False @ ''}''"
    and "je_linebuf (json_document tag ms) = []"
    and "list_all packet_ok (je_out (json_document tag ms))"
proof -
  define j0 where "j0 = je_emit (JoBegin tag) (json_channel (Some tag))"
  have ok: "levels_ok j0" by (simp add: j0_def je_emit_def json_channel_def levels_ok_def tagged_def)
  have l0: "je_level j0 = 0" and c0: "je_count j0 ! 0 = 0" and t0: "json_text j0 = []"
    by (simp_all add: j0_def je_emit_def json_channel_def json_text_def json_sent_def)
  define k where "k = je_add CHR ''{'' (je_comma_line j0)"
  have m0: "moves (comma_text (je_more j0) @ ''{'') 1 j0 k"
    unfolding k_def using ok by (rule moves_begin_object)
  have okk: "levels_ok k" using moves_levels_ok [OF ok m0] .
  have kl: "je_level k = 0" using m0 l0 by (simp add: moves_def)
  note inc = inc_level_fields [OF okk]
  have z: "je_count (inc_level k) ! unat (je_level (inc_level k)) = 0"
    using inc(4) kl by (simp add: je_more_def)
  have inner: "moves (render_members ms False) (members_count ms) (inc_level k)
      (write_members ms (inc_level k))"
    using write_tree(2) [OF inc(2)] assms inc(1,4) kl z by simp
  define w where "w = write_members ms (inc_level k)"
  have jb: "json_begin (json_channel (Some tag)) = inc_level k"
    by (simp add: json_begin_def begin_object_def k_def j0_def) (simp add: json_channel_def)
  have m: "moves ((comma_text (je_more j0) @ ''{'') @ render_members ms False @ ''}'') 1 j0 (end_object w)"
    using moves_nested [OF m0 ok _ inner] l0 by (simp add: end_object_def w_def)
  have tx: "json_text (end_object w) = ''{'' @ render_members ms False @ ''}''"
    using m t0 l0 c0 by (simp add: moves_def je_more_def comma_text_def)
  have tg: "tagged (end_object w)" using m by (simp add: moves_def)
  have doc: "json_document tag ms = (case je_tag (je_flush (end_object w)) of
      Some t \<Rightarrow> if je_channel (je_flush (end_object w)) then je_emit (JoEnd t) (je_flush (end_object w))
                else je_flush (end_object w) | None \<Rightarrow> je_flush (end_object w))"
    unfolding json_document_def json_end_def jb w_def [symmetric] Let_def tagged_line [OF tg] ..
  have flush: "json_sent (je_flush (end_object w)) = json_text (end_object w)"
    "je_linebuf (je_flush (end_object w)) = []"
    using json_flush_text [OF tg] by simp_all
  then show "json_sent (json_document tag ms) = ''{'' @ render_members ms False @ ''}''"
    "je_linebuf (json_document tag ms) = []"
    unfolding doc by (simp_all add: je_emit_def json_sent_def tx split: option.split)
  have p0: "tagged j0 \<and> packets_ok j0"
    by (simp add: j0_def je_emit_def json_channel_def tagged_def packets_ok_def packet_ok_def)
  have "tagged k \<and> packets_ok k"
    unfolding k_def using packets_comma_line [OF p0] packets_add by blast
  then have "tagged (end_object w) \<and> packets_ok (end_object w)"
    unfolding w_def by (intro packets_elements packets_tree packets_levels)
  then show "list_all packet_ok (je_out (json_document tag ms))"
    unfolding doc by (auto simp: je_emit_def je_flush_def packets_ok_def packet_ok_def tagged_def)
qed

subsection \<open>Strings read back\<close>

text \<open>A reader of the escapes the encoder writes, for the text after the opening quote.\<close>

fun json_unquote :: "string \<Rightarrow> (string \<times> string) option" where
  "json_unquote [] = None"
| "json_unquote (c # cs) =
     (if c = CHR 0x22 then Some ([], cs)
      else if c = CHR 0x5C then
        (case cs of [] \<Rightarrow> None
         | e # cs' \<Rightarrow>
             map_option (\<lambda>(s, rest). ((if e = CHR ''b'' then CHR 0x08
                 else if e = CHR ''n'' then CHR 0x0A else if e = CHR ''f'' then CHR 0x0C
                 else if e = CHR ''r'' then CHR 0x0D else if e = CHR ''t'' then CHR 0x09
                 else e) # s, rest)) (json_unquote cs'))
      else map_option (\<lambda>(s, rest). (c # s, rest)) (json_unquote cs))"

lemma json_unquote_escape:
  "json_unquote (json_escape c @ cs) = map_option (\<lambda>(s, rest). (c # s, rest)) (json_unquote cs)"
  by (simp add: json_escape_def)

lemma json_unquote_quote:
  "json_unquote (concat (map json_escape s) @ CHR 0x22 # rest) = Some (s, rest)"
  by (induction s) (simp_all add: json_unquote_escape)

lemma json_quote_roundtrip:
  "CHR 0x00 \<notin> set s \<Longrightarrow>
     \<exists>body. json_quote s @ rest = CHR 0x22 # body \<and> json_unquote body = Some (s, rest)"
  by (auto simp: json_quote_def c_str_def json_unquote_quote takeWhile_eq_all_conv [THEN iffD2])

end
