(* ===== verification/EdmReportChannel.thy ===== *)
theory EdmReportChannel
  imports JsonEncoder WireFeed
begin

text \<open>
  The telemetry report (\<^verbatim>\<open>EDM/EdmReportChannel.cpp\<close>): the calls on the JSON encoder that
  write one report, and the tree they amount to. Each \<open>static_cast\<close> to \<open>int32_t\<close> is the
  \<open>ucast\<close> of an unsigned field or the \<open>scast\<close> of a signed one. \<open>printf\<close> of a float rounds
  the exact value, half to even; the quotient in \<open>num_scaled\<close> is the real quotient, which
  the double nearest to it prints the same way at the precisions used.
\<close>

subsection \<open>Numbers\<close>

definition json_num :: "string \<Rightarrow> i32 \<Rightarrow> json_encoder \<Rightarrow> json_encoder" where
  "json_num tag v j = json_verbatim (to_string (sint v)) (begin_member tag j)"

definition deci_text :: "i32 \<Rightarrow> string" where
  "deci_text deci =
     (let whole = cdiv (sint deci) 10; frac = cmod (sint deci) 10;
          frac = (if frac < 0 then - frac else frac);
          sign = (if sint deci < 0 \<and> whole = 0 then ''-'' else [])
      in sign @ to_string whole @ ''.'' @ to_string frac)"

definition num_deci :: "string \<Rightarrow> i32 \<Rightarrow> json_encoder \<Rightarrow> json_encoder" where
  "num_deci tag deci j = json_verbatim (deci_text deci) (begin_member tag j)"

definition pad_left :: "nat \<Rightarrow> string \<Rightarrow> string" where
  "pad_left k s = replicate (k - length s) CHR ''0'' @ s"

definition fmt_fixed :: "nat \<Rightarrow> real \<Rightarrow> string" where
  "fmt_fixed decimals x =
     (let n = nat (rhe (\<bar>x\<bar> * 10 ^ decimals))
      in (if x < 0 then ''-'' else []) @ show_nat (n div 10 ^ decimals)
         @ (if decimals = 0 then [] else ''.'' @ pad_left decimals (show_nat (n mod 10 ^ decimals))))"

definition num_f1 :: "string \<Rightarrow> real \<Rightarrow> json_encoder \<Rightarrow> json_encoder" where
  "num_f1 tag v j = json_verbatim (fmt_fixed 1 v) (begin_member tag j)"

definition num_scaled :: "string \<Rightarrow> i32 \<Rightarrow> int \<Rightarrow> nat \<Rightarrow> json_encoder \<Rightarrow> json_encoder" where
  "num_scaled tag v d decimals j =
     json_verbatim (fmt_fixed decimals (of_int (sint v) / of_int d)) (begin_member tag j)"

subsection \<open>Names\<close>

definition kControllerStateNames :: "string list" where
  "kControllerStateNames = [''Idle'', ''Armed'', ''TouchOff'', ''Cutting'', ''Hold'',
     ''BreakRelief'', ''StallFault'', ''Fault'']"

definition kServoStateNames :: "string list" where
  "kServoStateNames = [''Hold'', ''Track'', ''Retract'', ''ArcHold'', ''BreakRelief'']"

definition kFaultNames :: "string list" where
  "kFaultNames = [''None'', ''AckTimeout'', ''ProtocolMismatch'', ''TouchOffNoContact'',
     ''ServoStall'', ''HeartbeatLost'', ''PsuFault'', ''SensorDisagree'',
     ''DielectricNotReady'', ''DielectricLost'']"

definition edm_controller_state_name :: "u8 \<Rightarrow> string" where
  "edm_controller_state_name s =
     (if unat s < length kControllerStateNames then kControllerStateNames ! unat s else ''Idle'')"

definition edm_servo_state_name :: "u8 \<Rightarrow> string" where
  "edm_servo_state_name s =
     (if unat s < length kServoStateNames then kServoStateNames ! unat s else ''Hold'')"

definition edm_fault_name :: "u8 \<Rightarrow> string option" where
  "edm_fault_name f =
     (if f = 0 \<or> length kFaultNames \<le> unat f then None else Some (kFaultNames ! unat f))"

subsection \<open>The groups of keys\<close>

definition bool01 :: "bool \<Rightarrow> i32" where
  "bool01 b = (if b then 1 else 0)"

definition emit_tension :: "wire_feed option \<Rightarrow> json_encoder \<Rightarrow> json_encoder" where
  "emit_tension feed j =
     (case feed of
        Some w \<Rightarrow> json_num ''tension_collapse'' (bool01 (tensionCollapsed w))
          (num_f1 ''tension_set_N'' (tc_setpoint_N (wf_controller w))
            (num_f1 ''tension_N'' (wf_last_N w) j))
      | None \<Rightarrow> json_num ''tension_collapse'' 0
          (num_f1 ''tension_set_N'' 0 (num_f1 ''tension_N'' 0 j)))"

definition emit_core :: "edm_report \<Rightarrow> json_encoder \<Rightarrow> json_encoder" where
  "emit_core r j =
     (let j = json_num ''window_id'' (rp_window_id r) j;
          j = json_member ''controller_state'' (edm_controller_state_name (rp_controller_state r)) j;
          j = json_member ''servo_state'' (edm_servo_state_name (rp_servo_state r)) j;
          j = json_num ''v_cmd_um_s'' (rp_v_cmd_um_s r) j;
          j = json_num ''n_normal'' (ucast (rp_n_normal r)) j;
          j = json_num ''n_arc'' (ucast (rp_n_arc r)) j;
          j = json_num ''n_short'' (ucast (rp_n_short r)) j;
          j = json_num ''n_open'' (ucast (rp_n_open r)) j;
          j = json_num ''total_pulses'' (ucast (rp_total_pulses r)) j;
          j = json_num ''feed_cap_pct'' (ucast (rp_feed_cap_pct r)) j;
          j = json_num ''wire_break_sev'' (ucast (rp_wire_break_sev r)) j;
          j = json_num ''energy_uj'' (rp_energy_delivered_uJ r) j;
          j = num_deci ''dc_link_v'' (ucast (rp_dc_link_V_dV r)) j;
          j = num_deci ''peak_i_a'' (ucast (rp_peak_I_mean_dA r)) j;
          j = num_deci ''temp_gan_c'' (scast (rp_temp_GaN_dC r)) j;
          j = json_num ''mode_id'' (ucast (rp_active_mode_id r)) j;
          j = json_num ''connected'' (bool01 (rp_connected r)) j;
          j = (case edm_fault_name (rp_fault_reason r) of
                 Some fault \<Rightarrow> json_member ''fault'' fault j
               | None \<Rightarrow> json_verbatim ''null'' (begin_member ''fault'' j));
          j = json_num ''progress_pct'' 0 j;
          j = json_num ''feed_mm_min'' 0 j;
          j = json_num ''x'' 0 j;
          j = json_num ''y'' 0 j;
          j = json_num ''u'' 0 j
      in json_num ''v'' 0 j)"

definition emit_dielectric :: "edm_report \<Rightarrow> json_encoder \<Rightarrow> json_encoder" where
  "emit_dielectric r j =
     (let j = begin_member_object ''dielectric'' j;
          j = json_num ''present'' (bool01 (rp_diel_present r)) j;
          j = json_num ''pump_on'' (ucast (rp_diel_pump_on r)) j;
          j = json_num ''flush_level'' (ucast (rp_diel_flush_level r)) j;
          j = num_scaled ''flush_bar'' (ucast (rp_diel_flush_mbar r)) 1000 3 j;
          j = num_scaled ''flow_lpm'' (ucast (rp_diel_flow_clpm r)) 100 2 j;
          j = num_deci ''temp_c'' (scast (rp_diel_temp_dC r)) j;
          j = num_deci ''temp_set'' (scast (rp_diel_temp_set_dC r)) j;
          j = json_num ''conductivity_us'' (ucast (rp_diel_conductivity_uS r)) j;
          j = json_num ''level_pct'' (ucast (rp_diel_level_pct r)) j;
          j = json_num ''filter_pct'' (ucast (rp_diel_filter_pct r)) j;
          j = json_num ''flags'' (ucast (rp_diel_flags r)) j
      in end_object j)"

definition report_edm_stats :: "edm_report \<Rightarrow> wire_feed option \<Rightarrow> json_encoder" where
  "report_edm_stats r feed =
     (let j = json_channel (Some ''edm_update'');
          j = json_begin j;
          j = json_member ''type'' ''edm_update'' j;
          j = emit_core r j;
          j = emit_tension feed j;
          j = emit_dielectric r j
      in json_end j)"

definition edm_status_dump :: "edm_report \<Rightarrow> wire_feed option \<Rightarrow> json_encoder" where
  "edm_status_dump r feed =
     (let j = json_channel (Some ''edm_full_status'');
          j = json_begin j;
          j = json_member ''type'' ''edm_full_status'' j;
          j = emit_core r j;
          j = emit_tension feed j;
          j = emit_dielectric r j;
          j = json_num ''psu_state'' (ucast (rp_psu_state r)) j;
          j = json_num ''protocol_ok'' (bool01 (rp_protocol_ok r)) j;
          j = json_num ''last_ack_status'' (ucast (rp_last_ack_status r)) j;
          j = json_num ''fault_reason'' (ucast (rp_fault_reason r)) j;
          j = json_num ''s_word'' (ucast (rp_s_word r)) j;
          j = json_num ''open_ratio_milli'' (scast (rp_open_ratio_milli r)) j;
          j = json_num ''short_ratio_milli'' (scast (rp_short_ratio_milli r)) j;
          j = json_num ''arc_ratio_milli'' (scast (rp_arc_ratio_milli r)) j;
          j = json_num ''g_milli'' (scast (rp_g_milli r)) j;
          j = json_num ''g_target_milli'' (scast (rp_g_target_milli r)) j;
          j = json_num ''e_filtered_milli'' (scast (rp_e_filtered_milli r)) j;
          j = json_num ''integrator_milli'' (scast (rp_integrator_milli r)) j;
          j = json_num ''peak_I_max_dA'' (ucast (rp_peak_I_max_dA r)) j;
          j = json_num ''temp_L_dC'' (scast (rp_temp_L_dC r)) j;
          j = json_num ''flags'' (ucast (rp_flags r)) j
      in json_end j)"

subsection \<open>The report as a tree\<close>

fun mk_members :: "(string \<times> json) list \<Rightarrow> json_members" where
  "mk_members [] = MNil"
| "mk_members ((tag, v) # fs) = MCons tag v (mk_members fs)"

definition jint :: "i32 \<Rightarrow> json" where "jint v = JRaw (to_string (sint v))"

definition tension_fields :: "wire_feed option \<Rightarrow> (string \<times> json) list" where
  "tension_fields feed =
     (case feed of
        Some w \<Rightarrow> [(''tension_N'', JRaw (fmt_fixed 1 (wf_last_N w))),
                   (''tension_set_N'', JRaw (fmt_fixed 1 (tc_setpoint_N (wf_controller w)))),
                   (''tension_collapse'', jint (bool01 (tensionCollapsed w)))]
      | None \<Rightarrow> [(''tension_N'', JRaw (fmt_fixed 1 0)), (''tension_set_N'', JRaw (fmt_fixed 1 0)),
                 (''tension_collapse'', jint 0)])"

definition fault_json :: "edm_report \<Rightarrow> json" where
  "fault_json r =
     (case edm_fault_name (rp_fault_reason r) of Some f \<Rightarrow> JStr f | None \<Rightarrow> JRaw ''null'')"

definition core_fields :: "edm_report \<Rightarrow> (string \<times> json) list" where
  "core_fields r =
     [(''window_id'', jint (rp_window_id r)),
      (''controller_state'', JStr (edm_controller_state_name (rp_controller_state r))),
      (''servo_state'', JStr (edm_servo_state_name (rp_servo_state r))),
      (''v_cmd_um_s'', jint (rp_v_cmd_um_s r)),
      (''n_normal'', jint (ucast (rp_n_normal r))), (''n_arc'', jint (ucast (rp_n_arc r))),
      (''n_short'', jint (ucast (rp_n_short r))), (''n_open'', jint (ucast (rp_n_open r))),
      (''total_pulses'', jint (ucast (rp_total_pulses r))),
      (''feed_cap_pct'', jint (ucast (rp_feed_cap_pct r))),
      (''wire_break_sev'', jint (ucast (rp_wire_break_sev r))),
      (''energy_uj'', jint (rp_energy_delivered_uJ r)),
      (''dc_link_v'', JRaw (deci_text (ucast (rp_dc_link_V_dV r)))),
      (''peak_i_a'', JRaw (deci_text (ucast (rp_peak_I_mean_dA r)))),
      (''temp_gan_c'', JRaw (deci_text (scast (rp_temp_GaN_dC r)))),
      (''mode_id'', jint (ucast (rp_active_mode_id r))),
      (''connected'', jint (bool01 (rp_connected r))), (''fault'', fault_json r),
      (''progress_pct'', jint 0), (''feed_mm_min'', jint 0), (''x'', jint 0), (''y'', jint 0),
      (''u'', jint 0), (''v'', jint 0)]"

definition diel_fields :: "edm_report \<Rightarrow> (string \<times> json) list" where
  "diel_fields r =
     [(''present'', jint (bool01 (rp_diel_present r))),
      (''pump_on'', jint (ucast (rp_diel_pump_on r))),
      (''flush_level'', jint (ucast (rp_diel_flush_level r))),
      (''flush_bar'', JRaw (fmt_fixed 3 (of_int (sint (ucast (rp_diel_flush_mbar r) :: i32)) / of_int 1000))),
      (''flow_lpm'', JRaw (fmt_fixed 2 (of_int (sint (ucast (rp_diel_flow_clpm r) :: i32)) / of_int 100))),
      (''temp_c'', JRaw (deci_text (scast (rp_diel_temp_dC r)))),
      (''temp_set'', JRaw (deci_text (scast (rp_diel_temp_set_dC r)))),
      (''conductivity_us'', jint (ucast (rp_diel_conductivity_uS r))),
      (''level_pct'', jint (ucast (rp_diel_level_pct r))),
      (''filter_pct'', jint (ucast (rp_diel_filter_pct r))),
      (''flags'', jint (ucast (rp_diel_flags r)))]"

definition update_fields :: "edm_report \<Rightarrow> wire_feed option \<Rightarrow> (string \<times> json) list" where
  "update_fields r feed = [(''type'', JStr ''edm_update'')] @ core_fields r @ tension_fields feed
     @ [(''dielectric'', JObj (mk_members (diel_fields r)))]"

definition raw_fields :: "edm_report \<Rightarrow> (string \<times> json) list" where
  "raw_fields r =
     [(''psu_state'', jint (ucast (rp_psu_state r))), (''protocol_ok'', jint (bool01 (rp_protocol_ok r))),
      (''last_ack_status'', jint (ucast (rp_last_ack_status r))),
      (''fault_reason'', jint (ucast (rp_fault_reason r))), (''s_word'', jint (ucast (rp_s_word r))),
      (''open_ratio_milli'', jint (scast (rp_open_ratio_milli r))),
      (''short_ratio_milli'', jint (scast (rp_short_ratio_milli r))),
      (''arc_ratio_milli'', jint (scast (rp_arc_ratio_milli r))),
      (''g_milli'', jint (scast (rp_g_milli r))), (''g_target_milli'', jint (scast (rp_g_target_milli r))),
      (''e_filtered_milli'', jint (scast (rp_e_filtered_milli r))),
      (''integrator_milli'', jint (scast (rp_integrator_milli r))),
      (''peak_I_max_dA'', jint (ucast (rp_peak_I_max_dA r))),
      (''temp_L_dC'', jint (scast (rp_temp_L_dC r))), (''flags'', jint (ucast (rp_flags r)))]"

definition status_fields :: "edm_report \<Rightarrow> wire_feed option \<Rightarrow> (string \<times> json) list" where
  "status_fields r feed = [(''type'', JStr ''edm_full_status'')] @ core_fields r
     @ tension_fields feed @ [(''dielectric'', JObj (mk_members (diel_fields r)))] @ raw_fields r"

lemma write_members_append:
  "write_members (mk_members (fs @ gs)) j = write_members (mk_members gs) (write_members (mk_members fs) j)"
  by (induction fs arbitrary: j) auto

lemma json_num_write: "json_num tag v j = write_value (jint v) tag j"
  by (simp add: json_num_def jint_def)

lemma num_write:
  "num_deci tag v j = write_value (JRaw (deci_text v)) tag j"
  "num_f1 tag x j = write_value (JRaw (fmt_fixed 1 x)) tag j"
  "num_scaled tag v d k j = write_value (JRaw (fmt_fixed k (of_int (sint v) / of_int d))) tag j"
  "json_member tag s j = write_value (JStr s) tag j"
  by (simp_all add: num_deci_def num_f1_def num_scaled_def)

lemmas write_calls = json_num_write num_write

lemma emit_tension_write: "emit_tension feed j = write_members (mk_members (tension_fields feed)) j"
  by (simp only: emit_tension_def tension_fields_def write_calls mk_members.simps
      write_members.simps split: option.split) simp

lemma fault_write:
  "(case edm_fault_name (rp_fault_reason r) of Some fault \<Rightarrow> json_member ''fault'' fault j
     | None \<Rightarrow> json_verbatim ''null'' (begin_member ''fault'' j)) = write_value (fault_json r) ''fault'' j"
  by (simp add: fault_json_def split: option.split)

lemma emit_core_write: "emit_core r j = write_members (mk_members (core_fields r)) j"
  by (simp only: emit_core_def core_fields_def Let_def fault_write)
    (simp only: write_calls mk_members.simps write_members.simps)

lemma emit_dielectric_write:
  "emit_dielectric r j = write_value (JObj (mk_members (diel_fields r))) ''dielectric'' j"
  by (simp only: emit_dielectric_def diel_fields_def Let_def write_calls mk_members.simps
      write_members.simps write_value.simps)

lemma report_edm_stats_document:
  "report_edm_stats r feed = json_document ''edm_update'' (mk_members (update_fields r feed))"
  by (simp only: report_edm_stats_def json_document_def update_fields_def Let_def
      write_members_append emit_core_write emit_tension_write emit_dielectric_write
      mk_members.simps write_members.simps num_write(4))

lemma edm_status_dump_document:
  "edm_status_dump r feed = json_document ''edm_full_status'' (mk_members (status_fields r feed))"
  by (simp only: edm_status_dump_def json_document_def status_fields_def raw_fields_def Let_def
      write_members_append emit_core_write emit_tension_write emit_dielectric_write
      mk_members.simps write_members.simps num_write(4) json_num_write)

lemma members_depth_mk:
  "members_depth (mk_members fs) = fold (\<lambda>f d. max (json_depth (snd f)) d) (rev fs) 0"
  "members_small (mk_members fs) \<longleftrightarrow> list_all (\<lambda>f. json_small (snd f)) fs"
  "members_count (mk_members fs) = length fs"
  by (induction fs) auto

lemma field_shapes:
  "list_all (\<lambda>f. json_depth (snd f) = 0 \<and> json_small (snd f)) (core_fields r)"
  "list_all (\<lambda>f. json_depth (snd f) = 0 \<and> json_small (snd f)) (tension_fields feed)"
  "list_all (\<lambda>f. json_depth (snd f) = 0 \<and> json_small (snd f)) (diel_fields r)"
  "list_all (\<lambda>f. json_depth (snd f) = 0 \<and> json_small (snd f)) (raw_fields r)"
  "length (core_fields r) = 24" "length (tension_fields feed) = 3"
  "length (diel_fields r) = 11" "length (raw_fields r) = 15"
  by (simp_all add: core_fields_def tension_fields_def diel_fields_def raw_fields_def jint_def
      fault_json_def split: option.split)

lemma members_depth_flat:
  "list_all (\<lambda>f. json_depth (snd f) \<le> d) fs \<Longrightarrow> members_depth (mk_members fs) \<le> d"
  by (induction fs) auto

lemma flat_le: "list_all (\<lambda>f. json_depth (snd f) = 0 \<and> json_small (snd f)) fs \<Longrightarrow>
    list_all (\<lambda>f. json_depth (snd f) \<le> d) fs \<and> list_all (\<lambda>f. json_small (snd f)) fs"
  by (simp add: list_all_iff)

lemma report_fields_ok:
  "members_depth (mk_members (update_fields r feed)) < 15"
  "members_small (mk_members (update_fields r feed))"
  "members_depth (mk_members (status_fields r feed)) < 15"
  "members_small (mk_members (status_fields r feed))"
  "members_count (mk_members (update_fields r feed)) < 2 ^ 32"
  "members_count (mk_members (status_fields r feed)) < 2 ^ 32"
proof -
  note fl = field_shapes(1-4) [THEN flat_le]
  have d: "members_depth (mk_members (diel_fields r)) \<le> 0"
    using fl(3) by (intro members_depth_flat) blast
  have s: "members_small (mk_members (diel_fields r))" "length (diel_fields r) < 2 ^ 32"
    using fl(3) by (simp_all add: members_depth_mk(2) field_shapes(7))
  have "list_all (\<lambda>f. json_depth (snd f) \<le> 1) (update_fields r feed)"
    "list_all (\<lambda>f. json_depth (snd f) \<le> 1) (status_fields r feed)"
    using fl d by (simp_all add: update_fields_def status_fields_def)
  then show "members_depth (mk_members (update_fields r feed)) < 15"
    "members_depth (mk_members (status_fields r feed)) < 15"
    by (auto dest!: members_depth_flat)
  show "members_small (mk_members (update_fields r feed))"
    "members_small (mk_members (status_fields r feed))"
    using fl s by (simp_all add: members_depth_mk(2,3) update_fields_def status_fields_def)
  show "members_count (mk_members (update_fields r feed)) < 2 ^ 32"
    "members_count (mk_members (status_fields r feed)) < 2 ^ 32"
    by (simp_all add: members_depth_mk(3) update_fields_def status_fields_def field_shapes)
qed

lemmas report_edm_stats_text = json_document_text [OF report_fields_ok(1,2,5), where tag = "''edm_update''",
    folded report_edm_stats_document]
lemmas edm_status_dump_text = json_document_text [OF report_fields_ok(3,4,6), where tag = "''edm_full_status''",
    folded edm_status_dump_document]

text \<open>Every key occurs once.\<close>

lemma update_fields_distinct: "distinct (map fst (update_fields r feed))"
  by (simp add: update_fields_def core_fields_def tension_fields_def split: option.split)

subsection \<open>Numbers and names read back\<close>

text \<open>The value of a text \<open>[-]digits.digit\<close> in tenths.\<close>

definition read_deci :: "string \<Rightarrow> int" where
  "read_deci s =
     (let (neg, t) = (case s of [] \<Rightarrow> (False, []) | c # cs \<Rightarrow>
            if c = CHR ''-'' then (True, cs) else (False, s));
          v = int (10 * digits_val 0 (takeWhile isdigit t) + digits_val 0 (drop 1 (dropWhile isdigit t)))
      in if neg then - v else v)"

lemma read_deci_parts:
  assumes "s = (if neg then ''-'' else []) @ show_nat w @ ''.'' @ show_nat f"
  shows "read_deci s = (if neg then - int (10 * w + f) else int (10 * w + f))"
proof -
  have dot: "\<not> isdigit CHR ''.''" by (simp add: isdigit_def)
  have tw: "takeWhile isdigit (show_nat w @ CHR ''.'' # show_nat f) = show_nat w"
    "dropWhile isdigit (show_nat w @ CHR ''.'' # show_nat f) = CHR ''.'' # show_nat f"
    using show_nat_digits [of w] dot by (simp_all add: takeWhile_append2 dropWhile_append2 list_all_iff)
  show ?thesis
  proof (cases neg)
    case True
    then show ?thesis using assms by (simp add: read_deci_def tw)
  next
    case False
    obtain c cs where c: "show_nat w = c # cs" by (meson neq_Nil_conv show_nat_ne)
    then have "c \<noteq> CHR ''-''" using show_nat_no_minus by blast
    then have "(case s of [] \<Rightarrow> (False, []) | c # cs \<Rightarrow>
        if c = CHR ''-'' then (True, cs) else (False, s)) = (False, s)"
      using False assms c by simp
    note eq = this
    show ?thesis unfolding read_deci_def eq using False assms by (simp add: tw)
  qed
qed

lemma read_deci_text: "read_deci (deci_text d) = sint d"
proof -
  define n where "n = sint d"
  define w f where "w = \<bar>n\<bar> div 10" and "f = \<bar>n\<bar> mod 10"
  have wf: "0 \<le> w" "0 \<le> f" "f < 10" "10 * w + f = \<bar>n\<bar>" by (simp_all add: w_def f_def)
  have c: "cdiv n 10 = sgn n * w" by (simp add: cdiv_def w_def)
  have m: "\<bar>cmod n 10\<bar> = f"
  proof -
    have "n - sgn n * w * 10 = sgn n * f"
      using wf(4) by (cases "n < 0"; cases "n = 0") (simp_all add: sgn_if)
    then have cm: "cmod n 10 = sgn n * f" by (simp add: cmod_def c)
    show ?thesis
    proof (cases "n = 0")
      case True
      then show ?thesis unfolding cm by (simp add: f_def)
    next
      case False
      then show ?thesis unfolding cm using wf(2) by (simp add: abs_mult abs_sgn_eq)
    qed
  qed
  have fr: "(if Prelude.cmod n 10 < 0 then - Prelude.cmod n 10 else Prelude.cmod n 10) = f"
    using m by (auto simp: abs_if split: if_splits)
  have "deci_text d = (if n < 0 then ''-'' else []) @ show_nat (nat w) @ ''.'' @ show_nat (nat f)"
  proof (cases "n < 0")
    case True
    then show ?thesis using wf(1)
      by (simp add: deci_text_def Let_def n_def [symmetric] fr c to_string_def) (simp add: wf(2) not_less)
  next
    case False
    then have "sgn n * w = w" using wf(4) wf(1) by (cases "n = 0") (simp_all add: w_def)
    then have cw: "cdiv n 10 = w" by (simp only: c)
    show ?thesis using False wf(1,2)
      by (simp add: deci_text_def Let_def n_def [symmetric] fr cw to_string_def)
  qed
  from read_deci_parts [OF this] have "read_deci (deci_text d)
      = (if n < 0 then - int (10 * nat w + nat f) else int (10 * nat w + nat f))" .
  also have "int (10 * nat w + nat f) = \<bar>n\<bar>" using wf by simp
  finally show ?thesis by (simp add: n_def)
qed

lemma state_name_inj:
  "edm_controller_state_name (edm_state_code s) = edm_controller_state_name (edm_state_code t) \<longleftrightarrow> s = t"
  by (cases s; cases t) (simp_all add: edm_controller_state_name_def kControllerStateNames_def)

lemma fault_name_inj:
  "edm_fault_name (fault_code a) = edm_fault_name (fault_code b) \<longleftrightarrow> a = b"
  by (cases a; cases b) (simp_all add: edm_fault_name_def kFaultNames_def)

lemma fault_name_none: "edm_fault_name (fault_code a) = None \<longleftrightarrow> a = FrNone"
  by (cases a) (simp_all add: edm_fault_name_def kFaultNames_def)

text \<open>The digits of a scaled number, without the point, are the number that was scaled.\<close>

lemma digits_val_acc: "digits_val v ds = v * 10 ^ length ds + digits_val 0 ds"
proof (induction ds arbitrary: v)
  case (Cons d ds)
  have "digits_val v (d # ds) = (v * 10 + digit_val d) * 10 ^ length ds + digits_val 0 ds"
    using Cons [of "v * 10 + digit_val d"] by simp
  moreover have "digits_val 0 (d # ds) = digit_val d * 10 ^ length ds + digits_val 0 ds"
    using Cons [of "digit_val d"] by simp
  ultimately show ?case by (simp add: algebra_simps)
qed simp

lemma digits_val_zeros: "digits_val 0 (replicate k CHR ''0'' @ s) = digits_val 0 s"
  by (induction k) (simp_all add: digit_val_def)

lemma isdigit_zero: "isdigit CHR ''0''" "\<not> isdigit CHR ''.''"
  by (simp_all add: isdigit_def)

lemma fmt_fixed_digits:
  assumes "0 < k"
  shows "digits_val 0 (filter isdigit (fmt_fixed k (of_int (int n) / of_int (10 ^ k)))) = n"
proof -
  define w f where "w = n div 10 ^ k" and "f = n mod 10 ^ k"
  have r: "\<bar>of_int (int n) / of_int (10 ^ k) :: real\<bar> * 10 ^ k = of_int (int n)" by simp
  have rn: "rhe (real n) = int n" using rhe_of_int [of "int n"] by simp
  have nn: "\<not> real n / 10 ^ k < 0" by (simp add: not_less)
  have tx: "fmt_fixed k (of_int (int n) / of_int (10 ^ k))
      = show_nat w @ ''.'' @ pad_left k (show_nat f)"
    using assms nn unfolding fmt_fixed_def r by (simp add: rn w_def f_def Let_def)
  have "filter isdigit (show_nat m) = show_nat m" for m
    using show_nat_digits [of m] by (simp add: filter_id_conv list_all_iff)
  then have "filter isdigit (show_nat w @ ''.'' @ pad_left k (show_nat f))
      = show_nat w @ pad_left k (show_nat f)"
    by (simp add: pad_left_def isdigit_zero)
  moreover have "length (pad_left k (show_nat f)) = k"
  proof -
    obtain k' where k': "k = Suc k'" using assms by (cases k) simp_all
    have "f < 10 ^ Suc k'" unfolding f_def k' by (rule mod_less_divisor) simp
    from show_nat_length [OF this] show ?thesis by (simp add: pad_left_def k')
  qed
  moreover have "digits_val 0 (pad_left k (show_nat f)) = f"
    by (simp add: pad_left_def digits_val_zeros)
  ultimately have "digits_val 0 (filter isdigit (show_nat w @ ''.'' @ pad_left k (show_nat f)))
      = w * 10 ^ k + f"
    using digits_val_acc [of w "pad_left k (show_nat f)"] by (simp only: digits_val_append digits_val_show_nat)
  also have "w * 10 ^ k + f = n" unfolding w_def f_def by (rule div_mult_mod_eq)
  finally show ?thesis unfolding tx .
qed

end
