(* ===== verification/EdmCommands.thy ===== *)
theory EdmCommands
  imports EdmSpindle EdmReportChannel
begin

text \<open>
  The \<open>$EDM/*\<close> commands (\<^verbatim>\<open>EDM/EdmCommands.cpp\<close>) and the periodic report. The global
  \<open>spindle\<close> is an option: \<open>None\<close> stands for no spindle or one of another kind. A value that
  is absent (\<open>nullptr\<close>) is \<open>None\<close>. A handler returns its error code, what it writes as JSON
  and the new spindle; the log lines are not modelled. \<open>strtof\<close>, whose result
  \<open>$EDM/Tension\<close> uses, is an argument: the value and the rest of the text.
\<close>

datatype edm_error = ErrOk | ErrInvalidStatement | ErrInvalidValue | ErrIdleError

datatype machine_state = MsIdle | MsAlarm | MsCheckMode | MsHoming | MsCycle | MsHold | MsHeld
  | MsJog | MsSafetyDoor | MsSleep | MsConfigAlarm | MsCritical | MsStarting

type_synonym command_result = "edm_error \<times> json_out list \<times> edm_spindle option"

subsection \<open>Parsing\<close>

definition parse_flush_level :: "string \<Rightarrow> u8 option" where
  "parse_flush_level v =
     (if equal_ignore_case v ''Off'' then Some 0
      else if equal_ignore_case v ''Low'' then Some 1
      else if equal_ignore_case v ''Medium'' then Some 2
      else if equal_ignore_case v ''Med'' then Some 2
      else if equal_ignore_case v ''High'' then Some 3
      else case strtol10 v of
             (n, rest) \<Rightarrow> if rest = v \<or> n < 0 \<or> 3 < n then None else Some (word_of_int n))"

definition parse_on_off :: "string \<Rightarrow> bool option" where
  "parse_on_off v =
     (if equal_ignore_case v ''on'' \<or> equal_ignore_case v ''true'' \<or> equal_ignore_case v ''1''
      then Some True
      else if equal_ignore_case v ''off'' \<or> equal_ignore_case v ''false'' \<or> equal_ignore_case v ''0''
      then Some False
      else None)"

definition no_value :: "string option \<Rightarrow> bool" where
  "no_value v \<longleftrightarrow> v = None \<or> v = Some []"

subsection \<open>Handlers\<close>

definition edm_status :: "edm_spindle option \<Rightarrow> command_result" where
  "edm_status sp =
     (case sp of
        None \<Rightarrow> (ErrInvalidStatement, [], sp)
      | Some s \<Rightarrow>
          (case es_ctl s of
             None \<Rightarrow> (ErrInvalidStatement, [], sp)
           | Some c \<Rightarrow> (ErrOk, je_out (edm_status_dump (ctl_report c) (es_feed s)), sp)))"

definition edm_touchoff :: "edm_spindle option \<Rightarrow> command_result" where
  "edm_touchoff sp =
     (case sp of
        None \<Rightarrow> (ErrInvalidStatement, [], sp)
      | Some s \<Rightarrow> if es_ctl s = None then (ErrInvalidStatement, [], sp) else (ErrOk, [], sp))"

definition edm_tension :: "(string \<Rightarrow> real \<times> string) \<Rightarrow> string option \<Rightarrow> edm_spindle option \<Rightarrow> command_result" where
  "edm_tension strtof value sp =
     (case sp of
        None \<Rightarrow> (ErrInvalidStatement, [], sp)
      | Some s \<Rightarrow>
          (case es_feed s of
             None \<Rightarrow> (ErrInvalidStatement, [], sp)
           | Some w \<Rightarrow>
               (case value of
                  None \<Rightarrow> (ErrOk, [], sp)
                | Some v \<Rightarrow>
                    if v = [] then (ErrOk, [], sp)
                    else case strtof v of
                           (n, rest) \<Rightarrow>
                             if rest = v \<or> n < 0 then (ErrInvalidValue, [], sp)
                             else (ErrOk, [], Some (s\<lparr>es_feed := Some (setTensionSetpointN n w)\<rparr>)))))"

definition edm_reset_wirefeed :: "edm_spindle option \<Rightarrow> command_result" where
  "edm_reset_wirefeed sp =
     (case sp of
        None \<Rightarrow> (ErrInvalidStatement, [], sp)
      | Some s \<Rightarrow>
          (case es_feed s of
             None \<Rightarrow> (ErrInvalidStatement, [], sp)
           | Some w \<Rightarrow> (ErrOk, [], Some (s\<lparr>es_feed := Some (resetCollapse w)\<rparr>))))"

text \<open>The S-word of a mode name or number; \<open>Some None\<close> is the name Idle, which stops.\<close>

definition mode_sword :: "string \<Rightarrow> u16 option option" where
  "mode_sword v =
     (if equal_ignore_case v ''Idle'' then Some None
      else if equal_ignore_case v ''Rough'' then Some (Some 100)
      else if equal_ignore_case v ''Finish'' then Some (Some 300)
      else if equal_ignore_case v ''Ignite'' then Some (Some 900)
      else case strtol10 v of
             (n, rest) \<Rightarrow> if rest = v \<or> n < 0 \<or> 65535 < n then None else Some (Some (word_of_int n)))"

definition edm_mode_cmd :: "string option \<Rightarrow> edm_spindle option \<Rightarrow> command_result" where
  "edm_mode_cmd value sp =
     (case sp of
        None \<Rightarrow> (ErrInvalidStatement, [], sp)
      | Some s \<Rightarrow>
          (case es_ctl s of
             None \<Rightarrow> (ErrInvalidStatement, [], sp)
           | Some c \<Rightarrow>
               if no_value value then (ErrInvalidValue, [], sp)
               else case mode_sword (the value) of
                      None \<Rightarrow> (ErrInvalidValue, [], sp)
                    | Some None \<Rightarrow> (ErrOk, [], Some (s\<lparr>es_ctl := Some (requestStop sim_psu_ops c)\<rparr>))
                    | Some (Some w) \<Rightarrow>
                        (ErrOk, [], Some (s\<lparr>es_ctl := Some (requestCut sim_psu_ops w c)\<rparr>))))"

definition edm_flush :: "string option \<Rightarrow> edm_spindle option \<Rightarrow> command_result" where
  "edm_flush value sp =
     (case sp of
        None \<Rightarrow> (ErrInvalidStatement, [], sp)
      | Some s \<Rightarrow>
          if es_ctl s = None then (ErrInvalidStatement, [], sp)
          else if no_value value then (ErrInvalidValue, [], sp)
          else case parse_flush_level (the value) of
                 None \<Rightarrow> (ErrInvalidValue, [], sp)
               | Some level \<Rightarrow>
                   (ErrOk, [], Some (spindle_setDiel ((dielDefaults s)
                      \<lparr>sd_flush_level := level, sd_pump_on := (if 0 < level then 1 else 0)\<rparr>) s)))"

definition edm_pump :: "string option \<Rightarrow> edm_spindle option \<Rightarrow> command_result" where
  "edm_pump value sp =
     (case sp of
        None \<Rightarrow> (ErrInvalidStatement, [], sp)
      | Some s \<Rightarrow>
          if es_ctl s = None then (ErrInvalidStatement, [], sp)
          else if no_value value then (ErrInvalidValue, [], sp)
          else case parse_on_off (the value) of
                 None \<Rightarrow> (ErrInvalidValue, [], sp)
               | Some on \<Rightarrow>
                   (ErrOk, [], Some (spindle_setDiel ((dielDefaults s)
                      \<lparr>sd_pump_on := (if on then 1 else 0)\<rparr>) s)))"

subsection \<open>Registration\<close>

datatype edm_command = CmdStatus | CmdTouchOff | CmdTension | CmdResetWireFeed | CmdMode
  | CmdFlush | CmdPump

definition notIdleOrAlarm :: "machine_state \<Rightarrow> bool" where
  "notIdleOrAlarm st \<longleftrightarrow> st \<notin> {MsIdle, MsAlarm, MsConfigAlarm, MsSafetyDoor, MsCritical}"

definition anyState :: "machine_state \<Rightarrow> bool" where
  "anyState st = False"

definition edm_commands :: "(string \<times> edm_command \<times> (machine_state \<Rightarrow> bool)) list" where
  "edm_commands =
     [(''EDM/Status'', CmdStatus, anyState), (''EDM/TouchOff'', CmdTouchOff, notIdleOrAlarm),
      (''EDM/Tension'', CmdTension, anyState), (''EDM/ResetWireFeed'', CmdResetWireFeed, anyState),
      (''EDM/Mode'', CmdMode, notIdleOrAlarm), (''EDM/Flush'', CmdFlush, anyState),
      (''EDM/Pump'', CmdPump, anyState)]"

definition run_edm_command ::
    "(string \<Rightarrow> real \<times> string) \<Rightarrow> edm_command \<Rightarrow> string option \<Rightarrow> edm_spindle option \<Rightarrow> command_result" where
  "run_edm_command strtof cmd value sp =
     (case cmd of
        CmdStatus \<Rightarrow> edm_status sp | CmdTouchOff \<Rightarrow> edm_touchoff sp
      | CmdTension \<Rightarrow> edm_tension strtof value sp | CmdResetWireFeed \<Rightarrow> edm_reset_wirefeed sp
      | CmdMode \<Rightarrow> edm_mode_cmd value sp | CmdFlush \<Rightarrow> edm_flush value sp
      | CmdPump \<Rightarrow> edm_pump value sp)"

text \<open>\<open>UserCommand::action\<close>: the checker of the command comes first.\<close>

definition command_action ::
    "(string \<Rightarrow> real \<times> string) \<Rightarrow> machine_state \<Rightarrow> edm_command \<times> (machine_state \<Rightarrow> bool) \<Rightarrow>
       string option \<Rightarrow> edm_spindle option \<Rightarrow> command_result" where
  "command_action strtof st entry value sp =
     (if snd entry st then (ErrIdleError, [], sp) else run_edm_command strtof (fst entry) value sp)"

text \<open>The search of \<open>do_command_or_setting\<close> in the part of the list that this file registers.\<close>

definition do_edm_command ::
    "(string \<Rightarrow> real \<times> string) \<Rightarrow> machine_state \<Rightarrow> string \<Rightarrow> string \<Rightarrow> edm_spindle option \<Rightarrow>
       command_result option" where
  "do_edm_command strtof st key value sp =
     (case List.find (\<lambda>e. equal_ignore_case (fst e) key) edm_commands of
        None \<Rightarrow> None
      | Some e \<Rightarrow> Some (command_action strtof st (snd e) (if value = [] then None else Some value) sp))"

definition edm_auto_report :: "edm_spindle option \<Rightarrow> json_out list" where
  "edm_auto_report sp =
     (case sp of
        None \<Rightarrow> []
      | Some s \<Rightarrow> (case es_ctl s of
          None \<Rightarrow> []
        | Some c \<Rightarrow> je_out (report_edm_stats (ctl_report c) (es_feed s))))"

subsection \<open>What the commands do\<close>

lemma parse_flush_range: "parse_flush_level v = Some l \<Longrightarrow> l \<le> 3"
proof -
  have "word_of_int n \<le> (3 :: u8)" if "0 \<le> n" "n \<le> 3" for n
    using that by (simp add: word_le_def unsigned_of_int take_bit_int_eq_self)
  then show "parse_flush_level v = Some l \<Longrightarrow> l \<le> 3"
    by (auto simp: parse_flush_level_def not_less split: if_splits prod.splits)
qed

lemma command_error_keeps:
  assumes "run_edm_command strtof cmd value sp = (e, outs, sp')" "e \<noteq> ErrOk"
  shows "sp' = sp" "outs = []"
  using assms
  by (cases cmd; auto simp: run_edm_command_def edm_status_def edm_touchoff_def edm_tension_def
      edm_reset_wirefeed_def edm_mode_cmd_def edm_flush_def edm_pump_def
      split: option.splits if_splits prod.splits)+

lemma command_action_error_keeps:
  assumes "command_action strtof st entry v sp = (e, outs, sp')" "e \<noteq> ErrOk"
  shows "sp' = sp \<and> outs = []"
  using assms command_error_keeps [of strtof "fst entry" v sp e outs sp']
  by (auto simp: command_action_def split: if_splits)

text \<open>The names of \<open>$EDM/Mode\<close> under the default thresholds.\<close>

lemma mode_names:
  "mode_sword ''Rough'' = Some (Some 100)" "mode_sword ''Finish'' = Some (Some 300)"
  "mode_sword ''Ignite'' = Some (Some 900)" "mode_sword ''Idle'' = Some None"
  by (simp_all add: mode_sword_def equal_ignore_case_map tolower_def)

lemma mode_names_select:
  "modeForSword mode_table_default 100 = ModeFinish"
  "modeForSword mode_table_default 300 = ModeFinish"
  "modeForSword mode_table_default 900 = ModeRough"
  by (simp_all add: modeForSword_def mode_table_default_def)

text \<open>Both dielectric commands start from the configured defaults.\<close>

definition spindle_flush_level :: "edm_spindle \<Rightarrow> u8 option" where
  "spindle_flush_level s =
     (case es_ctl s of None \<Rightarrow> None | Some c \<Rightarrow> map_option sdl_flush_level (ctl_diel c))"

lemma setDiel_flush_level:
  "es_ctl s = Some c \<Longrightarrow> ctl_diel c = Some d \<Longrightarrow>
     spindle_flush_level (spindle_setDiel sd s) = Some (if 3 < sd_flush_level sd then 3 else sd_flush_level sd)"
  by (simp add: spindle_flush_level_def spindle_setDiel_def sim_setDiel_def Let_def)

lemma setDiel_same [simp]:
  "es_diel_default_flush_level (spindle_setDiel sd s) = es_diel_default_flush_level s"
  "es_feed (spindle_setDiel sd s) = es_feed s"
  by (simp_all add: spindle_setDiel_def)

lemma setDiel_links:
  "es_ctl s = Some c \<Longrightarrow> ctl_diel c = Some d \<Longrightarrow>
     \<exists>c' d'. es_ctl (spindle_setDiel sd s) = Some c' \<and> ctl_diel c' = Some d'"
  by (simp add: spindle_setDiel_def)

lemma edm_flush_sets:
  assumes "es_ctl s = Some c" "ctl_diel c = Some d" "parse_flush_level v = Some l" "v \<noteq> []"
  shows "\<exists>s'. edm_flush (Some v) (Some s) = (ErrOk, [], Some s')
    \<and> spindle_flush_level s' = Some l \<and> (\<exists>c d. es_ctl s' = Some c \<and> ctl_diel c = Some d)
    \<and> es_diel_default_flush_level s' = es_diel_default_flush_level s"
  using assms parse_flush_range [OF assms(3)] setDiel_links [OF assms(1,2)]
  by (auto simp: edm_flush_def no_value_def setDiel_flush_level dest: leD)

lemma edm_pump_resets_flush:
  assumes "es_ctl s = Some c" "ctl_diel c = Some d" "parse_on_off v = Some on" "v \<noteq> []"
    and "(ucast (es_diel_default_flush_level s) :: u8) \<le> 3"
  shows "\<exists>s'. edm_pump (Some v) (Some s) = (ErrOk, [], Some s')
    \<and> spindle_flush_level s' = Some (ucast (es_diel_default_flush_level s))"
  using assms by (auto simp: edm_pump_def no_value_def setDiel_flush_level dielDefaults_def dest: leD)

end
