(* ===== verification/EdmMachine.thy ===== *)
theory EdmMachine
  imports EdmCommands ControllerSafety
begin

text \<open>
  The assembled EDM machine: the spindle that \<open>init\<close> builds, its three periodic tasks, the
  \<open>M3\<close>/\<open>M5\<close> handler, the stop that the motion loop sends and the \<open>$EDM/*\<close> commands, in any
  order. These are all the callers the sources have of the controller, the links and the
  wire feed outside their own files.
\<close>

datatype spindle_event = SeServo u32 | SeDiel | SeFeed u32 bool "nat \<Rightarrow> bool"
  | SeState spindle_state u32 | SeMotionStop | SeCommand machine_state string string

definition motion_stop :: "edm_spindle \<Rightarrow> edm_spindle" where
  "motion_stop s = s\<lparr>es_ctl := map_option (requestStop sim_psu_ops) (es_ctl s)\<rparr>"

definition command_step ::
    "(string \<Rightarrow> real \<times> string) \<Rightarrow> machine_state \<Rightarrow> string \<Rightarrow> string \<Rightarrow> edm_spindle \<Rightarrow> edm_spindle" where
  "command_step strtof st key value s =
     (case do_edm_command strtof st key value (Some s) of
        Some (_, _, Some s') \<Rightarrow> s' | _ \<Rightarrow> s)"

fun spindle_step :: "(string \<Rightarrow> real \<times> string) \<Rightarrow> spindle_event \<Rightarrow> edm_spindle \<Rightarrow> edm_spindle" where
  "spindle_step strtof (SeServo now_ms) s = servo_task now_ms s"
| "spindle_step strtof SeDiel s = diel_task s"
| "spindle_step strtof (SeFeed now_ms l dout) s = feed_task now_ms l dout s"
| "spindle_step strtof (SeState st speed) s = edm_setState st speed s"
| "spindle_step strtof SeMotionStop s = motion_stop s"
| "spindle_step strtof (SeCommand st key value) s = command_step strtof st key value s"

definition spindle_run ::
    "(string \<Rightarrow> real \<times> string) \<Rightarrow> spindle_event list \<Rightarrow> edm_spindle \<Rightarrow> edm_spindle" where
  "spindle_run strtof evs s = fold (spindle_step strtof) evs s"

subsection \<open>Invariants of the controller\<close>

text \<open>
  An invariant of the controller that holds whatever the dielectric link does to its own
  state and that every request and tick preserves is an invariant of the machine.
\<close>

locale machine_invariant =
  fixes I :: "(sim_psu, sim_diel) edm_controller \<Rightarrow> bool"
  assumes keep_cut: "I c \<Longrightarrow> I (requestCut sim_psu_ops w c)"
    and keep_stop: "I c \<Longrightarrow> I (requestStop sim_psu_ops c)"
    and keep_tick: "I c \<Longrightarrow> I (tick sim_psu_ops sim_diel_ops now_ms c)"
    and keep_set: "I c \<Longrightarrow> I (c\<lparr>ctl_diel := map_option (\<lambda>d. snd (sim_setDiel sd d)) (ctl_diel c)\<rparr>)"
    and keep_diel: "I c \<Longrightarrow> I (diel_task_ctl c)"
begin

definition spindle_inv :: "edm_spindle \<Rightarrow> bool" where
  "spindle_inv s \<longleftrightarrow> (\<forall>c. es_ctl s = Some c \<longrightarrow> I c)"

lemma setDiel_inv: "spindle_inv s \<Longrightarrow> spindle_inv (spindle_setDiel sd s)"
  by (auto simp: spindle_inv_def spindle_setDiel_def keep_set)

lemma command_inv:
  assumes "spindle_inv s" "run_edm_command strtof cmd value (Some s) = (e, outs, Some s')"
  shows "spindle_inv s'"
proof (cases cmd)
  case CmdStatus
  with assms show ?thesis by (auto simp: run_edm_command_def edm_status_def split: option.splits)
next
  case CmdTouchOff
  with assms show ?thesis by (auto simp: run_edm_command_def edm_touchoff_def split: if_splits)
next
  case CmdTension
  with assms show ?thesis
    by (auto simp: run_edm_command_def edm_tension_def spindle_inv_def
        split: option.splits if_splits prod.splits)
next
  case CmdResetWireFeed
  with assms show ?thesis
    by (auto simp: run_edm_command_def edm_reset_wirefeed_def spindle_inv_def split: option.splits)
next
  case CmdMode
  with assms show ?thesis
    by (auto simp: run_edm_command_def edm_mode_cmd_def spindle_inv_def keep_stop keep_cut
        split: option.splits if_splits)
next
  case CmdFlush
  with assms setDiel_inv show ?thesis
    by (auto simp: run_edm_command_def edm_flush_def split: option.splits if_splits)
next
  case CmdPump
  with assms setDiel_inv show ?thesis
    by (auto simp: run_edm_command_def edm_pump_def split: option.splits if_splits)
qed

lemma step_inv:
  assumes "spindle_inv s"
  shows "spindle_inv (spindle_step strtof ev s)"
proof (cases ev)
  case (SeCommand st key v)
  show ?thesis
  proof (cases "List.find (\<lambda>e. equal_ignore_case (fst e) key) edm_commands")
    case None
    with assms SeCommand show ?thesis by (simp add: command_step_def do_edm_command_def)
  next
    case (Some e)
    obtain err outs s' where r: "run_edm_command strtof (fst (snd e))
        (if v = [] then None else Some v) (Some s) = (err, outs, s')" by (metis prod_cases3)
    show ?thesis
      using assms SeCommand Some command_inv [OF assms, of strtof "fst (snd e)"] r
      by (auto simp: command_step_def do_edm_command_def command_action_def split: option.splits)
  qed
next
  case (SeState st speed)
  with assms show ?thesis
    by (cases "es_ctl s") (auto simp: edm_setState_def spindle_inv_def keep_stop keep_cut Let_def)
qed (insert assms, auto simp: servo_task_def diel_task_def feed_task_def motion_stop_def
    spindle_inv_def keep_tick keep_diel keep_stop)

lemma run_inv: "spindle_inv s \<Longrightarrow> spindle_inv (spindle_run strtof evs s)"
  by (induction evs arbitrary: s) (simp_all add: spindle_run_def step_inv)

end

subsection \<open>Telemetry never starts\<close>

text \<open>
  \<open>SimPsuLink::tick\<close> has no caller in the firmware, so the link built by \<open>init\<close> never has
  telemetry, and it never has an event.
\<close>

definition silent_linv :: "sim_psu \<Rightarrow> bool" where
  "silent_linv l \<longleftrightarrow> sim_linv l \<and> \<not> sim_stats_valid l \<and> sim_pending l = []"

lemma silent_no_stats: "silent_linv l \<Longrightarrow> po_latestStats sim_psu_ops l = None"
  by (simp add: silent_linv_def sim_psu_ops_def sim_latestStats_def)

interpretation silent_link: psu_link sim_psu_ops sim_cutting sim_pending silent_linv
proof
  fix l :: sim_psu and m
  assume l: "silent_linv l"
  then have s: "sim_linv l" by (simp add: silent_linv_def)
  show "sim_cutting (po_startCut sim_psu_ops l)" "\<not> sim_cutting (po_stopCut sim_psu_ops l)"
    "sim_cutting (po_clearFault sim_psu_ops l) = sim_cutting l"
    "sim_cutting (snd (po_setModeBounds sim_psu_ops m l)) = sim_cutting l"
    using sim_link.start_spark sim_link.stop_spark sim_link.clear_spark sim_link.bounds_spark s
    by simp_all
  have "sim_stats_valid (po_startCut sim_psu_ops l) = sim_stats_valid l"
    "sim_stats_valid (po_stopCut sim_psu_ops l) = sim_stats_valid l"
    "sim_stats_valid (po_clearFault sim_psu_ops l) = sim_stats_valid l"
    "sim_stats_valid (snd (po_setModeBounds sim_psu_ops m l)) = sim_stats_valid l"
    by (simp_all add: sim_psu_ops_def sim_command_defs)
  then show "silent_linv (po_startCut sim_psu_ops l) \<and> silent_linv (po_stopCut sim_psu_ops l)
      \<and> silent_linv (po_clearFault sim_psu_ops l)
      \<and> silent_linv (snd (po_setModeBounds sim_psu_ops m l))"
    using l sim_link.command_linv [OF s, of m] sim_link.command_pending [OF s, of m]
    by (simp add: silent_linv_def)
  show "sim_pending (po_startCut sim_psu_ops l) = sim_pending l
      \<and> sim_pending (po_stopCut sim_psu_ops l) = sim_pending l
      \<and> sim_pending (po_clearFault sim_psu_ops l) = sim_pending l
      \<and> sim_pending (snd (po_setModeBounds sim_psu_ops m l)) = sim_pending l"
    using sim_link.command_pending [OF s] .
  show "psu_view sim_psu_ops (po_startCut sim_psu_ops l) = psu_view sim_psu_ops l
      \<and> psu_view sim_psu_ops (po_stopCut sim_psu_ops l) = psu_view sim_psu_ops l
      \<and> psu_view sim_psu_ops (po_clearFault sim_psu_ops l) = psu_view sim_psu_ops l
      \<and> psu_view sim_psu_ops (snd (po_setModeBounds sim_psu_ops m l)) = psu_view sim_psu_ops l"
    using sim_link.command_view [OF s] .
next
  fix l :: sim_psu
  assume "silent_linv l" "sim_pending l = []"
  then show "po_popEvent sim_psu_ops l = None"
    by (intro sim_link.pop_None) (simp_all add: silent_linv_def)
qed (simp add: silent_linv_def)

lemma servo_contact_fresh:
  assumes "ctl_state c = StTouchOff" "ctl_state (snd (tick_servo ops tv c)) = StCutting"
  shows "tl_fresh tv"
proof -
  define inp where "inp = (let inp = buildInput (tl_s tv) (tl_fresh tv) c
      in if tl_stale_hold tv then inp\<lparr>gi_valid := False\<rparr> else inp)"
  have "ctl_state (servo_touchoff ops inp (c\<lparr>ctl_ss := go_next (servo_step (ctl_servo_cfg c) (ctl_ss c) inp)\<rparr>))
      = StCutting"
    using assms by (simp add: tick_servo_def active_state_def inp_def Let_def)
  then have "gi_valid inp" by (rule servo_touchoff_contact(1) [rotated]) (simp add: assms(1))
  then show ?thesis by (simp add: inp_def buildInput_def Let_def split: if_splits)
qed

lemma tick_contact_fresh:
  assumes "ctl_state (tick_drained ops now_ms c) = StTouchOff"
    and "ctl_state (tick ops dops now_ms c) = StCutting"
  shows "po_latestStats ops (ctl_link (tick_drained ops now_ms c)) \<noteq> None"
proof -
  define g where "g = tick_guarded ops dops now_ms c"
  define tv where "tv = tick_view ops dops now_ms c"
  have g: "g = tick_guards ops tv (tick_gathered ops dops now_ms c)"
    by (simp add: g_def tv_def tick_guarded_def)
  have st: "ctl_state (tick_gathered ops dops now_ms c) = StTouchOff"
    using assms(1) by (simp add: tick_gathered_def)
  have sv: "ctl_state (snd (tick_servo ops tv g)) = StCutting"
    using assms(2) by (simp add: tick_state g_def tv_def)
  have "ctl_state g = StTouchOff"
  proof (rule tick_guards_state [of ops tv "tick_gathered ops dops now_ms c", folded g])
    assume "ctl_state g = StFault"
    with sv show ?thesis by (simp add: tick_servo_inactive active_state_def)
  qed (simp_all add: st)
  from servo_contact_fresh [OF this sv] show ?thesis
    by (simp add: tv_def tick_view_def tick_telemetry_def Let_def)
qed

text \<open>So the gap search never ends in a cut.\<close>

definition silent_ctl :: "('d, 'e) edm_controller \<Rightarrow> bool" where
  "silent_ctl c \<longleftrightarrow> ctl_state c \<in> {StIdle, StArmed, StTouchOff, StFault}"

lemma silent_tick:
  assumes "spark_safe sim_cutting silent_linv c" "silent_ctl c"
  shows "silent_ctl (tick sim_psu_ops dops now_ms c)"
proof -
  have l: "silent_linv (ctl_link c)" using assms(1) by (simp add: spark_safe_def)
  then have pop: "po_popEvent sim_psu_ops (ctl_link c) = None"
    by (intro silent_link.pop_None) (simp_all add: silent_linv_def)
  have d: "tick_drained sim_psu_ops now_ms c = c\<lparr>ctl_now := now_ms\<rparr>"
    using pop by (rule tick_drained_none)
  have "ctl_state (tick sim_psu_ops dops now_ms c) \<noteq> StCutting" if "ctl_state c = StTouchOff"
    using tick_contact_fresh [of sim_psu_ops now_ms c dops] silent_no_stats [OF l] that
    by (auto simp: d)
  moreover have "edm_trans (ctl_state c) (ctl_state (tick sim_psu_ops dops now_ms c))"
    using tick_trans [of sim_psu_ops now_ms c dops] by (simp add: d)
  ultimately show ?thesis using assms(2)
    by (auto simp: silent_ctl_def elim: edm_trans.cases)
qed

lemma no_env_ok: "env_ok spark linv (\<lambda>l l'. False)"
  by (simp add: env_ok_def)

lemmas silent_step = silent_link.step_spark_safe [OF no_env_ok]

lemma requestCut_state: "ctl_state (requestCut ops w c) \<in> {ctl_state c, StIdle, StArmed}"
  by (simp add: requestCut_def requestStop_def maybeSendModeBounds_def Let_def)

lemma requestStop_state: "ctl_state (requestStop ops c) = StIdle"
  by (simp add: requestStop_def Let_def)

interpretation silent_machine: machine_invariant
    "\<lambda>c. spark_safe sim_cutting silent_linv c \<and> silent_ctl c"
proof
  fix c :: "(sim_psu, sim_diel) edm_controller" and w now_ms sd
  assume I: "spark_safe sim_cutting silent_linv c \<and> silent_ctl c"
  then have s: "spark_safe sim_cutting silent_linv c" and st: "silent_ctl c" by simp_all
  show "spark_safe sim_cutting silent_linv (requestCut sim_psu_ops w c)
      \<and> silent_ctl (requestCut sim_psu_ops w c)"
    using silent_step [OF s cs_cut] requestCut_state [of sim_psu_ops w c] st
    by (auto simp: silent_ctl_def)
  show "spark_safe sim_cutting silent_linv (requestStop sim_psu_ops c)
      \<and> silent_ctl (requestStop sim_psu_ops c)"
    using silent_step [OF s cs_stop] by (simp add: silent_ctl_def requestStop_state)
  show "spark_safe sim_cutting silent_linv (tick sim_psu_ops sim_diel_ops now_ms c)
      \<and> silent_ctl (tick sim_psu_ops sim_diel_ops now_ms c)"
    using silent_step [OF s cs_tick] silent_tick [OF s st] by blast
  show "spark_safe sim_cutting silent_linv
        (c\<lparr>ctl_diel := map_option (\<lambda>d. snd (sim_setDiel sd d)) (ctl_diel c)\<rparr>)
      \<and> silent_ctl (c\<lparr>ctl_diel := map_option (\<lambda>d. snd (sim_setDiel sd d)) (ctl_diel c)\<rparr>)"
    using s st by (simp add: spark_safe_def silent_ctl_def)
  show "spark_safe sim_cutting silent_linv (diel_task_ctl c) \<and> silent_ctl (diel_task_ctl c)"
    using s st by (simp add: spark_safe_def silent_ctl_def diel_task_ctl_def)
qed

lemma init_ctl:
  "\<exists>c. es_ctl (edm_init now_ms s) = Some c \<and> ctl_state c = StIdle
     \<and> ctl_link c = sim_begin sim_init
     \<and> ctl_dielCfg c = build_interlock (case es_diel_cfg s of Some d \<Rightarrow> d | None \<Rightarrow> edm_diel_config_default)
     \<and> (\<exists>d. ctl_diel c = Some d \<and> sdl_flow_clpm d = 0 \<and> sim_dinv d)"
proof -
  have "sim_dinv (sim_diel_begin sim_diel_init)"
    using sim_diel_init_dinv by (simp add: sim_dinv_def sim_diel_begin_def)
  then have "sim_dinv (snd (sim_setDiel sd (sim_diel_begin sim_diel_init)))" for sd
    using sim_dlink.set_dinv [of "sim_diel_begin sim_diel_init" sd] by (simp add: sim_diel_ops_def)
  moreover have "sdl_flow_clpm (snd (sim_setDiel sd (sim_diel_begin sim_diel_init))) = 0" for sd
    by (simp add: sim_setDiel_def sim_diel_begin_def sim_diel_init_def Let_def)
  ultimately show ?thesis
    by (simp add: edm_init_def Let_def spindle_setDiel_def attachDielectric_def controller_init_def
        split: option.split)
qed

lemma begin_silent: "silent_linv (sim_begin sim_init) \<and> \<not> sim_cutting (sim_begin sim_init)"
  using sim_init_linv
  by (simp add: silent_linv_def sim_begin_def sim_init_def sim_linv_def sim_pending_def ring_contents_def)

lemma machine_silent:
  assumes "es_ctl (spindle_run strtof evs (edm_init now_ms s)) = Some c"
  shows "spark_safe sim_cutting silent_linv c" "silent_ctl c"
proof -
  have "silent_machine.spindle_inv (edm_init now_ms s)"
    unfolding silent_machine.spindle_inv_def using init_ctl [of now_ms s] begin_silent
    by (auto simp: spark_safe_def silent_ctl_def)
  from silent_machine.run_inv [OF this] assms
  show "spark_safe sim_cutting silent_linv c" "silent_ctl c"
    unfolding silent_machine.spindle_inv_def by blast+
qed

subsection \<open>A required dielectric blocks every cut\<close>

text \<open>
  With the simulated dielectric module the flow only rises while a cut is active, and with
  the interlock required a cut only starts when there is flow.
\<close>

lemma same_diel_blocks:
  "(ctl_diel (enterFault ops r c), ctl_dielCfg (enterFault ops r c)) = (ctl_diel c, ctl_dielCfg c)"
  "(ctl_diel (maybeSendModeBounds ops c), ctl_dielCfg (maybeSendModeBounds ops c))
    = (ctl_diel c, ctl_dielCfg c)"
  by (simp_all add: enterFault_def maybeSendModeBounds_def Let_def)

lemma same_diel_guards:
  fixes c :: "('a, 'b) edm_controller"
  shows "ctl_diel (tick_guards ops tv c) = ctl_diel c \<and> ctl_dielCfg (tick_guards ops tv c) = ctl_dielCfg c"
proof -
  have f: "(ctl_diel d', ctl_dielCfg d') = (ctl_diel d, ctl_dielCfg d)"
    if "d' \<in> {tick_diel_report tv d, tick_health ops tv d, tick_diel_loss ops tv d,
        tick_armed ops tv d, tick_relief d, tick_sev_clear ops d}"
    for d d' :: "('a, 'b) edm_controller"
    using that same_diel_blocks
    by (auto simp: tick_diel_report_def tick_health_def tick_diel_loss_def tick_armed_def
        tick_relief_def tick_sev_clear_def Let_def)
  have "(ctl_diel (tick_guards ops tv c), ctl_dielCfg (tick_guards ops tv c)) = (ctl_diel c, ctl_dielCfg c)"
    unfolding tick_guards_def Let_def
    by (simp only: f [OF insertI1] f [OF insertI2, OF insertI1]
        f [OF insertI2, OF insertI2, OF insertI1]
        f [OF insertI2, OF insertI2, OF insertI2, OF insertI1]
        f [OF insertI2, OF insertI2, OF insertI2, OF insertI2, OF insertI1]
        f [OF insertI2, OF insertI2, OF insertI2, OF insertI2, OF insertI2, OF insertI1])
  then show ?thesis by simp
qed

lemma same_diel_servo:
  fixes c :: "('a, 'b) edm_controller"
  shows "ctl_diel (snd (tick_servo ops tv c)) = ctl_diel c
   \<and> ctl_dielCfg (snd (tick_servo ops tv c)) = ctl_dielCfg c"
proof -
  have t: "(ctl_diel (servo_touchoff ops inp d), ctl_dielCfg (servo_touchoff ops inp d))
      = (ctl_diel d, ctl_dielCfg d)" for inp and d :: "('a, 'b) edm_controller"
    by (simp add: servo_touchoff_def enterFault_def Let_def)
  have s: "(ctl_diel (servo_stall ops inp out d), ctl_dielCfg (servo_stall ops inp out d))
      = (ctl_diel d, ctl_dielCfg d)" for inp out and d :: "('a, 'b) edm_controller"
    by (simp add: servo_stall_def Let_def)
  have l: "(ctl_diel (servo_lost_gap inp d), ctl_dielCfg (servo_lost_gap inp d))
      = (ctl_diel d, ctl_dielCfg d)" for inp and d :: "('a, 'b) edm_controller"
    by (simp add: servo_lost_gap_def Let_def)
  show ?thesis using t s l by (auto simp: tick_servo_def Let_def)
qed

lemma same_diel_tick:
  "ctl_diel (tick ops dops now_ms c) = ctl_diel (tick_drained ops now_ms c)
   \<and> ctl_dielCfg (tick ops dops now_ms c) = ctl_dielCfg (tick_drained ops now_ms c)"
  using same_diel_servo [of ops "tick_view ops dops now_ms c" "tick_guarded ops dops now_ms c"]
    same_diel_guards [of ops "tick_view ops dops now_ms c" "tick_gathered ops dops now_ms c"]
  by (simp add: tick_split Let_def tick_report_def tick_guarded_def tick_gathered_def)

lemma tick_enters_touchoff:
  assumes "ctl_state (tick_drained ops now_ms c) = StArmed"
    and "ctl_state (tick ops dops now_ms c) = StTouchOff"
  shows "diel_ok dops c"
proof -
  define tv where "tv = tick_view ops dops now_ms c"
  define r where "r = tick_diel_report tv (tick_gathered ops dops now_ms c)"
  define h where "h = tick_diel_loss ops tv (tick_health ops tv r)"
  define a where "a = tick_armed ops tv h"
  have st: "ctl_state r = StArmed" using assms(1) by (simp add: r_def tick_gathered_def)
  have h: "ctl_state h = StArmed \<or> ctl_state h = StFault"
    using tick_diel_loss_state [of ops tv "tick_health ops tv r"] tick_health_state [of ops tv r] st
    by (auto simp: h_def)
  have g: "tick_guarded ops dops now_ms c = tick_sev_clear ops (tick_relief a)"
    by (simp add: tick_guarded_def tick_guards_def a_def h_def r_def tv_def)
  have arm: "ctl_state a = StArmed \<or> ctl_state a = StFault \<or> ctl_state a = StTouchOff \<and> tl_dielOk tv"
    using h by (auto simp: a_def tick_armed_def Let_def)
  have "ctl_state a = StTouchOff"
  proof (rule ccontr)
    assume "\<not> ?thesis"
    then have "ctl_state (tick_guarded ops dops now_ms c) = StArmed
        \<or> ctl_state (tick_guarded ops dops now_ms c) = StFault"
      using arm by (auto simp: g tick_relief_def)
    then show False using assms(2)
      by (auto simp: tick_state tick_servo_inactive active_state_def)
  qed
  then show ?thesis using arm by (simp add: tv_def tick_view_dielOk)
qed

definition dry_ctl :: "(sim_psu, sim_diel) edm_controller \<Rightarrow> bool" where
  "dry_ctl c \<longleftrightarrow> spark_safe sim_cutting silent_linv c \<and> \<not> sim_cutting (ctl_link c)
     \<and> ctl_state c \<in> {StIdle, StArmed, StFault}
     \<and> di_required (ctl_dielCfg c) \<and> 0 < di_flow_min_clpm (ctl_dielCfg c)
     \<and> (\<exists>d. ctl_diel c = Some d \<and> sdl_flow_clpm d = 0)"

lemma dry_not_ok: "dry_ctl c \<Longrightarrow> \<not> diel_ok sim_diel_ops c"
  by (auto simp: dry_ctl_def diel_ok_def sim_diel_ops_def sim_diel_latestStats_def dielReadyToCut_def
      round_half_up_def fadd_def Let_def trunc_def word_le_nat_alt word_less_nat_alt float_simps)

lemma dry_tick:
  assumes "dry_ctl c"
  shows "dry_ctl (tick sim_psu_ops sim_diel_ops now_ms c)"
proof -
  have s: "spark_safe sim_cutting silent_linv c" and off: "\<not> sim_cutting (ctl_link c)"
    using assms by (simp_all add: dry_ctl_def)
  have nok: "\<not> diel_ok sim_diel_ops c" using assms by (rule dry_not_ok)
  have l: "silent_linv (ctl_link c)" using s by (simp add: spark_safe_def)
  have d: "tick_drained sim_psu_ops now_ms c = c\<lparr>ctl_now := now_ms\<rparr>"
    by (rule tick_drained_none, rule silent_link.pop_None) (use l in \<open>simp_all add: silent_linv_def\<close>)
  have "ctl_state (tick sim_psu_ops sim_diel_ops now_ms c) \<noteq> StTouchOff" if "ctl_state c = StArmed"
    using tick_enters_touchoff [of sim_psu_ops now_ms c sim_diel_ops] nok that by (auto simp: d)
  then have st: "ctl_state (tick sim_psu_ops sim_diel_ops now_ms c) \<in> {StIdle, StArmed, StFault}"
    using tick_trans [of sim_psu_ops now_ms c sim_diel_ops] assms
    by (auto simp: d dry_ctl_def elim: edm_trans.cases)
  show ?thesis
    using silent_link.tick_spark [OF s, of sim_diel_ops now_ms] off nok st
      same_diel_tick [of sim_psu_ops sim_diel_ops now_ms c] assms
    by (auto simp: dry_ctl_def d cut_permitted_def)
qed

lemma idle_flow_zero:
  "sdl_flow_clpm d = 0 \<Longrightarrow> sdl_flow_clpm (sim_diel_tick (sim_diel_setCutting False d)) = 0"
  by (simp add: sim_diel_tick_def sim_diel_setCutting_def Let_def flerp_def fadd_def fmul_def fsub_def)

lemma dry_diel_task:
  assumes "dry_ctl c"
  shows "dry_ctl (diel_task_ctl c)"
proof -
  obtain d where d: "ctl_diel c = Some d" "sdl_flow_clpm d = 0" using assms by (auto simp: dry_ctl_def)
  have "\<not> isCutting (ctl_state c)" using assms by (auto simp: dry_ctl_def isCutting_def)
  then have "ctl_diel (diel_task_ctl c) = Some (sim_diel_tick (sim_diel_setCutting False d))"
    by (simp add: diel_task_ctl_def d(1))
  moreover have "ctl_link (diel_task_ctl c) = ctl_link c" "ctl_state (diel_task_ctl c) = ctl_state c"
    "ctl_dielCfg (diel_task_ctl c) = ctl_dielCfg c"
    by (simp_all add: diel_task_ctl_def)
  ultimately show ?thesis
    using assms idle_flow_zero [OF d(2)] by (simp add: dry_ctl_def spark_safe_def)
qed

interpretation dry_machine: machine_invariant dry_ctl
proof
  fix c :: "(sim_psu, sim_diel) edm_controller" and w now_ms sd
  assume I: "dry_ctl c"
  then have s: "spark_safe sim_cutting silent_linv c" by (simp add: dry_ctl_def)
  have diel: "ctl_diel (requestCut sim_psu_ops w c) = ctl_diel c"
    "ctl_dielCfg (requestCut sim_psu_ops w c) = ctl_dielCfg c"
    "ctl_diel (requestStop sim_psu_ops c) = ctl_diel c"
    "ctl_dielCfg (requestStop sim_psu_ops c) = ctl_dielCfg c"
    by (simp_all add: requestCut_def requestStop_def maybeSendModeBounds_def Let_def)
  show "dry_ctl (requestCut sim_psu_ops w c)"
    using silent_link.quiet_requestCut [of c w] requestCut_state [of sim_psu_ops w c] I s diel
    by (auto simp: dry_ctl_def quiet_step_def)
  show "dry_ctl (requestStop sim_psu_ops c)"
    using silent_link.quiet_requestStop [of c] I s diel
    by (auto simp: dry_ctl_def quiet_step_def requestStop_state)
  show "dry_ctl (tick sim_psu_ops sim_diel_ops now_ms c)" using I by (rule dry_tick)
  show "dry_ctl (c\<lparr>ctl_diel := map_option (\<lambda>d. snd (sim_setDiel sd d)) (ctl_diel c)\<rparr>)"
    using I by (auto simp: dry_ctl_def spark_safe_def sim_setDiel_def Let_def)
  show "dry_ctl (diel_task_ctl c)" using I by (rule dry_diel_task)
qed

lemma machine_dry:
  assumes "es_diel_cfg s = Some d" "ed_required d" "(ucast (ed_flow_min_clpm d) :: u16) \<noteq> 0"
    and "es_ctl (spindle_run strtof evs (edm_init now_ms s)) = Some c"
  shows "dry_ctl c"
proof -
  have "0 < (ucast (ed_flow_min_clpm d) :: u16)" using assms(3) by (simp add: word_neq_0_conv)
  then have "dry_machine.spindle_inv (edm_init now_ms s)"
    unfolding dry_machine.spindle_inv_def using init_ctl [of now_ms s] begin_silent assms(1,2)
    by (auto simp: dry_ctl_def spark_safe_def build_interlock_def)
  from dry_machine.run_inv [OF this] assms(4) show ?thesis
    unfolding dry_machine.spindle_inv_def by blast
qed

end
