(* ===== verification/FeedDemo.thy ===== *)
theory FeedDemo
  imports WireFeed
begin

text \<open>A slack reading of thirty milliseconds, for the properties of the collapse detector.\<close>

definition demo_slack :: tension_input where
  "demo_slack = tension_input_default\<lparr>ti_meas_valid := True, ti_cutting := True, ti_dt_ms := 30\<rparr>"

lemma demo_slack_reading: "slack_reading tension_config_default demo_slack"
proof -
  have sev: "tension_sev demo_slack = 0"
    by (simp add: tension_sev_def demo_slack_def tension_input_default_def)
  have sp: "sp_eff tension_config_default demo_slack = 5"
    by (simp add: sp_eff_def tension_scale_def sev tension_config_default_def fmul_def float_simps)
  have "1 / 8 \<le> f32 0.2" by (rule f32_ge_bound) (simp_all add: is_f32_def float_simps)
  then have "1 / 8 * 5 \<le> f32 0.2 * 5" by (intro mult_right_mono) simp_all
  then have "1 / 2 \<le> fmul (f32 0.2) 5"
    unfolding fmul_def by (intro f32_ge_bound) (simp_all add: is_f32_def float_simps)
  then have "is_slack tension_config_default demo_slack"
    unfolding is_slack_def sp
    by (simp add: tension_config_default_def demo_slack_def tension_input_default_def)
  then show ?thesis by (simp add: slack_reading_def demo_slack_def)
qed

lemma demo_slack_collapses:
  "ts_collapse_latched (tension_run tension_config_default tension_reset [demo_slack])"
  by (rule tension_run_collapse_complete)
    (simp_all add: demo_slack_reading, simp_all add: demo_slack_def tension_config_default_def)

end
