(* ===== verification/PlanLine.thy ===== *)
theory PlanLine
  imports Float32
begin

text \<open>What a motion tells the planner (\<^verbatim>\<open>Planner.h\<close>): shared by the G-code interpreter and the cut.\<close>

text \<open>\<^verbatim>\<open>plan_line_data_t\<close>, with the bits of \<^verbatim>\<open>PlMotion\<close> spelt out.\<close>

record plan_line =
  pl_feed_rate :: real
  pl_spindle_speed :: u32
  pl_rapidMotion :: bool
  pl_systemMotion :: bool
  pl_noFeedOverride :: bool
  pl_inverseTime :: bool
  pl_spindle :: nat
  pl_coolant :: "bool \<times> bool"
  pl_line_number :: i32
  pl_is_jog :: bool
  pl_limits_checked :: bool

text \<open>A cleared structure: \<open>memset\<close> to zero.\<close>

definition plan_line_zero :: plan_line where
  "plan_line_zero = \<lparr>pl_feed_rate = 0, pl_spindle_speed = 0, pl_rapidMotion = False,
     pl_systemMotion = False, pl_noFeedOverride = False, pl_inverseTime = False, pl_spindle = 0,
     pl_coolant = (False, False), pl_line_number = 0, pl_is_jog = False, pl_limits_checked = False\<rparr>"

end
