(* ===== verification/NgcParameters.thy ===== *)
theory NgcParameters
  imports GcodeState PlanLine
begin

text \<open>
  Numbered, named and system parameters (\<^verbatim>\<open>Parameters.cpp\<close>, with \<open>get_wco\<close> of
  \<^verbatim>\<open>System.cpp\<close> and the lookups of \<^verbatim>\<open>Job.h\<close>). The environment supplies what the rest of the
  firmware knows: positions, overrides, the configuration tree. A function that returns a
  \<open>bool\<close> and a value is an option. The log lines are left out.
\<close>

subsection \<open>The world of the interpreter\<close>

datatype gc_action =
    AcSynchronize
  | AcNgcChanged u16
  | AcWcoChanged
  | AcOvrChanged
  | AcSaveCoords u16
  | AcSetConfig string real
  | AcSpindle spindle_state u32
  | AcSpindleStop nat
  | AcToolChange u32 bool
  | AcCoolant coolant_state
  | AcDigital nat bool
  | AcAnalog nat real
  | AcOverrideControl override_control
  | AcDwell i32
  | AcAlarmRaised u8
  | AcFeedHold
  | AcJobPercent
  | AcResetOverrides
  | AcSpinDown
  | AcCoolantOff
  | AcProgramEnd
  | AcLinear "real list" plan_line "real list"
  | AcArc "real list" plan_line "real list" "real list" real nat nat nat bool int
  | AcCut "real list" plan_line "real list"
  | AcCutArc "real list" plan_line "real list" "real list" real nat nat bool int
  | AcProbeDirection bool
  | AcCycleStart
  | AcPlannerReset

text \<open>How a probe cycle went: an abort, a probe that was already tripped, contact at a place.\<close>

datatype probe_outcome = ProbeAborted | ProbeTripped | ProbeAbortedMoving | ProbeContact "real list"
  | ProbeNoContact

record gc_world =
  gw_gc :: parser_state
  gw_coords :: "u16 \<Rightarrow> real list"
  gw_float_params :: "u32 \<rightharpoonup> real"
  gw_named :: "string \<rightharpoonup> real"
  gw_assignments :: "(param_ref \<times> real) list"
  gw_jobs :: "job_source list"
  gw_context :: "ngc_stack_entry list"
  gw_spindle :: nat
  gw_out :: "gc_action list"

record gc_env =
  ge_n_axis :: nat
  ge_mpos :: "real list"
  ge_probe_position :: "real list"
  ge_probe_succeeded :: bool
  ge_config_item :: "string \<Rightarrow> real option"
  ge_set_config_item :: "string \<Rightarrow> real \<Rightarrow> bool"
  ge_version :: string
  ge_f_override :: nat
  ge_spindle_speed_ovr :: nat
  ge_feed_hold :: bool
  ge_check_mode :: bool
  ge_abort :: bool
  ge_use_line_numbers :: bool
  ge_parking_override :: bool
  ge_deactivate_parking :: bool
  ge_probe_exists :: bool
  ge_probe_check_mode_start :: bool
  ge_probe_outcome :: probe_outcome
  ge_spindle_tools :: "u32 list"
  ge_spindle_reversable :: "nat \<Rightarrow> bool"
  ge_spindle_rate_adjusted :: "nat \<Rightarrow> bool"
  ge_spindle_is_edm :: "nat \<Rightarrow> bool"
  ge_no_tool_changer :: "nat \<Rightarrow> bool"
  ge_has_mist :: bool
  ge_has_flood :: bool
  ge_set_digital :: "nat \<Rightarrow> bool \<Rightarrow> bool"
  ge_set_analog :: "nat \<Rightarrow> real \<Rightarrow> bool"
  ge_digital_input :: "nat \<Rightarrow> real option"
  ge_analog_input :: "nat \<Rightarrow> real option"
  ge_constrain_jog :: "real list \<Rightarrow> real list \<times> bool"
  ge_jog_accepted :: bool
  ge_steps_mpos :: "real list"

definition gc_emit :: "gc_action \<Rightarrow> gc_world \<Rightarrow> gc_world" where
  "gc_emit a w = w\<lparr>gw_out := gw_out w @ [a]\<rparr>"

definition gc_ngc_changed :: "u16 \<Rightarrow> gc_world \<Rightarrow> gc_world" where
  "gc_ngc_changed c = gc_emit (AcNgcChanged c)"

definition job_active :: "gc_world \<Rightarrow> bool" where
  "job_active w \<longleftrightarrow> gw_jobs w \<noteq> []"

subsection \<open>Numbered parameters\<close>

definition can_write_float_param :: "u32 \<Rightarrow> bool" where
  "can_write_float_param i \<longleftrightarrow> (if i = 5399 then True else if 1 \<le> i \<and> i \<le> 5000 then True else False)"

definition can_read_float_param :: "u32 \<Rightarrow> bool" where
  "can_read_float_param i \<longleftrightarrow> (if i = 5399 then True else if 31 \<le> i \<and> i \<le> 5000 then True else False)"

definition float_params_start :: "u32 \<rightharpoonup> real" where
  "float_params_start = [5399 \<mapsto> 0]"

definition axis_params :: "(u32 \<times> u16) list" where
  "axis_params = [(5161, CI_G28), (5181, CI_G30), (5211, CI_G92), (5221, 0), (5241, 1), (5261, 2),
     (5281, 3), (5301, 4), (5321, 5), (5341, 6), (5361, 7), (5381, 8), (5401, CI_TLO)]"

text \<open>The axis as the number of the enumeration; a number below the key wraps around.\<close>

definition axis_from_id :: "u32 \<Rightarrow> u32 \<Rightarrow> nat" where
  "axis_from_id i index = unat (i - index)"

definition is_axis :: "nat \<Rightarrow> bool" where
  "is_axis axis \<longleftrightarrow> axis < MAX_N_AXIS"

fun find_axis_param :: "u32 \<Rightarrow> (u32 \<times> u16) list \<Rightarrow> (nat \<times> u16) option" where
  "find_axis_param i [] = None"
| "find_axis_param i ((key, coord_index) # ps) =
     (let axis = axis_from_id i key
      in if is_axis axis then Some (axis, coord_index) else find_axis_param i ps)"

definition to_inches :: "parser_state \<Rightarrow> nat \<Rightarrow> real \<Rightarrow> real" where
  "to_inches gc axis v =
     (if is_linear axis \<and> m_units (gs_modal gc) = UnitsInches then fmul v INCH_PER_MM else v)"

definition to_mm :: "parser_state \<Rightarrow> nat \<Rightarrow> real \<Rightarrow> real" where
  "to_mm gc axis v =
     (if is_linear axis \<and> m_units (gs_modal gc) = UnitsInches then fmul v MM_PER_INCH else v)"

definition get_wco :: "gc_env \<Rightarrow> parser_state \<Rightarrow> real list" where
  "get_wco env gc = map (\<lambda>axis.
     if axis < ge_n_axis env
     then fadd (fadd (gs_coord_system gc ! axis) (gs_coord_offset gc ! axis))
            (gs_tool_length_offset gc ! axis)
     else 0) [0..<MAX_N_AXIS]"

definition mpos_to_wpos :: "gc_env \<Rightarrow> parser_state \<Rightarrow> real list \<Rightarrow> real list" where
  "mpos_to_wpos env gc position = map (\<lambda>axis.
     if axis < ge_n_axis env then fsub (position ! axis) (get_wco env gc ! axis)
     else position ! axis) [0..<MAX_N_AXIS]"

definition get_numbered_param :: "gc_env \<Rightarrow> gc_world \<Rightarrow> u32 \<Rightarrow> real option" where
  "get_numbered_param env w i =
     (let gc = gw_gc w
      in case find_axis_param i axis_params of
           Some (axis, coord_index) \<Rightarrow>
             if coord_index = CI_G92 then Some (to_inches gc axis (gs_coord_offset gc ! axis))
             else Some (to_inches gc axis (gw_coords w coord_index ! axis))
         | None \<Rightarrow>
             let axis = axis_from_id i 5061
             in if is_axis axis then Some (to_inches gc axis (ge_probe_position env ! axis))
                else if i = 5220 then Some (fint (uint (m_coord_select (gs_modal gc)) + 1))
                else if i = 5400 then Some (fint (uint (gs_selected_tool gc)))
                else
                  let axis = axis_from_id i 5420
                  in if is_axis axis
                     then Some (to_inches gc axis (mpos_to_wpos env gc (ge_mpos env) ! axis))
                     else if i = 5070 then Some (float_of_bool (ge_probe_succeeded env))
                     else if can_read_float_param i then gw_float_params w i
                     else None)"

definition set_coord_axis :: "u16 \<Rightarrow> nat \<Rightarrow> real \<Rightarrow> gc_world \<Rightarrow> gc_world" where
  "set_coord_axis c axis v w =
     w\<lparr>gw_coords := (gw_coords w)(c := (gw_coords w c)[axis := v])\<rparr>"

definition set_numbered_param :: "u32 \<Rightarrow> real \<Rightarrow> gc_world \<Rightarrow> bool \<times> gc_world" where
  "set_numbered_param i v w =
     (let gc = gw_gc w
      in case find_axis_param i axis_params of
           Some (axis, coord_index) \<Rightarrow>
             (True, gc_ngc_changed coord_index (set_coord_axis coord_index axis (to_mm gc axis v) w))
         | None \<Rightarrow>
             let axis = axis_from_id i 5211
             in if is_axis axis then
                  (True, gc_ngc_changed CI_G92
                     (w\<lparr>gw_gc := gc\<lparr>gs_coord_offset := (gs_coord_offset gc)[axis := to_mm gc axis v]\<rparr>\<rparr>))
                else if i = 5220 then
                  (True, w\<lparr>gw_gc := gc\<lparr>gs_modal := (gs_modal gc)\<lparr>m_coord_select := word_of_int (trunc v)\<rparr>\<rparr>\<rparr>)
                else if i = 5400 then
                  (True, w\<lparr>gw_gc := gc\<lparr>gs_selected_tool := word_of_int (trunc v)\<rparr>\<rparr>)
                else if can_write_float_param i then
                  (True, w\<lparr>gw_float_params := (gw_float_params w)(i \<mapsto> v)\<rparr>)
                else (False, w))"

subsection \<open>System parameters\<close>

definition lower :: "string \<Rightarrow> string" where "lower s = map tolower s"
definition upper :: "string \<Rightarrow> string" where "upper s = map toupper s"

definition axis_letters :: "string list" where
  "axis_letters = [''x'', ''y'', ''z'', ''a'', ''b'', ''c'', ''u'', ''v'', ''w'']"

definition work_positions :: "string \<rightharpoonup> nat" where
  "work_positions = map_of (zip (map (\<lambda>l. ''_'' @ l) axis_letters) [0..<9])"

definition machine_positions :: "string \<rightharpoonup> nat" where
  "machine_positions = map_of (zip (map (\<lambda>l. ''_abs_'' @ l) axis_letters) [0..<9])"

definition unsupported_sys :: "string list" where
  "unsupported_sys = [''_spindle_rpm_mode'', ''_spindle_css_mode'', ''_ijk_absolute_mode'',
     ''_lathe_diameter_mode'', ''_lathe_radius_mode'', ''_adaptive_feed'']"

definition coord_values :: "int list" where
  "coord_values = [540, 550, 560, 570, 580, 590, 591, 592, 593]"

text \<open>\<open>atoi\<close> of the text before, or after, the first point.\<close>

definition version_part :: "bool \<Rightarrow> string \<Rightarrow> int" where
  "version_part major version =
     (let n = length (takeWhile (\<lambda>c. c \<noteq> CHR ''.'') version)
      in fst (strtol10 (if major then take n version
                        else if n < length version then drop (n + 1) version else version)))"

text \<open>
  \<open>_line\<close> is accepted and leaves the result as it was, which is 0 here;
  \<open>_coord_system\<close> reads outside its table when the number of the system is 9 or more.
\<close>

definition get_system_param :: "gc_env \<Rightarrow> gc_world \<Rightarrow> string \<Rightarrow> real option" where
  "get_system_param env w name =
     (let sysn = lower name; gc = gw_gc w; modal = gs_modal gc; wco = get_wco env gc
      in case work_positions sysn of
           Some axis \<Rightarrow> Some (to_inches gc axis (fsub (ge_mpos env ! axis) (wco ! axis)))
         | None \<Rightarrow>
        (case machine_positions sysn of
           Some axis \<Rightarrow> Some (to_inches gc axis (ge_mpos env ! axis))
         | None \<Rightarrow>
             if sysn \<in> set unsupported_sys then Some 0
             else if sysn = ''_spindle_on'' then Some (float_of_bool (m_spindle modal \<noteq> SpDisable))
             else if sysn = ''_spindle_cw'' then Some (float_of_bool (m_spindle modal = SpCw))
             else if sysn = ''_spindle_m'' then Some (of_nat (spindle_state_code (m_spindle modal)))
             else if sysn = ''_mist'' then Some (float_of_bool (co_mist (m_coolant modal)))
             else if sysn = ''_flood'' then Some (float_of_bool (co_flood (m_coolant modal)))
             else if sysn = ''_speed_override'' then Some (float_of_bool (ge_spindle_speed_ovr env \<noteq> 100))
             else if sysn = ''_feed_override'' then Some (float_of_bool (ge_f_override env \<noteq> 100))
             else if sysn = ''_feed_hold'' then Some (float_of_bool (ge_feed_hold env))
             else if sysn = ''_feed'' then Some (to_inches gc X_AXIS (gs_feed_rate gc))
             else if sysn = ''_rpm'' then Some (gs_spindle_speed gc)
             else if sysn = ''_selected_tool'' then Some (fint (uint (gs_selected_tool gc)))
             else if sysn = ''_current_tool'' then Some (fint (sint (gs_current_tool gc)))
             else if sysn = ''_vmajor'' then Some (fint (version_part True (ge_version env)))
             else if sysn = ''_vminor'' then Some (fint (version_part False (ge_version env)))
             else if sysn = ''_line'' then Some 0
             else if sysn = ''_motion_mode'' then Some (of_int (motion_code (m_motion modal)))
             else if sysn = ''_plane'' then Some (of_int (plane_code (m_plane_select modal)))
             else if sysn = ''_coord_system'' then Some (of_int (coord_values ! unat (m_coord_select modal)))
             else if sysn = ''_metric'' then Some (float_of_bool (m_units modal = UnitsMm))
             else if sysn = ''_imperial'' then Some (float_of_bool (m_units modal = UnitsInches))
             else if sysn = ''_absolute'' then Some (float_of_bool (m_distance modal = DistanceAbsolute))
             else if sysn = ''_incremental'' then Some (float_of_bool (m_distance modal = DistanceIncremental))
             else if sysn = ''_inverse_time'' then Some (float_of_bool (m_feed_rate modal = InverseTime))
             else if sysn = ''_units_per_minute'' then Some (float_of_bool (m_feed_rate modal = UnitsPerMin))
             else if sysn = ''_units_per_rev'' then Some 0
             else None))"

definition system_param_exists :: "gc_env \<Rightarrow> gc_world \<Rightarrow> string \<Rightarrow> bool" where
  "system_param_exists env w name \<longleftrightarrow> get_system_param env w name \<noteq> None"

subsection \<open>Named parameters\<close>

definition job_param_exists :: "gc_world \<Rightarrow> string \<Rightarrow> bool" where
  "job_param_exists w name \<longleftrightarrow> js_local_params (hd (gw_jobs w)) name \<noteq> None"

definition named_param_exists :: "gc_env \<Rightarrow> gc_world \<Rightarrow> string \<Rightarrow> bool" where
  "named_param_exists env w name \<longleftrightarrow>
     (let search = (if 3 < length name \<and> name ! 0 = CHR ''#'' \<and> name ! 1 = CHR ''<'' \<and> last name = CHR ''>''
                    then take (length name - 3) (drop 2 name) else name)
      in if length search = 0 then False
         else if search ! 0 = CHR ''/'' then ge_config_item env search \<noteq> None
         else if search ! 0 = CHR ''_'' then
           (if get_system_param env w search \<noteq> None then True
            else gw_named w (upper search) \<noteq> None)
         else if job_active w then job_param_exists w search
         else gw_named w (upper search) \<noteq> None)"

definition get_global_named_param :: "gc_world \<Rightarrow> string \<Rightarrow> real option" where
  "get_global_named_param w name = gw_named w (upper name)"

definition job_get_param :: "gc_world \<Rightarrow> string \<Rightarrow> real option" where
  "job_get_param w name = js_local_params (hd (gw_jobs w)) name"

definition get_param :: "gc_env \<Rightarrow> gc_world \<Rightarrow> param_ref \<Rightarrow> real option" where
  "get_param env w param_ref =
     (let name = pr_name param_ref
      in if name \<noteq> [] then
           (if name ! 0 = CHR ''/'' then ge_config_item env name
            else if name ! 0 = CHR ''_'' then
              (case get_system_param env w name of
                 Some v \<Rightarrow> Some v
               | None \<Rightarrow> get_global_named_param w name)
            else if job_active w then job_get_param w name else get_global_named_param w name)
         else get_numbered_param env w (pr_id param_ref))"

definition set_config_item :: "gc_env \<Rightarrow> string \<Rightarrow> real \<Rightarrow> gc_world \<Rightarrow> bool \<times> gc_world" where
  "set_config_item env name v w =
     (if ge_set_config_item env name v then (True, gc_emit (AcSetConfig name v) w) else (False, w))"

definition job_set_param :: "string \<Rightarrow> real \<Rightarrow> gc_world \<Rightarrow> bool \<times> gc_world" where
  "job_set_param name v w =
     (case gw_jobs w of
        [] \<Rightarrow> (False, w)
      | j # js \<Rightarrow> (True, w\<lparr>gw_jobs := j\<lparr>js_local_params := (js_local_params j)(name \<mapsto> v)\<rparr> # js\<rparr>))"

definition set_named_param :: "string \<Rightarrow> real \<Rightarrow> gc_world \<Rightarrow> bool \<times> gc_world" where
  "set_named_param name v w = (True, w\<lparr>gw_named := (gw_named w)(upper name \<mapsto> v)\<rparr>)"

definition set_param :: "gc_env \<Rightarrow> param_ref \<Rightarrow> real \<Rightarrow> gc_world \<Rightarrow> bool \<times> gc_world" where
  "set_param env param_ref v w =
     (let name = pr_name param_ref
      in if name \<noteq> [] then
           (if name ! 0 = CHR ''/'' then set_config_item env name v w
            else if name ! 0 \<noteq> CHR ''_'' \<and> job_active w then job_set_param name v w
            else if name ! 0 = CHR ''_'' \<and> system_param_exists env w name then (False, w)
            else set_named_param name v w)
         else set_numbered_param (pr_id param_ref) v w)"

subsection \<open>Reading and assigning\<close>

definition world_number :: "gc_env \<Rightarrow> gc_world \<Rightarrow> string \<Rightarrow> (real \<times> string) option" where
  "world_number env w line = ngc_number (get_param env w) (named_param_exists env w) False line"

definition world_expression :: "gc_env \<Rightarrow> gc_world \<Rightarrow> string \<Rightarrow> gc_error + real \<times> string" where
  "world_expression env w line = ngc_expression (get_param env w) (named_param_exists env w) line"

definition assign_param :: "gc_env \<Rightarrow> string \<Rightarrow> gc_world \<Rightarrow> (string \<times> gc_world) option" where
  "assign_param env line w =
     (case ngc_param_ref (get_param env w) (named_param_exists env w) line of
        None \<Rightarrow> None
      | Some (param_ref, line) \<Rightarrow>
          if peek line \<noteq> CHR ''='' then None
          else case world_number env w (tl line) of
                 None \<Rightarrow> None
               | Some (v, line) \<Rightarrow>
                   Some (line, w\<lparr>gw_assignments := gw_assignments w @ [(param_ref, v)]\<rparr>))"

fun assign_all :: "gc_env \<Rightarrow> (param_ref \<times> real) list \<Rightarrow> bool \<Rightarrow> gc_world \<Rightarrow> bool \<times> gc_world" where
  "assign_all env [] result w = (result, w)"
| "assign_all env ((param_ref, v) # as) result w =
     (let (ok, w) = set_param env param_ref v w
      in assign_all env as (if ok then result else False) w)"

definition perform_assignments :: "gc_env \<Rightarrow> gc_world \<Rightarrow> bool \<times> gc_world" where
  "perform_assignments env w =
     (let (result, w) = assign_all env (gw_assignments w) True w
      in (result, w\<lparr>gw_assignments := []\<rparr>))"

end
