(* ===== verification/FlowControl.thy ===== *)
theory FlowControl
  imports NgcParameters
begin

text \<open>
  The flow-control words of O-codes (\<^verbatim>\<open>Flowcontrol.cpp\<close>): conditionals and loops over the
  lines of a job, kept on a stack of contexts whose top is the head of \<open>gw_context\<close>. The
  result \<open>None\<close> is undefined behaviour: \<open>top()\<close> of an empty stack, or a job that is no
  longer there. The text is what follows the O-word.
\<close>

subsection \<open>Commands\<close>

definition commands :: "string \<rightharpoonup> ngc_cmd" where
  "commands = map_of [(''IF'', Op_If), (''ELSEIF'', Op_ElseIf), (''ELSE'', Op_Else),
     (''ENDIF'', Op_EndIf), (''DO'', Op_Do), (''CONTINUE'', Op_Continue), (''BREAK'', Op_Break),
     (''WHILE'', Op_While), (''ENDWHILE'', Op_EndWhile), (''REPEAT'', Op_Repeat),
     (''ENDREPEAT'', Op_EndRepeat), (''RETURN'', Op_Return), (''ALARM'', Op_RaiseAlarm),
     (''ERROR'', Op_RaiseError)]"

definition read_command :: "string \<Rightarrow> gc_error + ngc_cmd \<times> string" where
  "read_command line =
     (case commands (takeWhile isalpha line) of
        None \<Rightarrow> Inl EFlowControlSyntaxError
      | Some operation \<Rightarrow> Inr (operation, dropWhile isalpha line))"

subsection \<open>The stack\<close>

definition job_id :: "gc_world \<Rightarrow> nat option" where
  "job_id w = (case gw_jobs w of [] \<Rightarrow> None | j # _ \<Rightarrow> Some (js_id j))"

definition stack_push :: "u32 \<Rightarrow> ngc_cmd \<Rightarrow> bool \<Rightarrow> gc_world \<Rightarrow> gc_world" where
  "stack_push o_label operation skip w =
     w\<lparr>gw_context := \<lparr>fe_o_label = o_label, fe_operation = operation, fe_file = job_id w,
          fe_file_pos = 0, fe_line_number = 0, fe_expr = [], fe_repeats = 0, fe_skip = skip,
          fe_handled = False, fe_brk = False\<rparr> # gw_context w\<rparr>"

definition stack_pull :: "gc_world \<Rightarrow> gc_world" where
  "stack_pull w = w\<lparr>gw_context := tl (gw_context w)\<rparr>"

definition flowcontrol_init :: "gc_world \<Rightarrow> gc_world" where
  "flowcontrol_init w = w\<lparr>gw_context := []\<rparr>"

definition top_entry :: "gc_world \<Rightarrow> ngc_stack_entry" where
  "top_entry w = hd (gw_context w)"

definition set_top :: "(ngc_stack_entry \<Rightarrow> ngc_stack_entry) \<Rightarrow> gc_world \<Rightarrow> gc_world" where
  "set_top f w = w\<lparr>gw_context := f (top_entry w) # tl (gw_context w)\<rparr>"

text \<open>The job of an entry, while it exists.\<close>

definition find_job :: "gc_world \<Rightarrow> nat option \<Rightarrow> job_source option" where
  "find_job w file = (case file of None \<Rightarrow> None | Some i \<Rightarrow> find (\<lambda>j. js_id j = i) (gw_jobs w))"

definition update_job :: "nat option \<Rightarrow> (job_source \<Rightarrow> job_source) \<Rightarrow> gc_world \<Rightarrow> gc_world" where
  "update_job file f w =
     w\<lparr>gw_jobs := map (\<lambda>j. if Some (js_id j) = file then f j else j) (gw_jobs w)\<rparr>"

text \<open>Remember the place after the current line, and return to it.\<close>

definition mark_place :: "gc_world \<Rightarrow> gc_world option" where
  "mark_place w =
     (case find_job w (fe_file (top_entry w)) of
        None \<Rightarrow> None
      | Some j \<Rightarrow> Some (set_top (\<lambda>e. e\<lparr>fe_file_pos := js_position j,
                                         fe_line_number := js_line_number j\<rparr>) w))"

definition go_position :: "gc_world \<Rightarrow> gc_world option" where
  "go_position w =
     (let e = top_entry w
      in case find_job w (fe_file e) of
           None \<Rightarrow> None
         | Some _ \<Rightarrow> Some (update_job (fe_file e) (\<lambda>j. j\<lparr>js_position := fe_file_pos e\<rparr>) w))"

definition go_back :: "gc_world \<Rightarrow> gc_world option" where
  "go_back w =
     (let e = top_entry w
      in case find_job w (fe_file e) of
           None \<Rightarrow> None
         | Some _ \<Rightarrow> Some (update_job (fe_file e)
             (\<lambda>j. j\<lparr>js_position := fe_file_pos e, js_line_number := fe_line_number e\<rparr>) w))"

text \<open>\<open>while (o_label != context.top().o_label && stack_pull())\<close>\<close>

fun unwind_to :: "u32 \<Rightarrow> ngc_stack_entry list \<Rightarrow> ngc_stack_entry list option" where
  "unwind_to o_label [] = None"
| "unwind_to o_label (e # es) = (if o_label \<noteq> fe_o_label e then unwind_to o_label es else Some (e # es))"

subsection \<open>The handlers\<close>

text \<open>A handler returns the status and the world; \<open>skipping\<close> and \<open>last_op\<close> are of the top entry.\<close>

type_synonym flow_result = "(gc_error \<times> gc_world) option"

definition skipping :: "gc_world \<Rightarrow> bool" where
  "skipping w \<longleftrightarrow> gw_context w \<noteq> [] \<and> fe_skip (top_entry w)"

definition last_op :: "gc_world \<Rightarrow> ngc_cmd" where
  "last_op w = (if gw_context w = [] then Op_NoOp else fe_operation (top_entry w))"

definition no_loop :: "gc_world \<Rightarrow> flow_result" where
  "no_loop w = Some (if \<not> skipping w then EFlowControlSyntaxError else EOk, w)"

definition flow_if :: "gc_env \<Rightarrow> u32 \<Rightarrow> string \<Rightarrow> gc_world \<Rightarrow> flow_result" where
  "flow_if env o_label line w =
     (if \<not> skipping w then
        case world_expression env w line of
          Inl status \<Rightarrow> Some (status, w)
        | Inr (v, _) \<Rightarrow>
            Some (EOk, set_top (\<lambda>e. e\<lparr>fe_handled := v \<noteq> 0\<rparr>) (stack_push o_label Op_If (v = 0) w))
      else Some (EOk, w))"

definition flow_elseif :: "gc_env \<Rightarrow> u32 \<Rightarrow> string \<Rightarrow> gc_world \<Rightarrow> flow_result" where
  "flow_elseif env o_label line w =
     (if last_op w = Op_If \<or> last_op w = Op_ElseIf then
        if o_label = fe_o_label (top_entry w) then
          let w = set_top (\<lambda>e. e\<lparr>fe_skip := fe_handled e\<rparr>) w
          in if \<not> fe_handled (top_entry w) then
               (case world_expression env w line of
                  Inl status \<Rightarrow> Some (status, w)
                | Inr (v, _) \<Rightarrow>
                    let w = set_top (\<lambda>e. e\<lparr>fe_skip := v = 0\<rparr>) w
                    in Some (EOk, if v \<noteq> 0 then set_top (\<lambda>e. e\<lparr>fe_operation := Op_ElseIf, fe_handled := True\<rparr>) w
                                  else w))
             else Some (EOk, w)
        else Some (EOk, w)
      else no_loop w)"

definition flow_else :: "u32 \<Rightarrow> gc_world \<Rightarrow> flow_result" where
  "flow_else o_label w =
     (if last_op w = Op_If \<or> last_op w = Op_ElseIf then
        if o_label = fe_o_label (top_entry w) then
          let w = set_top (\<lambda>e. e\<lparr>fe_skip := fe_handled e\<rparr>) w
          in Some (EOk, if \<not> fe_skip (top_entry w) then set_top (\<lambda>e. e\<lparr>fe_operation := Op_Else\<rparr>) w else w)
        else Some (EOk, w)
      else no_loop w)"

definition flow_endif :: "u32 \<Rightarrow> gc_world \<Rightarrow> flow_result" where
  "flow_endif o_label w =
     (if last_op w = Op_If \<or> last_op w = Op_ElseIf \<or> last_op w = Op_Else then
        Some (EOk, if o_label = fe_o_label (top_entry w) then stack_pull w else w)
      else no_loop w)"

definition flow_do :: "u32 \<Rightarrow> gc_world \<Rightarrow> flow_result" where
  "flow_do o_label w =
     (if job_active w then
        if \<not> skipping w then map_option (Pair EOk) (mark_place (stack_push o_label Op_Do False w))
        else Some (EOk, w)
      else Some (EFlowControlNotExecutingMacro, w))"

definition flow_while :: "gc_env \<Rightarrow> u32 \<Rightarrow> string \<Rightarrow> gc_world \<Rightarrow> flow_result" where
  "flow_while env o_label line w =
     (if job_active w then
        if gw_context w \<noteq> [] \<and> fe_brk (top_entry w) then
          Some (EOk, if last_op w = Op_Do \<and> o_label = fe_o_label (top_entry w) then stack_pull w else w)
        else if \<not> skipping w then
          (case world_expression env w line of
             Inl status \<Rightarrow> Some (status, w)
           | Inr (v, _) \<Rightarrow>
               if last_op w = Op_Do then
                 if o_label = fe_o_label (top_entry w) then
                   if v \<noteq> 0 then map_option (Pair EOk) (go_back w) else Some (EOk, stack_pull w)
                 else Some (EOk, w)
               else
                 let w = stack_push o_label Op_While (v = 0) w;
                     w = set_top (\<lambda>e. e\<lparr>fe_expr := line, fe_file := job_id w\<rparr>) w
                 in if v \<noteq> 0 then map_option (Pair EOk) (mark_place w) else Some (EOk, w))
        else Some (EOk, w)
      else Some (EFlowControlNotExecutingMacro, w))"

definition flow_endwhile :: "gc_env \<Rightarrow> u32 \<Rightarrow> gc_world \<Rightarrow> flow_result" where
  "flow_endwhile env o_label w =
     (if job_active w then
        if last_op w = Op_While then
          if \<not> skipping w \<and> o_label = fe_o_label (top_entry w) then
            (case world_expression env w (fe_expr (top_entry w)) of
               Inl status \<Rightarrow> Some (status, w)
             | Inr (v, _) \<Rightarrow>
                 let w = set_top (\<lambda>e. e\<lparr>fe_skip := v = 0\<rparr>) w
                 in if v \<noteq> 0 then map_option (Pair EOk) (go_position w) else Some (EOk, stack_pull w))
          else if skipping w \<and> o_label = fe_o_label (top_entry w) then Some (EOk, stack_pull w)
          else Some (EOk, w)
        else no_loop w
      else Some (EFlowControlNotExecutingMacro, w))"

definition flow_repeat :: "gc_env \<Rightarrow> u32 \<Rightarrow> string \<Rightarrow> gc_world \<Rightarrow> flow_result" where
  "flow_repeat env o_label line w =
     (if job_active w then
        if \<not> skipping w then
          (case world_expression env w line of
             Inl status \<Rightarrow> Some (status, w)
           | Inr (v, _) \<Rightarrow>
               let w = stack_push o_label Op_Repeat (v = 0) w
               in if v \<noteq> 0 then
                    map_option (\<lambda>w. (EOk, set_top (\<lambda>e. e\<lparr>fe_repeats := word_of_int (trunc v)\<rparr>) w))
                      (mark_place (set_top (\<lambda>e. e\<lparr>fe_file := job_id w\<rparr>) w))
                  else Some (EOk, w))
        else Some (EOk, w)
      else Some (EFlowControlNotExecutingMacro, w))"

text \<open>\<open>if (repeats && --repeats)\<close> go back, else leave the loop.\<close>

definition next_round :: "gc_world \<Rightarrow> flow_result" where
  "next_round w =
     (let repeats = fe_repeats (top_entry w)
      in if repeats \<noteq> 0 then
           let w = set_top (\<lambda>e. e\<lparr>fe_repeats := repeats - 1\<rparr>) w
           in if repeats - 1 \<noteq> 0 then map_option (Pair EOk) (go_back w) else Some (EOk, stack_pull w)
         else Some (EOk, stack_pull w))"

definition flow_endrepeat :: "u32 \<Rightarrow> gc_world \<Rightarrow> flow_result" where
  "flow_endrepeat o_label w =
     (if job_active w then
        if last_op w = Op_Repeat then
          if o_label = fe_o_label (top_entry w) then next_round w else Some (EOk, w)
        else no_loop w
      else Some (EFlowControlNotExecutingMacro, w))"

definition flow_break :: "u32 \<Rightarrow> gc_world \<Rightarrow> flow_result" where
  "flow_break o_label w =
     (if job_active w then
        if \<not> skipping w then
          (case unwind_to o_label (gw_context w) of
             None \<Rightarrow> None
           | Some es \<Rightarrow>
               let w = w\<lparr>gw_context := es\<rparr>; last_op = fe_operation (top_entry w)
               in if last_op = Op_Do \<or> last_op = Op_While \<or> last_op = Op_Repeat then
                    Some (EOk, set_top (\<lambda>e. e\<lparr>fe_repeats := 0, fe_brk := True, fe_skip := True,
                                                fe_handled := True\<rparr>) w)
                  else Some (EFlowControlSyntaxError, w))
        else Some (EOk, w)
      else Some (EFlowControlNotExecutingMacro, w))"

definition continue_while :: "gc_env \<Rightarrow> gc_world \<Rightarrow> flow_result" where
  "continue_while env w =
     (if \<not> fe_skip (top_entry w) then
        case world_expression env w (fe_expr (top_entry w)) of
          Inl status \<Rightarrow> Some (status, w)
        | Inr (v, _) \<Rightarrow>
            let w = set_top (\<lambda>e. e\<lparr>fe_skip := v = 0\<rparr>) w
            in if v \<noteq> 0 then map_option (Pair EOk) (go_back w) else Some (EOk, stack_pull w)
      else Some (EOk, stack_pull w))"

definition flow_continue :: "gc_env \<Rightarrow> u32 \<Rightarrow> gc_world \<Rightarrow> flow_result" where
  "flow_continue env o_label w =
     (if job_active w then
        if \<not> skipping w then
          (case unwind_to o_label (gw_context w) of
             None \<Rightarrow> None
           | Some es \<Rightarrow>
               let w = w\<lparr>gw_context := es\<rparr>
               in case fe_operation (top_entry w) of
                    Op_Repeat \<Rightarrow> next_round w
                  | Op_Do \<Rightarrow> map_option (Pair EOk) (go_back w)
                  | Op_While \<Rightarrow> continue_while env w
                  | _ \<Rightarrow> Some (EFlowControlSyntaxError, w))
        else Some (EOk, w)
      else Some (EFlowControlNotExecutingMacro, w))"

definition flow_alarm :: "gc_env \<Rightarrow> string \<Rightarrow> gc_world \<Rightarrow> flow_result" where
  "flow_alarm env line w =
     (if \<not> skipping w then
        case world_expression env w line of
          Inr (v, _) \<Rightarrow> Some (EOk, gc_emit (AcAlarmRaised (word_of_int (trunc v))) w)
        | Inl _ \<Rightarrow> Some (EOk, w)
      else Some (EOk, w))"

definition flow_error :: "gc_env \<Rightarrow> string \<Rightarrow> gc_world \<Rightarrow> flow_result" where
  "flow_error env line w =
     (if \<not> skipping w then
        case world_expression env w line of
          Inr (v, _) \<Rightarrow> Some (word_of_int (trunc v), w)
        | Inl _ \<Rightarrow> Some (EOk, w)
      else Some (EOk, w))"

subsection \<open>The command\<close>

definition flow_command :: "gc_env \<Rightarrow> u32 \<Rightarrow> ngc_cmd \<Rightarrow> string \<Rightarrow> gc_world \<Rightarrow> flow_result" where
  "flow_command env o_label operation line w =
     (case operation of
        Op_If \<Rightarrow> flow_if env o_label line w
      | Op_ElseIf \<Rightarrow> flow_elseif env o_label line w
      | Op_Else \<Rightarrow> flow_else o_label w
      | Op_EndIf \<Rightarrow> flow_endif o_label w
      | Op_Do \<Rightarrow> flow_do o_label w
      | Op_While \<Rightarrow> flow_while env o_label line w
      | Op_EndWhile \<Rightarrow> flow_endwhile env o_label w
      | Op_Repeat \<Rightarrow> flow_repeat env o_label line w
      | Op_EndRepeat \<Rightarrow> flow_endrepeat o_label w
      | Op_Break \<Rightarrow> flow_break o_label w
      | Op_Continue \<Rightarrow> flow_continue env o_label w
      | Op_RaiseAlarm \<Rightarrow> flow_alarm env line w
      | Op_RaiseError \<Rightarrow> flow_error env line w
      | Op_Return \<Rightarrow> Some (if job_active w then EOk else EFlowControlNotExecutingMacro, w)
      | Op_NoOp \<Rightarrow> Some (EFlowControlSyntaxError, w))"

definition set_skip :: "bool \<Rightarrow> gc_world \<Rightarrow> gc_world" where
  "set_skip skip w = w\<lparr>gw_gc := (gw_gc w)\<lparr>gs_skip_blocks := skip\<rparr>\<rparr>"

definition flowcontrol :: "gc_env \<Rightarrow> u32 \<Rightarrow> string \<Rightarrow> gc_world \<Rightarrow> flow_result" where
  "flowcontrol env o_label line w =
     (case read_command line of
        Inl status \<Rightarrow> Some (status, w)
      | Inr (operation, line) \<Rightarrow>
          (case flow_command env o_label operation line w of
             None \<Rightarrow> None
           | Some (status, w) \<Rightarrow>
               Some (status,
                     if status \<noteq> EOk then set_skip False (flowcontrol_init w)
                     else set_skip (skipping w) w)))"

end
