(* ===== verification/GcodeWords.thy ===== *)
theory GcodeWords
  imports FlowControl
begin

text \<open>
  The first two steps of \<open>gc_execute_line\<close> (\<^verbatim>\<open>GCode.cpp\<close>): the line is cleaned, and its words
  are read into the block with the checks for repeated words and modal groups. The local
  variables of the function are the record \<open>gc_locals\<close>. The sets of words are bit masks of
  32 bits, as in the code. Comments are dropped; the messages they can print are not
  modelled.
\<close>

subsection \<open>Cleaning the line\<close>

text \<open>
  The loop of \<open>collapseGCode\<close>: \<open>in_comment\<close> is a set \<open>parenPtr\<close>. The result is the text,
  whether it had a comment and whether the loop returned at a semicolon.
\<close>

fun collapse_loop :: "bool \<Rightarrow> bool \<Rightarrow> string \<Rightarrow> string \<times> bool \<times> bool" where
  "collapse_loop in_comment has_comment [] = ([], has_comment, False)"
| "collapse_loop in_comment has_comment (c # cs) =
     (if is_ws c then collapse_loop in_comment has_comment cs
      else if c = CHR '')'' then collapse_loop False has_comment cs
      else if c = CHR ''('' then collapse_loop True True cs
      else if c = CHR '';'' then ([], has_comment, True)
      else if c = CHR 0x0D then collapse_loop in_comment has_comment cs
      else if \<not> in_comment then
        let (out, r) = collapse_loop in_comment has_comment cs in (toupper c # out, r)
      else collapse_loop in_comment has_comment cs)"

definition collapseGCode :: "string \<Rightarrow> gc_world \<Rightarrow> string \<times> gc_world" where
  "collapseGCode line w =
     (let (out, has_comment, returned) = collapse_loop False False line
      in if returned then (out, w)
         else if \<not> has_comment \<and> out = ''%'' then
           ([], if job_active w then gc_emit AcJobPercent w else w)
         else (out, w))"

subsection \<open>The local variables\<close>

datatype modal_group = MG0 | MG1 | MG2 | MG3 | MG4 | MG5 | MG6 | MG7 | MG8 | MG12 | MG13
  | MM4 | MM5 | MM6 | MM7 | MM8 | MM9 | MM10

primrec group_code :: "modal_group \<Rightarrow> nat" where
  "group_code MG0 = 0" | "group_code MG1 = 1" | "group_code MG2 = 2" | "group_code MG3 = 3"
| "group_code MG4 = 4" | "group_code MG5 = 5" | "group_code MG6 = 6" | "group_code MG7 = 7"
| "group_code MG8 = 8" | "group_code MG12 = 9" | "group_code MG13 = 10" | "group_code MM4 = 11"
| "group_code MM5 = 12" | "group_code MM6 = 13" | "group_code MM7 = 14" | "group_code MM8 = 15"
| "group_code MM9 = 16" | "group_code MM10 = 17"

datatype gcode_word = WordE | WordF | WordI | WordJ | WordK | WordL | WordN | WordP | WordQ | WordR
  | WordS | WordT | WordX | WordY | WordZ | WordA | WordB | WordC | WordO | WordD | WordU | WordV
  | WordW

primrec word_code :: "gcode_word \<Rightarrow> nat" where
  "word_code WordE = 0" | "word_code WordF = 1" | "word_code WordI = 2" | "word_code WordJ = 3"
| "word_code WordK = 4" | "word_code WordL = 5" | "word_code WordN = 6" | "word_code WordP = 7"
| "word_code WordQ = 8" | "word_code WordR = 9" | "word_code WordS = 10" | "word_code WordT = 11"
| "word_code WordX = 12" | "word_code WordY = 13" | "word_code WordZ = 14" | "word_code WordA = 15"
| "word_code WordB = 16" | "word_code WordC = 17" | "word_code WordO = 18" | "word_code WordD = 19"
| "word_code WordU = 20" | "word_code WordV = 21" | "word_code WordW = 22"

record gc_locals =
  gl_block :: parser_block
  gl_axis_command :: axis_command
  gl_axis_0 :: nat
  gl_axis_1 :: nat
  gl_axis_linear :: nat
  gl_coord_select :: u16
  gl_axis_words :: u32
  gl_ijk_words :: u32
  gl_command_words :: u32
  gl_value_words :: u32
  gl_jogMotion :: bool
  gl_clockwiseArc :: bool
  gl_probeExplicit :: bool
  gl_probeAway :: bool
  gl_probeNoError :: bool
  gl_syncLaser :: bool
  gl_disableLaser :: bool
  gl_laserIsMotion :: bool
  gl_nonmodalG38 :: bool
  gl_isWaitOnInputDigital :: bool
  gl_coord_data :: "real list"
  gl_block_coord_system :: "real list"
  gl_mantissa :: int

definition update_block :: "(parser_block \<Rightarrow> parser_block) \<Rightarrow> gc_locals \<Rightarrow> gc_locals" where
  "update_block f l = l\<lparr>gl_block := f (gl_block l)\<rparr>"

definition update_modal :: "(gc_modal \<Rightarrow> gc_modal) \<Rightarrow> gc_locals \<Rightarrow> gc_locals" where
  "update_modal f = update_block (\<lambda>b. b\<lparr>b_modal := f (b_modal b)\<rparr>)"

definition update_values :: "(gc_values \<Rightarrow> gc_values) \<Rightarrow> gc_locals \<Rightarrow> gc_locals" where
  "update_values f = update_block (\<lambda>b. b\<lparr>b_values := f (b_values b)\<rparr>)"

definition set_non_modal :: "non_modal \<Rightarrow> gc_locals \<Rightarrow> gc_locals" where
  "set_non_modal nm = update_block (\<lambda>b. b\<lparr>b_non_modal_command := nm\<rparr>)"

definition l_modal :: "gc_locals \<Rightarrow> gc_modal" where "l_modal l = b_modal (gl_block l)"
definition l_values :: "gc_locals \<Rightarrow> gc_values" where "l_values l = b_values (gl_block l)"

definition has_word :: "gc_locals \<Rightarrow> gcode_word \<Rightarrow> bool" where
  "has_word l w \<longleftrightarrow> bit (gl_value_words l) (word_code w)"

definition has_group :: "gc_locals \<Rightarrow> modal_group \<Rightarrow> bool" where
  "has_group l g \<longleftrightarrow> bit (gl_command_words l) (group_code g)"

definition clear_word :: "gcode_word \<Rightarrow> gc_locals \<Rightarrow> gc_locals" where
  "clear_word w l = l\<lparr>gl_value_words := unset_bit (word_code w) (gl_value_words l)\<rparr>"

lemmas locals_defs = update_block_def update_modal_def update_values_def set_non_modal_def
  l_modal_def l_values_def has_word_def has_group_def clear_word_def

text \<open>Step 1: the block starts with the current modes; a line with a dollar is a jog.\<close>

definition JOG_LINE_NUMBER :: i32 where "JOG_LINE_NUMBER = 0"

definition start_locals :: "gc_env \<Rightarrow> bool \<Rightarrow> gc_world \<Rightarrow> gc_locals" where
  "start_locals env jog w =
     (let l = \<lparr>gl_block = \<lparr>b_non_modal_command = NmNoAction, b_modal = gs_modal (gw_gc w),
                 b_values = gc_values_zero, b_coolant = CoolantNone\<rparr>,
               gl_axis_command = AcNone, gl_axis_0 = 0, gl_axis_1 = 0, gl_axis_linear = 0,
               gl_coord_select = CI_G54, gl_axis_words = 0, gl_ijk_words = 0,
               gl_command_words = 0, gl_value_words = 0, gl_jogMotion = jog,
               gl_clockwiseArc = False, gl_probeExplicit = False, gl_probeAway = False,
               gl_probeNoError = False, gl_syncLaser = False, gl_disableLaser = False,
               gl_laserIsMotion = False, gl_nonmodalG38 = False, gl_isWaitOnInputDigital = False,
               gl_coord_data = zero_axes, gl_block_coord_system = zero_axes, gl_mantissa = 0\<rparr>
      in if jog then
           let l = update_modal (\<lambda>m. m\<lparr>m_motion := MoLinear, m_feed_rate := UnitsPerMin\<rparr>) l
           in if ge_use_line_numbers env then update_values (\<lambda>v. v\<lparr>v_n := JOG_LINE_NUMBER\<rparr>) l else l
         else l)"

subsection \<open>G words\<close>

type_synonym word_result = "gc_error + modal_group \<times> int \<times> gc_locals"

text \<open>The label \<open>check_mantissa\<close> that G28, G30 and G92 share.\<close>

definition check_mantissa :: "int \<Rightarrow> gc_locals \<Rightarrow> word_result" where
  "check_mantissa mantissa l =
     (if mantissa = 0 then
        if gl_axis_command l \<noteq> AcNone then Inl EGcodeAxisCommandConflict
        else Inr (MG0, mantissa, l\<lparr>gl_axis_command := AcNonModal\<rparr>)
      else if mantissa = 10 then Inr (MG0, 0, l)
      else Inl EGcodeUnsupportedCommand)"

definition g_non_modal :: "int \<Rightarrow> int \<Rightarrow> gc_locals \<Rightarrow> word_result" where
  "g_non_modal int_value mantissa l =
     (if int_value = 10 then
        let l = set_non_modal NmSetCoordinateData l
        in if mantissa = 0 then
             if gl_axis_command l \<noteq> AcNone then Inl EGcodeAxisCommandConflict
             else Inr (MG0, mantissa, l\<lparr>gl_axis_command := AcNonModal\<rparr>)
           else Inr (MG0, mantissa, l)
      else if int_value = 28 then
        check_mantissa mantissa (set_non_modal (if mantissa \<noteq> 0 then NmSetHome0 else NmGoHome0) l)
      else if int_value = 30 then
        check_mantissa mantissa (set_non_modal (if mantissa \<noteq> 0 then NmSetHome1 else NmGoHome1) l)
      else if int_value = 92 then
        check_mantissa mantissa
          (set_non_modal (if mantissa \<noteq> 0 then NmResetCoordinateOffset else NmSetCoordinateOffset) l)
      else if int_value = 4 then Inr (MG0, mantissa, set_non_modal NmDwell l)
      else Inr (MG0, mantissa, set_non_modal NmAbsoluteOverride l))"

definition set_motion :: "gc_motion \<Rightarrow> gc_locals \<Rightarrow> gc_locals" where
  "set_motion mo = update_modal (\<lambda>m. m\<lparr>m_motion := mo\<rparr>)"

definition g_probe :: "gc_env \<Rightarrow> int \<Rightarrow> gc_locals \<Rightarrow> word_result" where
  "g_probe env mantissa l =
     (if \<not> ge_probe_exists env then Inl EGcodeUnsupportedCommand
      else if gl_axis_command l \<noteq> AcNone then Inl EGcodeAxisCommandConflict
      else
        let l = l\<lparr>gl_probeExplicit := True, gl_axis_command := AcMotionMode\<rparr>;
            (l, mantissa) = (if 60 \<le> mantissa then (l\<lparr>gl_nonmodalG38 := True\<rparr>, mantissa - 40) else (l, mantissa))
        in if mantissa = 20 then Inr (MG1, 0, set_motion MoProbeToward l)
           else if mantissa = 30 then Inr (MG1, 0, set_motion MoProbeTowardNoError l)
           else if mantissa = 40 then Inr (MG1, 0, set_motion MoProbeAway l)
           else if mantissa = 50 then Inr (MG1, 0, set_motion MoProbeAwayNoError l)
           else Inl EGcodeUnsupportedCommand)"

definition g_motion :: "gc_env \<Rightarrow> int \<Rightarrow> int \<Rightarrow> gc_locals \<Rightarrow> word_result" where
  "g_motion env int_value mantissa l =
     (let go = (\<lambda>mo. Inr (MG1, mantissa, set_motion mo (l\<lparr>gl_axis_command := AcMotionMode\<rparr>)))
      in if int_value = 0 then go MoSeek
         else if int_value = 1 then go MoLinear
         else if int_value = 2 then go MoCwArc
         else if int_value = 3 then go MoCcwArc
         else if int_value = 38 then g_probe env mantissa l
         else Inr (MG1, mantissa, set_motion MoNone l))"

definition g_modes :: "int \<Rightarrow> int \<Rightarrow> gc_locals \<Rightarrow> word_result" where
  "g_modes int_value mantissa l =
     (if int_value = 17 then Inr (MG2, mantissa, update_modal (\<lambda>m. m\<lparr>m_plane_select := PlaneXY\<rparr>) l)
      else if int_value = 18 then Inr (MG2, mantissa, update_modal (\<lambda>m. m\<lparr>m_plane_select := PlaneZX\<rparr>) l)
      else if int_value = 19 then Inr (MG2, mantissa, update_modal (\<lambda>m. m\<lparr>m_plane_select := PlaneYZ\<rparr>) l)
      else if int_value = 90 then
        (if mantissa = 0 then Inr (MG3, mantissa, update_modal (\<lambda>m. m\<lparr>m_distance := DistanceAbsolute\<rparr>) l)
         else Inl EGcodeUnsupportedCommand)
      else if int_value = 91 then
        (if mantissa = 0 then Inr (MG3, mantissa, update_modal (\<lambda>m. m\<lparr>m_distance := DistanceIncremental\<rparr>) l)
         else if mantissa = 10 then Inr (MG4, 0, l)
         else Inl EGcodeUnsupportedCommand)
      else if int_value = 93 then Inr (MG5, mantissa, update_modal (\<lambda>m. m\<lparr>m_feed_rate := InverseTime\<rparr>) l)
      else if int_value = 94 then Inr (MG5, mantissa, update_modal (\<lambda>m. m\<lparr>m_feed_rate := UnitsPerMin\<rparr>) l)
      else if int_value = 20 then Inr (MG6, mantissa, update_modal (\<lambda>m. m\<lparr>m_units := UnitsInches\<rparr>) l)
      else if int_value = 21 then Inr (MG6, mantissa, update_modal (\<lambda>m. m\<lparr>m_units := UnitsMm\<rparr>) l)
      else Inr (MG7, mantissa, l))"

definition g_tool_length :: "int \<Rightarrow> int \<Rightarrow> gc_locals \<Rightarrow> word_result" where
  "g_tool_length int_value mantissa l =
     (if gl_axis_command l \<noteq> AcNone then Inl EGcodeAxisCommandConflict
      else
        let l = l\<lparr>gl_axis_command := AcToolLengthOffset\<rparr>
        in if int_value = 49 then Inr (MG8, 0, update_modal (\<lambda>m. m\<lparr>m_tool_length := TloCancel\<rparr>) l)
           else if mantissa = 10 then
             Inr (MG8, 0, update_modal (\<lambda>m. m\<lparr>m_tool_length := TloEnableDynamic\<rparr>) l)
           else Inl EGcodeUnsupportedCommand)"

text \<open>G54 to G59.3; the mantissa of G59.1 to G59.3 is not cleared, so they are rejected later.\<close>

definition g_coords :: "int \<Rightarrow> int \<Rightarrow> gc_locals \<Rightarrow> word_result" where
  "g_coords int_value mantissa l =
     (let select = (\<lambda>c. Inr (MG12, mantissa, update_modal (\<lambda>m. m\<lparr>m_coord_select := c\<rparr>) l))
      in if int_value = 59 then
           (if mantissa = 0 then select 5
            else if mantissa = 10 then select 6
            else if mantissa = 20 then select 7
            else if mantissa = 30 then select 8
            else Inr (MG12, mantissa, l))
         else select (word_of_int (int_value - 54)))"

definition g_word :: "gc_env \<Rightarrow> int \<Rightarrow> int \<Rightarrow> gc_locals \<Rightarrow> word_result" where
  "g_word env int_value mantissa l =
     (if int_value \<in> {10, 28, 30, 92, 4, 53} then g_non_modal int_value mantissa l
      else if int_value \<in> {0, 1, 2, 3, 38, 80} then g_motion env int_value mantissa l
      else if int_value \<in> {17, 18, 19, 90, 91, 93, 94, 20, 21, 40} then g_modes int_value mantissa l
      else if int_value \<in> {43, 49} then g_tool_length int_value mantissa l
      else if int_value \<in> {54, 55, 56, 57, 58, 59} then g_coords int_value mantissa l
      else if int_value = 61 then
        (if mantissa \<noteq> 0 then Inl EGcodeUnsupportedCommand else Inr (MG13, mantissa, l))
      else Inl EGcodeUnsupportedCommand)"

text \<open>A second command of a modal group is an error.\<close>

definition check_group :: "modal_group \<Rightarrow> gc_locals \<Rightarrow> gc_error + gc_locals" where
  "check_group g l =
     (if has_group l g then Inl EGcodeModalGroupViolation
      else Inr (l\<lparr>gl_command_words := set_bit (group_code g) (gl_command_words l)\<rparr>))"

definition letter_g :: "gc_env \<Rightarrow> int \<Rightarrow> int \<Rightarrow> gc_locals \<Rightarrow> gc_error + gc_locals" where
  "letter_g env int_value mantissa l =
     (case g_word env int_value mantissa l of
        Inl e \<Rightarrow> Inl e
      | Inr (g, mantissa, l) \<Rightarrow>
          if 0 < mantissa then Inl EGcodeCommandValueNotInteger
          else check_group g (l\<lparr>gl_mantissa := mantissa\<rparr>))"

subsection \<open>M words\<close>

definition m_spindle_word :: "gc_env \<Rightarrow> nat \<Rightarrow> int \<Rightarrow> gc_locals \<Rightarrow> gc_error + gc_locals" where
  "m_spindle_word env spindle int_value l =
     (if int_value = 3 then Inr (update_modal (\<lambda>m. m\<lparr>m_spindle := SpCw\<rparr>) l)
      else if int_value = 4 then
        (if ge_spindle_reversable env spindle \<or> ge_spindle_rate_adjusted env spindle
         then Inr (update_modal (\<lambda>m. m\<lparr>m_spindle := SpCcw\<rparr>) l)
         else Inl EGcodeUnsupportedCommand)
      else Inr (update_modal (\<lambda>m. m\<lparr>m_spindle := SpDisable\<rparr>) l))"

definition set_coolant :: "gc_coolant \<Rightarrow> gc_locals \<Rightarrow> gc_locals" where
  "set_coolant c = update_block (\<lambda>b. b\<lparr>b_coolant := c\<rparr>)"

definition m_coolant_word :: "gc_env \<Rightarrow> int \<Rightarrow> int \<Rightarrow> gc_locals \<Rightarrow> gc_error + gc_locals" where
  "m_coolant_word env int_value mantissa l =
     (if int_value = 7 then
        (if mantissa \<noteq> 0 \<and> mantissa \<noteq> 10 then Inl EGcodeUnsupportedCommand
         else Inr (if ge_has_mist env then set_coolant CoolantM7 l else l))
      else if int_value = 8 then
        (if mantissa \<noteq> 0 \<and> mantissa \<noteq> 10 then Inl EGcodeUnsupportedCommand
         else Inr (if ge_has_flood env then set_coolant CoolantM8 l else l))
      else Inr (if ge_has_flood env \<or> ge_has_mist env then set_coolant CoolantM9 l else l))"

definition set_flow :: "program_flow \<Rightarrow> gc_locals \<Rightarrow> gc_locals" where
  "set_flow f = update_modal (\<lambda>m. m\<lparr>m_program_flow := f\<rparr>)"

definition set_io :: "io_control \<Rightarrow> gc_locals \<Rightarrow> gc_locals" where
  "set_io io = update_modal (\<lambda>m. m\<lparr>m_io_control := io\<rparr>)"

definition m_word :: "gc_env \<Rightarrow> nat \<Rightarrow> int \<Rightarrow> int \<Rightarrow> gc_locals \<Rightarrow> gc_error + modal_group \<times> gc_locals" where
  "m_word env spindle int_value mantissa l =
     (if int_value = 0 then Inr (MM4, set_flow PfPaused l)
      else if int_value = 1 then Inr (MM4, l)
      else if int_value = 2 then Inr (MM4, set_flow PfCompletedM2 l)
      else if int_value = 30 then Inr (MM4, set_flow PfCompletedM30 l)
      else if int_value \<in> {3, 4, 5} then map_sum id (Pair MM7) (m_spindle_word env spindle int_value l)
      else if int_value = 6 then Inr (MM6, update_modal (\<lambda>m. m\<lparr>m_tool_change := True\<rparr>) l)
      else if int_value \<in> {7, 8, 9} then map_sum id (Pair MM8) (m_coolant_word env int_value mantissa l)
      else if int_value = 56 then
        (if ge_parking_override env
         then Inr (MM9, update_modal (\<lambda>m. m\<lparr>m_override := OvParkingMotion\<rparr>) l)
         else Inl EGcodeUnsupportedCommand)
      else if int_value = 61 then Inr (MM6, update_modal (\<lambda>m. m\<lparr>m_set_tool_number := True\<rparr>) l)
      else if int_value = 62 then Inr (MM5, set_io DigitalOnSync l)
      else if int_value = 63 then Inr (MM5, set_io DigitalOffSync l)
      else if int_value = 64 then Inr (MM5, set_io DigitalOnImmediate l)
      else if int_value = 65 then Inr (MM5, set_io DigitalOffImmediate l)
      else if int_value = 66 then Inr (MM5, set_io WaitOnInput l)
      else if int_value = 67 then Inr (MM5, set_io SetAnalogSync l)
      else if int_value = 68 then Inr (MM5, set_io SetAnalogImmediate l)
      else Inl EGcodeUnsupportedCommand)"

definition letter_m :: "gc_env \<Rightarrow> nat \<Rightarrow> int \<Rightarrow> int \<Rightarrow> gc_locals \<Rightarrow> gc_error + gc_locals" where
  "letter_m env spindle int_value mantissa l =
     (if 0 < mantissa \<and> \<not> (int_value = 7 \<or> int_value = 8) then Inl EGcodeCommandValueNotInteger
      else case m_word env spindle int_value mantissa l of
             Inl e \<Rightarrow> Inl e
           | Inr (g, l) \<Rightarrow> check_group g (l\<lparr>gl_mantissa := mantissa\<rparr>))"

subsection \<open>Value words\<close>

definition set_axis_value :: "nat \<Rightarrow> real \<Rightarrow> gc_locals \<Rightarrow> gc_locals" where
  "set_axis_value axis v l =
     update_values (\<lambda>vs. vs\<lparr>v_xyz := (v_xyz vs)[axis := v]\<rparr>)
       (l\<lparr>gl_axis_words := set_bit axis (gl_axis_words l)\<rparr>)"

definition axis_of_letter :: "char \<Rightarrow> (nat \<times> gcode_word) option" where
  "axis_of_letter letter =
     map_of [(CHR ''A'', A_AXIS, WordA), (CHR ''B'', B_AXIS, WordB), (CHR ''C'', C_AXIS, WordC),
       (CHR ''U'', U_AXIS, WordU), (CHR ''V'', V_AXIS, WordV), (CHR ''W'', W_AXIS, WordW),
       (CHR ''X'', X_AXIS, WordX), (CHR ''Y'', Y_AXIS, WordY), (CHR ''Z'', Z_AXIS, WordZ)] letter"

definition set_offset :: "nat \<Rightarrow> real \<Rightarrow> gc_locals \<Rightarrow> gc_locals" where
  "set_offset axis v l =
     update_values (\<lambda>vs. vs\<lparr>v_ijk := (v_ijk vs)[axis := v]\<rparr>)
       (l\<lparr>gl_ijk_words := set_bit axis (gl_ijk_words l)\<rparr>)"

definition simple_word :: "char \<Rightarrow> real \<Rightarrow> int \<Rightarrow> gc_locals \<Rightarrow> (gcode_word \<times> gc_locals) option" where
  "simple_word letter v int_value l =
     (if letter = CHR ''D'' then Some (WordD, l)
      else if letter = CHR ''E'' then Some (WordE, update_values (\<lambda>vs. vs\<lparr>v_e := word_of_int int_value\<rparr>) l)
      else if letter = CHR ''F'' then Some (WordF, update_values (\<lambda>vs. vs\<lparr>v_f := v\<rparr>) l)
      else if letter = CHR ''I'' then Some (WordI, set_offset X_AXIS v l)
      else if letter = CHR ''J'' then Some (WordJ, set_offset Y_AXIS v l)
      else if letter = CHR ''K'' then Some (WordK, set_offset Z_AXIS v l)
      else if letter = CHR ''L'' then Some (WordL, update_values (\<lambda>vs. vs\<lparr>v_l := word_of_int int_value\<rparr>) l)
      else if letter = CHR ''N'' then
        Some (WordN, update_values (\<lambda>vs. vs\<lparr>v_n := word_of_int (trunc v)\<rparr>) l)
      else if letter = CHR ''P'' then Some (WordP, update_values (\<lambda>vs. vs\<lparr>v_p := v\<rparr>) l)
      else if letter = CHR ''Q'' then Some (WordQ, update_values (\<lambda>vs. vs\<lparr>v_q := v\<rparr>) l)
      else if letter = CHR ''R'' then Some (WordR, update_values (\<lambda>vs. vs\<lparr>v_r := v\<rparr>) l)
      else if letter = CHR ''S'' then Some (WordS, update_values (\<lambda>vs. vs\<lparr>v_s := v\<rparr>) l)
      else None)"

definition value_word ::
    "gc_env \<Rightarrow> char \<Rightarrow> real \<Rightarrow> int \<Rightarrow> int \<Rightarrow> gc_locals \<Rightarrow> gc_world
       \<Rightarrow> gc_error + gcode_word \<times> gc_locals \<times> gc_world" where
  "value_word env letter v int_value mantissa l w =
     (case axis_of_letter letter of
        Some (axis, wd) \<Rightarrow>
          if axis < ge_n_axis env then Inr (wd, set_axis_value axis v l, w)
          else Inl EGcodeUnsupportedCommand
      | None \<Rightarrow>
          if letter = CHR ''O'' then
            (if 0 < mantissa then Inl EGcodeCommandValueNotInteger
             else Inr (WordO, update_values (\<lambda>vs. vs\<lparr>v_o := word_of_int int_value\<rparr>) l, w))
          else if letter = CHR ''T'' then
            (if fint (int MaxToolNumber) < v then Inl EGcodeMaxValueExceeded
             else Inr (WordT, l, w\<lparr>gw_gc := (gw_gc w)\<lparr>gs_selected_tool := word_of_int int_value\<rparr>\<rparr>))
          else case simple_word letter v int_value l of
                 Some (wd, l) \<Rightarrow> Inr (wd, l, w)
               | None \<Rightarrow> Inl EGcodeUnsupportedCommand)"

text \<open>A repeated word is an error, and F, N, P, T and S must not be negative.\<close>

definition check_word :: "gcode_word \<Rightarrow> real \<Rightarrow> gc_locals \<Rightarrow> gc_error + gc_locals" where
  "check_word wd v l =
     (if has_word l wd then Inl EGcodeWordRepeated
      else if wd \<in> {WordF, WordN, WordP, WordT, WordS} \<and> v < 0 then Inl ENegativeValue
      else Inr (l\<lparr>gl_value_words := set_bit (word_code wd) (gl_value_words l)\<rparr>))"

text \<open>
  One word, after its value was read. The tool is selected at once, also when an error
  follows.
\<close>

definition parse_word ::
    "gc_env \<Rightarrow> char \<Rightarrow> real \<Rightarrow> gc_locals \<Rightarrow> gc_world \<Rightarrow> (gc_error + gc_locals) \<times> gc_world" where
  "parse_word env letter v l w =
     (let int_value = trunc v;
          mantissa = lround (fmul 100 (fsub v (fint int_value)));
          l = l\<lparr>gl_mantissa := mantissa\<rparr>
      in if letter = CHR ''G'' then (letter_g env int_value mantissa l, w)
         else if letter = CHR ''M'' then (letter_m env (gw_spindle w) int_value mantissa l, w)
         else case value_word env letter v int_value mantissa l w of
                Inl e \<Rightarrow> (Inl e, w)
              | Inr (wd, l, w) \<Rightarrow> (check_word wd v l, w))"

subsection \<open>The words of a line\<close>

text \<open>
  Step 2. The left result returns from \<open>gc_execute_line\<close>: with an error, with nothing to do
  because blocks are skipped, or with what the flow control returns.
\<close>

lemma world_number_length: "world_number env w line = Some (v, rest) \<Longrightarrow> length rest < length line"
  by (simp add: world_number_def ngc_number_length)

lemma assign_param_length:
  "assign_param env line w = Some (rest, w') \<Longrightarrow> length rest < length line"
proof -
  assume a: "assign_param env line w = Some (rest, w')"
  then obtain r l1 v where r: "ngc_param_ref (get_param env w) (named_param_exists env w) line = Some (r, l1)"
    and n: "world_number env w (tl l1) = Some (v, rest)"
    by (auto simp: assign_param_def split: option.splits if_splits)
  have "get_param_ref (get_param env w) (named_param_exists env w) (fuel_for line) line = Some (Inr (r, l1))"
    using get_param_ref_fuel [of line "fuel_for line" "get_param env w" "named_param_exists env w"] r
    by (simp add: fuel_for_def)
  then have "length l1 < length line" by (rule get_param_ref_below)
  moreover have "length rest < length (tl l1)" using n by (rule world_number_length)
  ultimately show ?thesis by simp
qed

function parse_words ::
    "gc_env \<Rightarrow> string \<Rightarrow> gc_locals \<Rightarrow> gc_world \<Rightarrow> flow_result + gc_locals \<times> gc_world" where
  "parse_words env [] l w = Inr (l, w)"
| "parse_words env (letter # line) l w =
     (if letter = CHR ''#'' then
        if gs_skip_blocks (gw_gc w) then Inl (Some (EOk, w))
        else case assign_param env line w of
               None \<Rightarrow> Inl (Some (EBadNumberFormat, w))
             | Some (line, w) \<Rightarrow> parse_words env line l w
      else if has_word l WordO then Inl (flowcontrol env (v_o (l_values l)) (letter # line) w)
      else if (of_char letter :: nat) < 65 \<or> 90 < (of_char letter :: nat) then Inl (Some (EExpectedCommandLetter, w))
      else case world_number env w line of
             None \<Rightarrow> Inl (Some (EBadNumberFormat, w))
           | Some (v, line) \<Rightarrow>
               if gs_skip_blocks (gw_gc w) \<and> letter \<noteq> CHR ''O'' then Inl (Some (EOk, w))
               else case parse_word env letter v l w of
                      (Inl e, w) \<Rightarrow> Inl (Some (e, w))
                    | (Inr l, w) \<Rightarrow> parse_words env line l w)"
  by pat_completeness auto
termination
  by (relation "measure (\<lambda>(_, line, _). length line)")
    (auto dest: assign_param_length world_number_length)

declare parse_words.simps(2) [simp del]

end
