(* ===== verification/GcodeCheck.thy ===== *)
theory GcodeCheck
  imports GcodeWords
begin

text \<open>
  Step 3 of \<open>gc_execute_line\<close> (\<^verbatim>\<open>GCode.cpp\<close>): the checks of a block whose words have been
  read, and the conversion of its values to millimetres and machine coordinates. One
  definition per numbered section of the code, composed in its order. A check may already
  announce a change of coordinates (\<open>gc_ngc_changed\<close>) before a later one fails.
\<close>

subsection \<open>Sequencing\<close>

type_synonym check = "gc_locals \<Rightarrow> gc_world \<Rightarrow> (gc_error + gc_locals) \<times> gc_world"

definition then_check :: "check \<Rightarrow> check \<Rightarrow> check" where
  "then_check f g l w = (case f l w of (Inl e, w) \<Rightarrow> (Inl e, w) | (Inr l, w) \<Rightarrow> g l w)"

definition pure_check :: "(gc_locals \<Rightarrow> parser_state \<Rightarrow> gc_error + gc_locals) \<Rightarrow> check" where
  "pure_check f l w = (f l (gw_gc w), w)"

definition over_axes :: "nat \<Rightarrow> (nat \<Rightarrow> real \<Rightarrow> real) \<Rightarrow> real list \<Rightarrow> real list" where
  "over_axes n f xs = map (\<lambda>i. if i < n then f i (xs ! i) else xs ! i) [0..<length xs]"

definition update_xyz :: "(real list \<Rightarrow> real list) \<Rightarrow> gc_locals \<Rightarrow> gc_locals" where
  "update_xyz f = update_values (\<lambda>v. v\<lparr>v_xyz := f (v_xyz v)\<rparr>)"

definition in_inches :: "gc_locals \<Rightarrow> bool" where
  "in_inches l \<longleftrightarrow> \<not> gl_nonmodalG38 l \<and> m_units (l_modal l) = UnitsInches"

subsection \<open>Feed, spindle and parking\<close>

definition MaxLineNumber :: int where "MaxLineNumber = 10000000"

definition check_common :: "gc_locals \<Rightarrow> parser_state \<Rightarrow> gc_error + gc_locals" where
  "check_common l gc =
     (let l = (if gl_axis_words l \<noteq> 0 \<and> gl_axis_command l = AcNone
               then l\<lparr>gl_axis_command := AcMotionMode\<rparr> else l)
      in if has_word l WordN \<and> MaxLineNumber < sint (v_n (l_values l)) then Inl EGcodeInvalidLineNumber
         else Inr l)"

definition scale_feed :: "gc_locals \<Rightarrow> gc_locals" where
  "scale_feed l = (if in_inches l then update_values (\<lambda>v. v\<lparr>v_f := fmul (v_f v) MM_PER_INCH\<rparr>) l else l)"

definition check_feed :: "gc_locals \<Rightarrow> parser_state \<Rightarrow> gc_error + gc_locals" where
  "check_feed l gc =
     (if gl_jogMotion l then
        if \<not> has_word l WordF then Inl EGcodeUndefinedFeedRate else Inr (scale_feed l)
      else if m_feed_rate (l_modal l) = InverseTime then
        if gl_axis_command l = AcMotionMode \<and> m_motion (l_modal l) \<noteq> MoNone
           \<and> m_motion (l_modal l) \<noteq> MoSeek \<and> \<not> has_word l WordF
        then Inl EGcodeUndefinedFeedRate else Inr l
      else if m_feed_rate (gs_modal gc) = UnitsPerMin then
        if has_word l WordF then Inr (scale_feed l)
        else Inr (update_values (\<lambda>v. v\<lparr>v_f := gs_feed_rate gc\<rparr>) l)
      else Inr l)"

definition check_spindle_speed :: "gc_locals \<Rightarrow> parser_state \<Rightarrow> gc_error + gc_locals" where
  "check_spindle_speed l gc =
     Inr (if \<not> has_word l WordS then update_values (\<lambda>v. v\<lparr>v_s := gs_spindle_speed gc\<rparr>) l else l)"

definition check_parking :: "gc_env \<Rightarrow> gc_locals \<Rightarrow> parser_state \<Rightarrow> gc_error + gc_locals" where
  "check_parking env l gc =
     Inr (if ge_parking_override env \<and> has_group l MM9 \<and> has_word l WordP then
            clear_word WordP
              (if v_p (l_values l) = 0 then update_modal (\<lambda>m. m\<lparr>m_override := OvDisabled\<rparr>) l else l)
          else l)"

subsection \<open>Dwell and user I/O\<close>

definition check_dwell :: "gc_locals \<Rightarrow> parser_state \<Rightarrow> gc_error + gc_locals" where
  "check_dwell l gc =
     (if b_non_modal_command (gl_block l) = NmDwell then
        if \<not> has_word l WordP then Inl EGcodeValueWordMissing else Inr (clear_word WordP l)
      else Inr l)"

definition check_digital_io :: "gc_locals \<Rightarrow> parser_state \<Rightarrow> gc_error + gc_locals" where
  "check_digital_io l gc =
     (if m_io_control (l_modal l) \<in> {DigitalOnSync, DigitalOffSync, DigitalOnImmediate, DigitalOffImmediate}
      then if \<not> has_word l WordP then Inl EGcodeValueWordMissing else Inr (clear_word WordP l)
      else Inr l)"

definition check_analog_io :: "gc_locals \<Rightarrow> parser_state \<Rightarrow> gc_error + gc_locals" where
  "check_analog_io l gc =
     (if m_io_control (l_modal l) \<in> {SetAnalogSync, SetAnalogImmediate} then
        if \<not> has_word l WordE \<or> \<not> has_word l WordQ then Inl EGcodeValueWordMissing
        else Inr (clear_word WordQ (clear_word WordE l))
      else Inr l)"

definition validate_wait_on_input_mode_value :: "u8 \<Rightarrow> wait_on_input_mode option" where
  "validate_wait_on_input_mode_value v =
     (if v = 0 then Some WaitImmediate else if v = 1 then Some WaitRise
      else if v = 2 then Some WaitFall else if v = 3 then Some WaitHigh
      else if v = 4 then Some WaitLow else None)"

definition check_wait :: "gc_locals \<Rightarrow> parser_state \<Rightarrow> gc_error + gc_locals" where
  "check_wait l gc =
     (if m_io_control (l_modal l) = WaitOnInput then
        if \<not> has_word l WordP \<and> \<not> has_word l WordE then Inl EGcodeValueWordMissing
        else if has_word l WordP \<and> has_word l WordE then Inl EGcodeValueWordInvalid
        else
          let l = l\<lparr>gl_isWaitOnInputDigital := has_word l WordP\<rparr>;
              l = clear_word WordE (clear_word WordP l)
          in if \<not> has_word l WordL then Inl EGcodeValueWordMissing
             else
               let l = clear_word WordL l
               in case validate_wait_on_input_mode_value (v_l (l_values l)) of
                    None \<Rightarrow> Inl EGcodeValueWordInvalid
                  | Some wait_mode \<Rightarrow>
                      if \<not> gl_isWaitOnInputDigital l \<and> wait_mode \<noteq> WaitImmediate then Inl EGcodeValueWordInvalid
                      else if has_word l WordQ then
                        if v_q (l_values l) \<noteq> 0 \<and> wait_mode \<noteq> WaitImmediate then Inl EGcodeValueWordInvalid
                        else Inr (clear_word WordQ l)
                      else if wait_mode \<noteq> WaitImmediate then Inl EGcodeValueWordMissing
                      else Inr (clear_word WordQ l)
      else Inr l)"

definition check_tool_number :: "gc_locals \<Rightarrow> parser_state \<Rightarrow> gc_error + gc_locals" where
  "check_tool_number l gc =
     (if m_set_tool_number (l_modal l) then
        if \<not> has_word l WordQ then Inl EGcodeValueWordMissing else Inr (clear_word WordQ l)
      else Inr l)"

subsection \<open>Plane, units and coordinate system\<close>

definition select_plane :: "gc_locals \<Rightarrow> parser_state \<Rightarrow> gc_error + gc_locals" where
  "select_plane l gc = Inr
     (case m_plane_select (l_modal l) of
        PlaneXY \<Rightarrow> l\<lparr>gl_axis_0 := X_AXIS, gl_axis_1 := Y_AXIS, gl_axis_linear := Z_AXIS\<rparr>
      | PlaneZX \<Rightarrow> l\<lparr>gl_axis_0 := Z_AXIS, gl_axis_1 := X_AXIS, gl_axis_linear := Y_AXIS\<rparr>
      | PlaneYZ \<Rightarrow> l\<lparr>gl_axis_0 := Y_AXIS, gl_axis_1 := Z_AXIS, gl_axis_linear := X_AXIS\<rparr>)"

definition convert_units :: "gc_env \<Rightarrow> gc_locals \<Rightarrow> parser_state \<Rightarrow> gc_error + gc_locals" where
  "convert_units env l gc = Inr
     (if in_inches l then
        update_xyz (over_axes (ge_n_axis env) (\<lambda>axis v.
          if is_linear axis \<and> bit (gl_axis_words l) axis then fmul v MM_PER_INCH else v)) l
      else l)"

definition announce_tool_length :: check where
  "announce_tool_length l w =
     (Inr l,
      if gl_axis_command l = AcToolLengthOffset then
        let w = gc_ngc_changed CI_TLO w
        in if m_tool_length (l_modal l) = TloEnableDynamic then gc_ngc_changed CI_TLO w else w
      else w)"

definition select_coords :: check where
  "select_coords l w =
     (let l = l\<lparr>gl_block_coord_system := gs_coord_system (gw_gc w)\<rparr>; c = m_coord_select (l_modal l)
      in (if has_group l MG12 then
            if CI_NWCSystems \<le> c then Inl EGcodeUnsupportedCoordSys
            else if m_coord_select (gs_modal (gw_gc w)) \<noteq> c
                 then Inr (l\<lparr>gl_block_coord_system := gw_coords w c\<rparr>) else Inr l
          else Inr l, w))"

subsection \<open>Non-modal actions\<close>

text \<open>G10: the code only rejects the line when the P and the L word are both missing.\<close>

definition check_set_coords :: "gc_env \<Rightarrow> check" where
  "check_set_coords env l w =
     (let gc = gw_gc w; vs = l_values l
      in if gl_axis_words l = 0 then (Inl EGcodeNoAxisWords, w)
         else if \<not> has_word l WordP \<and> \<not> has_word l WordL then (Inl EGcodeValueWordMissing, w)
         else if v_l vs \<noteq> 20 \<and> (v_l vs \<noteq> 2 \<or> has_word l WordR) then (Inl EGcodeUnsupportedCommand, w)
         else
           let pValue = word_of_int (trunc (v_p vs)) :: u8;
               coord_select = (if 0 < pValue then ucast pValue - 1 else m_coord_select (l_modal l))
           in if CI_NWCSystems \<le> coord_select then (Inl EGcodeUnsupportedCoordSys, w)
              else
                let l = clear_word WordP (clear_word WordL (l\<lparr>gl_coord_select := coord_select\<rparr>));
                    coord_data = over_axes (ge_n_axis env) (\<lambda>axis v.
                      if bit (gl_axis_words l) axis then
                        if v_l vs = 20 then
                          fsub (fsub (fsub (gs_position gc ! axis) (gs_coord_offset gc ! axis)) (v_xyz vs ! axis))
                            (gs_tool_length_offset gc ! axis)
                        else v_xyz vs ! axis
                      else v) (gw_coords w coord_select)
                in (Inr (l\<lparr>gl_coord_data := coord_data\<rparr>), gc_ngc_changed coord_select w))"

text \<open>G92.\<close>

definition check_set_offset :: "gc_env \<Rightarrow> check" where
  "check_set_offset env l w =
     (let gc = gw_gc w
      in if gl_axis_words l = 0 then (Inl EGcodeNoAxisWords, w)
         else
           (Inr (update_xyz (over_axes (ge_n_axis env) (\<lambda>axis v.
              if bit (gl_axis_words l) axis then
                fsub (fsub (fsub (gs_position gc ! axis) (gl_block_coord_system l ! axis)) v)
                  (gs_tool_length_offset gc ! axis)
              else gs_coord_offset gc ! axis)) l),
            gc_ngc_changed CI_G92 w))"

text \<open>The target in machine coordinates.\<close>

definition compute_target :: "gc_env \<Rightarrow> gc_locals \<Rightarrow> parser_state \<Rightarrow> gc_locals" where
  "compute_target env l gc =
     (if gl_axis_command l \<noteq> AcToolLengthOffset \<and> gl_axis_words l \<noteq> 0 then
        update_xyz (over_axes (ge_n_axis env) (\<lambda>axis v.
          if \<not> bit (gl_axis_words l) axis then gs_position gc ! axis
          else if b_non_modal_command (gl_block l) \<noteq> NmAbsoluteOverride then
            if \<not> gl_nonmodalG38 l \<and> m_distance (l_modal l) = DistanceAbsolute then
              fadd (fadd v (fadd (gl_block_coord_system l ! axis) (gs_coord_offset gc ! axis)))
                (gs_tool_length_offset gc ! axis)
            else fadd v (gs_position gc ! axis)
          else v)) l
      else l)"

definition check_go_home :: "gc_env \<Rightarrow> gc_locals \<Rightarrow> gc_world \<Rightarrow> gc_locals" where
  "check_go_home env l w =
     (let data = gw_coords w (if b_non_modal_command (gl_block l) = NmGoHome0 then CI_G28 else CI_G30)
      in if gl_axis_words l \<noteq> 0 then
           l\<lparr>gl_coord_data := over_axes (ge_n_axis env) (\<lambda>axis v.
               if \<not> bit (gl_axis_words l) axis then gs_position (gw_gc w) ! axis else v) data\<rparr>
         else l\<lparr>gl_coord_data := data, gl_axis_command := AcNone\<rparr>)"

definition check_non_modal :: "gc_env \<Rightarrow> check" where
  "check_non_modal env l w =
     (case b_non_modal_command (gl_block l) of
        NmSetCoordinateData \<Rightarrow> check_set_coords env l w
      | NmSetCoordinateOffset \<Rightarrow> check_set_offset env l w
      | nm \<Rightarrow>
          let l = compute_target env l (gw_gc w)
          in if nm = NmGoHome0 \<or> nm = NmGoHome1 then (Inr (check_go_home env l w), w)
             else if nm = NmAbsoluteOverride \<and> \<not> (gl_probeExplicit l \<or> m_motion (l_modal l) = MoSeek
                     \<or> m_motion (l_modal l) = MoLinear)
             then (Inl EGcodeG53InvalidMotionMode, w)
             else (Inr l, w))"

subsection \<open>Motion modes\<close>

definition hypot_f :: "real \<Rightarrow> real \<Rightarrow> real" where
  "hypot_f x y = fsqrt (fadd (fmul x x) (fmul y y))"

definition set_ijk :: "nat \<Rightarrow> real \<Rightarrow> gc_locals \<Rightarrow> gc_locals" where
  "set_ijk axis v = update_values (\<lambda>vs. vs\<lparr>v_ijk := (v_ijk vs)[axis := v]\<rparr>)"

definition set_radius :: "real \<Rightarrow> gc_locals \<Rightarrow> gc_locals" where
  "set_radius r = update_values (\<lambda>vs. vs\<lparr>v_r := r\<rparr>)"

text \<open>The centre of an arc given by its radius; the vector to the target is \<open>(x, y)\<close>.\<close>

definition arc_by_radius :: "real \<Rightarrow> real \<Rightarrow> gc_locals \<Rightarrow> parser_state \<Rightarrow> gc_error + gc_locals" where
  "arc_by_radius x y l gc =
     (let l = clear_word WordR l
      in if gs_position gc = v_xyz (l_values l) then Inl EGcodeInvalidTarget
         else
           let l = (if in_inches l then set_radius (fmul (v_r (l_values l)) MM_PER_INCH) l else l);
               r = v_r (l_values l);
               h = fsub (fsub (fmul (fmul 4 r) r) (fmul x x)) (fmul y y)
           in if h < 0 then Inl EGcodeArcRadiusError
              else
                let h = fdiv (- fsqrt h) (hypot_f x y);
                    h = (if m_motion (l_modal l) = MoCcwArc then - h else h);
                    (h, l) = (if r < 0 then (- h, set_radius (- r) l) else (h, l))
                in Inr (set_ijk (gl_axis_1 l) (fmul (1 / 2) (fadd y (fmul x h)))
                     (set_ijk (gl_axis_0 l) (fmul (1 / 2) (fsub x (fmul y h))) l)))"

definition arc_by_centre :: "gc_env \<Rightarrow> real \<Rightarrow> real \<Rightarrow> gc_locals \<Rightarrow> gc_error + gc_locals" where
  "arc_by_centre env x y l =
     (if \<not> bit (gl_ijk_words l) (gl_axis_0 l) \<and> \<not> bit (gl_ijk_words l) (gl_axis_1 l)
      then Inl EGcodeNoOffsetsInPlane
      else
        let l = clear_word WordK (clear_word WordJ (clear_word WordI l));
            l = (if in_inches l then
                   update_values (\<lambda>vs. vs\<lparr>v_ijk := over_axes (ge_n_axis env) (\<lambda>axis v.
                     if bit (gl_ijk_words l) axis then fmul v MM_PER_INCH else v) (v_ijk vs)\<rparr>) l
                 else l);
            i = v_ijk (l_values l) ! gl_axis_0 l; j = v_ijk (l_values l) ! gl_axis_1 l;
            target_r = hypot_f (fsub x i) (fsub y j);
            l = set_radius (hypot_f i j) l;
            r = v_r (l_values l);
            delta_r = \<bar>fsub target_r r\<bar>
        in if f64 0.005 < delta_r \<and> (f64 0.5 < delta_r \<or> f64 (f64 0.001 * r) < delta_r)
           then Inl EGcodeInvalidTarget
           else Inr l)"

definition check_arc :: "gc_env \<Rightarrow> gc_locals \<Rightarrow> parser_state \<Rightarrow> gc_error + gc_locals" where
  "check_arc env l gc =
     (let p = v_p (l_values l)
      in if gl_axis_words l = 0 then Inl EGcodeNoAxisWords
         else if \<not> bit (gl_axis_words l) (gl_axis_0 l) \<and> \<not> bit (gl_axis_words l) (gl_axis_1 l)
         then Inl EGcodeNoAxisWordsInPlane
         else if p \<noteq> of_int (trunc p) \<or> p < 0 then Inl EGcodeCommandValueNotInteger
         else
           let x = fsub (v_xyz (l_values l) ! gl_axis_0 l) (gs_position gc ! gl_axis_0 l);
               y = fsub (v_xyz (l_values l) ! gl_axis_1 l) (gs_position gc ! gl_axis_1 l)
           in map_sum id (clear_word WordP)
                (if has_word l WordR then arc_by_radius x y l gc else arc_by_centre env x y l))"

definition FLT_MAX :: real where "FLT_MAX = (2 ^ 24 - 1) * 2 ^ 104"

definition multiple_bits_set :: "u32 \<Rightarrow> bool" where
  "multiple_bits_set v \<longleftrightarrow> v AND (v - 1) \<noteq> 0"

definition check_probe :: "gc_locals \<Rightarrow> parser_state \<Rightarrow> gc_error + gc_locals" where
  "check_probe l gc =
     (let mo = m_motion (l_modal l);
          l = (if mo = MoProbeTowardNoError \<or> mo = MoProbeAwayNoError then l\<lparr>gl_probeNoError := True\<rparr> else l);
          l = (if mo = MoProbeAway \<or> mo = MoProbeAwayNoError then l\<lparr>gl_probeAway := True\<rparr> else l)
      in if has_word l WordP \<and> multiple_bits_set (gl_axis_words l) then Inl EGcodeUnusedWords
         else
           let l = (if has_word l WordP then l else update_values (\<lambda>vs. vs\<lparr>v_p := FLT_MAX\<rparr>) l);
               l = clear_word WordP l
           in if gl_axis_words l = 0 then Inl EGcodeNoAxisWords
              else if gs_position gc = v_xyz (l_values l) then Inl EGcodeInvalidTarget
              else Inr l)"

definition drop_motion_without_axes :: "gc_locals \<Rightarrow> gc_locals" where
  "drop_motion_without_axes l = (if gl_axis_words l = 0 then l\<lparr>gl_axis_command := AcNone\<rparr> else l)"

definition check_motion :: "gc_env \<Rightarrow> gc_locals \<Rightarrow> parser_state \<Rightarrow> gc_error + gc_locals" where
  "check_motion env l gc =
     (let mo = m_motion (l_modal l)
      in if mo = MoNone then if gl_axis_words l \<noteq> 0 then Inl EGcodeAxisWordsExist else Inr l
         else if gl_axis_command l = AcMotionMode then
           if mo = MoSeek then Inr (drop_motion_without_axes l)
           else if v_f (l_values l) = 0 then Inl EGcodeUndefinedFeedRate
           else case mo of
                  MoLinear \<Rightarrow> Inr (drop_motion_without_axes l)
                | MoCwArc \<Rightarrow> check_arc env (l\<lparr>gl_clockwiseArc := True\<rparr>) gc
                | MoCcwArc \<Rightarrow> check_arc env l gc
                | _ \<Rightarrow> check_probe l gc
         else Inr l)"

subsection \<open>Unused words\<close>

fun clear_words :: "gcode_word list \<Rightarrow> gc_locals \<Rightarrow> gc_locals" where
  "clear_words [] l = l"
| "clear_words (wd # wds) l = clear_words wds (clear_word wd l)"

definition check_unused :: "gc_locals \<Rightarrow> parser_state \<Rightarrow> gc_error + gc_locals" where
  "check_unused l gc =
     (let l = clear_words (if gl_jogMotion l then [WordN, WordF] else [WordN, WordF, WordS, WordT]) l;
          l = (if gl_axis_command l \<noteq> AcNone
               then clear_words [WordX, WordY, WordZ, WordA, WordB, WordC, WordU, WordV, WordW] l else l);
          l = clear_words [WordD, WordO] l
      in if gl_value_words l \<noteq> 0 then Inl EGcodeUnusedWords else Inr l)"

subsection \<open>The whole step\<close>

definition check_block :: "gc_env \<Rightarrow> check" where
  "check_block env =
     then_check (pure_check check_common)
    (then_check (pure_check check_feed)
    (then_check (pure_check check_spindle_speed)
    (then_check (pure_check (check_parking env))
    (then_check (pure_check check_dwell)
    (then_check (pure_check check_digital_io)
    (then_check (pure_check check_analog_io)
    (then_check (pure_check check_wait)
    (then_check (pure_check check_tool_number)
    (then_check (pure_check select_plane)
    (then_check (pure_check (convert_units env))
    (then_check announce_tool_length
    (then_check select_coords
    (then_check (check_non_modal env)
    (then_check (pure_check (check_motion env))
       (pure_check check_unused)))))))))))))))"

end
