(* ===== verification/GcodeExec.thy ===== *)
theory GcodeExec
  imports GcodeCheck
begin

text \<open>
  Step 4 of \<open>gc_execute_line\<close> (\<^verbatim>\<open>GCode.cpp\<close>): a checked block is executed, one definition per
  numbered section in the order of the code; then the line as a whole, a jog (\<^verbatim>\<open>Jog.cpp\<close>) and
  the choice of the spindle (\<^verbatim>\<open>Spindles/Spindle.cpp\<close>). A call into the rest of the firmware
  (planner, spindle, outputs, channels) is an action; what it reports is in the environment.
\<close>

subsection \<open>Sequencing\<close>

text \<open>
  A section reads and writes the locals of the line, the data for the planner and the world;
  it returns early with a status on the left.
\<close>

type_synonym exec = "gc_locals \<Rightarrow> plan_line \<Rightarrow> gc_world \<Rightarrow> (gc_error + gc_locals \<times> plan_line) \<times> gc_world"

definition then_exec :: "exec \<Rightarrow> exec \<Rightarrow> exec" where
  "then_exec f g l pl w = (case f l pl w of (Inl e, w) \<Rightarrow> (Inl e, w) | (Inr (l, pl), w) \<Rightarrow> g l pl w)"

definition set_gc :: "(parser_state \<Rightarrow> parser_state) \<Rightarrow> gc_world \<Rightarrow> gc_world" where
  "set_gc f w = w\<lparr>gw_gc := f (gw_gc w)\<rparr>"

definition set_mode :: "(gc_modal \<Rightarrow> gc_modal) \<Rightarrow> gc_world \<Rightarrow> gc_world" where
  "set_mode f = set_gc (\<lambda>gc. gc\<lparr>gs_modal := f (gs_modal gc)\<rparr>)"

definition copy_axes :: "gc_env \<Rightarrow> real list \<Rightarrow> real list \<Rightarrow> real list" where
  "copy_axes env dest src = over_axes (ge_n_axis env) (\<lambda>axis _. src ! axis) dest"

definition set_position :: "gc_env \<Rightarrow> real list \<Rightarrow> gc_world \<Rightarrow> gc_world" where
  "set_position env p = set_gc (\<lambda>gc. gc\<lparr>gs_position := copy_axes env (gs_position gc) p\<rparr>)"

definition gc_sync_position :: "gc_env \<Rightarrow> gc_world \<Rightarrow> gc_world" where
  "gc_sync_position env = set_gc (\<lambda>gc. gc\<lparr>gs_position := ge_steps_mpos env\<rparr>)"

definition gc_ovr_changed :: "gc_world \<Rightarrow> gc_world" where
  "gc_ovr_changed = gc_emit AcOvrChanged"

definition gc_wco_changed :: "gc_world \<Rightarrow> gc_world" where
  "gc_wco_changed w = gc_emit AcWcoChanged (gc_emit AcSynchronize w)"

text \<open>\<open>Coordinates::set\<close>: the member \<open>is_saved\<close> is never cleared.\<close>

definition coords_set :: "u16 \<Rightarrow> real list \<Rightarrow> gc_world \<Rightarrow> gc_world" where
  "coords_set c data w =
     gc_emit (AcSaveCoords c) (gc_emit AcSynchronize (w\<lparr>gw_coords := (gw_coords w)(c := data)\<rparr>))"

lemmas world_step_defs = set_mode_def set_gc_def gc_emit_def set_position_def gc_ovr_changed_def
  gc_wco_changed_def coords_set_def gc_ngc_changed_def

subsection \<open>Jogging\<close>

definition jog_execute :: "gc_env \<Rightarrow> gc_locals \<Rightarrow> plan_line \<Rightarrow> gc_world \<Rightarrow> gc_error \<times> gc_locals \<times> gc_world" where
  "jog_execute env l pl w =
     (let (xyz, limits_checked) = ge_constrain_jog env (v_xyz (l_values l));
          l = update_values (\<lambda>v. v\<lparr>v_xyz := xyz\<rparr>) l;
          pl = pl\<lparr>pl_limits_checked := limits_checked, pl_feed_rate := v_f (l_values l),
                  pl_noFeedOverride := True, pl_is_jog := True, pl_line_number := v_n (l_values l)\<rparr>;
          w = gc_emit (AcLinear xyz pl (gs_position (gw_gc w))) w
      in (if ge_jog_accepted env then EOk else EJogCancelled, l, w))"

definition coolant_bits :: "coolant_state \<Rightarrow> bool \<times> bool" where
  "coolant_bits c = (co_mist c, co_flood c)"

definition speed_u32 :: "real \<Rightarrow> u32" where
  "speed_u32 s = word_of_int (trunc s)"

text \<open>Only G90/G91, G20/G21 and G53 may be in a jog line.\<close>

definition jog_words_allowed :: "u32 \<Rightarrow> bool" where
  "jog_words_allowed command_words \<longleftrightarrow>
     (\<forall>g \<in> {MG1, MG2, MG4, MG5, MG7, MG8, MG12, MG13, MM4, MM5, MM6, MM7, MM8, MM9, MM10}.
        \<not> bit command_words (group_code g))"

definition exec_jog :: "gc_env \<Rightarrow> gc_locals \<Rightarrow> gc_world \<Rightarrow> gc_error \<times> gc_world" where
  "exec_jog env l w =
     (if \<not> jog_words_allowed (gl_command_words l) then (EInvalidJogCommand, w)
      else if b_non_modal_command (gl_block l) \<noteq> NmAbsoluteOverride
              \<and> b_non_modal_command (gl_block l) \<noteq> NmNoAction then (EInvalidJogCommand, w)
      else
        let gc = gw_gc w;
            pl = plan_line_zero\<lparr>pl_spindle_speed := speed_u32 (gs_spindle_speed gc),
                   pl_spindle := spindle_state_code (m_spindle (gs_modal gc)),
                   pl_coolant := coolant_bits (m_coolant (gs_modal gc))\<rparr>;
            (status, l, w) = jog_execute env l pl w
        in if status = EOk then (EOk, set_position env (v_xyz (l_values l)) w)
           else (if status = EJogCancelled then EOk else status, w))"

subsection \<open>Laser, feed and speed\<close>

definition is_feed_motion :: "gc_motion \<Rightarrow> bool" where
  "is_feed_motion mo \<longleftrightarrow> mo = MoLinear \<or> mo = MoCwArc \<or> mo = MoCcwArc"

definition exec_laser :: "gc_env \<Rightarrow> exec" where
  "exec_laser env l pl w =
     (Inr (if ge_spindle_rate_adjusted env (gw_spindle w) then
             let modal = gs_modal (gw_gc w);
                 l = (if \<not> is_feed_motion (m_motion (l_modal l)) then l\<lparr>gl_disableLaser := True\<rparr> else l)
             in if gl_axis_words l \<noteq> 0 \<and> gl_axis_command l = AcMotionMode then l\<lparr>gl_laserIsMotion := True\<rparr>
                else if m_spindle modal = SpCw then
                  if is_feed_motion (m_motion modal) then
                    (if gl_disableLaser l then l\<lparr>gl_syncLaser := True\<rparr> else l)
                  else if \<not> gl_disableLaser l then l\<lparr>gl_syncLaser := True\<rparr> else l
                else l
           else l, pl), w)"

definition exec_feed :: exec where
  "exec_feed l pl w =
     (let vs = l_values l; feed_rate = m_feed_rate (l_modal l);
          pl = pl\<lparr>pl_line_number := v_n vs\<rparr>;
          pl = (if feed_rate = InverseTime then pl\<lparr>pl_inverseTime := True\<rparr> else pl);
          pl = pl\<lparr>pl_feed_rate := v_f vs\<rparr>
      in (Inr (l, pl),
          set_gc (\<lambda>gc. gc\<lparr>gs_line_number := v_n vs, gs_feed_rate := v_f vs\<rparr>)
            (set_mode (\<lambda>m. m\<lparr>m_feed_rate := feed_rate\<rparr>) w)))"

definition exec_speed :: "gc_env \<Rightarrow> exec" where
  "exec_speed env l pl w =
     (let s = v_s (l_values l); gc = gw_gc w;
          w = (if gs_spindle_speed gc \<noteq> s \<or> gl_syncLaser l then
                 let w = (if m_spindle (gs_modal gc) \<noteq> SpDisable \<and> \<not> gl_laserIsMotion l \<and> \<not> ge_check_mode env
                          then gc_ovr_changed (gc_emit (AcSpindle (m_spindle (gs_modal gc))
                                 (if gl_disableLaser l then 0 else speed_u32 s)) (gc_emit AcSynchronize w))
                          else w)
                 in set_gc (\<lambda>gc. gc\<lparr>gs_spindle_speed := s\<rparr>) w
               else w);
          pl = (if \<not> gl_disableLaser l
                then pl\<lparr>pl_spindle_speed := speed_u32 (gs_spindle_speed (gw_gc w))\<rparr> else pl)
      in (Inr (l, pl), w))"

subsection \<open>Tools\<close>

text \<open>The spindle whose tool number is the greatest one not above the new tool.\<close>

fun find_candidate :: "u32 \<Rightarrow> nat \<Rightarrow> u32 list \<Rightarrow> (nat \<times> u32) option \<Rightarrow> (nat \<times> u32) option" where
  "find_candidate new_tool i [] candidate = candidate"
| "find_candidate new_tool i (tool # tools) candidate =
     find_candidate new_tool (Suc i) tools
       (if tool \<le> new_tool \<and> (case candidate of None \<Rightarrow> True | Some (_, t) \<Rightarrow> t < tool)
        then Some (i, tool) else candidate)"

text \<open>The two flags that \<open>switchSpindle\<close> sets are its result: stopped and new.\<close>

definition switchSpindle :: "gc_env \<Rightarrow> u32 \<Rightarrow> gc_world \<Rightarrow> bool \<times> bool \<times> gc_world" where
  "switchSpindle env new_tool w =
     (case find_candidate new_tool 0 (ge_spindle_tools env) None of
        None \<Rightarrow> (False, False, w)
      | Some (i, _) \<Rightarrow>
          let w = gc_emit (AcSpindleStop (gw_spindle w)) w
          in if i \<noteq> gw_spindle w
             then (True, True, set_gc (\<lambda>gc. gc\<lparr>gs_selected_tool := new_tool\<rparr>) (w\<lparr>gw_spindle := i\<rparr>))
             else (True, False, w))"

definition switch_to_selected :: "gc_env \<Rightarrow> gc_locals \<Rightarrow> gc_world \<Rightarrow> gc_locals \<times> gc_world" where
  "switch_to_selected env l w =
     (let (stopped_spindle, new_spindle, w) =
            switchSpindle env (gs_selected_tool (gw_gc w)) (gc_emit AcSynchronize w)
      in (if stopped_spindle then update_modal (\<lambda>m. m\<lparr>m_spindle := SpDisable\<rparr>) l else l,
          if new_spindle then set_gc (\<lambda>gc. gc\<lparr>gs_spindle_speed := 0\<rparr>) w else w))"

definition exec_tool_change :: "gc_env \<Rightarrow> exec" where
  "exec_tool_change env l pl w =
     (if m_tool_change (l_modal l) \<and> gs_selected_tool (gw_gc w) \<noteq> gs_current_tool (gw_gc w) then
        let (l, w) = switch_to_selected env l w;
            tool = gs_selected_tool (gw_gc w);
            w = gc_emit (AcToolChange tool False) w;
            w = (if ge_no_tool_changer env (gw_spindle w)
                 then set_gc (\<lambda>gc. gc\<lparr>gs_current_tool := tool\<rparr>) w else w)
        in (Inr (l, pl), gc_ovr_changed w)
      else (Inr (l, pl), w))"

definition exec_set_tool :: "gc_env \<Rightarrow> exec" where
  "exec_set_tool env l pl w =
     (if m_set_tool_number (l_modal l) then
        let q = v_q (l_values l)
        in if q < 0 then (Inl ENegativeValue, w)
           else
             let w = set_gc (\<lambda>gc. gc\<lparr>gs_selected_tool := word_of_int (trunc q)\<rparr>) w;
                 (l, w) = switch_to_selected env l w;
                 w = gc_emit (AcToolChange (gs_selected_tool (gw_gc w)) True) w;
                 w = set_gc (\<lambda>gc. gc\<lparr>gs_current_tool := word_of_int (trunc q)\<rparr>) w
             in (Inr (l, pl), gc_ovr_changed w)
      else (Inr (l, pl), w))"

subsection \<open>Spindle and coolant\<close>

definition exec_spindle :: "gc_env \<Rightarrow> exec" where
  "exec_spindle env l pl w =
     (let state = m_spindle (l_modal l);
          w = (if m_spindle (gs_modal (gw_gc w)) \<noteq> state then
                 let w = (if \<not> ge_check_mode env
                          then gc_emit (AcSpindle state (pl_spindle_speed pl)) (gc_emit AcSynchronize w) else w)
                 in set_mode (\<lambda>m. m\<lparr>m_spindle := state\<rparr>) (gc_ovr_changed w)
               else w)
      in (Inr (l, pl\<lparr>pl_spindle := spindle_state_code (m_spindle (gs_modal (gw_gc w)))\<rparr>), w))"

text \<open>The mantissa is the one of the last word that was read, whatever its letter.\<close>

definition new_coolant :: "gc_locals \<Rightarrow> coolant_state \<Rightarrow> coolant_state" where
  "new_coolant l c =
     (case b_coolant (gl_block l) of
        CoolantM7 \<Rightarrow> c\<lparr>co_mist := gl_mantissa l \<noteq> 10\<rparr>
      | CoolantM8 \<Rightarrow> c\<lparr>co_flood := gl_mantissa l \<noteq> 10\<rparr>
      | CoolantM9 \<Rightarrow> \<lparr>co_mist = False, co_flood = False\<rparr>
      | CoolantNone \<Rightarrow> c)"

definition exec_coolant :: "gc_env \<Rightarrow> exec" where
  "exec_coolant env l pl w =
     (let w = (if b_coolant (gl_block l) \<noteq> CoolantNone then
                 let w = set_mode (\<lambda>m. m\<lparr>m_coolant := new_coolant l (m_coolant m)\<rparr>) w
                 in if \<not> ge_check_mode env
                    then gc_ovr_changed (gc_emit (AcCoolant (m_coolant (gs_modal (gw_gc w)))) (gc_emit AcSynchronize w))
                    else w
               else w)
      in (Inr (l, pl\<lparr>pl_coolant := coolant_bits (m_coolant (gs_modal (gw_gc w)))\<rparr>), w))"

subsection \<open>User outputs and inputs\<close>

definition exec_digital :: "gc_env \<Rightarrow> exec" where
  "exec_digital env l pl w =
     (let io = m_io_control (l_modal l); p = v_p (l_values l)
      in if io \<in> {DigitalOnSync, DigitalOffSync, DigitalOnImmediate, DigitalOffImmediate} then
           if p < of_nat MaxUserDigitalPin then
             let w = (if io = DigitalOnSync \<or> io = DigitalOffSync then gc_emit AcSynchronize w else w);
                 turnOn = (io = DigitalOnSync \<or> io = DigitalOnImmediate);
                 n = nat (trunc p)
             in if \<not> ge_set_digital env n turnOn then (Inl EPParamMaxExceeded, w)
                else (Inr (l, pl), gc_emit (AcDigital n turnOn) w)
           else (Inl EPParamMaxExceeded, w)
         else (Inr (l, pl), w))"

definition clamp_percent :: "real \<Rightarrow> real" where
  "clamp_percent q = (if q < 0 then 0 else if 100 < q then 100 else q)"

definition exec_analog :: "gc_env \<Rightarrow> exec" where
  "exec_analog env l pl w =
     (let io = m_io_control (l_modal l); e = unat (v_e (l_values l))
      in if io = SetAnalogSync \<or> io = SetAnalogImmediate then
           if e < MaxUserAnalogPin then
             let l = update_values (\<lambda>v. v\<lparr>v_q := clamp_percent (v_q v)\<rparr>) l;
                 q = v_q (l_values l);
                 w = (if io = SetAnalogSync then gc_emit AcSynchronize w else w)
             in if \<not> ge_set_analog env e q then (Inl EPParamMaxExceeded, w)
                else (Inr (l, pl), gc_emit (AcAnalog e q) w)
           else (Inl EPParamMaxExceeded, w)
         else (Inr (l, pl), w))"

text \<open>The test against the analog limit is inside the branch of the digital inputs.\<close>

definition validate_input_number :: "bool \<Rightarrow> real \<Rightarrow> nat option" where
  "validate_input_number is_digital input_number =
     (if input_number < 0 then None
      else if is_digital then
        (if of_nat MaxUserDigitalPin < input_number then None
         else if of_nat MaxUserAnalogPin < input_number then None
         else Some (nat (trunc input_number)))
      else Some (nat (trunc input_number)))"

text \<open>Its status is ignored by the caller; an input that is not defined is \<open>None\<close>.\<close>

definition gc_wait_on_input ::
    "gc_env \<Rightarrow> bool \<Rightarrow> nat \<Rightarrow> wait_on_input_mode \<Rightarrow> gc_world \<Rightarrow> gc_error \<times> gc_world" where
  "gc_wait_on_input env is_digital input_number mode w =
     (if mode = WaitImmediate then
        if (if is_digital then MaxUserDigitalPin else MaxUserAnalogPin) \<le> input_number
        then (EPParamMaxExceeded, w)
        else case (if is_digital then ge_digital_input env input_number
                   else ge_analog_input env input_number) of
               None \<Rightarrow> (EPParamMaxExceeded, w)
             | Some result \<Rightarrow> (EOk, snd (set_numbered_param 5399 result w))
      else (EGcodeValueWordInvalid, w))"

definition exec_wait :: "gc_env \<Rightarrow> exec" where
  "exec_wait env l pl w =
     (let vs = l_values l; is_digital = gl_isWaitOnInputDigital l
      in if m_io_control (l_modal l) = WaitOnInput then
           (case validate_input_number is_digital
                   (if is_digital then v_p vs else of_int (uint (v_e vs))) of
              None \<Rightarrow> (Inl EPParamMaxExceeded, w)
            | Some input_number \<Rightarrow>
                (Inr (l, pl),
                 case validate_wait_on_input_mode_value (v_l vs) of
                   Some wait_mode \<Rightarrow> snd (gc_wait_on_input env is_digital input_number wait_mode w)
                 | None \<Rightarrow> w))
         else (Inr (l, pl), w))"

subsection \<open>Overrides, dwell, modes and offsets\<close>

definition exec_override :: "gc_env \<Rightarrow> exec" where
  "exec_override env l pl w =
     (Inr (l, pl),
      if ge_parking_override env \<and> m_override (gs_modal (gw_gc w)) \<noteq> m_override (l_modal l)
      then gc_emit (AcOverrideControl (m_override (l_modal l)))
             (set_mode (\<lambda>m. m\<lparr>m_override := m_override (l_modal l)\<rparr>) w)
      else w)"

definition exec_dwell :: exec where
  "exec_dwell l pl w =
     (Inr (l, pl),
      if b_non_modal_command (gl_block l) = NmDwell
      then gc_emit (AcDwell (word_of_int (trunc (fmul (v_p (l_values l)) 1000)))) w else w)"

definition exec_plane_units :: exec where
  "exec_plane_units l pl w =
     (Inr (l, pl),
      set_mode (\<lambda>m. m\<lparr>m_plane_select := m_plane_select (l_modal l), m_units := m_units (l_modal l)\<rparr>) w)"

definition exec_tool_length :: "gc_env \<Rightarrow> exec" where
  "exec_tool_length env l pl w =
     (Inr (l, pl),
      if gl_axis_command l = AcToolLengthOffset then
        let tl = m_tool_length (l_modal l);
            w = set_mode (\<lambda>m. m\<lparr>m_tool_length := tl\<rparr>) w;
            w = set_gc (\<lambda>gc. gc\<lparr>gs_tool_length_offset := over_axes (ge_n_axis env) (\<lambda>idx v.
                  if tl = TloCancel then 0
                  else if bit (gl_axis_words l) idx then v_xyz (l_values l) ! idx else v)
                  (gs_tool_length_offset gc)\<rparr>) w
        in coords_set CI_TLO (gs_tool_length_offset (gw_gc w)) w
      else w)"

definition exec_coord_select :: "gc_env \<Rightarrow> exec" where
  "exec_coord_select env l pl w =
     (let c = m_coord_select (l_modal l)
      in (Inr (l, pl),
          if m_coord_select (gs_modal (gw_gc w)) \<noteq> c then
            gc_wco_changed (set_gc (\<lambda>gc. gc\<lparr>gs_coord_system :=
                copy_axes env (gs_coord_system gc) (gl_block_coord_system l)\<rparr>)
              (set_mode (\<lambda>m. m\<lparr>m_coord_select := c\<rparr>) w))
          else w))"

definition exec_distance :: exec where
  "exec_distance l pl w =
     (Inr (l, pl), set_mode (\<lambda>m. m\<lparr>m_distance := m_distance (l_modal l)\<rparr>) w)"

definition set_coord_offset :: "gc_env \<Rightarrow> real list \<Rightarrow> gc_world \<Rightarrow> gc_world" where
  "set_coord_offset env offset w =
     gc_wco_changed (gc_ngc_changed CI_G92
       (set_gc (\<lambda>gc. gc\<lparr>gs_coord_offset := copy_axes env (gs_coord_offset gc) offset\<rparr>) w))"

definition exec_set_coords :: "gc_env \<Rightarrow> gc_locals \<Rightarrow> gc_world \<Rightarrow> gc_world" where
  "exec_set_coords env l w =
     (let w = gc_wco_changed (coords_set (gl_coord_select l) (gl_coord_data l) w)
      in if m_coord_select (gs_modal (gw_gc w)) = gl_coord_select l
         then set_gc (\<lambda>gc. gc\<lparr>gs_coord_system := copy_axes env (gs_coord_system gc) (gl_coord_data l)\<rparr>) w
         else w)"

definition exec_go_home :: "gc_env \<Rightarrow> gc_locals \<Rightarrow> plan_line \<Rightarrow> gc_world \<Rightarrow> gc_world" where
  "exec_go_home env l pl w =
     (let p = gs_position (gw_gc w);
          w = (if gl_axis_command l \<noteq> AcNone then gc_emit (AcLinear (v_xyz (l_values l)) pl p) w else w)
      in set_position env (gl_coord_data l) (gc_emit (AcLinear (gl_coord_data l) pl p) w))"

definition exec_non_modal :: "gc_env \<Rightarrow> exec" where
  "exec_non_modal env l pl w =
     (case b_non_modal_command (gl_block l) of
        NmSetCoordinateData \<Rightarrow> (Inr (l, pl), exec_set_coords env l w)
      | NmGoHome0 \<Rightarrow> (let pl = pl\<lparr>pl_rapidMotion := True\<rparr> in (Inr (l, pl), exec_go_home env l pl w))
      | NmGoHome1 \<Rightarrow> (let pl = pl\<lparr>pl_rapidMotion := True\<rparr> in (Inr (l, pl), exec_go_home env l pl w))
      | NmSetHome0 \<Rightarrow> (Inr (l, pl), gc_ngc_changed CI_G28 (coords_set CI_G28 (gs_position (gw_gc w)) w))
      | NmSetHome1 \<Rightarrow> (Inr (l, pl), gc_ngc_changed CI_G30 (coords_set CI_G30 (gs_position (gw_gc w)) w))
      | NmSetCoordinateOffset \<Rightarrow> (Inr (l, pl), set_coord_offset env (v_xyz (l_values l)) w)
      | NmResetCoordinateOffset \<Rightarrow>
          (Inr (l, pl), gc_wco_changed (gc_ngc_changed CI_G92
             (set_gc (\<lambda>gc. gc\<lparr>gs_coord_offset := zero_axes\<rparr>) w)))
      | _ \<Rightarrow> (Inr (l, pl), w))"

subsection \<open>Motion\<close>

text \<open>Feed moves are diverted to the discharge control while its spindle is on.\<close>

definition edm_cut :: "gc_env \<Rightarrow> gc_world \<Rightarrow> bool" where
  "edm_cut env w \<longleftrightarrow> ge_spindle_rate_adjusted env (gw_spindle w)
     \<and> m_spindle (gs_modal (gw_gc w)) = SpCw \<and> ge_spindle_is_edm env (gw_spindle w)"

definition program_motion :: "gc_env \<Rightarrow> gc_locals \<Rightarrow> plan_line \<Rightarrow> gc_world \<Rightarrow> gc_action" where
  "program_motion env l pl w =
     (let vs = l_values l; position = gs_position (gw_gc w); mo = m_motion (l_modal l);
          rotations = trunc (v_p vs)
      in if mo = MoLinear then
           if edm_cut env w then AcCut (v_xyz vs) pl position else AcLinear (v_xyz vs) pl position
         else if mo = MoSeek then AcLinear (v_xyz vs) (pl\<lparr>pl_rapidMotion := True\<rparr>) position
         else if edm_cut env w
         then AcCutArc (v_xyz vs) pl position (v_ijk vs) (v_r vs) (gl_axis_0 l) (gl_axis_1 l)
                (gl_clockwiseArc l) rotations
         else AcArc (v_xyz vs) pl position (v_ijk vs) (v_r vs) (gl_axis_0 l) (gl_axis_1 l)
                (gl_axis_linear l) (gl_clockwiseArc l) rotations)"

text \<open>
  \<open>mc_probe_cycle\<close> (\<^verbatim>\<open>MotionControl.cpp\<close>). The target is not changed by it. With an offset,
  the contact defines the active coordinate system along the first axis of the block.
\<close>

fun first_axis :: "gc_env \<Rightarrow> u32 \<Rightarrow> nat list \<Rightarrow> nat option" where
  "first_axis env axes [] = None"
| "first_axis env axes (axis # rest) = (if bit axes axis then Some axis else first_axis env axes rest)"

definition apply_probe_offset :: "gc_env \<Rightarrow> u32 \<Rightarrow> real \<Rightarrow> real list \<Rightarrow> gc_world \<Rightarrow> gc_world" where
  "apply_probe_offset env offsetAxis offset contact w =
     (let c = m_coord_select (gs_modal (gw_gc w)); data = gw_coords w c;
          data = (case first_axis env offsetAxis [0..<ge_n_axis env] of
                    Some axis \<Rightarrow> data[axis := fsub (contact ! axis) offset]
                  | None \<Rightarrow> data);
          w = coords_set c data w
      in set_gc (\<lambda>gc. gc\<lparr>gs_coord_system := copy_axes env (gs_coord_system gc) data\<rparr>) w)"

definition mc_probe_cycle ::
    "gc_env \<Rightarrow> real list \<Rightarrow> plan_line \<Rightarrow> bool \<Rightarrow> bool \<Rightarrow> u32 \<Rightarrow> real \<Rightarrow> gc_world \<Rightarrow> gc_update_pos \<times> gc_world" where
  "mc_probe_cycle env target pl away no_error offsetAxis offset w =
     (if \<not> ge_probe_exists env then (UpdNone, w)
      else if ge_check_mode env then
        (if ge_probe_check_mode_start env then UpdNone else UpdTarget, w)
      else
        let w = gc_emit AcSynchronize w
        in if ge_probe_outcome env = ProbeAborted then (UpdNone, w)
           else
             let w = gc_emit (AcProbeDirection away) w
             in if ge_probe_outcome env = ProbeTripped then (UpdNone, gc_emit (AcAlarmRaised 4) w)
                else
                  let w = gc_emit AcCycleStart (gc_emit (AcLinear target pl (gs_position (gw_gc w))) w)
                  in case ge_probe_outcome env of
                       ProbeContact contact \<Rightarrow>
                         (let w = gc_emit AcPlannerReset w
                          in (UpdSystem,
                              if offset \<noteq> FLT_MAX then apply_probe_offset env offsetAxis offset contact w else w))
                     | ProbeNoContact \<Rightarrow>
                         (UpdTarget, gc_emit AcPlannerReset (if no_error then w else gc_emit (AcAlarmRaised 5) w))
                     | _ \<Rightarrow> (UpdNone, w))"

definition run_motion :: "gc_env \<Rightarrow> gc_locals \<Rightarrow> plan_line \<Rightarrow> gc_world \<Rightarrow> gc_update_pos \<times> gc_world" where
  "run_motion env l pl w =
     (let vs = l_values l; mo = m_motion (l_modal l)
      in if mo = MoLinear \<or> mo = MoSeek \<or> mo = MoCwArc \<or> mo = MoCcwArc
         then (UpdTarget, gc_emit (program_motion env l pl w) w)
         else mc_probe_cycle env (v_xyz vs) (pl\<lparr>pl_noFeedOverride := True\<rparr>) (gl_probeAway l)
                (gl_probeNoError l) (gl_axis_words l) (v_p vs) w)"

definition exec_motion :: "gc_env \<Rightarrow> exec" where
  "exec_motion env l pl w =
     (let mo = m_motion (l_modal l);
          w = set_mode (\<lambda>m. m\<lparr>m_motion := mo\<rparr>) w
      in if mo \<noteq> MoNone \<and> gl_axis_command l = AcMotionMode then
           let (upd, w) = run_motion env l pl w
           in if ge_abort env then (Inl EReset, w)
              else (Inr (l, pl),
                    case upd of UpdTarget \<Rightarrow> set_position env (v_xyz (l_values l)) w
                              | UpdSystem \<Rightarrow> gc_sync_position env w
                              | UpdNone \<Rightarrow> w)
         else (Inr (l, pl), w))"

subsection \<open>Program flow\<close>

definition program_end_modes :: "gc_env \<Rightarrow> gc_modal \<Rightarrow> gc_modal" where
  "program_end_modes env m =
     (let m = m\<lparr>m_motion := MoLinear, m_plane_select := PlaneXY, m_distance := DistanceAbsolute,
                m_feed_rate := UnitsPerMin, m_coord_select := CI_G54, m_spindle := SpDisable,
                m_coolant := \<lparr>co_mist = False, co_flood = False\<rparr>\<rparr>
      in if ge_parking_override env
         then m\<lparr>m_override := (if ge_deactivate_parking env then OvDisabled else OvParkingMotion)\<rparr>
         else m)"

definition end_job :: "gc_world \<Rightarrow> gc_world" where
  "end_job w = (case gw_jobs w of [] \<Rightarrow> w | j # js \<Rightarrow> w\<lparr>gw_jobs := j\<lparr>js_ended := True\<rparr> # js\<rparr>)"

definition program_end :: "gc_env \<Rightarrow> gc_world \<Rightarrow> gc_world" where
  "program_end env w =
     (let w = gc_emit AcResetOverrides (set_mode (program_end_modes env) (end_job (gc_emit AcSynchronize w)));
          w = (if \<not> ge_check_mode env then
                 gc_ovr_changed (gc_emit AcCoolantOff (gc_emit AcSpinDown (gc_wco_changed
                   (set_gc (\<lambda>gc. gc\<lparr>gs_coord_system := gw_coords w (m_coord_select (gs_modal gc))\<rparr>) w))))
               else w)
      in gc_emit AcProgramEnd w)"

definition exec_flow :: "gc_env \<Rightarrow> exec" where
  "exec_flow env l pl w =
     (Inr (l, pl),
      set_mode (\<lambda>m. m\<lparr>m_program_flow := PfRunning\<rparr>)
        (case m_program_flow (l_modal l) of
           PfPaused \<Rightarrow>
             let w = gc_emit AcSynchronize w in if \<not> ge_check_mode env then gc_emit AcFeedHold w else w
         | PfCompletedM2 \<Rightarrow> program_end env w
         | PfCompletedM30 \<Rightarrow> program_end env w
         | _ \<Rightarrow> w))"

subsection \<open>The whole step\<close>

definition exec_sections :: "gc_env \<Rightarrow> exec" where
  "exec_sections env =
     then_exec (exec_laser env)
    (then_exec exec_feed
    (then_exec (exec_speed env)
    (then_exec (exec_tool_change env)
    (then_exec (exec_set_tool env)
    (then_exec (exec_spindle env)
    (then_exec (exec_coolant env)
    (then_exec (exec_digital env)
    (then_exec (exec_analog env)
    (then_exec (exec_wait env)
    (then_exec (exec_override env)
    (then_exec exec_dwell
    (then_exec exec_plane_units
    (then_exec (exec_tool_length env)
    (then_exec (exec_coord_select env)
    (then_exec exec_distance
    (then_exec (exec_non_modal env)
    (then_exec (exec_motion env) (exec_flow env))))))))))))))))))"

definition finish_line :: "gc_env \<Rightarrow> gc_world \<Rightarrow> gc_error \<times> gc_world" where
  "finish_line env w =
     (let (ok, w) = perform_assignments env w in (if ok then EOk else EParameterAssignmentFailed, w))"

definition exec_block :: "gc_env \<Rightarrow> gc_locals \<Rightarrow> gc_world \<Rightarrow> gc_error \<times> gc_world" where
  "exec_block env l w =
     (if gl_jogMotion l then exec_jog env l w
      else case exec_sections env l plan_line_zero w of
             (Inl e, w) \<Rightarrow> (e, w)
           | (Inr _, w) \<Rightarrow> finish_line env w)"

subsection \<open>A line\<close>

text \<open>After \<^verbatim>\<open>$J=\<close> the words of a jog follow; the callers pass no other line with a dollar.\<close>

definition gc_execute_line :: "gc_env \<Rightarrow> string \<Rightarrow> gc_world \<Rightarrow> flow_result" where
  "gc_execute_line env input_line w =
     (if 127 < length input_line then Some (ELineLengthExceeded, w)
      else
        let (line, w) = collapseGCode input_line w;
            jog = (line \<noteq> [] \<and> hd line = CHR ''$'')
        in case parse_words env (if jog then drop 3 line else line) (start_locals env jog w) w of
             Inl returned \<Rightarrow> returned
           | Inr (l, w) \<Rightarrow>
               (case check_block env l w of
                  (Inl e, w) \<Rightarrow> Some (e, w)
                | (Inr l, w) \<Rightarrow> Some (exec_block env l w)))"

text \<open>\<open>gc_init\<close>: the state is cleared; parameters, coordinates and jobs stay.\<close>

definition gc_init :: "gc_env \<Rightarrow> gc_world \<Rightarrow> gc_world" where
  "gc_init env w =
     flowcontrol_init (w\<lparr>gw_gc :=
       \<lparr>gs_modal = modal_defaults\<lparr>m_override := (if ge_deactivate_parking env then OvDisabled else OvParkingMotion)\<rparr>,
        gs_spindle_speed = 0, gs_feed_rate = 0, gs_selected_tool = 0, gs_current_tool = - 1,
        gs_line_number = 0, gs_position = zero_axes, gs_coord_system = gw_coords w CI_G54,
        gs_coord_offset = zero_axes, gs_tool_length_offset = zero_axes, gs_skip_blocks = False\<rparr>\<rparr>)"

end
