(* ===== verification/GcodeBehaviour.thy ===== *)
theory GcodeBehaviour
  imports GcodeExec
begin

text \<open>
  What a line of G-code leaves alone (\<^verbatim>\<open>GCode.cpp\<close>): the part of the world that only the
  execution of a checked block may change, the statuses that can come from the execution,
  and the lines that are skipped.
\<close>

subsection \<open>The machine part of the world\<close>

definition settled :: "parser_state \<Rightarrow> parser_state" where
  "settled gc = gc\<lparr>gs_selected_tool := 0, gs_skip_blocks := False\<rparr>"

text \<open>An output moves or switches something, unless it is a report, an alarm or progress.\<close>

definition physical :: "gc_action \<Rightarrow> bool" where
  "physical a = (case a of AcNgcChanged _ \<Rightarrow> False | AcAlarmRaised _ \<Rightarrow> False | AcJobPercent \<Rightarrow> False
     | _ \<Rightarrow> True)"

lemma physical_simps [simp]:
  "\<not> physical (AcNgcChanged c)" "\<not> physical (AcAlarmRaised n)" "\<not> physical AcJobPercent"
  by (simp_all add: physical_def)

type_synonym machine = "parser_state \<times> (u16 \<Rightarrow> real list) \<times> (u32 \<rightharpoonup> real) \<times> (string \<rightharpoonup> real) \<times> nat
  \<times> gc_action list"

definition machine_of :: "gc_world \<Rightarrow> machine" where
  "machine_of w = (settled (gw_gc w), gw_coords w, gw_float_params w, gw_named w, gw_spindle w,
     filter physical (gw_out w))"

text \<open>Flow control also leaves the pending assignments alone.\<close>

definition kept_of :: "gc_world \<Rightarrow> machine \<times> (param_ref \<times> real) list" where
  "kept_of w = (machine_of w, gw_assignments w)"

lemma machine_emit [simp]: "\<not> physical a \<Longrightarrow> kept_of (gc_emit a w) = kept_of w"
  by (simp add: kept_of_def machine_of_def gc_emit_def)

lemma machine_ngc_changed [simp]: "kept_of (gc_ngc_changed c w) = kept_of w"
  by (simp add: gc_ngc_changed_def)

lemma machine_context [simp]: "kept_of (w\<lparr>gw_context := c\<rparr>) = kept_of w"
  by (simp add: kept_of_def machine_of_def)

lemma machine_jobs [simp]: "kept_of (w\<lparr>gw_jobs := c\<rparr>) = kept_of w"
  by (simp add: kept_of_def machine_of_def)

lemma machine_skip [simp]: "kept_of (set_skip b w) = kept_of w"
  by (simp add: kept_of_def machine_of_def set_skip_def settled_def)

lemma machine_tool [simp]:
  "kept_of (w\<lparr>gw_gc := (gw_gc w)\<lparr>gs_selected_tool := t\<rparr>\<rparr>) = kept_of w"
  by (simp add: kept_of_def machine_of_def settled_def)

lemma machine_top [simp]: "kept_of (set_top f w) = kept_of w"
  by (simp add: set_top_def)

lemma machine_push [simp]: "kept_of (stack_push l op s w) = kept_of w"
  by (simp add: stack_push_def)

lemma machine_pull [simp]: "kept_of (stack_pull w) = kept_of w"
  by (simp add: stack_pull_def)

lemma machine_init [simp]: "kept_of (flowcontrol_init w) = kept_of w"
  by (simp add: flowcontrol_init_def)

lemma machine_update_job [simp]: "kept_of (update_job j f w) = kept_of w"
  by (simp add: update_job_def)

lemma machine_mark_place: "mark_place w = Some w' \<Longrightarrow> kept_of w' = kept_of w"
  by (auto simp: mark_place_def split: option.splits)

lemma machine_go_back: "go_back w = Some w' \<Longrightarrow> kept_of w' = kept_of w"
  by (auto simp: go_back_def Let_def split: option.splits)

lemma machine_go_position: "go_position w = Some w' \<Longrightarrow> kept_of w' = kept_of w"
  by (auto simp: go_position_def Let_def split: option.splits)

lemmas machine_jumps = machine_mark_place machine_go_back machine_go_position

subsection \<open>Flow control keeps it\<close>

lemma machine_next_round: "next_round w = Some (e, w') \<Longrightarrow> kept_of w' = kept_of w"
  by (auto simp: next_round_def Let_def split: if_splits dest!: machine_jumps)

lemma machine_continue_while: "continue_while env w = Some (e, w') \<Longrightarrow> kept_of w' = kept_of w"
  by (auto simp: continue_while_def Let_def split: if_splits sum.splits prod.splits dest!: machine_jumps)

lemma machine_no_loop: "no_loop w = Some (e, w') \<Longrightarrow> w' = w"
  by (simp add: no_loop_def)

lemma machine_if: "flow_if env l t w = Some (e, w') \<Longrightarrow> kept_of w' = kept_of w"
  by (auto simp: flow_if_def split: if_splits sum.splits)

lemma machine_elseif: "flow_elseif env l t w = Some (e, w') \<Longrightarrow> kept_of w' = kept_of w"
  by (auto simp: flow_elseif_def Let_def split: if_splits sum.splits dest!: machine_no_loop)

lemma machine_else: "flow_else l w = Some (e, w') \<Longrightarrow> kept_of w' = kept_of w"
  by (auto simp: flow_else_def Let_def split: if_splits dest!: machine_no_loop)

lemma machine_endif: "flow_endif l w = Some (e, w') \<Longrightarrow> kept_of w' = kept_of w"
  by (auto simp: flow_endif_def split: if_splits dest!: machine_no_loop)

lemma machine_do: "flow_do l w = Some (e, w') \<Longrightarrow> kept_of w' = kept_of w"
  by (auto simp: flow_do_def split: if_splits dest!: machine_jumps)

lemma machine_while: "flow_while env l t w = Some (e, w') \<Longrightarrow> kept_of w' = kept_of w"
  by (auto simp: flow_while_def Let_def split: if_splits sum.splits dest!: machine_jumps)

lemma machine_endwhile: "flow_endwhile env l w = Some (e, w') \<Longrightarrow> kept_of w' = kept_of w"
  by (auto simp: flow_endwhile_def Let_def split: if_splits sum.splits dest!: machine_jumps machine_no_loop)

lemma machine_repeat: "flow_repeat env l t w = Some (e, w') \<Longrightarrow> kept_of w' = kept_of w"
  by (auto simp: flow_repeat_def Let_def split: if_splits sum.splits dest!: machine_jumps)

lemma machine_endrepeat: "flow_endrepeat l w = Some (e, w') \<Longrightarrow> kept_of w' = kept_of w"
  by (auto simp: flow_endrepeat_def split: if_splits dest!: machine_next_round machine_no_loop)

lemma machine_break: "flow_break l w = Some (e, w') \<Longrightarrow> kept_of w' = kept_of w"
  by (auto simp: flow_break_def Let_def split: if_splits option.splits)

lemma machine_continue: "flow_continue env l w = Some (e, w') \<Longrightarrow> kept_of w' = kept_of w"
  by (auto simp: flow_continue_def Let_def split: if_splits option.splits ngc_cmd.splits
      dest!: machine_next_round machine_continue_while machine_jumps)

lemma machine_alarm: "flow_alarm env t w = Some (e, w') \<Longrightarrow> kept_of w' = kept_of w"
  by (auto simp: flow_alarm_def split: if_splits sum.splits)

lemma machine_error: "flow_error env t w = Some (e, w') \<Longrightarrow> kept_of w' = kept_of w"
  by (auto simp: flow_error_def split: if_splits sum.splits)

lemma machine_flow_command:
  "flow_command env l op t w = Some (e, w') \<Longrightarrow> kept_of w' = kept_of w"
  by (cases op)
    (auto simp: flow_command_def dest!: machine_if machine_elseif machine_else machine_endif
      machine_do machine_while machine_endwhile machine_repeat machine_endrepeat machine_break
      machine_continue machine_alarm machine_error)

lemma machine_flowcontrol:
  "flowcontrol env l t w = Some (e, w') \<Longrightarrow> kept_of w' = kept_of w"
  by (auto simp: flowcontrol_def split: sum.splits option.splits if_splits dest!: machine_flow_command)


subsection \<open>Reading the words keeps it\<close>

text \<open>The world after reading or checking: only assignments were added to what is kept.\<close>

definition only_assigns :: "gc_world \<Rightarrow> gc_world \<Rightarrow> bool" where
  "only_assigns w w' \<longleftrightarrow>
     machine_of w' = machine_of w \<and> (\<exists>as. gw_assignments w' = gw_assignments w @ as)"

lemma only_assigns_refl [simp]: "only_assigns w w"
  by (simp add: only_assigns_def)

lemma only_assigns_trans: "only_assigns w1 w2 \<Longrightarrow> only_assigns w2 w3 \<Longrightarrow> only_assigns w1 w3"
  by (auto simp: only_assigns_def)

lemma only_assigns_kept: "kept_of w' = kept_of w \<Longrightarrow> only_assigns w w'"
  by (simp add: only_assigns_def kept_of_def)

lemma collapse_kept: "collapseGCode line w = (out, w') \<Longrightarrow> kept_of w' = kept_of w"
  by (auto simp: collapseGCode_def split: prod.splits if_splits)

lemma assign_param_only: "assign_param env line w = Some (rest, w') \<Longrightarrow> only_assigns w w'"
  by (auto simp: assign_param_def only_assigns_def machine_of_def split: option.splits if_splits)

lemma value_word_kept:
  "value_word env letter v i m l w = Inr (wd, l', w') \<Longrightarrow> kept_of w' = kept_of w"
  by (auto simp: value_word_def split: option.splits if_splits)

lemma parse_word_kept: "parse_word env letter v l w = (r, w') \<Longrightarrow> kept_of w' = kept_of w"
  by (auto simp: parse_word_def Let_def split: if_splits sum.splits prod.splits dest!: value_word_kept)

text \<open>What a call of \<open>parse_words\<close> left, as a predicate of its result.\<close>

fun result_only :: "gc_world \<Rightarrow> flow_result + gc_locals \<times> gc_world \<Rightarrow> bool" where
  "result_only w (Inl None) = True"
| "result_only w (Inl (Some (e, w'))) = only_assigns w w'"
| "result_only w (Inr (l, w')) = only_assigns w w'"

lemma result_only_trans: "only_assigns w w1 \<Longrightarrow> result_only w1 r \<Longrightarrow> result_only w r"
  by (induction w r rule: result_only.induct) (auto intro: only_assigns_trans)

lemma flowcontrol_only: "result_only w (Inl (flowcontrol env l t w))"
proof (cases "flowcontrol env l t w")
  case (Some r)
  then show ?thesis by (cases r) (auto dest!: machine_flowcontrol only_assigns_kept)
qed simp

lemma parse_words_only: "result_only w (parse_words env line l w)"
proof (induction env line l w rule: parse_words.induct)
  case (1 env l w)
  show ?case by simp
next
  case (2 env letter line l w)
  show ?case
  proof (cases "letter = CHR ''#''")
    case True
    show ?thesis
    proof (cases "gs_skip_blocks (gw_gc w) \<or> assign_param env line w = None")
      case True
      with \<open>letter = _\<close> show ?thesis by (auto simp: parse_words.simps(2))
    next
      case False
      then obtain rest w1 where a: "assign_param env line w = Some (rest, w1)"
        and s: "\<not> gs_skip_blocks (gw_gc w)" by auto
      have "result_only w1 (parse_words env rest l w1)" using 2(1) True a s by simp
      then have "result_only w (parse_words env rest l w1)"
        by (rule result_only_trans [OF assign_param_only [OF a]])
      with True a s show ?thesis by (simp add: parse_words.simps(2))
    qed
  next
    case letter: False
    show ?thesis
    proof (cases "has_word l WordO \<or> (of_char letter :: nat) < 65 \<or> 90 < (of_char letter :: nat)
        \<or> world_number env w line = None")
      case True
      with letter show ?thesis using flowcontrol_only by (auto simp: parse_words.simps(2))
    next
      case False
      then obtain v rest where n: "world_number env w line = Some (v, rest)" by auto
      obtain r w1 where p: "parse_word env letter v l w = (r, w1)" by fastforce
      have only: "only_assigns w w1" using parse_word_kept [OF p] by (rule only_assigns_kept)
      show ?thesis
      proof (cases "gs_skip_blocks (gw_gc w) \<and> letter \<noteq> CHR ''O''")
        case True
        with letter False n show ?thesis by (simp add: parse_words.simps(2))
      next
        case no_skip: False
        show ?thesis
        proof (cases r)
          case (Inl e)
          with letter False n p no_skip only show ?thesis by (simp add: parse_words.simps(2))
        next
          case (Inr l')
          have "result_only w1 (parse_words env rest l' w1)"
            using 2(2) letter False n p no_skip Inr by simp
          then have "result_only w (parse_words env rest l' w1)" by (rule result_only_trans [OF only])
          with letter False n p no_skip Inr show ?thesis by (simp add: parse_words.simps(2))
        qed
      qed
    qed
  qed
qed

subsection \<open>The checks keep it\<close>

lemma then_check_kept:
  assumes "then_check f g l w = (r, w')"
    and "\<And>r l w w'. f l w = (r, w') \<Longrightarrow> kept_of w' = kept_of w"
    and "\<And>r l w w'. g l w = (r, w') \<Longrightarrow> kept_of w' = kept_of w"
  shows "kept_of w' = kept_of w"
  using assms(1) by (auto simp: then_check_def split: prod.splits sum.splits dest!: assms(2,3))

lemma pure_check_kept: "pure_check f l w = (r, w') \<Longrightarrow> kept_of w' = kept_of w"
  by (simp add: pure_check_def)

lemma announce_kept: "announce_tool_length l w = (r, w') \<Longrightarrow> kept_of w' = kept_of w"
  by (auto simp: announce_tool_length_def Let_def)

lemma select_coords_kept: "select_coords l w = (r, w') \<Longrightarrow> kept_of w' = kept_of w"
  by (auto simp: select_coords_def Let_def)

lemma check_non_modal_kept: "check_non_modal env l w = (r, w') \<Longrightarrow> kept_of w' = kept_of w"
  by (auto simp: check_non_modal_def check_set_coords_def check_set_offset_def Let_def
      split: non_modal.splits if_splits)

lemma check_block_kept: "check_block env l w = (r, w') \<Longrightarrow> kept_of w' = kept_of w"
  unfolding check_block_def
  by (erule then_check_kept pure_check_kept announce_kept select_coords_kept check_non_modal_kept)+

subsection \<open>The statuses of the execution\<close>

definition execution_errors :: "gc_error set" where
  "execution_errors = {ENegativeValue, EPParamMaxExceeded, EReset}"

lemma then_exec_errors:
  assumes "then_exec f g l pl w = (Inl e, w')"
    and "\<And>l pl w w'. f l pl w = (Inl e, w') \<Longrightarrow> e \<in> execution_errors"
    and "\<And>l pl w w'. g l pl w = (Inl e, w') \<Longrightarrow> e \<in> execution_errors"
  shows "e \<in> execution_errors"
  using assms(1) by (auto simp: then_exec_def split: prod.splits sum.splits dest!: assms(2,3))

lemma section_errors:
  "exec_laser env l pl w = (Inl e, w') \<Longrightarrow> e \<in> execution_errors"
  "exec_feed l pl w = (Inl e, w') \<Longrightarrow> e \<in> execution_errors"
  "exec_speed env l pl w = (Inl e, w') \<Longrightarrow> e \<in> execution_errors"
  "exec_tool_change env l pl w = (Inl e, w') \<Longrightarrow> e \<in> execution_errors"
  "exec_set_tool env l pl w = (Inl e, w') \<Longrightarrow> e \<in> execution_errors"
  "exec_spindle env l pl w = (Inl e, w') \<Longrightarrow> e \<in> execution_errors"
  "exec_coolant env l pl w = (Inl e, w') \<Longrightarrow> e \<in> execution_errors"
  "exec_digital env l pl w = (Inl e, w') \<Longrightarrow> e \<in> execution_errors"
  "exec_analog env l pl w = (Inl e, w') \<Longrightarrow> e \<in> execution_errors"
  "exec_wait env l pl w = (Inl e, w') \<Longrightarrow> e \<in> execution_errors"
  "exec_override env l pl w = (Inl e, w') \<Longrightarrow> e \<in> execution_errors"
  "exec_dwell l pl w = (Inl e, w') \<Longrightarrow> e \<in> execution_errors"
  "exec_plane_units l pl w = (Inl e, w') \<Longrightarrow> e \<in> execution_errors"
  "exec_tool_length env l pl w = (Inl e, w') \<Longrightarrow> e \<in> execution_errors"
  "exec_coord_select env l pl w = (Inl e, w') \<Longrightarrow> e \<in> execution_errors"
  "exec_distance l pl w = (Inl e, w') \<Longrightarrow> e \<in> execution_errors"
  "exec_non_modal env l pl w = (Inl e, w') \<Longrightarrow> e \<in> execution_errors"
  "exec_motion env l pl w = (Inl e, w') \<Longrightarrow> e \<in> execution_errors"
  "exec_flow env l pl w = (Inl e, w') \<Longrightarrow> e \<in> execution_errors"
  by (auto simp: exec_laser_def exec_feed_def exec_speed_def exec_tool_change_def exec_set_tool_def
      exec_spindle_def exec_coolant_def exec_digital_def exec_analog_def exec_wait_def
      exec_override_def exec_dwell_def exec_plane_units_def exec_tool_length_def
      exec_coord_select_def exec_distance_def exec_non_modal_def exec_motion_def exec_flow_def
      Let_def execution_errors_def split: if_splits prod.splits option.splits non_modal.splits)

lemma exec_sections_errors: "exec_sections env l pl w = (Inl e, w') \<Longrightarrow> e \<in> execution_errors"
  unfolding exec_sections_def by (erule then_exec_errors section_errors)+

lemma exec_jog_status:
  "exec_jog env l w = (e, w') \<Longrightarrow> e = EOk \<or> (e = EInvalidJogCommand \<and> w' = w)"
  by (auto simp: exec_jog_def jog_execute_def Let_def split: if_splits prod.splits)

lemma exec_block_status:
  assumes "exec_block env l w = (e, w')"
  shows "e = EOk \<or> e = EParameterAssignmentFailed \<or> e \<in> execution_errors
    \<or> (e = EInvalidJogCommand \<and> w' = w)"
proof (cases "gl_jogMotion l")
  case True
  with assms exec_jog_status [of env l w e w'] show ?thesis by (auto simp: exec_block_def)
next
  case False
  obtain r w1 where r: "exec_sections env l plan_line_zero w = (r, w1)" by fastforce
  show ?thesis
  proof (cases r)
    case (Inl e1)
    with r False assms exec_sections_errors show ?thesis by (auto simp: exec_block_def)
  next
    case (Inr x)
    with r False assms show ?thesis
      by (auto simp: exec_block_def finish_line_def split: prod.splits if_splits)
  qed
qed

subsection \<open>Rejected and skipped lines\<close>

lemma execute_line_cases:
  assumes "gc_execute_line env input w = Some (e, w')"
  obtains (long) "127 < length input" "e = ELineLengthExceeded" "w' = w"
  | (returned) line w1 l where "collapseGCode input w = (line, w1)"
      "parse_words env line l w1 = Inl (Some (e, w'))"
  | (jog) line w1 l where "collapseGCode input w = (line, w1)"
      "parse_words env (drop 3 line) l w1 = Inl (Some (e, w'))"
  | (block) w1 line l1 w2 r w3 where "collapseGCode input w = (line, w1)"
      "result_only w1 (Inr (l1, w2))" "check_block env l1 w2 = (r, w3)"
      "(\<exists>l2. r = Inr l2 \<and> exec_block env l2 w3 = (e, w')) \<or> (r = Inl e \<and> w' = w3)"
proof (cases "127 < length input")
  case True
  with assms that(1) show ?thesis by (simp add: gc_execute_line_def)
next
  case False
  obtain line w1 where c: "collapseGCode input w = (line, w1)" by fastforce
  define jog where "jog = (line \<noteq> [] \<and> hd line = CHR ''$'')"
  define rest where "rest = (if jog then drop 3 line else line)"
  define l where "l = start_locals env jog w1"
  have run: "(case parse_words env rest l w1 of
       Inl returned \<Rightarrow> returned
     | Inr (l, w) \<Rightarrow> (case check_block env l w of (Inl e, w) \<Rightarrow> Some (e, w)
                     | (Inr l, w) \<Rightarrow> Some (exec_block env l w))) = Some (e, w')"
    using assms False by (simp add: gc_execute_line_def c Let_def jog_def rest_def l_def)
  show ?thesis
  proof (cases "parse_words env rest l w1")
    case (Inl a)
    with run that(2) [OF c] that(3) [OF c] show ?thesis by (auto simp: rest_def split: if_splits)
  next
    case (Inr b)
    obtain l1 w2 where b: "b = (l1, w2)" by (cases b)
    obtain r w3 where r: "check_block env l1 w2 = (r, w3)" by fastforce
    have "result_only w1 (Inr (l1, w2))"
      using parse_words_only [of w1 env rest l] Inr b by simp
    with run Inr b r that(4) [OF c _ r] show ?thesis by (cases r) auto
  qed
qed

definition not_executed :: "gc_error \<Rightarrow> bool" where
  "not_executed e \<longleftrightarrow>
     e \<notin> {EOk, ENegativeValue, EPParamMaxExceeded, EReset, EParameterAssignmentFailed}"

lemma rejected_only_assigns:
  assumes "gc_execute_line env input w = Some (e, w')" and "not_executed e"
  shows "only_assigns w w'"
  using assms(1)
proof (cases rule: execute_line_cases)
  case long
  then show ?thesis by simp
next
  case (returned line w1 l)
  have "only_assigns w1 w'" using parse_words_only [of w1 env line l] returned by simp
  with collapse_kept [OF returned(1)] show ?thesis by (auto intro: only_assigns_trans only_assigns_kept)
next
  case (jog line w1 l)
  have "only_assigns w1 w'" using parse_words_only [of w1 env "drop 3 line" l] jog by simp
  with collapse_kept [OF jog(1)] show ?thesis by (auto intro: only_assigns_trans only_assigns_kept)
next
  case (block w1 line l1 w2 r w3)
  have w': "w' = w3"
    using block(4) exec_block_status [of env _ w3 e w'] assms(2)
    by (auto simp: not_executed_def execution_errors_def)
  have "only_assigns w w1" using collapse_kept [OF block(1)] by (rule only_assigns_kept)
  moreover have "only_assigns w1 w2" using block(2) by simp
  moreover have "only_assigns w2 w3" using check_block_kept [OF block(3)] by (rule only_assigns_kept)
  ultimately show ?thesis unfolding w' by (blast intro: only_assigns_trans)
qed

text \<open>A skipped line that is not an O-word leaves everything as it is.\<close>

lemma collapse_nonempty: "collapseGCode input w = (c # cs, w') \<Longrightarrow> w' = w"
  by (auto simp: collapseGCode_def split: prod.splits if_splits)

lemma skipped_words:
  assumes "gs_skip_blocks (gw_gc w)" "c \<noteq> CHR ''O''" "\<not> has_word l WordO"
  shows "\<exists>e \<in> {EOk, EBadNumberFormat, EExpectedCommandLetter}.
    parse_words env (c # cs) l w = Inl (Some (e, w))"
proof (cases "c = CHR ''#'' \<or> (of_char c :: nat) < 65 \<or> 90 < (of_char c :: nat) \<or> world_number env w cs = None")
  case True
  with assms show ?thesis by (elim disjE) (simp_all add: parse_words.simps(2))
next
  case False
  then obtain v rest where "world_number env w cs = Some (v, rest)" by auto
  with False assms show ?thesis by (simp add: parse_words.simps(2))
qed

lemma start_no_word: "\<not> has_word (start_locals env jog w) WordO"
  by (simp add: start_locals_def locals_defs Let_def)

lemma skipped_line:
  assumes "gs_skip_blocks (gw_gc w)" "length input \<le> 127"
    and "collapseGCode input w = (c # cs, w1)" "c \<noteq> CHR ''O''" "c \<noteq> CHR ''$''"
  shows "\<exists>e \<in> {EOk, EBadNumberFormat, EExpectedCommandLetter}.
    gc_execute_line env input w = Some (e, w)"
proof -
  have w1: "w1 = w" using assms(3) by (rule collapse_nonempty)
  obtain e where e: "e \<in> {EOk, EBadNumberFormat, EExpectedCommandLetter}"
    and p: "parse_words env (c # cs) (start_locals env False w) w = Inl (Some (e, w))"
    by (rule bexE [OF skipped_words [OF assms(1,4) start_no_word]])
  have "gc_execute_line env input w = Some (e, w)"
    using assms(2,3,5) p by (simp add: gc_execute_line_def w1)
  with e show ?thesis by (rule bexI [rotated])
qed

end
