(* ===== verification/NgcLetters.thy ===== *)
theory NgcLetters
  imports NgcExpression
begin

text \<open>
  The text that a reader of \<^verbatim>\<open>Expression.cpp\<close> and \<^verbatim>\<open>Parameters.cpp\<close> leaves has only characters of
  the text it was given. So a line without a given character never comes to it.
\<close>

definition stays_in :: "char set \<Rightarrow> ('e, 'a) reading \<Rightarrow> bool" where
  "stays_in S m \<longleftrightarrow> (\<forall>v rest. m = Some (Inr (v, rest)) \<longrightarrow> set rest \<subseteq> S)"

lemma within_simps [simp]:
  "stays_in S None" "stays_in S (Some (Inl e))" "stays_in S (Some (Inr (v, rest))) \<longleftrightarrow> set rest \<subseteq> S"
  "stays_in S (or_error e m) \<longleftrightarrow> stays_in S m"
  by (auto simp: stays_in_def)

lemma within_bind:
  "stays_in S m \<Longrightarrow> (\<And>v rest. set rest \<subseteq> S \<Longrightarrow> stays_in S (f v rest)) \<Longrightarrow> stays_in S (bind_reading m f)"
  by (fastforce simp: stays_in_def bind_reading_Inr)

lemma within_bind_error:
  "stays_in S m \<Longrightarrow> (\<And>v rest. set rest \<subseteq> S \<Longrightarrow> stays_in S (f v rest))
     \<Longrightarrow> stays_in S (bind_reading (or_error e m) f)"
  by (rule within_bind) simp_all

lemma set_tl: "set (tl xs) \<subseteq> set xs"
  by (cases xs) auto

lemma set_tl_within: "set xs \<subseteq> S \<Longrightarrow> set (tl xs) \<subseteq> S"
  by (rule subset_trans [OF set_tl])

lemma read_param_name_within: "read_param_name line = Some (name, rest) \<Longrightarrow> set rest \<subseteq> set line"
  by (induction line arbitrary: name) (auto split: if_splits)

lemma read_exists_arg_within: "read_exists_arg line = Some (arg, rest) \<Longrightarrow> set rest \<subseteq> set line"
  by (induction line arbitrary: arg) (auto split: if_splits)

lemma read_digits_within:
  "read_digits intval expo nd isdec line = (i', e', nd', rest) \<Longrightarrow> set rest \<subseteq> set line"
  by (induction intval expo nd isdec line rule: read_digits.induct) (auto simp: Let_def split: if_splits)

lemma read_float_within: "read_float line = Some (v, rest) \<Longrightarrow> set rest \<subseteq> set line"
  using set_tl [of line]
  by (auto simp: read_float_def Let_def split: if_splits prod.splits dest!: read_digits_within)

definition left_of :: "string \<Rightarrow> 'e + 'a \<times> string \<Rightarrow> bool" where
  "left_of line r \<longleftrightarrow> (case r of Inl _ \<Rightarrow> True | Inr (_, rest) \<Rightarrow> set rest \<subseteq> set line)"

lemma left_of_simps [simp]:
  "left_of line (Inl e)" "left_of line (Inr (op, rest)) \<longleftrightarrow> set rest \<subseteq> set line"
  "left_of line (if b then r else r') \<longleftrightarrow> (if b then left_of line r else left_of line r')"
  by (simp_all add: left_of_def)

lemma set_drop_within: "set xs \<subseteq> S \<Longrightarrow> set (drop n xs) \<subseteq> S"
  using set_drop_subset by fastforce

lemma read_operation_within: "read_operation line = Inr (op, rest) \<Longrightarrow> set rest \<subseteq> set line"
proof -
  have "left_of line (read_operation line)"
    by (simp add: read_operation_def Let_def set_tl set_tl_within set_drop_within)
  moreover assume "read_operation line = Inr (op, rest)"
  ultimately show ?thesis by simp
qed

lemma read_operation_unary_within: "read_operation_unary line = Inr (op, rest) \<Longrightarrow> set rest \<subseteq> set line"
proof -
  have "left_of line (read_operation_unary line)"
    by (simp add: read_operation_unary_def Let_def set_tl set_tl_within set_drop_within)
  moreover assume "read_operation_unary line = Inr (op, rest)"
  ultimately show ?thesis by simp
qed

lemma readers_within:
  "set line \<subseteq> S \<Longrightarrow>
     stays_in S (read_number pget pexists n b line)
   \<and> stays_in S (get_param_ref pget pexists n line)
   \<and> stays_in S (read_atan pget pexists n v line)
   \<and> stays_in S (read_unary pget pexists n line)
   \<and> stays_in S (expression pget pexists n line)
   \<and> stays_in S (expression_loop pget pexists n si vals ops line)"
proof (induction n arbitrary: line v b si vals ops)
  case 0
  show ?case by (simp add: reading_defs)
next
  case (Suc n)
  have ih: "stays_in S (read_number pget pexists n b l)" "stays_in S (get_param_ref pget pexists n l)"
    "stays_in S (read_atan pget pexists n v l)" "stays_in S (read_unary pget pexists n l)"
    "stays_in S (expression pget pexists n l)" "stays_in S (expression_loop pget pexists n si vs os l)"
    if "set l \<subseteq> S" for b v l si vs os
    using Suc.IH [OF that, of b v si vs os] by blast+
  note texts = Suc.prems set_tl_within [OF Suc.prems]
  have 1: "stays_in S (read_number pget pexists (Suc n) b line)"
    unfolding reading_defs Let_def
    by (auto intro!: within_bind ih texts split: option.split dest!: read_float_within) (use texts in blast)+
  have 2: "stays_in S (get_param_ref pget pexists (Suc n) line)"
    unfolding reading_defs Let_def
    by (auto intro!: within_bind within_bind_error ih texts split: option.split
        dest!: read_float_within read_param_name_within) (use texts in blast)+
  have 3: "stays_in S (read_atan pget pexists (Suc n) v line)"
    unfolding reading_defs Let_def by (auto intro!: within_bind ih texts)
  have rest: "set l' \<subseteq> S" if "read_operation l = Inr (op, l')" "set l \<subseteq> S" for l l' op
    using read_operation_within [OF that(1)] that(2) by blast
  have name: "set l \<subseteq> S" if "read_operation_unary line = Inr (op, l)" for op l
    using read_operation_unary_within [OF that] Suc.prems by (rule subset_trans)
  have arg: "set r \<subseteq> S" if "read_exists_arg (tl l) = Some (a, r)" "set l \<subseteq> S" for a l r
    using read_exists_arg_within [OF that(1)] set_tl_within [OF that(2)] by (rule subset_trans)
  have 4: "stays_in S (read_unary pget pexists (Suc n) line)"
  proof (cases "read_operation_unary line")
    case (Inr x)
    then obtain op l where x: "read_operation_unary line = Inr (op, l)" by (cases x) auto
    have l: "set l \<subseteq> S" using x by (rule name)
    have run: "stays_in S (bind_reading (expression pget pexists n l) (\<lambda>v line.
        if op = Unary_ATAN then read_atan pget pexists n v line
        else case execute_unary v op of Inl status \<Rightarrow> Some (Inl status) | Inr v \<Rightarrow> Some (Inr (v, line))))"
      by (rule within_bind [OF ih(5) [OF l]]) (simp add: ih(3) split: sum.split)
    have "stays_in S (case read_exists_arg (tl l) of None \<Rightarrow> Some (Inl EExpressionSyntaxError)
        | Some (arg, rest) \<Rightarrow> Some (Inr (float_of_bool (pexists arg), rest)))"
      using arg [OF _ l] by (simp split: option.split)
    with run show ?thesis unfolding reading_defs x sum.case prod.case by simp
  qed (simp add: reading_defs)
  have 5: "stays_in S (expression pget pexists (Suc n) line)"
    unfolding reading_defs
    by (auto intro!: within_bind_error ih texts split: sum.split) (use rest in blast)+
  have 6: "stays_in S (expression_loop pget pexists (Suc n) si vals ops line)"
    unfolding reading_defs Let_def
    by (auto intro!: within_bind_error ih texts split: sum.split) (use rest in blast)+
  from 1 2 3 4 5 6 show ?case by blast
qed

lemma ngc_number_within:
  "ngc_number pget pexists b line = Some (v, rest) \<Longrightarrow> set rest \<subseteq> set line"
  using read_number_fuel [of line "fuel_for line" pget pexists b]
    readers_within [OF order_refl, of line pget pexists "fuel_for line" b 0 0 "[]" "[]"]
  by (auto simp: fuel_for_def stays_in_def)

end
