(* ===== verification/GcodeInvariants.thy ===== *)
theory GcodeInvariants
  imports GcodeBehaviour NgcLetters
begin

text \<open>
  Invariants of the interpreter (\<^verbatim>\<open>GCode.cpp\<close>): every vector over the axes keeps its length,
  so every access by an axis stays inside its array, and the offsets in use are the stored
  ones of the selected coordinate system. The first holds after every line; the second is
  kept by lines that assign no parameter, outside check mode.
\<close>

subsection \<open>Vectors over the axes\<close>

lemma over_axes_length [simp]: "length (over_axes n f xs) = length xs"
  by (simp add: over_axes_def)

lemma over_axes_nth: "i < length xs \<Longrightarrow> over_axes n f xs ! i = (if i < n then f i (xs ! i) else xs ! i)"
  by (simp add: over_axes_def)

lemma copy_axes_length [simp]: "length (copy_axes env xs ys) = length xs"
  by (simp add: copy_axes_def)

lemma copy_axes_nth:
  "i < length xs \<Longrightarrow> copy_axes env xs ys ! i = (if i < ge_n_axis env then ys ! i else xs ! i)"
  by (simp add: copy_axes_def over_axes_nth)

lemma zero_axes_length [simp]: "length zero_axes = MAX_N_AXIS"
  by (simp add: zero_axes_def)

definition wf_state :: "parser_state \<Rightarrow> bool" where
  "wf_state gc \<longleftrightarrow> length (gs_position gc) = MAX_N_AXIS \<and> length (gs_coord_system gc) = MAX_N_AXIS
     \<and> length (gs_coord_offset gc) = MAX_N_AXIS \<and> length (gs_tool_length_offset gc) = MAX_N_AXIS"

definition wf_world :: "gc_world \<Rightarrow> bool" where
  "wf_world w \<longleftrightarrow> wf_state (gw_gc w) \<and> (\<forall>c. length (gw_coords w c) = MAX_N_AXIS)"

definition wf_env :: "gc_env \<Rightarrow> bool" where
  "wf_env env \<longleftrightarrow> ge_n_axis env \<le> MAX_N_AXIS \<and> length (ge_steps_mpos env) = MAX_N_AXIS"

definition wf_locals :: "gc_locals \<Rightarrow> bool" where
  "wf_locals l \<longleftrightarrow> length (v_xyz (l_values l)) = MAX_N_AXIS \<and> length (v_ijk (l_values l)) = 3
     \<and> length (gl_coord_data l) = MAX_N_AXIS \<and> length (gl_block_coord_system l) = MAX_N_AXIS"

lemmas wf_defs = wf_state_def wf_world_def wf_locals_def

text \<open>The coordinate system of the block, and whether it may differ from the active one.\<close>

abbreviation selected :: "gc_locals \<Rightarrow> u16" where
  "selected l \<equiv> m_coord_select (l_modal l)"

abbreviation active_select :: "gc_world \<Rightarrow> u16" where
  "active_select w \<equiv> m_coord_select (gs_modal (gw_gc w))"

definition block_ok :: "gc_locals \<Rightarrow> bool" where
  "block_ok l \<longleftrightarrow> wf_locals l \<and> selected l < CI_NWCSystems \<and> gl_coord_select l < CI_NWCSystems"

text \<open>The words of a line keep the block well formed; only G54 to G59 select a system.\<close>

definition word_ok :: "gc_locals \<Rightarrow> modal_group \<Rightarrow> gc_locals \<Rightarrow> bool" where
  "word_ok l g l' \<longleftrightarrow> block_ok l' \<and> gl_command_words l' = gl_command_words l
     \<and> (g = MG12 \<or> selected l' = selected l)"

lemmas word_ok_defs = word_ok_def block_ok_def wf_locals_def locals_defs coord_index_defs

lemma g_word_parts_ok:
  assumes "block_ok l"
  shows "check_mantissa m (set_non_modal nm l) = Inr (g, m', l') \<Longrightarrow> word_ok l g l'"
    "g_non_modal i m l = Inr (g, m', l') \<Longrightarrow> word_ok l g l'"
    "g_probe env m l = Inr (g, m', l') \<Longrightarrow> word_ok l g l'"
    "g_motion env i m l = Inr (g, m', l') \<Longrightarrow> word_ok l g l'"
    "g_modes i m l = Inr (g, m', l') \<Longrightarrow> word_ok l g l'"
    "g_tool_length i m l = Inr (g, m', l') \<Longrightarrow> word_ok l g l'"
proof -
  show c: "check_mantissa m (set_non_modal nm l) = Inr (g, m', l') \<Longrightarrow> word_ok l g l'" for m nm
    using assms by (auto simp: check_mantissa_def word_ok_defs split: if_splits)
  show "g_non_modal i m l = Inr (g, m', l') \<Longrightarrow> word_ok l g l'"
    using assms by (auto simp: g_non_modal_def Let_def split: if_splits dest!: c) (auto simp: word_ok_defs)
  show p: "g_probe env m l = Inr (g, m', l') \<Longrightarrow> word_ok l g l'"
    using assms by (auto simp: g_probe_def set_motion_def word_ok_defs Let_def split: if_splits prod.splits)
  show "g_motion env i m l = Inr (g, m', l') \<Longrightarrow> word_ok l g l'"
    using assms p by (auto simp: g_motion_def set_motion_def Let_def split: if_splits) (auto simp: word_ok_defs)
  show "g_modes i m l = Inr (g, m', l') \<Longrightarrow> word_ok l g l'"
    using assms by (auto simp: g_modes_def word_ok_defs split: if_splits)
  show "g_tool_length i m l = Inr (g, m', l') \<Longrightarrow> word_ok l g l'"
    using assms by (auto simp: g_tool_length_def word_ok_defs Let_def split: if_splits)
qed

lemma g_coords_ok:
  assumes "block_ok l" "g_coords i m l = Inr (g, m', l')" "i \<in> {54, 55, 56, 57, 58, 59}"
  shows "word_ok l g l'"
  using assms by (auto simp: g_coords_def word_ok_defs Let_def split: if_splits)

lemma g_word_ok:
  assumes "block_ok l" "g_word env i m l = Inr (g, m', l')"
  shows "word_ok l g l'"
proof (cases "i \<in> {54, 55, 56, 57, 58, 59}")
  case True
  with assms(2) have "g_coords i m l = Inr (g, m', l')" by (auto simp: g_word_def)
  then show ?thesis by (rule g_coords_ok [OF assms(1) _ True])
next
  case False
  with assms show ?thesis
    by (auto simp: g_word_def split: if_splits dest: g_word_parts_ok) (simp add: word_ok_def)
qed

text \<open>A block whose selection may only differ from the active one when its group was seen.\<close>

definition block_of :: "u16 \<Rightarrow> gc_locals \<Rightarrow> bool" where
  "block_of c l \<longleftrightarrow> block_ok l \<and> (has_group l MG12 \<or> selected l = c)"

lemma set_group_code: "bit (set_bit (group_code g) (n :: u32)) (group_code g) = True"
  by (cases g) (simp_all add: bit_simps)

lemma set_group_mono: "bit (n :: u32) k \<Longrightarrow> bit (set_bit j n) k"
  by (auto simp: bit_set_bit_iff)

lemma check_group_ok:
  assumes "check_group g l' = Inr l''" "word_ok l g l'" "block_of c l"
  shows "block_of c l''"
  using assms
  by (auto simp: check_group_def block_of_def word_ok_defs set_group_mono bit_set_bit_iff
      split: if_splits)

lemma word_ok_mantissa: "word_ok l g l' \<Longrightarrow> word_ok l g (l'\<lparr>gl_mantissa := m\<rparr>)"
  by (simp add: word_ok_defs)

lemma block_of_ok: "block_of c l \<Longrightarrow> block_ok l"
  by (simp add: block_of_def)

lemma letter_g_ok:
  assumes "block_of c l" "letter_g env i m l = Inr l'"
  shows "block_of c l'"
proof -
  obtain g m' l1 where g: "g_word env i m l = Inr (g, m', l1)"
    and c: "check_group g (l1\<lparr>gl_mantissa := m'\<rparr>) = Inr l'"
    using assms(2) by (auto simp: letter_g_def split: sum.splits if_splits)
  have "word_ok l g l1" using block_of_ok [OF assms(1)] g by (rule g_word_ok)
  then show ?thesis by (rule check_group_ok [OF c word_ok_mantissa assms(1)])
qed

lemma m_word_ok: "block_ok l \<Longrightarrow> m_word env sp i m l = Inr (g, l') \<Longrightarrow> word_ok l g l'"
  by (auto simp: m_word_def m_spindle_word_def m_coolant_word_def set_flow_def set_io_def set_coolant_def
      word_ok_defs split: if_splits sum.splits)

lemma letter_m_ok:
  assumes "block_of c l" "letter_m env sp i m l = Inr l'"
  shows "block_of c l'"
proof -
  obtain g l1 where g: "m_word env sp i m l = Inr (g, l1)"
    and c: "check_group g (l1\<lparr>gl_mantissa := m\<rparr>) = Inr l'"
    using assms(2) by (auto simp: letter_m_def split: sum.splits if_splits)
  have "word_ok l g l1" using block_of_ok [OF assms(1)] g by (rule m_word_ok)
  then show ?thesis by (rule check_group_ok [OF c word_ok_mantissa assms(1)])
qed

lemma value_word_ok:
  "block_of c l \<Longrightarrow> value_word env letter v i m l w = Inr (wd, l', w') \<Longrightarrow> block_of c l'"
  by (auto simp: value_word_def simple_word_def set_axis_value_def set_offset_def block_of_def word_ok_defs
      split: option.splits if_splits)

lemma check_word_ok: "block_of c l \<Longrightarrow> check_word wd v l = Inr l' \<Longrightarrow> block_of c l'"
  by (auto simp: check_word_def block_of_def word_ok_defs split: if_splits)

lemma parse_word_ok: "block_of c l \<Longrightarrow> parse_word env letter v l w = (Inr l', w') \<Longrightarrow> block_of c l'"
proof -
  assume "block_of c l" and p: "parse_word env letter v l w = (Inr l', w')"
  then have "block_of c (l\<lparr>gl_mantissa := m\<rparr>)" for m by (simp add: block_of_def word_ok_defs)
  with p show ?thesis
    by (auto simp: parse_word_def Let_def split: if_splits sum.splits prod.splits
        intro: letter_g_ok letter_m_ok check_word_ok value_word_ok)
qed

lemma start_locals_ok:
  "active_select w < CI_NWCSystems \<Longrightarrow> block_of (active_select w) (start_locals env jog w)"
  by (simp add: start_locals_def block_of_def word_ok_defs gc_values_zero_def Let_def)

text \<open>One round of the loop over the words, for induction.\<close>

lemma parse_words_step:
  assumes "parse_words env (letter # line) l w = Inr (l', w')"
  obtains (assign) rest w1 where "letter = CHR ''#''" "assign_param env line w = Some (rest, w1)"
      "parse_words env rest l w1 = Inr (l', w')"
  | (word) v rest l1 w1 where "letter \<noteq> CHR ''#''" "world_number env w line = Some (v, rest)"
      "parse_word env letter v l w = (Inr l1, w1)" "parse_words env rest l1 w1 = Inr (l', w')"
proof (cases "letter = CHR ''#''")
  case True
  with assms show ?thesis
    by (auto simp: parse_words.simps(2) split: option.splits if_splits intro: that(1))
next
  case False
  then obtain v rest where n: "world_number env w line = Some (v, rest)"
    using assms by (auto simp: parse_words.simps(2) split: option.splits if_splits)
  obtain r w1 where p: "parse_word env letter v l w = (r, w1)" by fastforce
  show ?thesis
    using assms False n p that(2) by (cases r) (simp_all add: parse_words.simps(2) split: if_splits)
qed

lemma parse_words_ok:
  assumes "parse_words env line l w = Inr (l', w')" "block_of c l"
  shows "block_of c l'"
  using assms
proof (induction "length line" arbitrary: line l w rule: less_induct)
  case less
  show ?case
  proof (cases line)
    case Nil
    with less(2,3) show ?thesis by simp
  next
    case (Cons letter cs)
    from less(2)[unfolded Cons] show ?thesis
    proof (cases rule: parse_words_step)
      case (assign rest w1)
      have "length rest < length line" using assign_param_length [OF assign(2)] Cons by simp
      then show ?thesis by (rule less(1) [OF _ assign(3) less(3)])
    next
      case (word v rest l1 w1)
      have "length rest < length line" using world_number_length [OF word(2)] Cons by simp
      then show ?thesis by (rule less(1) [OF _ word(4) parse_word_ok [OF less(3) word(3)]])
    qed
  qed
qed

subsection \<open>The checks\<close>

text \<open>What a check may not change, apart from the one that selects the coordinate system.\<close>

definition frame :: "gc_locals \<Rightarrow> gc_locals \<Rightarrow> bool" where
  "frame l l' \<longleftrightarrow> block_ok l' \<and> selected l' = selected l
     \<and> gl_command_words l' = gl_command_words l
     \<and> gl_block_coord_system l' = gl_block_coord_system l"

lemmas frame_defs = frame_def block_ok_def wf_locals_def locals_defs

lemma frame_refl: "block_ok l \<Longrightarrow> frame l l"
  by (simp add: frame_def)

lemma frame_trans: "frame l1 l2 \<Longrightarrow> frame l2 l3 \<Longrightarrow> frame l1 l3"
  by (simp add: frame_def)

lemma frame_block: "frame l l' \<Longrightarrow> block_ok l'"
  by (simp add: frame_def)

lemma frame_step: "frame l l1 \<Longrightarrow> (block_ok l1 \<Longrightarrow> frame l1 l2) \<Longrightarrow> frame l l2"
  by (simp add: frame_def)

lemma frame_clear: "frame l l' \<Longrightarrow> frame l (clear_word wd l')"
  by (auto simp: frame_defs)

lemma frame_clears: "frame l l' \<Longrightarrow> frame l (clear_words wds l')"
  by (induction wds arbitrary: l') (simp_all add: frame_clear)

lemma frame_set_radius: "frame l l' \<Longrightarrow> frame l (set_radius r l')"
  by (auto simp: frame_defs set_radius_def)

lemma frame_set_ijk: "frame l l' \<Longrightarrow> frame l (set_ijk a v l')"
  by (auto simp: frame_defs set_ijk_def)

lemma simple_checks_frame:
  assumes "block_ok l"
  shows "check_common l gc = Inr l' \<Longrightarrow> frame l l'" "check_feed l gc = Inr l' \<Longrightarrow> frame l l'"
    "check_spindle_speed l gc = Inr l' \<Longrightarrow> frame l l'" "check_parking env l gc = Inr l' \<Longrightarrow> frame l l'"
    "check_dwell l gc = Inr l' \<Longrightarrow> frame l l'" "check_digital_io l gc = Inr l' \<Longrightarrow> frame l l'"
    "check_analog_io l gc = Inr l' \<Longrightarrow> frame l l'" "check_tool_number l gc = Inr l' \<Longrightarrow> frame l l'"
    "select_plane l gc = Inr l' \<Longrightarrow> frame l l'" "convert_units env l gc = Inr l' \<Longrightarrow> frame l l'"
    "check_probe l gc = Inr l' \<Longrightarrow> frame l l'"
  using assms
  by (auto simp: check_common_def check_feed_def scale_feed_def check_spindle_speed_def
      check_parking_def check_dwell_def check_digital_io_def check_analog_io_def check_tool_number_def
      select_plane_def convert_units_def check_probe_def update_xyz_def Let_def frame_defs
      split: if_splits gc_plane.splits)

lemma check_wait_frame: "block_ok l \<Longrightarrow> check_wait l gc = Inr l' \<Longrightarrow> frame l l'"
  by (auto simp: check_wait_def Let_def split: if_splits option.splits) (auto simp: frame_defs)

lemma check_unused_frame: "block_ok l \<Longrightarrow> check_unused l gc = Inr l' \<Longrightarrow> frame l l'"
  by (auto simp: check_unused_def Let_def split: if_splits intro!: frame_clear frame_clears frame_refl)

lemma arc_by_radius_frame:
  assumes "block_ok l" "arc_by_radius x y l gc = Inr l'"
  shows "frame l l'"
  using assms
  by (auto simp: arc_by_radius_def Let_def simp del: clear_words.simps split: if_splits
      intro!: frame_set_ijk frame_set_radius frame_clear frame_refl)

lemma arc_by_centre_frame:
  assumes "block_ok l" "arc_by_centre env x y l = Inr l'"
  shows "frame l l'"
  using assms
  by (auto simp: arc_by_centre_def Let_def set_radius_def frame_defs split: if_splits)

lemma map_sum_Inr: "map_sum f g x = Inr y \<Longrightarrow> \<exists>z. x = Inr z \<and> y = g z"
  by (cases x) auto

lemma check_arc_frame:
  assumes "block_ok l" "check_arc env l gc = Inr l'"
  shows "frame l l'"
  using assms
  by (auto simp: check_arc_def Let_def split: if_splits dest!: map_sum_Inr
      intro!: frame_clear dest: arc_by_radius_frame arc_by_centre_frame)

lemma check_motion_frame:
  assumes "block_ok l" "check_motion env l gc = Inr l'"
  shows "frame l l'"
proof -
  have dropped: "frame l (drop_motion_without_axes l)"
    using assms(1) by (auto simp: drop_motion_without_axes_def frame_defs)
  have clockwise: "block_ok (l\<lparr>gl_clockwiseArc := True\<rparr>)" "frame (l\<lparr>gl_clockwiseArc := True\<rparr>) l1 \<Longrightarrow> frame l l1"
    for l1 using assms(1) by (auto simp: frame_defs)
  show ?thesis
    using assms dropped
    by (auto simp: check_motion_def Let_def frame_refl split: if_splits gc_motion.splits
        dest: check_arc_frame check_arc_frame [OF clockwise(1)] clockwise(2) simple_checks_frame)
qed

lemma compute_target_frame: "block_ok l \<Longrightarrow> frame l (compute_target env l gc)"
  by (auto simp: compute_target_def update_xyz_def frame_defs)

lemma check_non_modal_frame:
  assumes "block_ok l" "wf_world w" "check_non_modal env l w = (Inr l', w')"
  shows "frame l l'"
proof -
  have coords: "length (gw_coords w c) = MAX_N_AXIS" for c using assms(2) by (simp add: wf_world_def)
  have set: "frame l l'" if "check_set_coords env l w = (Inr l', w')"
    using that assms(1) coords
    by (auto simp: check_set_coords_def Let_def frame_defs not_le split: if_splits)
  have offset: "frame l l'" if "check_set_offset env l w = (Inr l', w')"
    using that assms(1) by (auto simp: check_set_offset_def update_xyz_def Let_def frame_defs split: if_splits)
  have home: "frame l (check_go_home env l1 w)" if "frame l l1" for l1
    using that coords by (auto simp: check_go_home_def Let_def frame_defs)
  show ?thesis
    using assms(3) set offset compute_target_frame [OF assms(1)] home
    by (auto simp: check_non_modal_def Let_def split: non_modal.splits if_splits)
qed

text \<open>After the checks the block has the stored offsets of the system it selects.\<close>

definition active_offsets :: "gc_env \<Rightarrow> gc_world \<Rightarrow> bool" where
  "active_offsets env w \<longleftrightarrow> active_select w < CI_NWCSystems \<and>
     (\<forall>axis < ge_n_axis env. gs_coord_system (gw_gc w) ! axis = gw_coords w (active_select w) ! axis)"

definition block_offsets :: "gc_env \<Rightarrow> gc_world \<Rightarrow> gc_locals \<Rightarrow> bool" where
  "block_offsets env w l \<longleftrightarrow> block_ok l \<and>
     (\<forall>axis < ge_n_axis env. gl_block_coord_system l ! axis = gw_coords w (selected l) ! axis)"

lemma select_coords_offsets:
  assumes "block_of (active_select w) l" "wf_world w" "active_offsets env w"
    and "select_coords l w = (Inr l', w')"
  shows "block_offsets env w l'"
  using assms
  by (auto simp: select_coords_def block_of_def block_offsets_def active_offsets_def frame_defs
      wf_state_def wf_world_def Let_def split: if_splits)

lemma frame_offsets: "frame l l' \<Longrightarrow> block_offsets env w l \<Longrightarrow> block_offsets env w l'"
  by (simp add: frame_def block_offsets_def)

lemma frame_block_of: "frame l l' \<Longrightarrow> block_of c l \<Longrightarrow> block_of c l'"
  by (simp add: frame_def block_of_def has_group_def)

lemma then_check_Inr:
  "then_check f g l w = (Inr l', w') \<Longrightarrow>
     \<exists>l1 w1. f l w = (Inr l1, w1) \<and> g l1 w1 = (Inr l', w')"
  by (auto simp: then_check_def split: prod.splits sum.splits)

lemma pure_check_Inr: "pure_check f l w = (Inr l', w') \<Longrightarrow> f l (gw_gc w) = Inr l' \<and> w' = w"
  by (auto simp: pure_check_def)

lemma announce_Inr: "announce_tool_length l w = (Inr l', w') \<Longrightarrow> l' = l"
  by (simp add: announce_tool_length_def)

lemma select_coords_world: "select_coords l w = (r, w') \<Longrightarrow> w' = w"
  by (auto simp: select_coords_def Let_def)

definition consistent :: "gc_env \<Rightarrow> gc_world \<Rightarrow> bool" where
  "consistent env w \<longleftrightarrow> wf_world w \<and> active_offsets env w"

text \<open>What consistency depends on.\<close>

definition offsets_view :: "gc_world \<Rightarrow> (u16 \<Rightarrow> real list) \<times> real list \<times> u16 \<times> bool" where
  "offsets_view w =
     (gw_coords w, gs_coord_system (gw_gc w), active_select w, wf_state (gw_gc w))"

lemma consistent_view: "offsets_view w' = offsets_view w \<Longrightarrow> consistent env w \<Longrightarrow> consistent env w'"
  by (simp add: offsets_view_def consistent_def wf_world_def active_offsets_def)

lemma block_offsets_view: "offsets_view w' = offsets_view w \<Longrightarrow> block_offsets env w l \<Longrightarrow> block_offsets env w' l"
  by (simp add: offsets_view_def block_offsets_def)

lemma settled_fields:
  assumes "settled gc' = settled gc"
  shows "gs_modal gc' = gs_modal gc" "gs_position gc' = gs_position gc"
    "gs_coord_system gc' = gs_coord_system gc" "gs_coord_offset gc' = gs_coord_offset gc"
    "gs_tool_length_offset gc' = gs_tool_length_offset gc"
proof -
  have "f (settled gc') = f (settled gc)" for f :: "parser_state \<Rightarrow> 'x" using assms by simp
  from this [of gs_modal] this [of gs_position] this [of gs_coord_system] this [of gs_coord_offset]
    this [of gs_tool_length_offset]
  show "gs_modal gc' = gs_modal gc" "gs_position gc' = gs_position gc"
    "gs_coord_system gc' = gs_coord_system gc" "gs_coord_offset gc' = gs_coord_offset gc"
    "gs_tool_length_offset gc' = gs_tool_length_offset gc"
    by (simp_all add: settled_def)
qed

lemma view_machine: "machine_of w' = machine_of w \<Longrightarrow> offsets_view w' = offsets_view w"
  using settled_fields [of "gw_gc w'" "gw_gc w"]
  by (simp add: machine_of_def offsets_view_def wf_state_def)

lemma view_kept: "kept_of w' = kept_of w \<Longrightarrow> offsets_view w' = offsets_view w"
  by (rule view_machine) (simp add: kept_of_def)

text \<open>A check that passes keeps the world consistent and frames the block.\<close>

lemma check_block_offsets:
  assumes "block_of (active_select w) l" "consistent env w" "check_block env l w = (Inr l', w')"
  shows "consistent env w'" "block_offsets env w' l'"
proof -
  have v: "offsets_view w' = offsets_view w" using check_block_kept [OF assms(3)] by (rule view_kept)
  show "consistent env w'" using v assms(2) by (rule consistent_view)
  have wf: "wf_world w" "active_offsets env w" using assms(2) by (simp_all add: consistent_def)
  obtain l1 l2 l3 l4 l5 l6 l7 l8 l9 l10 l11 m11 w1 l12 w3 l13 w2 l14 where
    c: "check_common l (gw_gc w) = Inr l1" "check_feed l1 (gw_gc w) = Inr l2"
      "check_spindle_speed l2 (gw_gc w) = Inr l3" "check_parking env l3 (gw_gc w) = Inr l4"
      "check_dwell l4 (gw_gc w) = Inr l5" "check_digital_io l5 (gw_gc w) = Inr l6"
      "check_analog_io l6 (gw_gc w) = Inr l7" "check_wait l7 (gw_gc w) = Inr l8"
      "check_tool_number l8 (gw_gc w) = Inr l9" "select_plane l9 (gw_gc w) = Inr l10"
      "convert_units env l10 (gw_gc w) = Inr l11" and
    n: "announce_tool_length l11 w = (Inr m11, w1)" and
    s: "select_coords m11 w1 = (Inr l12, w3)" and
    m: "check_non_modal env l12 w3 = (Inr l13, w2)" and
    t: "check_motion env l13 (gw_gc w2) = Inr l14" "check_unused l14 (gw_gc w2) = Inr l'"
    using assms(3) unfolding check_block_def
    by (auto dest!: then_check_Inr pure_check_Inr)
  have eq: "m11 = l11" "w3 = w1" using announce_Inr [OF n] select_coords_world [OF s] by simp_all
  have "block_ok l" using assms(1) by (rule block_of_ok)
  then have "frame l l" by (rule frame_refl)
  then have "frame l l1" by (rule frame_step [OF _ simple_checks_frame(1) [OF _ c(1)]])
  then have "frame l l2" by (rule frame_step [OF _ simple_checks_frame(2) [OF _ c(2)]])
  then have "frame l l3" by (rule frame_step [OF _ simple_checks_frame(3) [OF _ c(3)]])
  then have "frame l l4" by (rule frame_step [OF _ simple_checks_frame(4) [OF _ c(4)]])
  then have "frame l l5" by (rule frame_step [OF _ simple_checks_frame(5) [OF _ c(5)]])
  then have "frame l l6" by (rule frame_step [OF _ simple_checks_frame(6) [OF _ c(6)]])
  then have "frame l l7" by (rule frame_step [OF _ simple_checks_frame(7) [OF _ c(7)]])
  then have "frame l l8" by (rule frame_step [OF _ check_wait_frame [OF _ c(8)]])
  then have "frame l l9" by (rule frame_step [OF _ simple_checks_frame(8) [OF _ c(9)]])
  then have "frame l l10" by (rule frame_step [OF _ simple_checks_frame(9) [OF _ c(10)]])
  then have f: "frame l l11" by (rule frame_step [OF _ simple_checks_frame(10) [OF _ c(11)]])
  have v1: "offsets_view w1 = offsets_view w" using announce_kept [OF n] by (rule view_kept)
  have wf1: "wf_world w1" "active_offsets env w1" "active_select w1 = active_select w"
    using v1 assms(2) consistent_view [OF v1] by (auto simp: consistent_def offsets_view_def)
  have b: "block_of (active_select w1) m11" using frame_block_of [OF f assms(1)] wf1(3) eq by simp
  have "block_offsets env w1 l12" using b wf1(1,2) s by (rule select_coords_offsets)
  moreover have k: "block_ok l12" using calculation by (simp add: block_offsets_def)
  moreover have "frame l12 l13" using k wf1(1) m [unfolded eq] by (rule check_non_modal_frame)
  moreover have "frame l13 l14" using t(1) frame_block [OF calculation(3)] by (rule check_motion_frame [rotated])
  moreover have "frame l14 l'" using t(2) frame_block [OF calculation(4)] by (rule check_unused_frame [rotated])
  ultimately have "block_offsets env w1 l'" by (blast intro: frame_offsets)
  moreover have "offsets_view w' = offsets_view w1" using v v1 by simp
  ultimately show "block_offsets env w' l'" using block_offsets_view by blast
qed

subsection \<open>The execution\<close>

lemma view_emit [simp]: "offsets_view (gc_emit a w) = offsets_view w"
  by (simp add: offsets_view_def gc_emit_def)

lemma view_changed [simp]:
  "offsets_view (gc_ovr_changed w) = offsets_view w" "offsets_view (gc_wco_changed w) = offsets_view w"
  "offsets_view (gc_ngc_changed c w) = offsets_view w"
  by (simp_all add: gc_ovr_changed_def gc_wco_changed_def gc_ngc_changed_def)

text \<open>A section that leaves the offsets alone and frames the block.\<close>

definition quiet :: "exec \<Rightarrow> bool" where
  "quiet f \<longleftrightarrow> (\<forall>l pl w r w'. f l pl w = (r, w') \<longrightarrow> offsets_view w' = offsets_view w
     \<and> (\<forall>l' pl'. r = Inr (l', pl') \<longrightarrow> block_ok l \<longrightarrow> frame l l'))"

lemma view_set_gc:
  "offsets_view (set_gc f w) = (gw_coords w, gs_coord_system (f (gw_gc w)),
     m_coord_select (gs_modal (f (gw_gc w))), wf_state (f (gw_gc w)))"
  "offsets_view (set_mode g w) = (gw_coords w, gs_coord_system (gw_gc w),
     m_coord_select (g (gs_modal (gw_gc w))), wf_state (gw_gc w))"
  by (simp_all add: offsets_view_def set_gc_def set_mode_def wf_state_def)

lemma view_expand: "offsets_view w =
    (gw_coords w, gs_coord_system (gw_gc w), active_select w, wf_state (gw_gc w))"
  by (simp add: offsets_view_def)

lemma switch_view: "switch_to_selected env l w = (l', w') \<Longrightarrow> offsets_view w' = offsets_view w
    \<and> (block_ok l \<longrightarrow> frame l l')"
  by (auto simp: switch_to_selected_def switchSpindle_def view_expand set_gc_def gc_emit_def wf_state_def
      frame_defs Let_def split: option.splits if_splits)

lemma quiet_sections:
  "quiet (exec_laser env)" "quiet exec_feed" "quiet (exec_speed env)" "quiet (exec_spindle env)"
  "quiet (exec_coolant env)" "quiet (exec_digital env)" "quiet (exec_analog env)"
  "quiet (exec_override env)" "quiet exec_dwell" "quiet exec_plane_units" "quiet exec_distance"
  unfolding quiet_def exec_laser_def exec_feed_def exec_speed_def exec_spindle_def exec_coolant_def
    exec_digital_def exec_analog_def exec_override_def exec_dwell_def exec_plane_units_def exec_distance_def
  by (auto simp: Let_def frame_refl view_set_gc simp del: view_emit split: if_splits)
    (auto simp: frame_defs view_expand wf_state_def gc_emit_def gc_ovr_changed_def set_gc_def set_mode_def)

lemma view_read_input: "offsets_view (snd (set_numbered_param 5399 v w)) = offsets_view w"
  by (simp add: set_numbered_param_def axis_params_def axis_from_id_def is_axis_def MAX_N_AXIS_def
      can_write_float_param_def Let_def view_expand)

lemma quiet_wait: "quiet (exec_wait env)"
  by (auto simp: quiet_def exec_wait_def gc_wait_on_input_def Let_def frame_refl view_read_input
      split: if_splits option.splits)

lemma quiet_tools: "quiet (exec_tool_change env)" "quiet (exec_set_tool env)"
proof -
  have tool: "offsets_view (set_gc (\<lambda>gc. gc\<lparr>gs_current_tool := t\<rparr>) w) = offsets_view w"
    "offsets_view (set_gc (\<lambda>gc. gc\<lparr>gs_selected_tool := u\<rparr>) w) = offsets_view w" for t u w
    by (simp_all add: offsets_view_def set_gc_def wf_state_def)
  show "quiet (exec_tool_change env)" "quiet (exec_set_tool env)"
    unfolding quiet_def exec_tool_change_def exec_set_tool_def
    by (auto simp: Let_def frame_refl tool split: if_splits prod.splits dest!: switch_view)
qed

text \<open>The sections that change the offsets keep them consistent.\<close>

lemma coords_set_consistent:
  assumes "consistent env w" "length data = MAX_N_AXIS" "c \<noteq> active_select w"
  shows "consistent env (coords_set c data w)"
  using assms by (auto simp: coords_set_def gc_emit_def consistent_def active_offsets_def wf_world_def)

lemma exec_tool_length_ok:
  assumes "exec_tool_length env l pl w = (r, w')" "consistent env w" "block_offsets env w l"
  shows "r = Inr (l, pl) \<and> consistent env w' \<and> block_offsets env w' l"
proof (cases "gl_axis_command l = AcToolLengthOffset")
  case False
  with assms show ?thesis by (auto simp: exec_tool_length_def)
next
  case True
  define w1 where "w1 = set_gc (\<lambda>gc. gc\<lparr>gs_tool_length_offset := over_axes (ge_n_axis env) (\<lambda>idx v.
      if m_tool_length (l_modal l) = TloCancel then 0
      else if bit (gl_axis_words l) idx then v_xyz (l_values l) ! idx else v)
      (gs_tool_length_offset gc)\<rparr>) (set_mode (\<lambda>m. m\<lparr>m_tool_length := m_tool_length (l_modal l)\<rparr>) w)"
  have v: "offsets_view w1 = offsets_view w"
    by (simp add: w1_def offsets_view_def set_gc_def set_mode_def wf_state_def)
  have r: "r = Inr (l, pl)" "w' = coords_set CI_TLO (gs_tool_length_offset (gw_gc w1)) w1"
    using assms(1) True by (simp_all add: exec_tool_length_def w1_def Let_def)
  have c: "consistent env w1" using consistent_view [OF v assms(2)] .
  then have "active_select w1 < CI_NWCSystems" by (simp add: consistent_def active_offsets_def)
  then have "CI_TLO \<noteq> active_select w1" by (auto simp: coord_index_defs)
  moreover have "length (gs_tool_length_offset (gw_gc w1)) = MAX_N_AXIS"
    using c by (simp add: consistent_def wf_defs)
  ultimately have c': "consistent env w'"
    unfolding r(2) using coords_set_consistent [OF c] by blast
  have "block_offsets env w1 l" using block_offsets_view [OF v assms(3)] .
  moreover have "selected l \<noteq> CI_TLO"
    using assms(3) by (auto simp: block_offsets_def block_ok_def coord_index_defs)
  ultimately have "block_offsets env w' l"
    by (simp add: r(2) coords_set_def gc_emit_def block_offsets_def)
  with r c' show ?thesis by simp
qed

lemma exec_coord_select_ok:
  assumes "exec_coord_select env l pl w = (r, w')" "consistent env w" "block_offsets env w l"
    and "wf_env env"
  shows "r = Inr (l, pl) \<and> consistent env w'"
proof (cases "active_select w = selected l")
  case True
  with assms show ?thesis by (simp add: exec_coord_select_def Let_def)
next
  case False
  have w': "r = Inr (l, pl)" "w' = gc_wco_changed (set_gc (\<lambda>gc. gc\<lparr>gs_coord_system :=
      copy_axes env (gs_coord_system gc) (gl_block_coord_system l)\<rparr>)
      (set_mode (\<lambda>m. m\<lparr>m_coord_select := selected l\<rparr>) w))"
    using assms(1) False by (simp_all add: exec_coord_select_def Let_def)
  have "length (gs_coord_system (gw_gc w)) = MAX_N_AXIS"
    using assms(2) by (simp add: consistent_def wf_defs)
  with assms(2,3,4) show ?thesis
    by (auto simp: w' consistent_def gc_wco_changed_def gc_emit_def set_gc_def set_mode_def wf_defs wf_env_def
        active_offsets_def block_offsets_def block_ok_def copy_axes_nth)
qed

lemma exec_set_coords_ok:
  assumes "consistent env w" "block_ok l" "wf_env env"
  shows "consistent env (exec_set_coords env l w)"
proof -
  define w1 where "w1 = gc_wco_changed (coords_set (gl_coord_select l) (gl_coord_data l) w)"
  have w1: "gw_gc w1 = gw_gc w" "gw_coords w1 = (gw_coords w)(gl_coord_select l := gl_coord_data l)"
    by (simp_all add: w1_def gc_wco_changed_def coords_set_def gc_emit_def)
  have len: "length (gl_coord_data l) = MAX_N_AXIS" "length (gs_coord_system (gw_gc w)) = MAX_N_AXIS"
    using assms by (simp_all add: block_ok_def consistent_def wf_defs)
  have split: "exec_set_coords env l w =
      (if active_select w1 = gl_coord_select l
       then set_gc (\<lambda>gc. gc\<lparr>gs_coord_system := copy_axes env (gs_coord_system gc) (gl_coord_data l)\<rparr>) w1
       else w1)"
    by (simp add: exec_set_coords_def w1_def Let_def)
  show ?thesis
    using assms len
    by (auto simp: split w1 consistent_def wf_defs active_offsets_def set_gc_def wf_env_def copy_axes_nth)
qed

lemma consistent_set_position: "consistent env w \<Longrightarrow> consistent env (set_position env p w)"
  by (auto simp: consistent_def set_position_def set_gc_def wf_defs active_offsets_def)

lemma consistent_emit: "consistent env w \<Longrightarrow> consistent env (gc_emit a w)"
  by (rule consistent_view [OF view_emit])

lemma active_below: "consistent env w \<Longrightarrow> active_select w < 9"
  by (simp add: consistent_def active_offsets_def coord_index_defs)

lemma exec_non_modal_ok:
  assumes "exec_non_modal env l pl w = (r, w')" "consistent env w" "block_ok l" "wf_env env"
  shows "consistent env w' \<and> (\<exists>pl'. r = Inr (l, pl'))"
proof -
  have home: "consistent env (exec_go_home env l pl w)" for pl
    using assms(2) by (simp add: exec_go_home_def Let_def consistent_set_position consistent_emit)
  have pos: "length (gs_position (gw_gc w)) = MAX_N_AXIS" "length (gs_coord_offset (gw_gc w)) = MAX_N_AXIS"
    using assms(2) by (simp_all add: consistent_def wf_defs)
  have sets: "consistent env (gc_ngc_changed c (coords_set c (gs_position (gw_gc w)) w))" if "c \<in> {9, 10}" for c
  proof -
    have "c \<noteq> active_select w" using active_below [OF assms(2)] that by auto
    then show ?thesis
      by (simp add: gc_ngc_changed_def consistent_emit coords_set_consistent assms(2) pos(1))
  qed
  have offset: "consistent env (gc_wco_changed (gc_ngc_changed CI_G92
      (set_gc (\<lambda>gc. gc\<lparr>gs_coord_offset := f gc\<rparr>) w)))" if "length (f (gw_gc w)) = MAX_N_AXIS" for f
    using assms(2) that
    by (auto simp: gc_ngc_changed_def gc_wco_changed_def gc_emit_def consistent_def set_gc_def
        wf_defs active_offsets_def)
  show ?thesis
    using assms(1,2) home sets exec_set_coords_ok [OF assms(2,3,4)] offset pos
    by (auto simp: exec_non_modal_def set_coord_offset_def CI_G28_def CI_G30_def Let_def
        split: non_modal.splits)
qed

lemma apply_probe_offset_ok:
  assumes "consistent env w" "wf_env env"
  shows "consistent env (apply_probe_offset env axes offset contact w)"
proof -
  define c where "c = active_select w"
  define data where "data = (case first_axis env axes [0..<ge_n_axis env] of
      Some axis \<Rightarrow> (gw_coords w c)[axis := fsub (contact ! axis) offset] | None \<Rightarrow> gw_coords w c)"
  have len: "length data = MAX_N_AXIS" "length (gs_coord_system (gw_gc w)) = MAX_N_AXIS"
    using assms(1) by (auto simp: data_def consistent_def wf_defs split: option.split)
  have "apply_probe_offset env axes offset contact w =
      set_gc (\<lambda>gc. gc\<lparr>gs_coord_system := copy_axes env (gs_coord_system gc) data\<rparr>) (coords_set c data w)"
    unfolding apply_probe_offset_def data_def c_def Let_def ..
  then show ?thesis
    using assms len
    by (auto simp: coords_set_def gc_emit_def set_gc_def consistent_def wf_defs wf_env_def
        active_offsets_def copy_axes_nth c_def)
qed

lemma mc_probe_cycle_ok:
  assumes "mc_probe_cycle env target pl away no_error axes offset w = (upd, w')"
    and "consistent env w" "wf_env env"
  shows "consistent env w'"
proof -
  have e: "consistent env (gc_emit a w2)" if "consistent env w2" for a w2
    using that by (rule consistent_emit)
  show ?thesis
    using assms
    by (auto simp: mc_probe_cycle_def Let_def split: if_splits probe_outcome.splits
        intro!: e apply_probe_offset_ok)
qed

lemma exec_motion_ok:
  assumes "exec_motion env l pl w = (r, w')" "consistent env w" "wf_env env"
  shows "consistent env w' \<and> (\<forall>l' pl'. r = Inr (l', pl') \<longrightarrow> l' = l)"
proof -
  define w1 where "w1 = set_mode (\<lambda>m. m\<lparr>m_motion := m_motion (l_modal l)\<rparr>) w"
  have "offsets_view w1 = offsets_view w"
    by (simp add: w1_def offsets_view_def set_mode_def set_gc_def wf_state_def)
  then have c1: "consistent env w1" using assms(2) by (rule consistent_view)
  obtain upd w2 where run: "run_motion env l pl w1 = (upd, w2)" by fastforce
  have c2: "consistent env w2"
    using run c1 assms(3) by (auto simp: run_motion_def Let_def split: if_splits
        intro: mc_probe_cycle_ok consistent_emit)
  have sync: "consistent env (gc_sync_position env w2)"
    using c2 assms(3)
    by (auto simp: gc_sync_position_def set_gc_def consistent_def wf_defs wf_env_def active_offsets_def)
  show ?thesis
    using assms(1) c1 c2 run sync consistent_set_position [OF c2]
    by (auto simp: exec_motion_def w1_def [symmetric] Let_def split: if_splits gc_update_pos.splits)
qed

lemma program_end_ok:
  assumes "consistent env w" "\<not> ge_check_mode env"
  shows "consistent env (program_end env w)"
proof -
  have g: "gw_gc (end_job w) = gw_gc w" "gw_coords (end_job w) = gw_coords w" for w
    by (simp_all add: end_job_def split: list.split)
  define w1 where "w1 = gc_emit AcResetOverrides
    (set_mode (program_end_modes env) (end_job (gc_emit AcSynchronize w)))"
  have w1: "gw_coords w1 = gw_coords w" "active_select w1 = CI_G54" "wf_state (gw_gc w1)"
    using assms(1)
    by (simp_all add: w1_def gc_emit_def set_mode_def set_gc_def g program_end_modes_def wf_defs
        consistent_def Let_def)
  then have "consistent env (set_gc (\<lambda>gc. gc\<lparr>gs_coord_system :=
      gw_coords w1 (m_coord_select (gs_modal gc))\<rparr>) w1)"
    using assms(1) by (auto simp: set_gc_def consistent_def wf_defs active_offsets_def coord_index_defs)
  then show ?thesis
    using assms(2)
    by (simp add: program_end_def Let_def w1_def [symmetric] gc_ovr_changed_def gc_wco_changed_def
        consistent_emit)
qed

lemma exec_flow_ok:
  assumes "exec_flow env l pl w = (r, w')" "consistent env w" "\<not> ge_check_mode env"
  shows "consistent env w' \<and> r = Inr (l, pl)"
proof -
  have f: "consistent env (set_mode (\<lambda>m. m\<lparr>m_program_flow := f\<rparr>) w1)" if "consistent env w1" for f w1
    by (rule consistent_view [OF _ that])
      (simp add: offsets_view_def set_mode_def set_gc_def wf_state_def)
  have w': "w' = set_mode (\<lambda>m. m\<lparr>m_program_flow := PfRunning\<rparr>)
        (case m_program_flow (l_modal l) of
           PfPaused \<Rightarrow> let w = gc_emit AcSynchronize w in if \<not> ge_check_mode env then gc_emit AcFeedHold w else w
         | PfCompletedM2 \<Rightarrow> program_end env w
         | PfCompletedM30 \<Rightarrow> program_end env w
         | _ \<Rightarrow> w)" "r = Inr (l, pl)"
    using assms(1) by (simp_all add: exec_flow_def)
  show ?thesis
    using assms(2) program_end_ok [OF assms(2,3)]
    by (cases "m_program_flow (l_modal l)") (simp_all add: w' f consistent_emit Let_def)
qed

text \<open>All sections: before the coordinate selection the block holds the offsets it needs.\<close>

definition keeps :: "(gc_locals \<Rightarrow> gc_world \<Rightarrow> bool) \<Rightarrow> exec \<Rightarrow> gc_env \<Rightarrow> bool" where
  "keeps P f env \<longleftrightarrow> (\<forall>l pl w r w'. P l w \<longrightarrow> f l pl w = (r, w') \<longrightarrow> consistent env w')"

lemma keeps_then:
  assumes "keeps Q g env"
    and "\<And>l pl w r w'. P l w \<Longrightarrow> f l pl w = (r, w') \<Longrightarrow>
      consistent env w' \<and> (\<forall>l' pl'. r = Inr (l', pl') \<longrightarrow> Q l' w')"
  shows "keeps P (then_exec f g) env"
  unfolding keeps_def
proof (intro allI impI)
  fix l pl w r w'
  assume p: "P l w" and run: "then_exec f g l pl w = (r, w')"
  obtain r1 w1 where f: "f l pl w = (r1, w1)" by fastforce
  note first = assms(2) [OF p f]
  show "consistent env w'"
  proof (cases r1)
    case (Inl e)
    with run f first show ?thesis by (simp add: then_exec_def)
  next
    case (Inr x)
    obtain l1 pl1 where x: "x = (l1, pl1)" by (cases x)
    then have "Q l1 w1" "g l1 pl1 w1 = (r, w')" using run f first Inr by (simp_all add: then_exec_def)
    then show ?thesis using assms(1) by (auto simp: keeps_def)
  qed
qed

definition before :: "gc_env \<Rightarrow> gc_locals \<Rightarrow> gc_world \<Rightarrow> bool" where
  "before env l w \<longleftrightarrow> consistent env w \<and> block_offsets env w l"

definition after :: "gc_env \<Rightarrow> gc_locals \<Rightarrow> gc_world \<Rightarrow> bool" where
  "after env l w \<longleftrightarrow> consistent env w \<and> block_ok l"

lemma quiet_before:
  assumes "quiet f" "before env l w" "f l pl w = (r, w')"
  shows "consistent env w' \<and> (\<forall>l' pl'. r = Inr (l', pl') \<longrightarrow> before env l' w')"
proof -
  have v: "offsets_view w' = offsets_view w"
    and fr: "\<And>l' pl'. r = Inr (l', pl') \<Longrightarrow> block_ok l \<Longrightarrow> frame l l'"
    using assms(1,3) by (auto simp: quiet_def)
  have b: "consistent env w" "block_offsets env w l" "block_ok l"
    using assms(2) by (auto simp: before_def block_offsets_def)
  have c: "consistent env w'" using v b(1) by (rule consistent_view)
  have "block_offsets env w' l" using v b(2) by (rule block_offsets_view)
  with c fr b(3) show ?thesis by (auto simp: before_def intro: frame_offsets)
qed

lemma keeps_quiet: "quiet f \<Longrightarrow> keeps (before env) g env \<Longrightarrow> keeps (before env) (then_exec f g) env"
  by (erule keeps_then) (rule quiet_before)

lemma sections_consistent:
  assumes "wf_env env" "\<not> ge_check_mode env"
  shows "keeps (before env) (exec_sections env) env"
proof -
  have flow: "keeps (after env) (exec_flow env) env"
    using exec_flow_ok assms(2) by (auto simp: keeps_def after_def)
  have motion: "keeps (after env) (then_exec (exec_motion env) (exec_flow env)) env"
  proof (rule keeps_then [OF flow])
    fix l pl w r w'
    assume a: "after env l w" and m: "exec_motion env l pl w = (r, w')"
    from a have "consistent env w" by (simp add: after_def)
    from exec_motion_ok [OF m this assms(1)] a
    show "consistent env w' \<and> (\<forall>l' pl'. r = Inr (l', pl') \<longrightarrow> after env l' w')"
      by (auto simp: after_def)
  qed
  have non_modal: "keeps (after env) (then_exec (exec_non_modal env)
      (then_exec (exec_motion env) (exec_flow env))) env"
    by (rule keeps_then [OF motion]) (use exec_non_modal_ok assms(1) in \<open>fastforce simp: after_def\<close>)
  have distance: "keeps (after env) (then_exec exec_distance (then_exec (exec_non_modal env)
      (then_exec (exec_motion env) (exec_flow env)))) env"
  proof (rule keeps_then [OF non_modal])
    fix l pl w r w'
    assume "after env l w" "exec_distance l pl w = (r, w')"
    then show "consistent env w' \<and> (\<forall>l' pl'. r = Inr (l', pl') \<longrightarrow> after env l' w')"
      using quiet_sections(11) consistent_view [of w' w]
      by (auto simp: quiet_def after_def) (auto simp: frame_def)
  qed
  have select: "keeps (before env) (then_exec (exec_coord_select env) (then_exec exec_distance
      (then_exec (exec_non_modal env) (then_exec (exec_motion env) (exec_flow env))))) env"
    by (rule keeps_then [OF distance])
      (use exec_coord_select_ok assms(1) in \<open>fastforce simp: before_def after_def block_offsets_def\<close>)
  have tlo: "keeps (before env) (then_exec (exec_tool_length env) (then_exec (exec_coord_select env)
      (then_exec exec_distance (then_exec (exec_non_modal env)
      (then_exec (exec_motion env) (exec_flow env)))))) env"
    by (rule keeps_then [OF select]) (use exec_tool_length_ok in \<open>fastforce simp: before_def\<close>)
  show ?thesis
    unfolding exec_sections_def
    by (rule keeps_quiet tlo quiet_sections quiet_tools quiet_wait)+
qed

subsection \<open>A line\<close>

lemma collapse_view: "collapseGCode input w = (line, w') \<Longrightarrow> offsets_view w' = offsets_view w"
  using collapse_kept view_kept by blast

lemma exec_jog_ok: "consistent env w \<Longrightarrow> exec_jog env l w = (e, w') \<Longrightarrow> consistent env w'"
  by (auto simp: exec_jog_def jog_execute_def Let_def split: if_splits prod.splits
      intro: consistent_set_position consistent_emit)

lemma parse_words_assignments:
  assumes "CHR ''#'' \<notin> set line" "parse_words env line l w = Inr (l', w')"
  shows "gw_assignments w' = gw_assignments w"
  using assms
proof (induction "length line" arbitrary: line l w rule: less_induct)
  case less
  show ?case
  proof (cases line)
    case Nil
    with less(3) show ?thesis by simp
  next
    case (Cons letter cs)
    from less(3)[unfolded Cons] show ?thesis
    proof (cases rule: parse_words_step)
      case (assign rest w1)
      with less(2) Cons show ?thesis by simp
    next
      case (word v rest l1 w1)
      have "length rest < length line" using world_number_length [OF word(2)] Cons by simp
      moreover have "CHR ''#'' \<notin> set rest"
        using ngc_number_within [OF word(2)[unfolded world_number_def]] less(2) Cons by auto
      ultimately have "gw_assignments w' = gw_assignments w1" using word(4) by (rule less(1))
      with parse_word_kept [OF word(3)] show ?thesis by (simp add: kept_of_def)
    qed
  qed
qed

lemma toupper_hash: "toupper c = CHR ''#'' \<Longrightarrow> c = CHR ''#''"
proof (rule ccontr)
  assume up: "toupper c = CHR ''#''" and "c \<noteq> CHR ''#''"
  then have n: "97 \<le> (of_char c :: nat)" "(of_char c :: nat) \<le> 122"
    and "char_of (of_char c - 32 :: nat) = CHR ''#''"
    by (auto simp: toupper_def Let_def split: if_splits)
  then have "of_char (char_of (of_char c - 32 :: nat)) = (35 :: nat)" by simp
  with n show False by (simp only: of_char_of) simp
qed

lemma collapse_letters: "collapse_loop ic hc line = (out, r) \<Longrightarrow> CHR ''#'' \<notin> set line \<Longrightarrow> CHR ''#'' \<notin> set out"
proof (induction ic hc line arbitrary: out r rule: collapse_loop.induct)
  case (2 ic hc c cs)
  have "toupper c = CHR ''#'' \<Longrightarrow> c = CHR ''#''" by (rule toupper_hash)
  with 2 show ?case by (auto simp: Let_def split: if_splits prod.splits)
qed simp

lemma collapse_no_assign:
  assumes "collapseGCode input w = (line, w')" "CHR ''#'' \<notin> set input"
  shows "CHR ''#'' \<notin> set line"
proof -
  obtain out hc ret where c: "collapse_loop False False input = (out, hc, ret)" by (cases "collapse_loop False False input") auto
  have "CHR ''#'' \<notin> set out" using collapse_letters [OF c assms(2)] .
  then show ?thesis using assms(1) by (auto simp: collapseGCode_def c split: if_splits)
qed

text \<open>No section touches the pending assignments.\<close>

definition no_assign :: "exec \<Rightarrow> bool" where
  "no_assign f \<longleftrightarrow> (\<forall>l pl w r w'. f l pl w = (r, w') \<longrightarrow> gw_assignments w' = gw_assignments w)"

lemma no_assign_then: "no_assign f \<Longrightarrow> no_assign g \<Longrightarrow> no_assign (then_exec f g)"
  unfolding no_assign_def then_exec_def by (fastforce split: prod.splits sum.splits)

lemma assignments_steps [simp]:
  "gw_assignments (gc_emit a w) = gw_assignments w" "gw_assignments (set_gc f w) = gw_assignments w"
  "gw_assignments (set_mode g w) = gw_assignments w" "gw_assignments (coords_set c d w) = gw_assignments w"
  "gw_assignments (gc_ovr_changed w) = gw_assignments w" "gw_assignments (gc_wco_changed w) = gw_assignments w"
  "gw_assignments (gc_ngc_changed c w) = gw_assignments w" "gw_assignments (end_job w) = gw_assignments w"
  "gw_assignments (set_position env p w) = gw_assignments w"
  "gw_assignments (gc_sync_position env w) = gw_assignments w"
  by (simp_all add: world_step_defs gc_sync_position_def end_job_def split: list.split)

lemma assignments_read_input: "gw_assignments (snd (set_numbered_param i v w)) = gw_assignments w"
  by (simp add: set_numbered_param_def set_coord_axis_def gc_emit_def gc_ngc_changed_def Let_def
      split: option.split)

lemma assignments_switch: "switch_to_selected env l w = (l', w') \<Longrightarrow> gw_assignments w' = gw_assignments w"
  by (auto simp: switch_to_selected_def switchSpindle_def Let_def split: option.splits if_splits)

lemma assignments_probe:
  "mc_probe_cycle env t pl a n x o' w = (upd, w') \<Longrightarrow> gw_assignments w' = gw_assignments w"
  by (auto simp: mc_probe_cycle_def apply_probe_offset_def Let_def split: if_splits probe_outcome.splits)

lemma no_assign_sections:
  "no_assign (exec_laser env)" "no_assign exec_feed" "no_assign (exec_speed env)"
  "no_assign (exec_tool_change env)" "no_assign (exec_set_tool env)" "no_assign (exec_spindle env)"
  "no_assign (exec_coolant env)" "no_assign (exec_digital env)" "no_assign (exec_analog env)"
  "no_assign (exec_wait env)" "no_assign (exec_override env)" "no_assign exec_dwell"
  "no_assign exec_plane_units" "no_assign (exec_tool_length env)" "no_assign (exec_coord_select env)"
  "no_assign exec_distance" "no_assign (exec_non_modal env)" "no_assign (exec_flow env)"
  unfolding no_assign_def exec_laser_def exec_feed_def exec_speed_def exec_tool_change_def
    exec_set_tool_def exec_spindle_def exec_coolant_def exec_digital_def exec_analog_def exec_wait_def
    exec_override_def exec_dwell_def exec_plane_units_def exec_tool_length_def exec_coord_select_def
    exec_distance_def exec_non_modal_def exec_flow_def gc_wait_on_input_def program_end_def
    exec_go_home_def exec_set_coords_def set_coord_offset_def
  by (auto simp: Let_def assignments_read_input assignments_switch
      split: if_splits prod.splits option.splits non_modal.splits program_flow.splits)

lemma no_assign_motion: "no_assign (exec_motion env)"
  by (auto simp: no_assign_def exec_motion_def run_motion_def Let_def dest!: assignments_probe
      split: if_splits prod.splits gc_update_pos.splits)

lemma sections_no_assign: "no_assign (exec_sections env)"
  unfolding exec_sections_def by (intro no_assign_then no_assign_sections no_assign_motion)

lemma exec_block_ok:
  assumes "exec_block env l w = (e, w')" "consistent env w" "block_offsets env w l"
    and "gw_assignments w = []" "wf_env env" "\<not> ge_check_mode env"
  shows "consistent env w'"
proof (cases "gl_jogMotion l")
  case True
  with assms(1,2) show ?thesis by (auto simp: exec_block_def intro: exec_jog_ok)
next
  case False
  obtain r w1 where run: "exec_sections env l plan_line_zero w = (r, w1)" by fastforce
  have "consistent env w1"
    using sections_consistent [OF assms(5,6)] assms(2,3) run by (auto simp: keeps_def before_def)
  moreover have "consistent env (w1\<lparr>gw_assignments := []\<rparr>)"
    using calculation by (rule consistent_view [rotated]) (simp add: offsets_view_def)
  moreover have "gw_assignments w1 = []"
    using sections_no_assign run assms(4) by (auto simp: no_assign_def)
  ultimately show ?thesis
    using assms(1) False run
    by (cases r) (auto simp: exec_block_def finish_line_def perform_assignments_def)
qed

lemma line_consistent:
  assumes "gc_execute_line env input w = Some (e, w')" "consistent env w"
    and "gw_assignments w = []" "CHR ''#'' \<notin> set input" "wf_env env" "\<not> ge_check_mode env"
  shows "consistent env w'"
proof (cases "127 < length input")
  case True
  with assms(1,2) show ?thesis by (simp add: gc_execute_line_def)
next
  case False
  obtain line w1 where c: "collapseGCode input w = (line, w1)" by fastforce
  define jog where "jog = (line \<noteq> [] \<and> hd line = CHR ''$'')"
  define rest where "rest = (if jog then drop 3 line else line)"
  define l where "l = start_locals env jog w1"
  have run: "(case parse_words env rest l w1 of
       Inl returned \<Rightarrow> returned
     | Inr (l, w) \<Rightarrow> (case check_block env l w of (Inl e, w) \<Rightarrow> Some (e, w)
                     | (Inr l, w) \<Rightarrow> Some (exec_block env l w))) = Some (e, w')"
    using assms(1) False by (simp add: gc_execute_line_def c Let_def jog_def rest_def l_def)
  have c1: "consistent env w1" using collapse_view [OF c] assms(2) by (rule consistent_view)
  have a1: "gw_assignments w1 = []" using collapse_kept [OF c] assms(3) by (simp add: kept_of_def)
  have l: "block_of (active_select w1) l"
    using c1 unfolding l_def by (intro start_locals_ok) (simp add: consistent_def active_offsets_def)
  have words: "CHR ''#'' \<notin> set rest"
    using collapse_no_assign [OF c assms(4)] set_drop_subset [of 3 line] by (auto simp: rest_def)
  show ?thesis
  proof (cases "parse_words env rest l w1")
    case (Inl returned)
    then have "only_assigns w1 w'" using run parse_words_only [of w1 env rest l] by simp
    then have "offsets_view w' = offsets_view w1" by (intro view_machine) (simp add: only_assigns_def)
    then show ?thesis using c1 by (rule consistent_view)
  next
    case (Inr b)
    obtain l1 w2 where p: "parse_words env rest l w1 = Inr (l1, w2)" using Inr by (cases b) auto
    have v2: "offsets_view w2 = offsets_view w1"
      using parse_words_only [of w1 env rest l] p by (intro view_machine) (simp add: only_assigns_def)
    have c2: "consistent env w2" using v2 c1 by (rule consistent_view)
    have a2: "gw_assignments w2 = []" using parse_words_assignments [OF words p] a1 by simp
    have b2: "block_of (active_select w2) l1"
      using parse_words_ok [OF p l] v2 by (simp add: offsets_view_def)
    obtain r w3 where k: "check_block env l1 w2 = (r, w3)" by fastforce
    have a3: "gw_assignments w3 = []" using check_block_kept [OF k] a2 by (simp add: kept_of_def)
    show ?thesis
    proof (cases r)
      case (Inl e1)
      have "offsets_view w3 = offsets_view w2" using check_block_kept [OF k] by (rule view_kept)
      then have "consistent env w3" using c2 by (rule consistent_view)
      with run p k Inl show ?thesis by simp
    next
      case (Inr l2)
      note ready = check_block_offsets [OF b2 c2 k [unfolded Inr]]
      have "exec_block env l2 w3 = (e, w')" using run p k Inr by simp
      then show ?thesis using ready a3 assms(5,6) by (rule exec_block_ok)
    qed
  qed
qed

end
