(* ===== verification/GcodeJog.thy ===== *)
theory GcodeJog
  imports GcodeInvariants
begin

text \<open>
  What a jog line leaves alone: modes, offsets, parameters and coordinate systems stay as they
  are and at most one motion, marked as a jog, goes to the planner.
\<close>

subsection \<open>Jogs\<close>

text \<open>What a jog leaves alone: everything but the position and what it hands to the planner.\<close>

definition unmoved :: "gc_world \<Rightarrow> parser_state \<times> (u16 \<Rightarrow> real list) \<times> (u32 \<rightharpoonup> real) \<times> (string \<rightharpoonup> real) \<times> nat" where
  "unmoved w = ((settled (gw_gc w))\<lparr>gs_position := []\<rparr>, gw_coords w, gw_float_params w, gw_named w, gw_spindle w)"

definition only_jogs :: "gc_world \<Rightarrow> gc_world \<Rightarrow> bool" where
  "only_jogs w w' \<longleftrightarrow> unmoved w' = unmoved w \<and>
     (filter physical (gw_out w') = filter physical (gw_out w) \<or>
      (\<exists>target pl. filter physical (gw_out w')
          = filter physical (gw_out w) @ [AcLinear target pl (gs_position (gw_gc w))] \<and> pl_is_jog pl))"

lemma only_jogs_machine: "machine_of w' = machine_of w \<Longrightarrow> only_jogs w w'"
  by (simp add: only_jogs_def unmoved_def machine_of_def)

lemma exec_jog_only: "exec_jog env l w = (e, w') \<Longrightarrow> only_jogs w w'"
  by (cases "ge_constrain_jog env (v_xyz (l_values l))")
    (auto simp: exec_jog_def jog_execute_def only_jogs_def unmoved_def settled_def gc_emit_def
      physical_def set_position_def set_gc_def Let_def split: if_splits)

lemma only_jogs_start:
  assumes "machine_of w1 = machine_of w" "only_jogs w1 w'"
  shows "only_jogs w w'"
proof -
  have "gs_position (settled (gw_gc w1)) = gs_position (settled (gw_gc w))"
    using assms(1) by (simp add: machine_of_def)
  then have "gs_position (gw_gc w1) = gs_position (gw_gc w)" by (simp add: settled_def)
  with assms show ?thesis by (simp add: only_jogs_def unmoved_def machine_of_def)
qed

subsection \<open>A line stays a jog\<close>

abbreviation same_jog :: "gc_locals \<Rightarrow> gc_locals \<Rightarrow> bool" where
  "same_jog l l' \<equiv> gl_jogMotion l' = gl_jogMotion l"

lemma check_group_jog: "check_group g l = Inr l' \<Longrightarrow> same_jog l l'"
  by (auto simp: check_group_def split: if_splits)

lemma g_word_parts_jog:
  "check_mantissa m l = Inr (g, m', l') \<Longrightarrow> same_jog l l'"
  "g_probe env m l = Inr (g, m', l') \<Longrightarrow> same_jog l l'"
  "g_modes i m l = Inr (g, m', l') \<Longrightarrow> same_jog l l'"
  "g_tool_length i m l = Inr (g, m', l') \<Longrightarrow> same_jog l l'"
  "g_coords i m l = Inr (g, m', l') \<Longrightarrow> same_jog l l'"
  by (auto simp: check_mantissa_def g_probe_def set_motion_def g_modes_def g_tool_length_def
      g_coords_def locals_defs Let_def split: if_splits prod.splits)

lemma g_word_jog: "g_word env i m l = Inr (g, m', l') \<Longrightarrow> same_jog l l'"
  by (auto simp: g_word_def g_non_modal_def g_motion_def Let_def split: if_splits
      dest!: g_word_parts_jog) (auto simp: set_motion_def locals_defs)

lemma letter_g_jog: "letter_g env i m l = Inr l' \<Longrightarrow> same_jog l l'"
  by (auto simp: letter_g_def split: sum.splits if_splits dest!: check_group_jog g_word_jog)

lemma m_word_jog: "m_word env sp i m l = Inr (g, l') \<Longrightarrow> same_jog l l'"
  by (auto simp: m_word_def m_spindle_word_def m_coolant_word_def set_flow_def set_io_def
      set_coolant_def locals_defs split: if_splits sum.splits)

lemma letter_m_jog: "letter_m env sp i m l = Inr l' \<Longrightarrow> same_jog l l'"
  by (auto simp: letter_m_def split: sum.splits if_splits dest!: check_group_jog m_word_jog)

lemma value_word_jog: "value_word env letter v i m l w = Inr (wd, l', w') \<Longrightarrow> same_jog l l'"
  by (auto simp: value_word_def simple_word_def set_axis_value_def set_offset_def locals_defs
      split: option.splits if_splits)

lemma check_word_jog: "check_word wd v l = Inr l' \<Longrightarrow> same_jog l l'"
  by (auto simp: check_word_def split: if_splits)

lemma parse_word_jog: "parse_word env letter v l w = (Inr l', w') \<Longrightarrow> same_jog l l'"
  by (auto simp: parse_word_def Let_def split: if_splits sum.splits prod.splits
      dest!: letter_g_jog letter_m_jog check_word_jog value_word_jog)

lemma parse_words_jog:
  assumes "parse_words env line l w = Inr (l', w')"
  shows "same_jog l l'"
  using assms
proof (induction "length line" arbitrary: line l w rule: less_induct)
  case less
  show ?case
  proof (cases line)
    case Nil
    with less(2) show ?thesis by simp
  next
    case (Cons letter cs)
    from less(2)[unfolded Cons] show ?thesis
    proof (cases rule: parse_words_step)
      case (assign rest w1)
      have "length rest < length line" using assign_param_length [OF assign(2)] Cons by simp
      then show ?thesis by (rule less(1) [OF _ assign(3)])
    next
      case (word v rest l1 w1)
      have "length rest < length line" using world_number_length [OF word(2)] Cons by simp
      then have "same_jog l1 l'" by (rule less(1) [OF _ word(4)])
      with parse_word_jog [OF word(3)] show ?thesis by simp
    qed
  qed
qed

lemma clear_word_jog [simp]: "gl_jogMotion (clear_word wd l) = gl_jogMotion l"
  by (simp add: clear_word_def)

lemma clear_words_jog [simp]: "gl_jogMotion (clear_words wds l) = gl_jogMotion l"
  by (induction wds l rule: clear_words.induct) simp_all

lemma update_jog [simp]: "gl_jogMotion (update_values f l) = gl_jogMotion l"
  "gl_jogMotion (update_modal g l) = gl_jogMotion l" "gl_jogMotion (update_xyz h l) = gl_jogMotion l"
  "gl_jogMotion (set_ijk a v l) = gl_jogMotion l" "gl_jogMotion (set_radius v l) = gl_jogMotion l"
  by (simp_all add: update_xyz_def set_ijk_def set_radius_def locals_defs)

lemma checks_jog:
  "check_common l gc = Inr l' \<Longrightarrow> same_jog l l'" "check_feed l gc = Inr l' \<Longrightarrow> same_jog l l'"
  "check_spindle_speed l gc = Inr l' \<Longrightarrow> same_jog l l'" "check_parking env l gc = Inr l' \<Longrightarrow> same_jog l l'"
  "check_dwell l gc = Inr l' \<Longrightarrow> same_jog l l'" "check_digital_io l gc = Inr l' \<Longrightarrow> same_jog l l'"
  "check_analog_io l gc = Inr l' \<Longrightarrow> same_jog l l'" "check_tool_number l gc = Inr l' \<Longrightarrow> same_jog l l'"
  "select_plane l gc = Inr l' \<Longrightarrow> same_jog l l'" "convert_units env l gc = Inr l' \<Longrightarrow> same_jog l l'"
  "check_wait l gc = Inr l' \<Longrightarrow> same_jog l l'" "check_unused l gc = Inr l' \<Longrightarrow> same_jog l l'"
  "check_probe l gc = Inr l' \<Longrightarrow> same_jog l l'" "arc_by_radius x y l gc = Inr l' \<Longrightarrow> same_jog l l'"
  "arc_by_centre env x y l = Inr l' \<Longrightarrow> same_jog l l'"
  by (auto simp: check_common_def check_feed_def scale_feed_def check_spindle_speed_def
      check_parking_def check_dwell_def check_digital_io_def check_analog_io_def check_tool_number_def
      select_plane_def convert_units_def check_wait_def check_unused_def check_probe_def
      arc_by_radius_def arc_by_centre_def Let_def
      simp del: clear_words.simps split: if_splits gc_plane.splits option.splits)

lemma check_arc_jog: "check_arc env l gc = Inr l' \<Longrightarrow> same_jog l l'"
  by (auto simp: check_arc_def Let_def split: if_splits dest!: map_sum_Inr checks_jog)

lemma check_motion_jog: "check_motion env l gc = Inr l' \<Longrightarrow> same_jog l l'"
  by (auto simp: check_motion_def drop_motion_without_axes_def Let_def
      split: if_splits gc_motion.splits dest!: check_arc_jog checks_jog)

lemma world_checks_jog:
  "announce_tool_length l w = (Inr l', w') \<Longrightarrow> same_jog l l'"
  "select_coords l w = (Inr l', w') \<Longrightarrow> same_jog l l'"
  "check_non_modal env l w = (Inr l', w') \<Longrightarrow> same_jog l l'"
  by (auto simp: announce_tool_length_def select_coords_def check_non_modal_def check_set_coords_def
      check_set_offset_def compute_target_def check_go_home_def Let_def
      split: if_splits non_modal.splits)

lemma then_check_jog:
  assumes "then_check f g l w = (Inr l', w')"
    and "\<And>l w l' w'. f l w = (Inr l', w') \<Longrightarrow> same_jog l l'"
    and "\<And>l w l' w'. g l w = (Inr l', w') \<Longrightarrow> same_jog l l'"
  shows "same_jog l l'"
  using then_check_Inr [OF assms(1)] assms(2,3) by fastforce

lemma pure_check_jog:
  assumes "pure_check f l w = (Inr l', w')" "\<And>l gc l'. f l gc = Inr l' \<Longrightarrow> same_jog l l'"
  shows "same_jog l l'"
  using assms by (auto simp: pure_check_def)

lemma check_block_jog: "check_block env l w = (Inr l', w') \<Longrightarrow> same_jog l l'"
  unfolding check_block_def
  by (erule then_check_jog pure_check_jog checks_jog check_motion_jog world_checks_jog)+

subsection \<open>The whole line\<close>

lemma jog_line:
  assumes "gc_execute_line env input w = Some (e, w')"
    and "collapseGCode input w = (CHR ''$'' # rest, w1)"
  shows "only_jogs w w'"
proof (cases "127 < length input")
  case True
  with assms(1) show ?thesis by (simp add: gc_execute_line_def only_jogs_def)
next
  case False
  have w1: "w1 = w" using assms(2) by (rule collapse_nonempty)
  define l where "l = start_locals env True w"
  have l: "gl_jogMotion l" by (simp add: l_def start_locals_def locals_defs Let_def)
  have run: "(case parse_words env (drop 2 rest) l w of
       Inl returned \<Rightarrow> returned
     | Inr (l, w) \<Rightarrow> (case check_block env l w of (Inl e, w) \<Rightarrow> Some (e, w)
                     | (Inr l, w) \<Rightarrow> Some (exec_block env l w))) = Some (e, w')"
    using assms False by (simp add: gc_execute_line_def Let_def w1 l_def)
  show ?thesis
  proof (cases "parse_words env (drop 2 rest) l w")
    case (Inl returned)
    then have "only_assigns w w'" using run parse_words_only [of w env "drop 2 rest" l] by simp
    then show ?thesis by (intro only_jogs_machine) (simp add: only_assigns_def)
  next
    case (Inr b)
    obtain l1 w2 where p: "parse_words env (drop 2 rest) l w = Inr (l1, w2)" using Inr by (cases b) auto
    have m2: "machine_of w2 = machine_of w"
      using parse_words_only [of w env "drop 2 rest" l] p by (simp add: only_assigns_def)
    obtain r w3 where k: "check_block env l1 w2 = (r, w3)" by fastforce
    have m3: "machine_of w3 = machine_of w" using check_block_kept [OF k] m2 by (simp add: kept_of_def)
    show ?thesis
    proof (cases r)
      case (Inl e1)
      with run p k m3 show ?thesis by (simp add: only_jogs_machine)
    next
      case (Inr l2)
      have "gl_jogMotion l2" using check_block_jog [OF k [unfolded Inr]] parse_words_jog [OF p] l by simp
      then have "exec_jog env l2 w3 = (e, w')" using run p k Inr by (simp add: exec_block_def)
      then show ?thesis by (intro only_jogs_start [OF m3]) (rule exec_jog_only)
    qed
  qed
qed

end
