(* ===== verification/GcodeMotion.thy ===== *)
theory GcodeMotion
  imports GcodeBehaviour
begin

text \<open>
  Which lines cut: a line hands at most one motion to the discharge control, only a feed
  motion, only while the spindle that it selects is the discharge spindle and runs, and the
  position of the interpreter moves from the start of the cut to its target.
\<close>

subsection \<open>Cuts\<close>

primrec cut_of :: "gc_action \<Rightarrow> (real list \<times> real list) option" where
  "cut_of (AcCut target pl position) = Some (position, target)"
| "cut_of (AcCutArc target pl position ijk r a0 a1 cw n) = Some (position, target)"
| "cut_of AcSynchronize = None" | "cut_of (AcNgcChanged c) = None" | "cut_of AcWcoChanged = None"
| "cut_of AcOvrChanged = None" | "cut_of (AcSaveCoords c) = None" | "cut_of (AcSetConfig s v) = None"
| "cut_of (AcSpindle s v) = None" | "cut_of (AcSpindleStop n) = None" | "cut_of (AcToolChange t b) = None"
| "cut_of (AcCoolant c) = None" | "cut_of (AcDigital n b) = None" | "cut_of (AcAnalog n v) = None"
| "cut_of (AcOverrideControl c) = None" | "cut_of (AcDwell n) = None" | "cut_of (AcAlarmRaised n) = None"
| "cut_of AcFeedHold = None" | "cut_of AcJobPercent = None" | "cut_of AcResetOverrides = None"
| "cut_of AcSpinDown = None" | "cut_of AcCoolantOff = None" | "cut_of AcProgramEnd = None"
| "cut_of (AcLinear t pl p) = None" | "cut_of (AcArc t pl p ijk r a0 a1 al cw n) = None"
| "cut_of (AcProbeDirection b) = None" | "cut_of AcCycleStart = None" | "cut_of AcPlannerReset = None"

definition cuts :: "gc_world \<Rightarrow> (real list \<times> real list) list" where
  "cuts w = map (the \<circ> cut_of) (filter (\<lambda>a. cut_of a \<noteq> None) (gw_out w))"

definition cut_view :: "gc_world \<Rightarrow> (real list \<times> real list) list \<times> nat \<times> spindle_state \<times> bool" where
  "cut_view w = (cuts w, gw_spindle w, m_spindle (gs_modal (gw_gc w)), AcProgramEnd \<in> set (gw_out w))"

lemma cuts_emit: "cuts (gc_emit a w) = cuts w @ (case cut_of a of None \<Rightarrow> [] | Some c \<Rightarrow> [c])"
  by (auto simp: cuts_def gc_emit_def split: option.split)

lemma cuts_simps [simp]:
  "cut_of a = None \<Longrightarrow> cuts (gc_emit a w) = cuts w"
  "cuts (set_gc f w) = cuts w" "cuts (set_mode g w) = cuts w"
  "cuts (gc_ngc_changed c w) = cuts w" "cuts (gc_wco_changed w) = cuts w"
  "cuts (gc_ovr_changed w) = cuts w" "cuts (coords_set c d w) = cuts w"
  "cuts (set_position env p w) = cuts w" "cuts (gc_sync_position env w) = cuts w"
  "cuts (w\<lparr>gw_gc := gc\<rparr>) = cuts w" "cuts (w\<lparr>gw_spindle := i\<rparr>) = cuts w"
  "cuts (w\<lparr>gw_coords := cs\<rparr>) = cuts w" "cuts (w\<lparr>gw_float_params := fp\<rparr>) = cuts w"
  "cuts (w\<lparr>gw_jobs := js\<rparr>) = cuts w" "cuts (w\<lparr>gw_named := ns\<rparr>) = cuts w"
  "cuts (w\<lparr>gw_assignments := as\<rparr>) = cuts w" "cuts (w\<lparr>gw_context := cx\<rparr>) = cuts w"
  by (simp_all add: cuts_def world_step_defs gc_sync_position_def)

lemma emit_fields [simp]: "gw_gc (gc_emit a w) = gw_gc w" "gw_spindle (gc_emit a w) = gw_spindle w"
  by (simp_all add: gc_emit_def)

definition no_cut :: "exec \<Rightarrow> bool" where
  "no_cut f \<longleftrightarrow> (\<forall>l pl w r w'. f l pl w = (r, w') \<longrightarrow> cuts w' = cuts w)"

lemma no_cut_then: "no_cut f \<Longrightarrow> no_cut g \<Longrightarrow> no_cut (then_exec f g)"
  by (fastforce simp: no_cut_def then_exec_def split: prod.splits sum.splits)

lemma cuts_switch: "switch_to_selected env l w = (l', w') \<Longrightarrow> cuts w' = cuts w"
  by (auto simp: switch_to_selected_def switchSpindle_def Let_def split: option.splits if_splits)

lemma cuts_set_param: "cuts (snd (set_numbered_param i v w)) = cuts w"
  by (auto simp: set_numbered_param_def set_coord_axis_def Let_def split: option.split)

lemma no_cut_sections:
  "no_cut (exec_laser env)" "no_cut exec_feed" "no_cut (exec_speed env)"
  "no_cut (exec_tool_change env)" "no_cut (exec_set_tool env)" "no_cut (exec_spindle env)"
  "no_cut (exec_coolant env)" "no_cut (exec_digital env)" "no_cut (exec_analog env)"
  "no_cut (exec_wait env)" "no_cut (exec_override env)" "no_cut exec_dwell"
  "no_cut exec_plane_units" "no_cut (exec_tool_length env)" "no_cut (exec_coord_select env)"
  "no_cut exec_distance" "no_cut (exec_non_modal env)"
  unfolding no_cut_def exec_laser_def exec_feed_def exec_speed_def exec_tool_change_def exec_set_tool_def
    exec_spindle_def exec_coolant_def exec_digital_def exec_analog_def exec_wait_def gc_wait_on_input_def
    exec_override_def exec_dwell_def exec_plane_units_def exec_tool_length_def exec_coord_select_def
    exec_distance_def exec_non_modal_def exec_set_coords_def exec_go_home_def set_coord_offset_def
  by (auto simp: Let_def cuts_set_param split: if_splits prod.splits option.splits non_modal.splits
      dest: cuts_switch)

subsection \<open>The motion of a line\<close>

text \<open>What a line adds: nothing, or one cut from where the interpreter stood.\<close>

definition cut_made :: "gc_env \<Rightarrow> gc_error option \<Rightarrow> gc_world \<Rightarrow> gc_world \<Rightarrow> bool" where
  "cut_made env status w w' \<longleftrightarrow>
     (\<exists>start target. cuts w' = cuts w @ [(start, target)]
        \<and> ge_spindle_is_edm env (gw_spindle w') \<and> ge_spindle_rate_adjusted env (gw_spindle w')
        \<and> (m_spindle (gs_modal (gw_gc w')) = SpCw \<or> AcProgramEnd \<in> set (gw_out w'))
        \<and> is_feed_motion (m_motion (gs_modal (gw_gc w')))
        \<and> gs_position (gw_gc w') = (if status = Some EReset then start else copy_axes env start target))"

definition cuts_at_most_once :: "gc_env \<Rightarrow> gc_error option \<Rightarrow> gc_world \<Rightarrow> gc_world \<Rightarrow> bool" where
  "cuts_at_most_once env status w w' \<longleftrightarrow> cuts w' = cuts w \<or> cut_made env status w w'"

lemma cuts_probe: "mc_probe_cycle env t pl away ne ax off w = (u, w') \<Longrightarrow> cuts w' = cuts w"
  by (auto simp: mc_probe_cycle_def apply_probe_offset_def Let_def split: if_splits probe_outcome.splits)

lemma run_motion_cuts:
  assumes "run_motion env l pl w = (u, w')"
  shows "cuts w' = cuts w \<or>
    u = UpdTarget \<and> edm_cut env w \<and> is_feed_motion (m_motion (l_modal l))
      \<and> cuts w' = cuts w @ [(gs_position (gw_gc w), v_xyz (l_values l))]
      \<and> gw_spindle w' = gw_spindle w \<and> gw_gc w' = gw_gc w"
  using assms
  by (auto simp: run_motion_def program_motion_def cuts_emit is_feed_motion_def Let_def
      split: if_splits dest: cuts_probe) 

lemma exec_motion_cuts:
  assumes "exec_motion env l pl w = (r, w')"
  shows "cuts_at_most_once env (case r of Inl e \<Rightarrow> Some e | Inr _ \<Rightarrow> None) w w'"
proof -
  define w1 where "w1 = set_mode (\<lambda>m. m\<lparr>m_motion := m_motion (l_modal l)\<rparr>) w"
  have w1: "cuts w1 = cuts w" "gw_spindle w1 = gw_spindle w"
    "m_spindle (gs_modal (gw_gc w1)) = m_spindle (gs_modal (gw_gc w))"
    "m_motion (gs_modal (gw_gc w1)) = m_motion (l_modal l)"
    by (simp_all add: w1_def set_mode_def set_gc_def)
  show ?thesis
  proof (cases "m_motion (l_modal l) \<noteq> MoNone \<and> gl_axis_command l = AcMotionMode")
    case False
    then have "cuts w' = cuts w" using assms w1 by (auto simp: exec_motion_def w1_def [symmetric] Let_def)
    then show ?thesis by (simp add: cuts_at_most_once_def)
  next
    case True
    obtain u w2 where run: "run_motion env l pl w1 = (u, w2)" by fastforce
    have r: "if ge_abort env then r = Inl EReset \<and> w' = w2
        else r = Inr (l, pl) \<and> w' = (case u of UpdTarget \<Rightarrow> set_position env (v_xyz (l_values l)) w2
             | UpdSystem \<Rightarrow> gc_sync_position env w2 | UpdNone \<Rightarrow> w2)"
      using assms True run by (auto simp: exec_motion_def w1_def [symmetric] Let_def)
    then have c: "cuts w' = cuts w2" by (auto split: if_splits gc_update_pos.splits)
    from run_motion_cuts [OF run] show ?thesis
    proof
      assume "cuts w2 = cuts w1"
      then show ?thesis using c w1 by (simp add: cuts_at_most_once_def)
    next
      assume a: "u = UpdTarget \<and> edm_cut env w1 \<and> is_feed_motion (m_motion (l_modal l))
        \<and> cuts w2 = cuts w1 @ [(gs_position (gw_gc w1), v_xyz (l_values l))]
        \<and> gw_spindle w2 = gw_spindle w1 \<and> gw_gc w2 = gw_gc w1"
      then show ?thesis
        using r c w1
        by (auto simp: cuts_at_most_once_def cut_made_def edm_cut_def set_position_def set_gc_def
            split: if_splits)
    qed
  qed
qed

text \<open>What the rest of the line does to a cut that was made.\<close>

definition settles :: "gc_world \<Rightarrow> gc_world \<Rightarrow> bool" where
  "settles w w' \<longleftrightarrow> cuts w' = cuts w \<and> gw_spindle w' = gw_spindle w
     \<and> gs_position (gw_gc w') = gs_position (gw_gc w)
     \<and> set (gw_out w) \<subseteq> set (gw_out w')
     \<and> (m_spindle (gs_modal (gw_gc w')) = m_spindle (gs_modal (gw_gc w)) \<or> AcProgramEnd \<in> set (gw_out w'))
     \<and> (m_motion (gs_modal (gw_gc w')) = m_motion (gs_modal (gw_gc w))
        \<or> m_motion (gs_modal (gw_gc w')) = MoLinear)"

lemma settles_refl [simp]: "settles w w"
  by (simp add: settles_def)

lemma settles_trans: "settles w1 w2 \<Longrightarrow> settles w2 w3 \<Longrightarrow> settles w1 w3"
  by (auto simp: settles_def)

lemma cuts_settle:
  assumes "cuts_at_most_once env status w w1" "settles w1 w2"
  shows "cuts_at_most_once env status w w2"
  using assms(1) unfolding cuts_at_most_once_def
proof
  assume "cuts w1 = cuts w"
  with assms(2) show "cuts w2 = cuts w \<or> cut_made env status w w2" by (simp add: settles_def)
next
  assume "cut_made env status w w1"
  then obtain start target where c: "cuts w1 = cuts w @ [(start, target)]"
    "ge_spindle_is_edm env (gw_spindle w1)" "ge_spindle_rate_adjusted env (gw_spindle w1)"
    "m_spindle (gs_modal (gw_gc w1)) = SpCw \<or> AcProgramEnd \<in> set (gw_out w1)"
    "is_feed_motion (m_motion (gs_modal (gw_gc w1)))"
    "gs_position (gw_gc w1) = (if status = Some EReset then start else copy_axes env start target)"
    unfolding cut_made_def by blast
  have "is_feed_motion (m_motion (gs_modal (gw_gc w2)))"
    using c(5) assms(2) by (auto simp: settles_def is_feed_motion_def)
  moreover have "m_spindle (gs_modal (gw_gc w2)) = SpCw \<or> AcProgramEnd \<in> set (gw_out w2)"
    using c(4) assms(2) by (auto simp: settles_def)
  ultimately have "cut_made env status w w2"
    unfolding cut_made_def
    by (intro exI [of _ start] exI [of _ target]) (use c assms(2) in \<open>simp add: settles_def\<close>)
  then show "cuts w2 = cuts w \<or> cut_made env status w w2" ..
qed

lemma cuts_start: "cuts w1 = cuts w \<Longrightarrow> cuts_at_most_once env status w1 w' \<Longrightarrow> cuts_at_most_once env status w w'"
  by (simp add: cuts_at_most_once_def cut_made_def)

lemma settles_numbered: "settles w (snd (set_numbered_param i v w))"
proof (cases "find_axis_param i axis_params")
  case None
  then show ?thesis
    by (simp add: set_numbered_param_def Let_def settles_def gc_ngc_changed_def gc_emit_def cuts_def subset_insertI)
next
  case (Some p)
  then show ?thesis
    by (cases p) (simp add: set_numbered_param_def set_coord_axis_def settles_def gc_ngc_changed_def gc_emit_def cuts_def subset_insertI)
qed

lemma settles_named:
  "settles w (snd (set_config_item env name v w))" "settles w (snd (set_named_param name v w))"
  "settles w (snd (job_set_param name v w))"
  by (auto simp: settles_def set_config_item_def set_named_param_def job_set_param_def gc_emit_def cuts_def
      split: list.split)

lemma set_param_settles: "settles w (snd (set_param env ref v w))"
  by (simp add: set_param_def Let_def settles_numbered settles_named)

lemma assign_all_settles: "settles w (snd (assign_all env as ok w))"
proof (induction as arbitrary: ok w)
  case Nil
  then show ?case by simp
next
  case (Cons a as)
  obtain ref v where a: "a = (ref, v)" by (cases a)
  obtain ok' w1 where p: "set_param env ref v w = (ok', w1)" by fastforce
  have "settles w w1" using set_param_settles [of w env ref v] p by simp
  moreover have "settles w1 (snd (assign_all env as (if ok' then ok else False) w1))" by (rule Cons.IH)
  ultimately show ?case by (auto simp: a p intro: settles_trans)
qed

lemma finish_settles:
  assumes "finish_line env w = (e, w')"
  shows "settles w w'" "e \<noteq> EReset"
proof -
  obtain ok w1 where a: "assign_all env (gw_assignments w) True w = (ok, w1)" by fastforce
  have "settles w w1" using assign_all_settles [of w env "gw_assignments w" True] a by simp
  moreover have "settles w1 (w1\<lparr>gw_assignments := []\<rparr>)" by (simp add: settles_def)
  ultimately have "settles w (w1\<lparr>gw_assignments := []\<rparr>)" by (rule settles_trans)
  with assms show "settles w w'" by (simp add: finish_line_def perform_assignments_def a)
  show "e \<noteq> EReset"
    using assms by (cases ok) (auto simp: finish_line_def perform_assignments_def a)
qed

lemma program_end_settles: "settles w (program_end env w)"
  by (auto simp: settles_def program_end_def program_end_modes_def end_job_def cuts_def world_step_defs
      Let_def split: list.split)

lemma exec_flow_settles: "exec_flow env l pl w = (r, w') \<Longrightarrow> r = Inr (l, pl) \<and> settles w w'"
proof -
  have mode: "settles w1 (set_mode (\<lambda>m. m\<lparr>m_program_flow := PfRunning\<rparr>) w1)" for w1
    by (simp add: settles_def set_mode_def set_gc_def cuts_def)
  have hold: "settles w (gc_emit AcSynchronize w)" "settles w (gc_emit AcFeedHold (gc_emit AcSynchronize w))"
    by (auto simp: settles_def gc_emit_def cuts_def)
  assume "exec_flow env l pl w = (r, w')"
  then show ?thesis
    using program_end_settles [of w env] hold mode
    by (auto simp: exec_flow_def Let_def split: program_flow.splits if_splits intro: settles_trans)
qed

subsection \<open>The execution of a block\<close>

definition cuts_once :: "gc_env \<Rightarrow> exec \<Rightarrow> bool" where
  "cuts_once env f \<longleftrightarrow> (\<forall>l pl w r w'. f l pl w = (r, w') \<longrightarrow>
     cuts_at_most_once env (case r of Inl e \<Rightarrow> Some e | Inr _ \<Rightarrow> None) w w')"

lemma cuts_once_then:
  assumes "no_cut f" "cuts_once env g"
  shows "cuts_once env (then_exec f g)"
  unfolding cuts_once_def
proof (intro allI impI)
  fix l pl w r w'
  assume run: "then_exec f g l pl w = (r, w')"
  obtain r1 w1 where f: "f l pl w = (r1, w1)" by fastforce
  have c: "cuts w1 = cuts w" using assms(1) f by (auto simp: no_cut_def)
  show "cuts_at_most_once env (case r of Inl e \<Rightarrow> Some e | Inr _ \<Rightarrow> None) w w'"
  proof (cases r1)
    case (Inl e)
    with run f c show ?thesis by (simp add: then_exec_def cuts_at_most_once_def)
  next
    case (Inr x)
    obtain l1 pl1 where "x = (l1, pl1)" by (cases x)
    then have "g l1 pl1 w1 = (r, w')" using run f Inr by (simp add: then_exec_def)
    then have "cuts_at_most_once env (case r of Inl e \<Rightarrow> Some e | Inr _ \<Rightarrow> None) w1 w'"
      using assms(2) by (auto simp: cuts_once_def)
    then show ?thesis by (rule cuts_start [OF c])
  qed
qed

lemma cuts_once_motion: "cuts_once env (then_exec (exec_motion env) (exec_flow env))"
  unfolding cuts_once_def
proof (intro allI impI)
  fix l pl w r w'
  assume run: "then_exec (exec_motion env) (exec_flow env) l pl w = (r, w')"
  obtain r1 w1 where m: "exec_motion env l pl w = (r1, w1)" by fastforce
  note made = exec_motion_cuts [OF m]
  show "cuts_at_most_once env (case r of Inl e \<Rightarrow> Some e | Inr _ \<Rightarrow> None) w w'"
  proof (cases r1)
    case (Inl e)
    with run m made show ?thesis by (simp add: then_exec_def)
  next
    case (Inr x)
    obtain l1 pl1 where "x = (l1, pl1)" by (cases x)
    then have "exec_flow env l1 pl1 w1 = (r, w')" using run m Inr by (simp add: then_exec_def)
    from exec_flow_settles [OF this] show ?thesis
      using cuts_settle [OF made] Inr by auto
  qed
qed

lemma exec_sections_cuts: "cuts_once env (exec_sections env)"
  unfolding exec_sections_def
  by (rule cuts_once_motion cuts_once_then no_cut_sections)+

lemma exec_block_cuts:
  assumes "exec_block env l w = (e, w')"
  shows "cuts_at_most_once env (Some e) w w'"
proof (cases "gl_jogMotion l")
  case True
  with assms have "cuts w' = cuts w"
    by (auto simp: exec_block_def exec_jog_def jog_execute_def Let_def split: if_splits prod.splits)
  then show ?thesis by (simp add: cuts_at_most_once_def)
next
  case False
  obtain r w1 where s: "exec_sections env l plan_line_zero w = (r, w1)" by fastforce
  then have made: "cuts_at_most_once env (case r of Inl e \<Rightarrow> Some e | Inr _ \<Rightarrow> None) w w1"
    using exec_sections_cuts by (auto simp: cuts_once_def)
  show ?thesis
  proof (cases r)
    case (Inl e1)
    with False assms s made show ?thesis by (simp add: exec_block_def)
  next
    case (Inr x)
    then have f: "finish_line env w1 = (e, w')" using False assms s by (simp add: exec_block_def)
    have "cuts_at_most_once env None w w'"
      using cuts_settle [OF made finish_settles(1) [OF f]] Inr by simp
    then show ?thesis
      using finish_settles(2) [OF f] by (auto simp: cuts_at_most_once_def cut_made_def)
  qed
qed

subsection \<open>A line\<close>

lemma physical_cut: "cut_of a \<noteq> None \<Longrightarrow> physical a"
  by (cases a) (simp_all add: physical_def)

lemma cuts_physical: "cuts w = map (the \<circ> cut_of) (filter (\<lambda>a. cut_of a \<noteq> None) (filter physical (gw_out w)))"
proof -
  have "filter (\<lambda>a. cut_of a \<noteq> None) (filter physical xs) = filter (\<lambda>a. cut_of a \<noteq> None) xs" for xs
    unfolding filter_filter by (rule filter_cong) (use physical_cut in auto)
  then show ?thesis by (simp add: cuts_def)
qed

lemma cuts_machine: "machine_of w' = machine_of w \<Longrightarrow> cuts w' = cuts w"
  by (simp add: cuts_physical machine_of_def)

lemma only_assigns_cuts: "only_assigns w w' \<Longrightarrow> cuts w' = cuts w"
  by (rule cuts_machine) (simp add: only_assigns_def)

lemma kept_cuts: "kept_of w' = kept_of w \<Longrightarrow> cuts w' = cuts w"
  by (rule cuts_machine) (simp add: kept_of_def)

lemma no_cuts: "cuts w' = cuts w \<Longrightarrow> cuts_at_most_once env status w w'"
  unfolding cuts_at_most_once_def ..

lemma line_cuts:
  assumes "gc_execute_line env input w = Some (e, w')"
  shows "cuts_at_most_once env (Some e) w w'"
  using assms
proof (cases rule: execute_line_cases)
  case long
  then show ?thesis by (simp add: cuts_at_most_once_def)
next
  case (returned line w1 l)
  have "only_assigns w1 w'" using parse_words_only [of w1 env line l] returned by simp
  then have "cuts w' = cuts w" using kept_cuts [OF collapse_kept [OF returned(1)]] only_assigns_cuts by force
  then show ?thesis by (rule no_cuts)
next
  case (jog line w1 l)
  have "only_assigns w1 w'" using parse_words_only [of w1 env "drop 3 line" l] jog by simp
  then have "cuts w' = cuts w" using kept_cuts [OF collapse_kept [OF jog(1)]] only_assigns_cuts by force
  then show ?thesis by (rule no_cuts)
next
  case (block w1 line l1 w2 r w3)
  have "only_assigns w1 w2" using block(2) by simp
  then have "cuts w2 = cuts w" using kept_cuts [OF collapse_kept [OF block(1)]] only_assigns_cuts by force
  then have c: "cuts w3 = cuts w" using kept_cuts [OF check_block_kept [OF block(3)]] by argo
  from block(4) show ?thesis
  proof (elim disjE exE conjE)
    fix l2
    assume "exec_block env l2 w3 = (e, w')"
    then show ?thesis by (intro cuts_start [OF c] exec_block_cuts)
  next
    assume "w' = w3"
    with c show ?thesis by (simp add: no_cuts)
  qed
qed

end
