(* ===== verification/NgcFailure.thy ===== *)
theory NgcFailure
  imports NgcExpression
begin

text \<open>An expression that fails never fails with the status \<open>EOk\<close> (\<^verbatim>\<open>Expression.cpp\<close>).\<close>

definition fails_properly :: "(gc_error, 'a) reading \<Rightarrow> bool" where
  "fails_properly m \<longleftrightarrow> m \<noteq> Some (Inl EOk)"

lemma fails_properly_simps [simp]:
  "fails_properly None" "fails_properly (Some (Inr r))" "fails_properly (Some (Inl e)) \<longleftrightarrow> e \<noteq> EOk"
  "e \<noteq> EOk \<Longrightarrow> fails_properly (or_error e m)"
  by (auto simp: fails_properly_def or_error_def split: option.splits sum.splits)

lemma fails_properly_bind:
  "fails_properly m \<Longrightarrow> (\<And>v rest. fails_properly (f v rest)) \<Longrightarrow> fails_properly (bind_reading m f)"
  by (auto simp: fails_properly_def bind_reading_def split: option.splits sum.splits)

lemma execute_errors:
  shows "execute_binary a op b \<noteq> Inl EOk" and "execute_unary a uop \<noteq> Inl EOk"
  by (cases op; simp add: execute_binary_def execute_binary1_def execute_binary2_def Let_def)
    (cases uop; simp add: execute_unary_def)

lemma reduce_stack_errors: "reduce_stack si vals ops \<noteq> Inl EOk"
proof (induction si vals ops rule: reduce_stack.induct)
  case (1 si vals ops)
  then show ?case
    using execute_errors(1) [of "vals ! (si - 1)" "ops ! (si - 1)" "vals ! si"]
    by (subst reduce_stack.simps) (auto simp: Let_def split: sum.splits simp del: One_nat_def)
qed

lemma operation_errors: "read_operation line \<noteq> Inl EOk" "read_operation_unary line \<noteq> Inl EOk"
  by (auto simp: read_operation_def read_operation_unary_def Let_def split: if_splits)

lemma readers_fail_properly:
  "fails_properly (read_atan pget pexists n v line)
   \<and> fails_properly (read_unary pget pexists n line)
   \<and> fails_properly (expression pget pexists n line)
   \<and> fails_properly (expression_loop pget pexists n si vals ops line)"
proof (induction n arbitrary: line v si vals ops)
  case 0
  show ?case by (simp add: reading_defs)
next
  case (Suc n)
  have ih: "fails_properly (read_atan pget pexists n v l)" "fails_properly (read_unary pget pexists n l)"
    "fails_properly (expression pget pexists n l)" "fails_properly (expression_loop pget pexists n si vs os l)"
    for l v si vs os
    using Suc.IH [of v l si vs os] by blast+
  note errs = execute_errors reduce_stack_errors operation_errors
  have 1: "fails_properly (read_atan pget pexists (Suc n) v line)"
    unfolding reading_defs Let_def by (auto intro!: fails_properly_bind ih)
  have 2: "fails_properly (read_unary pget pexists (Suc n) line)"
    unfolding reading_defs using errs
    by (auto intro!: fails_properly_bind ih split: sum.split option.split)
  have 3: "fails_properly (expression pget pexists (Suc n) line)"
    unfolding reading_defs using errs
    by (auto intro!: fails_properly_bind ih split: sum.split)
  have 4: "fails_properly (expression_loop pget pexists (Suc n) si vals ops line)"
    unfolding reading_defs Let_def using errs
    by (auto intro!: fails_properly_bind ih split: sum.split)
  from 1 2 3 4 show ?case by blast
qed

lemma ngc_expression_fails: "ngc_expression pget pexists line \<noteq> Inl EOk"
  using expression_fuel [of line "fuel_for line" pget pexists]
    readers_fail_properly [of pget pexists "fuel_for line" 0 line 0 "[]" "[]"]
  by (auto simp: fails_properly_def fuel_for_def)

end
