(* ===== verification/FlowBehaviour.thy ===== *)
theory FlowBehaviour
  imports FlowControl NgcFailure
begin

text \<open>
  What the flow control of \<^verbatim>\<open>Flowcontrol.cpp\<close> promises: of the branches of a conditional at most
  one is executed, whatever the branches themselves do to the rest of the world, and exactly
  one if the chain reaches its ELSE.
\<close>

subsection \<open>Chains of branches\<close>

text \<open>
  A chain starts with an IF that is not skipped, goes on with lines that leave the stack as
  they found it (the bodies of the branches) and with the ELSEIF and ELSE lines of its label.
  The list records, for each branch so far, whether its body is executed.
\<close>

inductive if_chain :: "gc_env \<Rightarrow> u32 \<Rightarrow> bool list \<Rightarrow> gc_world \<Rightarrow> bool" where
  chain_if: "\<not> skipping w \<Longrightarrow> flow_if env o_label line w = Some (EOk, w')
    \<Longrightarrow> if_chain env o_label [\<not> skipping w'] w'"
| chain_body: "if_chain env o_label bs w \<Longrightarrow> gw_context w' = gw_context w
    \<Longrightarrow> if_chain env' o_label bs w'"
| chain_elseif: "if_chain env o_label bs w \<Longrightarrow> flow_elseif env o_label line w = Some (EOk, w')
    \<Longrightarrow> if_chain env o_label (bs @ [\<not> skipping w']) w'"
| chain_else: "if_chain env o_label bs w \<Longrightarrow> flow_else o_label w = Some (EOk, w')
    \<Longrightarrow> if_chain env o_label (bs @ [\<not> skipping w']) w'"

text \<open>The top entry tells whether a branch was taken; after a taken ELSE no branch follows.\<close>

definition chain_top :: "u32 \<Rightarrow> bool list \<Rightarrow> gc_world \<Rightarrow> bool" where
  "chain_top o_label bs w \<longleftrightarrow> gw_context w \<noteq> [] \<and> count_list bs True \<le> 1 \<and>
     (let e = top_entry w
      in fe_o_label e = o_label \<and>
         ((fe_operation e = Op_If \<or> fe_operation e = Op_ElseIf) \<and> fe_handled e = (True \<in> set bs)
          \<or> fe_operation e = Op_Else \<and> \<not> fe_skip e))"

lemma chain_top_cong: "gw_context w' = gw_context w \<Longrightarrow> chain_top l bs w' = chain_top l bs w"
  by (simp add: chain_top_def top_entry_def)

lemma count_True: "True \<notin> set bs \<longleftrightarrow> count_list bs True = 0"
  by (metis count_list_0_iff)

lemma set_top_fields [simp]:
  "top_entry (set_top f w) = f (top_entry w)" "gw_context (set_top f w) \<noteq> []"
  by (simp_all add: set_top_def top_entry_def)

lemma world_expression_fails: "world_expression env w line \<noteq> Inl EOk"
  by (simp add: world_expression_def ngc_expression_fails del: EOk_def)

lemma flow_if_chain:
  assumes "\<not> skipping w" "flow_if env o_label line w = Some (EOk, w')"
  shows "chain_top o_label [\<not> skipping w'] w'"
proof -
  show ?thesis
  proof (cases "world_expression env w line")
    case (Inl status)
    then show ?thesis using assms world_expression_fails [of env w line] by (auto simp: flow_if_def)
  next
    case (Inr b)
    then show ?thesis using assms
      by (cases b) (auto simp: flow_if_def chain_top_def skipping_def stack_push_def top_entry_def set_top_def Let_def)
  qed
qed

lemma chain_top_cases:
  assumes "chain_top o_label bs w"
  obtains (undecided) "gw_context w \<noteq> []" "fe_o_label (top_entry w) = o_label"
      "last_op w = Op_If \<or> last_op w = Op_ElseIf" "fe_handled (top_entry w) = (True \<in> set bs)"
      "count_list bs True \<le> 1"
  | (closed) "gw_context w \<noteq> []" "last_op w = Op_Else" "\<not> skipping w"
  using assms by (auto simp: chain_top_def last_op_def skipping_def Let_def)

lemma flow_elseif_chain:
  assumes "chain_top o_label bs w" "flow_elseif env o_label line w = Some (EOk, w')"
  shows "chain_top o_label (bs @ [\<not> skipping w']) w'"
  using assms(1)
proof (cases rule: chain_top_cases)
  case closed
  with assms(2) show ?thesis by (simp add: flow_elseif_def no_loop_def)
next
  case undecided
  define w1 where "w1 = set_top (\<lambda>e. e\<lparr>fe_skip := fe_handled e\<rparr>) w"
  show ?thesis
  proof (cases "fe_handled (top_entry w)")
    case True
    with assms(2) undecided have "w' = w1" by (simp add: flow_elseif_def w1_def Let_def)
    with True undecided show ?thesis
      by (auto simp: w1_def chain_top_def skipping_def last_op_def Let_def)
  next
    case False
    then obtain v rest where v: "world_expression env w1 line = Inr (v, rest)"
      using assms(2) undecided world_expression_fails [of env w1 line]
      by (cases "world_expression env w1 line") (auto simp: flow_elseif_def w1_def Let_def)
    have none: "True \<notin> set bs" "count_list bs True = 0"
      using False undecided count_True [of bs] by auto
    show ?thesis
      using assms(2) undecided(1-3) False v none
      by (auto simp: flow_elseif_def w1_def [symmetric] Let_def chain_top_def skipping_def last_op_def
          split: if_splits)
        (auto simp: w1_def)
  qed
qed

lemma flow_else_chain:
  assumes "chain_top o_label bs w" "flow_else o_label w = Some (EOk, w')"
  shows "chain_top o_label (bs @ [\<not> skipping w']) w' \<and> count_list (bs @ [\<not> skipping w']) True = 1"
  using assms(1)
proof (cases rule: chain_top_cases)
  case closed
  with assms(2) show ?thesis by (simp add: flow_else_def no_loop_def)
next
  case undecided
  show ?thesis
  proof (cases "fe_handled (top_entry w)")
    case True
    then have "True \<in> set bs" using undecided(4) by simp
    then have "count_list bs True = 1"
      using undecided(5) count_True [of bs] by linarith
    with True undecided assms(2) show ?thesis
      by (auto simp: flow_else_def chain_top_def skipping_def last_op_def Let_def split: if_splits)
  next
    case False
    then have "True \<notin> set bs" "count_list bs True = 0"
      using undecided count_True [of bs] by auto
    with False undecided assms(2) show ?thesis
      by (auto simp: flow_else_def chain_top_def skipping_def last_op_def Let_def split: if_splits)
  qed
qed

lemma if_chain_top: "if_chain env o_label bs w \<Longrightarrow> chain_top o_label bs w"
proof (induction rule: if_chain.induct)
  case (chain_if w env o_label line w')
  then show ?case by (rule flow_if_chain)
next
  case (chain_body env o_label bs w w' env')
  show ?case using chain_top_cong [OF chain_body.hyps(2)] chain_body.IH by iprover
next
  case (chain_elseif env o_label bs w line w')
  then show ?case by (blast intro: flow_elseif_chain)
next
  case (chain_else env o_label bs w w')
  then show ?case using flow_else_chain by blast
qed

text \<open>Of the branches of a conditional at most one is executed.\<close>

lemma chain_top_one: "chain_top o_label bs w \<Longrightarrow> count_list bs True \<le> 1"
  unfolding chain_top_def by iprover

lemma if_chain_one: "if_chain env o_label bs w \<Longrightarrow> count_list bs True \<le> 1"
  using chain_top_one [OF if_chain_top] .

text \<open>A chain that reaches its ELSE has executed exactly one.\<close>

lemma if_chain_else_one:
  assumes "if_chain env o_label bs w" "flow_else o_label w = Some (EOk, w')"
  shows "count_list (bs @ [\<not> skipping w']) True = 1"
  using flow_else_chain [OF if_chain_top [OF assms(1)] assms(2)] by iprover

subsection \<open>Counted loops\<close>

text \<open>
  The passes through the body of a REPEAT loop, from the world after its REPEAT line: a pass may
  change anything but the stack, and every ENDREPEAT that does not leave the loop starts another.
\<close>

inductive repeat_rounds :: "u32 \<Rightarrow> gc_world \<Rightarrow> nat \<Rightarrow> gc_world \<Rightarrow> bool" for o_label w where
  rounds_start: "repeat_rounds o_label w 1 w"
| rounds_body: "repeat_rounds o_label w n w1 \<Longrightarrow> gw_context w2 = gw_context w1 \<Longrightarrow>
     repeat_rounds o_label w n w2"
| rounds_again: "repeat_rounds o_label w n w1 \<Longrightarrow> flow_endrepeat o_label w1 = Some (EOk, w2) \<Longrightarrow>
     length (gw_context w2) = length (gw_context w1) \<Longrightarrow> repeat_rounds o_label w (Suc n) w2"

text \<open>The stack while \<open>left\<close> passes are left, the current one included.\<close>

definition repeat_stack :: "u32 \<Rightarrow> nat \<Rightarrow> ngc_stack_entry list \<Rightarrow> gc_world \<Rightarrow> bool" where
  "repeat_stack o_label left outer w \<longleftrightarrow> tl (gw_context w) = outer \<and> gw_context w \<noteq> []
     \<and> fe_operation (top_entry w) = Op_Repeat \<and> fe_o_label (top_entry w) = o_label
     \<and> unat (fe_repeats (top_entry w)) = left \<and> 0 < left"

lemma context_update_job [simp]: "gw_context (update_job j f w) = gw_context w"
  by (simp add: update_job_def)

lemma endrepeat_step:
  assumes "repeat_stack o_label left outer w" "flow_endrepeat o_label w = Some (EOk, w')"
  shows "if left = 1 then gw_context w' = outer else repeat_stack o_label (left - 1) outer w'"
proof -
  let ?r = "fe_repeats (top_entry w)"
  have r: "?r \<noteq> 0" and left: "unat ?r = left" using assms(1) by (auto simp: repeat_stack_def)
  then have u: "unat (?r - 1) = left - 1" by (simp add: unat_minus_one)
  have run: "next_round w = Some (EOk, w')"
    using assms by (auto simp: repeat_stack_def flow_endrepeat_def last_op_def split: if_splits)
  show ?thesis
  proof (cases "left = 1")
    case True
    then have "?r - 1 = 0" using u by (simp add: unat_eq_0)
    with run r assms(1) True show ?thesis
      by (auto simp: next_round_def stack_pull_def set_top_def repeat_stack_def Let_def)
  next
    case False
    then have "?r - 1 \<noteq> 0" using u assms(1) by (auto simp: repeat_stack_def simp flip: unat_eq_0)
    then obtain w1 where "go_back (set_top (\<lambda>e. e\<lparr>fe_repeats := ?r - 1\<rparr>) w) = Some w1" "w' = w1"
      using run r by (auto simp: next_round_def Let_def)
    then have "gw_context w' = gw_context (set_top (\<lambda>e. e\<lparr>fe_repeats := ?r - 1\<rparr>) w)"
      by (auto simp: go_back_def Let_def split: option.splits)
    with False assms(1) u show ?thesis
      by (auto simp: repeat_stack_def set_top_def top_entry_def)
  qed
qed

lemma repeat_rounds_stack:
  assumes "repeat_rounds o_label w n w'" "repeat_stack o_label passes outer w"
  shows "n \<le> passes \<and> repeat_stack o_label (passes + 1 - n) outer w'"
  using assms
proof (induction rule: repeat_rounds.induct)
  case rounds_start
  then show ?case by (simp add: repeat_stack_def)
next
  case (rounds_body n w1 w2)
  then show ?case by (simp add: repeat_stack_def top_entry_def)
next
  case (rounds_again n w1 w2)
  then have s: "n \<le> passes" "repeat_stack o_label (passes + 1 - n) outer w1" by simp_all
  have "length (gw_context w1) = Suc (length outer)"
    using s(2) by (cases "gw_context w1") (auto simp: repeat_stack_def)
  with endrepeat_step [OF s(2) rounds_again.hyps(2)] rounds_again.hyps(3) s(1)
  show ?case by (auto split: if_splits simp: Suc_diff_le)
qed

lemma flow_repeat_stack:
  assumes "flow_repeat env o_label line w = Some (EOk, w')" "\<not> skipping w"
    and "world_expression env w line = Inr (v, rest)" "1 \<le> v" "v < 2 ^ 32"
  shows "repeat_stack o_label (nat (trunc v)) (gw_context w) w'"
proof -
  have t: "1 \<le> trunc v" "trunc v < 2 ^ 32" using assms(4,5) by (auto simp: trunc_def le_floor_iff floor_less_iff)
  then have u: "unat (word_of_int (trunc v) :: u32) = nat (trunc v)"
    by (simp add: unat_eq_nat_uint uint_word_of_int)
  have "v \<noteq> 0" using assms(4) by auto
  then obtain w1 where m: "mark_place (set_top (\<lambda>e. e\<lparr>fe_file := job_id (stack_push o_label Op_Repeat (v = 0) w)\<rparr>)
      (stack_push o_label Op_Repeat (v = 0) w)) = Some w1"
    and w': "w' = set_top (\<lambda>e. e\<lparr>fe_repeats := word_of_int (trunc v)\<rparr>) w1"
    using assms(1-3) by (auto simp: flow_repeat_def Let_def split: if_splits)
  have "tl (gw_context w1) = gw_context w" "fe_operation (top_entry w1) = Op_Repeat"
    "fe_o_label (top_entry w1) = o_label"
    using m by (auto simp: mark_place_def set_top_def top_entry_def stack_push_def split: option.splits)
  then show ?thesis using t u by (simp add: w' repeat_stack_def set_top_def top_entry_def)
qed

text \<open>The body of \<^verbatim>\<open>REPEAT [v]\<close> runs as often as the integer part of its value says.\<close>

lemma repeat_exactly:
  assumes "flow_repeat env o_label line w = Some (EOk, w1)" "\<not> skipping w"
    and "world_expression env w line = Inr (v, rest)" "1 \<le> v" "v < 2 ^ 32"
    and "repeat_rounds o_label w1 n w2" "flow_endrepeat o_label w2 = Some (EOk, w3)"
  shows "int n \<le> trunc v \<and> (gw_context w3 = gw_context w \<longleftrightarrow> int n = trunc v)"
proof -
  have t: "1 \<le> trunc v" using assms(4) by (auto simp: trunc_def le_floor_iff)
  note s = repeat_rounds_stack [OF assms(6) flow_repeat_stack [OF assms(1-5)]]
  note e = endrepeat_step [OF conjunct2 [OF s] assms(7)]
  have "repeat_stack o_label k (gw_context w) w3 \<Longrightarrow> gw_context w3 \<noteq> gw_context w" for k
    by (cases "gw_context w3") (auto simp: repeat_stack_def)
  with s e t show ?thesis by (auto split: if_splits)
qed

end
