(* ===== verification/GcodeDemo.thy ===== *)
theory GcodeDemo
  imports GcodeJog GcodeMotion FlowBehaviour
begin

text \<open>
  A machine with three axes and a discharge spindle, and some lines of G-code run on it. The
  lines are evaluated through the whole interpreter.
\<close>

subsection \<open>The machine\<close>

definition demo_env :: gc_env where
  "demo_env = \<lparr>ge_n_axis = 3, ge_mpos = zero_axes, ge_probe_position = zero_axes,
     ge_probe_succeeded = False, ge_config_item = \<lambda>_. None, ge_set_config_item = \<lambda>_ _. False,
     ge_version = ''v3.9.1'', ge_f_override = 100, ge_spindle_speed_ovr = 100, ge_feed_hold = False,
     ge_check_mode = False, ge_abort = False, ge_use_line_numbers = False,
     ge_parking_override = False, ge_deactivate_parking = False, ge_probe_exists = False,
     ge_probe_check_mode_start = False, ge_probe_outcome = ProbeAborted, ge_spindle_tools = [0],
     ge_spindle_reversable = \<lambda>_. False, ge_spindle_rate_adjusted = \<lambda>_. True,
     ge_spindle_is_edm = \<lambda>_. True, ge_no_tool_changer = \<lambda>_. True, ge_has_mist = True,
     ge_has_flood = True, ge_set_digital = \<lambda>_ _. True, ge_set_analog = \<lambda>_ _. True,
     ge_digital_input = \<lambda>_. Some 1, ge_analog_input = \<lambda>_. Some 0,
     ge_constrain_jog = \<lambda>p. (p, True), ge_jog_accepted = True, ge_steps_mpos = zero_axes\<rparr>"

definition demo_coords :: "u16 \<Rightarrow> real list" where
  "demo_coords c = (if c = 1 then zero_axes[0 := 10] else zero_axes)"

definition demo_blank :: gc_world where
  "demo_blank = \<lparr>gw_gc = \<lparr>gs_modal = modal_defaults, gs_spindle_speed = 0, gs_feed_rate = 0,
       gs_selected_tool = 0, gs_current_tool = 0, gs_line_number = 0, gs_position = zero_axes,
       gs_coord_system = zero_axes, gs_coord_offset = zero_axes, gs_tool_length_offset = zero_axes,
       gs_skip_blocks = False\<rparr>,
     gw_coords = demo_coords, gw_float_params = float_params_start, gw_named = Map.empty,
     gw_assignments = [], gw_jobs = [], gw_context = [], gw_spindle = 0, gw_out = []\<rparr>"

definition demo_world :: gc_world where
  "demo_world = gc_init demo_env demo_blank"

lemma demo_consistent: "consistent demo_env demo_world"
  by (simp add: demo_world_def demo_blank_def gc_init_def flowcontrol_init_def consistent_def
      wf_world_def wf_state_def active_offsets_def demo_coords_def modal_defaults_def coord_index_defs)

lemma demo_wf_env: "wf_env demo_env"
  by (simp add: wf_env_def demo_env_def MAX_N_AXIS_def)

subsection \<open>Numbers\<close>

lemma read_number_digit:
  assumes "isdigit c"
  shows "ngc_number pget pexists False (c # cs) = read_float (c # cs)"
proof -
  have "c \<noteq> CHR ''#''" "c \<noteq> CHR ''[''" using assms by (auto simp: isdigit_def)
  then show ?thesis
    by (simp add: ngc_number_def fuel_for_def numeral_eq_Suc read_number.simps(2) split: option.split)
qed

lemma world_number_nat:
  assumes "n < 10 ^ 8" "rest = [] \<or> \<not> isdigit (hd rest) \<and> hd rest \<noteq> CHR ''.''"
  shows "world_number env w (show_nat n @ rest) = Some (fint (int n), rest)"
proof -
  obtain c cs where s: "show_nat n = c # cs" by (cases "show_nat n") auto
  have "isdigit c" using show_nat_digits [of n] s by simp
  then show ?thesis
    using read_float_nat [OF assms] by (simp add: world_number_def s read_number_digit)
qed

subsection \<open>Evaluating a line\<close>

lemma demo_sel [simp]:
  "ge_n_axis demo_env = 3" "ge_check_mode demo_env = False" "ge_abort demo_env = False"
  "ge_use_line_numbers demo_env = False" "ge_parking_override demo_env = False"
  "ge_deactivate_parking demo_env = False" "ge_probe_exists demo_env = False"
  "ge_spindle_rate_adjusted demo_env = (\<lambda>_. True)" "ge_spindle_is_edm demo_env = (\<lambda>_. True)"
  "ge_has_mist demo_env = True" "ge_has_flood demo_env = True" "ge_steps_mpos demo_env = zero_axes"
  "ge_constrain_jog demo_env = (\<lambda>p. (p, True))" "ge_jog_accepted demo_env = True"
  by (simp_all add: demo_env_def)

lemma demo_coords_0 [simp]: "demo_coords 0 = zero_axes"
  by (simp add: demo_coords_def)

lemma demo_bits [simp]: "set_bit (Suc 0) (4096 :: u32) = 4098"
  by code_simp

text \<open>A vector of which only X is not zero.\<close>

lemma over_x_axis:
  assumes "f 1 0 = 0" "f 2 0 = 0"
  shows "over_axes 3 f (zero_axes[0 := x]) = zero_axes[0 := f 0 x]"
  using assms by (simp add: over_axes_def zero_axes_def MAX_N_AXIS_def numeral_eq_Suc)

lemma over_axes_x: "over_axes 3 f zero_axes ! 0 = f 0 0"
  by (simp add: over_axes_def zero_axes_def MAX_N_AXIS_def)

lemma x_axis [simp]:
  "zero_axes[0 := x] ! 0 = x" "zero_axes[0 := x] ! Suc 0 = 0" "zero_axes[0 := x] ! 2 = 0"
  "zero_axes ! 0 = 0" "zero_axes ! Suc 0 = 0" "zero_axes ! 2 = 0"
  by (simp_all add: zero_axes_def MAX_N_AXIS_def)

lemma clear_words_value:
  "clear_words wds l = l\<lparr>gl_value_words := fold (\<lambda>wd v. unset_bit (word_code wd) v) wds (gl_value_words l)\<rparr>"
  by (induction wds l rule: clear_words.induct) (simp_all add: clear_word_def)

text \<open>The steps of a line, each of which is evaluated on its own.\<close>

lemmas demo_start = demo_world_def demo_blank_def gc_init_def flowcontrol_init_def modal_defaults_def

lemmas step_eval = then_check_def pure_check_def then_exec_def locals_defs Let_def axis_defs
  world_step_defs update_xyz_def CI_G54_def

lemmas words_eval = gc_execute_line_def parse_words.simps parse_word_def trunc_def fint_exact fop_defs
  letter_g_def g_word_def g_coords_def g_motion_def set_motion_def value_word_def axis_of_letter_def
  set_axis_value_def simple_word_def check_word_def check_group_def start_locals_def demo_start step_eval

lemmas feed_eval = check_block_def check_common_def check_feed_def scale_feed_def in_inches_def
  gc_values_zero_def step_eval

lemmas user_io_eval = check_spindle_speed_def check_parking_def check_dwell_def check_digital_io_def
  check_analog_io_def check_wait_def check_tool_number_def step_eval

lemmas coords_eval = select_plane_def convert_units_def in_inches_def announce_tool_length_def
  select_coords_def CI_NWCSystems_def word_le_nat_alt step_eval

lemmas target_eval = check_non_modal_def compute_target_def over_x_axis fop_defs f32_numeral step_eval

lemmas motion_eval = check_motion_def drop_motion_without_axes_def step_eval

lemmas unused_eval = check_unused_def clear_words_value step_eval

lemmas speed_exec = exec_block_def exec_sections_def exec_laser_def is_feed_motion_def exec_feed_def
  exec_speed_def step_eval

lemmas tool_exec = exec_tool_change_def exec_set_tool_def exec_spindle_def exec_coolant_def step_eval

lemmas io_exec = exec_digital_def exec_analog_def exec_wait_def exec_override_def exec_dwell_def step_eval

lemmas modes_exec = exec_plane_units_def exec_tool_length_def exec_coord_select_def exec_distance_def
  exec_non_modal_def step_eval

lemmas motion_exec = exec_motion_def run_motion_def program_motion_def edm_cut_def step_eval

lemmas end_exec = exec_flow_def finish_line_def perform_assignments_def cuts_def copy_axes_def step_eval

lemma collapse_demo:
  "collapseGCode ''G55'' w = (''G55'', w)" "collapseGCode ''G1X1'' w = (''G1X1'', w)"
  "collapseGCode ''G1X8F100'' w = (''G1X8F100'', w)" "collapseGCode ''$J=X8F100'' w = (''$J=X8F100'', w)"
  by (simp_all add: collapseGCode_def is_ws_def toupper_def)

lemma show_demo:
  "show_nat 55 = ''55''" "show_nat 1 = ''1''" "show_nat 8 = ''8''" "show_nat 100 = ''100''"
  by code_simp+

lemma number_demo:
  "world_number env w ''55'' = Some (55, [])" "world_number env w ''1X1'' = Some (1, ''X1'')"
  "world_number env w ''1'' = Some (1, [])" "world_number env w ''1X8F100'' = Some (1, ''X8F100'')"
  "world_number env w ''8F100'' = Some (8, ''F100'')" "world_number env w ''100'' = Some (100, [])"
  using world_number_nat [of 55 "[]" env w] world_number_nat [of 1 "''X1''" env w]
    world_number_nat [of 1 "[]" env w] world_number_nat [of 1 "''X8F100''" env w]
    world_number_nat [of 8 "''F100''" env w] world_number_nat [of 100 "[]" env w]
  unfolding show_demo by (simp_all add: fint_exact isdigit_def)

subsection \<open>The lines\<close>

text \<open>A feed motion without a feed rate is rejected.\<close>

lemma demo_rejected: "gc_execute_line demo_env ''G1X1'' demo_world = Some (EGcodeUndefinedFeedRate, demo_world)"
  apply (simp add: words_eval collapse_demo number_demo)
  apply (simp add: feed_eval)
  apply (simp add: user_io_eval)
  apply (simp add: coords_eval)
  apply (simp add: target_eval)
  apply (simp add: motion_eval)
  done

text \<open>Selecting the second work coordinate system.\<close>

lemma demo_select: "\<exists>w'. gc_execute_line demo_env ''G55'' demo_world = Some (EOk, w')
    \<and> m_coord_select (gs_modal (gw_gc w')) = 1 \<and> gw_coords w' = demo_coords"
  apply (simp add: words_eval collapse_demo number_demo)
  apply (simp add: feed_eval)
  apply (simp add: user_io_eval)
  apply (simp add: coords_eval)
  apply (simp add: target_eval)
  apply (simp add: motion_eval)
  apply (simp add: unused_eval)
  apply (simp add: speed_exec)
  apply (simp add: tool_exec)
  apply (simp add: io_exec)
  apply (simp add: modes_exec)
  apply (simp add: motion_exec)
  apply (simp add: end_exec)
  done

text \<open>A cut of eight millimetres along X, the discharge spindle being on.\<close>

definition demo_cutting :: gc_world where
  "demo_cutting = set_mode (\<lambda>m. m\<lparr>m_spindle := SpCw\<rparr>) demo_world"

lemma demo_cut: "\<exists>w'. gc_execute_line demo_env ''G1X8F100'' demo_cutting = Some (EOk, w')
    \<and> cuts w' = [(zero_axes, zero_axes[0 := 8])]"
  apply (simp add: words_eval collapse_demo number_demo demo_cutting_def)
  apply (simp add: feed_eval)
  apply (simp add: user_io_eval)
  apply (simp add: coords_eval)
  apply (simp add: target_eval)
  apply (simp add: motion_eval)
  apply (simp add: unused_eval)
  apply (simp add: speed_exec)
  apply (simp add: tool_exec)
  apply (simp add: io_exec)
  apply (simp add: modes_exec)
  apply (simp add: motion_exec)
  apply (simp add: end_exec)
  apply code_simp
  done

text \<open>A jog along X.\<close>

lemma demo_jog: "\<exists>w'. gc_execute_line demo_env ''$J=X8F100'' demo_world = Some (EOk, w')
    \<and> gs_position (gw_gc w') ! 0 = 8"
  apply (simp add: words_eval collapse_demo number_demo)
  apply (simp add: feed_eval)
  apply (simp add: user_io_eval)
  apply (simp add: coords_eval)
  apply (simp add: target_eval)
  apply (simp add: motion_eval)
  apply (simp add: unused_eval)
  apply (simp add: exec_block_def exec_jog_def jog_execute_def jog_words_allowed_def copy_axes_def
      over_axes_x step_eval)
  apply code_simp
  done

subsection \<open>Expressions, branches and loops\<close>

lemma read_number_expr:
  assumes "n < 10 ^ 8" "rest = [] \<or> \<not> isdigit (hd rest) \<and> hd rest \<noteq> CHR ''.''"
  shows "read_number pget pexists (Suc k) True (show_nat n @ rest) = Some (Inr (fint (int n), rest))"
proof -
  obtain c cs where s: "show_nat n = c # cs" by (cases "show_nat n") auto
  have d: "isdigit c" using show_nat_digits [of n] s by simp
  then have "c \<noteq> CHR ''#''" "c \<noteq> CHR ''[''" "c \<noteq> CHR ''-''" "c \<noteq> CHR ''+''" "\<not> isalpha c"
    by (auto simp: isdigit_def isalpha_def Let_def)
  then show ?thesis
    using read_float_nat [OF assms] by (simp add: s read_number.simps(2))
qed

lemma bracket_number:
  assumes "n < 10 ^ 8"
  shows "ngc_expression pget pexists (CHR ''['' # show_nat n @ '']'') = Inr (fint (int n), [])"
proof -
  have "read_operation '']'' = Inr (Binary_RightBracket, [])"
    by (simp add: read_operation_def)
  then show ?thesis
    using read_number_expr [OF assms, of "'']''"]
    by (simp add: ngc_expression_def fuel_for_def numeral_eq_Suc expression.simps(2)
        expression_loop.simps(2) isdigit_def MAX_STACK_def)
qed

lemma demo_expression:
  "world_expression env w ''[1]'' = Inr (1, [])" "world_expression env w ''[8]'' = Inr (8, [])"
  using bracket_number [of 1 "get_param env w" "named_param_exists env w"]
    bracket_number [of 8 "get_param env w" "named_param_exists env w"]
  by (simp_all add: show_demo fint_exact world_expression_def del: One_nat_def)

text \<open>The world inside \<^verbatim>\<open>o1 if [1]\<close>, and a job about to repeat its next lines.\<close>

definition demo_branch :: gc_world where
  "demo_branch = set_top (\<lambda>e. e\<lparr>fe_handled := True\<rparr>) (stack_push 1 Op_If False demo_world)"

lemma demo_chain: "if_chain demo_env 1 [True] demo_branch"
proof -
  have "flow_if demo_env 1 ''[1]'' demo_world = Some (EOk, demo_branch)" "\<not> skipping demo_world"
    by (simp_all add: flow_if_def demo_expression demo_branch_def skipping_def demo_start)
  from chain_if [OF this(2,1)] show ?thesis
    by (simp add: skipping_def demo_branch_def set_top_def top_entry_def stack_push_def)
qed

definition demo_job :: gc_world where
  "demo_job = demo_world\<lparr>gw_jobs := [\<lparr>js_id = 0, js_local_params = Map.empty, js_position = 40,
     js_line_number = 3, js_ended = False\<rparr>]\<rparr>"

definition demo_repeat :: gc_world where
  "demo_repeat = demo_job\<lparr>gw_context := [\<lparr>fe_o_label = 1, fe_operation = Op_Repeat, fe_file = Some 0,
     fe_file_pos = 40, fe_line_number = 3, fe_expr = [], fe_repeats = 8, fe_skip = False,
     fe_handled = False, fe_brk = False\<rparr>]\<rparr>"

lemma demo_repeat_start:
  "flow_repeat demo_env 1 ''[8]'' demo_job = Some (EOk, demo_repeat)" "\<not> skipping demo_job"
  by (simp_all add: flow_repeat_def demo_expression demo_repeat_def demo_job_def demo_start skipping_def
      job_active_def job_id_def stack_push_def set_top_def top_entry_def mark_place_def find_job_def
      trunc_def Let_def)

lemma demo_repeat_end: "\<exists>w. flow_endrepeat 1 demo_repeat = Some (EOk, w)"
  by (simp add: flow_endrepeat_def next_round_def demo_repeat_def demo_job_def demo_start job_active_def
      last_op_def set_top_def top_entry_def go_back_def find_job_def Let_def)

end
