(* ===== verification/Mcp2518fd.thy ===== *)
theory Mcp2518fd
  imports CanFrame
begin

text \<open>
  The CAN-FD controller driver (\<^verbatim>\<open>EDM/Can/Mcp2518fdDriver.cpp\<close>), as far as it is written:
  the code of the data length, the bytes of the SPI transactions and the register writes of
  \<open>init\<close>. One transaction is the list of bytes sent while the chip is selected; what the
  chip answers to the four dummy bytes of a read is an argument. Pin modes and delays are not
  modelled; \<open>send\<close> and \<open>poll\<close> are empty in the source (\<open>send\<close> returns false).
\<close>

subsection \<open>Registers and transactions\<close>

definition CMD_RESET :: u8 where "CMD_RESET = 0x00"
definition CMD_READ :: u8 where "CMD_READ = 0x03"
definition CMD_WRITE :: u8 where "CMD_WRITE = 0x02"
definition REG_C1CON :: u16 where "REG_C1CON = 0x000"
definition REG_C1NBTCFG :: u16 where "REG_C1NBTCFG = 0x004"
definition REG_C1DBTCFG :: u16 where "REG_C1DBTCFG = 0x008"
definition REG_C1FIFOCON1 :: u16 where "REG_C1FIFOCON1 = 0x05C"
definition REG_C1FIFOCON2 :: u16 where "REG_C1FIFOCON2 = 0x070"

type_synonym spi_transaction = "u8 list"

definition mcp_reset :: spi_transaction where
  "mcp_reset = [CMD_RESET, 0x00]"

text \<open>The two command bytes: the instruction and the upper address bits, the lower ones.\<close>

definition spi_command :: "u8 \<Rightarrow> u16 \<Rightarrow> u8 list" where
  "spi_command cmd reg =
     [ucast (push_bit 4 (ucast cmd :: u32) OR (drop_bit 8 (ucast reg) AND 0x0F)), ucast (reg AND 0xFF)]"

definition read_word :: "u8 list \<Rightarrow> u32" where
  "read_word answer = foldl (\<lambda>v i. v OR push_bit (8 * i) (ucast (answer ! i))) 0 [0..<4]"

definition readReg :: "u16 \<Rightarrow> u8 list \<Rightarrow> spi_transaction \<times> u32" where
  "readReg reg answer = (spi_command CMD_READ reg @ replicate 4 0, read_word answer)"

definition word_bytes :: "u32 \<Rightarrow> u8 list" where
  "word_bytes v = map (\<lambda>i. ucast (drop_bit (8 * i) v)) [0..<4]"

definition writeReg :: "u16 \<Rightarrow> u32 \<Rightarrow> spi_transaction" where
  "writeReg reg v = spi_command CMD_WRITE reg @ word_bytes v"

definition NBTCFG_1M :: u32 where
  "NBTCFG_1M = push_bit 24 0 OR push_bit 16 30 OR push_bit 8 7 OR 7"

definition DBTCFG_5M :: u32 where
  "DBTCFG_5M = push_bit 24 0 OR push_bit 16 6 OR push_bit 8 1 OR 1"

text \<open>\<open>init\<close>: its transactions, given the answer to the read of \<open>C1CON\<close>.\<close>

definition mcp_init :: "u8 list \<Rightarrow> bool \<times> spi_transaction list" where
  "mcp_init answer =
     (let (rd, con) = readReg REG_C1CON answer;
          con = con AND NOT (push_bit 24 0x7)
      in (True,
          [mcp_reset, writeReg REG_C1NBTCFG NBTCFG_1M, writeReg REG_C1DBTCFG DBTCFG_5M,
           writeReg REG_C1FIFOCON1 0x000000F8, writeReg REG_C1FIFOCON2 0x000000F9, rd,
           writeReg REG_C1CON con]))"

definition mcp_send :: "can_frame \<Rightarrow> bool" where
  "mcp_send f = False"

subsection \<open>Data lengths\<close>

definition lenToDlc :: "u8 \<Rightarrow> u8" where
  "lenToDlc n =
     (if n \<le> 8 then n else if n \<le> 12 then 9 else if n \<le> 16 then 10 else if n \<le> 20 then 11
      else if n \<le> 24 then 12 else if n \<le> 32 then 13 else if n \<le> 48 then 14 else 15)"

definition dlcToLen :: "u8 \<Rightarrow> u8" where
  "dlcToLen dlc = [0, 1, 2, 3, 4, 5, 6, 7, 8, 12, 16, 20, 24, 32, 48, 64] ! unat (dlc AND 0x0F)"

text \<open>The tables, checked at every length and code.\<close>

lemma dlc_table:
  "\<forall>n \<in> set [0..<65]. n \<le> unat (dlcToLen (lenToDlc (word_of_nat n)))
     \<and> (\<forall>d \<in> set [0..<16]. n \<le> unat (dlcToLen (word_of_nat d)) \<longrightarrow>
          unat (dlcToLen (lenToDlc (word_of_nat n))) \<le> unat (dlcToLen (word_of_nat d)))"
  by code_simp

lemma dlc_code_table:
  "\<forall>d \<in> set [0..<16]. lenToDlc (dlcToLen (word_of_nat d)) = (word_of_nat d :: u8)"
  by code_simp

lemma dlc_smallest:
  assumes "n \<le> 64" "d < 16"
  shows "n \<le> dlcToLen (lenToDlc n)" and "n \<le> dlcToLen d \<Longrightarrow> dlcToLen (lenToDlc n) \<le> dlcToLen d"
proof -
  have n: "unat n \<in> set [0..<65]" using assms(1) by (simp add: word_le_nat_alt)
  have d: "unat d \<in> set [0..<16]" using assms(2) by (simp add: word_less_nat_alt)
  show "n \<le> dlcToLen (lenToDlc n)"
    using bspec [OF dlc_table n] by (simp add: word_le_nat_alt)
  show "dlcToLen (lenToDlc n) \<le> dlcToLen d" if "n \<le> dlcToLen d"
    using bspec [OF conjunct2 [OF bspec [OF dlc_table n]] d] that by (simp add: word_le_nat_alt)
qed

lemma lenToDlc_dlcToLen: "d < 16 \<Longrightarrow> lenToDlc (dlcToLen d) = d"
  using bspec [OF dlc_code_table, of "unat d"] by (simp add: word_less_nat_alt)

subsection \<open>Register values read back\<close>

lemma read_word_bytes: "read_word (word_bytes v) = v"
proof (rule bit_word_eqI)
  fix k assume "k < LENGTH(32)"
  then have "k < 8 \<or> 8 \<le> k \<and> k < 16 \<or> 16 \<le> k \<and> k < 24 \<or> 24 \<le> k \<and> k < 32"
    by auto
  then show "bit (read_word (word_bytes v)) k \<longleftrightarrow> bit v k"
    by (auto simp: read_word_def word_bytes_def upt_rec bit_simps)
qed

text \<open>The two command bytes carry the instruction and the 12-bit address.\<close>

lemma word_bits_less:
  assumes "uint w < 2 ^ n" "bit (w :: 'a::len word) k"
  shows "k < n"
proof -
  have "take_bit n (uint w) = uint w" using assms(1) by (simp add: take_bit_int_eq_self)
  moreover have "bit (uint w) k" using assms(2) by (simp add: bit_uint_iff bit_imp_le_length)
  ultimately show ?thesis by (metis bit_take_bit_iff)
qed

lemma spi_command_decodes:
  assumes "reg < 0x1000" "cmd < 16"
  shows "\<exists>a b. spi_command cmd reg = [a, b]
    \<and> drop_bit 4 a = cmd \<and> (push_bit 8 (ucast (a AND 0x0F)) OR ucast b :: u16) = reg"
proof (intro exI conjI)
  have m: "(0x0F :: u8) = mask 4" "(0x0F :: u32) = mask 4" "(0xFF :: u16) = mask 8"
    by (simp_all add: mask_eq_exp_minus_1)
  have r: "bit reg k \<Longrightarrow> k < 12" for k
    using word_bits_less [of reg 12 k] assms(1) by (simp add: word_less_def)
  have c: "bit cmd k \<Longrightarrow> k < 4" for k
    using word_bits_less [of cmd 4 k] assms(2) by (simp add: word_less_def)
  show "spi_command cmd reg = [hd (spi_command cmd reg), spi_command cmd reg ! 1]"
    by (simp add: spi_command_def)
  show "drop_bit 4 (hd (spi_command cmd reg)) = cmd"
    by (rule bit_word_eqI) (use c in \<open>auto simp: spi_command_def m bit_simps\<close>)
  show "(push_bit 8 (ucast (hd (spi_command cmd reg) AND 0x0F)) OR ucast (spi_command cmd reg ! 1) :: u16) = reg"
  proof (rule bit_word_eqI)
    fix k
    have "bit reg k \<Longrightarrow> 8 \<le> k \<Longrightarrow> k - 8 < 4" using r [of k] by linarith
    then show "bit (push_bit 8 (ucast (hd (spi_command cmd reg) AND 0x0F))
        OR ucast (spi_command cmd reg ! 1) :: u16) k \<longleftrightarrow> bit reg k"
      using bit_imp_le_length [of reg k] by (auto simp: spi_command_def m bit_simps)
  qed
qed

end
