(* ===== verification/ContourBuffer.thy ===== *)
theory ContourBuffer
  imports Float32
begin

text \<open>
  The cut contour (\<^verbatim>\<open>EDM/Motion/Pose4.h\<close>, \<^verbatim>\<open>EDM/Motion/ContourBuffer.h\<close>, \<^verbatim>\<open>.cpp\<close>): a
  bounded list of vertices with their arc length, built by lines and arcs and read by
  binary search. The lemmas show that the arc lengths increase, that the search stops at
  the segment that holds the argument, and what eviction keeps. The functions of
  \<^verbatim>\<open><cmath>\<close> are correctly rounded.
\<close>

subsection \<open>Poses\<close>

record pose4 =
  p_x :: real
  p_y :: real
  p_u :: real
  p_v :: real

definition pose4_zero :: pose4 where
  "pose4_zero = \<lparr>p_x = 0, p_y = 0, p_u = 0, p_v = 0\<rparr>"

definition pose_lerp :: "pose4 \<Rightarrow> pose4 \<Rightarrow> real \<Rightarrow> pose4" where
  "pose_lerp a b t =
     \<lparr>p_x = fadd (p_x a) (fmul (fsub (p_x b) (p_x a)) t),
      p_y = fadd (p_y a) (fmul (fsub (p_y b) (p_y a)) t),
      p_u = fadd (p_u a) (fmul (fsub (p_u b) (p_u a)) t),
      p_v = fadd (p_v a) (fmul (fsub (p_v b) (p_v a)) t)\<rparr>"

definition xyChord :: "pose4 \<Rightarrow> pose4 \<Rightarrow> real" where
  "xyChord a b = fhypot (fsub (p_x b) (p_x a)) (fsub (p_y b) (p_y a))"

definition uvChord :: "pose4 \<Rightarrow> pose4 \<Rightarrow> real" where
  "uvChord a b = fhypot (fsub (p_u b) (p_u a)) (fsub (p_v b) (p_v a))"

subsection \<open>The buffer\<close>

definition kMinSegLen :: real where "kMinSegLen = f32 0.0001"
definition kMaxVertices :: nat where "kMaxVertices = 256"

record vertex =
  vx_pose :: pose4
  vx_s :: real

record contour_buffer =
  cb_v :: "vertex list"
  cb_cap :: nat

definition contour_new :: "nat \<Rightarrow> contour_buffer" where
  "contour_new cap = \<lparr>cb_v = [], cb_cap = cap\<rparr>"

definition contour_reset :: "pose4 \<Rightarrow> real \<Rightarrow> contour_buffer \<Rightarrow> contour_buffer" where
  "contour_reset start s0 c = c\<lparr>cb_v := [\<lparr>vx_pose = start, vx_s = s0\<rparr>]\<rparr>"

definition startS :: "contour_buffer \<Rightarrow> real" where
  "startS c = (case cb_v c of [] \<Rightarrow> 0 | v # vs \<Rightarrow> vx_s v)"

definition totalLen :: "contour_buffer \<Rightarrow> real" where
  "totalLen c = (case cb_v c of [] \<Rightarrow> 0 | v # vs \<Rightarrow> vx_s (last (v # vs)))"

definition pushVertex :: "pose4 \<Rightarrow> real \<Rightarrow> contour_buffer \<Rightarrow> contour_buffer" where
  "pushVertex p s c =
     (let c = (if cb_cap c \<le> length (cb_v c) then c\<lparr>cb_v := tl (cb_v c)\<rparr> else c)
      in c\<lparr>cb_v := cb_v c @ [\<lparr>vx_pose = p, vx_s = s\<rparr>]\<rparr>)"

definition appendLine :: "pose4 \<Rightarrow> contour_buffer \<Rightarrow> real \<times> contour_buffer" where
  "appendLine e c =
     (if cb_v c = [] then
        let c = c\<lparr>cb_v := [\<lparr>vx_pose = e, vx_s = 0\<rparr>]\<rparr> in (totalLen c, c)
      else
        let prev = vx_pose (last (cb_v c));
            ds = xyChord prev e;
            ds = (if ds < kMinSegLen then uvChord prev e else ds)
        in if ds < kMinSegLen then (totalLen c, c)
           else let c = pushVertex e (fadd (vx_s (last (cb_v c))) ds) c in (totalLen c, c))"

definition arc_segs :: "real \<Rightarrow> real \<Rightarrow> real \<Rightarrow> int" where
  "arc_segs radius angular_travel arc_tol =
     (let segs = 1;
          segs = (if 0 < arc_tol \<and> arc_tol < radius then
                    let denom = fsqrt (fmul arc_tol (fsub (fmul 2 radius) arc_tol))
                    in if 0 < denom
                       then \<lfloor>fdiv \<bar>fmul (fmul (1 / 2) angular_travel) radius\<bar> denom\<rfloor> else segs
                  else segs)
      in if segs < 1 then 1 else segs)"

definition arc_point ::
    "pose4 \<Rightarrow> pose4 \<Rightarrow> real \<Rightarrow> real \<Rightarrow> real \<Rightarrow> real \<Rightarrow> real \<Rightarrow> int \<Rightarrow> int \<Rightarrow> pose4" where
  "arc_point startPose e cx cy radius angular_travel theta0 segs i =
     (let frac = fdiv (fint i) (fint segs);
          theta = fadd theta0 (fmul angular_travel frac);
          p = \<lparr>p_x = fadd cx (fmul radius (fcos theta)),
               p_y = fadd cy (fmul radius (fsin theta)),
               p_u = fadd (p_u startPose) (fmul (fsub (p_u e) (p_u startPose)) frac),
               p_v = fadd (p_v startPose) (fmul (fsub (p_v e) (p_v startPose)) frac)\<rparr>
      in if i = segs then p\<lparr>p_x := p_x e, p_y := p_y e\<rparr> else p)"

definition appendArc ::
    "pose4 \<Rightarrow> real \<Rightarrow> real \<Rightarrow> real \<Rightarrow> real \<Rightarrow> real \<Rightarrow> contour_buffer \<Rightarrow> real \<times> contour_buffer" where
  "appendArc e cx cy radius angular_travel arc_tol c =
     (if cb_v c = [] then (0, c)
      else
        let startPose = vx_pose (last (cb_v c));
            segs = arc_segs radius angular_travel arc_tol;
            theta0 = fatan2 (fsub (p_y startPose) cy) (fsub (p_x startPose) cx);
            c = fold (\<lambda>i c. snd (appendLine
                    (arc_point startPose e cx cy radius angular_travel theta0 segs i) c))
                  [1..segs] c
        in (totalLen c, c))"

text \<open>The binary search between the indices \<open>lo\<close> and \<open>hi\<close>.\<close>

function pose_search :: "vertex list \<Rightarrow> real \<Rightarrow> nat \<Rightarrow> nat \<Rightarrow> nat \<times> nat" where
  "pose_search v s lo hi =
     (if 1 < hi - lo then
        let mid = (lo + hi) div 2
        in if vx_s (v ! mid) \<le> s then pose_search v s mid hi else pose_search v s lo mid
      else (lo, hi))"
  by auto
termination by (relation "measure (\<lambda>(v, s, lo, hi). hi - lo)") auto

declare pose_search.simps [simp del]

definition poseAt :: "contour_buffer \<Rightarrow> real \<Rightarrow> pose4" where
  "poseAt c s =
     (case cb_v c of
        [] \<Rightarrow> pose4_zero
      | v0 # vs \<Rightarrow>
          (let v = v0 # vs
           in if s \<le> vx_s v0 then vx_pose v0
              else if vx_s (last v) \<le> s then vx_pose (last v)
              else
                let (lo, hi) = pose_search v s 0 (length v - 1);
                    seg = fsub (vx_s (v ! hi)) (vx_s (v ! lo));
                    t = (if 0 < seg then fdiv (fsub s (vx_s (v ! lo))) seg else 0)
                in pose_lerp (vx_pose (v ! lo)) (vx_pose (v ! hi)) t))"

definition retractFloor :: "contour_buffer \<Rightarrow> real \<Rightarrow> real \<Rightarrow> real" where
  "retractFloor c sMax retract_max_mm =
     (let f = fsub sMax retract_max_mm; lo = startS c in if f < lo then lo else f)"

text \<open>The scan keeps the last index before the first vertex above the floor.\<close>

fun evict_keep :: "real \<Rightarrow> vertex list \<Rightarrow> nat \<Rightarrow> nat \<Rightarrow> nat" where
  "evict_keep s_floor [] i keep = keep"
| "evict_keep s_floor (v # vs) i keep =
     (if vx_s v \<le> s_floor then evict_keep s_floor vs (i + 1) i else keep)"

definition evictBelow :: "real \<Rightarrow> contour_buffer \<Rightarrow> contour_buffer" where
  "evictBelow s_floor c =
     (if length (cb_v c) \<le> 1 then c
      else let keep = evict_keep s_floor (cb_v c) 0 0
           in if 0 < keep then c\<lparr>cb_v := drop keep (cb_v c)\<rparr> else c)"

subsection \<open>Well-formed contours\<close>

text \<open>Arc lengths do not decrease along the buffer, and the buffer respects its capacity.\<close>

definition wf_contour :: "contour_buffer \<Rightarrow> bool" where
  "wf_contour c \<longleftrightarrow> sorted (map vx_s (cb_v c)) \<and> 0 < cb_cap c \<and> length (cb_v c) \<le> cb_cap c
     \<and> list_all (\<lambda>v. is_f32 (vx_s v)) (cb_v c)"

lemma kMinSegLen_pos: "0 \<le> kMinSegLen"
  by (simp add: kMinSegLen_def f32_nonneg)

lemma totalLen_last: "cb_v c \<noteq> [] \<Longrightarrow> totalLen c = vx_s (last (cb_v c))"
  by (cases "cb_v c") (simp_all add: totalLen_def)

lemma startS_hd: "cb_v c \<noteq> [] \<Longrightarrow> startS c = vx_s (hd (cb_v c))"
  by (cases "cb_v c") (simp_all add: startS_def)

lemma sorted_last: "sorted (xs :: real list) \<Longrightarrow> x \<in> set xs \<Longrightarrow> x \<le> last xs"
  by (induction xs) auto

lemma wf_contour_span: "wf_contour c \<Longrightarrow> v \<in> set (cb_v c) \<Longrightarrow> startS c \<le> vx_s v \<and> vx_s v \<le> totalLen c"
proof -
  assume wf: "wf_contour c" and v: "v \<in> set (cb_v c)"
  then have ne: "cb_v c \<noteq> []" by auto
  have "vx_s v \<le> last (map vx_s (cb_v c))"
    using wf v by (intro sorted_last) (auto simp: wf_contour_def)
  moreover have "hd (map vx_s (cb_v c)) \<le> vx_s v"
    using wf v ne by (cases "cb_v c") (auto simp: wf_contour_def)
  ultimately show ?thesis using ne by (simp add: totalLen_last startS_hd last_map hd_map)
qed

lemma pushVertex_wf:
  assumes "wf_contour c" "cb_v c \<noteq> []" "totalLen c \<le> s" "is_f32 s"
  shows "wf_contour (pushVertex p s c)" "totalLen (pushVertex p s c) = s"
    "cb_cap (pushVertex p s c) = cb_cap c" "cb_v (pushVertex p s c) \<noteq> []"
proof -
  define vs where "vs = (if cb_cap c \<le> length (cb_v c) then tl (cb_v c) else cb_v c)"
  have eq: "cb_v (pushVertex p s c) = vs @ [\<lparr>vx_pose = p, vx_s = s\<rparr>]"
    "cb_cap (pushVertex p s c) = cb_cap c"
    by (simp_all add: pushVertex_def Let_def vs_def)
  have sub: "set vs \<subseteq> set (cb_v c)" by (cases "cb_v c") (auto simp: vs_def)
  have "sorted (map vx_s vs)"
    using assms(1) by (simp add: vs_def wf_contour_def map_tl sorted_tl)
  moreover have "vx_s v \<le> s" if "v \<in> set vs" for v
    using wf_contour_span [OF assms(1)] sub that assms(3) by (blast intro: order_trans)
  moreover have "list_all (\<lambda>v. is_f32 (vx_s v)) vs"
    using assms(1) sub by (auto simp: wf_contour_def list_all_iff)
  moreover have "length vs < cb_cap c"
    using assms(1,2) by (auto simp: vs_def wf_contour_def)
  ultimately show "wf_contour (pushVertex p s c)"
    using assms(1,4) by (auto simp: wf_contour_def eq sorted_append)
  show "totalLen (pushVertex p s c) = s" by (simp add: totalLen_last eq)
  show "cb_cap (pushVertex p s c) = cb_cap c" "cb_v (pushVertex p s c) \<noteq> []" by (simp_all add: eq)
qed

text \<open>
  Appending a line keeps the buffer well formed and never shortens the contour: a segment
  that is too short in both planes is dropped.
\<close>

lemma appendLine_wf:
  assumes "wf_contour c"
  shows "wf_contour (snd (appendLine e c))" "cb_v (snd (appendLine e c)) \<noteq> []"
    "cb_v c \<noteq> [] \<Longrightarrow> totalLen c \<le> totalLen (snd (appendLine e c))"
    "fst (appendLine e c) = totalLen (snd (appendLine e c))"
proof -
  show "fst (appendLine e c) = totalLen (snd (appendLine e c))"
    by (simp add: appendLine_def Let_def)
  have goal: "wf_contour (snd (appendLine e c)) \<and> cb_v (snd (appendLine e c)) \<noteq> []
      \<and> (cb_v c \<noteq> [] \<longrightarrow> totalLen c \<le> totalLen (snd (appendLine e c)))"
  proof (cases "cb_v c = []")
    case True
    then show ?thesis using assms by (auto simp: appendLine_def wf_contour_def Let_def)
  next
    case False
    define prev where "prev = vx_pose (last (cb_v c))"
    define ds where "ds = (if xyChord prev e < kMinSegLen then uvChord prev e else xyChord prev e)"
    show ?thesis
    proof (cases "ds < kMinSegLen")
      case True
      then show ?thesis
        using False assms by (simp add: appendLine_def Let_def flip: prev_def ds_def)
    next
      case long: False
      have eq: "snd (appendLine e c) = pushVertex e (fadd (vx_s (last (cb_v c))) ds) c"
        using False long by (simp add: appendLine_def Let_def flip: prev_def ds_def)
      have "0 \<le> ds" using long kMinSegLen_pos by simp
      moreover have "is_f32 (totalLen c)"
        using assms False by (simp add: totalLen_last wf_contour_def list_all_iff)
      ultimately have "totalLen c \<le> fadd (totalLen c) ds"
        unfolding fadd_def by (intro f32_ge_bound) auto
      then show ?thesis
        using pushVertex_wf [OF assms False, of "fadd (totalLen c) ds" e] False
        by (simp add: eq totalLen_last)
    qed
  qed
  then show "wf_contour (snd (appendLine e c))" "cb_v (snd (appendLine e c)) \<noteq> []"
    "cb_v c \<noteq> [] \<Longrightarrow> totalLen c \<le> totalLen (snd (appendLine e c))"
    by simp_all
qed

lemma appendArc_wf:
  assumes "wf_contour c" "cb_v c \<noteq> []"
  shows "wf_contour (snd (appendArc e cx cy radius ang tol c))"
    "totalLen c \<le> totalLen (snd (appendArc e cx cy radius ang tol c))"
proof -
  have step: "wf_contour (fold (\<lambda>i c. snd (appendLine (f i) c)) is c)
      \<and> totalLen c \<le> totalLen (fold (\<lambda>i c. snd (appendLine (f i) c)) is c)
      \<and> cb_v (fold (\<lambda>i c. snd (appendLine (f i) c)) is c) \<noteq> []"
    if "wf_contour c" "cb_v c \<noteq> []" for f :: "int \<Rightarrow> pose4" and "is" c
    using that
  proof (induction "is" arbitrary: c)
    case Nil
    then show ?case by simp
  next
    case (Cons i "is")
    have s: "wf_contour (snd (appendLine (f i) c))" "cb_v (snd (appendLine (f i) c)) \<noteq> []"
      "totalLen c \<le> totalLen (snd (appendLine (f i) c))"
      using appendLine_wf [OF Cons.prems(1)] Cons.prems(2) by blast+
    from Cons.IH [OF s(1,2)] s(3) show ?case by auto
  qed
  show "wf_contour (snd (appendArc e cx cy radius ang tol c))"
    "totalLen c \<le> totalLen (snd (appendArc e cx cy radius ang tol c))"
    using step [OF assms] assms(2) by (auto simp: appendArc_def Let_def)
qed

lemma contour_reset_wf: "0 < cb_cap c \<Longrightarrow> is_f32 s0 \<Longrightarrow> wf_contour (contour_reset p s0 c)"
  by (simp add: wf_contour_def contour_reset_def)

subsection \<open>The search\<close>

lemma pose_search_bracket:
  assumes "lo < hi" "hi < length v" "vx_s (v ! lo) \<le> s" "s < vx_s (v ! hi)"
  shows "case pose_search v s lo hi of (l, h) \<Rightarrow>
    h = l + 1 \<and> lo \<le> l \<and> h \<le> hi \<and> vx_s (v ! l) \<le> s \<and> s < vx_s (v ! h)"
  using assms
proof (induction v s lo hi rule: pose_search.induct)
  case (1 v s lo hi)
  define mid where "mid = (lo + hi) div 2"
  show ?case
  proof (cases "1 < hi - lo")
    case False
    then have "hi = lo + 1" using 1(3) by simp
    then show ?thesis using 1(3-6) by (simp add: pose_search.simps)
  next
    case True
    then have mid: "lo < mid" "mid < hi" by (auto simp: mid_def)
    show ?thesis
    proof (cases "vx_s (v ! mid) \<le> s")
      case le: True
      have "pose_search v s lo hi = pose_search v s mid hi"
        using True le by (simp add: pose_search.simps [of v s lo hi] mid_def)
      then show ?thesis using "1.IH"(1) [OF True mid_def le] mid 1(4-6) le by auto
    next
      case gt: False
      have "pose_search v s lo hi = pose_search v s lo mid"
        using True gt by (simp add: pose_search.simps [of v s lo hi] mid_def)
      then show ?thesis using "1.IH"(2) [OF True mid_def gt] mid 1(3-6) gt by auto
    qed
  qed
qed

text \<open>
  Inside the contour the pose is the interpolation on the segment that holds \<open>s\<close>, with a
  factor between 0 and 1; at and beyond the ends it is the end pose.
\<close>

lemma poseAt_inside:
  assumes "startS c < s" "s < totalLen c" "cb_v c \<noteq> []" "is_f32 s"
  shows "\<exists>i t. i + 1 < length (cb_v c) \<and> vx_s (cb_v c ! i) \<le> s \<and> s < vx_s (cb_v c ! (i + 1))
    \<and> 0 \<le> t \<and> t \<le> 1 \<and> poseAt c s = pose_lerp (vx_pose (cb_v c ! i)) (vx_pose (cb_v c ! (i + 1))) t"
proof -
  obtain v0 vs where v: "cb_v c = v0 # vs" using assms(3) by (cases "cb_v c") auto
  define v where "v = v0 # vs"
  have st: "startS c = vx_s (v ! 0)" "totalLen c = vx_s (v ! (length v - 1))"
    using assms(3) by (simp_all add: v_def v startS_def totalLen_last last_conv_nth)
  have len: "0 < length v - 1"
  proof (rule ccontr)
    assume "\<not> 0 < length v - 1"
    then have "length v - 1 = 0" by simp
    with st assms(1,2) show False by simp
  qed
  have len1: "length v - 1 < length v" by (simp add: v_def)
  obtain l h where lh: "pose_search v s 0 (length v - 1) = (l, h)" by fastforce
  have b: "h = l + 1" "h \<le> length v - 1" "vx_s (v ! l) \<le> s" "s < vx_s (v ! h)"
    using pose_search_bracket [OF len, of v s, unfolded lh prod.case] len1 assms(1,2) st by auto
  define seg where "seg = fsub (vx_s (v ! h)) (vx_s (v ! l))"
  define t where "t = (if 0 < seg then fdiv (fsub s (vx_s (v ! l))) seg else 0)"
  have "poseAt c s = pose_lerp (vx_pose (v ! l)) (vx_pose (v ! h)) t"
  proof -
    have "\<not> s \<le> vx_s v0" using assms(1) by (simp add: startS_def v)
    moreover have "\<not> vx_s (last v) \<le> s" using assms(2) by (simp add: totalLen_def v v_def)
    ultimately show ?thesis
      unfolding poseAt_def v list.case Let_def
      by (simp only: v_def [symmetric] lh if_False prod.case seg_def t_def)
  qed
  moreover have "0 \<le> t"
    using b by (simp add: t_def fdiv_def fsub_def f32_nonneg)
  moreover have "t \<le> 1"
  proof (cases "0 < seg")
    case True
    have "fsub s (vx_s (v ! l)) \<le> seg" using b unfolding seg_def fsub_def by (intro f32_mono) simp
    then have "fsub s (vx_s (v ! l)) / seg \<le> 1" using True by simp
    then show ?thesis using True unfolding t_def fdiv_def
      by (auto intro: f32_le_bound simp: is_f32_def)
  qed (simp add: t_def)
  ultimately show ?thesis
    using b len by (intro exI [of _ l] exI [of _ t]) (simp add: v v_def)
qed

lemma poseAt_ends:
  assumes "cb_v c \<noteq> []"
  shows "s \<le> startS c \<Longrightarrow> poseAt c s = vx_pose (hd (cb_v c))"
    and "startS c < s \<Longrightarrow> totalLen c \<le> s \<Longrightarrow> poseAt c s = vx_pose (last (cb_v c))"
  using assms by (auto simp: poseAt_def startS_def totalLen_def Let_def split: list.splits)

subsection \<open>Eviction\<close>

lemma evict_keep_bounds:
  "keep \<le> i \<Longrightarrow> keep \<le> evict_keep f vs i keep \<and> (vs \<noteq> [] \<longrightarrow> evict_keep f vs i keep < i + length vs)"
  by (induction f vs i keep rule: evict_keep.induct) (fastforce split: if_splits)+

lemma evict_keep_spec:
  "evict_keep f vs i keep = (if takeWhile (\<lambda>v. vx_s v \<le> f) vs = [] then keep
     else i + length (takeWhile (\<lambda>v. vx_s v \<le> f) vs) - 1)"
  by (induction f vs i keep rule: evict_keep.induct) auto

text \<open>
  Eviction drops whole segments below the floor: what is left starts at the last vertex at
  or below it, so every pose at or above the floor is still there.
\<close>

lemma evictBelow_suffix:
  "\<exists>n. cb_v (evictBelow f c) = drop n (cb_v c) \<and> (cb_v c \<noteq> [] \<longrightarrow> n < length (cb_v c))
     \<and> (0 < n \<longrightarrow> vx_s (cb_v c ! n) \<le> f)"
proof (cases "length (cb_v c) \<le> 1 \<or> evict_keep f (cb_v c) 0 0 = 0")
  case True
  then have "evictBelow f c = c" by (auto simp: evictBelow_def)
  then show ?thesis by (intro exI [of _ 0]) simp
next
  case False
  define w where "w = takeWhile (\<lambda>v. vx_s v \<le> f) (cb_v c)"
  define n where "n = evict_keep f (cb_v c) 0 0"
  have n: "0 < n" "n = length w - 1" "w \<noteq> []"
    using False by (auto simp: n_def w_def evict_keep_spec)
  have "length w \<le> length (cb_v c)" by (simp add: w_def length_takeWhile_le)
  then have "n < length (cb_v c)" using n by (cases w) auto
  moreover have "vx_s (cb_v c ! n) \<le> f"
  proof -
    have "n < length w" using n by (cases w) auto
    then have "w ! n \<in> set w" "w ! n = cb_v c ! n"
      by (rule nth_mem, simp add: w_def takeWhile_nth)
    then show ?thesis by (auto simp: w_def dest: set_takeWhileD)
  qed
  moreover have "cb_v (evictBelow f c) = drop n (cb_v c)"
    using False n(1) by (simp add: evictBelow_def n_def)
  ultimately show ?thesis by blast
qed

lemma evictBelow_keeps:
  assumes "wf_contour c" "cb_v c \<noteq> []"
  shows "wf_contour (evictBelow f c)" "cb_v (evictBelow f c) \<noteq> []"
    "totalLen (evictBelow f c) = totalLen c"
    "startS (evictBelow f c) \<le> max f (startS c)"
proof -
  obtain n where n: "cb_v (evictBelow f c) = drop n (cb_v c)" "n < length (cb_v c)"
    "0 < n \<longrightarrow> vx_s (cb_v c ! n) \<le> f"
    using evictBelow_suffix [of f c] assms(2) by blast
  have cap: "cb_cap (evictBelow f c) = cb_cap c" by (simp add: evictBelow_def Let_def)
  show "wf_contour (evictBelow f c)"
    using assms(1) n(1) cap
    by (auto simp: wf_contour_def drop_map list_all_iff sorted_wrt_drop dest: in_set_dropD
        simp flip: drop_map)
  show ne: "cb_v (evictBelow f c) \<noteq> []" using n by simp
  show "totalLen (evictBelow f c) = totalLen c"
    using n ne assms(2) by (simp add: totalLen_last)
  have "startS (evictBelow f c) = vx_s (cb_v c ! n)"
    using n ne by (simp add: startS_hd hd_drop_conv_nth)
  moreover have "startS c = vx_s (cb_v c ! 0)"
    using assms(2) by (simp add: startS_hd hd_conv_nth)
  ultimately show "startS (evictBelow f c) \<le> max f (startS c)"
    using n(3) by (cases n) auto
qed

end
