(* ===== verification/PathSampler.thy ===== *)
theory PathSampler
  imports ContourBuffer
begin

text \<open>
  The path sampler (\<^verbatim>\<open>EDM/Motion/PathSampler.h\<close>, \<^verbatim>\<open>.cpp\<close>): it turns the commanded
  velocity into short segments along the contour. One call is \<open>sampler_step\<close>; its parts
  are the velocity ramp, the reversal flush, the motion along the contour and the emission.
  The direction is the integer -1, 0 or 1.
\<close>

record sampler_config =
  sm_dt_min_s :: real
  sm_dt_max_s :: real
  sm_seg_min_mm :: real
  sm_seg_max_mm :: real
  sm_a_max_mm_s2 :: real
  sm_v_max_mm_s :: real
  sm_v_floor_um_s :: int
  sm_retract_max_mm :: real
  sm_eps_end_mm :: real
  sm_feed_floor_mm_min :: real

definition sampler_config_default :: sampler_config where
  "sampler_config_default = \<lparr>sm_dt_min_s = f32 0.0005, sm_dt_max_s = f32 0.02,
     sm_seg_min_mm = f32 0.02, sm_seg_max_mm = f32 0.15, sm_a_max_mm_s2 = 200,
     sm_v_max_mm_s = f32 0.1, sm_v_floor_um_s = 5, sm_retract_max_mm = 3,
     sm_eps_end_mm = f32 0.0001, sm_feed_floor_mm_min = 1 / 2\<rparr>"

record sampler_state =
  ss_s :: real
  ss_s_max :: real
  ss_s_emit :: real
  ss_v_mm_s :: real
  ss_dir :: int
  ss_done :: bool

definition sampler_state_default :: sampler_state where
  "sampler_state_default = \<lparr>ss_s = 0, ss_s_max = 0, ss_s_emit = 0, ss_v_mm_s = 0, ss_dir = 0,
     ss_done = False\<rparr>"

datatype emit = EmitNone | EmitAdvance | EmitRetract

record sample_result =
  sr_emit :: emit
  sr_target :: pose4
  sr_s_target :: real
  sr_seg_len_mm :: real
  sr_feed_mm_min :: real
  sr_block_done :: bool
  sr_at_retract_floor :: bool

definition sample_result_default :: sample_result where
  "sample_result_default = \<lparr>sr_emit = EmitNone, sr_target = pose4_zero, sr_s_target = 0,
     sr_seg_len_mm = 0, sr_feed_mm_min = 0, sr_block_done = False, sr_at_retract_floor = False\<rparr>"

subsection \<open>The step\<close>

text \<open>The target velocity: a dead zone below the floor, then the unit conversion and the limit.\<close>

definition sampler_v_target :: "sampler_config \<Rightarrow> i32 \<Rightarrow> real" where
  "sampler_v_target c v_cmd =
     (let v = (if \<bar>sint v_cmd\<bar> < sm_v_floor_um_s c then 0 else fmul (fint (sint v_cmd)) (f32 0.001))
      in clampf v (- sm_v_max_mm_s c) (sm_v_max_mm_s c))"

definition sampler_ramp :: "sampler_config \<Rightarrow> real \<Rightarrow> i32 \<Rightarrow> real \<Rightarrow> real" where
  "sampler_ramp c v v_cmd dt =
     (let dv = fmul (sm_a_max_mm_s2 c) dt
      in clampf (sampler_v_target c v_cmd) (fsub v dv) (fadd v dv))"

definition direction :: "real \<Rightarrow> int" where
  "direction ds = (if 0 < ds then 1 else if ds < 0 then - 1 else 0)"

definition emitTo ::
    "contour_buffer \<Rightarrow> sampler_config \<Rightarrow> real \<Rightarrow> int \<Rightarrow> sampler_state \<Rightarrow> sample_result \<Rightarrow> sampler_state \<times> sample_result" where
  "emitTo co c s_target d st r =
     (st\<lparr>ss_s_emit := s_target, ss_dir := d\<rparr>,
      r\<lparr>sr_emit := (if 0 < d then EmitAdvance else EmitRetract),
        sr_target := poseAt co s_target, sr_s_target := s_target,
        sr_feed_mm_min := max (fmul \<bar>ss_v_mm_s st\<bar> 60) (sm_feed_floor_mm_min c)\<rparr>)"

definition flush_due :: "sampler_config \<Rightarrow> int \<Rightarrow> sampler_state \<Rightarrow> bool" where
  "flush_due c new_dir st \<longleftrightarrow> new_dir \<noteq> 0 \<and> ss_dir st \<noteq> 0 \<and> new_dir \<noteq> ss_dir st
     \<and> sm_eps_end_mm c \<le> \<bar>fsub (ss_s st) (ss_s_emit st)\<bar>"

definition sampler_flush ::
    "contour_buffer \<Rightarrow> sampler_config \<Rightarrow> int \<Rightarrow> sampler_state \<Rightarrow> sampler_state \<times> sample_result" where
  "sampler_flush co c new_dir st =
     (let old_dir = (if ss_s_emit st < ss_s st then 1 else - 1);
          seg = \<bar>fsub (ss_s st) (ss_s_emit st)\<bar>;
          seg = (if sm_seg_max_mm c < seg then sm_seg_max_mm c else seg);
          s_target = (if 0 < old_dir then fadd (ss_s_emit st) seg else fsub (ss_s_emit st) seg);
          r = sample_result_default\<lparr>sr_seg_len_mm := seg\<rparr>;
          (st, r) = emitTo co c s_target old_dir st r
      in (st\<lparr>ss_dir := new_dir\<rparr>, r))"

text \<open>The position after the move, with the end and the retract floor: state, block done, at floor.\<close>

definition sampler_move ::
    "contour_buffer \<Rightarrow> sampler_config \<Rightarrow> int \<Rightarrow> real \<Rightarrow> sampler_state \<Rightarrow> sampler_state \<times> bool \<times> bool" where
  "sampler_move co c new_dir ds_raw st =
     (let s_want = fadd (ss_s st) ds_raw
      in if 0 < new_dir then
           let L = totalLen co;
               s_want = (if L < s_want then L else s_want);
               st = (if ss_s_max st < s_want then st\<lparr>ss_s_max := s_want\<rparr> else st);
               block_done = (fsub L (sm_eps_end_mm c) \<le> s_want)
           in (st\<lparr>ss_s := s_want\<rparr>, block_done, False)
         else
           let fl = retractFloor co (ss_s_max st) (sm_retract_max_mm c)
           in if s_want < fl then (st\<lparr>ss_s := fl\<rparr>, False, True)
              else (st\<lparr>ss_s := s_want\<rparr>, False, False))"

definition sampler_emit ::
    "contour_buffer \<Rightarrow> sampler_config \<Rightarrow> int \<Rightarrow> i32 \<Rightarrow> bool \<Rightarrow> bool \<Rightarrow> sampler_state \<Rightarrow> sampler_state \<times> sample_result" where
  "sampler_emit co c new_dir v_cmd block_done at_floor st =
     (let s_want = ss_s st;
          pending = \<bar>fsub s_want (ss_s_emit st)\<bar>;
          want_emit = (sm_seg_min_mm c \<le> pending \<or> block_done);
          r = sample_result_default
      in if \<not> want_emit then
           (st\<lparr>ss_dir := new_dir\<rparr>,
            r\<lparr>sr_emit := EmitNone, sr_block_done := block_done, sr_at_retract_floor := at_floor\<rparr>)
         else
           let seg = (if sm_seg_max_mm c < pending then sm_seg_max_mm c else pending);
               s_target = (if 0 < new_dir then fadd (ss_s_emit st) seg else fsub (ss_s_emit st) seg);
               s_target = (if 0 < new_dir \<and> s_want < s_target then s_want else s_target);
               s_target = (if new_dir < 0 \<and> s_target < s_want then s_want else s_target);
               r = r\<lparr>sr_seg_len_mm := \<bar>fsub s_target (ss_s_emit st)\<bar>\<rparr>;
               (st, r) = emitTo co c s_target new_dir st r;
               r = r\<lparr>sr_block_done := block_done, sr_at_retract_floor := at_floor\<rparr>;
               st = (if block_done \<and> 0 \<le> sint v_cmd then st\<lparr>ss_done := True\<rparr> else st)
           in (st, r))"

definition sampler_step ::
    "contour_buffer \<Rightarrow> sampler_config \<Rightarrow> sampler_state \<Rightarrow> i32 \<Rightarrow> real \<Rightarrow> sampler_state \<times> sample_result" where
  "sampler_step co c st v_cmd dt_s =
     (let dt = clampf dt_s (sm_dt_min_s c) (sm_dt_max_s c);
          st = st\<lparr>ss_v_mm_s := sampler_ramp c (ss_v_mm_s st) v_cmd dt\<rparr>;
          ds_raw = fmul (ss_v_mm_s st) dt;
          new_dir = direction ds_raw
      in if flush_due c new_dir st then sampler_flush co c new_dir st
         else if new_dir = 0 then (st\<lparr>ss_dir := 0\<rparr>, sample_result_default)
         else
           let (st, block_done, at_floor) = sampler_move co c new_dir ds_raw st
           in sampler_emit co c new_dir v_cmd block_done at_floor st)"

subsection \<open>Where the sampler can be\<close>

text \<open>
  The position stays on the contour, never falls behind the furthest point by more than
  the retract limit, and the furthest point is what was reached.
\<close>

definition sampler_inv :: "contour_buffer \<Rightarrow> sampler_config \<Rightarrow> sampler_state \<Rightarrow> bool" where
  "sampler_inv co c st \<longleftrightarrow>
     is_f32 (ss_s st) \<and> is_f32 (ss_s_max st) \<and>
     retractFloor co (ss_s_max st) (sm_retract_max_mm c) \<le> ss_s st \<and> ss_s st \<le> ss_s_max st \<and>
     ss_s_max st \<le> totalLen co"

definition wf_sampler :: "contour_buffer \<Rightarrow> sampler_config \<Rightarrow> bool" where
  "wf_sampler co c \<longleftrightarrow> wf_contour co \<and> cb_v co \<noteq> [] \<and> 0 \<le> sm_retract_max_mm c
     \<and> 0 \<le> sm_v_max_mm_s c \<and> 0 \<le> sm_dt_min_s c \<and> sm_dt_min_s c \<le> sm_dt_max_s c
     \<and> 0 \<le> sm_a_max_mm_s2 c"

lemma wf_sampler_span:
  assumes "wf_sampler co c"
  shows "startS co \<le> totalLen co" "is_f32 (startS co)" "is_f32 (totalLen co)"
proof -
  have wf: "wf_contour co" "cb_v co \<noteq> []" using assms by (simp_all add: wf_sampler_def)
  have h: "hd (cb_v co) \<in> set (cb_v co)" "last (cb_v co) \<in> set (cb_v co)" using wf(2) by simp_all
  show "startS co \<le> totalLen co"
    using wf_contour_span [OF wf(1) h(1)] by simp
  show "is_f32 (startS co)" "is_f32 (totalLen co)"
    using wf h by (simp_all add: startS_hd totalLen_last wf_contour_def list_all_iff)
qed

lemma retractFloor_mono: "a \<le> b \<Longrightarrow> retractFloor co a m \<le> retractFloor co b m"
proof -
  assume "a \<le> b"
  then have "fsub a m \<le> fsub b m" unfolding fsub_def by (intro f32_mono) simp
  then show ?thesis by (simp add: retractFloor_def Let_def)
qed

lemma retractFloor_le:
  assumes "wf_sampler co c" "is_f32 x" "startS co \<le> x"
  shows "retractFloor co x (sm_retract_max_mm c) \<le> x"
proof -
  have "fsub x (sm_retract_max_mm c) \<le> x"
    unfolding fsub_def by (rule f32_le_bound) (use assms in \<open>simp_all add: wf_sampler_def\<close>)
  then show ?thesis using assms(3) by (simp add: retractFloor_def Let_def)
qed

lemma retractFloor_start: "startS co \<le> retractFloor co x m"
  by (simp add: retractFloor_def Let_def)

lemma is_f32_retractFloor: "is_f32 (startS co) \<Longrightarrow> is_f32 (retractFloor co x m)"
  by (simp add: retractFloor_def Let_def)

lemma sampler_move_inv:
  assumes wf: "wf_sampler co c" and inv: "sampler_inv co c st"
    and dir: "new_dir = direction ds" "new_dir \<noteq> 0"
  shows "sampler_inv co c (fst (sampler_move co c new_dir ds st))"
proof -
  note span = wf_sampler_span [OF wf]
  define w where "w = fadd (ss_s st) ds"
  have start: "startS co \<le> ss_s st"
    using inv retractFloor_start [of co "ss_s_max st" "sm_retract_max_mm c"]
    by (simp add: sampler_inv_def)
  consider "0 < ds" "new_dir = 1" | "ds < 0" "new_dir = - 1"
    using dir by (auto simp: direction_def split: if_splits)
  then show ?thesis
  proof cases
    case 1
    define s' where "s' = (if totalLen co < w then totalLen co else w)"
    have "ss_s st \<le> w"
      unfolding w_def fadd_def by (rule f32_ge_bound) (use 1 inv in \<open>simp_all add: sampler_inv_def\<close>)
    then have up: "ss_s st \<le> s'" "s' \<le> totalLen co" "is_f32 s'"
      using inv span by (auto simp: s'_def sampler_inv_def w_def)
    have eq: "fst (sampler_move co c new_dir ds st)
        = (if ss_s_max st < s' then st\<lparr>ss_s_max := s'\<rparr> else st)\<lparr>ss_s := s'\<rparr>"
      using 1 by (simp add: sampler_move_def Let_def w_def s'_def)
    show ?thesis
    proof (cases "ss_s_max st < s'")
      case True
      have "startS co \<le> s'" using start up(1) by linarith
      then have "retractFloor co s' (sm_retract_max_mm c) \<le> s'"
        by (intro retractFloor_le [OF wf up(3)])
      with True up show ?thesis by (simp add: eq sampler_inv_def)
    next
      case False
      with up inv show ?thesis by (auto simp: eq sampler_inv_def)
    qed
  next
    case 2
    define fl where "fl = retractFloor co (ss_s_max st) (sm_retract_max_mm c)"
    have "w \<le> ss_s st"
      unfolding w_def fadd_def by (rule f32_le_bound) (use 2 inv in \<open>simp_all add: sampler_inv_def\<close>)
    moreover have "is_f32 fl" "fl \<le> ss_s st"
      using inv is_f32_retractFloor [OF span(2)] by (simp_all add: fl_def sampler_inv_def)
    moreover have "is_f32 w" by (simp add: w_def)
    ultimately show ?thesis
      using 2 inv by (auto simp: sampler_move_def Let_def sampler_inv_def w_def fl_def)
  qed
qed

lemma emitTo_keeps [simp]:
  "ss_s (fst (emitTo co c t d st r)) = ss_s st" "ss_s_max (fst (emitTo co c t d st r)) = ss_s_max st"
  "ss_v_mm_s (fst (emitTo co c t d st r)) = ss_v_mm_s st"
  by (simp_all add: emitTo_def)

lemma sampler_flush_keeps:
  "ss_s (fst (sampler_flush co c d st)) = ss_s st" "ss_s_max (fst (sampler_flush co c d st)) = ss_s_max st"
  "ss_v_mm_s (fst (sampler_flush co c d st)) = ss_v_mm_s st"
  by (simp_all add: sampler_flush_def emitTo_def Let_def)

lemma sampler_emit_keeps:
  "ss_s (fst (sampler_emit co c d v b f st)) = ss_s st"
  "ss_s_max (fst (sampler_emit co c d v b f st)) = ss_s_max st"
  "ss_v_mm_s (fst (sampler_emit co c d v b f st)) = ss_v_mm_s st"
  by (simp_all add: sampler_emit_def emitTo_def Let_def)

lemma sampler_move_v: "ss_v_mm_s (fst (sampler_move co c d ds st)) = ss_v_mm_s st"
  by (simp add: sampler_move_def Let_def)

text \<open>The three ways a step can go.\<close>

lemma sampler_step_cases:
  obtains (Flush) st1 where "ss_s st1 = ss_s st" "ss_s_max st1 = ss_s_max st"
      "ss_v_mm_s st1 = sampler_ramp c (ss_v_mm_s st) v_cmd (clampf dt_s (sm_dt_min_s c) (sm_dt_max_s c))"
      "sampler_step co c st v_cmd dt_s = sampler_flush co c (direction (fmul (ss_v_mm_s st1) (clampf dt_s (sm_dt_min_s c) (sm_dt_max_s c)))) st1"
  | (Still) "fst (sampler_step co c st v_cmd dt_s) =
        st\<lparr>ss_v_mm_s := sampler_ramp c (ss_v_mm_s st) v_cmd (clampf dt_s (sm_dt_min_s c) (sm_dt_max_s c)), ss_dir := 0\<rparr>"
      "snd (sampler_step co c st v_cmd dt_s) = sample_result_default"
  | (Move) st1 ds d where
      "st1 = st\<lparr>ss_v_mm_s := sampler_ramp c (ss_v_mm_s st) v_cmd (clampf dt_s (sm_dt_min_s c) (sm_dt_max_s c))\<rparr>"
      "d = direction ds" "d \<noteq> 0"
      "sampler_step co c st v_cmd dt_s =
        (case sampler_move co c d ds st1 of (st2, b, f) \<Rightarrow> sampler_emit co c d v_cmd b f st2)"
proof -
  define dt where "dt = clampf dt_s (sm_dt_min_s c) (sm_dt_max_s c)"
  define st1 where "st1 = st\<lparr>ss_v_mm_s := sampler_ramp c (ss_v_mm_s st) v_cmd dt\<rparr>"
  define ds where "ds = fmul (ss_v_mm_s st1) dt"
  have eq: "sampler_step co c st v_cmd dt_s =
      (if flush_due c (direction ds) st1 then sampler_flush co c (direction ds) st1
       else if direction ds = 0 then (st1\<lparr>ss_dir := 0\<rparr>, sample_result_default)
       else (case sampler_move co c (direction ds) ds st1 of (st2, b, f) \<Rightarrow>
               sampler_emit co c (direction ds) v_cmd b f st2))"
    by (simp add: sampler_step_def Let_def dt_def st1_def ds_def)
  consider "flush_due c (direction ds) st1" | "\<not> flush_due c (direction ds) st1" "direction ds = 0"
    | "\<not> flush_due c (direction ds) st1" "direction ds \<noteq> 0" by blast
  then show thesis
  proof cases
    case 1
    then show thesis by (intro Flush [of st1]) (simp_all add: eq st1_def ds_def dt_def)
  next
    case 2
    then show thesis by (intro Still) (simp_all add: eq st1_def dt_def)
  next
    case 3
    then show thesis by (intro Move [of st1 "direction ds" ds]) (simp_all add: eq st1_def dt_def)
  qed
qed

lemma sampler_step_inv:
  assumes "wf_sampler co c" "sampler_inv co c st"
  shows "sampler_inv co c (fst (sampler_step co c st v_cmd dt_s))"
proof (rule sampler_step_cases [of st c v_cmd dt_s co])
  fix st1 assume "ss_s st1 = ss_s st" "ss_s_max st1 = ss_s_max st"
    "sampler_step co c st v_cmd dt_s = sampler_flush co c (direction (fmul (ss_v_mm_s st1)
       (clampf dt_s (sm_dt_min_s c) (sm_dt_max_s c)))) st1"
  then show ?thesis using assms(2) by (simp add: sampler_inv_def sampler_flush_keeps)
next
  assume "fst (sampler_step co c st v_cmd dt_s) =
      st\<lparr>ss_v_mm_s := sampler_ramp c (ss_v_mm_s st) v_cmd (clampf dt_s (sm_dt_min_s c) (sm_dt_max_s c)), ss_dir := 0\<rparr>"
  then show ?thesis using assms(2) by (simp add: sampler_inv_def)
next
  fix st1 ds d
  assume m: "st1 = st\<lparr>ss_v_mm_s := sampler_ramp c (ss_v_mm_s st) v_cmd
      (clampf dt_s (sm_dt_min_s c) (sm_dt_max_s c))\<rparr>" "d = direction ds" "d \<noteq> 0"
    "sampler_step co c st v_cmd dt_s =
      (case sampler_move co c d ds st1 of (st2, b, f) \<Rightarrow> sampler_emit co c d v_cmd b f st2)"
  have "sampler_inv co c st1" using assms(2) m(1) by (simp add: sampler_inv_def)
  then have "sampler_inv co c (fst (sampler_move co c d ds st1))"
    by (rule sampler_move_inv [OF assms(1) _ m(2,3)])
  then show ?thesis
    by (auto simp: m(4) sampler_inv_def sampler_emit_keeps split: prod.split)
qed

text \<open>Any run of steps.\<close>

fun sampler_run ::
    "contour_buffer \<Rightarrow> sampler_config \<Rightarrow> sampler_state \<Rightarrow> (i32 \<times> real) list \<Rightarrow> sampler_state" where
  "sampler_run co c st [] = st"
| "sampler_run co c st ((v, dt) # steps) = sampler_run co c (fst (sampler_step co c st v dt)) steps"

lemma sampler_run_inv:
  "wf_sampler co c \<Longrightarrow> sampler_inv co c st \<Longrightarrow> sampler_inv co c (sampler_run co c st steps)"
  by (induction steps arbitrary: st) (auto simp: sampler_step_inv)

lemma sampler_inv_bounds:
  assumes "sampler_inv co c st"
  shows "startS co \<le> ss_s st" "ss_s st \<le> totalLen co"
    "fsub (ss_s_max st) (sm_retract_max_mm c) \<le> ss_s st"
  using assms retractFloor_start [of co "ss_s_max st" "sm_retract_max_mm c"]
  by (auto simp: sampler_inv_def retractFloor_def Let_def split: if_splits)

subsection \<open>Velocity and emission\<close>

text \<open>The velocity stays within the limit and changes by at most the acceleration step.\<close>

lemma sampler_ramp_bounds:
  assumes "0 \<le> sm_v_max_mm_s c" "0 \<le> sm_a_max_mm_s2 c" "0 \<le> dt" "is_f32 v"
  shows "fsub v (fmul (sm_a_max_mm_s2 c) dt) \<le> sampler_ramp c v v_cmd dt"
    "sampler_ramp c v v_cmd dt \<le> fadd v (fmul (sm_a_max_mm_s2 c) dt)"
    "\<bar>v\<bar> \<le> sm_v_max_mm_s c \<Longrightarrow> \<bar>sampler_ramp c v v_cmd dt\<bar> \<le> sm_v_max_mm_s c"
proof -
  define dv where "dv = fmul (sm_a_max_mm_s2 c) dt"
  have dv: "0 \<le> dv" using assms by (simp add: dv_def fmul_def f32_nonneg)
  have lo: "fsub v dv \<le> v" unfolding fsub_def by (rule f32_le_bound) (use dv assms(4) in simp_all)
  have hi: "v \<le> fadd v dv" unfolding fadd_def by (rule f32_ge_bound) (use dv assms(4) in simp_all)
  have r: "sampler_ramp c v v_cmd dt = clampf (sampler_v_target c v_cmd) (fsub v dv) (fadd v dv)"
    by (simp add: sampler_ramp_def dv_def Let_def)
  show "fsub v (fmul (sm_a_max_mm_s2 c) dt) \<le> sampler_ramp c v v_cmd dt"
    "sampler_ramp c v v_cmd dt \<le> fadd v (fmul (sm_a_max_mm_s2 c) dt)"
    using lo hi by (auto simp: r clampf_def simp flip: dv_def)
  have t: "\<bar>sampler_v_target c v_cmd\<bar> \<le> sm_v_max_mm_s c"
    using assms(1) by (auto simp: sampler_v_target_def Let_def clampf_def)
  show "\<bar>v\<bar> \<le> sm_v_max_mm_s c \<Longrightarrow> \<bar>sampler_ramp c v v_cmd dt\<bar> \<le> sm_v_max_mm_s c"
    using t lo hi by (auto simp: r clampf_def)
qed

lemma is_f32_sampler_ramp: "is_f32 (sm_v_max_mm_s c) \<Longrightarrow> is_f32 (sampler_ramp c v v_cmd dt)"
  by (simp add: sampler_ramp_def sampler_v_target_def Let_def is_f32_clampf)

text \<open>
  An emission of a move never passes the position: an advance ends at or before it, a
  retract at or after it, and the emitted point is the contour's.
\<close>

lemma sampler_emit_side:
  "sr_emit (snd (sampler_emit co c 1 v b f st)) = EmitAdvance \<Longrightarrow>
     sr_s_target (snd (sampler_emit co c 1 v b f st)) \<le> ss_s st"
  "sr_emit (snd (sampler_emit co c (- 1) v b f st)) = EmitRetract \<Longrightarrow>
     ss_s st \<le> sr_s_target (snd (sampler_emit co c (- 1) v b f st))"
  by (auto simp: sampler_emit_def emitTo_def Let_def sample_result_default_def split: if_splits)

lemma sampler_emit_target:
  "sr_emit (snd (sampler_emit co c d v b f st)) \<noteq> EmitNone \<Longrightarrow>
     sr_target (snd (sampler_emit co c d v b f st)) = poseAt co (sr_s_target (snd (sampler_emit co c d v b f st)))
     \<and> sm_feed_floor_mm_min c \<le> sr_feed_mm_min (snd (sampler_emit co c d v b f st))"
  by (auto simp: sampler_emit_def emitTo_def Let_def sample_result_default_def split: if_splits)

lemma sampler_flush_target:
  "sr_emit (snd (sampler_flush co c d st)) \<noteq> EmitNone
     \<and> sr_target (snd (sampler_flush co c d st)) = poseAt co (sr_s_target (snd (sampler_flush co c d st)))
     \<and> sm_feed_floor_mm_min c \<le> sr_feed_mm_min (snd (sampler_flush co c d st))
     \<and> \<not> sr_block_done (snd (sampler_flush co c d st))"
  by (simp add: sampler_flush_def emitTo_def Let_def sample_result_default_def)

lemma sampler_step_target:
  assumes "sr_emit (snd (sampler_step co c st v_cmd dt_s)) \<noteq> EmitNone"
  shows "sr_target (snd (sampler_step co c st v_cmd dt_s))
      = poseAt co (sr_s_target (snd (sampler_step co c st v_cmd dt_s)))
    \<and> sm_feed_floor_mm_min c \<le> sr_feed_mm_min (snd (sampler_step co c st v_cmd dt_s))"
  by (rule sampler_step_cases [of st c v_cmd dt_s co])
    (use assms sampler_flush_target sampler_emit_target in
      \<open>auto simp: sample_result_default_def split: prod.splits\<close>)

text \<open>The block is reported done only at the end of the contour, and the report comes with an emission.\<close>

lemma sampler_move_done:
  assumes "sampler_move co c d ds st = (st', True, f)"
  shows "fsub (totalLen co) (sm_eps_end_mm c) \<le> ss_s st'" "\<not> f"
  using assms by (auto simp: sampler_move_def Let_def split: if_splits)

lemma sampler_step_done:
  assumes "sr_block_done (snd (sampler_step co c st v_cmd dt_s))"
  shows "fsub (totalLen co) (sm_eps_end_mm c) \<le> ss_s (fst (sampler_step co c st v_cmd dt_s))"
    "sr_emit (snd (sampler_step co c st v_cmd dt_s)) \<noteq> EmitNone"
    "0 \<le> sint v_cmd \<longrightarrow> ss_done (fst (sampler_step co c st v_cmd dt_s))"
proof -
  have e: "sr_block_done (snd (sampler_emit co c d v b f s)) \<longleftrightarrow> b" for d v b f s
    by (simp add: sampler_emit_def emitTo_def Let_def)
  have g: "b \<Longrightarrow> sr_emit (snd (sampler_emit co c d v b f s)) \<noteq> EmitNone
      \<and> (0 \<le> sint v \<longrightarrow> ss_done (fst (sampler_emit co c d v b f s)))" for d v b f s
    by (simp add: sampler_emit_def emitTo_def Let_def)
  have "fsub (totalLen co) (sm_eps_end_mm c) \<le> ss_s (fst (sampler_step co c st v_cmd dt_s))
    \<and> sr_emit (snd (sampler_step co c st v_cmd dt_s)) \<noteq> EmitNone
    \<and> (0 \<le> sint v_cmd \<longrightarrow> ss_done (fst (sampler_step co c st v_cmd dt_s)))"
  proof (rule sampler_step_cases [of st c v_cmd dt_s co])
    fix st1 ds d
    assume m: "sampler_step co c st v_cmd dt_s =
        (case sampler_move co c d ds st1 of (st2, b, f) \<Rightarrow> sampler_emit co c d v_cmd b f st2)"
    obtain st2 b f where mv: "sampler_move co c d ds st1 = (st2, b, f)"
      by (cases "sampler_move co c d ds st1")
    have b: "b" using assms e by (simp add: m mv)
    then show ?thesis
      using sampler_move_done [of co c d ds st1 st2 f] mv g by (simp add: m sampler_emit_keeps)
  qed (use assms sampler_flush_target in \<open>auto simp: sample_result_default_def\<close>)
  then show "fsub (totalLen co) (sm_eps_end_mm c) \<le> ss_s (fst (sampler_step co c st v_cmd dt_s))"
    "sr_emit (snd (sampler_step co c st v_cmd dt_s)) \<noteq> EmitNone"
    "0 \<le> sint v_cmd \<longrightarrow> ss_done (fst (sampler_step co c st v_cmd dt_s))" by simp_all
qed

end
