(* ===== verification/CutMotion.thy ===== *)
theory CutMotion
  imports PathSampler ControllerSafety PlanLine
begin

text \<open>
  The bridge from the sampler to the planner (\<^verbatim>\<open>EDM/Motion/EdmMotion.h\<close>, \<^verbatim>\<open>.cpp\<close>). The
  loop of \<^verbatim>\<open>runContour\<close> runs until the world tells it to stop, so it consumes a list of
  observations, one per pass: what the system flags, the controller, the clock, the
  planner and the machine position are at the points where the pass reads them. What the
  loop does to the world is the list of its actions. The result \<open>None\<close> means that the
  observations ran out before the loop returned. The planner, the protocol and the
  kinematics are not modelled: their answers are part of the observations, and
  \<open>invalid_line\<close> is a parameter.
\<close>

definition EDM_MAX_INFLIGHT :: int where "EDM_MAX_INFLIGHT = 3"

datatype exec_alarm = AlarmAbortCycle | AlarmSoftLimit

datatype motion_action =
    ActRequestStop
  | ActSynchronize
  | ActAlarm exec_alarm
  | ActPlan "real list" plan_line

record wait_obs =
  wo_free_blocks :: int
  wo_full :: bool
  wo_abort :: bool
  wo_alarm :: bool

record pass_obs =
  ob_abort :: bool
  ob_alarm :: bool
  ob_reported :: edm_state
  ob_running :: bool
  ob_now :: u32
  ob_v :: i32
  ob_waits :: "wait_obs list"
  ob_mpos :: "real list"
  ob_plan_ok :: bool

subsection \<open>Poses and targets\<close>

definition poseFromMpos :: "real list \<Rightarrow> pose4" where
  "poseFromMpos m = \<lparr>p_x = m ! 0, p_y = m ! 1, p_u = m ! 6, p_v = m ! 7\<rparr>"

definition poseFromTarget :: "real list \<Rightarrow> pose4" where
  "poseFromTarget t = \<lparr>p_x = t ! 0, p_y = t ! 1, p_u = t ! 6, p_v = t ! 7\<rparr>"

definition fanOut :: "pose4 \<Rightarrow> real list \<Rightarrow> real list" where
  "fanOut p mpos = mpos[0 := p_x p, 1 := p_y p, 6 := p_u p, 7 := p_v p]"

subsection \<open>The loop\<close>

datatype wait_result = WaitRoom | WaitStopped | WaitMore

fun wait_room :: "int \<Rightarrow> wait_obs list \<Rightarrow> wait_result" where
  "wait_room planner_blocks [] = WaitMore"
| "wait_room planner_blocks (w # ws) =
     (let in_flight = (planner_blocks - 1) - wo_free_blocks w
      in if \<not> wo_full w \<and> in_flight < EDM_MAX_INFLIGHT then WaitRoom
         else if wo_abort w then WaitStopped
         else if wo_alarm w then WaitStopped
         else wait_room planner_blocks ws)"

definition segment_line :: "plan_line \<Rightarrow> sample_result \<Rightarrow> plan_line" where
  "segment_line pl r = pl\<lparr>pl_feed_rate := sr_feed_mm_min r, pl_rapidMotion := False,
     pl_noFeedOverride := True, pl_inverseTime := False, pl_limits_checked := True\<rparr>"

datatype pass_result = PassReturn bool | PassNext sampler_state u32 | PassPending

text \<open>After the sampler has stepped: submit the segment, then complete on forward arrival.\<close>

definition pass_submit ::
    "int \<Rightarrow> plan_line \<Rightarrow> pass_obs \<Rightarrow> sampler_state \<Rightarrow> sample_result \<Rightarrow> motion_action list \<times> pass_result" where
  "pass_submit planner_blocks pl ob st r =
     (let complete = (if sr_block_done r \<and> 0 \<le> sint (ob_v ob)
                      then ([ActSynchronize], PassReturn True)
                      else ([], PassNext st (ob_now ob)))
      in if sr_emit r \<noteq> EmitNone then
           (case wait_room planner_blocks (ob_waits ob) of
              WaitMore \<Rightarrow> ([], PassPending)
            | WaitStopped \<Rightarrow> ([ActRequestStop], PassReturn False)
            | WaitRoom \<Rightarrow>
                (let t = fanOut (sr_target r) (ob_mpos ob);
                     line = segment_line pl r
                 in if \<not> ob_plan_ok ob
                    then ([ActPlan t line, ActRequestStop, ActAlarm AlarmSoftLimit], PassReturn False)
                    else (ActPlan t line # fst complete, snd complete)))
         else complete)"

definition contour_pass ::
    "contour_buffer \<Rightarrow> sampler_config \<Rightarrow> int \<Rightarrow> plan_line \<Rightarrow> pass_obs \<Rightarrow> sampler_state \<Rightarrow> u32
       \<Rightarrow> motion_action list \<times> pass_result" where
  "contour_pass contour cfg planner_blocks pl ob st prev =
     (if ob_abort ob then ([ActRequestStop], PassReturn False)
      else if ob_alarm ob then ([ActRequestStop], PassReturn False)
      else if ob_reported ob = StStallFault \<or> ob_reported ob = StFault then
        ([ActSynchronize, ActAlarm AlarmAbortCycle], PassReturn False)
      else if ob_reported ob = StIdle then ([ActSynchronize], PassReturn False)
      else if \<not> ob_running ob then ([], PassNext st (ob_now ob))
      else
        let dt = fmul (fint (uint (ob_now ob - prev))) (f32 0.001);
            (st, r) = sampler_step contour cfg st (ob_v ob) dt
        in pass_submit planner_blocks pl ob st r)"

fun contour_loop ::
    "contour_buffer \<Rightarrow> sampler_config \<Rightarrow> int \<Rightarrow> plan_line \<Rightarrow> pass_obs list \<Rightarrow> sampler_state \<Rightarrow> u32
       \<Rightarrow> motion_action list \<times> bool option" where
  "contour_loop contour cfg planner_blocks pl [] st prev = ([], None)"
| "contour_loop contour cfg planner_blocks pl (ob # obs) st prev =
     (case contour_pass contour cfg planner_blocks pl ob st prev of
        (acts, PassReturn b) \<Rightarrow> (acts, Some b)
      | (acts, PassPending) \<Rightarrow> (acts, None)
      | (acts, PassNext st' prev') \<Rightarrow>
          (case contour_loop contour cfg planner_blocks pl obs st' prev' of
             (acts', res) \<Rightarrow> (acts @ acts', res)))"

definition runContour ::
    "contour_buffer \<Rightarrow> int \<Rightarrow> plan_line \<Rightarrow> u32 \<Rightarrow> pass_obs list \<Rightarrow> motion_action list \<times> bool option" where
  "runContour contour planner_blocks pl start_ms obs =
     contour_loop contour sampler_config_default planner_blocks pl obs sampler_state_default start_ms"

subsection \<open>The entry points\<close>

text \<open>Every vertex is validated before the first segment is planned.\<close>

definition vertices_ok :: "(real list \<Rightarrow> bool) \<Rightarrow> real list \<Rightarrow> contour_buffer \<Rightarrow> bool" where
  "vertices_ok invalid_line mpos contour \<longleftrightarrow>
     list_all (\<lambda>v. \<not> invalid_line (fanOut (vx_pose v) mpos)) (cb_v contour)"

definition run_validated ::
    "(real list \<Rightarrow> bool) \<Rightarrow> real list \<Rightarrow> contour_buffer \<Rightarrow> int \<Rightarrow> plan_line \<Rightarrow> u32 \<Rightarrow> pass_obs list
       \<Rightarrow> motion_action list \<times> bool option" where
  "run_validated invalid_line mpos contour planner_blocks pl start_ms obs =
     (if \<not> vertices_ok invalid_line mpos contour
      then ([ActRequestStop, ActAlarm AlarmSoftLimit], Some False)
      else runContour contour planner_blocks pl start_ms obs)"

definition runCut ::
    "bool \<Rightarrow> (real list \<Rightarrow> bool) \<Rightarrow> int \<Rightarrow> real list \<Rightarrow> real list \<Rightarrow> plan_line \<Rightarrow> u32 \<Rightarrow> pass_obs list
       \<Rightarrow> motion_action list \<times> bool option" where
  "runCut edm_active invalid_line planner_blocks mpos target pl start_ms obs =
     (if \<not> edm_active then ([], Some False)
      else
        let contour = contour_reset (poseFromMpos mpos) 0 (contour_new kMaxVertices);
            contour = snd (appendLine (poseFromTarget target) contour)
        in run_validated invalid_line mpos contour planner_blocks pl start_ms obs)"

definition arc_travel :: "bool \<Rightarrow> u32 \<Rightarrow> real \<Rightarrow> real" where
  "arc_travel is_clockwise rotations angular_travel =
     (let eps = f32 0.0000005; pi_f = f32 pi; turns = fmul (fint (uint ((rotations - 1) * 2))) pi_f
      in if is_clockwise then
           let a = (if - eps \<le> angular_travel then fsub angular_travel (fmul 2 pi_f) else angular_travel)
           in if 1 < rotations then fsub a turns else a
         else
           let a = (if angular_travel \<le> eps then fadd angular_travel (fmul 2 pi_f) else angular_travel)
           in if 1 < rotations then fadd a turns else a)"

definition runCutArc ::
    "bool \<Rightarrow> (real list \<Rightarrow> bool) \<Rightarrow> int \<Rightarrow> real \<Rightarrow> real list \<Rightarrow> real list \<Rightarrow> real list \<Rightarrow> real list
       \<Rightarrow> real \<Rightarrow> nat \<Rightarrow> nat \<Rightarrow> bool \<Rightarrow> u32 \<Rightarrow> plan_line \<Rightarrow> u32 \<Rightarrow> pass_obs list
       \<Rightarrow> motion_action list \<times> bool option" where
  "runCutArc edm_active invalid_line planner_blocks arcTolerance mpos target position offset
      radius axis_0 axis_1 is_clockwise rotations pl start_ms obs =
     (if \<not> edm_active then ([], Some False)
      else
        let center_x = fadd (position ! axis_0) (offset ! axis_0);
            center_y = fadd (position ! axis_1) (offset ! axis_1);
            r0 = - (offset ! axis_0); r1 = - (offset ! axis_1);
            t0 = fsub (target ! axis_0) center_x; t1 = fsub (target ! axis_1) center_y;
            angular_travel = fatan2 (fsub (fmul r0 t1) (fmul r1 t0)) (fadd (fmul r0 t0) (fmul r1 t1));
            angular_travel = arc_travel is_clockwise rotations angular_travel;
            contour = contour_reset (poseFromMpos mpos) 0 (contour_new kMaxVertices);
            contour = snd (appendArc (poseFromTarget target) center_x center_y radius angular_travel
                             arcTolerance contour)
        in run_validated invalid_line mpos contour planner_blocks pl start_ms obs)"

lemma contour_loop_next:
  "contour_pass contour cfg b pl ob st prev = (acts, PassNext st' prev') \<Longrightarrow>
     contour_loop contour cfg b pl (ob # obs) st prev =
       (acts @ fst (contour_loop contour cfg b pl obs st' prev'), snd (contour_loop contour cfg b pl obs st' prev'))"
  by (simp only: contour_loop.simps prod.case pass_result.case)
    (simp only: case_prod_unfold)

subsection \<open>What is planned\<close>

text \<open>The segments an action list plans.\<close>

definition planned :: "motion_action list \<Rightarrow> (real list \<times> plan_line) list" where
  "planned acts = List.map_filter (\<lambda>a. case a of ActPlan t l \<Rightarrow> Some (t, l) | _ \<Rightarrow> None) acts"

lemma planned_simps [simp]:
  "planned [] = []" "planned (ActPlan t l # as) = (t, l) # planned as"
  "planned (ActRequestStop # as) = planned as" "planned (ActSynchronize # as) = planned as"
  "planned (ActAlarm a # as) = planned as"
  by (simp_all add: planned_def List.map_filter_simps)

lemma planned_append [simp]: "planned (as @ bs) = planned as @ planned bs"
  by (simp add: planned_def List.map_filter_def)

text \<open>
  A planned target is a point of the contour in X, Y, U and V and the machine position in
  every other axis, at a feed not below the floor.
\<close>

definition on_contour :: "contour_buffer \<Rightarrow> sampler_config \<Rightarrow> pass_obs list \<Rightarrow> real list \<times> plan_line \<Rightarrow> bool" where
  "on_contour contour cfg obs sg \<longleftrightarrow>
     (\<exists>s. \<exists>ob \<in> set obs. fst sg = fanOut (poseAt contour s) (ob_mpos ob))
     \<and> sm_feed_floor_mm_min cfg \<le> pl_feed_rate (snd sg) \<and> pl_limits_checked (snd sg)"

lemma pass_submit_planned:
  "planned (fst (pass_submit b pl ob st r)) = [] \<or>
   planned (fst (pass_submit b pl ob st r)) = [(fanOut (sr_target r) (ob_mpos ob), segment_line pl r)]
     \<and> sr_emit r \<noteq> EmitNone"
  by (auto simp: pass_submit_def Let_def split: wait_result.split)

lemma contour_pass_planned:
  assumes "sg \<in> set (planned (fst (contour_pass contour cfg b pl ob st prev)))"
  shows "on_contour contour cfg [ob] sg"
proof -
  define dt where "dt = fmul (fint (uint (ob_now ob - prev))) (f32 0.001)"
  obtain st' r where s: "sampler_step contour cfg st (ob_v ob) dt = (st', r)" by fastforce
  have "sg \<in> set (planned (fst (pass_submit b pl ob st' r)))"
    using assms s by (auto simp: contour_pass_def dt_def Let_def split: if_splits)
  then have sg: "sg = (fanOut (sr_target r) (ob_mpos ob), segment_line pl r)" "sr_emit r \<noteq> EmitNone"
    using pass_submit_planned [of b pl ob st' r] by auto
  from sg(2) have "sr_target r = poseAt contour (sr_s_target r)" "sm_feed_floor_mm_min cfg \<le> sr_feed_mm_min r"
    using sampler_step_target [of contour cfg st "ob_v ob" dt] by (simp_all add: s)
  then show ?thesis by (auto simp: on_contour_def sg(1) segment_line_def)
qed

lemma on_contour_mono: "on_contour contour cfg obs sg \<Longrightarrow> set obs \<subseteq> set obs' \<Longrightarrow> on_contour contour cfg obs' sg"
  by (auto simp: on_contour_def)

lemma contour_loop_planned:
  "sg \<in> set (planned (fst (contour_loop contour cfg b pl obs st prev))) \<Longrightarrow> on_contour contour cfg obs sg"
proof (induction obs arbitrary: st prev)
  case Nil
  then show ?case by simp
next
  case (Cons ob obs)
  obtain acts res where p: "contour_pass contour cfg b pl ob st prev = (acts, res)" by fastforce
  have here: "on_contour contour cfg (ob # obs) sg" if "sg \<in> set (planned acts)"
    using contour_pass_planned [of sg contour cfg b pl ob st prev] that p
    by (auto intro: on_contour_mono)
  show ?case
  proof (cases res)
    case (PassNext st' prev')
    then have "sg \<in> set (planned acts)
        \<or> sg \<in> set (planned (fst (contour_loop contour cfg b pl obs st' prev')))"
      using Cons.prems p by (simp add: case_prod_unfold)
    then show ?thesis using here Cons.IH [of st' prev'] by (auto intro: on_contour_mono)
  qed (use Cons.prems p here in simp_all)
qed

text \<open>
  Safety: a pass that sees an abort, an alarm, a fault or a stop plans nothing and returns
  false, and a pass during a feed hold neither moves nor accumulates time.
\<close>

lemma contour_pass_stops:
  assumes "ob_abort ob \<or> ob_alarm ob \<or> spark_off_state (ob_reported ob)"
  shows "planned (fst (contour_pass contour cfg b pl ob st prev)) = []
    \<and> snd (contour_pass contour cfg b pl ob st prev) = PassReturn False"
  using assms by (auto simp: contour_pass_def spark_off_state_def)

lemma contour_pass_hold:
  assumes "\<not> ob_abort ob" "\<not> ob_alarm ob" "\<not> spark_off_state (ob_reported ob)" "\<not> ob_running ob"
  shows "contour_pass contour cfg b pl ob st prev = ([], PassNext st (ob_now ob))"
  using assms by (simp add: contour_pass_def spark_off_state_def)

text \<open>A run of holding passes leaves the sampler where it was and restarts the clock at its end.\<close>

lemma contour_loop_hold:
  assumes "\<And>ob. ob \<in> set holds \<Longrightarrow> \<not> ob_abort ob \<and> \<not> ob_alarm ob
      \<and> \<not> spark_off_state (ob_reported ob) \<and> \<not> ob_running ob"
  shows "contour_loop contour cfg b pl (holds @ obs) st prev =
    contour_loop contour cfg b pl obs st (if holds = [] then prev else ob_now (last holds))"
  using assms
proof (induction holds arbitrary: prev)
  case Nil
  then show ?case by simp
next
  case (Cons ob holds)
  have "contour_pass contour cfg b pl ob st prev = ([], PassNext st (ob_now ob))"
    by (rule contour_pass_hold) (simp_all add: Cons.prems)
  then have "contour_loop contour cfg b pl ((ob # holds) @ obs) st prev
      = contour_loop contour cfg b pl (holds @ obs) st (ob_now ob)"
    by (simp only: append_Cons contour_loop_next append_Nil prod.collapse)
  also have "\<dots> = contour_loop contour cfg b pl obs st (if holds = [] then ob_now ob else ob_now (last holds))"
    by (rule Cons.IH, rule Cons.prems, simp)
  also have "(if holds = [] then ob_now ob else ob_now (last holds))
      = (if ob # holds = [] then prev else ob_now (last (ob # holds)))" by simp
  finally show ?case .
qed

text \<open>
  Completion: when the loop returns true, its last two actions are the plan of the final
  segment and the synchronisation, and the sampler stood within \<open>eps_end\<close> of the contour's
  end; the final segment is never dropped.
\<close>

definition completed_by ::
    "contour_buffer \<Rightarrow> sampler_config \<Rightarrow> plan_line \<Rightarrow> pass_obs list \<Rightarrow> motion_action list \<Rightarrow> bool" where
  "completed_by contour cfg pl obs acts \<longleftrightarrow>
     (\<exists>pre st dt. \<exists>ob \<in> set obs.
        acts = pre @ [ActPlan (fanOut (sr_target (snd (sampler_step contour cfg st (ob_v ob) dt))) (ob_mpos ob))
                        (segment_line pl (snd (sampler_step contour cfg st (ob_v ob) dt))), ActSynchronize]
        \<and> ss_done (fst (sampler_step contour cfg st (ob_v ob) dt))
        \<and> fsub (totalLen contour) (sm_eps_end_mm cfg) \<le> ss_s (fst (sampler_step contour cfg st (ob_v ob) dt)))"

lemma pass_submit_true:
  assumes "pass_submit b pl ob st r = (acts, PassReturn True)" "sr_block_done r \<Longrightarrow> sr_emit r \<noteq> EmitNone"
  shows "acts = [ActPlan (fanOut (sr_target r) (ob_mpos ob)) (segment_line pl r), ActSynchronize]"
    "sr_block_done r" "0 \<le> sint (ob_v ob)"
  using assms by (auto simp: pass_submit_def Let_def split: if_splits wait_result.splits)

lemma contour_pass_running:
  "contour_pass contour cfg b pl ob st prev = (acts, PassReturn True) \<Longrightarrow>
     pass_submit b pl ob (fst (sampler_step contour cfg st (ob_v ob) (fmul (fint (uint (ob_now ob - prev))) (f32 0.001))))
       (snd (sampler_step contour cfg st (ob_v ob) (fmul (fint (uint (ob_now ob - prev))) (f32 0.001))))
     = (acts, PassReturn True)"
proof -
  assume a: "contour_pass contour cfg b pl ob st prev = (acts, PassReturn True)"
  have run: "\<not> ob_abort ob" "\<not> ob_alarm ob" "ob_reported ob \<noteq> StStallFault" "ob_reported ob \<noteq> StFault"
    "ob_reported ob \<noteq> StIdle" "ob_running ob"
    using a unfolding contour_pass_def by (metis pass_result.distinct(1) pass_result.inject(1) prod.inject)+
  then show ?thesis using a by (simp only: contour_pass_def if_False if_True Let_def case_prod_unfold simp_thms)
qed

lemma contour_pass_true:
  assumes "contour_pass contour cfg b pl ob st prev = (acts, PassReturn True)"
  shows "completed_by contour cfg pl [ob] acts"
proof -
  define dt where "dt = fmul (fint (uint (ob_now ob - prev))) (f32 0.001)"
  define st' where "st' = fst (sampler_step contour cfg st (ob_v ob) dt)"
  define r where "r = snd (sampler_step contour cfg st (ob_v ob) dt)"
  have sub: "pass_submit b pl ob st' r = (acts, PassReturn True)"
    unfolding st'_def r_def dt_def by (rule contour_pass_running [OF assms])
  have "sr_block_done r \<Longrightarrow> sr_emit r \<noteq> EmitNone"
    unfolding r_def by (rule sampler_step_done(2))
  note t = pass_submit_true [OF sub this]
  have "ss_done st'" "fsub (totalLen contour) (sm_eps_end_mm cfg) \<le> ss_s st'"
    using sampler_step_done [of contour cfg st "ob_v ob" dt] t(2,3) by (simp_all add: r_def st'_def)
  then show ?thesis
    unfolding completed_by_def using t(1)
    by (intro exI [of _ "[]"] exI [of _ st] exI [of _ dt]) (simp add: r_def st'_def)
qed

lemma completed_by_more:
  "completed_by contour cfg pl obs acts \<Longrightarrow> set obs \<subseteq> set obs' \<Longrightarrow> completed_by contour cfg pl obs' (pre @ acts)"
proof -
  assume c: "completed_by contour cfg pl obs acts" and sub: "set obs \<subseteq> set obs'"
  then obtain pre' st dt ob where "ob \<in> set obs"
    "acts = pre' @ [ActPlan (fanOut (sr_target (snd (sampler_step contour cfg st (ob_v ob) dt))) (ob_mpos ob))
        (segment_line pl (snd (sampler_step contour cfg st (ob_v ob) dt))), ActSynchronize]"
    "ss_done (fst (sampler_step contour cfg st (ob_v ob) dt))"
    "fsub (totalLen contour) (sm_eps_end_mm cfg) \<le> ss_s (fst (sampler_step contour cfg st (ob_v ob) dt))"
    unfolding completed_by_def by blast
  then show ?thesis
    unfolding completed_by_def using sub
    by (intro exI [of _ "pre @ pre'"] exI [of _ st] exI [of _ dt] bexI [of _ ob]) auto
qed

lemma contour_loop_true:
  "contour_loop contour cfg b pl obs st prev = (acts, Some True) \<Longrightarrow> completed_by contour cfg pl obs acts"
proof (induction obs arbitrary: st prev acts)
  case Nil
  then show ?case by simp
next
  case (Cons ob obs)
  obtain a res where p: "contour_pass contour cfg b pl ob st prev = (a, res)" by fastforce
  show ?case
  proof (cases res)
    case (PassReturn v)
    then have "acts = a" "v" using Cons.prems p by auto
    then have "completed_by contour cfg pl [ob] acts"
      using contour_pass_true [of contour cfg b pl ob st prev a] p PassReturn by simp
    then show ?thesis using completed_by_more [of contour cfg pl "[ob]" acts "ob # obs" "[]"] by simp
  next
    case (PassNext st' prev')
    obtain a' where rest: "contour_loop contour cfg b pl obs st' prev' = (a', Some True)" "acts = a @ a'"
      using Cons.prems p PassNext by (auto split: prod.splits)
    then have "completed_by contour cfg pl obs a'" using Cons.IH by blast
    then show ?thesis using completed_by_more [of contour cfg pl obs a' "ob # obs" a] rest(2) by auto
  next
    case PassPending
    then show ?thesis using Cons.prems p by simp
  qed
qed

text \<open>Nothing is planned unless every vertex of the contour passed the kinematics' limits.\<close>

lemma run_validated_limits:
  assumes "planned (fst (run_validated invalid_line mpos contour b pl start obs)) \<noteq> []"
  shows "vertices_ok invalid_line mpos contour"
  using assms by (auto simp: run_validated_def split: if_splits)

text \<open>A straight cut to a target outside the limits is refused before anything is planned.\<close>

lemma runCut_refused:
  assumes "invalid_line (fanOut (poseFromTarget target) mpos)"
    and "kMinSegLen \<le> xyChord (poseFromMpos mpos) (poseFromTarget target)"
  shows "runCut True invalid_line b mpos target pl start obs
    = ([ActRequestStop, ActAlarm AlarmSoftLimit], Some False)"
proof -
  have "\<not> vertices_ok invalid_line mpos
      (snd (appendLine (poseFromTarget target) (contour_reset (poseFromMpos mpos) 0 (contour_new kMaxVertices))))"
    using assms by (simp add: vertices_ok_def appendLine_def pushVertex_def contour_reset_def
        contour_new_def kMaxVertices_def Let_def not_less)
  then show ?thesis by (simp add: runCut_def run_validated_def)
qed

lemma runCut_inactive: "runCut False invalid_line b mpos target pl start obs = ([], Some False)"
  by (simp add: runCut_def)

text \<open>Both entry points hand the loop a well-formed contour that starts at the machine position.\<close>

lemma contour_start_wf:
  "wf_contour (contour_reset p 0 (contour_new kMaxVertices))"
  "cb_v (contour_reset p 0 (contour_new kMaxVertices)) \<noteq> []"
  by (simp_all add: wf_contour_def contour_reset_def contour_new_def kMaxVertices_def)

end
