(* ===== verification/PathResolution.thy ===== *)
theory PathResolution
  imports PathSampler
begin

text \<open>
  The resolution of the arc length. The sampler adds the movement of one pass to a float
  that counts millimetres from the start of the contour, so a pass that moves less than
  half a unit in the last place of the position does not move at all: between 128 and 256
  millimetres that is 2^-17 mm, more than a pass of one millisecond at 7 um/s.
\<close>

lemma drop_bits_eq: "2 ^ (23 + k) \<le> x \<Longrightarrow> x < 2 ^ (24 + k) \<Longrightarrow> drop_bits x = k"
proof -
  assume lo: "2 ^ (23 + k) \<le> x" and hi: "x < 2 ^ (24 + k)"
  have f: "2 ^ (23 + k) \<le> \<lfloor>x\<rfloor>" "\<lfloor>x\<rfloor> < 2 ^ (24 + k)"
    using lo hi by (simp_all add: le_floor_iff floor_less_iff)
  define n where "n = nat \<lfloor>x\<rfloor>"
  have "floorlog 2 n = 24 + k"
  proof (rule antisym)
    show "floorlog 2 n \<le> 24 + k"
      using f by (intro floorlog_leI) (simp_all add: n_def nat_less_iff)
    show "24 + k \<le> floorlog 2 n"
      using f by (intro floorlog_geI) (simp_all add: n_def le_nat_iff)
  qed
  then show ?thesis by (simp add: drop_bits_def n_def)
qed

lemma rhe_add_small: "0 \<le> d \<Longrightarrow> d < 1 / 2 \<Longrightarrow> rhe (of_int n + d) = n"
proof -
  assume d: "0 \<le> d" "d < 1 / 2"
  then have "\<lfloor>of_int n + d\<rfloor> = n" by linarith
  then show ?thesis using d by (simp add: rhe_def Let_def)
qed

text \<open>Adding less than half a unit in the last place to a position changes nothing.\<close>

lemma fadd_absorbs:
  assumes "is_f32 s" "128 \<le> s" "s < 256" "0 \<le> d" "d < 1 / 2 ^ 17"
  shows "fadd s d = s"
proof -
  define x where "x = s * 2 ^ 149"
  have x: "2 ^ (23 + 133) \<le> x" "x < 2 ^ (24 + 133)"
    using assms(2,3) by (simp_all add: x_def)
  have dx: "drop_bits x = 133" using x by (rule drop_bits_eq)
  define n where "n = rhe (x / 2 ^ 133)"
  have "rnd24 x = x"
    using assms(1,2) by (simp add: is_f32_def f32_nonneg_eq x_def field_simps)
  then have n: "x = of_int n * 2 ^ 133" by (simp add: rnd24_def dx n_def)
  have "of_int n * 2 ^ 133 < (2 ^ 24 * 2 ^ 133 :: real)" using x(2) unfolding n by simp
  then have "n < 2 ^ 24" by (simp only: mult_less_cancel_right) simp
  then have "real_of_int (n + 1) \<le> real_of_int (2 ^ 24)" by (simp only: of_int_le_iff)
  then have n24: "real_of_int n + 1 \<le> 2 ^ 24" by simp
  define y where "y = (s + d) * 2 ^ 149"
  have y: "y = x + d * 2 ^ 149" by (simp add: y_def x_def algebra_simps)
  have d149: "0 \<le> d * 2 ^ 149" "d * 2 ^ 149 < 2 ^ 132"
    using assms(4,5) by (simp_all add: field_simps)
  have "x \<le> (2 ^ 24 - 1) * 2 ^ 133" unfolding n using n24 by (intro mult_right_mono) simp_all
  then have "y < 2 ^ (24 + 133)" using d149(2) unfolding y by simp
  moreover have "2 ^ (23 + 133) \<le> y" using x(1) d149(1) unfolding y by simp
  ultimately have dy: "drop_bits y = 133" by (intro drop_bits_eq)
  have "y / 2 ^ 133 = of_int n + d * 2 ^ 16" unfolding y n by (simp add: field_simps)
  moreover have "rhe (of_int n + d * 2 ^ 16) = n"
    by (rule rhe_add_small) (use assms(4,5) in \<open>simp_all add: field_simps\<close>)
  ultimately have "rhe (y / 2 ^ 133) = n" by (simp only:)
  then have "rnd24 y = x" by (simp only: rnd24_def dy n [symmetric])
  moreover have "f32 (s + d) = rnd24 y / 2 ^ 149"
    using assms(2,4) unfolding y_def by (intro f32_nonneg_eq) simp
  ultimately show ?thesis by (simp add: fadd_def x_def)
qed

subsection \<open>Slow passes do not move\<close>

text \<open>A commanded velocity of at most 7 um/s, and a pass of at most a millisecond.\<close>

definition slow_speed :: real where
  "slow_speed = 231 / 32768"

definition slow_pass :: "i32 \<times> real \<Rightarrow> bool" where
  "slow_pass p \<longleftrightarrow> 0 \<le> sint (fst p) \<and> sint (fst p) \<le> 7 \<and> snd p \<le> f32 0.001"

lemma f32_milli: "0 \<le> f32 0.001" "f32 0.001 \<le> 33 / 32768" "f32 0.0005 \<le> 33 / 32768"
  by (rule f32_nonneg f32_le_bound; simp add: is_f32_def float_simps)+

lemma slow_product:
  assumes "0 \<le> n" "n \<le> 7"
  shows "0 \<le> fmul (fint n) (f32 0.001)" "fmul (fint n) (f32 0.001) \<le> slow_speed"
proof -
  have n: "fint n = of_int n" using assms by (simp add: fint_exact)
  have "of_int n * f32 0.001 \<le> 7 * (33 / 32768)"
    by (rule mult_mono) (use assms f32_milli in simp_all)
  then show "fmul (fint n) (f32 0.001) \<le> slow_speed"
    unfolding fmul_def slow_speed_def n by (intro f32_le_bound) (simp_all add: is_f32_def float_simps)
  show "0 \<le> fmul (fint n) (f32 0.001)"
    unfolding fmul_def n using assms f32_milli by (intro f32_nonneg) simp
qed

lemma slow_v_target:
  assumes "0 \<le> sint v" "sint v \<le> 7"
  shows "0 \<le> sampler_v_target sampler_config_default v"
    "sampler_v_target sampler_config_default v \<le> slow_speed"
proof -
  have "0 \<le> fmul (fint (sint v)) (f32 0.001)" "fmul (fint (sint v)) (f32 0.001) \<le> slow_speed"
    using assms by (rule slow_product)+
  moreover have "0 \<le> f32 0.1" "0 \<le> slow_speed" by (simp_all add: f32_nonneg slow_speed_def)
  ultimately show "0 \<le> sampler_v_target sampler_config_default v"
    "sampler_v_target sampler_config_default v \<le> slow_speed"
    by (auto simp: sampler_v_target_def Let_def clampf_def sampler_config_default_def)
qed

lemma slow_dt:
  assumes "dt \<le> f32 0.001"
  shows "0 \<le> clampf dt (sm_dt_min_s sampler_config_default) (sm_dt_max_s sampler_config_default)"
    "clampf dt (sm_dt_min_s sampler_config_default) (sm_dt_max_s sampler_config_default) \<le> 33 / 32768"
proof -
  have "0 \<le> f32 0.0005" "0 \<le> f32 0.02" by (simp_all add: f32_nonneg)
  then show "0 \<le> clampf dt (sm_dt_min_s sampler_config_default) (sm_dt_max_s sampler_config_default)"
    by (simp add: clampf_def sampler_config_default_def)
  have "f32 0.001 \<le> f32 0.02" by (rule f32_mono) simp
  then show "clampf dt (sm_dt_min_s sampler_config_default) (sm_dt_max_s sampler_config_default) \<le> 33 / 32768"
    using assms f32_milli by (auto simp: clampf_def sampler_config_default_def)
qed

text \<open>One slow pass keeps the position, and its own velocity slow.\<close>

definition stalled :: "contour_buffer \<Rightarrow> sampler_state \<Rightarrow> bool" where
  "stalled co st \<longleftrightarrow> is_f32 (ss_s st) \<and> 128 \<le> ss_s st \<and> ss_s st < 256
     \<and> ss_s st \<le> ss_s_max st \<and> ss_s st \<le> totalLen co
     \<and> 0 \<le> ss_v_mm_s st \<and> ss_v_mm_s st \<le> slow_speed"

lemma slow_ramp:
  assumes "0 \<le> v" "v \<le> slow_speed" "0 \<le> sint v_cmd" "sint v_cmd \<le> 7" "0 \<le> dt"
  shows "0 \<le> sampler_ramp sampler_config_default v v_cmd dt"
    "sampler_ramp sampler_config_default v v_cmd dt \<le> slow_speed"
proof -
  define dv where "dv = fmul 200 dt"
  have dv: "0 \<le> dv" using assms(5) by (simp add: dv_def fmul_def f32_nonneg)
  have "is_f32 slow_speed" by (simp add: slow_speed_def is_f32_def float_simps)
  then have "fsub v dv \<le> slow_speed"
    unfolding fsub_def using assms(2) dv by (intro f32_le_bound) simp_all
  moreover have "0 \<le> fadd v dv" unfolding fadd_def using assms(1) dv by (intro f32_nonneg) simp
  ultimately show "0 \<le> sampler_ramp sampler_config_default v v_cmd dt"
    "sampler_ramp sampler_config_default v v_cmd dt \<le> slow_speed"
    using slow_v_target [OF assms(3,4)]
    by (auto simp: sampler_ramp_def Let_def clampf_def sampler_config_default_def dv_def)
qed

lemma slow_step:
  assumes "stalled co st" "0 \<le> sint v_cmd" "sint v_cmd \<le> 7" "dt_s \<le> f32 0.001"
  shows "ss_s (fst (sampler_step co sampler_config_default st v_cmd dt_s)) = ss_s st"
    "stalled co (fst (sampler_step co sampler_config_default st v_cmd dt_s))"
proof -
  define dt where "dt = clampf dt_s (sm_dt_min_s sampler_config_default) (sm_dt_max_s sampler_config_default)"
  have dt: "0 \<le> dt" "dt \<le> 33 / 32768" using slow_dt [OF assms(4)] by (simp_all add: dt_def)
  define v where "v = sampler_ramp sampler_config_default (ss_v_mm_s st) v_cmd dt"
  have v: "0 \<le> v" "v \<le> slow_speed"
    using slow_ramp [OF _ _ assms(2,3) dt(1)] assms(1) by (simp_all add: v_def stalled_def)
  define st1 where "st1 = st\<lparr>ss_v_mm_s := v\<rparr>"
  define ds where "ds = fmul v dt"
  have "v * dt \<le> slow_speed * (33 / 32768)"
    by (rule mult_mono) (use v dt in \<open>simp_all add: slow_speed_def\<close>)
  then have "ds \<le> 7623 / 1073741824"
    unfolding ds_def fmul_def slow_speed_def
    by (intro f32_le_bound) (simp_all add: is_f32_def float_simps)
  moreover have ds0: "0 \<le> ds" using v dt by (simp add: ds_def fmul_def f32_nonneg)
  ultimately have w: "fadd (ss_s st) ds = ss_s st"
    using assms(1) by (intro fadd_absorbs) (simp_all add: stalled_def)
  have mv: "ss_s (fst (sampler_move co sampler_config_default (direction ds) ds st1)) = ss_s st
      \<and> ss_s_max (fst (sampler_move co sampler_config_default (direction ds) ds st1)) = ss_s_max st"
    if "direction ds \<noteq> 0"
    using that ds0 assms(1) w
    by (auto simp: sampler_move_def direction_def Let_def st1_def stalled_def split: if_splits)
  have eq: "sampler_step co sampler_config_default st v_cmd dt_s =
      (if flush_due sampler_config_default (direction ds) st1
       then sampler_flush co sampler_config_default (direction ds) st1
       else if direction ds = 0 then (st1\<lparr>ss_dir := 0\<rparr>, sample_result_default)
       else (case sampler_move co sampler_config_default (direction ds) ds st1 of (st2, b, f) \<Rightarrow>
               sampler_emit co sampler_config_default (direction ds) v_cmd b f st2))"
    by (simp add: sampler_step_def Let_def dt_def st1_def ds_def v_def)
  have f: "ss_s (fst (sampler_step co sampler_config_default st v_cmd dt_s)) = ss_s st
      \<and> ss_s_max (fst (sampler_step co sampler_config_default st v_cmd dt_s)) = ss_s_max st
      \<and> ss_v_mm_s (fst (sampler_step co sampler_config_default st v_cmd dt_s)) = v"
    using mv sampler_move_v [of co sampler_config_default "direction ds" ds st1]
    by (auto simp: eq sampler_flush_keeps sampler_emit_keeps st1_def split: prod.splits)
  then show "ss_s (fst (sampler_step co sampler_config_default st v_cmd dt_s)) = ss_s st" by simp
  show "stalled co (fst (sampler_step co sampler_config_default st v_cmd dt_s))"
    using f v assms(1) by (simp add: stalled_def)
qed

lemma slow_run:
  "stalled co st \<Longrightarrow> list_all slow_pass steps \<Longrightarrow>
     ss_s (sampler_run co sampler_config_default st steps) = ss_s st"
proof (induction steps arbitrary: st)
  case (Cons p steps)
  obtain v dt where p: "p = (v, dt)" by (cases p)
  have s: "0 \<le> sint v" "sint v \<le> 7" "dt \<le> f32 0.001" using Cons.prems(2) by (simp_all add: p slow_pass_def)
  note one = slow_step [OF Cons.prems(1) s]
  show ?case using Cons.IH [OF one(2)] Cons.prems(2) one(1) by (simp add: p)
qed simp

end
