(* ===== verification/MotionDemo.thy ===== *)
theory MotionDemo
  imports CutMotion PathResolution
begin

text \<open>
  Concrete contours, sampler states and passes for the properties of the motion stage: a
  straight cut of ten millimetres, and a long one for the resolution of the arc length.
\<close>

definition demo_line :: "real \<Rightarrow> contour_buffer" where
  "demo_line len = \<lparr>cb_v = [\<lparr>vx_pose = pose4_zero, vx_s = 0\<rparr>,
     \<lparr>vx_pose = pose4_zero\<lparr>p_x := len\<rparr>, vx_s = len\<rparr>], cb_cap = 256\<rparr>"

lemma demo_line_wf: "0 \<le> len \<Longrightarrow> is_f32 len \<Longrightarrow> wf_contour (demo_line len)"
  by (simp add: wf_contour_def demo_line_def)

lemma demo_line_span [simp]:
  "totalLen (demo_line len) = len" "startS (demo_line len) = 0" "cb_v (demo_line len) \<noteq> []"
  by (simp_all add: totalLen_def startS_def demo_line_def)

lemma demo_sampler:
  assumes "0 \<le> len" "is_f32 len"
  shows "wf_sampler (demo_line len) sampler_config_default"
proof -
  have "f32 0.0005 \<le> f32 0.02" by (rule f32_mono) simp
  then show ?thesis
    using demo_line_wf [OF assms]
    by (simp add: wf_sampler_def sampler_config_default_def f32_nonneg)
qed

lemma demo_start_inv:
  assumes "0 \<le> len"
  shows "sampler_inv (demo_line len) sampler_config_default sampler_state_default"
  using assms
  by (simp add: sampler_inv_def sampler_state_default_def retractFloor_def Let_def
      sampler_config_default_def fsub_def float_simps)

text \<open>A configuration of whole numbers, so that a pass evaluates by simplification.\<close>

definition demo_config :: sampler_config where
  "demo_config = \<lparr>sm_dt_min_s = 1, sm_dt_max_s = 1, sm_seg_min_mm = 1, sm_seg_max_mm = 1,
     sm_a_max_mm_s2 = 1, sm_v_max_mm_s = 1, sm_v_floor_um_s = 5, sm_retract_max_mm = 3,
     sm_eps_end_mm = 1, sm_feed_floor_mm_min = 1 / 2\<rparr>"

definition demo_near_end :: sampler_state where
  "demo_near_end = \<lparr>ss_s = 9, ss_s_max = 9, ss_s_emit = 9, ss_v_mm_s = 0, ss_dir = 1, ss_done = False\<rparr>"

definition demo_pass :: pass_obs where
  "demo_pass = \<lparr>ob_abort = False, ob_alarm = False, ob_reported = StCutting, ob_running = True,
     ob_now = 0, ob_v = 2000000, ob_waits = [\<lparr>wo_free_blocks = 15, wo_full = False, wo_abort = False,
       wo_alarm = False\<rparr>], ob_mpos = replicate 9 0, ob_plan_ok = True\<rparr>"

definition demo_plan :: plan_line where
  "demo_plan = \<lparr>pl_feed_rate = 1, pl_spindle_speed = 300, pl_rapidMotion = False,
     pl_systemMotion = False, pl_noFeedOverride = False, pl_inverseTime = False, pl_spindle = 0,
     pl_coolant = (False, False), pl_line_number = 1, pl_is_jog = False, pl_limits_checked = False\<rparr>"

lemma demo_v_target: "sampler_v_target demo_config 2000000 = 1"
proof -
  have "1 / 2048 \<le> f32 0.001"
    by (rule f32_ge_bound) (simp_all add: is_f32_def float_simps)
  then have "(2000000 :: real) * (1 / 2048) \<le> 2000000 * f32 0.001" by (intro mult_left_mono) simp_all
  then have "1 \<le> fmul 2000000 (f32 0.001)"
    unfolding fmul_def by (intro f32_ge_bound) (simp_all add: is_f32_def float_simps)
  moreover have "fint (sint (2000000 :: i32)) = 2000000" by (simp add: fint_exact)
  moreover have "\<not> \<bar>sint (2000000 :: i32)\<bar> < 5" by simp
  ultimately show ?thesis
    by (simp only: sampler_v_target_def demo_config_def sampler_config.simps Let_def if_False clampf_def)
      auto
qed

definition demo_end_result :: sample_result where
  "demo_end_result = \<lparr>sr_emit = EmitAdvance, sr_target = poseAt (demo_line 10) 10, sr_s_target = 10,
     sr_seg_len_mm = 1, sr_feed_mm_min = 60, sr_block_done = True, sr_at_retract_floor = False\<rparr>"

lemma demo_step:
  "sampler_step (demo_line 10) demo_config demo_near_end 2000000 dt =
    (\<lparr>ss_s = 10, ss_s_max = 10, ss_s_emit = 10, ss_v_mm_s = 1, ss_dir = 1, ss_done = True\<rparr>,
     demo_end_result)"
proof -
  have dt: "clampf dt (sm_dt_min_s demo_config) (sm_dt_max_s demo_config) = 1"
    by (simp add: demo_config_def clampf_def)
  have v: "sampler_ramp demo_config 0 2000000 1 = 1"
    by (simp add: sampler_ramp_def demo_v_target Let_def clampf_def)
      (simp add: demo_config_def fadd_def fsub_def fmul_def float_simps)
  show ?thesis
    by (simp add: sampler_step_def dt v demo_near_end_def Let_def)
      (simp add: direction_def flush_due_def sampler_move_def sampler_emit_def emitTo_def Let_def
        demo_config_def fadd_def fsub_def fmul_def float_simps sample_result_default_def demo_end_result_def)
qed

lemma demo_run:
  "contour_loop (demo_line 10) demo_config 16 demo_plan [demo_pass] demo_near_end prev =
    ([ActPlan (fanOut (poseAt (demo_line 10) 10) (replicate 9 0)) (segment_line demo_plan demo_end_result),
      ActSynchronize], Some True)"
  by (simp add: contour_pass_def demo_pass_def Let_def demo_step pass_submit_def EDM_MAX_INFLIGHT_def
      demo_end_result_def)

text \<open>A long cut, a sampler far along it, and passes at the slowest velocity.\<close>

definition demo_far :: sampler_state where
  "demo_far = \<lparr>ss_s = 200, ss_s_max = 200, ss_s_emit = 200, ss_v_mm_s = 0, ss_dir = 1, ss_done = False\<rparr>"

lemma demo_far_stalled: "stalled (demo_line 250) demo_far"
  by (simp add: stalled_def demo_far_def slow_speed_def is_f32_def float_simps)

end
