(* ===== verification/Cartesian.thy ===== *)
theory Cartesian
  imports PlanLine Prelude
begin

unbundle bit_operations_syntax

text \<open>
  Soft limits and the Cartesian kinematics (\<^verbatim>\<open>Limit.cpp\<close>, \<^verbatim>\<open>Kinematics/Cartesian.cpp\<close>): the check of
  lines and arcs before they are planned, and the constraint of jogs. A refused motion is the axis
  and the coordinate that \<open>limit_error\<close> reports.
\<close>

subsection \<open>What is read of the axes\<close>

record kin_env =
  kn_n_axis :: nat
  kn_soft_limits :: "bool list"
  kn_homing :: "(real \<times> bool) option list"
  kn_max_travel :: "real list"
  kn_pulloff :: "real list"
  kn_mpos :: "real list"
  kn_pos_limit_mask :: u32
  kn_neg_limit_mask :: u32

text \<open>
  The homing position of an axis and whether it is homed in the positive direction: the travel
  lies on the other side of that position.
\<close>

definition limitsMaxPosition :: "kin_env \<Rightarrow> nat \<Rightarrow> real" where
  "limitsMaxPosition env axis =
     (let mpos = (case kn_homing env ! axis of Some (mpos, _) \<Rightarrow> mpos | None \<Rightarrow> 0)
      in if (case kn_homing env ! axis of None \<Rightarrow> True | Some (_, positiveDirection) \<Rightarrow> positiveDirection)
         then mpos else fadd mpos (kn_max_travel env ! axis))"

definition limitsMinPosition :: "kin_env \<Rightarrow> nat \<Rightarrow> real" where
  "limitsMinPosition env axis =
     (let mpos = (case kn_homing env ! axis of Some (mpos, _) \<Rightarrow> mpos | None \<Rightarrow> 0)
      in if (case kn_homing env ! axis of None \<Rightarrow> True | Some (_, positiveDirection) \<Rightarrow> positiveDirection)
         then fsub mpos (kn_max_travel env ! axis) else mpos)"

definition limits_get_state :: "kin_env \<Rightarrow> u32" where
  "limits_get_state env = kn_pos_limit_mask env OR kn_neg_limit_mask env"

definition motor_bit :: "nat \<Rightarrow> nat \<Rightarrow> nat" where
  "motor_bit axis motor = (if motor \<noteq> 0 then axis + 16 else axis)"

definition axes_to_motors :: "u32 \<Rightarrow> u32" where
  "axes_to_motors axes = axes OR push_bit 16 axes"

subsection \<open>Lines\<close>

fun first_invalid :: "kin_env \<Rightarrow> real list \<Rightarrow> nat list \<Rightarrow> (nat \<times> real) option" where
  "first_invalid env cartesian [] = None"
| "first_invalid env cartesian (axis # axes) =
     (if kn_soft_limits env ! axis \<and>
         (cartesian ! axis < limitsMinPosition env axis \<or> limitsMaxPosition env axis < cartesian ! axis)
      then Some (axis, cartesian ! axis) else first_invalid env cartesian axes)"

definition invalid_line :: "kin_env \<Rightarrow> real list \<Rightarrow> (nat \<times> real) option" where
  "invalid_line env cartesian = first_invalid env cartesian [0..<kn_n_axis env]"

subsection \<open>Arcs\<close>

text \<open>
  Where an arc crosses the axes through its centre: in the positive and in the negative half plane
  of the first and of the second axis.
\<close>

record crossings =
  cr_p0 :: bool
  cr_p1 :: bool
  cr_m0 :: bool
  cr_m1 :: bool

definition no_crossing :: crossings where
  "no_crossing = \<lparr>cr_p0 = False, cr_p1 = False, cr_m0 = False, cr_m1 = False\<rparr>"

definition all_crossings :: crossings where
  "all_crossings = \<lparr>cr_p0 = True, cr_p1 = True, cr_m0 = True, cr_m1 = True\<rparr>"

text \<open>The decision tree; the end is counterclockwise of the start.\<close>

definition arc_crossings :: "real \<Rightarrow> real \<Rightarrow> real \<Rightarrow> real \<Rightarrow> crossings" where
  "arc_crossings s0 s1 e0 e1 =
     (if 0 \<le> e1 then
        if 0 < e0 then
          if 0 \<le> s1 then
            if 0 < s0 then (if s0 \<le> e0 then all_crossings else no_crossing)
            else no_crossing\<lparr>cr_m0 := True, cr_m1 := True, cr_p0 := True\<rparr>
          else
            if 0 < s0 then no_crossing\<lparr>cr_p0 := True\<rparr>
            else no_crossing\<lparr>cr_m1 := True, cr_p0 := True\<rparr>
        else
          if 0 \<le> s1 then
            if 0 < s0 then no_crossing\<lparr>cr_p1 := True\<rparr>
            else (if s0 \<le> e0 then all_crossings else no_crossing)
          else
            if 0 < s0 then no_crossing\<lparr>cr_p0 := True, cr_p1 := True\<rparr>
            else no_crossing\<lparr>cr_m1 := True, cr_p0 := True, cr_p1 := True\<rparr>
      else
        if 0 < e0 then
          if 0 \<le> s1 then
            if 0 < s0 then no_crossing\<lparr>cr_p1 := True, cr_m0 := True, cr_m1 := True\<rparr>
            else no_crossing\<lparr>cr_m0 := True, cr_m1 := True\<rparr>
          else
            if 0 < s0 then (if e0 \<le> s0 then all_crossings else no_crossing)
            else no_crossing\<lparr>cr_m1 := True\<rparr>
        else
          if 0 \<le> s1 then
            if 0 < s0 then no_crossing\<lparr>cr_p1 := True, cr_m0 := True\<rparr>
            else no_crossing\<lparr>cr_m0 := True\<rparr>
          else
            if 0 < s0 then no_crossing\<lparr>cr_p0 := True, cr_p1 := True, cr_m0 := True\<rparr>
            else (if e0 \<le> s0 then all_crossings else no_crossing))"

text \<open>An arc, as \<open>mc_arc\<close> hands it over: the axes of its plane and the one orthogonal to it.\<close>

record arc =
  arc_target :: "real list"
  arc_position :: "real list"
  arc_center :: "real \<times> real"
  arc_radius :: real
  arc_axes :: "nat \<times> nat \<times> nat"
  arc_clockwise :: bool
  arc_rotations :: u32

definition arc_crosses :: "arc \<Rightarrow> crossings" where
  "arc_crosses a =
     (let (c0, c1) = arc_center a; (x, y, _) = arc_axes a; target = arc_target a; position = arc_position a
      in if 1 < arc_rotations a then all_crossings
         else if arc_clockwise a
         then arc_crossings (fsub (target ! x) c0) (fsub (target ! y) c1) (fsub (position ! x) c0) (fsub (position ! y) c1)
         else arc_crossings (fsub (position ! x) c0) (fsub (position ! y) c1) (fsub (target ! x) c0) (fsub (target ! y) c1))"

definition check_extent :: "kin_env \<Rightarrow> nat \<Rightarrow> real \<Rightarrow> real \<Rightarrow> (nat \<times> real) option" where
  "check_extent env axis amin amax =
     (if amin < limitsMinPosition env axis then Some (axis, amin)
      else if limitsMaxPosition env axis < amax then Some (axis, amax) else None)"

definition arc_axis_invalid :: "kin_env \<Rightarrow> arc \<Rightarrow> nat \<Rightarrow> real \<Rightarrow> bool \<Rightarrow> bool \<Rightarrow> (nat \<times> real) option" where
  "arc_axis_invalid env a axis center m p =
     (if kn_soft_limits env ! axis then
        check_extent env axis
          (if m then fsub center (arc_radius a) else min (arc_target a ! axis) (arc_position a ! axis))
          (if p then fadd center (arc_radius a) else max (arc_target a ! axis) (arc_position a ! axis))
      else None)"

definition invalid_arc :: "kin_env \<Rightarrow> arc \<Rightarrow> (nat \<times> real) option" where
  "invalid_arc env a =
     (let (c0, c1) = arc_center a; (x, y, z) = arc_axes a
      in case (if kn_soft_limits env ! z then
                 check_extent env z (min (arc_position a ! z) (arc_target a ! z)) (max (arc_position a ! z) (arc_target a ! z))
               else None) of
           Some e \<Rightarrow> Some e
         | None \<Rightarrow>
             if \<not> (kn_soft_limits env ! x \<or> kn_soft_limits env ! y) then None
             else let c = arc_crosses a
                  in case arc_axis_invalid env a x c0 (cr_m0 c) (cr_p0 c) of
                       Some e \<Rightarrow> Some e
                     | None \<Rightarrow> arc_axis_invalid env a y c1 (cr_m1 c) (cr_p1 c))"

subsection \<open>Jogs\<close>

text \<open>One axis of a jog: the coordinate it is constrained to.\<close>

definition constrain_axis :: "kin_env \<Rightarrow> nat \<Rightarrow> real \<Rightarrow> real" where
  "constrain_axis env axis target =
     (let current = kn_mpos env ! axis
      in if kn_soft_limits env ! axis \<and> target \<noteq> current then
           let move_positive = (current < target)
           in if (\<not> move_positive \<and> current < limitsMinPosition env axis)
                 \<or> (move_positive \<and> limitsMaxPosition env axis < current) then
                (if \<not> bit (limits_get_state env) (motor_bit axis 0) \<and> \<not> bit (limits_get_state env) (motor_bit axis 1)
                 then current
                 else
                   let jog_dist = fsub target current;
                       axisMotors = axes_to_motors (set_bit axis 0);
                       posLimited = (kn_pos_limit_mask env AND axisMotors \<noteq> 0);
                       negLimited = (kn_neg_limit_mask env AND axisMotors \<noteq> 0)
                   in if posLimited \<noteq> negLimited \<and> (negLimited \<and> jog_dist < 0 \<or> posLimited \<and> 0 < jog_dist)
                      then current
                      else let nudge_max = kn_pulloff env ! axis
                           in if nudge_max < \<bar>jog_dist\<bar> then fadd current nudge_max else target)
              else if target < limitsMinPosition env axis then limitsMinPosition env axis
              else if limitsMaxPosition env axis < target then limitsMaxPosition env axis
              else target
         else target)"

definition constrain_jog :: "kin_env \<Rightarrow> real list \<Rightarrow> plan_line \<Rightarrow> real list \<times> plan_line" where
  "constrain_jog env target l =
     (map (\<lambda>axis. if axis < kn_n_axis env then constrain_axis env axis (target ! axis) else target ! axis)
        [0..<length target],
      l\<lparr>pl_limits_checked := True\<rparr>)"

text \<open>The motors are the axes: no transformation.\<close>

definition motors_to_cartesian :: "real list \<Rightarrow> real list" where
  "motors_to_cartesian motors = motors"

definition transform_cartesian_to_motors :: "real list \<Rightarrow> real list" where
  "transform_cartesian_to_motors cartesian = cartesian"

subsection \<open>Limit switches while homing\<close>

definition ambiguousLimit :: "kin_env \<Rightarrow> bool" where
  "ambiguousLimit env \<longleftrightarrow> kn_pos_limit_mask env AND kn_neg_limit_mask env \<noteq> 0"

definition canHome :: "kin_env \<Rightarrow> bool" where
  "canHome env \<longleftrightarrow> \<not> ambiguousLimit env"

definition motors_to_axes :: "u32 \<Rightarrow> u32" where
  "motors_to_axes motors = (motors AND 0xffff) OR drop_bit 16 motors"

text \<open>The motors at a limit drop out; true when an axis loses its last motor.\<close>

definition limitReached :: "u32 \<Rightarrow> u32 \<Rightarrow> u32 \<Rightarrow> bool \<times> u32 \<times> u32" where
  "limitReached axisMask motorMask limited =
     (let motorMask = motorMask AND NOT limited; axes = motors_to_axes motorMask
      in (axes \<noteq> axisMask, axes, motorMask))"

end
