(* ===== verification/Planner.thy ===== *)
theory Planner
  imports GcodeState PlanLine Float32 NgcNumber
begin

text \<open>
  The motion planner (\<^verbatim>\<open>Planner.cpp\<close>, with the vector functions of \<^verbatim>\<open>NutsBolts.cpp\<close>, the step
  conversions of \<^verbatim>\<open>System.cpp\<close> and \<open>update_plan_block_parameters\<close> of \<^verbatim>\<open>Stepper.cpp\<close>). The ring
  buffer is a list with the indices of the code. What the planner reads of the configuration
  and of the rest of the machine is the record \<open>plan_env\<close>. Speeds are in mm/min, squared where
  the code squares them; a float is rounded after every operation and does not overflow.
\<close>

subsection \<open>Blocks and state\<close>

record plan_block =
  pb_steps :: "u32 list"
  pb_step_event_count :: u32
  pb_direction_bits :: u16
  pb_rapidMotion :: bool
  pb_systemMotion :: bool
  pb_noFeedOverride :: bool
  pb_inverseTime :: bool
  pb_spindle :: nat
  pb_coolant :: "bool \<times> bool"
  pb_line_number :: i32
  pb_entry_speed_sqr :: real
  pb_max_entry_speed_sqr :: real
  pb_acceleration :: real
  pb_millimeters :: real
  pb_max_junction_speed_sqr :: real
  pb_rapid_rate :: real
  pb_programmed_rate :: real
  pb_spindle_speed :: u32
  pb_is_jog :: bool

record planner =
  pn_buffer :: "plan_block list"
  pn_tail :: nat
  pn_head :: nat
  pn_next_head :: nat
  pn_planned :: nat
  pn_position :: "i32 list"
  pn_previous_unit_vec :: "real list"
  pn_previous_nominal_speed :: real

text \<open>
  The stepper shows the planner one thing: the speed at which it is inside the first block, if
  it is.
\<close>

record plan_env =
  pe_blocks :: nat
  pe_n_axis :: nat
  pe_acceleration :: "real list"
  pe_max_rate :: "real list"
  pe_steps_per_mm :: "real list"
  pe_junction_deviation :: real
  pe_r_override :: nat
  pe_f_override :: nat
  pe_unhomed_axes :: bool
  pe_machine_steps :: "i32 list"
  pe_executing :: "real option"

definition SOME_LARGE_VALUE :: real where "SOME_LARGE_VALUE = f32 (10 ^ 38)"
definition MINIMUM_FEED_RATE :: real where "MINIMUM_FEED_RATE = 1"
definition MINIMUM_JUNCTION_SPEED :: real where "MINIMUM_JUNCTION_SPEED = 0"

subsection \<open>The ring\<close>

definition plan_next_block_index :: "plan_env \<Rightarrow> nat \<Rightarrow> nat" where
  "plan_next_block_index env i = (if i + 1 = pe_blocks env then 0 else i + 1)"

definition plan_prev_block_index :: "plan_env \<Rightarrow> nat \<Rightarrow> nat" where
  "plan_prev_block_index env i = (if i = 0 then pe_blocks env else i) - 1"

definition block_at :: "planner \<Rightarrow> nat \<Rightarrow> plan_block" where
  "block_at p i = pn_buffer p ! i"

definition set_block :: "nat \<Rightarrow> (plan_block \<Rightarrow> plan_block) \<Rightarrow> planner \<Rightarrow> planner" where
  "set_block i f p = p\<lparr>pn_buffer := (pn_buffer p)[i := f (pn_buffer p ! i)]\<rparr>"

definition set_entry :: "nat \<Rightarrow> real \<Rightarrow> planner \<Rightarrow> planner" where
  "set_entry i v = set_block i (\<lambda>b. b\<lparr>pb_entry_speed_sqr := v\<rparr>)"

text \<open>What the deceleration or acceleration over a block adds to the square of the speed.\<close>

definition speed_gain :: "plan_block \<Rightarrow> real" where
  "speed_gain b = fmul (fmul 2 (pb_acceleration b)) (pb_millimeters b)"

definition update_plan_block_parameters :: "plan_env \<Rightarrow> planner \<Rightarrow> planner" where
  "update_plan_block_parameters env p =
     (case pe_executing env of
        None \<Rightarrow> p
      | Some speed \<Rightarrow> set_entry (pn_tail p) (fmul speed speed) p)"

subsection \<open>Planning\<close>

definition reverse_entry :: "plan_block \<Rightarrow> plan_block \<Rightarrow> real" where
  "reverse_entry current nxt =
     (if pb_entry_speed_sqr current \<noteq> pb_max_entry_speed_sqr current then
        let entry_speed_sqr = fadd (pb_entry_speed_sqr nxt) (speed_gain current)
        in if entry_speed_sqr < pb_max_entry_speed_sqr current then entry_speed_sqr
           else pb_max_entry_speed_sqr current
      else pb_entry_speed_sqr current)"

text \<open>The loop of the reverse pass; \<open>fuel\<close> bounds the walk, which passes each block once.\<close>

fun reverse_pass :: "nat \<Rightarrow> plan_env \<Rightarrow> nat \<Rightarrow> nat \<Rightarrow> planner \<Rightarrow> planner option" where
  "reverse_pass 0 env current block_index p = None"
| "reverse_pass (Suc fuel) env current block_index p =
     (if block_index = pn_planned p then Some p
      else
        let nxt = current;
            current = block_index;
            block_index = plan_prev_block_index env block_index;
            p = (if block_index = pn_tail p then update_plan_block_parameters env p else p);
            p = set_entry current (reverse_entry (block_at p current) (block_at p nxt)) p
        in reverse_pass fuel env current block_index p)"

definition forward_entry :: "plan_block \<Rightarrow> plan_block \<Rightarrow> real option" where
  "forward_entry current nxt =
     (if pb_entry_speed_sqr current < pb_entry_speed_sqr nxt then
        let entry_speed_sqr = fadd (pb_entry_speed_sqr current) (speed_gain current)
        in if entry_speed_sqr < pb_entry_speed_sqr nxt then Some entry_speed_sqr else None
      else None)"

definition forward_step :: "nat \<Rightarrow> nat \<Rightarrow> planner \<Rightarrow> planner" where
  "forward_step current nxt p =
     (let p = (case forward_entry (block_at p current) (block_at p nxt) of
                 Some e \<Rightarrow> (set_entry nxt e p)\<lparr>pn_planned := nxt\<rparr>
               | None \<Rightarrow> p)
      in if pb_entry_speed_sqr (block_at p nxt) = pb_max_entry_speed_sqr (block_at p nxt)
         then p\<lparr>pn_planned := nxt\<rparr> else p)"

fun forward_pass :: "nat \<Rightarrow> plan_env \<Rightarrow> nat \<Rightarrow> nat \<Rightarrow> planner \<Rightarrow> planner option" where
  "forward_pass 0 env nxt block_index p = None"
| "forward_pass (Suc fuel) env nxt block_index p =
     (if block_index = pn_head p then Some p
      else forward_pass fuel env block_index (plan_next_block_index env block_index)
             (forward_step nxt block_index p))"

definition planner_recalculate :: "plan_env \<Rightarrow> planner \<Rightarrow> planner option" where
  "planner_recalculate env p =
     (if pn_head p = pn_tail p then Some p
      else
        let block_index = plan_prev_block_index env (pn_head p)
        in if block_index = pn_planned p then Some p
           else
             let current = block_index; b = block_at p current;
                 p = set_entry current (let e = speed_gain b
                       in if pb_max_entry_speed_sqr b < e then pb_max_entry_speed_sqr b else e) p;
                 block_index = plan_prev_block_index env block_index;
                 reversed = (if block_index = pn_planned p then
                               Some (if block_index = pn_tail p then update_plan_block_parameters env p else p)
                             else reverse_pass (pe_blocks env) env current block_index p)
             in case reversed of
                  None \<Rightarrow> None
                | Some p \<Rightarrow> forward_pass (pe_blocks env) env (pn_planned p)
                    (plan_next_block_index env (pn_planned p)) p)"

definition plan_reset_buffer :: "planner \<Rightarrow> planner" where
  "plan_reset_buffer p = p\<lparr>pn_tail := 0, pn_head := 0, pn_next_head := 1, pn_planned := 0\<rparr>"

definition plan_reset :: "plan_env \<Rightarrow> planner \<Rightarrow> planner" where
  "plan_reset env p = plan_reset_buffer (p\<lparr>pn_position := replicate (pe_n_axis env) 0,
     pn_previous_unit_vec := replicate (pe_n_axis env) 0, pn_previous_nominal_speed := 0\<rparr>)"

definition plan_discard_current_block :: "plan_env \<Rightarrow> planner \<Rightarrow> planner" where
  "plan_discard_current_block env p =
     (if pn_head p \<noteq> pn_tail p then
        let block_index = plan_next_block_index env (pn_tail p);
            p = (if pn_tail p = pn_planned p then p\<lparr>pn_planned := block_index\<rparr> else p)
        in p\<lparr>pn_tail := block_index\<rparr>
      else p)"

definition plan_get_system_motion_block :: "planner \<Rightarrow> plan_block" where
  "plan_get_system_motion_block p = block_at p (pn_head p)"

definition plan_get_current_block :: "planner \<Rightarrow> plan_block option" where
  "plan_get_current_block p = (if pn_head p = pn_tail p then None else Some (block_at p (pn_tail p)))"

definition plan_get_exec_block_exit_speed_sqr :: "plan_env \<Rightarrow> planner \<Rightarrow> real" where
  "plan_get_exec_block_exit_speed_sqr env p =
     (let block_index = plan_next_block_index env (pn_tail p)
      in if block_index = pn_head p then 0 else pb_entry_speed_sqr (block_at p block_index))"

definition plan_check_full_buffer :: "planner \<Rightarrow> bool" where
  "plan_check_full_buffer p \<longleftrightarrow> pn_tail p = pn_next_head p"

definition plan_get_block_buffer_available :: "plan_env \<Rightarrow> planner \<Rightarrow> nat" where
  "plan_get_block_buffer_available env p =
     (if pn_tail p \<le> pn_head p then pe_blocks env - 1 - (pn_head p - pn_tail p)
      else pn_tail p - pn_head p - 1)"

definition plan_compute_profile_nominal_speed :: "plan_env \<Rightarrow> plan_block \<Rightarrow> real" where
  "plan_compute_profile_nominal_speed env b =
     (let percent = (\<lambda>n. fmul (f32 0.01) (fint (int n)));
          nominal = (if pb_rapidMotion b then fmul (pb_programmed_rate b) (percent (pe_r_override env))
                     else
                       let v = (if \<not> pb_noFeedOverride b
                                then fmul (pb_programmed_rate b) (percent (pe_f_override env))
                                else pb_programmed_rate b)
                       in if pb_rapid_rate b < v then pb_rapid_rate b else v)
      in if MINIMUM_FEED_RATE < nominal then nominal else MINIMUM_FEED_RATE)"

definition plan_compute_profile_parameters :: "real \<Rightarrow> real \<Rightarrow> plan_block \<Rightarrow> plan_block" where
  "plan_compute_profile_parameters nominal prev_nominal b =
     (let m = (if prev_nominal < nominal then fmul prev_nominal prev_nominal else fmul nominal nominal)
      in b\<lparr>pb_max_entry_speed_sqr :=
            (if pb_max_junction_speed_sqr b < m then pb_max_junction_speed_sqr b else m)\<rparr>)"

definition plan_cycle_reinitialize :: "plan_env \<Rightarrow> planner \<Rightarrow> planner option" where
  "plan_cycle_reinitialize env p =
     (let p = update_plan_block_parameters env p
      in planner_recalculate env (p\<lparr>pn_planned := pn_tail p\<rparr>))"

fun update_profiles :: "nat \<Rightarrow> plan_env \<Rightarrow> nat \<Rightarrow> real \<Rightarrow> planner \<Rightarrow> (real \<times> planner) option" where
  "update_profiles 0 env block_index prev p = None"
| "update_profiles (Suc fuel) env block_index prev p =
     (if block_index = pn_head p then Some (prev, p)
      else
        let nominal = plan_compute_profile_nominal_speed env (block_at p block_index)
        in update_profiles fuel env (plan_next_block_index env block_index) nominal
             (set_block block_index (plan_compute_profile_parameters nominal prev) p))"

definition plan_update_velocity_profile_parameters :: "plan_env \<Rightarrow> planner \<Rightarrow> planner option" where
  "plan_update_velocity_profile_parameters env p =
     (case update_profiles (pe_blocks env) env (pn_tail p) SOME_LARGE_VALUE p of
        None \<Rightarrow> None
      | Some (prev, p) \<Rightarrow>
          let p = p\<lparr>pn_previous_nominal_speed := prev\<rparr>
          in if pn_tail p \<noteq> pn_head p then plan_cycle_reinitialize env p else Some p)"

subsection \<open>Vectors\<close>

primrec square_sum :: "real \<Rightarrow> real list \<Rightarrow> real" where
  "square_sum s [] = s"
| "square_sum s (d # ds) = square_sum (fadd s (fmul d d)) ds"

definition vector_length :: "real list \<Rightarrow> real" where
  "vector_length v = fsqrt (square_sum 0 v)"

definition scale_vector :: "real \<Rightarrow> real list \<Rightarrow> real list" where
  "scale_vector s = map (\<lambda>d. fmul d s)"

definition convert_delta_vector_to_unit_vector :: "real list \<Rightarrow> real \<times> real list" where
  "convert_delta_vector_to_unit_vector v =
     (let magnitude = vector_length v in (magnitude, scale_vector (fdiv 1 magnitude) v))"

primrec least_over_axes :: "real list \<Rightarrow> real \<Rightarrow> real list \<Rightarrow> real" where
  "least_over_axes limits limit_value [] = limit_value"
| "least_over_axes limits limit_value (u # us) =
     least_over_axes (tl limits)
       (if u \<noteq> 0 then let q = \<bar>fdiv (hd limits) u\<bar> in if limit_value < q then limit_value else q
        else limit_value) us"

definition limit_acceleration_by_axis_maximum :: "plan_env \<Rightarrow> real list \<Rightarrow> real" where
  "limit_acceleration_by_axis_maximum env unit_vec =
     fmul (least_over_axes (pe_acceleration env) SOME_LARGE_VALUE unit_vec) 3600"

definition limit_rate_by_axis_maximum :: "plan_env \<Rightarrow> real list \<Rightarrow> real" where
  "limit_rate_by_axis_maximum env unit_vec = least_over_axes (pe_max_rate env) SOME_LARGE_VALUE unit_vec"

subsection \<open>A new motion\<close>

definition motor_pos_to_steps :: "plan_env \<Rightarrow> nat \<Rightarrow> real \<Rightarrow> i32" where
  "motor_pos_to_steps env axis mpos = word_of_int (lround (fmul mpos (pe_steps_per_mm env ! axis)))"

definition steps_to_motor_pos :: "plan_env \<Rightarrow> nat \<Rightarrow> i32 \<Rightarrow> real" where
  "steps_to_motor_pos env axis steps = fdiv (fint (sint steps)) (pe_steps_per_mm env ! axis)"

definition zero_block :: plan_block where
  "zero_block = \<lparr>pb_steps = [], pb_step_event_count = 0, pb_direction_bits = 0, pb_rapidMotion = False,
     pb_systemMotion = False, pb_noFeedOverride = False, pb_inverseTime = False, pb_spindle = 0,
     pb_coolant = (False, False), pb_line_number = 0, pb_entry_speed_sqr = 0,
     pb_max_entry_speed_sqr = 0, pb_acceleration = 0, pb_millimeters = 0,
     pb_max_junction_speed_sqr = 0, pb_rapid_rate = 0, pb_programmed_rate = 0, pb_spindle_speed = 0,
     pb_is_jog = False\<rparr>"

definition block_of_line :: "plan_line \<Rightarrow> plan_block" where
  "block_of_line l = zero_block\<lparr>pb_rapidMotion := pl_rapidMotion l, pb_systemMotion := pl_systemMotion l,
     pb_noFeedOverride := pl_noFeedOverride l, pb_inverseTime := pl_inverseTime l,
     pb_coolant := pl_coolant l, pb_spindle := pl_spindle l, pb_spindle_speed := pl_spindle_speed l,
     pb_line_number := pl_line_number l, pb_is_jog := pl_is_jog l\<rparr>"

text \<open>The steps of a move and its distances, axis by axis.\<close>

definition move_steps :: "plan_env \<Rightarrow> i32 list \<Rightarrow> real list \<Rightarrow> i32 list" where
  "move_steps env position target =
     map (\<lambda>axis. motor_pos_to_steps env axis (target ! axis) - position ! axis) [0..<pe_n_axis env]"

definition with_distance :: "plan_env \<Rightarrow> i32 list \<Rightarrow> plan_block \<Rightarrow> plan_block" where
  "with_distance env deltas b =
     (let steps = map (\<lambda>d. word_of_int \<bar>sint d\<bar>) deltas
      in b\<lparr>pb_steps := steps,
           pb_step_event_count := foldl (\<lambda>m s. if s < m then m else s) 0 steps,
           pb_direction_bits := foldl (\<lambda>bits axis.
              if steps_to_motor_pos env axis (deltas ! axis) < 0 then set_bit axis bits else bits)
              0 [0..<length deltas]\<rparr>)"

definition with_rates :: "plan_env \<Rightarrow> plan_line \<Rightarrow> real \<Rightarrow> real list \<Rightarrow> plan_block \<Rightarrow> plan_block" where
  "with_rates env l magnitude unit_vec b =
     (let rapid = limit_rate_by_axis_maximum env unit_vec
      in b\<lparr>pb_millimeters := magnitude,
           pb_acceleration := limit_acceleration_by_axis_maximum env unit_vec,
           pb_rapid_rate := rapid,
           pb_programmed_rate :=
             (if pb_rapidMotion b then rapid
              else if pb_inverseTime b then fmul (pl_feed_rate l) magnitude else pl_feed_rate l)\<rparr>)"

primrec cos_between :: "real \<Rightarrow> real list \<Rightarrow> real list \<Rightarrow> real" where
  "cos_between c [] us = c"
| "cos_between c (v # vs) us = cos_between (fsub c (fmul v (hd us))) vs (tl us)"

definition junction_speed_sqr :: "plan_env \<Rightarrow> real list \<Rightarrow> real list \<Rightarrow> real" where
  "junction_speed_sqr env previous unit_vec =
     (let junction_cos_theta = cos_between 0 previous unit_vec;
          junction_vec = map2 (\<lambda>u v. fsub u v) unit_vec previous;
          minimum = fmul MINIMUM_JUNCTION_SPEED MINIMUM_JUNCTION_SPEED
      in if f64 0.999999 < junction_cos_theta then minimum
         else if junction_cos_theta < f64 (- 0.999999) then SOME_LARGE_VALUE
         else
           let junction_unit_vec = snd (convert_delta_vector_to_unit_vector junction_vec);
               junction_acceleration = limit_acceleration_by_axis_maximum env junction_unit_vec;
               sin_theta_d2 = fsqrt (fmul (1 / 2) (fsub 1 junction_cos_theta));
               v = fdiv (fmul (fmul junction_acceleration (pe_junction_deviation env)) sin_theta_d2)
                     (fsub 1 sin_theta_d2)
           in if v < minimum then minimum else v)"

text \<open>
  Why a motion was refused; only a queued one returns true. An axis that is not homed also raises
  the alarm \<open>Unhomed\<close>. \<open>None\<close> means that planning did not finish.
\<close>

datatype buffer_result = BrUnhomed | BrEmpty | BrQueued

definition queue_block :: "plan_env \<Rightarrow> plan_block \<Rightarrow> real list \<Rightarrow> i32 list \<Rightarrow> planner \<Rightarrow> planner option" where
  "queue_block env b unit_vec target_steps p =
     (let nominal = plan_compute_profile_nominal_speed env b;
          b = plan_compute_profile_parameters nominal (pn_previous_nominal_speed p) b;
          p = p\<lparr>pn_buffer := (pn_buffer p)[pn_head p := b], pn_previous_nominal_speed := nominal,
                pn_previous_unit_vec := unit_vec, pn_position := target_steps,
                pn_head := pn_next_head p,
                pn_next_head := plan_next_block_index env (pn_next_head p)\<rparr>
      in planner_recalculate env p)"

text \<open>The distances of the move, in steps and in millimetres.\<close>

definition line_deltas :: "plan_env \<Rightarrow> real list \<Rightarrow> plan_line \<Rightarrow> planner \<Rightarrow> i32 list" where
  "line_deltas env target l p =
     move_steps env (if pl_systemMotion l then pe_machine_steps env else pn_position p) target"

definition deltas_mm :: "plan_env \<Rightarrow> i32 list \<Rightarrow> real list" where
  "deltas_mm env deltas = map (\<lambda>axis. steps_to_motor_pos env axis (deltas ! axis)) [0..<pe_n_axis env]"

text \<open>The block with its limits, and its direction. A motion from rest starts with no speed.\<close>

definition limited_block :: "plan_env \<Rightarrow> real list \<Rightarrow> plan_line \<Rightarrow> planner \<Rightarrow> plan_block \<Rightarrow> plan_block \<times> real list" where
  "limited_block env target l p b =
     (let mu = convert_delta_vector_to_unit_vector (deltas_mm env (line_deltas env target l p));
          b = with_rates env l (fst mu) (snd mu) b
      in (if pn_head p = pn_tail p \<or> pb_systemMotion b
          then b\<lparr>pb_entry_speed_sqr := 0, pb_max_junction_speed_sqr := 0\<rparr>
          else b\<lparr>pb_max_junction_speed_sqr := junction_speed_sqr env (pn_previous_unit_vec p) (snd mu)\<rparr>,
          snd mu))"

definition plan_buffer_line :: "plan_env \<Rightarrow> real list \<Rightarrow> plan_line \<Rightarrow> planner \<Rightarrow> (buffer_result \<times> planner) option" where
  "plan_buffer_line env target l p =
     (let b = block_of_line l; p = set_block (pn_head p) (\<lambda>_. b) p
      in if \<not> pb_systemMotion b \<and> \<not> pb_is_jog b \<and> pe_unhomed_axes env then Some (BrUnhomed, p)
         else
           let b = with_distance env (line_deltas env target l p) b
           in if pb_step_event_count b = 0 then Some (BrEmpty, set_block (pn_head p) (\<lambda>_. b) p)
              else
                let (b, unit_vec) = limited_block env target l p b
                in if pb_systemMotion b then Some (BrQueued, set_block (pn_head p) (\<lambda>_. b) p)
                   else map_option (Pair BrQueued)
                          (queue_block env b unit_vec
                            (map (\<lambda>axis. motor_pos_to_steps env axis (target ! axis)) [0..<pe_n_axis env]) p))"

definition plan_sync_position :: "plan_env \<Rightarrow> planner \<Rightarrow> planner" where
  "plan_sync_position env p = p\<lparr>pn_position := pe_machine_steps env\<rparr>"

end
