(* ===== verification/MotionControl.thy ===== *)
theory MotionControl
  imports Cartesian Planner
begin

text \<open>
  From a programmed motion to the planner (\<^verbatim>\<open>MotionControl.cpp\<close> with the Cartesian kinematics):
  the soft-limit check, the wait for room in the planner's buffer, the segments of an arc.
  What happens while the code waits (\<open>protocol_execute_realtime\<close>, the stepper) is a list of rounds,
  each with its effect on the planner and with what the code reads afterwards.
\<close>

subsection \<open>State\<close>

text \<open>
  The motion that \<open>mc_move_motors\<close> has taken on and a jog cancel can still take away; the soft
  limit that was violated last, if any.
\<close>

record mc_world =
  mw_env :: plan_env
  mw_planner :: planner
  mw_inflight :: "plan_line option"
  mw_soft_limit :: "(nat \<times> real) option"

record mc_env =
  me_kin :: kin_env
  me_check_mode :: bool
  me_arc_tolerance :: real

record rt_round =
  rr_machine :: "plan_env \<times> planner \<Rightarrow> plan_env \<times> planner"
  rr_cancel_jog :: bool
  rr_abort :: bool

definition mc_init :: "mc_world \<Rightarrow> mc_world" where
  "mc_init w = w\<lparr>mw_inflight := None\<rparr>"

definition mc_cancel_jog :: "mc_world \<Rightarrow> mc_world" where
  "mc_cancel_jog w =
     (case mw_inflight w of
        Some l \<Rightarrow> if pl_is_jog l then w\<lparr>mw_inflight := None\<rparr> else w
      | None \<Rightarrow> w)"

definition realtime_round :: "rt_round \<Rightarrow> mc_world \<Rightarrow> mc_world" where
  "realtime_round r w =
     (let (e, p) = rr_machine r (mw_env w, mw_planner w);
          w = w\<lparr>mw_env := e, mw_planner := p\<rparr>
      in if rr_cancel_jog r then mc_cancel_jog w else w)"

subsection \<open>Handing a motion to the planner\<close>

text \<open>The wait for room: whether it was aborted. \<open>None\<close>: it is still waiting after these rounds.\<close>

fun wait_for_block :: "rt_round list \<Rightarrow> mc_world \<Rightarrow> (bool \<times> mc_world) option" where
  "wait_for_block [] w = (if plan_check_full_buffer (mw_planner w) then None else Some (False, w))"
| "wait_for_block (r # rs) w =
     (if plan_check_full_buffer (mw_planner w) then
        let w = realtime_round r w
        in if rr_abort r then Some (True, w) else wait_for_block rs w
      else Some (False, w))"

definition mc_move_motors ::
    "mc_env \<Rightarrow> rt_round list \<Rightarrow> real list \<Rightarrow> plan_line \<Rightarrow> mc_world \<Rightarrow> (bool \<times> mc_world) option" where
  "mc_move_motors env rounds target l w =
     (let w = w\<lparr>mw_inflight := Some l\<rparr>
      in if me_check_mode env then Some (False, w\<lparr>mw_inflight := None\<rparr>)
         else case wait_for_block rounds w of
                None \<Rightarrow> None
              | Some (True, w) \<Rightarrow> Some (False, w\<lparr>mw_inflight := None\<rparr>)
              | Some (False, w) \<Rightarrow>
                  if mw_inflight w \<noteq> None then
                    case plan_buffer_line (mw_env w) target l (mw_planner w) of
                      None \<Rightarrow> None
                    | Some (r, p) \<Rightarrow> Some (True, w\<lparr>mw_planner := p, mw_inflight := None\<rparr>)
                  else Some (False, w\<lparr>mw_inflight := None\<rparr>))"

text \<open>Cartesian motors are the axes.\<close>

definition cartesian_to_motors ::
    "mc_env \<Rightarrow> rt_round list \<Rightarrow> real list \<Rightarrow> plan_line \<Rightarrow> real list \<Rightarrow> mc_world \<Rightarrow> (bool \<times> mc_world) option" where
  "cartesian_to_motors env rounds target l position w = mc_move_motors env rounds target l w"

definition mc_linear_no_check ::
    "mc_env \<Rightarrow> rt_round list \<Rightarrow> real list \<Rightarrow> plan_line \<Rightarrow> real list \<Rightarrow> mc_world \<Rightarrow> (bool \<times> mc_world) option" where
  "mc_linear_no_check env rounds target l position w = cartesian_to_motors env rounds target l position w"

definition limit_error :: "nat \<times> real \<Rightarrow> mc_world \<Rightarrow> mc_world" where
  "limit_error e w = w\<lparr>mw_soft_limit := Some e\<rparr>"

definition mc_linear ::
    "mc_env \<Rightarrow> rt_round list \<Rightarrow> real list \<Rightarrow> plan_line \<Rightarrow> real list \<Rightarrow> mc_world \<Rightarrow> (bool \<times> mc_world) option" where
  "mc_linear env rounds target l position w =
     (case (if \<not> pl_is_jog l \<and> \<not> pl_limits_checked l then invalid_line (me_kin env) target else None) of
        Some e \<Rightarrow> Some (False, limit_error e w)
      | None \<Rightarrow> mc_linear_no_check env rounds target l position w)"

subsection \<open>Arcs\<close>

definition N_ARC_CORRECTION :: nat where "N_ARC_CORRECTION = 12"
definition ARC_ANGULAR_TRAVEL_EPSILON :: real where "ARC_ANGULAR_TRAVEL_EPSILON = f64 (5 / 10 ^ 7)"

text \<open>The angle of the arc, with the extra turns.\<close>

definition arc_angular_travel :: "real \<times> real \<Rightarrow> real \<times> real \<Rightarrow> bool \<Rightarrow> u32 \<Rightarrow> real" where
  "arc_angular_travel radii rt is_clockwise_arc rotations =
     (let (r0, r1) = radii; (rt0, rt1) = rt;
          angle = fatan2 (fsub (fmul r0 rt1) (fmul r1 rt0)) (fadd (fmul r0 rt0) (fmul r1 rt1));
          extra = fmul (fint (uint ((rotations - 1) * 2))) (f32 pi)
      in if is_clockwise_arc then
           let angle = (if - ARC_ANGULAR_TRAVEL_EPSILON \<le> angle then fsub angle (fmul 2 (f32 pi)) else angle)
           in if 1 < rotations then fsub angle extra else angle
         else
           let angle = (if angle \<le> ARC_ANGULAR_TRAVEL_EPSILON then fadd angle (fmul 2 (f32 pi)) else angle)
           in if 1 < rotations then fadd angle extra else angle)"

text \<open>
  The number of segments, a \<open>uint16_t\<close>. \<open>None\<close>: the conversion is undefined, as the value does not
  fit, or is not a number.
\<close>

definition arc_segments :: "real \<Rightarrow> real \<Rightarrow> real \<Rightarrow> nat option" where
  "arc_segments angular_travel radius tolerance =
     (let chord = fmul tolerance (fsub (fmul 2 radius) tolerance);
          n = fdiv \<bar>fmul (fmul (1 / 2) angular_travel) radius\<bar> (fsqrt chord)
      in if 0 < chord \<and> 0 < fsqrt chord \<and> \<lfloor>n\<rfloor> < 65536 then Some (nat \<lfloor>n\<rfloor>) else None)"

record arc_run =
  ar_radii :: "real \<times> real"
  ar_count :: nat
  ar_position :: "real list"
  ar_previous :: "real list"

text \<open>The next point of the arc: by rotating the last one, every so often from the start of the arc.\<close>

definition next_radii :: "real \<times> real \<Rightarrow> real \<Rightarrow> real \<Rightarrow> real \<Rightarrow> nat \<Rightarrow> arc_run \<Rightarrow> arc_run" where
  "next_radii offset theta sin_T cos_T i a =
     (let (o0, o1) = offset; (r0, r1) = ar_radii a
      in if ar_count a < N_ARC_CORRECTION then
           a\<lparr>ar_radii := (fsub (fmul r0 cos_T) (fmul r1 sin_T), fadd (fmul r0 sin_T) (fmul r1 cos_T)),
             ar_count := ar_count a + 1\<rparr>
         else
           let cos_Ti = fcos (fmul (fint (int i)) theta); sin_Ti = fsin (fmul (fint (int i)) theta)
           in a\<lparr>ar_radii := (fadd (fmul (- o0) cos_Ti) (fmul o1 sin_Ti), fsub (fmul (- o0) sin_Ti) (fmul o1 cos_Ti)),
                ar_count := 0\<rparr>)"

definition add_to :: "nat \<Rightarrow> real \<Rightarrow> real list \<Rightarrow> real list" where
  "add_to axis d p = p[axis := fadd (p ! axis) d]"

definition arc_advance :: "nat \<Rightarrow> real \<times> real \<Rightarrow> nat \<times> nat \<times> nat \<Rightarrow> (nat \<Rightarrow> real) \<Rightarrow> arc_run \<Rightarrow> arc_run" where
  "arc_advance n_axis center caxes linear_per_segment a =
     (let (c0, c1) = center; (x, y, z) = caxes; (r0, r1) = ar_radii a;
          p = (ar_position a)[x := fadd c0 r0];
          p = p[y := fadd c1 r1];
          p = add_to z (linear_per_segment z) p;
          p = fold (\<lambda>axis. add_to axis (linear_per_segment axis)) [3..<n_axis] p
      in a\<lparr>ar_position := p\<rparr>)"

definition arc_remember :: "nat \<times> nat \<times> nat \<Rightarrow> arc_run \<Rightarrow> arc_run" where
  "arc_remember caxes a =
     (let (x, y, z) = caxes; p = ar_position a
      in a\<lparr>ar_previous := ((ar_previous a)[x := p ! x, y := p ! y])[z := p ! z]\<rparr>)"

text \<open>
  What an arc reads while it is being submitted: the rounds of the wait before motion \<open>i\<close>, and
  whether the arc stops after it (\<open>sys.abort()\<close> or the state \<open>Alarm\<close>).
\<close>

record arc_obs =
  ao_rounds :: "nat \<Rightarrow> rt_round list"
  ao_stop :: "nat \<Rightarrow> bool"

text \<open>
  The loop from segment \<open>i\<close>, with \<open>left\<close> segments to go before the last. It ends with the run and
  whether it was stopped.
\<close>

fun arc_loop ::
    "mc_env \<Rightarrow> arc_obs \<Rightarrow> nat \<Rightarrow> plan_line \<Rightarrow> (nat \<Rightarrow> arc_run \<Rightarrow> arc_run) \<Rightarrow> nat \<times> nat \<times> nat \<Rightarrow> nat \<Rightarrow> nat \<Rightarrow> arc_run \<Rightarrow> mc_world
       \<Rightarrow> (bool \<times> arc_run \<times> mc_world) option" where
  "arc_loop env obs n_axis l move caxes 0 i a w = Some (False, a, w)"
| "arc_loop env obs n_axis l move caxes (Suc left) i a w =
     (let a = move i a
      in case mc_linear env (ao_rounds obs i) (ar_position a) l (ar_previous a) w of
           None \<Rightarrow> None
         | Some (_, w) \<Rightarrow>
             let a = arc_remember caxes a
             in if ao_stop obs i then Some (True, a, w)
                else arc_loop env obs n_axis l move caxes left (i + 1) a w)"

text \<open>An inverse-time feed is divided among the segments.\<close>

definition arc_feed :: "nat \<Rightarrow> plan_line \<Rightarrow> plan_line" where
  "arc_feed segments l =
     (if segments \<noteq> 0 \<and> pl_inverseTime l
      then l\<lparr>pl_feed_rate := fmul (pl_feed_rate l) (fint (int segments)), pl_inverseTime := False\<rparr>
      else l)"

definition arc_move ::
    "nat \<Rightarrow> real list \<Rightarrow> real list \<Rightarrow> real \<times> real \<Rightarrow> real \<times> real \<Rightarrow> nat \<times> nat \<times> nat \<Rightarrow> real \<Rightarrow> nat \<Rightarrow> nat \<Rightarrow> arc_run \<Rightarrow> arc_run" where
  "arc_move n_axis target position offset center caxes angular_travel segments =
     (let theta = fdiv angular_travel (fint (int segments));
          linear_per_segment = (\<lambda>axis. fdiv (fsub (target ! axis) (position ! axis)) (fint (int segments)));
          cos_T = fsub 2 (fmul theta theta);
          sin_T = fmul (fmul theta (f32 0.16666667)) (fadd cos_T 4);
          cos_T = fmul cos_T (1 / 2)
      in (\<lambda>i a. arc_advance n_axis center caxes linear_per_segment (next_radii offset theta sin_T cos_T i a)))"

text \<open>The segments, and then the line to the target itself.\<close>

definition submit_arc ::
    "mc_env \<Rightarrow> arc_obs \<Rightarrow> real list \<Rightarrow> plan_line \<Rightarrow> real list \<Rightarrow> real \<times> real \<Rightarrow> real \<times> real \<Rightarrow> nat \<times> nat \<times> nat \<Rightarrow> real \<Rightarrow> nat \<Rightarrow> mc_world
       \<Rightarrow> mc_world option" where
  "submit_arc env obs target l position offset center caxes angular_travel segments w =
     (let n_axis = kn_n_axis (me_kin env);
          move = arc_move n_axis target position offset center caxes angular_travel segments;
          run = \<lparr>ar_radii = (- fst offset, - snd offset), ar_count = 0, ar_position = position, ar_previous = position\<rparr>
      in case arc_loop env obs n_axis l move caxes (segments - 1) 1 run w of
           None \<Rightarrow> None
         | Some (True, a, w) \<Rightarrow> Some w
         | Some (False, a, w) \<Rightarrow> map_option snd (mc_linear env (ao_rounds obs segments) target l (ar_previous a) w))"

definition mc_arc ::
    "mc_env \<Rightarrow> arc_obs \<Rightarrow> real list \<Rightarrow> plan_line \<Rightarrow> real list \<Rightarrow> real list \<Rightarrow> real \<Rightarrow> nat \<times> nat \<times> nat \<Rightarrow> bool \<Rightarrow> u32 \<Rightarrow> mc_world
       \<Rightarrow> mc_world option" where
  "mc_arc env obs target l position offset radius caxes is_clockwise_arc rotations w =
     (let (x, y, z) = caxes;
          center = (fadd (position ! x) (offset ! x), fadd (position ! y) (offset ! y));
          l = l\<lparr>pl_limits_checked := True\<rparr>
      in case invalid_arc (me_kin env) \<lparr>arc_target = target, arc_position = position, arc_center = center,
             arc_radius = radius, arc_axes = caxes, arc_clockwise = is_clockwise_arc, arc_rotations = rotations\<rparr> of
           Some e \<Rightarrow> Some (limit_error e w)
         | None \<Rightarrow>
             let radii = (- (offset ! x), - (offset ! y));
                 rt = (fsub (target ! x) (fst center), fsub (target ! y) (snd center));
                 angular_travel = arc_angular_travel radii rt is_clockwise_arc rotations
             in case arc_segments angular_travel radius (me_arc_tolerance env) of
                  None \<Rightarrow> None
                | Some segments \<Rightarrow>
                    submit_arc env obs target (arc_feed segments l) position (offset ! x, offset ! y) center caxes
                      angular_travel segments w)"

end
