(* ===== verification/PlannerRing.thy ===== *)
theory PlannerRing
  imports Planner EventQueue
begin

text \<open>
  The ring buffer of the planner seen from its tail: the block at distance \<open>j\<close>, its entry speed,
  the speed that braking over it removes. What the planning passes leave alone.
\<close>

subsection \<open>Indices\<close>

definition ring_ix :: "plan_env \<Rightarrow> nat \<Rightarrow> nat \<Rightarrow> nat" where
  "ring_ix env t j = (t + j) mod pe_blocks env"

definition ring_count :: "plan_env \<Rightarrow> planner \<Rightarrow> nat" where
  "ring_count env p = (pn_head p + pe_blocks env - pn_tail p) mod pe_blocks env"

definition pending :: "plan_env \<Rightarrow> planner \<Rightarrow> plan_block list" where
  "pending env p = map (\<lambda>j. block_at p (ring_ix env (pn_tail p) j)) [0..<ring_count env p]"

text \<open>
  The indices are in range, and the planned block is one of the pending ones, as far as there
  are any.
\<close>

definition wf_ring :: "plan_env \<Rightarrow> planner \<Rightarrow> bool" where
  "wf_ring env p \<longleftrightarrow> 2 \<le> pe_blocks env \<and> length (pn_buffer p) = pe_blocks env
     \<and> pn_tail p < pe_blocks env \<and> pn_head p < pe_blocks env
     \<and> pn_next_head p = plan_next_block_index env (pn_head p)"

definition planned_at :: "plan_env \<Rightarrow> planner \<Rightarrow> nat \<Rightarrow> bool" where
  "planned_at env p k \<longleftrightarrow> pn_planned p = ring_ix env (pn_tail p) k \<and> (k = 0 \<or> k < ring_count env p)"

lemma length_pending [simp]: "length (pending env p) = ring_count env p"
  by (simp add: pending_def)

lemma nth_pending: "j < ring_count env p \<Longrightarrow> pending env p ! j = block_at p (ring_ix env (pn_tail p) j)"
  by (simp add: pending_def)

lemma wf_ring_blocks: "wf_ring env p \<Longrightarrow> 2 \<le> pe_blocks env"
  by (simp add: wf_ring_def)

lemma ring_count_less: "2 \<le> pe_blocks env \<Longrightarrow> ring_count env p < pe_blocks env"
  by (simp add: ring_count_def)

lemma ring_ix_less: "2 \<le> pe_blocks env \<Longrightarrow> ring_ix env t j < pe_blocks env"
  by (simp add: ring_ix_def)

lemma ring_ix_eq:
  assumes "i < pe_blocks env" "j < pe_blocks env"
  shows "ring_ix env t i = ring_ix env t j \<longleftrightarrow> i = j"
proof
  assume "ring_ix env t i = ring_ix env t j"
  then show "i = j" using assms ring_index_inj by (simp add: ring_ix_def)
qed simp

lemma ring_ix_0: "t < pe_blocks env \<Longrightarrow> ring_ix env t 0 = t"
  by (simp add: ring_ix_def)

lemma next_ix: "2 \<le> pe_blocks env \<Longrightarrow> plan_next_block_index env (ring_ix env t j) = ring_ix env t (Suc j)"
  by (simp add: plan_next_block_index_def ring_ix_def mod_Suc)

lemma prev_next: "i < pe_blocks env \<Longrightarrow> plan_prev_block_index env (plan_next_block_index env i) = i"
  by (auto simp: plan_prev_block_index_def plan_next_block_index_def)

lemma prev_ix: "2 \<le> pe_blocks env \<Longrightarrow> plan_prev_block_index env (ring_ix env t (Suc j)) = ring_ix env t j"
  by (metis next_ix prev_next ring_ix_less)

lemma head_ix: "wf_ring env p \<Longrightarrow> pn_head p = ring_ix env (pn_tail p) (ring_count env p)"
  by (auto simp: wf_ring_def ring_ix_def ring_count_def mod_add_right_eq)

lemma ring_count_0: "wf_ring env p \<Longrightarrow> pn_head p = pn_tail p \<longleftrightarrow> ring_count env p = 0"
  by (metis head_ix ring_ix_0 ring_ix_eq ring_count_less wf_ring_def less_le_trans zero_less_numeral)

text \<open>A ring with room counts one block more when its head moves on.\<close>

lemma ring_count_next:
  assumes "wf_ring env p" "\<not> plan_check_full_buffer p"
  shows "Suc (ring_count env p) < pe_blocks env"
proof (rule ccontr)
  assume "\<not> ?thesis"
  then have "Suc (ring_count env p) = pe_blocks env"
    using ring_count_less [of env p] assms(1) by (simp add: wf_ring_def)
  then have "ring_ix env (pn_tail p) (Suc (ring_count env p)) = pn_tail p"
    using assms(1) by (simp add: ring_ix_def wf_ring_def)
  then have "plan_next_block_index env (pn_head p) = pn_tail p"
    using assms(1) head_ix next_ix by (metis wf_ring_blocks)
  with assms show False by (simp add: wf_ring_def plan_check_full_buffer_def)
qed

lemma ring_count_unique:
  assumes "t < pe_blocks env" "n < pe_blocks env" "pn_tail p = t" "pn_head p = ring_ix env t n"
  shows "ring_count env p = n"
proof (cases "t + n < pe_blocks env")
  case True
  then show ?thesis using assms by (simp add: ring_count_def ring_ix_def)
next
  case False
  then have "ring_ix env t n = t + n - pe_blocks env"
    using assms by (simp add: ring_ix_def mod_if)
  then show ?thesis using assms False by (simp add: ring_count_def)
qed

subsection \<open>Entry speeds\<close>

definition entry_of :: "plan_env \<Rightarrow> planner \<Rightarrow> nat \<Rightarrow> real" where
  "entry_of env p j = pb_entry_speed_sqr (block_at p (ring_ix env (pn_tail p) j))"

definition max_of :: "plan_env \<Rightarrow> planner \<Rightarrow> nat \<Rightarrow> real" where
  "max_of env p j = pb_max_entry_speed_sqr (block_at p (ring_ix env (pn_tail p) j))"

definition gain_of :: "plan_env \<Rightarrow> planner \<Rightarrow> nat \<Rightarrow> real" where
  "gain_of env p j = speed_gain (block_at p (ring_ix env (pn_tail p) j))"

text \<open>The planner without what planning computes.\<close>

definition no_entry :: "plan_block \<Rightarrow> plan_block" where
  "no_entry b = b\<lparr>pb_entry_speed_sqr := 0\<rparr>"

definition shape :: "planner \<Rightarrow> planner" where
  "shape p = p\<lparr>pn_buffer := map no_entry (pn_buffer p), pn_planned := 0\<rparr>"

lemma shape_fields:
  assumes "shape p' = shape p"
  shows "pn_tail p' = pn_tail p" "pn_head p' = pn_head p" "pn_next_head p' = pn_next_head p"
    "length (pn_buffer p') = length (pn_buffer p)"
    "ring_count env p' = ring_count env p" "wf_ring env p' = wf_ring env p"
proof -
  have b: "map no_entry (pn_buffer p') = map no_entry (pn_buffer p)"
    using arg_cong [OF assms, of pn_buffer] by (simp add: shape_def)
  have t: "pn_tail p' = pn_tail p" using arg_cong [OF assms, of pn_tail] by (simp add: shape_def)
  have h: "pn_head p' = pn_head p" using arg_cong [OF assms, of pn_head] by (simp add: shape_def)
  have n: "pn_next_head p' = pn_next_head p" using arg_cong [OF assms, of pn_next_head] by (simp add: shape_def)
  have l: "length (pn_buffer p') = length (pn_buffer p)" using b by (metis length_map)
  show "pn_tail p' = pn_tail p" "pn_head p' = pn_head p" "pn_next_head p' = pn_next_head p"
    "length (pn_buffer p') = length (pn_buffer p)" "ring_count env p' = ring_count env p"
    "wf_ring env p' = wf_ring env p"
    by (simp_all add: t h n l ring_count_def wf_ring_def)
qed

lemma shape_block:
  assumes "shape p' = shape p" "i < length (pn_buffer p)"
  shows "no_entry (block_at p' i) = no_entry (block_at p i)"
proof -
  have "map no_entry (pn_buffer p') = map no_entry (pn_buffer p)"
    using arg_cong [OF assms(1), of pn_buffer] by (simp add: shape_def)
  then have "map no_entry (pn_buffer p') ! i = map no_entry (pn_buffer p) ! i" by simp
  then show ?thesis using assms shape_fields(4) [OF assms(1)] by (simp add: block_at_def)
qed

lemma no_entry_fields [simp]:
  "pb_max_entry_speed_sqr (no_entry b) = pb_max_entry_speed_sqr b"
  "speed_gain (no_entry b) = speed_gain b"
  by (simp_all add: no_entry_def speed_gain_def)

lemma shape_speeds:
  assumes "shape p' = shape p" "wf_ring env p"
  shows "max_of env p' j = max_of env p j" "gain_of env p' j = gain_of env p j"
proof -
  have "ring_ix env (pn_tail p) j < length (pn_buffer p)"
    using assms(2) by (simp add: wf_ring_def ring_ix_less)
  then have eq: "no_entry (block_at p' (ring_ix env (pn_tail p') j)) = no_entry (block_at p (ring_ix env (pn_tail p) j))"
    using shape_block [OF assms(1)] shape_fields(1) [OF assms(1)] by simp
  show "max_of env p' j = max_of env p j"
    using arg_cong [OF eq, of pb_max_entry_speed_sqr] by (simp add: max_of_def)
  show "gain_of env p' j = gain_of env p j"
    using arg_cong [OF eq, of speed_gain] by (simp add: gain_of_def)
qed

lemma shape_set_entry [simp]: "shape (set_entry i v p) = shape p"
proof -
  have "no_entry (b\<lparr>pb_entry_speed_sqr := v\<rparr>) = no_entry b" for b
    by (simp add: no_entry_def)
  then have "map no_entry ((pn_buffer p)[i := (pn_buffer p ! i)\<lparr>pb_entry_speed_sqr := v\<rparr>]) = map no_entry (pn_buffer p)"
    by (cases "i < length (pn_buffer p)") (simp_all add: map_update list_update_same_conv list_update_beyond)
  then show ?thesis by (simp add: shape_def set_entry_def set_block_def)
qed

lemma shape_planned [simp]: "shape (p\<lparr>pn_planned := n\<rparr>) = shape p"
  by (simp add: shape_def)

lemma set_entry_fields [simp]:
  "pn_tail (set_entry i v p) = pn_tail p" "pn_head (set_entry i v p) = pn_head p"
  "pn_planned (set_entry i v p) = pn_planned p" "length (pn_buffer (set_entry i v p)) = length (pn_buffer p)"
  by (simp_all add: set_entry_def set_block_def)

lemma entry_set_entry:
  assumes "wf_ring env p" "i < pe_blocks env" "j < pe_blocks env"
  shows "entry_of env (set_entry (ring_ix env (pn_tail p) i) v p) j = (if j = i then v else entry_of env p j)"
  using assms ring_ix_less [of env "pn_tail p"]
  by (simp add: entry_of_def set_entry_def set_block_def block_at_def nth_list_update ring_ix_eq wf_ring_def)

lemma entry_planned [simp]: "entry_of env (p\<lparr>pn_planned := n\<rparr>) j = entry_of env p j"
  by (simp add: entry_of_def block_at_def)

text \<open>The stepper's report of the first block's speed.\<close>

definition reported :: "plan_env \<Rightarrow> real \<Rightarrow> real" where
  "reported env e = (case pe_executing env of None \<Rightarrow> e | Some v \<Rightarrow> fmul v v)"

lemma update_block_shape [simp]:
  "shape (update_plan_block_parameters env p) = shape p"
  "pn_planned (update_plan_block_parameters env p) = pn_planned p"
  "pn_tail (update_plan_block_parameters env p) = pn_tail p"
  by (auto simp: update_plan_block_parameters_def split: option.splits)

lemma entry_update:
  assumes "wf_ring env p" "j < pe_blocks env"
  shows "entry_of env (update_plan_block_parameters env p) j =
     (if j = 0 then reported env (entry_of env p 0) else entry_of env p j)"
proof -
  have "pn_tail p = ring_ix env (pn_tail p) 0" using assms(1) by (simp add: wf_ring_def ring_ix_0)
  then have set: "entry_of env (set_entry (pn_tail p) v p) j = (if j = 0 then v else entry_of env p j)" for v
    using entry_set_entry [of env p 0 j v] assms by (simp add: wf_ring_def)
  show ?thesis
    by (cases "pe_executing env"; cases "j = 0") (use set in \<open>simp_all add: update_plan_block_parameters_def reported_def\<close>)
qed

end
