(* ===== verification/PlannerPlan.thy ===== *)
theory PlannerPlan
  imports PlannerRing
begin

text \<open>
  The plan can be carried out: every pending block can be braked from its entry speed to that of
  the next one, the last to a stop, and accelerated from its own to the next. The passes of
  \<open>planner_recalculate\<close> end and keep it so.
\<close>

subsection \<open>The arithmetic of the plan\<close>

lemma fadd_mono: "x \<le> y \<Longrightarrow> fadd x g \<le> fadd y g"
  by (simp add: fadd_def f32_mono)

lemma fadd_increases: "is_f32 x \<Longrightarrow> 0 \<le> g \<Longrightarrow> x \<le> fadd x g"
  by (simp add: fadd_def f32_ge_bound)

lemma reverse_entry_def':
  "pb_entry_speed_sqr c \<le> pb_max_entry_speed_sqr c \<Longrightarrow>
   reverse_entry c n = (if pb_entry_speed_sqr c = pb_max_entry_speed_sqr c then pb_max_entry_speed_sqr c
      else min (fadd (pb_entry_speed_sqr n) (speed_gain c)) (pb_max_entry_speed_sqr c))"
  by (simp add: reverse_entry_def Let_def min_def not_less)

text \<open>
  The speed at which a block is gone through from: its entry speed, or the speed the stepper has
  already inside the first block.
\<close>

definition speed_in :: "plan_env \<Rightarrow> planner \<Rightarrow> nat \<Rightarrow> real" where
  "speed_in env p i = (if i = 0 then reported env (entry_of env p 0) else entry_of env p i)"

definition can_brake :: "plan_env \<Rightarrow> planner \<Rightarrow> nat \<Rightarrow> bool" where
  "can_brake env p i \<longleftrightarrow>
     (if Suc i < ring_count env p then speed_in env p i \<le> fadd (entry_of env p (Suc i)) (gain_of env p i)
      else speed_in env p i \<le> gain_of env p i)"

definition can_reach :: "plan_env \<Rightarrow> planner \<Rightarrow> nat \<Rightarrow> bool" where
  "can_reach env p i \<longleftrightarrow> (Suc i < ring_count env p \<longrightarrow>
     entry_of env p (Suc i) \<le> fadd (speed_in env p i) (gain_of env p i))"

lemma speed_in_later [simp]: "0 < i \<Longrightarrow> speed_in env p i = entry_of env p i"
  by (simp add: speed_in_def)

lemma reported_reported [simp]: "reported env (reported env x) = reported env x"
  by (simp add: reported_def split: option.splits)

lemma reported_sound: "is_f32 x \<Longrightarrow> 0 \<le> x \<Longrightarrow> is_f32 (reported env x) \<and> 0 \<le> reported env x"
  by (auto simp: reported_def fmul_def f32_nonneg split: option.splits)

text \<open>The speeds of a block are values of type float and not negative.\<close>

definition sound_block :: "plan_block \<Rightarrow> bool" where
  "sound_block b \<longleftrightarrow> is_f32 (pb_entry_speed_sqr b) \<and> is_f32 (pb_max_entry_speed_sqr b)
     \<and> 0 \<le> pb_entry_speed_sqr b \<and> 0 \<le> pb_max_entry_speed_sqr b \<and> 0 \<le> speed_gain b"

definition sound_ring :: "plan_env \<Rightarrow> planner \<Rightarrow> bool" where
  "sound_ring env p \<longleftrightarrow> (\<forall>j<ring_count env p. sound_block (block_at p (ring_ix env (pn_tail p) j)))"

lemma sound_ringD:
  assumes "sound_ring env p" "j < ring_count env p"
  shows "is_f32 (entry_of env p j)" "is_f32 (max_of env p j)" "0 \<le> entry_of env p j"
    "0 \<le> max_of env p j" "0 \<le> gain_of env p j"
  using assms by (auto simp: sound_ring_def sound_block_def entry_of_def max_of_def gain_of_def)

lemma is_f32_gain [simp]: "is_f32 (gain_of env p j)"
  by (simp add: gain_of_def speed_gain_def)

lemma sound_ringI:
  assumes "\<And>j. j < ring_count env p \<Longrightarrow> is_f32 (entry_of env p j) \<and> 0 \<le> entry_of env p j
      \<and> is_f32 (max_of env p j) \<and> 0 \<le> max_of env p j \<and> 0 \<le> gain_of env p j"
  shows "sound_ring env p"
  using assms by (auto simp: sound_ring_def sound_block_def entry_of_def max_of_def gain_of_def)

subsection \<open>The reverse pass\<close>

text \<open>One round of the loop, at block \<open>Suc m\<close>.\<close>

definition reverse_round :: "plan_env \<Rightarrow> nat \<Rightarrow> planner \<Rightarrow> planner" where
  "reverse_round env m p =
     (let t = pn_tail p;
          p = (if m = 0 then update_plan_block_parameters env p else p)
      in set_entry (ring_ix env t (Suc m))
           (reverse_entry (block_at p (ring_ix env t (Suc m))) (block_at p (ring_ix env t (Suc (Suc m))))) p)"

lemma ring_count_blocks: "wf_ring env p \<Longrightarrow> ring_count env p < pe_blocks env"
  by (simp add: ring_count_less wf_ring_blocks)

lemma reverse_round_shape:
  assumes "shape q = shape p"
  shows "shape (reverse_round env m q) = shape p"
  using assms by (simp add: reverse_round_def Let_def)

lemma reverse_round_planned [simp]:
  "pn_planned (reverse_round env m p) = pn_planned p" "pn_tail (reverse_round env m p) = pn_tail p"
  by (simp_all add: reverse_round_def Let_def)

lemma reverse_round_entry:
  assumes wf: "wf_ring env p" and m: "Suc (Suc m) < ring_count env p" and i: "i < ring_count env p"
    and le: "entry_of env p (Suc m) \<le> max_of env p (Suc m)"
  shows "entry_of env (reverse_round env m p) i =
     (if i = Suc m then
        (if entry_of env p (Suc m) = max_of env p (Suc m) then max_of env p (Suc m)
         else min (fadd (entry_of env p (Suc (Suc m))) (gain_of env p (Suc m))) (max_of env p (Suc m)))
      else if i = 0 \<and> m = 0 then reported env (entry_of env p 0) else entry_of env p i)"
proof -
  define q where "q = (if m = 0 then update_plan_block_parameters env p else p)"
  have q: "shape q = shape p" "pn_tail q = pn_tail p" by (simp_all add: q_def)
  have wfq: "wf_ring env q" using shape_fields(6) [OF q(1)] wf by blast
  have lt: "i < pe_blocks env" "Suc m < pe_blocks env" "Suc (Suc m) < pe_blocks env"
    using i m ring_count_blocks [OF wf] by auto
  have e: "entry_of env q n = (if n = 0 \<and> m = 0 then reported env (entry_of env p 0) else entry_of env p n)"
    if "n < pe_blocks env" for n
    using entry_update [OF wf that] by (cases "n = 0") (simp_all add: q_def)
  have sp: "max_of env q n = max_of env p n" "gain_of env q n = gain_of env p n" for n
    using shape_speeds [OF q(1) wf] by auto
  define b where "b = block_at q (ring_ix env (pn_tail q) (Suc m))"
  define n where "n = block_at q (ring_ix env (pn_tail q) (Suc (Suc m)))"
  have b: "pb_entry_speed_sqr b = entry_of env p (Suc m)" "pb_max_entry_speed_sqr b = max_of env p (Suc m)"
    "speed_gain b = gain_of env p (Suc m)" "pb_entry_speed_sqr n = entry_of env p (Suc (Suc m))"
    using e [OF lt(2)] e [OF lt(3)] sp by (simp_all add: b_def n_def entry_of_def max_of_def gain_of_def)
  have "reverse_round env m p = set_entry (ring_ix env (pn_tail q) (Suc m)) (reverse_entry b n) q"
    by (simp add: reverse_round_def Let_def b_def n_def q_def)
  moreover have "reverse_entry b n = (if entry_of env p (Suc m) = max_of env p (Suc m) then max_of env p (Suc m)
         else min (fadd (entry_of env p (Suc (Suc m))) (gain_of env p (Suc m))) (max_of env p (Suc m)))"
    using le by (simp add: reverse_entry_def' b)
  ultimately show ?thesis
    using entry_set_entry [OF wfq lt(2) lt(1)] e [OF lt(1)] by simp
qed

text \<open>A round raises its block, at most to its maximum, and the block stays braked for.\<close>

lemma reverse_round_raises:
  assumes wf: "wf_ring env p" and m: "Suc (Suc m) < ring_count env p" and s: "sound_ring env p"
    and le: "entry_of env p (Suc m) \<le> max_of env p (Suc m)" and br: "can_brake env p (Suc m)"
  shows "entry_of env p (Suc m) \<le> entry_of env (reverse_round env m p) (Suc m)"
    "entry_of env (reverse_round env m p) (Suc m) \<le> max_of env p (Suc m)"
    "can_brake env (reverse_round env m p) (Suc m)" "sound_ring env (reverse_round env m p)"
proof -
  let ?q = "reverse_round env m p"
  have sh: "shape ?q = shape p" by (rule reverse_round_shape) simp
  have e: "i < ring_count env p \<Longrightarrow> entry_of env ?q i =
     (if i = Suc m then
        (if entry_of env p (Suc m) = max_of env p (Suc m) then max_of env p (Suc m)
         else min (fadd (entry_of env p (Suc (Suc m))) (gain_of env p (Suc m))) (max_of env p (Suc m)))
      else if i = 0 \<and> m = 0 then reported env (entry_of env p 0) else entry_of env p i)" for i
    using reverse_round_entry [OF wf m _ le] .
  have br': "entry_of env p (Suc m) \<le> fadd (entry_of env p (Suc (Suc m))) (gain_of env p (Suc m))"
    using br m by (simp add: can_brake_def)
  show 1: "entry_of env p (Suc m) \<le> entry_of env ?q (Suc m)" using e [of "Suc m"] m br' le by simp
  show "entry_of env ?q (Suc m) \<le> max_of env p (Suc m)" using e [of "Suc m"] m by simp
  show "can_brake env ?q (Suc m)"
    using e [of "Suc m"] e [of "Suc (Suc m)"] m br' shape_fields(5) [OF sh] shape_speeds(2) [OF sh wf]
    by (auto simp: can_brake_def)
  show "sound_ring env ?q"
  proof (rule sound_ringI)
    fix j assume "j < ring_count env ?q"
    then have j: "j < ring_count env p" using shape_fields(5) [OF sh] by simp
    have "0 \<le> fadd (entry_of env p (Suc (Suc m))) (gain_of env p (Suc m))"
      using sound_ringD [OF s] m by (simp add: fadd_def f32_nonneg)
    then show "is_f32 (entry_of env ?q j) \<and> 0 \<le> entry_of env ?q j
        \<and> is_f32 (max_of env ?q j) \<and> 0 \<le> max_of env ?q j \<and> 0 \<le> gain_of env ?q j"
      using e [OF j] sound_ringD [OF s j] sound_ringD [OF s, of 0] reported_sound j m
      by (auto simp: shape_speeds [OF sh wf] min_def)
  qed
qed

text \<open>
  The walk from block \<open>j\<close> down to the planned block \<open>k\<close>: the blocks in between are raised, at
  most to their maximum, and stay braked for; the others do not change, apart from the report of
  the stepper on the first.
\<close>

lemma reverse_pass_raises:
  assumes "wf_ring env p" "planned_at env p k" "k \<le> j" "Suc j < ring_count env p" "j - k < fuel"
    and "sound_ring env p"
    and "\<And>i. k < i \<Longrightarrow> i \<le> j \<Longrightarrow> entry_of env p i \<le> max_of env p i \<and> can_brake env p i"
  shows "\<exists>p'. reverse_pass fuel env (ring_ix env (pn_tail p) (Suc j)) (ring_ix env (pn_tail p) j) p = Some p'
     \<and> shape p' = shape p \<and> pn_planned p' = pn_planned p \<and> sound_ring env p'
     \<and> (\<forall>i<ring_count env p. i \<le> k \<or> j < i \<longrightarrow> entry_of env p' i =
          (if i = 0 \<and> k = 0 \<and> 0 < j then reported env (entry_of env p 0) else entry_of env p i))
     \<and> (\<forall>i. k < i \<and> i \<le> j \<longrightarrow> entry_of env p i \<le> entry_of env p' i \<and> entry_of env p' i \<le> max_of env p i
          \<and> can_brake env p' i)"
  using assms
proof (induction fuel arbitrary: j p)
  case 0
  then show ?case by simp
next
  case (Suc fuel)
  note wf = Suc.prems(1) and s = Suc.prems(6)
  have lt: "Suc j < pe_blocks env" using Suc.prems(4) ring_count_blocks [OF wf] by simp
  have at_k: "ring_ix env (pn_tail p) j = pn_planned p \<longleftrightarrow> j = k"
    using Suc.prems(2,3) lt by (simp add: planned_at_def ring_ix_eq)
  show ?case
  proof (cases "j = k")
    case True
    then show ?thesis using at_k s by (intro exI [of _ p]) auto
  next
    case False
    then obtain m where m: "j = Suc m" "k \<le> m" using Suc.prems(3) by (cases j) auto
    let ?q = "reverse_round env m p"
    have sh: "shape ?q = shape p" by (rule reverse_round_shape) simp
    have mm: "Suc (Suc m) < ring_count env p" using Suc.prems(4) m by simp
    have lb: "entry_of env p (Suc m) \<le> max_of env p (Suc m)" "can_brake env p (Suc m)"
      using Suc.prems(7) [of j] m by auto
    note r = reverse_round_raises [OF wf mm s lb]
    have e: "entry_of env ?q i = (if i = 0 \<and> m = 0 then reported env (entry_of env p 0) else entry_of env p i)"
      if "i < ring_count env p" "i \<noteq> Suc m" for i
      using reverse_round_entry [OF wf mm that(1) lb(1)] that(2) by simp
    have tail: "ring_ix env (pn_tail p) m = pn_tail p \<longleftrightarrow> m = 0"
      using ring_ix_eq [of m env 0 "pn_tail p"] lt m wf by (simp add: ring_ix_0 wf_ring_def)
    have step: "reverse_pass (Suc fuel) env (ring_ix env (pn_tail p) (Suc j)) (ring_ix env (pn_tail p) j) p =
        reverse_pass fuel env (ring_ix env (pn_tail p) (Suc m)) (ring_ix env (pn_tail p) m) ?q"
      using at_k False m tail prev_ix [OF wf_ring_blocks [OF wf]]
      by (simp add: reverse_round_def Let_def)
    have q7: "entry_of env ?q i \<le> max_of env ?q i \<and> can_brake env ?q i" if i: "k < i" "i \<le> m" for i
    proof -
      have old: "entry_of env p i \<le> max_of env p i" "can_brake env p i" using Suc.prems(7) i m by auto
      have "entry_of env p (Suc i) \<le> entry_of env ?q (Suc i)"
        using r(1) e [of "Suc i"] i mm by (cases "i = m") auto
      then have "fadd (entry_of env p (Suc i)) (gain_of env p i) \<le> fadd (entry_of env ?q (Suc i)) (gain_of env p i)"
        by (rule fadd_mono)
      then show ?thesis
        using old e [of i] i mm shape_fields(5) [OF sh] shape_speeds [OF sh wf]
        by (auto simp: can_brake_def)
    qed
    have "\<exists>p'. reverse_pass fuel env (ring_ix env (pn_tail ?q) (Suc m)) (ring_ix env (pn_tail ?q) m) ?q = Some p'
     \<and> shape p' = shape ?q \<and> pn_planned p' = pn_planned ?q \<and> sound_ring env p'
     \<and> (\<forall>i<ring_count env ?q. i \<le> k \<or> m < i \<longrightarrow> entry_of env p' i =
          (if i = 0 \<and> k = 0 \<and> 0 < m then reported env (entry_of env ?q 0) else entry_of env ?q i))
     \<and> (\<forall>i. k < i \<and> i \<le> m \<longrightarrow> entry_of env ?q i \<le> entry_of env p' i \<and> entry_of env p' i \<le> max_of env ?q i
          \<and> can_brake env p' i)"
    proof (rule Suc.IH)
      show "wf_ring env ?q" using shape_fields(6) [OF sh] wf by simp
      show "planned_at env ?q k" using Suc.prems(2) shape_fields(5) [OF sh] by (simp add: planned_at_def)
      show "k \<le> m" by (rule m)
      show "Suc m < ring_count env ?q" using mm shape_fields(5) [OF sh] by simp
      show "m - k < fuel" using Suc.prems(5) m by simp
      show "sound_ring env ?q" by (rule r)
    qed (rule q7)
    then obtain p' where p': "reverse_pass fuel env (ring_ix env (pn_tail p) (Suc m)) (ring_ix env (pn_tail p) m) ?q = Some p'"
      "shape p' = shape p" "pn_planned p' = pn_planned p" "sound_ring env p'"
      and keep': "\<forall>i<ring_count env p. i \<le> k \<or> m < i \<longrightarrow> entry_of env p' i =
          (if i = 0 \<and> k = 0 \<and> 0 < m then reported env (entry_of env ?q 0) else entry_of env ?q i)"
      and up': "\<forall>i. k < i \<and> i \<le> m \<longrightarrow> entry_of env ?q i \<le> entry_of env p' i \<and> entry_of env p' i \<le> max_of env p i
          \<and> can_brake env p' i"
      unfolding sh shape_fields(5) [OF sh] shape_speeds [OF sh wf] reverse_round_planned by blast
    have keep: "entry_of env p' i =
          (if i = 0 \<and> k = 0 \<and> 0 < m then reported env (entry_of env ?q 0) else entry_of env ?q i)"
      if "i < ring_count env p" "i \<le> k \<or> m < i" for i using keep' that by blast
    have up: "entry_of env ?q i \<le> entry_of env p' i \<and> entry_of env p' i \<le> max_of env p i
          \<and> can_brake env p' i" if "k < i" "i \<le> m" for i using up' that by blast
    have kept: "\<forall>i<ring_count env p. i \<le> k \<or> j < i \<longrightarrow> entry_of env p' i =
          (if i = 0 \<and> k = 0 \<and> 0 < j then reported env (entry_of env p 0) else entry_of env p i)"
      using keep e m mm by auto
    have raised: "entry_of env p i \<le> entry_of env p' i \<and> entry_of env p' i \<le> max_of env p i \<and> can_brake env p' i"
      if i: "k < i" "i \<le> j" for i
    proof (cases "i = j")
      case True
      have "entry_of env p' j = entry_of env ?q j" "entry_of env p' (Suc j) = entry_of env ?q (Suc j)"
        using keep [of j] keep [of "Suc j"] mm m by auto
      then show ?thesis
        using r(1,2,3) True m shape_fields(5) [OF p'(2)] shape_speeds [OF p'(2) wf]
          shape_fields(5) [OF sh] shape_speeds [OF sh wf] by (auto simp: can_brake_def)
    next
      case False
      then have "k < i" "i \<le> m" using i m by auto
      then show ?thesis using up [of i] e [of i] mm by auto
    qed
    show ?thesis
      using step p' kept raised by (intro exI [of _ p']) auto
  qed
qed

subsection \<open>The forward pass\<close>

lemma forward_step_shape [simp]: "shape (forward_step c n p) = shape p"
  by (auto simp: forward_step_def Let_def split: option.splits)

lemma forward_step_tail [simp]: "pn_tail (forward_step c n p) = pn_tail p"
  using shape_fields(1) [OF forward_step_shape] .

lemma forward_step_planned:
  "pn_planned (forward_step c n p) = pn_planned p \<or> pn_planned (forward_step c n p) = n"
  by (auto simp: forward_step_def Let_def split: option.splits)

lemma block_planned [simp]: "block_at (p\<lparr>pn_planned := n\<rparr>) i = block_at p i"
  by (simp add: block_at_def)

lemma forward_step_entry:
  assumes wf: "wf_ring env p" and j: "Suc j < ring_count env p" and i: "i < ring_count env p"
  shows "entry_of env (forward_step (ring_ix env (pn_tail p) j) (ring_ix env (pn_tail p) (Suc j)) p) i =
     (if i = Suc j \<and> entry_of env p j < entry_of env p (Suc j)
      then min (fadd (entry_of env p j) (gain_of env p j)) (entry_of env p (Suc j))
      else entry_of env p i)"
proof -
  have lt: "i < pe_blocks env" "Suc j < pe_blocks env" using i j ring_count_blocks [OF wf] by auto
  let ?c = "block_at p (ring_ix env (pn_tail p) j)" and ?n = "block_at p (ring_ix env (pn_tail p) (Suc j))"
  have f: "forward_entry ?c ?n = (if entry_of env p j < entry_of env p (Suc j)
        \<and> fadd (entry_of env p j) (gain_of env p j) < entry_of env p (Suc j)
      then Some (fadd (entry_of env p j) (gain_of env p j)) else None)"
    by (simp add: forward_entry_def Let_def entry_of_def gain_of_def)
  define q where "q = (case forward_entry ?c ?n of
      Some e \<Rightarrow> (set_entry (ring_ix env (pn_tail p) (Suc j)) e p)\<lparr>pn_planned := ring_ix env (pn_tail p) (Suc j)\<rparr>
    | None \<Rightarrow> p)"
  have "entry_of env (forward_step (ring_ix env (pn_tail p) j) (ring_ix env (pn_tail p) (Suc j)) p) i = entry_of env q i"
    by (simp add: forward_step_def q_def Let_def)
  moreover have "entry_of env q i = (if i = Suc j \<and> entry_of env p j < entry_of env p (Suc j)
      then min (fadd (entry_of env p j) (gain_of env p j)) (entry_of env p (Suc j))
      else entry_of env p i)"
    using entry_set_entry [OF wf lt(2) lt(1)] by (auto simp: q_def f min_def)
  ultimately show ?thesis by simp
qed

text \<open>After a step the two blocks match: the second is within reach, and the first can brake for it.\<close>

lemma forward_step_lowers:
  assumes wf: "wf_ring env p" and j: "Suc j < ring_count env p" and s: "sound_ring env p"
    and br: "can_brake env p j" and live: "speed_in env p j = entry_of env p j"
  defines "q \<equiv> forward_step (ring_ix env (pn_tail p) j) (ring_ix env (pn_tail p) (Suc j)) p"
  shows "can_brake env q j" "can_reach env q j" "sound_ring env q"
    "i < ring_count env p \<Longrightarrow> entry_of env q i \<le> entry_of env p i"
    "i < ring_count env p \<Longrightarrow> i \<noteq> Suc j \<Longrightarrow> entry_of env q i = entry_of env p i"
proof -
  have sh: "shape q = shape p" by (simp add: q_def)
  have e: "i < ring_count env p \<Longrightarrow> entry_of env q i =
     (if i = Suc j \<and> entry_of env p j < entry_of env p (Suc j)
      then min (fadd (entry_of env p j) (gain_of env p j)) (entry_of env p (Suc j))
      else entry_of env p i)" for i
    unfolding q_def by (rule forward_step_entry [OF wf j])
  have inc: "x \<le> fadd x (gain_of env p j)" if "is_f32 x" for x
    using fadd_increases [OF that] sound_ringD [OF s, of j] j by simp
  have c: "is_f32 (entry_of env p j)" "0 \<le> entry_of env p j" "0 \<le> gain_of env p j" using sound_ringD [OF s, of j] j by auto
  have add: "is_f32 (fadd x g)" "0 \<le> x \<Longrightarrow> 0 \<le> g \<Longrightarrow> 0 \<le> fadd x g" for x g
    by (auto simp: fadd_def f32_nonneg)
  have br': "entry_of env p j \<le> fadd (entry_of env p (Suc j)) (gain_of env p j)"
    using br j live by (simp add: can_brake_def)
  have "entry_of env q j = entry_of env p j" using e [of j] j by simp
  then have liveq: "speed_in env q j = entry_of env p j" using live by (cases j) (simp_all add: speed_in_def)
  have twice: "entry_of env p j \<le> fadd (fadd (entry_of env p j) (gain_of env p j)) (gain_of env p j)"
    using inc [OF c(1)] inc [OF add(1)] by (rule order_trans)
  show "can_brake env q j"
    using liveq e [of "Suc j"] j br' twice shape_fields(5) [OF sh] shape_speeds(2) [OF sh wf]
    by (auto simp: can_brake_def min_def)
  show "can_reach env q j"
    using liveq e [of "Suc j"] j inc [OF c(1)] shape_fields(5) [OF sh] shape_speeds(2) [OF sh wf]
    by (auto simp: can_reach_def min_def)
  show "i < ring_count env p \<Longrightarrow> entry_of env q i \<le> entry_of env p i" using e [of i] by (auto simp: min_def)
  show "i < ring_count env p \<Longrightarrow> i \<noteq> Suc j \<Longrightarrow> entry_of env q i = entry_of env p i" using e [of i] by auto
  show "sound_ring env q"
  proof (rule sound_ringI)
    fix i assume "i < ring_count env q"
    then have i: "i < ring_count env p" using shape_fields(5) [OF sh] by simp
    show "is_f32 (entry_of env q i) \<and> 0 \<le> entry_of env q i
        \<and> is_f32 (max_of env q i) \<and> 0 \<le> max_of env q i \<and> 0 \<le> gain_of env q i"
      using e [OF i] sound_ringD [OF s i] sound_ringD [OF s j] c add(2) [OF c(2,3)]
      by (auto simp: shape_speeds [OF sh wf] min_def)
  qed
qed

lemma can_brake_cong:
  "\<lbrakk>ring_count env q = ring_count env p; gain_of env q i = gain_of env p i;
    entry_of env q i = entry_of env p i; Suc i < ring_count env p \<Longrightarrow> entry_of env q (Suc i) = entry_of env p (Suc i)\<rbrakk>
   \<Longrightarrow> can_brake env q i = can_brake env p i"
  by (cases i) (simp_all add: can_brake_def speed_in_def)

lemma can_reach_cong:
  "\<lbrakk>ring_count env q = ring_count env p; gain_of env q i = gain_of env p i;
    entry_of env q i = entry_of env p i; Suc i < ring_count env p \<Longrightarrow> entry_of env q (Suc i) = entry_of env p (Suc i)\<rbrakk>
   \<Longrightarrow> can_reach env q i = can_reach env p i"
  by (cases i) (simp_all add: can_reach_def speed_in_def)

lemma forward_pass_lowers:
  assumes "wf_ring env p" "j < ring_count env p" "ring_count env p - j \<le> fuel" "sound_ring env p"
    and "\<And>i. j \<le> i \<Longrightarrow> i < ring_count env p \<Longrightarrow> can_brake env p i"
    and "speed_in env p j = entry_of env p j"
  shows "\<exists>p'. forward_pass fuel env (ring_ix env (pn_tail p) j) (ring_ix env (pn_tail p) (Suc j)) p = Some p'
     \<and> shape p' = shape p \<and> sound_ring env p'
     \<and> (pn_planned p' = pn_planned p \<or> (\<exists>k<ring_count env p. pn_planned p' = ring_ix env (pn_tail p) k))
     \<and> (\<forall>i\<le>j. entry_of env p' i = entry_of env p i)
     \<and> (\<forall>i<ring_count env p. entry_of env p' i \<le> entry_of env p i)
     \<and> (\<forall>i. j \<le> i \<and> i < ring_count env p \<longrightarrow> can_brake env p' i \<and> can_reach env p' i)"
  using assms
proof (induction fuel arbitrary: j p)
  case 0
  then show ?case by simp
next
  case (Suc fuel)
  note wf = Suc.prems(1) and s = Suc.prems(4)
  have lt: "Suc j < pe_blocks env \<or> Suc j = ring_count env p" "ring_count env p < pe_blocks env"
    using Suc.prems(2) ring_count_blocks [OF wf] by auto
  have at_head: "ring_ix env (pn_tail p) (Suc j) = pn_head p \<longleftrightarrow> Suc j = ring_count env p"
    using lt head_ix [OF wf] ring_ix_eq [of "Suc j" env "ring_count env p" "pn_tail p"] by auto
  show ?case
  proof (cases "Suc j = ring_count env p")
    case True
    have "can_reach env p i" if "j \<le> i" "i < ring_count env p" for i
      using that True by (simp add: can_reach_def)
    then show ?thesis using at_head True s Suc.prems(5) by (intro exI [of _ p]) auto
  next
    case False
    then have j: "Suc j < ring_count env p" using Suc.prems(2) by simp
    define q where "q = forward_step (ring_ix env (pn_tail p) j) (ring_ix env (pn_tail p) (Suc j)) p"
    have br: "can_brake env p j" using Suc.prems(5) [of j] j by simp
    note st = forward_step_lowers [OF wf j s br Suc.prems(6), folded q_def]
    have sh: "shape q = shape p" and tl: "pn_tail q = pn_tail p" by (simp_all add: q_def)
    have step: "forward_pass (Suc fuel) env (ring_ix env (pn_tail p) j) (ring_ix env (pn_tail p) (Suc j)) p =
        forward_pass fuel env (ring_ix env (pn_tail q) (Suc j)) (ring_ix env (pn_tail q) (Suc (Suc j))) q"
      using at_head False next_ix [OF wf_ring_blocks [OF wf]] by (simp add: q_def)
    have qbr: "can_brake env q i" if i: "Suc j \<le> i" "i < ring_count env p" for i
    proof -
      have "can_brake env p i" using Suc.prems(5) i by simp
      then show ?thesis
        using st(4) [of i] st(5) [of "Suc i"] i shape_fields(5) [OF sh] shape_speeds(2) [OF sh wf]
        by (auto simp: can_brake_def)
    qed
    have "\<exists>p'. forward_pass fuel env (ring_ix env (pn_tail q) (Suc j)) (ring_ix env (pn_tail q) (Suc (Suc j))) q = Some p'
     \<and> shape p' = shape q \<and> sound_ring env p'
     \<and> (pn_planned p' = pn_planned q \<or> (\<exists>k<ring_count env q. pn_planned p' = ring_ix env (pn_tail q) k))
     \<and> (\<forall>i\<le>Suc j. entry_of env p' i = entry_of env q i)
     \<and> (\<forall>i<ring_count env q. entry_of env p' i \<le> entry_of env q i)
     \<and> (\<forall>i. Suc j \<le> i \<and> i < ring_count env q \<longrightarrow> can_brake env p' i \<and> can_reach env p' i)"
    proof (rule Suc.IH)
      show "wf_ring env q" using shape_fields(6) [OF sh] wf by simp
      show "Suc j < ring_count env q" using j shape_fields(5) [OF sh] by simp
      show "ring_count env q - Suc j \<le> fuel" using Suc.prems(3) shape_fields(5) [OF sh] by simp
      show "sound_ring env q" by (rule st)
      show "\<And>i. Suc j \<le> i \<Longrightarrow> i < ring_count env q \<Longrightarrow> can_brake env q i" using qbr shape_fields(5) [OF sh] by simp
      show "speed_in env q (Suc j) = entry_of env q (Suc j)" by simp
    qed
    then obtain p' where p': "forward_pass fuel env (ring_ix env (pn_tail q) (Suc j)) (ring_ix env (pn_tail q) (Suc (Suc j))) q = Some p'"
      "shape p' = shape p" "sound_ring env p'"
      and pl: "pn_planned p' = pn_planned q \<or> (\<exists>k<ring_count env p. pn_planned p' = ring_ix env (pn_tail p) k)"
      and same: "\<forall>i\<le>Suc j. entry_of env p' i = entry_of env q i"
      and low: "\<forall>i<ring_count env p. entry_of env p' i \<le> entry_of env q i"
      and ok: "\<forall>i. Suc j \<le> i \<and> i < ring_count env p \<longrightarrow> can_brake env p' i \<and> can_reach env p' i"
      unfolding sh shape_fields(5) [OF sh] tl by blast
    have planned: "pn_planned p' = pn_planned p \<or> (\<exists>k<ring_count env p. pn_planned p' = ring_ix env (pn_tail p) k)"
      using pl forward_step_planned j unfolding q_def by metis
    have sp: "ring_count env p' = ring_count env q" "gain_of env p' i = gain_of env q i" for i
      using shape_fields(5) [OF p'(2)] shape_fields(5) [OF sh] shape_speeds [OF p'(2) wf] shape_speeds [OF sh wf] by auto
    have here: "can_brake env p' j \<and> can_reach env p' j"
      using can_brake_cong [OF sp(1) sp(2)] can_reach_cong [OF sp(1) sp(2)] same st(1,2) by auto
    have all: "can_brake env p' i \<and> can_reach env p' i" if "j \<le> i" "i < ring_count env p" for i
      using here ok that by (cases "i = j") auto
    have lower: "entry_of env p' i \<le> entry_of env p i" if "i < ring_count env p" for i
      using low st(4) [OF that] that order_trans by blast
    have keep: "entry_of env p' i = entry_of env p i" if "i \<le> j" for i
      using same st(5) [of i] that j by auto
    show ?thesis
      using step p' planned all lower keep by (intro exI [of _ p']) auto
  qed
qed

subsection \<open>Recalculation\<close>

text \<open>A plan the machine can carry out.\<close>

definition feasible :: "plan_env \<Rightarrow> planner \<Rightarrow> bool" where
  "feasible env p \<longleftrightarrow> sound_ring env p
     \<and> (\<forall>i<ring_count env p. can_brake env p i \<and> can_reach env p i)
     \<and> (\<forall>i<ring_count env p. 0 < i \<longrightarrow> entry_of env p i \<le> max_of env p i)"

text \<open>The last block is planned to brake to a stop.\<close>

definition plan_last :: "plan_env \<Rightarrow> planner \<Rightarrow> planner" where
  "plan_last env p =
     (let c = ring_ix env (pn_tail p) (ring_count env p - 1); b = block_at p c
      in set_entry c (let e = speed_gain b
           in if pb_max_entry_speed_sqr b < e then pb_max_entry_speed_sqr b else e) p)"

lemma plan_last_entry:
  assumes wf: "wf_ring env p" and i: "i < ring_count env p"
  shows "entry_of env (plan_last env p) i =
    (if Suc i = ring_count env p then min (max_of env p i) (gain_of env p i) else entry_of env p i)"
proof -
  have lt: "i < pe_blocks env" "ring_count env p - 1 < pe_blocks env" using i ring_count_blocks [OF wf] by auto
  show ?thesis
    using entry_set_entry [OF wf lt(2) lt(1)] i
    by (auto simp: plan_last_def Let_def max_of_def gain_of_def min_def)
qed

lemma plan_last_shape: "shape (plan_last env p) = shape p"
  by (simp add: plan_last_def Let_def)

lemma plan_last_planned [simp]:
  "pn_planned (plan_last env p) = pn_planned p" "pn_tail (plan_last env p) = pn_tail p"
  by (simp_all add: plan_last_def Let_def)

lemma plan_last_raises:
  assumes wf: "wf_ring env p" and n: "0 < ring_count env p" and s: "sound_ring env p"
    and le: "1 < ring_count env p \<Longrightarrow> \<forall>i<ring_count env p. 0 < i \<longrightarrow> entry_of env p i \<le> max_of env p i"
    and br: "\<forall>i<ring_count env p. can_brake env p i" and two: "1 < ring_count env p"
  defines "q \<equiv> plan_last env p"
  shows "sound_ring env q"
    "\<forall>i<ring_count env p. 0 < i \<longrightarrow> entry_of env q i \<le> max_of env p i"
    "\<forall>i<ring_count env p. can_brake env q i"
    "\<forall>i<ring_count env p. entry_of env p i \<le> entry_of env q i"
proof -
  have sh: "shape q = shape p" by (simp add: q_def plan_last_shape)
  have e: "i < ring_count env p \<Longrightarrow> entry_of env q i =
    (if Suc i = ring_count env p then min (max_of env p i) (gain_of env p i) else entry_of env p i)" for i
    unfolding q_def by (rule plan_last_entry [OF wf])
  show "sound_ring env q"
  proof (rule sound_ringI)
    fix i assume "i < ring_count env q"
    then have i: "i < ring_count env p" using shape_fields(5) [OF sh] by simp
    show "is_f32 (entry_of env q i) \<and> 0 \<le> entry_of env q i
        \<and> is_f32 (max_of env q i) \<and> 0 \<le> max_of env q i \<and> 0 \<le> gain_of env q i"
      using e [OF i] sound_ringD [OF s i] by (auto simp: shape_speeds [OF sh wf] min_def)
  qed
  show "\<forall>i<ring_count env p. 0 < i \<longrightarrow> entry_of env q i \<le> max_of env p i" using e le two by auto
  show up: "\<forall>i<ring_count env p. entry_of env p i \<le> entry_of env q i"
  proof (intro allI impI)
    fix i assume i: "i < ring_count env p"
    show "entry_of env p i \<le> entry_of env q i"
    proof (cases "Suc i = ring_count env p")
      case True
      then have "can_brake env p i" "entry_of env p i \<le> max_of env p i" using br le two i by auto
      moreover have "0 < i" using True two by simp
      ultimately show ?thesis using e [OF i] True by (simp add: can_brake_def)
    next
      case False
      then show ?thesis using e [OF i] by simp
    qed
  qed
  show "\<forall>i<ring_count env p. can_brake env q i"
  proof (intro allI impI)
    fix i assume i: "i < ring_count env p"
    then have b: "can_brake env p i" using br by blast
    show "can_brake env q i"
    proof (cases "Suc i = ring_count env p")
      case True
      then have "0 < i" using two by simp
      then show ?thesis using True e [OF i] shape_fields(5) [OF sh] shape_speeds [OF sh wf]
        by (simp add: can_brake_def)
    next
      case False
      then have si: "Suc i < ring_count env p" using i by simp
      then have "fadd (entry_of env p (Suc i)) (gain_of env p i) \<le> fadd (entry_of env q (Suc i)) (gain_of env p i)"
        using up fadd_mono by blast
      moreover have "speed_in env q i = speed_in env p i" using e [OF i] si by (cases i) (simp_all add: speed_in_def)
      ultimately show ?thesis using b si shape_fields(5) [OF sh] shape_speeds [OF sh wf]
        by (simp add: can_brake_def)
    qed
  qed
qed

text \<open>The reverse part of the recalculation, with its two special cases.\<close>

definition reverse_part :: "plan_env \<Rightarrow> planner \<Rightarrow> planner option" where
  "reverse_part env p =
     (let t = pn_tail p; n = ring_count env p - 2
      in if ring_ix env t n = pn_planned p
         then Some (if ring_ix env t n = t then update_plan_block_parameters env p else p)
         else reverse_pass (pe_blocks env) env (ring_ix env t (Suc n)) (ring_ix env t n) p)"

lemma recalculate_two:
  assumes wf: "wf_ring env p" and two: "1 < ring_count env p" and k: "planned_at env p k"
  shows "planner_recalculate env p =
     (if Suc k = ring_count env p then Some p
      else case reverse_part env (plan_last env p) of None \<Rightarrow> None
        | Some p \<Rightarrow> forward_pass (pe_blocks env) env (pn_planned p) (plan_next_block_index env (pn_planned p)) p)"
proof -
  obtain n where n: "ring_count env p = Suc (Suc n)" using that [of "ring_count env p - 2"] two by simp
  have lt: "Suc n < pe_blocks env" "k < pe_blocks env"
    using n ring_count_blocks [OF wf] k by (auto simp: planned_at_def)
  have h: "plan_prev_block_index env (pn_head p) = ring_ix env (pn_tail p) (Suc n)"
    using head_ix [OF wf] prev_ix [OF wf_ring_blocks [OF wf]] n by simp
  have last: "ring_ix env (pn_tail p) (Suc n) = pn_planned p \<longleftrightarrow> Suc k = ring_count env p"
    using k n ring_ix_eq [OF lt] by (auto simp: planned_at_def)
  have ne: "pn_head p \<noteq> pn_tail p" using ring_count_0 [OF wf] n by simp
  have c: "ring_count env (plan_last env p) = Suc (Suc n)" using shape_fields(5) [OF plan_last_shape] n by metis
  have n1: "ring_count env p - 1 = Suc n" using n by simp
  define q where "q = plan_last env p"
  have q: "set_entry (ring_ix env (pn_tail p) (Suc n))
       (let e = speed_gain (block_at p (ring_ix env (pn_tail p) (Suc n)))
        in if pb_max_entry_speed_sqr (block_at p (ring_ix env (pn_tail p) (Suc n))) < e
           then pb_max_entry_speed_sqr (block_at p (ring_ix env (pn_tail p) (Suc n))) else e) p = q"
    unfolding q_def plan_last_def Let_def n1 ..
  have rp: "reverse_part env q = (if ring_ix env (pn_tail p) n = pn_planned p
       then Some (if ring_ix env (pn_tail p) n = pn_tail p then update_plan_block_parameters env q else q)
       else reverse_pass (pe_blocks env) env (ring_ix env (pn_tail p) (Suc n)) (ring_ix env (pn_tail p) n) q)"
    using c by (simp add: reverse_part_def Let_def q_def)
  have "planner_recalculate env p = (if ring_ix env (pn_tail p) (Suc n) = pn_planned p then Some p
      else case reverse_part env q of None \<Rightarrow> None
        | Some p \<Rightarrow> forward_pass (pe_blocks env) env (pn_planned p) (plan_next_block_index env (pn_planned p)) p)"
    unfolding rp planner_recalculate_def h Let_def [of "ring_ix env (pn_tail p) (Suc n)"]
      Let_def [of "block_at p (ring_ix env (pn_tail p) (Suc n))"] q prev_ix [OF wf_ring_blocks [OF wf]]
    using ne by (simp add: q_def)
  then show ?thesis using last by (simp add: q_def)
qed

lemma reverse_part_raises:
  assumes wf: "wf_ring env p" and two: "1 < ring_count env p" and k: "planned_at env p k"
    and kn: "Suc k < ring_count env p" and s: "sound_ring env p"
    and le: "\<forall>i<ring_count env p. 0 < i \<longrightarrow> entry_of env p i \<le> max_of env p i"
    and br: "\<forall>i<ring_count env p. can_brake env p i"
  shows "\<exists>p'. reverse_part env p = Some p' \<and> shape p' = shape p \<and> pn_planned p' = pn_planned p \<and> sound_ring env p'
     \<and> (\<forall>i\<le>k. entry_of env p' i = (if i = 0 \<and> k = 0 then reported env (entry_of env p 0) else entry_of env p i))
     \<and> (\<forall>i<ring_count env p. k < i \<longrightarrow> entry_of env p i \<le> entry_of env p' i \<and> entry_of env p' i \<le> max_of env p i
          \<and> can_brake env p' i)"
proof -
  define n where "n = ring_count env p - 2"
  have n: "ring_count env p = Suc (Suc n)" using two by (simp add: n_def)
  have lt: "n < pe_blocks env" "k < pe_blocks env" "0 < pe_blocks env"
    using n kn ring_count_blocks [OF wf] by auto
  have at_k: "ring_ix env (pn_tail p) n = pn_planned p \<longleftrightarrow> n = k"
    using k ring_ix_eq [OF lt(1,2)] by (simp add: planned_at_def)
  have at_0: "ring_ix env (pn_tail p) n = pn_tail p \<longleftrightarrow> n = 0"
    using ring_ix_eq [OF lt(1,3), of "pn_tail p"] wf by (simp add: ring_ix_0 wf_ring_def)
  show ?thesis
  proof (cases "n = k")
    case True
    let ?q = "if n = 0 then update_plan_block_parameters env p else p"
    have sh: "shape ?q = shape p" by simp
    have e: "entry_of env ?q i = (if i = 0 \<and> n = 0 then reported env (entry_of env p 0) else entry_of env p i)"
      if "i < ring_count env p" for i
      using entry_update [OF wf, of i] that ring_count_blocks [OF wf] by (cases "i = 0") auto
    have sq: "sound_ring env ?q"
    proof (rule sound_ringI)
      fix j assume "j < ring_count env ?q"
      then have j: "j < ring_count env p" using shape_fields(5) [OF sh] by simp
      show "is_f32 (entry_of env ?q j) \<and> 0 \<le> entry_of env ?q j
        \<and> is_f32 (max_of env ?q j) \<and> 0 \<le> max_of env ?q j \<and> 0 \<le> gain_of env ?q j"
        using e [OF j] sound_ringD [OF s j] sound_ringD [OF s, of 0] reported_sound two
        by (auto simp: shape_speeds [OF sh wf])
    qed
    have b: "entry_of env p i \<le> entry_of env ?q i \<and> entry_of env ?q i \<le> max_of env p i \<and> can_brake env ?q i"
      if i: "i < ring_count env p" "k < i" for i
    proof -
      have "can_brake env ?q i = can_brake env p i"
        using e [of i] e [of "Suc i"] i shape_fields(5) [OF sh] shape_speeds(2) [OF sh wf]
        by (intro can_brake_cong) auto
      then show ?thesis using e [of i] i le br by auto
    qed
    have "reverse_part env p = Some ?q" using at_k at_0 True by (simp add: reverse_part_def Let_def n_def [symmetric])
    then show ?thesis using sh sq b e True n by (intro exI [of _ ?q]) auto
  next
    case False
    then have kn': "k < n" using kn n by simp
    have "\<exists>p'. reverse_pass (pe_blocks env) env (ring_ix env (pn_tail p) (Suc n)) (ring_ix env (pn_tail p) n) p = Some p'
     \<and> shape p' = shape p \<and> pn_planned p' = pn_planned p \<and> sound_ring env p'
     \<and> (\<forall>i<ring_count env p. i \<le> k \<or> n < i \<longrightarrow> entry_of env p' i =
          (if i = 0 \<and> k = 0 \<and> 0 < n then reported env (entry_of env p 0) else entry_of env p i))
     \<and> (\<forall>i. k < i \<and> i \<le> n \<longrightarrow> entry_of env p i \<le> entry_of env p' i \<and> entry_of env p' i \<le> max_of env p i
          \<and> can_brake env p' i)"
      by (rule reverse_pass_raises [OF wf k]) (use kn' n s le br lt in auto)
    then obtain p' where p': "reverse_pass (pe_blocks env) env (ring_ix env (pn_tail p) (Suc n)) (ring_ix env (pn_tail p) n) p = Some p'"
      "shape p' = shape p" "pn_planned p' = pn_planned p" "sound_ring env p'"
      and keep: "\<forall>i<ring_count env p. i \<le> k \<or> n < i \<longrightarrow> entry_of env p' i =
          (if i = 0 \<and> k = 0 \<and> 0 < n then reported env (entry_of env p 0) else entry_of env p i)"
      and up: "\<forall>i. k < i \<and> i \<le> n \<longrightarrow> entry_of env p i \<le> entry_of env p' i \<and> entry_of env p' i \<le> max_of env p i
          \<and> can_brake env p' i"
      by blast
    have last: "entry_of env p' (Suc n) = entry_of env p (Suc n)" using keep n by simp
    then have "can_brake env p' (Suc n) = can_brake env p (Suc n)"
      using n shape_fields(5) [OF p'(2)] shape_speeds(2) [OF p'(2) wf] by (intro can_brake_cong) auto
    then have b: "entry_of env p i \<le> entry_of env p' i \<and> entry_of env p' i \<le> max_of env p i \<and> can_brake env p' i"
      if "i < ring_count env p" "k < i" for i
      using that up last le br n by (cases "i = Suc n") auto
    have "reverse_part env p = Some p'" using at_k False p'(1) by (simp add: reverse_part_def Let_def n_def [symmetric])
    then show ?thesis using p' b keep kn' n by (intro exI [of _ p']) auto
  qed
qed

theorem recalculate_feasible:
  assumes wf: "wf_ring env p" and k: "planned_at env p k" and n: "0 < ring_count env p" and s: "sound_ring env p"
    and br: "\<forall>i<ring_count env p. can_brake env p i"
    and le: "\<forall>i<ring_count env p. 0 < i \<longrightarrow> entry_of env p i \<le> max_of env p i"
    and reach: "\<forall>i<k. can_reach env p i"
  shows "\<exists>p' k'. planner_recalculate env p = Some p' \<and> shape p' = shape p \<and> planned_at env p' k' \<and> feasible env p'"
proof (cases "Suc k = ring_count env p")
  case True
  have "planner_recalculate env p = Some p"
  proof (cases "1 < ring_count env p")
    case True
    then show ?thesis using recalculate_two [OF wf True k] \<open>Suc k = ring_count env p\<close> by simp
  next
    case False
    then have "ring_count env p = 1" "k = 0" using n \<open>Suc k = ring_count env p\<close> by auto
    then have "plan_prev_block_index env (pn_head p) = pn_planned p"
      using head_ix [OF wf] prev_ix [OF wf_ring_blocks [OF wf], of "pn_tail p" 0] k by (simp add: planned_at_def)
    then show ?thesis by (simp add: planner_recalculate_def)
  qed
  moreover have "can_reach env p i" if "i < ring_count env p" for i
    using reach that True by (cases "i = k") (auto simp: can_reach_def)
  ultimately show ?thesis using k s br le by (intro exI [of _ p] exI [of _ k]) (simp add: feasible_def)
next
  case False
  then have kn: "Suc k < ring_count env p" using k n by (auto simp: planned_at_def)
  then have two: "1 < ring_count env p" by simp
  define q where "q = plan_last env p"
  have shq: "shape q = shape p" by (simp add: q_def plan_last_shape)
  note ql = plan_last_raises [OF wf n s _ br two, folded q_def, OF le]
  have wfq: "wf_ring env q" and cq: "ring_count env q = ring_count env p"
    using shape_fields [OF shq] wf by auto
  have sq: "max_of env q i = max_of env p i" "gain_of env q i = gain_of env p i" for i
    using shape_speeds [OF shq wf] by auto
  have eq: "entry_of env q i = entry_of env p i" if "i \<le> k" for i
    using plan_last_entry [OF wf, of i] that kn by (simp add: q_def)
  have kq: "planned_at env q k" using k cq by (simp add: planned_at_def q_def)
  have "\<exists>p'. reverse_part env q = Some p' \<and> shape p' = shape q \<and> pn_planned p' = pn_planned q \<and> sound_ring env p'
     \<and> (\<forall>i\<le>k. entry_of env p' i = (if i = 0 \<and> k = 0 then reported env (entry_of env q 0) else entry_of env q i))
     \<and> (\<forall>i<ring_count env q. k < i \<longrightarrow> entry_of env q i \<le> entry_of env p' i \<and> entry_of env p' i \<le> max_of env q i
          \<and> can_brake env p' i)"
    by (rule reverse_part_raises [OF wfq _ kq]) (use two kn ql cq sq in auto)
  then obtain r where r: "reverse_part env q = Some r" "shape r = shape p" "pn_planned r = pn_planned p" "sound_ring env r"
    and rk: "\<forall>i\<le>k. entry_of env r i = (if i = 0 \<and> k = 0 then reported env (entry_of env p 0) else entry_of env p i)"
    and ru: "\<forall>i<ring_count env p. k < i \<longrightarrow> entry_of env q i \<le> entry_of env r i \<and> entry_of env r i \<le> max_of env p i
          \<and> can_brake env r i"
    using eq unfolding cq sq shq by (auto simp: q_def)
  have wfr: "wf_ring env r" and cr: "ring_count env r = ring_count env p" and tr: "pn_tail r = pn_tail p"
    using shape_fields [OF r(2)] wf by auto
  have sr: "max_of env r i = max_of env p i" "gain_of env r i = gain_of env p i" for i
    using shape_speeds [OF r(2) wf] by auto
  have live: "speed_in env r k = speed_in env p k" "speed_in env r k = entry_of env r k"
    using rk by (auto simp: speed_in_def)
  have brk: "can_brake env r k"
  proof -
    have "entry_of env p (Suc k) \<le> entry_of env r (Suc k)" using ql(4) ru kn by (meson lessI order_trans)
    then have "fadd (entry_of env p (Suc k)) (gain_of env p k) \<le> fadd (entry_of env r (Suc k)) (gain_of env p k)"
      by (rule fadd_mono)
    moreover have "speed_in env p k \<le> fadd (entry_of env p (Suc k)) (gain_of env p k)"
      using br kn by (simp add: can_brake_def)
    ultimately show ?thesis using kn cr sr live by (simp add: can_brake_def)
  qed
  have brr: "can_brake env r i" if "k \<le> i" "i < ring_count env r" for i
    using brk ru that cr by (cases "i = k") auto
  have "\<exists>p'. forward_pass (pe_blocks env) env (ring_ix env (pn_tail r) k) (ring_ix env (pn_tail r) (Suc k)) r = Some p'
     \<and> shape p' = shape r \<and> sound_ring env p'
     \<and> (pn_planned p' = pn_planned r \<or> (\<exists>k<ring_count env r. pn_planned p' = ring_ix env (pn_tail r) k))
     \<and> (\<forall>i\<le>k. entry_of env p' i = entry_of env r i)
     \<and> (\<forall>i<ring_count env r. entry_of env p' i \<le> entry_of env r i)
     \<and> (\<forall>i. k \<le> i \<and> i < ring_count env r \<longrightarrow> can_brake env p' i \<and> can_reach env p' i)"
    by (rule forward_pass_lowers [OF wfr _ _ r(4) brr live(2)]) (use kn cr ring_count_blocks [OF wf] in auto)
  then obtain p' where p': "forward_pass (pe_blocks env) env (ring_ix env (pn_tail r) k) (ring_ix env (pn_tail r) (Suc k)) r = Some p'"
    "shape p' = shape p" "sound_ring env p'"
    and pl: "pn_planned p' = pn_planned p \<or> (\<exists>k<ring_count env p. pn_planned p' = ring_ix env (pn_tail p) k)"
    and fk: "\<forall>i\<le>k. entry_of env p' i = entry_of env r i"
    and fl: "\<forall>i<ring_count env p. entry_of env p' i \<le> entry_of env r i"
    and fo: "\<forall>i. k \<le> i \<and> i < ring_count env p \<longrightarrow> can_brake env p' i \<and> can_reach env p' i"
    unfolding cr tr r(2,3) by blast
  have cp: "ring_count env p' = ring_count env p" and tp: "pn_tail p' = pn_tail p"
    using shape_fields [OF p'(2)] by auto
  have sp: "max_of env p' i = max_of env p i" "gain_of env p' i = gain_of env p i" for i
    using shape_speeds [OF p'(2) wf] by auto
  have before: "entry_of env p' i = entry_of env p i" if "i \<le> k" "0 < k" for i
    using fk rk that by simp
  have ok: "can_brake env p' i \<and> can_reach env p' i" if i: "i < ring_count env p" for i
  proof (cases "k \<le> i")
    case True
    then show ?thesis using fo i by blast
  next
    case False
    then have e: "entry_of env p' i = entry_of env p i" "entry_of env p' (Suc i) = entry_of env p (Suc i)"
      using before by auto
    have "can_brake env p' i = can_brake env p i" by (rule can_brake_cong [OF cp sp(2) e])
    moreover have "can_reach env p' i = can_reach env p i" by (rule can_reach_cong [OF cp sp(2) e])
    ultimately show ?thesis using br reach False i by auto
  qed
  have le': "entry_of env p' i \<le> max_of env p' i" if i: "i < ring_count env p" "0 < i" for i
  proof (cases "i \<le> k")
    case True
    then show ?thesis using before [of i] le i sp by auto
  next
    case False
    then have "entry_of env p' i \<le> entry_of env r i" "entry_of env r i \<le> max_of env p i" using fl ru i by auto
    then show ?thesis using sp by simp
  qed
  have feas: "feasible env p'" using p'(3) ok le' cp by (simp add: feasible_def)
  have "\<exists>k'. planned_at env p' k'" using pl k cp tp by (auto simp: planned_at_def)
  moreover have "planner_recalculate env p = Some p'"
    using recalculate_two [OF wf two k] False r(1,3) p'(1) k tr next_ix [OF wf_ring_blocks [OF wf]]
    by (simp add: q_def planned_at_def)
  ultimately show ?thesis using p'(2) feas by blast
qed

end
