(* ===== verification/PlannerMotion.thy ===== *)
theory PlannerMotion
  imports PlannerPlan
begin

text \<open>
  The operations of the planner keep the plan feasible: a new motion, the end of a block, the
  restart after a hold, a reset. A run of the planner is any sequence of them.
\<close>

subsection \<open>What is pending\<close>

lemma shape_pending:
  assumes "shape p' = shape p" "wf_ring env p"
  shows "map no_entry (pending env p') = map no_entry (pending env p)"
proof (rule nth_equalityI)
  show "length (map no_entry (pending env p')) = length (map no_entry (pending env p))"
    using shape_fields(5) [OF assms(1)] by simp
  fix i assume "i < length (map no_entry (pending env p'))"
  then have i: "i < ring_count env p" "i < ring_count env p'" using shape_fields(5) [OF assms(1)] by auto
  have "ring_ix env (pn_tail p) i < length (pn_buffer p)"
    using assms(2) ring_ix_less by (simp add: wf_ring_def)
  then show "map no_entry (pending env p') ! i = map no_entry (pending env p) ! i"
    using i shape_block [OF assms(1)] shape_fields(1) [OF assms(1)] by (simp add: nth_pending)
qed

text \<open>The block at the head is not pending: writing it changes nothing of the plan.\<close>

lemma set_head:
  fixes f :: "plan_block \<Rightarrow> plan_block"
  assumes wf: "wf_ring env p"
  defines "q \<equiv> set_block (pn_head p) f p"
  shows "wf_ring env q" "ring_count env q = ring_count env p" "pn_tail q = pn_tail p" "pn_planned q = pn_planned p"
    "pn_head q = pn_head p" "pn_next_head q = pn_next_head p"
    "i < ring_count env p \<Longrightarrow> block_at q (ring_ix env (pn_tail p) i) = block_at p (ring_ix env (pn_tail p) i)"
proof -
  show "wf_ring env q" "ring_count env q = ring_count env p" "pn_tail q = pn_tail p" "pn_planned q = pn_planned p"
    "pn_head q = pn_head p" "pn_next_head q = pn_next_head p"
    using wf by (simp_all add: q_def set_block_def wf_ring_def ring_count_def)
  assume i: "i < ring_count env p"
  then have "ring_ix env (pn_tail p) i \<noteq> pn_head p"
    using head_ix [OF wf] ring_ix_eq [of i env "ring_count env p" "pn_tail p"] ring_count_blocks [OF wf] by simp
  then show "block_at q (ring_ix env (pn_tail p) i) = block_at p (ring_ix env (pn_tail p) i)"
    by (simp add: q_def set_block_def block_at_def)
qed

text \<open>Two planners whose pending blocks are the same have the same plan.\<close>

definition same_blocks :: "plan_env \<Rightarrow> planner \<Rightarrow> planner \<Rightarrow> bool" where
  "same_blocks env p q \<longleftrightarrow> ring_count env q = ring_count env p \<and>
     (\<forall>i<ring_count env p. block_at q (ring_ix env (pn_tail q) i) = block_at p (ring_ix env (pn_tail p) i))"

lemma same_blocks_pending: "same_blocks env p q \<Longrightarrow> pending env q = pending env p"
  by (rule nth_equalityI) (auto simp: same_blocks_def nth_pending)

lemma set_head_same: "wf_ring env p \<Longrightarrow> same_blocks env p (set_block (pn_head p) f p)"
  by (simp add: same_blocks_def set_head)

lemma pending_views:
  assumes "i < ring_count env p"
  shows "entry_of env p i = pb_entry_speed_sqr (pending env p ! i)"
    "max_of env p i = pb_max_entry_speed_sqr (pending env p ! i)"
    "gain_of env p i = speed_gain (pending env p ! i)"
  using assms by (simp_all add: nth_pending entry_of_def max_of_def gain_of_def)

lemma feasible_same:
  assumes eq: "pending env q = pending env p"
  shows "feasible env q = feasible env p"
proof -
  have c: "ring_count env q = ring_count env p" using eq by (metis length_pending)
  have v: "entry_of env q i = entry_of env p i" "max_of env q i = max_of env p i" "gain_of env q i = gain_of env p i"
    if "i < ring_count env p" for i
    using pending_views [of i env q] pending_views [of i env p] that c eq by auto
  have sp: "speed_in env q i = speed_in env p i" if "i < ring_count env p" for i
    using v that by (cases i) (simp_all add: speed_in_def)
  have so: "sound_ring env q = sound_ring env p"
  proof -
    have "sound_ring env r \<longleftrightarrow> (\<forall>b\<in>set (pending env r). sound_block b)" for r
      by (auto simp: sound_ring_def pending_def)
    then show ?thesis using eq by simp
  qed
  have "can_brake env q i = can_brake env p i" "can_reach env q i = can_reach env p i"
    if "i < ring_count env p" for i
    using that v sp c by (auto simp: can_brake_def can_reach_def)
  then show ?thesis using so c v by (auto simp: feasible_def)
qed

subsection \<open>A new block\<close>

lemma append_block_view:
  assumes wf: "wf_ring env p" and room: "\<not> plan_check_full_buffer p"
    and q: "pn_buffer q = (pn_buffer p)[pn_head p := b]" "pn_tail q = pn_tail p"
      "pn_head q = pn_next_head p" "pn_next_head q = plan_next_block_index env (pn_next_head p)"
  shows "wf_ring env q" "ring_count env q = Suc (ring_count env p)" "pending env q = pending env p @ [b]"
proof -
  have c: "Suc (ring_count env p) < pe_blocks env" by (rule ring_count_next [OF wf room])
  have nh: "pn_next_head p = ring_ix env (pn_tail p) (Suc (ring_count env p))"
    using wf head_ix [OF wf] next_ix by (metis wf_ring_blocks wf_ring_def)
  have "pn_next_head p < pe_blocks env" unfolding nh using wf by (simp add: ring_ix_less wf_ring_def)
  then show "wf_ring env q" using wf q by (simp add: wf_ring_def)
  show cnt: "ring_count env q = Suc (ring_count env p)"
    by (rule ring_count_unique [of "pn_tail p"]) (use wf c q nh in \<open>auto simp: wf_ring_def\<close>)
  have hd: "ring_ix env (pn_tail p) i = pn_head p \<longleftrightarrow> i = ring_count env p" if "i \<le> ring_count env p" for i
    using ring_ix_eq [of i env "ring_count env p" "pn_tail p"] that c head_ix [OF wf] by simp
  show "pending env q = pending env p @ [b]"
  proof (rule nth_equalityI)
    show "length (pending env q) = length (pending env p @ [b])" using cnt by simp
    fix i assume "i < length (pending env q)"
    then have i: "i \<le> ring_count env p" using cnt by simp
    have len: "pn_head p < length (pn_buffer p)" using wf by (simp add: wf_ring_def)
    have "pending env q ! i = (pn_buffer p)[pn_head p := b] ! ring_ix env (pn_tail p) i"
      using i cnt by (simp add: nth_pending block_at_def q(1,2))
    also have "\<dots> = (if i = ring_count env p then b else block_at p (ring_ix env (pn_tail p) i))"
      using hd [OF i] len by (cases "i = ring_count env p") (simp_all add: block_at_def)
    also have "\<dots> = (pending env p @ [b]) ! i" using i by (simp add: nth_append nth_pending)
    finally show "pending env q ! i = (pending env p @ [b]) ! i" .
  qed
qed

text \<open>A new block at rest can be put behind a feasible plan.\<close>

lemma append_feasible:
  assumes wf: "wf_ring env p" and f: "feasible env p" and k: "planned_at env p k"
    and wq: "wf_ring env q" and cq: "ring_count env q = Suc (ring_count env p)"
    and pq: "pending env q = pending env p @ [b]" and pl: "pn_planned q = pn_planned p" "pn_tail q = pn_tail p"
    and b: "sound_block b" "pb_entry_speed_sqr b = 0"
    and idle: "ring_count env p = 0 \<Longrightarrow> pe_executing env = None"
  shows "\<exists>p' k'. planner_recalculate env q = Some p' \<and> shape p' = shape q \<and> planned_at env p' k' \<and> feasible env p'"
proof (rule recalculate_feasible [OF wq])
  have old: "entry_of env q i = entry_of env p i" "max_of env q i = max_of env p i" "gain_of env q i = gain_of env p i"
    if "i < ring_count env p" for i
    using pending_views [of i env q] pending_views [of i env p] that cq pq by (auto simp: nth_append)
  have new: "entry_of env q (ring_count env p) = 0" "max_of env q (ring_count env p) = pb_max_entry_speed_sqr b"
    "gain_of env q (ring_count env p) = speed_gain b"
    using pending_views [of "ring_count env p" env q] cq pq b(2) by (auto simp: nth_append)
  have sp: "speed_in env q i = (if i = ring_count env p then 0 else speed_in env p i)" if "i \<le> ring_count env p" for i
    using that old [of i] old(1) [of 0] new idle by (cases i; cases "ring_count env p = 0") (auto simp: speed_in_def reported_def)
  have so: "sound_ring env p" using f by (simp add: feasible_def)
  show "planned_at env q k" using k pl cq by (auto simp: planned_at_def)
  show "0 < ring_count env q" using cq by simp
  have "\<forall>c\<in>set (pending env p). sound_block c" using so by (auto simp: sound_ring_def pending_def)
  then have "\<forall>c\<in>set (pending env q). sound_block c" using pq b by simp
  then show "sound_ring env q" by (auto simp: sound_ring_def pending_def)
  show "\<forall>i<ring_count env q. can_brake env q i"
  proof (intro allI impI)
    fix i assume i: "i < ring_count env q"
    show "can_brake env q i"
    proof (cases "i = ring_count env p")
      case True
      then show ?thesis using sp [of i] cq new b(1) by (simp add: can_brake_def sound_block_def)
    next
      case False
      then have i': "i < ring_count env p" using i cq by simp
      then have "can_brake env p i" using f by (simp add: feasible_def)
      moreover have "fadd 0 (gain_of env p i) = gain_of env p i"
        using is_f32_gain [of env p i] by (simp add: fadd_def is_f32_def)
      ultimately show ?thesis using sp [of i] i' cq old new
        by (cases "Suc i = ring_count env p") (auto simp: can_brake_def)
    qed
  qed
  show "\<forall>i<ring_count env q. 0 < i \<longrightarrow> entry_of env q i \<le> max_of env q i"
  proof (intro allI impI)
    fix i assume "i < ring_count env q" "0 < i"
    then show "entry_of env q i \<le> max_of env q i"
      using old [of i] new f b(1) cq by (cases "i = ring_count env p") (auto simp: feasible_def sound_block_def)
  qed
  show "\<forall>i<k. can_reach env q i"
  proof (intro allI impI)
    fix i assume "i < k"
    then have i: "Suc i < ring_count env p" using k by (auto simp: planned_at_def)
    then have "can_reach env p i" using f by (simp add: feasible_def)
    then show "can_reach env q i" using i sp [of i] old cq by (auto simp: can_reach_def)
  qed
qed

lemma junction_speed_sound: "is_f32 (junction_speed_sqr env prev v) \<and> 0 \<le> junction_speed_sqr env prev v"
proof -
  have large: "is_f32 SOME_LARGE_VALUE" "0 \<le> SOME_LARGE_VALUE"
    by (simp_all add: SOME_LARGE_VALUE_def f32_nonneg)
  have "fmul MINIMUM_JUNCTION_SPEED MINIMUM_JUNCTION_SPEED = 0"
    by (simp add: MINIMUM_JUNCTION_SPEED_def fmul_def)
  then show ?thesis using large by (simp add: junction_speed_sqr_def Let_def not_less)
qed

lemma least_over_axes_nonneg: "0 \<le> m \<Longrightarrow> 0 \<le> least_over_axes ls m us"
  by (induction us arbitrary: ls m) (auto simp: Let_def)

lemma square_sum_nonneg: "0 \<le> s \<Longrightarrow> 0 \<le> square_sum s ds"
  by (induction ds arbitrary: s) (simp_all add: fadd_def fmul_def f32_nonneg)

lemma vector_length_nonneg: "0 \<le> vector_length v"
  by (simp add: vector_length_def fsqrt_def f32_nonneg square_sum_nonneg)

lemma acceleration_nonneg: "0 \<le> limit_acceleration_by_axis_maximum env v"
  by (simp add: limit_acceleration_by_axis_maximum_def fmul_def f32_nonneg least_over_axes_nonneg
      SOME_LARGE_VALUE_def)

lemma profile_sound:
  assumes "pb_entry_speed_sqr b = 0" "is_f32 (pb_max_junction_speed_sqr b)" "0 \<le> pb_max_junction_speed_sqr b"
    "0 \<le> pb_acceleration b" "0 \<le> pb_millimeters b"
  shows "sound_block (plan_compute_profile_parameters nominal prev b)"
  using assms
  by (auto simp: plan_compute_profile_parameters_def sound_block_def speed_gain_def fmul_def f32_nonneg Let_def)

lemma queue_block_feasible:
  assumes wf: "wf_ring env p" and room: "\<not> plan_check_full_buffer p" and f: "feasible env p"
    and k: "planned_at env p k" and idle: "ring_count env p = 0 \<Longrightarrow> pe_executing env = None"
    and b: "pb_entry_speed_sqr b = 0" "is_f32 (pb_max_junction_speed_sqr b)" "0 \<le> pb_max_junction_speed_sqr b"
      "0 \<le> pb_acceleration b" "0 \<le> pb_millimeters b"
  shows "\<exists>p' k' c. queue_block env b v t p = Some p' \<and> wf_ring env p' \<and> planned_at env p' k' \<and> feasible env p'
     \<and> map no_entry (pending env p') = map no_entry (pending env p) @ [c]
     \<and> pn_position p' = t \<and> pb_steps c = pb_steps b \<and> pb_direction_bits c = pb_direction_bits b"
proof -
  let ?nominal = "plan_compute_profile_nominal_speed env b"
  let ?b = "plan_compute_profile_parameters ?nominal (pn_previous_nominal_speed p) b"
  let ?q = "p\<lparr>pn_buffer := (pn_buffer p)[pn_head p := ?b], pn_previous_nominal_speed := ?nominal,
                pn_previous_unit_vec := v, pn_position := t,
                pn_head := pn_next_head p,
                pn_next_head := plan_next_block_index env (pn_next_head p)\<rparr>"
  have app: "wf_ring env ?q" "ring_count env ?q = Suc (ring_count env p)" "pending env ?q = pending env p @ [?b]"
    by (rule append_block_view [OF wf room]; simp)+
  have e0: "pb_entry_speed_sqr ?b = 0" using b(1) by (simp add: plan_compute_profile_parameters_def Let_def)
  obtain p' k' where p': "planner_recalculate env ?q = Some p'" "shape p' = shape ?q" "planned_at env p' k'" "feasible env p'"
    using append_feasible [OF wf f k app _ _ profile_sound [OF b] e0 idle] by auto
  have "wf_ring env p'" using shape_fields(6) [OF p'(2)] app(1) by blast
  moreover have "map no_entry (pending env p') = map no_entry (pending env p) @ [no_entry ?b]"
    using shape_pending [OF p'(2) app(1)] app(3) by simp
  moreover have "queue_block env b v t p = Some p'" using p'(1) by (simp add: queue_block_def Let_def)
  moreover have "pn_position p' = t" using arg_cong [OF p'(2), of pn_position] by (simp add: shape_def)
  moreover have "pb_steps (no_entry ?b) = pb_steps b" "pb_direction_bits (no_entry ?b) = pb_direction_bits b"
    by (simp_all add: no_entry_def plan_compute_profile_parameters_def Let_def)
  ultimately show ?thesis using p'(3,4) by blast
qed

subsection \<open>The operations\<close>

text \<open>The planner is sound: its ring, its planned pointer and its plan.\<close>

definition planner_ok :: "plan_env \<Rightarrow> planner \<Rightarrow> bool" where
  "planner_ok env p \<longleftrightarrow> wf_ring env p \<and> (\<exists>k. planned_at env p k) \<and> feasible env p"

lemma planner_ok_head:
  assumes "planner_ok env p"
  shows "planner_ok env (set_block (pn_head p) f p)"
    "pending env (set_block (pn_head p) f p) = pending env p"
proof -
  have wf: "wf_ring env p" using assms by (simp add: planner_ok_def)
  show eq: "pending env (set_block (pn_head p) f p) = pending env p"
    by (rule same_blocks_pending [OF set_head_same [OF wf]])
  show "planner_ok env (set_block (pn_head p) f p)"
    using assms set_head [OF wf] feasible_same [OF eq] by (auto simp: planner_ok_def planned_at_def)
qed

lemma block_of_line_fields [simp]:
  "pb_systemMotion (block_of_line l) = pl_systemMotion l" "pb_is_jog (block_of_line l) = pl_is_jog l"
  "pb_entry_speed_sqr (block_of_line l) = 0"
  by (simp_all add: block_of_line_def zero_block_def)

lemma with_fields [simp]:
  "pb_systemMotion (with_distance env d b) = pb_systemMotion b" "pb_is_jog (with_distance env d b) = pb_is_jog b"
  "pb_entry_speed_sqr (with_distance env d b) = pb_entry_speed_sqr b"
  "pb_systemMotion (with_rates env l m u b) = pb_systemMotion b" "pb_is_jog (with_rates env l m u b) = pb_is_jog b"
  "pb_entry_speed_sqr (with_rates env l m u b) = pb_entry_speed_sqr b"
  "pb_millimeters (with_rates env l m u b) = m"
  "pb_steps (with_rates env l m u b) = pb_steps b"
  "pb_direction_bits (with_rates env l m u b) = pb_direction_bits b"
  "pb_acceleration (with_rates env l m u b) = limit_acceleration_by_axis_maximum env u"
  by (simp_all add: with_distance_def with_rates_def Let_def)

lemma limited_block_fields:
  assumes "limited_block env target l p b = (b', u)" "pb_entry_speed_sqr b = 0"
  shows "pb_systemMotion b' = pb_systemMotion b" "pb_entry_speed_sqr b' = 0" "is_f32 (pb_max_junction_speed_sqr b')"
    "0 \<le> pb_max_junction_speed_sqr b'" "0 \<le> pb_acceleration b'" "0 \<le> pb_millimeters b'"
    "pb_steps b' = pb_steps b" "pb_direction_bits b' = pb_direction_bits b"
proof -
  have b': "b' = fst (limited_block env target l p b)" using assms(1) by simp
  have mm: "0 \<le> fst (convert_delta_vector_to_unit_vector v)" for v
    using vector_length_nonneg by (simp add: convert_delta_vector_to_unit_vector_def Let_def)
  show "pb_systemMotion b' = pb_systemMotion b" "pb_entry_speed_sqr b' = 0" "is_f32 (pb_max_junction_speed_sqr b')"
    "0 \<le> pb_max_junction_speed_sqr b'" "0 \<le> pb_acceleration b'" "0 \<le> pb_millimeters b'"
    "pb_steps b' = pb_steps b" "pb_direction_bits b' = pb_direction_bits b"
    unfolding b' using assms(2) mm acceleration_nonneg junction_speed_sound
    by (simp_all add: limited_block_def Let_def)
qed

lemma new_motion:
  assumes ok: "planner_ok env p" and room: "\<not> plan_check_full_buffer p"
    and idle: "ring_count env p = 0 \<Longrightarrow> pe_executing env = None"
  shows "\<exists>r p'. plan_buffer_line env target l p = Some (r, p') \<and> planner_ok env p'
     \<and> (if r = BrQueued \<and> \<not> pl_systemMotion l
        then (\<exists>c. map no_entry (pending env p') = map no_entry (pending env p) @ [c]
          \<and> (let d = with_distance env (line_deltas env target l p) (block_of_line l)
             in pb_steps c = pb_steps d \<and> pb_direction_bits c = pb_direction_bits d)
          \<and> pn_position p' = map (\<lambda>axis. motor_pos_to_steps env axis (target ! axis)) [0..<pe_n_axis env])
        else pending env p' = pending env p)"
proof -
  define p0 where "p0 = set_block (pn_head p) (\<lambda>_. block_of_line l) p"
  have ok0: "planner_ok env p0" and same: "pending env p0 = pending env p"
    unfolding p0_def using planner_ok_head [OF ok] by auto
  have wf: "wf_ring env p" using ok by (simp add: planner_ok_def)
  have hd: "pn_head p0 = pn_head p" "pn_next_head p0 = pn_next_head p" "pn_tail p0 = pn_tail p"
    "ring_count env p0 = ring_count env p"
    unfolding p0_def using set_head [OF wf] by auto
  have room0: "\<not> plan_check_full_buffer p0" using room hd by (simp add: plan_check_full_buffer_def)
  obtain k where k: "wf_ring env p0" "planned_at env p0 k" "feasible env p0" using ok0 by (auto simp: planner_ok_def)
  have idle0: "ring_count env p0 = 0 \<Longrightarrow> pe_executing env = None" using idle hd by simp
  define b1 where "b1 = with_distance env (line_deltas env target l p0) (block_of_line l)"
  obtain b u where b: "limited_block env target l p0 b1 = (b, u)" by fastforce
  have fields: "pb_systemMotion b = pl_systemMotion l" "pb_entry_speed_sqr b = 0" "is_f32 (pb_max_junction_speed_sqr b)"
    "0 \<le> pb_max_junction_speed_sqr b" "0 \<le> pb_acceleration b" "0 \<le> pb_millimeters b"
    "pb_steps b = pb_steps b1" "pb_direction_bits b = pb_direction_bits b1"
    using limited_block_fields [OF b] by (simp_all add: b1_def)
  have b1': "b1 = with_distance env (line_deltas env target l p) (block_of_line l)"
    by (simp add: b1_def line_deltas_def p0_def set_block_def)
  define ts where "ts = map (\<lambda>axis. motor_pos_to_steps env axis (target ! axis)) [0..<pe_n_axis env]"
  have run: "plan_buffer_line env target l p =
      (if \<not> pl_systemMotion l \<and> \<not> pl_is_jog l \<and> pe_unhomed_axes env then Some (BrUnhomed, p0)
       else if pb_step_event_count b1 = 0 then Some (BrEmpty, set_block (pn_head p0) (\<lambda>_. b1) p0)
       else if pl_systemMotion l then Some (BrQueued, set_block (pn_head p0) (\<lambda>_. b) p0)
       else map_option (Pair BrQueued) (queue_block env b u ts p0))"
    using b by (simp add: plan_buffer_line_def Let_def p0_def [symmetric] b1_def [symmetric] ts_def [symmetric] fields(1))
  obtain p' c where q: "queue_block env b u ts p0 = Some p'" "planner_ok env p'"
    "map no_entry (pending env p') = map no_entry (pending env p0) @ [c]"
    "pn_position p' = ts" "pb_steps c = pb_steps b1" "pb_direction_bits c = pb_direction_bits b1"
    using queue_block_feasible [OF k(1) room0 k(3) k(2) idle0 fields(2-6), of u ts]
    unfolding planner_ok_def fields(7,8) by blast
  show ?thesis
    unfolding run using ok0 planner_ok_head [OF ok0] same q
    by (auto simp: ts_def Let_def simp flip: b1')
qed

text \<open>The end of the first block: the stepper is not inside a block.\<close>

definition between_blocks :: "plan_env \<Rightarrow> plan_env" where
  "between_blocks env = env\<lparr>pe_executing := None\<rparr>"

lemma between_blocks_views [simp]:
  "pe_executing (between_blocks env) = None" "pe_blocks (between_blocks env) = pe_blocks env"
  "ring_ix (between_blocks env) = ring_ix env" "ring_count (between_blocks env) = ring_count env"
  "entry_of (between_blocks env) = entry_of env" "max_of (between_blocks env) = max_of env"
  "gain_of (between_blocks env) = gain_of env" "pending (between_blocks env) = pending env"
  "sound_ring (between_blocks env) = sound_ring env" "wf_ring (between_blocks env) = wf_ring env"
  "planned_at (between_blocks env) = planned_at env"
  by (simp_all add: between_blocks_def fun_eq_iff ring_ix_def ring_count_def entry_of_def max_of_def gain_of_def
      pending_def sound_ring_def wf_ring_def planned_at_def plan_next_block_index_def)

lemma discard_views:
  assumes wf: "wf_ring env p" and n: "0 < ring_count env p"
  defines "q \<equiv> plan_discard_current_block env p"
  shows "wf_ring env q" "ring_count env q = ring_count env p - 1" "pending env q = tl (pending env p)"
    "planned_at env p k \<Longrightarrow> planned_at env q (k - 1)"
proof -
  let ?t = "plan_next_block_index env (pn_tail p)"
  have t: "?t = ring_ix env (pn_tail p) 1"
    using next_ix [OF wf_ring_blocks [OF wf], of "pn_tail p" 0] wf by (simp add: ring_ix_0 wf_ring_def)
  have tl: "?t < pe_blocks env" unfolding t using wf by (simp add: ring_ix_less wf_ring_def)
  have ix: "ring_ix env ?t i = ring_ix env (pn_tail p) (Suc i)" for i
    unfolding t by (simp add: ring_ix_def mod_simps)
  have q: "pn_buffer q = pn_buffer p" "pn_tail q = ?t" "pn_head q = pn_head p" "pn_next_head q = pn_next_head p"
    "pn_planned q = (if pn_tail p = pn_planned p then ?t else pn_planned p)"
    using ring_count_0 [OF wf] n by (auto simp: q_def plan_discard_current_block_def Let_def)
  show wq: "wf_ring env q" using wf tl q by (simp add: wf_ring_def)
  show c: "ring_count env q = ring_count env p - 1"
    by (rule ring_count_unique [of ?t])
      (use tl ring_count_blocks [OF wf] q ix head_ix [OF wf] n in auto)
  show "pending env q = tl (pending env p)"
    by (rule nth_equalityI) (use c q ix n in \<open>auto simp: nth_tl nth_pending block_at_def\<close>)
  assume k: "planned_at env p k"
  have "k < pe_blocks env" using k n ring_count_blocks [OF wf] by (auto simp: planned_at_def)
  then have "pn_tail p = pn_planned p \<longleftrightarrow> k = 0"
    using k ring_ix_eq [of k env 0 "pn_tail p"] wf by (auto simp: planned_at_def ring_ix_0 wf_ring_def)
  then show "planned_at env q (k - 1)"
    using k n q c ix ring_ix_0 [OF tl] by (cases k) (auto simp: planned_at_def)
qed

lemma end_of_block:
  assumes ok: "planner_ok env p" and n: "0 < ring_count env p"
  shows "planner_ok (between_blocks env) (plan_discard_current_block env p)"
    "pending env (plan_discard_current_block env p) = tl (pending env p)"
proof -
  let ?q = "plan_discard_current_block env p"
  have wf: "wf_ring env p" and f: "feasible env p" using ok by (auto simp: planner_ok_def)
  note d = discard_views [OF wf n]
  show "pending env ?q = tl (pending env p)" by (rule d)
  have v: "entry_of env ?q i = entry_of env p (Suc i)" "max_of env ?q i = max_of env p (Suc i)"
    "gain_of env ?q i = gain_of env p (Suc i)" if "Suc i < ring_count env p" for i
    using pending_views [of i env ?q] pending_views [of "Suc i" env p] that d(2,3) by (auto simp: nth_tl)
  have sp: "speed_in (between_blocks env) ?q i = entry_of env p (Suc i)" if "Suc i < ring_count env p" for i
    using v(1) that by (cases i) (auto simp: speed_in_def reported_def)
  have old: "can_brake env p (Suc i)" "can_reach env p (Suc i)" "entry_of env p (Suc i) \<le> max_of env p (Suc i)"
    if "Suc i < ring_count env p" for i
    using f that by (auto simp: feasible_def)
  have "sound_ring env ?q"
    by (rule sound_ringI) (use v sound_ringD f d(2) in \<open>auto simp: feasible_def\<close>)
  moreover have more: "Suc i < ring_count env ?q \<longleftrightarrow> Suc (Suc i) < ring_count env p" for i
    using d(2) by auto
  have "can_brake (between_blocks env) ?q i" if "Suc i < ring_count env p" for i
    using old(1) [OF that] sp [OF that] v(3) [OF that] v(1) [of "Suc i"]
    by (cases "Suc (Suc i) < ring_count env p") (simp_all add: can_brake_def more)
  moreover have "can_reach (between_blocks env) ?q i" if "Suc i < ring_count env p" for i
    using old(2) [OF that] sp [OF that] v(3) [OF that] v(1) [of "Suc i"]
    by (simp add: can_reach_def more)
  ultimately have "feasible (between_blocks env) ?q"
    using v old(3) d(2) by (auto simp: feasible_def)
  then show "planner_ok (between_blocks env) ?q" using d(1,4) ok by (auto simp: planner_ok_def)
qed

text \<open>The restart after a hold: whatever of the plan was reachable, the new plan is.\<close>

lemma plan_again:
  assumes wf: "wf_ring env p" and n: "0 < ring_count env p" and s: "sound_ring env p"
    and br: "\<forall>i<ring_count env p. can_brake env p i"
    and le: "\<forall>i<ring_count env p. 0 < i \<longrightarrow> entry_of env p i \<le> max_of env p i"
  shows "\<exists>p'. plan_cycle_reinitialize env p = Some p' \<and> planner_ok env p'
     \<and> map no_entry (pending env p') = map no_entry (pending env p)"
proof -
  let ?u = "update_plan_block_parameters env p"
  let ?q = "?u\<lparr>pn_planned := pn_tail ?u\<rparr>"
  have sh: "shape ?q = shape p" by simp
  have wq: "wf_ring env ?q" and cq: "ring_count env ?q = ring_count env p"
    using shape_fields [OF sh] wf by auto
  have v: "max_of env ?q i = max_of env p i" "gain_of env ?q i = gain_of env p i" for i
    using shape_speeds [OF sh wf] by auto
  have e: "entry_of env ?q i = (if i = 0 then reported env (entry_of env p 0) else entry_of env p i)"
    if "i < ring_count env p" for i
    using entry_update [OF wf, of i] that ring_count_blocks [OF wf] by simp
  have sp: "speed_in env ?q i = speed_in env p i" if "i < ring_count env p" for i
    using e [OF that] that by (cases i) (auto simp: speed_in_def)
  have "\<exists>p' k'. planner_recalculate env ?q = Some p' \<and> shape p' = shape ?q \<and> planned_at env p' k' \<and> feasible env p'"
  proof (rule recalculate_feasible [OF wq, of 0])
    show "planned_at env ?q 0" using wf by (simp add: planned_at_def ring_ix_0 wf_ring_def)
    show "0 < ring_count env ?q" using n cq by simp
    show "sound_ring env ?q"
    proof (rule sound_ringI)
      fix j assume "j < ring_count env ?q"
      then have j: "j < ring_count env p" using cq by simp
      show "is_f32 (entry_of env ?q j) \<and> 0 \<le> entry_of env ?q j
          \<and> is_f32 (max_of env ?q j) \<and> 0 \<le> max_of env ?q j \<and> 0 \<le> gain_of env ?q j"
        using e [OF j] v sound_ringD [OF s j] sound_ringD [OF s n] reported_sound by auto
    qed
    show "\<forall>i<ring_count env ?q. can_brake env ?q i"
      using br sp e v cq by (auto simp: can_brake_def)
    show "\<forall>i<ring_count env ?q. 0 < i \<longrightarrow> entry_of env ?q i \<le> max_of env ?q i"
      using le e v cq by auto
  qed simp
  then obtain p' k' where p': "planner_recalculate env ?q = Some p'" "shape p' = shape p" "planned_at env p' k'" "feasible env p'"
    using sh by auto
  have "plan_cycle_reinitialize env p = Some p'" using p'(1) by (simp add: plan_cycle_reinitialize_def Let_def)
  moreover have "wf_ring env p'" using shape_fields(6) [OF p'(2)] wf by blast
  ultimately show ?thesis
    using p'(3,4) shape_pending [OF p'(2) wf] by (auto simp: planner_ok_def)
qed

lemma fresh_planner:
  assumes "2 \<le> pe_blocks env" "length (pn_buffer p) = pe_blocks env"
  shows "planner_ok env (plan_reset env p)" "pending env (plan_reset env p) = []"
proof -
  have "ring_count env (plan_reset env p) = 0"
    using assms by (simp add: ring_count_def plan_reset_def plan_reset_buffer_def)
  then show "planner_ok env (plan_reset env p)" "pending env (plan_reset env p) = []"
    using assms by (auto simp: planner_ok_def wf_ring_def planned_at_def feasible_def sound_ring_def ring_ix_def
        plan_reset_def plan_reset_buffer_def plan_next_block_index_def pending_def)
qed

end
