(* ===== verification/PlannerRun.thy ===== *)
theory PlannerRun
  imports PlannerMotion
begin

text \<open>
  The planner in operation: any sequence of resets, new motions, progress of the stepper through
  the first block, ends of blocks and restarts after a hold keeps a feasible plan.
\<close>

subsection \<open>Progress\<close>

text \<open>
  The stepper is in the first block: at speed \<open>v\<close>, with \<open>mm\<close> left of it. While it follows the plan
  it can still brake to the next entry speed and still reach it; after a hold only the former.
\<close>

definition in_first_block :: "real \<Rightarrow> plan_env \<Rightarrow> plan_env" where
  "in_first_block v env = env\<lparr>pe_executing := Some v\<rparr>"

definition left_of_block :: "real \<Rightarrow> planner \<Rightarrow> planner" where
  "left_of_block mm p = set_block (pn_tail p) (\<lambda>b. b\<lparr>pb_millimeters := mm\<rparr>) p"

inductive planner_reach :: "plan_env \<Rightarrow> planner \<Rightarrow> bool" where
  reset: "\<lbrakk>2 \<le> pe_blocks env; length (pn_buffer p) = pe_blocks env\<rbrakk> \<Longrightarrow> planner_reach env (plan_reset env p)"
| motion: "\<lbrakk>planner_reach env p; \<not> plan_check_full_buffer p;
     ring_count env p = 0 \<longrightarrow> pe_executing env = None;
     plan_buffer_line env target l p = Some (r, p')\<rbrakk> \<Longrightarrow> planner_reach env p'"
| progress: "\<lbrakk>planner_reach env p; 0 < ring_count env p; 0 \<le> gain_of env (left_of_block mm p) 0;
     can_brake (in_first_block v env) (left_of_block mm p) 0;
     can_reach (in_first_block v env) (left_of_block mm p) 0\<rbrakk>
     \<Longrightarrow> planner_reach (in_first_block v env) (left_of_block mm p)"
| block_end: "\<lbrakk>planner_reach env p; 0 < ring_count env p\<rbrakk>
     \<Longrightarrow> planner_reach (between_blocks env) (plan_discard_current_block env p)"
| restart: "\<lbrakk>planner_reach env p; 0 < ring_count env p; 0 \<le> gain_of env (left_of_block mm p) 0;
     can_brake (in_first_block v env) (left_of_block mm p) 0;
     plan_cycle_reinitialize (in_first_block v env) (left_of_block mm p) = Some p'\<rbrakk>
     \<Longrightarrow> planner_reach (in_first_block v env) p'"

inductive_cases planner_reachE: "planner_reach env p"

lemma in_first_block_views [simp]:
  "pe_executing (in_first_block v env) = Some v" "pe_blocks (in_first_block v env) = pe_blocks env"
  "ring_ix (in_first_block v env) = ring_ix env" "ring_count (in_first_block v env) = ring_count env"
  "entry_of (in_first_block v env) = entry_of env" "max_of (in_first_block v env) = max_of env"
  "gain_of (in_first_block v env) = gain_of env" "pending (in_first_block v env) = pending env"
  "sound_ring (in_first_block v env) = sound_ring env" "wf_ring (in_first_block v env) = wf_ring env"
  "planned_at (in_first_block v env) = planned_at env"
  by (simp_all add: in_first_block_def fun_eq_iff ring_ix_def ring_count_def entry_of_def max_of_def gain_of_def
      pending_def sound_ring_def wf_ring_def planned_at_def plan_next_block_index_def)

lemma left_of_block_views:
  assumes wf: "wf_ring env p"
  shows "wf_ring env (left_of_block mm p)" "ring_count env (left_of_block mm p) = ring_count env p"
    "planned_at env (left_of_block mm p) k = planned_at env p k"
    "i < ring_count env p \<Longrightarrow> entry_of env (left_of_block mm p) i = entry_of env p i"
    "i < ring_count env p \<Longrightarrow> max_of env (left_of_block mm p) i = max_of env p i"
    "i < ring_count env p \<Longrightarrow> gain_of env (left_of_block mm p) i =
       (if i = 0 then fmul (fmul 2 (pb_acceleration (block_at p (pn_tail p)))) mm else gain_of env p i)"
proof -
  let ?q = "left_of_block mm p"
  have q: "pn_tail ?q = pn_tail p" "pn_head ?q = pn_head p" "pn_next_head ?q = pn_next_head p"
    "pn_planned ?q = pn_planned p" "length (pn_buffer ?q) = length (pn_buffer p)"
    by (simp_all add: left_of_block_def set_block_def)
  show "wf_ring env ?q" "ring_count env ?q = ring_count env p" "planned_at env ?q k = planned_at env p k"
    using wf q by (simp_all add: wf_ring_def ring_count_def planned_at_def)
  assume i: "i < ring_count env p"
  have at_tail: "ring_ix env (pn_tail p) i = pn_tail p \<longleftrightarrow> i = 0"
    using ring_ix_eq [of i env 0 "pn_tail p"] i ring_count_blocks [OF wf] wf by (simp add: ring_ix_0 wf_ring_def)
  have "block_at ?q (ring_ix env (pn_tail p) i) =
      (if i = 0 then (block_at p (pn_tail p))\<lparr>pb_millimeters := mm\<rparr> else block_at p (ring_ix env (pn_tail p) i))"
    using at_tail wf by (auto simp: left_of_block_def set_block_def block_at_def wf_ring_def)
  moreover have "i = 0 \<Longrightarrow> ring_ix env (pn_tail p) i = pn_tail p" using at_tail by simp
  ultimately show "entry_of env ?q i = entry_of env p i" "max_of env ?q i = max_of env p i"
    "gain_of env ?q i = (if i = 0 then fmul (fmul 2 (pb_acceleration (block_at p (pn_tail p)))) mm else gain_of env p i)"
    using q by (auto simp: entry_of_def max_of_def gain_of_def speed_gain_def)
qed

text \<open>Progress leaves the plan of the later blocks alone.\<close>

lemma progress_plan:
  fixes v mm :: real
  assumes wf: "wf_ring env p" and f: "feasible env p" and n: "0 < ring_count env p" 
    and mm: "0 \<le> gain_of env (left_of_block mm p) 0"
  defines "e \<equiv> in_first_block v env" and "q \<equiv> left_of_block mm p"
  shows "sound_ring e q" "\<forall>i<ring_count env p. 0 < i \<longrightarrow> can_brake e q i \<and> can_reach e q i \<and> entry_of e q i \<le> max_of e q i"
proof -
  note l = left_of_block_views [OF wf, where mm = mm, folded q_def]
  have s: "sound_ring env p" using f by (simp add: feasible_def)
  have g: "gain_of env q i = gain_of env p i" if "i < ring_count env p" "0 < i" for i using l(6) that by simp
  have "sound_ring env q"
  proof (rule sound_ringI)
    fix j assume "j < ring_count env q"
    then have j: "j < ring_count env p" using l by simp
    show "is_f32 (entry_of env q j) \<and> 0 \<le> entry_of env q j
        \<and> is_f32 (max_of env q j) \<and> 0 \<le> max_of env q j \<and> 0 \<le> gain_of env q j"
      using l(4,5) [OF j] sound_ringD [OF s j] g [OF j] mm by (cases "j = 0") (simp_all add: q_def)
  qed
  then show "sound_ring e q" by (simp add: e_def)
  have "can_brake e q i \<and> can_reach e q i \<and> entry_of e q i \<le> max_of e q i"
    if i: "i < ring_count env p" "0 < i" for i
  proof -
    have "can_brake env p i" "can_reach env p i" "entry_of env p i \<le> max_of env p i"
      using f i by (auto simp: feasible_def)
    then show ?thesis using i l(2,4,5) g [OF i]
      by (cases "Suc i < ring_count env p") (simp_all add: can_brake_def can_reach_def e_def)
  qed
  then show "\<forall>i<ring_count env p. 0 < i \<longrightarrow> can_brake e q i \<and> can_reach e q i \<and> entry_of e q i \<le> max_of e q i"
    by blast
qed

theorem reachable_planner_ok:
  assumes "planner_reach env p"
  shows "planner_ok env p"
  using assms
proof induction
  case (reset env p)
  then show ?case by (rule fresh_planner)
next
  case (motion env p target l r p')
  then show ?case using new_motion [of env p target l] by auto
next
  case (progress env p mm v)
  let ?e = "in_first_block v env" and ?q = "left_of_block mm p"
  have wf: "wf_ring env p" and f: "feasible env p" using progress.IH by (auto simp: planner_ok_def)
  note pr = progress_plan [OF wf f progress.hyps(2,3), of v]
  have c: "ring_count env ?q = ring_count env p" by (rule left_of_block_views [OF wf])
  have "can_brake ?e ?q i \<and> can_reach ?e ?q i" if "i < ring_count env p" for i
    using pr(2) progress.hyps(4,5) that by (cases "i = 0") auto
  then have "feasible ?e ?q" using pr c by (simp add: feasible_def)
  then show ?case using progress.IH left_of_block_views [OF wf] by (auto simp: planner_ok_def)
next
  case (block_end env p)
  then show ?case by (intro end_of_block)
next
  case (restart env p mm v p')
  let ?e = "in_first_block v env" and ?q = "left_of_block mm p"
  have wf: "wf_ring env p" and f: "feasible env p" using restart.IH by (auto simp: planner_ok_def)
  note pr = progress_plan [OF wf f restart.hyps(2,3), of v]
  have c: "ring_count env ?q = ring_count env p" and wq: "wf_ring env ?q"
    by (rule left_of_block_views [OF wf])+
  have "\<exists>p'. plan_cycle_reinitialize ?e ?q = Some p' \<and> planner_ok ?e p'
     \<and> map no_entry (pending ?e p') = map no_entry (pending ?e ?q)"
  proof (rule plan_again)
    show "wf_ring ?e ?q" using wq by simp
    show "0 < ring_count ?e ?q" using restart.hyps(2) c by simp
    show "sound_ring ?e ?q" by (rule pr)
    show "\<forall>i<ring_count ?e ?q. can_brake ?e ?q i"
    proof (intro allI impI)
      fix i assume "i < ring_count ?e ?q"
      then show "can_brake ?e ?q i" using pr(2) restart.hyps(4) c by (cases "i = 0") auto
    qed
    show "\<forall>i<ring_count ?e ?q. 0 < i \<longrightarrow> entry_of ?e ?q i \<le> max_of ?e ?q i" using pr(2) c by simp
  qed
  then show ?case using restart.hyps(5) by auto
qed

end
