(* ===== verification/PlannerSteps.thy ===== *)
theory PlannerSteps
  imports PlannerRun
begin

text \<open>
  What the rest of the program reads from the planner, and where the steps of a queued block
  lead: from the position of the planner to the target of the motion, axis by axis, also where
  the position wraps around.
\<close>

subsection \<open>The ring as its readers see it\<close>

lemma available_blocks:
  assumes "wf_ring env p"
  shows "plan_get_block_buffer_available env p = pe_blocks env - 1 - ring_count env p"
proof (cases "pn_tail p \<le> pn_head p")
  case True
  then have "pn_head p + pe_blocks env - pn_tail p = (pn_head p - pn_tail p) + pe_blocks env" by simp
  then have "ring_count env p = pn_head p - pn_tail p"
    unfolding ring_count_def using assms by (simp add: wf_ring_def less_imp_diff_less)
  then show ?thesis using True by (simp add: plan_get_block_buffer_available_def)
next
  case False
  then have "pn_head p + pe_blocks env - pn_tail p < pe_blocks env"
    using assms unfolding wf_ring_def by linarith
  then have "ring_count env p = pn_head p + pe_blocks env - pn_tail p" by (simp add: ring_count_def)
  then show ?thesis using False assms by (simp add: plan_get_block_buffer_available_def wf_ring_def)
qed

lemma full_when_none_available:
  assumes wf: "wf_ring env p"
  shows "plan_check_full_buffer p \<longleftrightarrow> plan_get_block_buffer_available env p = 0"
proof -
  have lt: "ring_count env p < pe_blocks env" by (rule ring_count_blocks [OF wf])
  have nh: "pn_next_head p = ring_ix env (pn_tail p) (Suc (ring_count env p))"
    using wf head_ix [OF wf] next_ix by (metis wf_ring_blocks wf_ring_def)
  have "plan_check_full_buffer p \<Longrightarrow> Suc (ring_count env p) = pe_blocks env"
  proof (rule ccontr)
    assume full: "plan_check_full_buffer p" and "Suc (ring_count env p) \<noteq> pe_blocks env"
    then have "Suc (ring_count env p) < pe_blocks env" using lt by simp
    then have "pn_next_head p \<noteq> pn_tail p"
      using nh ring_ix_eq [of "Suc (ring_count env p)" env 0 "pn_tail p"] wf
      by (simp add: ring_ix_0 wf_ring_def)
    then show False using full by (simp add: plan_check_full_buffer_def)
  qed
  moreover have "Suc (ring_count env p) = pe_blocks env \<Longrightarrow> plan_check_full_buffer p"
    unfolding plan_check_full_buffer_def nh using wf by (simp add: ring_ix_def wf_ring_def)
  ultimately show ?thesis using lt by (auto simp: available_blocks [OF wf])
qed

lemma current_block:
  assumes "wf_ring env p"
  shows "plan_get_current_block p = (if pending env p = [] then None else Some (hd (pending env p)))"
proof -
  have "pending env p = [] \<longleftrightarrow> pn_head p = pn_tail p"
    using ring_count_0 [OF assms] by (metis length_0_conv length_pending)
  moreover have "pending env p \<noteq> [] \<Longrightarrow> 0 < ring_count env p"
    by (metis length_greater_0_conv length_pending)
  moreover have "0 < ring_count env p \<Longrightarrow> hd (pending env p) = block_at p (pn_tail p)"
    using assms by (simp add: hd_conv_nth nth_pending ring_ix_0 wf_ring_def flip: length_greater_0_conv)
  ultimately show ?thesis by (auto simp: plan_get_current_block_def)
qed

text \<open>The first block ends at the speed at which the second is entered, the last one at rest.\<close>

lemma exit_speed:
  assumes wf: "wf_ring env p" and n: "0 < ring_count env p"
  shows "plan_get_exec_block_exit_speed_sqr env p = (if 1 < ring_count env p then entry_of env p 1 else 0)"
proof -
  have next': "plan_next_block_index env (pn_tail p) = ring_ix env (pn_tail p) 1"
    using next_ix [OF wf_ring_blocks [OF wf], of "pn_tail p" 0] wf by (simp add: ring_ix_0 wf_ring_def)
  have "ring_ix env (pn_tail p) 1 = pn_head p \<longleftrightarrow> ring_count env p = 1"
    using ring_ix_eq [of 1 env "ring_count env p" "pn_tail p"] head_ix [OF wf] ring_count_blocks [OF wf] wf
    by (auto simp: wf_ring_def)
  then show ?thesis using n by (auto simp: plan_get_exec_block_exit_speed_sqr_def Let_def next' entry_of_def)
qed

subsection \<open>Steps\<close>

text \<open>The signed steps of a block on one axis, as the stepper takes them.\<close>

definition block_delta :: "plan_block \<Rightarrow> nat \<Rightarrow> i32" where
  "block_delta b axis = (if bit (pb_direction_bits b) axis then - (pb_steps b ! axis) else pb_steps b ! axis)"

lemma direction_bit:
  fixes w :: u16
  assumes "a < 16"
  shows "bit (foldl (\<lambda>bits axis. if P axis then set_bit axis bits else bits) w [0..<n]) a
     \<longleftrightarrow> bit w a \<or> (a < n \<and> P a)"
  using assms by (induction n) (auto simp: bit_set_bit_iff less_Suc_eq)

lemma f32_neg:
  assumes "x \<le> - (1 / 2 ^ 149)"
  shows "f32 x < 0"
proof -
  have "f32 (1 / 2 ^ 149) = (1 :: real) / 2 ^ 149" using f32_dyadic [of 1 149] by simp
  then have "f32 (- (1 / 2 ^ 149)) < 0" by simp
  moreover have "f32 x \<le> f32 (- (1 / 2 ^ 149))" using assms by (rule f32_mono)
  ultimately show ?thesis by linarith
qed

text \<open>The direction of an axis is that of its steps.\<close>

lemma direction_of_steps:
  assumes "0 < pe_steps_per_mm env ! axis" "pe_steps_per_mm env ! axis \<le> 2 ^ 100"
  shows "steps_to_motor_pos env axis d < 0 \<longleftrightarrow> sint d < 0"
proof
  assume neg: "sint d < 0"
  have "fint (sint d) \<le> fint (- 1)" using neg by (intro fint_mono) simp
  then have n: "fint (sint d) \<le> - 1" by (simp add: fint_exact)
  have "1 / 2 ^ 149 \<le> 1 / (pe_steps_per_mm env ! axis)"
    using assms by (intro divide_left_mono) (auto intro: order_trans)
  also have "\<dots> \<le> - fint (sint d) / (pe_steps_per_mm env ! axis)"
    using assms n by (intro divide_right_mono) auto
  finally have "fint (sint d) / (pe_steps_per_mm env ! axis) \<le> - (1 / 2 ^ 149)"
    unfolding minus_divide_left [symmetric] by linarith
  then show "steps_to_motor_pos env axis d < 0" by (simp add: steps_to_motor_pos_def fdiv_def f32_neg)
next
  assume "steps_to_motor_pos env axis d < 0"
  moreover have "0 \<le> sint d \<Longrightarrow> 0 \<le> steps_to_motor_pos env axis d"
    using assms by (simp add: steps_to_motor_pos_def fdiv_def f32_nonneg fint_nonneg)
  ultimately show "sint d < 0" by linarith
qed

lemma signed_steps:
  fixes d :: i32
  shows "(if sint d < 0 then - word_of_int \<bar>sint d\<bar> else word_of_int \<bar>sint d\<bar>) = d"
  by simp

lemma with_distance_delta:
  assumes "length deltas \<le> 16" "a < length deltas" "pb_direction_bits b = 0"
    and "0 < pe_steps_per_mm env ! a" "pe_steps_per_mm env ! a \<le> 2 ^ 100"
  shows "block_delta (with_distance env deltas b) a = deltas ! a"
proof -
  have "bit (pb_direction_bits (with_distance env deltas b)) a \<longleftrightarrow> sint (deltas ! a) < 0"
    using assms direction_bit [of a "\<lambda>axis. steps_to_motor_pos env axis (deltas ! axis) < 0" 0 "length deltas"]
    by (simp add: with_distance_def Let_def direction_of_steps)
  then show ?thesis
    using assms(2) signed_steps [of "deltas ! a"] by (simp add: block_delta_def with_distance_def Let_def)
qed

text \<open>
  A motion that was queued: its steps take every axis from where the planner was to the steps of
  the target, and that is where the planner is then.
\<close>

theorem steps_lead_to_target:
  assumes ok: "planner_ok env p" and room: "\<not> plan_check_full_buffer p"
    and idle: "ring_count env p = 0 \<Longrightarrow> pe_executing env = None"
    and axes: "pe_n_axis env \<le> 16" "length (pn_position p) = pe_n_axis env"
    and scale: "\<forall>a<pe_n_axis env. 0 < pe_steps_per_mm env ! a \<and> pe_steps_per_mm env ! a \<le> 2 ^ 100"
    and line: "\<not> pl_systemMotion l"
    and run: "plan_buffer_line env target l p = Some (BrQueued, p')" and a: "a < pe_n_axis env"
  shows "pn_position p' ! a = motor_pos_to_steps env a (target ! a)
     \<and> pn_position p' ! a = pn_position p ! a + block_delta (last (pending env p')) a"
proof -
  let ?d = "with_distance env (line_deltas env target l p) (block_of_line l)"
  obtain c where c: "map no_entry (pending env p') = map no_entry (pending env p) @ [c]"
    and s: "pb_steps c = pb_steps ?d" "pb_direction_bits c = pb_direction_bits ?d"
    and pos: "pn_position p' = map (\<lambda>axis. motor_pos_to_steps env axis (target ! axis)) [0..<pe_n_axis env]"
    using new_motion [OF ok room idle, of target l] run line by (auto simp: Let_def)
  have "pending env p' \<noteq> []" using c by (metis append_is_Nil_conv list.map(1) not_Cons_self2)
  then have "no_entry (last (pending env p')) = c" using arg_cong [OF c, of last] by (simp add: last_map)
  moreover have "block_delta (no_entry b) a = block_delta b a" for b by (simp add: block_delta_def no_entry_def)
  ultimately have "block_delta (last (pending env p')) a = block_delta ?d a"
    using s by (metis block_delta_def)
  also have "\<dots> = line_deltas env target l p ! a"
    by (rule with_distance_delta)
      (use axes a scale in \<open>simp_all add: line_deltas_def move_steps_def block_of_line_def zero_block_def\<close>)
  also have "\<dots> = motor_pos_to_steps env a (target ! a) - pn_position p ! a"
    using a line by (simp add: line_deltas_def move_steps_def)
  finally show ?thesis using a by (simp add: pos)
qed

end
