(* ===== verification/ArcExtent.thy ===== *)
theory ArcExtent
  imports Cartesian
begin

text \<open>
  The extent of an arc. The crossings that the decision tree finds bound every point of the arc:
  in a direction that is not crossed the arc does not go beyond its end points.
\<close>

subsection \<open>Sine and cosine between their extrema\<close>

text \<open>Between two maxima the cosine is largest at the ends of an interval.\<close>

lemma cos_between_maxima:
  assumes "0 \<le> a" "a \<le> t" "t \<le> b" "b \<le> 2 * pi"
  shows "cos t \<le> max (cos a) (cos b)"
proof (cases "t \<le> pi")
  case True
  then have "cos t \<le> cos a" using assms by (intro cos_monotone_0_pi_le) auto
  then show ?thesis by simp
next
  case False
  have "cos (2 * pi - t) \<le> cos (2 * pi - b)" using assms False by (intro cos_monotone_0_pi_le) auto
  then show ?thesis by (simp add: cos_diff)
qed

lemma turn: "cos (x - 2 * pi) = cos x" "sin (x - 2 * pi) = sin x" "cos (x + 2 * pi) = cos x" for x :: real
  by (simp_all add: cos_diff sin_diff)

lemma cos_max_at_ends:
  assumes "\<phi> - 2 * pi \<le> a \<and> b \<le> \<phi> \<or> \<phi> \<le> a \<and> b \<le> \<phi> + 2 * pi" "a \<le> t" "t \<le> b"
  shows "cos (t - \<phi>) \<le> max (cos (a - \<phi>)) (cos (b - \<phi>))"
  using assms(1)
proof
  assume "\<phi> - 2 * pi \<le> a \<and> b \<le> \<phi>"
  then have "cos (t - \<phi> + 2 * pi) \<le> max (cos (a - \<phi> + 2 * pi)) (cos (b - \<phi> + 2 * pi))"
    using assms(2,3) by (intro cos_between_maxima) auto
  then show ?thesis unfolding turn .
next
  assume "\<phi> \<le> a \<and> b \<le> \<phi> + 2 * pi"
  then show ?thesis using assms(2,3) by (intro cos_between_maxima) auto
qed

text \<open>The quadrant of an angle, as the decision tree sees it.\<close>

lemma upper_half: "0 \<le> a \<Longrightarrow> a < 2 * pi \<Longrightarrow> 0 \<le> sin a \<longleftrightarrow> a \<le> pi"
  using sin_ge_zero [of a] sin_lt_zero [of a] by (cases "a \<le> pi") auto

lemma right_half:
  assumes "0 \<le> a" "a < 2 * pi"
  shows "0 < cos a \<longleftrightarrow> a < pi / 2 \<or> 3 * pi / 2 < a"
proof -
  have "0 < cos a" if "a < pi / 2" using cos_gt_zero_pi [of a] that assms by simp
  moreover have "0 < cos a" if "3 * pi / 2 < a"
    using cos_gt_zero_pi [of "a - 2 * pi"] that assms by (simp add: turn)
  moreover have "\<not> 0 < cos a" if "pi / 2 \<le> a" "a \<le> 3 * pi / 2"
  proof -
    have "0 \<le> cos (a - pi)" using that by (intro cos_ge_zero) auto
    then show ?thesis by (simp add: cos_diff)
  qed
  ultimately show ?thesis by fastforce
qed

lemma upper_order: "0 \<le> a \<Longrightarrow> a \<le> pi \<Longrightarrow> 0 \<le> b \<Longrightarrow> b \<le> pi \<Longrightarrow> cos a \<le> cos b \<longleftrightarrow> b \<le> a"
  by (simp add: cos_mono_le_eq)

lemma lower_order:
  assumes "pi \<le> a" "a \<le> 2 * pi" "pi \<le> b" "b \<le> 2 * pi"
  shows "cos a \<le> cos b \<longleftrightarrow> a \<le> b"
proof -
  have "cos (2 * pi - a) \<le> cos (2 * pi - b) \<longleftrightarrow> 2 * pi - b \<le> 2 * pi - a"
    using assms by (intro upper_order) auto
  then show ?thesis by (simp add: cos_diff)
qed

subsection \<open>The crossings\<close>

text \<open>
  Angles of start and end in \<open>[0, 2\<pi>)\<close>. Where a crossing is not found, the counterclockwise way
  from \<open>a\<close> to \<open>b\<close> does not pass through the direction.
\<close>

lemma arc_crossings_angles:
  assumes r: "0 < r" and a: "0 \<le> a" "a < 2 * pi" and b: "0 \<le> b" "b < 2 * pi"
  defines "c \<equiv> arc_crossings (r * cos a) (r * sin a) (r * cos b) (r * sin b)"
  shows "\<not> cr_p0 c \<Longrightarrow> a < b"
    "\<not> cr_m0 c \<Longrightarrow> a < b \<and> (b \<le> pi \<or> pi \<le> a) \<or> b \<le> a \<and> pi \<le> a \<and> b \<le> pi"
    "\<not> cr_p1 c \<Longrightarrow> a < b \<and> (b \<le> pi / 2 \<or> pi / 2 \<le> a) \<or> b \<le> a \<and> pi / 2 \<le> a \<and> b \<le> pi / 2"
    "\<not> cr_m1 c \<Longrightarrow> a < b \<and> (b \<le> 3 * pi / 2 \<or> 3 * pi / 2 \<le> a) \<or> b \<le> a \<and> 3 * pi / 2 \<le> a \<and> b \<le> 3 * pi / 2"
proof -
  have q: "0 \<le> r * sin a \<longleftrightarrow> a \<le> pi" "0 \<le> r * sin b \<longleftrightarrow> b \<le> pi"
    "0 < r * cos a \<longleftrightarrow> a < pi / 2 \<or> 3 * pi / 2 < a" "0 < r * cos b \<longleftrightarrow> b < pi / 2 \<or> 3 * pi / 2 < b"
    using r upper_half [OF a] upper_half [OF b] right_half [OF a] right_half [OF b]
    by (auto simp: zero_le_mult_iff zero_less_mult_iff)
  have o: "r * cos x \<le> r * cos y \<longleftrightarrow> cos x \<le> cos y" for x y using r by simp
  have u: "a \<le> pi \<Longrightarrow> b \<le> pi \<Longrightarrow> r * cos a \<le> r * cos b \<longleftrightarrow> b \<le> a" using o upper_order a b by simp
  have l: "\<not> a \<le> pi \<Longrightarrow> \<not> b \<le> pi \<Longrightarrow> r * cos b \<le> r * cos a \<longleftrightarrow> b \<le> a" using o lower_order a b by simp
  show "\<not> cr_p0 c \<Longrightarrow> a < b"
    "\<not> cr_m0 c \<Longrightarrow> a < b \<and> (b \<le> pi \<or> pi \<le> a) \<or> b \<le> a \<and> pi \<le> a \<and> b \<le> pi"
    "\<not> cr_p1 c \<Longrightarrow> a < b \<and> (b \<le> pi / 2 \<or> pi / 2 \<le> a) \<or> b \<le> a \<and> pi / 2 \<le> a \<and> b \<le> pi / 2"
    "\<not> cr_m1 c \<Longrightarrow> a < b \<and> (b \<le> 3 * pi / 2 \<or> 3 * pi / 2 \<le> a) \<or> b \<le> a \<and> 3 * pi / 2 \<le> a \<and> b \<le> 3 * pi / 2"
    unfolding c_def arc_crossings_def q
    using u l by (auto simp: no_crossing_def all_crossings_def split: if_splits) (use pi_gt_zero in \<open>linarith+\<close>)
qed

text \<open>
  The arc from angle \<open>a\<close> counterclockwise to \<open>b\<close>, a whole turn if they are the same, around the
  centre \<open>(c0, c1)\<close>. Its extent is that of its end points, or of the whole circle where it crosses.
\<close>

lemma arc_within:
  assumes r: "0 < r" and a: "0 \<le> a" "a < 2 * pi" and b: "0 \<le> b" "b < 2 * pi"
    and t: "a \<le> t" "t \<le> (if a < b then b else b + 2 * pi)"
  defines "c \<equiv> arc_crossings (r * cos a) (r * sin a) (r * cos b) (r * sin b)"
  shows "\<not> cr_p0 c \<Longrightarrow> cos t \<le> max (cos a) (cos b)" "\<not> cr_m0 c \<Longrightarrow> min (cos a) (cos b) \<le> cos t"
    "\<not> cr_p1 c \<Longrightarrow> sin t \<le> max (sin a) (sin b)" "\<not> cr_m1 c \<Longrightarrow> min (sin a) (sin b) \<le> sin t"
proof -
  define b' where "b' = (if a < b then b else b + 2 * pi)"
  have b': "cos b' = cos b" "sin b' = sin b" by (auto simp: b'_def)
  note ca = arc_crossings_angles [OF r a b, folded c_def]
  note ends = cos_max_at_ends [of _ a b' t, OF _ t(1) t(2) [folded b'_def]]
  show "cos t \<le> max (cos a) (cos b)" if "\<not> cr_p0 c"
    using ends [of 0] ca(1) [OF that] a b by (simp add: b' b'_def)
  have "cos (t - pi) \<le> max (cos (a - pi)) (cos (b' - pi))" if "\<not> cr_m0 c"
    by (rule ends) (use ca(2) [OF that] a b in \<open>auto simp: b'_def\<close>)
  then show "min (cos a) (cos b) \<le> cos t" if "\<not> cr_m0 c" using that by (auto simp: cos_diff b' max_def min_def split: if_splits)
  have s: "cos (x - pi / 2) = sin x" "cos (x - 3 * pi / 2) = - sin x" for x
  proof -
    show "cos (x - pi / 2) = sin x" by (simp add: cos_diff)
    have "x - 3 * pi / 2 = (x - pi) - pi / 2" by (simp add: field_simps)
    then have "cos (x - 3 * pi / 2) = cos ((x - pi) - pi / 2)" by (rule arg_cong)
    also have "\<dots> = sin (x - pi)" unfolding cos_diff by simp
    also have "\<dots> = - sin x" unfolding sin_diff by simp
    finally show "cos (x - 3 * pi / 2) = - sin x" .
  qed
  have "cos (t - pi / 2) \<le> max (cos (a - pi / 2)) (cos (b' - pi / 2))" if "\<not> cr_p1 c"
    by (rule ends) (use ca(3) [OF that] a b in \<open>auto simp: b'_def\<close>)
  then show "sin t \<le> max (sin a) (sin b)" if "\<not> cr_p1 c" using that by (simp add: s b')
  have "cos (t - 3 * pi / 2) \<le> max (cos (a - 3 * pi / 2)) (cos (b' - 3 * pi / 2))" if "\<not> cr_m1 c"
    by (rule ends) (use ca(4) [OF that] a b in \<open>auto simp: b'_def\<close>)
  then show "min (sin a) (sin b) \<le> sin t" if "\<not> cr_m1 c" using that by (auto simp: s b' max_def min_def split: if_splits)
qed

subsection \<open>Accepted arcs\<close>

text \<open>The point lies on the circle of the arc, at the angle, and so do its coordinates as floats.\<close>

definition on_circle :: "arc \<Rightarrow> real list \<Rightarrow> real \<Rightarrow> bool" where
  "on_circle a p angle \<longleftrightarrow> (let (c0, c1) = arc_center a; (x, y, _) = arc_axes a; r = arc_radius a
     in 0 \<le> angle \<and> angle < 2 * pi \<and> p ! x = c0 + r * cos angle \<and> p ! y = c1 + r * sin angle
        \<and> is_f32 (p ! x) \<and> is_f32 (p ! y) \<and> is_f32 (r * cos angle) \<and> is_f32 (r * sin angle))"

definition within_limits :: "kin_env \<Rightarrow> nat \<Rightarrow> real \<Rightarrow> bool" where
  "within_limits env axis v \<longleftrightarrow> (kn_soft_limits env ! axis \<longrightarrow>
     limitsMinPosition env axis \<le> v \<and> v \<le> limitsMaxPosition env axis)"

lemma check_extent_ok: "check_extent env axis amin amax = None \<longleftrightarrow>
   limitsMinPosition env axis \<le> amin \<and> amax \<le> limitsMaxPosition env axis"
  by (auto simp: check_extent_def)

lemma f32_between:
  assumes "lo \<le> x" "x \<le> hi"
  shows "f32 lo \<le> f32 x" "f32 x \<le> f32 hi"
  using assms by (auto intro: f32_mono)

text \<open>One coordinate: either bounded by the end points, or by the whole circle.\<close>

lemma axis_within:
  assumes ok: "arc_axis_invalid env a axis c m p = None" and r: "0 < arc_radius a"
    and u: "-1 \<le> u" "u \<le> 1"
    and f: "is_f32 (arc_target a ! axis)" "is_f32 (arc_position a ! axis)"
    and hi: "\<not> p \<Longrightarrow> c + arc_radius a * u \<le> max (arc_target a ! axis) (arc_position a ! axis)"
    and lo: "\<not> m \<Longrightarrow> min (arc_target a ! axis) (arc_position a ! axis) \<le> c + arc_radius a * u"
  shows "within_limits env axis (f32 (c + arc_radius a * u))"
proof -
  let ?v = "c + arc_radius a * u"
  have ru: "arc_radius a * u \<le> arc_radius a" "- arc_radius a \<le> arc_radius a * u"
    using mult_left_mono [OF u(2), of "arc_radius a"] mult_left_mono [OF u(1), of "arc_radius a"] r by auto
  have fm: "is_f32 (min (arc_target a ! axis) (arc_position a ! axis))"
    "is_f32 (max (arc_target a ! axis) (arc_position a ! axis))"
    using f by (auto simp: min_def max_def)
  have "f32 ?v \<le> (if p then fadd c (arc_radius a) else max (arc_target a ! axis) (arc_position a ! axis))"
    using hi ru fm(2) by (auto simp: fadd_def intro: f32_mono f32_le_bound)
  moreover have "(if m then fsub c (arc_radius a) else min (arc_target a ! axis) (arc_position a ! axis)) \<le> f32 ?v"
    using lo ru fm(1) by (auto simp: fsub_def intro!: f32_mono f32_ge_bound)
  ultimately show ?thesis
    using ok unfolding within_limits_def arc_axis_invalid_def by (auto simp: check_extent_ok)
qed

theorem accepted_arc_within:
  assumes ok: "invalid_arc env a = None" and r: "0 < arc_radius a"
    and p: "on_circle a (arc_position a) from_angle" "on_circle a (arc_target a) to_angle"
    and ab: "(\<alpha>, \<beta>) = (if arc_clockwise a then (to_angle, from_angle) else (from_angle, to_angle))"
    and t: "\<alpha> \<le> t" "t \<le> (if \<alpha> < \<beta> then \<beta> else \<beta> + 2 * pi)"
    and axes: "arc_center a = (c0, c1)" "arc_axes a = (x, y, z)"
  shows "within_limits env x (f32 (c0 + arc_radius a * cos t)) \<and> within_limits env y (f32 (c1 + arc_radius a * sin t))"
proof -
  let ?r = "arc_radius a" and ?P = "arc_position a" and ?T = "arc_target a"
  have P: "0 \<le> from_angle" "from_angle < 2 * pi" "?P ! x = c0 + ?r * cos from_angle" "?P ! y = c1 + ?r * sin from_angle"
    "is_f32 (?P ! x)" "is_f32 (?P ! y)" "is_f32 (?r * cos from_angle)" "is_f32 (?r * sin from_angle)"
    using p(1) unfolding on_circle_def Let_def axes prod.case by blast+
  have T: "0 \<le> to_angle" "to_angle < 2 * pi" "?T ! x = c0 + ?r * cos to_angle" "?T ! y = c1 + ?r * sin to_angle"
    "is_f32 (?T ! x)" "is_f32 (?T ! y)" "is_f32 (?r * cos to_angle)" "is_f32 (?r * sin to_angle)"
    using p(2) unfolding on_circle_def Let_def axes prod.case by blast+
  have d: "fsub (?P ! x) c0 = ?r * cos from_angle" "fsub (?P ! y) c1 = ?r * sin from_angle"
    "fsub (?T ! x) c0 = ?r * cos to_angle" "fsub (?T ! y) c1 = ?r * sin to_angle"
    using P T by (simp_all add: fsub_def is_f32_def)
  define c where "c = arc_crosses a"
  define k where "k = arc_crossings (?r * cos \<alpha>) (?r * sin \<alpha>) (?r * cos \<beta>) (?r * sin \<beta>)"
  have ck: "c = all_crossings \<or> c = k"
    using ab by (auto simp: c_def k_def arc_crosses_def axes Let_def d split: if_splits)
  have angles: "0 \<le> \<alpha>" "\<alpha> < 2 * pi" "0 \<le> \<beta>" "\<beta> < 2 * pi" using ab P T by (auto split: if_splits)
  note w = arc_within [OF r angles t, folded k_def]
  have ends: "max (cos \<alpha>) (cos \<beta>) = max (cos to_angle) (cos from_angle)" "max (sin \<alpha>) (sin \<beta>) = max (sin to_angle) (sin from_angle)"
    "min (cos \<alpha>) (cos \<beta>) = min (cos to_angle) (cos from_angle)" "min (sin \<alpha>) (sin \<beta>) = min (sin to_angle) (sin from_angle)"
    using ab by (auto simp: max.commute min.commute split: if_splits)
  have scale: "u \<le> max v w \<Longrightarrow> d + ?r * u \<le> max (d + ?r * v) (d + ?r * w)"
    "min v w \<le> u \<Longrightarrow> min (d + ?r * v) (d + ?r * w) \<le> d + ?r * u" for u v w d :: real
    using r by (auto simp: max_def min_def split: if_splits)
  have or: "kn_soft_limits env ! x \<or> kn_soft_limits env ! y \<Longrightarrow>
      arc_axis_invalid env a x c0 (cr_m0 c) (cr_p0 c) = None \<and> arc_axis_invalid env a y c1 (cr_m1 c) (cr_p1 c) = None"
    using ok by (auto simp: invalid_arc_def axes Let_def c_def split: option.splits if_splits)
  have off: "\<not> kn_soft_limits env ! i \<Longrightarrow> arc_axis_invalid env a i d m q = None" for i d m q
    by (simp add: arc_axis_invalid_def)
  have xy: "arc_axis_invalid env a x c0 (cr_m0 c) (cr_p0 c) = None" "arc_axis_invalid env a y c1 (cr_m1 c) (cr_p1 c) = None"
    using or off by blast+
  have "within_limits env x (f32 (c0 + ?r * cos t))"
  proof (rule axis_within [OF xy(1) r])
    show "c0 + ?r * cos t \<le> max (?T ! x) (?P ! x)" if "\<not> cr_p0 c"
      using scale(1) [of "cos t" "cos to_angle" "cos from_angle" c0] w(1) ck that ends(1) P(3) T(3)
      by (auto simp: all_crossings_def)
    show "min (?T ! x) (?P ! x) \<le> c0 + ?r * cos t" if "\<not> cr_m0 c"
      using scale(2) [of "cos to_angle" "cos from_angle" "cos t" c0] w(2) ck that ends(3) P(3) T(3)
      by (auto simp: all_crossings_def)
  qed (use P T in auto)
  moreover have "within_limits env y (f32 (c1 + ?r * sin t))"
  proof (rule axis_within [OF xy(2) r])
    show "c1 + ?r * sin t \<le> max (?T ! y) (?P ! y)" if "\<not> cr_p1 c"
      using scale(1) [of "sin t" "sin to_angle" "sin from_angle" c1] w(3) ck that ends(2) P(4) T(4)
      by (auto simp: all_crossings_def)
    show "min (?T ! y) (?P ! y) \<le> c1 + ?r * sin t" if "\<not> cr_m1 c"
      using scale(2) [of "sin to_angle" "sin from_angle" "sin t" c1] w(4) ck that ends(4) P(4) T(4)
      by (auto simp: all_crossings_def)
  qed (use P T in auto)
  ultimately show ?thesis ..
qed

subsection \<open>Lines and jogs\<close>

lemma first_invalid_None:
  "first_invalid env v axes = None \<longleftrightarrow> (\<forall>axis\<in>set axes. within_limits env axis (v ! axis))"
  by (induction axes) (auto simp: within_limits_def)

lemma invalid_line_None:
  "invalid_line env v = None \<longleftrightarrow> (\<forall>axis<kn_n_axis env. within_limits env axis (v ! axis))"
  by (auto simp: invalid_line_def first_invalid_None)

text \<open>A jog from inside the limits stays inside; an axis that does not move is left alone.\<close>

lemma constrain_axis_within:
  assumes "within_limits env axis (kn_mpos env ! axis)" "limitsMinPosition env axis \<le> limitsMaxPosition env axis"
  shows "within_limits env axis (constrain_axis env axis v)"
  using assms by (auto simp: constrain_axis_def within_limits_def Let_def)

lemma constrain_jog_within:
  assumes "axis < kn_n_axis env" "axis < length target"
    and "within_limits env axis (kn_mpos env ! axis)" "limitsMinPosition env axis \<le> limitsMaxPosition env axis"
  shows "within_limits env axis (fst (constrain_jog env target l) ! axis)"
  using assms by (simp add: constrain_jog_def constrain_axis_within)

text \<open>Outside the limits a jog goes towards the outside by at most the pulloff distance.\<close>

lemma constrain_axis_inside:
  assumes "within_limits env axis v" "within_limits env axis (kn_mpos env ! axis)"
  shows "constrain_axis env axis v = v"
  using assms by (auto simp: constrain_axis_def within_limits_def Let_def)

end
