(* ===== verification/MotionBehaviour.thy ===== *)
theory MotionBehaviour
  imports MotionControl PlannerSteps ArcExtent
begin

text \<open>
  Lines and arcs on their way into the planner: what leaves the limits is not planned, what is
  planned ends where it should, and the plan stays feasible through every wait.
\<close>

subsection \<open>The machine while the code waits\<close>

definition same_axes :: "plan_env \<Rightarrow> plan_env \<Rightarrow> bool" where
  "same_axes e e' \<longleftrightarrow> pe_n_axis e' = pe_n_axis e \<and> pe_steps_per_mm e' = pe_steps_per_mm e
     \<and> pe_unhomed_axes e' = pe_unhomed_axes e"

lemma same_axes_refl [simp]: "same_axes e e"
  by (simp add: same_axes_def)

lemma same_axes_trans: "same_axes d e \<Longrightarrow> same_axes e f \<Longrightarrow> same_axes d f"
  by (simp add: same_axes_def)

text \<open>The plan is feasible, and a stepper without blocks is not in one.\<close>

definition plan_sound :: "plan_env \<Rightarrow> planner \<Rightarrow> bool" where
  "plan_sound e p \<longleftrightarrow> planner_ok e p \<and> (ring_count e p = 0 \<longrightarrow> pe_executing e = None)"

abbreviation motion_ok :: "mc_world \<Rightarrow> bool" where
  "motion_ok w \<equiv> plan_sound (mw_env w) (mw_planner w)"

text \<open>A round may execute blocks, hold, restart: the plan stays sound and the planner's position the same.\<close>

definition round_keeps :: "rt_round \<Rightarrow> bool" where
  "round_keeps r \<longleftrightarrow> (\<forall>e p e' p'. plan_sound e p \<longrightarrow> rr_machine r (e, p) = (e', p') \<longrightarrow>
     plan_sound e' p' \<and> same_axes e e' \<and> pn_position p' = pn_position p)"

text \<open>What a motion leaves alone: the axes, and where the planner is.\<close>

definition still :: "mc_world \<Rightarrow> mc_world \<Rightarrow> bool" where
  "still w w' \<longleftrightarrow> same_axes (mw_env w) (mw_env w') \<and> pn_position (mw_planner w') = pn_position (mw_planner w)"

lemma still_refl [simp]: "still w w"
  by (simp add: still_def)

lemma still_trans: "still u v \<Longrightarrow> still v w \<Longrightarrow> still u w"
  by (auto simp: still_def intro: same_axes_trans)

lemma still_inflight [simp]: "still (w\<lparr>mw_inflight := x\<rparr>) v = still w v" "still v (w\<lparr>mw_inflight := x\<rparr>) = still v w"
  by (simp_all add: still_def)

lemma round_ok:
  assumes "round_keeps r" "motion_ok w"
  shows "motion_ok (realtime_round r w)" "still w (realtime_round r w)"
    "mw_soft_limit (realtime_round r w) = mw_soft_limit w"
proof -
  obtain e p where m: "rr_machine r (mw_env w, mw_planner w) = (e, p)" by fastforce
  then have k: "plan_sound e p" "same_axes (mw_env w) e" "pn_position p = pn_position (mw_planner w)"
    using assms unfolding round_keeps_def by blast+
  have c: "mw_env (mc_cancel_jog v) = mw_env v" "mw_planner (mc_cancel_jog v) = mw_planner v"
    "mw_soft_limit (mc_cancel_jog v) = mw_soft_limit v" for v
    by (auto simp: mc_cancel_jog_def split: option.splits)
  show "motion_ok (realtime_round r w)" "still w (realtime_round r w)"
    "mw_soft_limit (realtime_round r w) = mw_soft_limit w"
    using k m by (auto simp: realtime_round_def still_def Let_def c)
qed

lemma wait_ok:
  assumes "wait_for_block rs w = Some (b, w')" "motion_ok w" "\<forall>r\<in>set rs. round_keeps r"
  shows "motion_ok w' \<and> still w w' \<and> mw_soft_limit w' = mw_soft_limit w
     \<and> (\<not> b \<longrightarrow> \<not> plan_check_full_buffer (mw_planner w'))"
  using assms
proof (induction rs arbitrary: w)
  case Nil
  then show ?case by (auto split: if_splits)
next
  case (Cons r rs)
  show ?case
  proof (cases "plan_check_full_buffer (mw_planner w)")
    case True
    have k: "round_keeps r" using Cons.prems(3) by simp
    note ro = round_ok [OF k Cons.prems(2)]
    show ?thesis
    proof (cases "rr_abort r")
      case True
      then show ?thesis using Cons.prems(1) \<open>plan_check_full_buffer (mw_planner w)\<close> ro by (auto simp: Let_def)
    next
      case False
      then have "wait_for_block rs (realtime_round r w) = Some (b, w')"
        using Cons.prems(1) True by (simp add: Let_def)
      then have "motion_ok w' \<and> still (realtime_round r w) w' \<and> mw_soft_limit w' = mw_soft_limit (realtime_round r w)
     \<and> (\<not> b \<longrightarrow> \<not> plan_check_full_buffer (mw_planner w'))"
        by (rule Cons.IH) (use ro Cons.prems(3) in auto)
      then show ?thesis using ro by (auto intro: still_trans)
    qed
  next
    case False
    then show ?thesis using Cons.prems by simp
  qed
qed

text \<open>A wait that is neither aborted nor cancelled keeps the motion in flight.\<close>

definition unbroken :: "rt_round list \<Rightarrow> bool" where
  "unbroken rs \<longleftrightarrow> (\<forall>r\<in>set rs. round_keeps r \<and> \<not> rr_abort r \<and> \<not> rr_cancel_jog r)"

lemma unbroken_wait: "wait_for_block rs w = Some (b, w') \<Longrightarrow> unbroken rs \<Longrightarrow> \<not> b \<and> mw_inflight w' = mw_inflight w"
  by (induction rs arbitrary: w)
    (auto simp: unbroken_def realtime_round_def Let_def split: if_splits prod.splits)

subsection \<open>A motion of the motors\<close>

lemma foldl_max_0:
  fixes m :: u32
  shows "foldl (\<lambda>m s. if s < m then m else s) m ss = 0 \<Longrightarrow> m = 0 \<and> (\<forall>s\<in>set ss. s = 0)"
proof (induction ss arbitrary: m)
  case (Cons s ss)
  have "foldl (\<lambda>m s. if s < m then m else s) (if s < m then m else s) ss = 0"
    using Cons.prems unfolding foldl_Cons .
  from Cons.IH [OF this] have z: "(if s < m then m else s) = 0" and rest: "\<forall>s\<in>set ss. s = 0" by blast+
  have "s = 0 \<and> m = 0"
    using z word_coorder.extremum_strict [of s] word_coorder.not_eq_extremum [of m] by (cases "s < m") auto
  then show ?case using rest by simp
qed simp

lemma no_steps:
  fixes d :: i32
  assumes "(word_of_int \<bar>sint d\<bar> :: u32) = 0"
  shows "d = 0"
proof -
  have "\<bar>sint d\<bar> \<le> 2 ^ 31" using sint_range_size [of d] by (auto simp: word_size)
  then have "\<bar>sint d\<bar> mod 2 ^ 32 = \<bar>sint d\<bar>" by (intro mod_pos_pos_trivial) auto
  moreover have "(2 :: int) ^ 32 dvd \<bar>sint d\<bar>" using assms by (simp add: word_of_int_eq_0_iff)
  ultimately have "sint d = 0" by (simp add: dvd_eq_mod_eq_0)
  then have "word_of_int (sint d) = (0 :: i32)" by simp
  then show ?thesis by simp
qed

text \<open>A motion without steps ends where the planner is.\<close>

lemma empty_motion:
  assumes "pb_step_event_count (with_distance e (line_deltas e target l p) b) = 0" "\<not> pl_systemMotion l"
    and "a < pe_n_axis e"
  shows "motor_pos_to_steps e a (target ! a) = pn_position p ! a"
proof -
  let ?d = "line_deltas e target l p"
  have "\<forall>s\<in>set (map (\<lambda>d. word_of_int \<bar>sint d\<bar> :: u32) ?d). s = 0"
    using foldl_max_0 [of 0 "map (\<lambda>d. word_of_int \<bar>sint d\<bar> :: u32) ?d"] assms(1)
    by (simp add: with_distance_def Let_def)
  moreover have "?d ! a \<in> set ?d" using assms(3) by (simp add: line_deltas_def move_steps_def)
  ultimately have "(word_of_int \<bar>sint (?d ! a)\<bar> :: u32) = 0" by simp
  then have "?d ! a = 0" by (rule no_steps)
  then show ?thesis using assms(2,3) by (simp add: line_deltas_def move_steps_def)
qed

definition at_target :: "plan_env \<Rightarrow> real list \<Rightarrow> planner \<Rightarrow> bool" where
  "at_target e target p \<longleftrightarrow> (\<forall>a<pe_n_axis e. pn_position p ! a = motor_pos_to_steps e a (target ! a))"

lemma buffered:
  assumes ok: "plan_sound e p" and room: "\<not> plan_check_full_buffer p" and line: "\<not> pl_systemMotion l"
  shows "\<exists>r p'. plan_buffer_line e target l p = Some (r, p') \<and> plan_sound e p'
     \<and> (if \<not> pl_is_jog l \<and> pe_unhomed_axes e then pn_position p' = pn_position p else at_target e target p')"
proof -
  have idle: "ring_count e p = 0 \<Longrightarrow> pe_executing e = None" and pok: "planner_ok e p"
    using ok by (auto simp: plan_sound_def)
  obtain r p' where run: "plan_buffer_line e target l p = Some (r, p')" and ok': "planner_ok e p'"
    and q: "if r = BrQueued \<and> \<not> pl_systemMotion l
        then (\<exists>c. map no_entry (pending e p') = map no_entry (pending e p) @ [c]
          \<and> (let d = with_distance e (line_deltas e target l p) (block_of_line l)
             in pb_steps c = pb_steps d \<and> pb_direction_bits c = pb_direction_bits d)
          \<and> pn_position p' = map (\<lambda>axis. motor_pos_to_steps e axis (target ! axis)) [0..<pe_n_axis e])
        else pending e p' = pending e p"
    using new_motion [OF pok room idle, of target l] by blast
  have count: "ring_count e p' = ring_count e p \<or> 0 < ring_count e p'"
  proof (cases "r = BrQueued")
    case True
    then obtain c where "map no_entry (pending e p') = map no_entry (pending e p) @ [c]" using q line by auto
    then have "length (map no_entry (pending e p')) = Suc (ring_count e p)" by simp
    then show ?thesis by simp
  next
    case False
    then have "pending e p' = pending e p" using q by simp
    then show ?thesis by (metis length_pending)
  qed
  then have sound: "plan_sound e p'" using ok' idle by (auto simp: plan_sound_def)
  define p0 where "p0 = set_block (pn_head p) (\<lambda>_. block_of_line l) p"
  have p0: "pn_position p0 = pn_position p" "line_deltas e target l p0 = line_deltas e target l p"
    by (simp_all add: p0_def set_block_def line_deltas_def)
  have head: "pn_position (set_block i f s) = pn_position s" for i f s by (simp add: set_block_def)
  consider (Unhomed) "\<not> pl_is_jog l \<and> pe_unhomed_axes e"
    | (Empty) "pl_is_jog l \<or> \<not> pe_unhomed_axes e"
        "pb_step_event_count (with_distance e (line_deltas e target l p) (block_of_line l)) = 0"
    | (Queued) "pl_is_jog l \<or> \<not> pe_unhomed_axes e"
        "pb_step_event_count (with_distance e (line_deltas e target l p) (block_of_line l)) \<noteq> 0"
    by blast
  then have "if \<not> pl_is_jog l \<and> pe_unhomed_axes e then pn_position p' = pn_position p else at_target e target p'"
  proof cases
    case Unhomed
    then have "p' = p0" using run line by (simp add: plan_buffer_line_def Let_def p0_def)
    then show ?thesis using Unhomed p0 by simp
  next
    case Empty
    then have "p' = set_block (pn_head p0) (\<lambda>_. with_distance e (line_deltas e target l p) (block_of_line l)) p0"
      using run line p0(2) by (auto simp: plan_buffer_line_def Let_def p0_def [symmetric])
    then have "pn_position p' = pn_position p" using head p0 by simp
    then show ?thesis using Empty empty_motion [OF Empty(2) line] by (auto simp: at_target_def)
  next
    case Queued
    then have "r = BrQueued"
      using run line p0(2) by (auto simp: plan_buffer_line_def Let_def p0_def [symmetric] split: prod.splits if_splits)
    then show ?thesis using q line Queued by (auto simp: at_target_def)
  qed
  then show ?thesis using run sound by blast
qed

lemma moved:
  assumes run: "mc_move_motors env rounds target l w = Some (sub, w')" and ok: "motion_ok w"
    and keep: "\<forall>r\<in>set rounds. round_keeps r" and line: "\<not> pl_systemMotion l"
  shows "motion_ok w' \<and> same_axes (mw_env w) (mw_env w') \<and> mw_soft_limit w' = mw_soft_limit w
     \<and> (if sub \<and> (pl_is_jog l \<or> \<not> pe_unhomed_axes (mw_env w)) then at_target (mw_env w') target (mw_planner w')
        else pn_position (mw_planner w') = pn_position (mw_planner w))"
proof (cases "me_check_mode env")
  case True
  then show ?thesis using run ok by (auto simp: mc_move_motors_def Let_def)
next
  case False
  let ?w = "w\<lparr>mw_inflight := Some l\<rparr>"
  obtain b v where wait: "wait_for_block rounds ?w = Some (b, v)"
    using run False by (auto simp: mc_move_motors_def Let_def split: option.splits)
  have "motion_ok ?w" using ok by simp
  then have v: "motion_ok v" "still w v" "mw_soft_limit v = mw_soft_limit w" "\<not> b \<Longrightarrow> \<not> plan_check_full_buffer (mw_planner v)"
    using wait_ok [OF wait _ keep] by auto
  show ?thesis
  proof (cases "b \<or> mw_inflight v = None")
    case True
    then have "sub = False" "w' = v\<lparr>mw_inflight := None\<rparr>"
      using run False wait by (auto simp: mc_move_motors_def Let_def split: bool.splits)
    then show ?thesis using v by (simp add: still_def)
  next
    case False
    obtain r p where p: "plan_buffer_line (mw_env v) target l (mw_planner v) = Some (r, p)" "plan_sound (mw_env v) p"
      "if \<not> pl_is_jog l \<and> pe_unhomed_axes (mw_env v) then pn_position p = pn_position (mw_planner v)
       else at_target (mw_env v) target p"
      using buffered [OF v(1) _ line] v(4) False by blast
    then have "sub = True" "w' = v\<lparr>mw_planner := p, mw_inflight := None\<rparr>"
      using run wait False \<open>\<not> me_check_mode env\<close> by (auto simp: mc_move_motors_def Let_def)
    then show ?thesis using p v by (auto simp: still_def same_axes_def)
  qed
qed

text \<open>A line that is not wanted away ends at its target.\<close>

lemma moved_quiet:
  assumes wait: "wait_for_block rounds (w\<lparr>mw_inflight := Some l\<rparr>) \<noteq> None" and q: "unbroken rounds"
    and ok: "motion_ok w" and line: "\<not> pl_systemMotion l" and mode: "\<not> me_check_mode env"
  shows "\<exists>w'. mc_move_motors env rounds target l w = Some (True, w')"
proof -
  obtain b v where v: "wait_for_block rounds (w\<lparr>mw_inflight := Some l\<rparr>) = Some (b, v)" using wait by auto
  have keep: "\<forall>r\<in>set rounds. round_keeps r" using q by (simp add: unbroken_def)
  have b: "\<not> b" "mw_inflight v = Some l" using unbroken_wait [OF v q] by auto
  have "motion_ok (w\<lparr>mw_inflight := Some l\<rparr>)" using ok by simp
  then have v': "motion_ok v" "\<not> plan_check_full_buffer (mw_planner v)" using wait_ok [OF v _ keep] b by auto
  obtain r p where "plan_buffer_line (mw_env v) target l (mw_planner v) = Some (r, p)"
    using buffered [OF v' line] by blast
  then show ?thesis using v b mode by (auto simp: mc_move_motors_def Let_def)
qed

subsection \<open>Lines\<close>

text \<open>The line is one that the soft limits allow, or was checked before.\<close>

definition line_allowed :: "kin_env \<Rightarrow> real list \<Rightarrow> plan_line \<Rightarrow> bool" where
  "line_allowed k target l \<longleftrightarrow> pl_is_jog l \<or> pl_limits_checked l
     \<or> (\<forall>axis<kn_n_axis k. within_limits k axis (target ! axis))"

lemma mc_linear_cases:
  "mc_linear env rounds target l position w =
     (if line_allowed (me_kin env) target l then mc_move_motors env rounds target l w
      else Some (False, limit_error (the (invalid_line (me_kin env) target)) w))"
  using invalid_line_None [of "me_kin env" target]
  by (auto simp: mc_linear_def line_allowed_def mc_linear_no_check_def cartesian_to_motors_def split: option.splits)

theorem line_planned:
  assumes run: "mc_linear env rounds target l position w = Some (sub, w')" and ok: "motion_ok w"
    and keep: "\<forall>r\<in>set rounds. round_keeps r" and line: "\<not> pl_systemMotion l"
    and homed: "pl_is_jog l \<or> \<not> pe_unhomed_axes (mw_env w)"
  shows "motion_ok w' \<and> same_axes (mw_env w) (mw_env w')
     \<and> (if sub then line_allowed (me_kin env) target l \<and> at_target (mw_env w') target (mw_planner w')
        else pn_position (mw_planner w') = pn_position (mw_planner w))
     \<and> (mw_soft_limit w' = (if line_allowed (me_kin env) target l then mw_soft_limit w
                            else invalid_line (me_kin env) target))"
proof (cases "line_allowed (me_kin env) target l")
  case True
  then have "mc_move_motors env rounds target l w = Some (sub, w')" using run by (simp add: mc_linear_cases)
  then show ?thesis using moved [OF _ ok keep line] homed True by auto
next
  case False
  then have "invalid_line (me_kin env) target \<noteq> None"
    using invalid_line_None [of "me_kin env" target] by (auto simp: line_allowed_def)
  then show ?thesis using run False ok by (auto simp: mc_linear_cases limit_error_def)
qed

subsection \<open>Arcs\<close>

text \<open>While the arc is submitted: nothing stops it, and every wait ends.\<close>

definition undisturbed :: "arc_obs \<Rightarrow> bool" where
  "undisturbed obs \<longleftrightarrow> (\<forall>i. \<not> ao_stop obs i \<and> unbroken (ao_rounds obs i)
     \<and> (\<forall>w. motion_ok w \<longrightarrow> wait_for_block (ao_rounds obs i) w \<noteq> None))"

definition can_move :: "plan_line \<Rightarrow> mc_world \<Rightarrow> bool" where
  "can_move l w \<longleftrightarrow> motion_ok w \<and> (pl_is_jog l \<or> \<not> pe_unhomed_axes (mw_env w))"

lemma segment_submitted:
  assumes u: "undisturbed obs" and ok: "can_move l w" and l: "\<not> pl_systemMotion l" "pl_limits_checked l"
    and mode: "\<not> me_check_mode env"
  shows "\<exists>w'. mc_linear env (ao_rounds obs i) target l prev w = Some (True, w') \<and> can_move l w'
     \<and> same_axes (mw_env w) (mw_env w') \<and> at_target (mw_env w') target (mw_planner w')
     \<and> mw_soft_limit w' = mw_soft_limit w"
proof -
  have q: "unbroken (ao_rounds obs i)" and wait: "motion_ok v \<Longrightarrow> wait_for_block (ao_rounds obs i) v \<noteq> None" for v
    using u by (auto simp: undisturbed_def)
  have keep: "\<forall>r\<in>set (ao_rounds obs i). round_keeps r" using q by (simp add: unbroken_def)
  have m: "motion_ok w" "pl_is_jog l \<or> \<not> pe_unhomed_axes (mw_env w)" using ok by (auto simp: can_move_def)
  have "motion_ok (w\<lparr>mw_inflight := Some l\<rparr>)" using m by simp
  then obtain w' where w': "mc_move_motors env (ao_rounds obs i) target l w = Some (True, w')"
    using moved_quiet [OF wait q m(1) l(1) mode] by blast
  have "mc_linear env (ao_rounds obs i) target l prev w = Some (True, w')"
    using w' l by (simp add: mc_linear_cases line_allowed_def)
  then show ?thesis using moved [OF w' m(1) keep l(1)] m(2) by (auto simp: can_move_def same_axes_def)
qed

lemma arc_loop_submitted:
  assumes u: "undisturbed obs" and l: "\<not> pl_systemMotion l" "pl_limits_checked l" and mode: "\<not> me_check_mode env"
  shows "can_move l w \<Longrightarrow> \<exists>a' w'. arc_loop env obs n l move caxes left i a w = Some (False, a', w')
     \<and> can_move l w' \<and> same_axes (mw_env w) (mw_env w') \<and> mw_soft_limit w' = mw_soft_limit w"
proof (induction left arbitrary: i a w)
  case 0
  then show ?case by simp
next
  case (Suc left)
  let ?a = "move i a"
  obtain w1 where w1: "mc_linear env (ao_rounds obs i) (ar_position ?a) l (ar_previous ?a) w = Some (True, w1)"
    "can_move l w1" "same_axes (mw_env w) (mw_env w1)" "mw_soft_limit w1 = mw_soft_limit w"
    using segment_submitted [OF u Suc.prems l mode, of i "ar_position ?a" "ar_previous ?a"] by blast
  obtain a' w' where "arc_loop env obs n l move caxes left (i + 1) (arc_remember caxes ?a) w1 = Some (False, a', w')"
    "can_move l w'" "same_axes (mw_env w1) (mw_env w')" "mw_soft_limit w' = mw_soft_limit w1"
    using Suc.IH [OF w1(2)] by blast
  then show ?case using w1 u by (auto simp: Let_def undisturbed_def intro: same_axes_trans)
qed

lemma arc_submitted:
  assumes u: "undisturbed obs" and l: "\<not> pl_systemMotion l" "pl_limits_checked l" and mode: "\<not> me_check_mode env"
    and ok: "can_move l w"
  shows "\<exists>w'. submit_arc env obs target l position offset center caxes angle segments w = Some w'
     \<and> motion_ok w' \<and> at_target (mw_env w') target (mw_planner w') \<and> mw_soft_limit w' = mw_soft_limit w"
proof -
  let ?n = "kn_n_axis (me_kin env)"
  let ?move = "arc_move ?n target position offset center caxes angle segments"
  let ?run = "\<lparr>ar_radii = (- fst offset, - snd offset), ar_count = 0, ar_position = position, ar_previous = position\<rparr>"
  obtain a w1 where w1: "arc_loop env obs ?n l ?move caxes (segments - 1) 1 ?run w = Some (False, a, w1)"
    "can_move l w1" "mw_soft_limit w1 = mw_soft_limit w"
    using arc_loop_submitted [OF u l mode ok] by blast
  obtain w2 where "mc_linear env (ao_rounds obs segments) target l (ar_previous a) w1 = Some (True, w2)"
    "can_move l w2" "at_target (mw_env w2) target (mw_planner w2)" "mw_soft_limit w2 = mw_soft_limit w1"
    using segment_submitted [OF u w1(2) l mode] by blast
  then show ?thesis using w1 by (simp add: submit_arc_def Let_def can_move_def)
qed

theorem arc_ends_at_target:
  assumes u: "undisturbed obs" and ok: "can_move l w" and line: "\<not> pl_systemMotion l" and mode: "\<not> me_check_mode env"
    and center: "center = (fadd (position ! x) (offset ! x), fadd (position ! y) (offset ! y))"
    and valid: "invalid_arc (me_kin env) \<lparr>arc_target = target, arc_position = position, arc_center = center,
       arc_radius = radius, arc_axes = (x, y, z), arc_clockwise = clockwise, arc_rotations = rotations\<rparr> = None"
    and segs: "arc_segments (arc_angular_travel (- (offset ! x), - (offset ! y))
       (fsub (target ! x) (fst center), fsub (target ! y) (snd center)) clockwise rotations) radius
       (me_arc_tolerance env) \<noteq> None"
  shows "\<exists>w'. mc_arc env obs target l position offset radius (x, y, z) clockwise rotations w = Some w'
     \<and> motion_ok w' \<and> at_target (mw_env w') target (mw_planner w') \<and> mw_soft_limit w' = mw_soft_limit w"
proof -
  let ?angle = "arc_angular_travel (- (offset ! x), - (offset ! y))
       (fsub (target ! x) (fst center), fsub (target ! y) (snd center)) clockwise rotations"
  obtain segments where seg: "arc_segments ?angle radius (me_arc_tolerance env) = Some segments" using segs by auto
  let ?l = "arc_feed segments (l\<lparr>pl_limits_checked := True\<rparr>)"
  have l: "\<not> pl_systemMotion ?l" "pl_limits_checked ?l" "can_move ?l w"
    using line ok by (auto simp: arc_feed_def can_move_def)
  have "mc_arc env obs target l position offset radius (x, y, z) clockwise rotations w =
      submit_arc env obs target ?l position (offset ! x, offset ! y) center (x, y, z) ?angle segments w"
    using valid seg by (simp add: mc_arc_def center Let_def)
  then show ?thesis using arc_submitted [OF u l(1,2) mode l(3)] by simp
qed

text \<open>A refused arc plans nothing.\<close>

lemma arc_refused:
  assumes "invalid_arc (me_kin env) \<lparr>arc_target = target, arc_position = position,
       arc_center = (fadd (position ! x) (offset ! x), fadd (position ! y) (offset ! y)),
       arc_radius = radius, arc_axes = (x, y, z), arc_clockwise = clockwise, arc_rotations = rotations\<rparr> = Some e"
  shows "mc_arc env obs target l position offset radius (x, y, z) clockwise rotations w = Some (limit_error e w)"
  using assms by (simp add: mc_arc_def Let_def)

end
