(* ===== verification/ArcGap.thy ===== *)
theory ArcGap
  imports MotionBehaviour
begin

text \<open>
  Two places where the limit checks and the motion do not agree: an arc whose end is within the
  epsilon of \<open>mc_arc\<close> after its start, and a jog that is cut short outside the limits.
\<close>

subsection \<open>A bound for double rounding\<close>

lemma rnd53_half:
  assumes y: "1 \<le> y"
  shows "y / 2 \<le> rnd53 y"
proof -
  define n where "n = nat \<lfloor>y\<rfloor>"
  define k where "k = floorlog 2 n - 53"
  have n: "0 < n" using y by (simp add: n_def)
  have fl: "of_nat n \<le> y" using y by (simp add: n_def)
  have step: "y / 2 \<le> of_int \<lfloor>y / 2 ^ k\<rfloor> * 2 ^ k"
  proof (cases "k = 0")
    case True
    have "y < of_int \<lfloor>y\<rfloor> + 1" "1 \<le> \<lfloor>y\<rfloor>" using y by linarith+
    then have "y / 2 \<le> of_int \<lfloor>y\<rfloor>" by linarith
    then show ?thesis using True by simp
  next
    case False
    have "2 ^ (floorlog 2 n - 1) \<le> n" using floorlog_bounds [of n 2] n by simp
    moreover have "2 ^ k \<le> (2 :: nat) ^ (floorlog 2 n - 2)" using False by (intro power_increasing) (auto simp: k_def)
    moreover have "(2 :: nat) ^ (floorlog 2 n - 1) = 2 * 2 ^ (floorlog 2 n - 2)"
      using False by (simp add: k_def flip: power_Suc)
    ultimately have "2 * 2 ^ k \<le> n" by linarith
    then have "real (2 * 2 ^ k) \<le> real n" by (simp only: of_nat_le_iff)
    then have big: "2 * 2 ^ k \<le> y" using fl by simp
    have "y / 2 ^ k - 1 \<le> of_int \<lfloor>y / 2 ^ k\<rfloor>" by linarith
    then have "(y / 2 ^ k - 1) * 2 ^ k \<le> of_int \<lfloor>y / 2 ^ k\<rfloor> * 2 ^ k" by (rule mult_right_mono) simp
    then have "y - 2 ^ k \<le> of_int \<lfloor>y / 2 ^ k\<rfloor> * 2 ^ k" by (simp add: left_diff_distrib)
    moreover have "y / 2 \<le> y - 2 ^ k" using big by simp
    ultimately show ?thesis by (rule order_trans [rotated])
  qed
  have "of_int \<lfloor>y / 2 ^ k\<rfloor> * 2 ^ k \<le> of_int (rhe (y / 2 ^ k)) * (2 :: real) ^ k"
    using rhe_bounds(1) [of "y / 2 ^ k"] by (intro mult_right_mono) auto
  with step have "y / 2 \<le> of_int (rhe (y / 2 ^ k)) * 2 ^ k" by (rule order_trans)
  then show ?thesis by (simp add: rnd53_def Let_def n_def k_def)
qed

lemma epsilon_bound: "1 / 2 ^ 22 \<le> ARC_ANGULAR_TRAVEL_EPSILON"
proof -
  have "(1 :: real) \<le> 5 / 10 ^ 7 * 2 ^ 1074"
    by (rule order_trans [of _ "5 / 10 ^ 7 * 2 ^ 24"]) (simp_all add: mult_left_mono power_increasing)
  then have "5 / 10 ^ 7 * 2 ^ 1074 / 2 \<le> rnd53 (5 / 10 ^ 7 * 2 ^ 1074)" by (rule rnd53_half)
  then have "5 / 10 ^ 7 * 2 ^ 1074 / 2 / 2 ^ 1074 \<le> rnd53 (5 / 10 ^ 7 * 2 ^ 1074) / 2 ^ 1074"
    by (rule divide_right_mono) simp
  moreover have "f64 (5 / 10 ^ 7) = rnd53 (5 / 10 ^ 7 * 2 ^ 1074) / 2 ^ 1074" by (simp add: f64_def)
  moreover have "a * c / 2 / c = a / 2" if "c \<noteq> 0" for a c :: real using that by simp
  then have "5 / 10 ^ 7 * (2 :: real) ^ 1074 / 2 / 2 ^ 1074 = 5 / 10 ^ 7 / 2" by (rule; simp)
  ultimately show ?thesis by (simp add: ARC_ANGULAR_TRAVEL_EPSILON_def)
qed

subsection \<open>An arc that is not checked\<close>

text \<open>
  The smallest step beyond the start, at the top of the circle: for \<open>mc_arc\<close> a whole turn, for
  the check of the limits nothing.
\<close>

definition gap_env :: kin_env where
  "gap_env = \<lparr>kn_n_axis = 3, kn_soft_limits = [True, False, False], kn_homing = [Some (- 1 / 2, False), None, None],
     kn_max_travel = [100, 100, 100], kn_pulloff = [1, 1, 1], kn_mpos = [0, 1, 0],
     kn_pos_limit_mask = 0, kn_neg_limit_mask = 0\<rparr>"

definition gap_arc :: arc where
  "gap_arc = \<lparr>arc_target = [- 1 / 2 ^ 22, 1, 0], arc_position = [0, 1, 0], arc_center = (0, 0), arc_radius = 1,
     arc_axes = (0, 1, 2), arc_clockwise = False, arc_rotations = 1\<rparr>"

lemma gap_limits: "limitsMinPosition gap_env 0 = - 1 / 2" "limitsMaxPosition gap_env 0 = 99.5"
  by (simp_all add: limitsMinPosition_def limitsMaxPosition_def gap_env_def fadd_def float_simps)

lemma gap_accepted: "invalid_arc gap_env gap_arc = None"
proof -
  have "arc_crosses gap_arc = no_crossing"
    by (simp add: arc_crosses_def gap_arc_def arc_crossings_def fsub_def float_simps)
  then show ?thesis
    by (simp add: invalid_arc_def gap_arc_def arc_axis_invalid_def check_extent_def no_crossing_def
        gap_limits) (simp add: gap_env_def)
qed

lemma arctan_le_self:
  assumes "0 \<le> x"
  shows "arctan x \<le> x"
proof -
  have "0 - arctan 0 \<le> x - arctan x"
  proof (rule DERIV_nonneg_imp_nondecreasing [OF assms])
    fix u :: real
    have "DERIV (\<lambda>u. u - arctan u) u :> 1 - inverse (1 + u\<^sup>2)"
      by (intro DERIV_diff DERIV_ident DERIV_arctan)
    moreover have "0 \<le> 1 - inverse (1 + u\<^sup>2)" by (simp add: inverse_le_1_iff)
    ultimately show "\<exists>d. DERIV (\<lambda>u. u - arctan u) u :> d \<and> 0 \<le> d" by blast
  qed
  then show ?thesis by simp
qed

text \<open>A whole turn, and at least 4 radians: from the top the circle reaches its leftmost point after less than 2.\<close>

lemma gap_angle: "fmul 2 (f32 pi) \<le> arc_angular_travel (0, 1) (- 1 / 2 ^ 22, 1) False 1 \<and> 4 \<le> fmul 2 (f32 pi)"
proof -
  have tiny: "f32 (1 / 2 ^ 22) = 1 / 2 ^ 22" using f32_dyadic [of 1 22] by simp
  have a: "fsub (fmul 0 1) (fmul 1 (- (1 / 4194304))) = 1 / 4194304"
    using tiny by (simp add: fmul_def fsub_def)
  have b: "fadd (fmul 0 (- (1 / 4194304))) (fmul 1 1) = 1" by (simp add: fmul_def fadd_def)
  have at: "0 \<le> arctan (1 / 2 ^ 22 :: real)" "arctan (1 / 2 ^ 22 :: real) \<le> 1 / 2 ^ 22"
    by simp (rule arctan_le_self, simp)
  have f: "fatan2 (1 / 2 ^ 22) 1 = f32 (arctan (1 / 2 ^ 22))" by (simp add: fatan2_def)
  have small: "0 \<le> fatan2 (1 / 2 ^ 22) 1" "fatan2 (1 / 2 ^ 22) 1 \<le> 1 / 2 ^ 22"
    unfolding f using at(1) f32_mono [OF at(2)] tiny by (simp_all add: f32_nonneg)
  have "fatan2 (1 / 2 ^ 22) 1 \<le> ARC_ANGULAR_TRAVEL_EPSILON" using small(2) epsilon_bound by (rule order_trans)
  then have angle: "arc_angular_travel (0, 1) (- 1 / 2 ^ 22, 1) False 1 = fadd (fatan2 (1 / 2 ^ 22) 1) (fmul 2 (f32 pi))"
    by (simp add: arc_angular_travel_def Let_def a b)
  have "fmul 2 (f32 pi) \<le> fadd (fatan2 (1 / 2 ^ 22) 1) (fmul 2 (f32 pi))"
    using small(1) by (simp add: fadd_def f32_ge_bound)
  moreover have "f32 2 \<le> f32 pi" by (rule f32_mono) (rule pi_ge_two)
  then have "f32 4 \<le> fmul 2 (f32 pi)" unfolding fmul_def by (intro f32_mono) (simp add: float_simps)
  then have "4 \<le> fmul 2 (f32 pi)" by (simp add: float_simps)
  ultimately show ?thesis unfolding angle by blast
qed

text \<open>
  So the circle that this arc describes leaves the limits, to the coordinate -1 where -1/2 is
  allowed, and the check lets it pass.
\<close>

theorem unchecked_circle:
  "invalid_arc gap_env gap_arc = None
   \<and> 4 \<le> arc_angular_travel (0, 1) (- 1 / 2 ^ 22, 1) False 1
   \<and> pi / 2 \<le> 2 \<and> cos (pi / 2 + pi / 2) < limitsMinPosition gap_env 0"
proof -
  have "pi / 2 < 2" using pi_half_less_two .
  then show ?thesis using gap_accepted gap_angle gap_limits by auto
qed

subsection \<open>A jog the wrong way\<close>

text \<open>
  Outside the limits, with both switches of the axis active, a long jog further out becomes a move
  by the pulloff distance in the other direction.
\<close>

definition nudge_env :: kin_env where
  "nudge_env = \<lparr>kn_n_axis = 1, kn_soft_limits = [True], kn_homing = [Some (- 10, False)], kn_max_travel = [10],
     kn_pulloff = [1], kn_mpos = [- 12], kn_pos_limit_mask = 1, kn_neg_limit_mask = 1\<rparr>"

theorem jog_reversed: "constrain_axis nudge_env 0 (- 20) = - 11 \<and> kn_mpos nudge_env ! 0 = - 12"
proof -
  have l: "limitsMinPosition nudge_env 0 = - 10" "limitsMaxPosition nudge_env 0 = 0"
    by (simp_all add: limitsMinPosition_def limitsMaxPosition_def nudge_env_def fadd_def)
  have e: "kn_mpos nudge_env ! 0 = - 12" "kn_soft_limits nudge_env ! 0" "kn_pulloff nudge_env ! 0 = 1"
    "kn_pos_limit_mask nudge_env = 1" "kn_neg_limit_mask nudge_env = 1"
    by (simp_all add: nudge_env_def)
  have "fsub (- 20) (- 12) = - 8" "fadd (- 12) 1 = - 11"
    using f32_of_int [of "- 8"] f32_of_int [of "- 11"] by (simp_all add: fsub_def fadd_def)
  then show ?thesis
    by (simp add: constrain_axis_def e l Let_def limits_get_state_def motor_bit_def axes_to_motors_def)
qed

end
