(* ===== verification/PlannerOverride.thy ===== *)
theory PlannerOverride
  imports PlannerRun
begin

text \<open>
  A feed override while motions are pending: \<open>plan_update_velocity_profile_parameters\<close> computes
  new maximum speeds and plans again. A block that is at its maximum is not looked at, so that a
  plan can come out that the machine cannot carry out.
\<close>

subsection \<open>Rounding of a decimal fraction\<close>

lemma rhe_near: "\<bar>y - of_int m\<bar> < 1 / 2 \<Longrightarrow> rhe y = m"
proof -
  assume a: "\<bar>y - of_int m\<bar> < 1 / 2"
  show ?thesis
  proof (cases "of_int m \<le> y")
    case True
    then have "\<lfloor>y\<rfloor> = m" using a by (intro floor_unique) auto
    then show ?thesis using a True by (simp add: rhe_def Let_def)
  next
    case False
    then have "\<lfloor>y\<rfloor> = m - 1" using a by (intro floor_unique) auto
    then show ?thesis using a False by (simp add: rhe_def Let_def)
  qed
qed

lemma f32_scaled:
  assumes lo: "2 ^ 23 \<le> x * 2 ^ k" and hi: "x * 2 ^ k < 2 ^ 24" and k: "k \<le> 149"
  shows "f32 x = of_int (rhe (x * 2 ^ k)) / 2 ^ k"
proof -
  define d where "d = 149 - k"
  have two: "(2 :: real) ^ 149 = 2 ^ k * 2 ^ d" using k by (simp add: d_def flip: power_add)
  have "0 \<le> x * 2 ^ k" by (rule order_trans [OF _ lo]) simp
  then have x: "0 \<le> x" using mult_neg_pos [of x "2 ^ k"] by (cases "x < 0") simp_all
  let ?y = "x * 2 ^ 149"
  have y: "?y = x * 2 ^ k * 2 ^ d" unfolding two by simp
  have l: "2 ^ (23 + d) \<le> ?y" unfolding y power_add using lo by (rule mult_right_mono) simp
  have h: "?y < 2 ^ (24 + d)" unfolding y power_add using hi by (rule mult_strict_right_mono) simp
  have "?y < 2 ^ (24 + drop_bits ?y)" using x by (intro drop_bits_upper) simp
  with l have "(2 :: real) ^ (23 + d) < 2 ^ (24 + drop_bits ?y)" by (rule le_less_trans)
  then have ge: "d \<le> drop_bits ?y" by simp
  have "drop_bits ?y \<le> d"
  proof (cases "0 < drop_bits ?y")
    case True
    then have "2 ^ (23 + drop_bits ?y) < (2 :: real) ^ (24 + d)" using drop_bits_lower h by (meson le_less_trans)
    then show ?thesis by simp
  qed simp
  with ge have db: "drop_bits ?y = d" by simp
  have quotient: "?y / 2 ^ d = x * 2 ^ k" unfolding y by simp
  have "f32 x = rnd24 ?y / 2 ^ 149" using x by (rule f32_nonneg_eq)
  also have "rnd24 ?y = of_int (rhe (x * 2 ^ k)) * 2 ^ d" unfolding rnd24_def db quotient ..
  also have "\<dots> / 2 ^ 149 = of_int (rhe (x * 2 ^ k)) / 2 ^ k" unfolding two by simp
  finally show ?thesis .
qed

lemma percent_factor: "f32 (1 / 100) = 10737418 / 2 ^ 30"
proof -
  have "rhe (1 / 100 * 2 ^ 30) = 10737418" by (rule rhe_near) simp
  then show ?thesis using f32_scaled [of "1 / 100" 30] by simp
qed

lemma percent_100: "fmul (f32 (1 / 100)) 100 = 1"
proof -
  have "rhe (10737418 / 2 ^ 30 * 100 * 2 ^ 24) = 16777216" by (rule rhe_near) simp
  then show ?thesis using f32_scaled [of "10737418 / 2 ^ 30 * 100" 24] by (simp add: percent_factor fmul_def)
qed

lemma percent_50: "fmul (f32 (1 / 100)) 50 = 1 / 2"
proof -
  have "rhe (10737418 / 2 ^ 30 * 50 * 2 ^ 25) = 16777216" by (rule rhe_near) simp
  then show ?thesis using f32_scaled [of "10737418 / 2 ^ 30 * 50" 25] by (simp add: percent_factor fmul_def)
qed

subsection \<open>Three motions\<close>

text \<open>Two rapid motions, the second a short one, and a feed motion; all are at full speed.\<close>

definition demo_block :: "bool \<Rightarrow> real \<Rightarrow> real \<Rightarrow> real \<Rightarrow> plan_block" where
  "demo_block rapid entry junction mm = zero_block\<lparr>pb_rapidMotion := rapid, pb_entry_speed_sqr := entry,
     pb_max_entry_speed_sqr := junction, pb_max_junction_speed_sqr := junction, pb_acceleration := 50,
     pb_millimeters := mm, pb_rapid_rate := 100, pb_programmed_rate := 100\<rparr>"

definition demo_plan_env :: "nat \<Rightarrow> plan_env" where
  "demo_plan_env override = \<lparr>pe_blocks = 4, pe_n_axis = 2, pe_acceleration = [50, 50], pe_max_rate = [100, 100],
     pe_steps_per_mm = [100, 100], pe_junction_deviation = 1, pe_r_override = 100, pe_f_override = override,
     pe_unhomed_axes = False, pe_machine_steps = [0, 0], pe_executing = None\<rparr>"

definition demo_planner :: planner where
  "demo_planner = \<lparr>pn_buffer = [demo_block True 0 0 100, demo_block True 10000 10000 24,
       demo_block False 10000 10000 100, zero_block],
     pn_tail = 0, pn_head = 3, pn_next_head = 0, pn_planned = 2, pn_position = [0, 0],
     pn_previous_unit_vec = [1, 0], pn_previous_nominal_speed = 100\<rparr>"

lemma demo_plan_fields [simp]:
  "pe_blocks (demo_plan_env f) = 4" "pe_executing (demo_plan_env f) = None" "pe_r_override (demo_plan_env f) = 100"
  "pe_f_override (demo_plan_env f) = f"
  by (simp_all add: demo_plan_env_def)

lemma demo_block_fields [simp]:
  "pb_rapidMotion (demo_block r e m mm) = r" "pb_entry_speed_sqr (demo_block r e m mm) = e"
  "pb_max_entry_speed_sqr (demo_block r e m mm) = m" "pb_max_junction_speed_sqr (demo_block r e m mm) = m"
  "pb_rapid_rate (demo_block r e m mm) = 100" "pb_programmed_rate (demo_block r e m mm) = 100"
  "pb_noFeedOverride (demo_block r e m mm) = False"
  "speed_gain (demo_block r e m mm) = fmul (fmul 2 50) mm"
  by (simp_all add: demo_block_def zero_block_def speed_gain_def)

lemma demo_views:
  "ring_count (demo_plan_env f) demo_planner = 3"
  "ring_ix (demo_plan_env f) 0 0 = 0" "ring_ix (demo_plan_env f) 0 (Suc 0) = Suc 0"
  "ring_ix (demo_plan_env f) 0 2 = 2" "pn_tail demo_planner = 0" "pn_planned demo_planner = 2"
  "pn_head demo_planner = 3" "pn_next_head demo_planner = 0" "length (pn_buffer demo_planner) = 4"
  "block_at demo_planner 0 = demo_block True 0 0 100" "block_at demo_planner (Suc 0) = demo_block True 10000 10000 24"
  "block_at demo_planner 2 = demo_block False 10000 10000 100"
  by (simp_all add: ring_count_def ring_ix_def demo_planner_def block_at_def)

lemma below_3: "(\<forall>i<3. P i) \<longleftrightarrow> P 0 \<and> P (Suc 0) \<and> P (2 :: nat)"
  by (auto simp: less_Suc_eq numeral_3_eq_3 numeral_2_eq_2)

lemma demo_speeds:
  "entry_of (demo_plan_env f) demo_planner 0 = 0" "entry_of (demo_plan_env f) demo_planner (Suc 0) = 10000"
  "entry_of (demo_plan_env f) demo_planner 2 = 10000" "max_of (demo_plan_env f) demo_planner 0 = 0"
  "max_of (demo_plan_env f) demo_planner (Suc 0) = 10000" "max_of (demo_plan_env f) demo_planner 2 = 10000"
  "gain_of (demo_plan_env f) demo_planner 0 = 10000" "gain_of (demo_plan_env f) demo_planner (Suc 0) = 2400"
  "gain_of (demo_plan_env f) demo_planner 2 = 10000"
  by (simp_all add: entry_of_def max_of_def gain_of_def demo_views fmul_def float_simps)

lemma demo_planner_ok: "planner_ok (demo_plan_env f) demo_planner"
proof -
  have ring: "planned_at (demo_plan_env f) demo_planner 2" "wf_ring (demo_plan_env f) demo_planner"
    by (simp_all add: planned_at_def wf_ring_def demo_views plan_next_block_index_def)
  have "sound_ring (demo_plan_env f) demo_planner"
    unfolding sound_ring_def demo_views below_3
    by (simp add: demo_views sound_block_def is_f32_def fmul_def float_simps)
  moreover have "can_brake (demo_plan_env f) demo_planner 0" "can_brake (demo_plan_env f) demo_planner (Suc 0)"
    "can_brake (demo_plan_env f) demo_planner 2"
    by (simp_all add: can_brake_def speed_in_def reported_def demo_views demo_speeds fadd_def float_simps
        flip: numeral_2_eq_2)
  moreover have "can_reach (demo_plan_env f) demo_planner 0" "can_reach (demo_plan_env f) demo_planner (Suc 0)"
    "can_reach (demo_plan_env f) demo_planner 2"
    by (simp_all add: can_reach_def speed_in_def reported_def demo_views demo_speeds fadd_def float_simps
        flip: numeral_2_eq_2)
  ultimately have "feasible (demo_plan_env f) demo_planner"
    unfolding feasible_def demo_views below_3 by (simp add: demo_speeds)
  with ring show ?thesis unfolding planner_ok_def by blast
qed

subsection \<open>The override\<close>

lemma demo_nominal:
  "plan_compute_profile_nominal_speed (demo_plan_env 50) (demo_block True e m mm) = 100"
  "plan_compute_profile_nominal_speed (demo_plan_env 50) (demo_block False e m mm) = 50"
  by (simp_all add: plan_compute_profile_nominal_speed_def Let_def fint_exact percent_100 percent_50
      MINIMUM_FEED_RATE_def fmul_def [of 100] float_simps)

lemma large_speed: "\<not> SOME_LARGE_VALUE < 100"
proof -
  have "f32 100 \<le> f32 (10 ^ 38)" by (rule f32_mono) simp
  then show ?thesis by (simp add: SOME_LARGE_VALUE_def float_simps not_less)
qed

lemma demo_profiles:
  "plan_compute_profile_parameters 100 SOME_LARGE_VALUE (demo_block True 0 0 100) = demo_block True 0 0 100"
  "plan_compute_profile_parameters 100 100 (demo_block True 10000 10000 24) = demo_block True 10000 10000 24"
  "plan_compute_profile_parameters 50 100 (demo_block False 10000 10000 100) =
     (demo_block False 10000 10000 100)\<lparr>pb_max_entry_speed_sqr := 2500\<rparr>"
  by (simp_all add: plan_compute_profile_parameters_def Let_def demo_block_def zero_block_def large_speed
      fmul_def float_simps)

text \<open>The pending blocks after the override, before and after planning again.\<close>

definition demo_slowed :: planner where
  "demo_slowed = demo_planner\<lparr>pn_buffer := [demo_block True 0 0 100, demo_block True 10000 10000 24,
       (demo_block False 10000 10000 100)\<lparr>pb_max_entry_speed_sqr := 2500\<rparr>, zero_block],
     pn_previous_nominal_speed := 50\<rparr>"

definition demo_after :: planner where
  "demo_after = demo_slowed\<lparr>pn_buffer := [demo_block True 0 0 100, demo_block True 10000 10000 24,
       (demo_block False 2500 10000 100)\<lparr>pb_max_entry_speed_sqr := 2500\<rparr>, zero_block]\<rparr>"

lemma four: "(4 :: nat) = Suc (Suc (Suc (Suc 0)))"
  by simp

lemma demo_update:
  "update_profiles 4 (demo_plan_env 50) 0 SOME_LARGE_VALUE demo_planner =
     Some (50, demo_slowed\<lparr>pn_previous_nominal_speed := 100\<rparr>)"
  unfolding four
  by (simp add: demo_planner_def demo_slowed_def block_at_def set_block_def Let_def demo_nominal demo_profiles
      plan_next_block_index_def)

lemma demo_recalculate:
  "planner_recalculate (demo_plan_env 50) (demo_slowed\<lparr>pn_planned := 0\<rparr>) = Some (demo_after\<lparr>pn_planned := 2\<rparr>)"
proof -
  define p1 where "p1 = demo_after\<lparr>pn_planned := 0\<rparr>"
  have rev: "reverse_pass 4 (demo_plan_env 50) 2 1 p1 = Some p1"
    unfolding four
    by (simp add: p1_def demo_after_def demo_slowed_def demo_planner_def plan_prev_block_index_def
        update_plan_block_parameters_def Let_def reverse_entry_def block_at_def set_entry_def set_block_def
        demo_block_def zero_block_def)
  have gains: "fmul (fmul 2 50) 100 = 10000" "fadd 0 10000 = 10000"
    by (simp_all add: fmul_def fadd_def float_simps)
  have "block_at demo_after 0 = demo_block True 0 0 100" "block_at demo_after (Suc 0) = demo_block True 10000 10000 24"
    "block_at demo_after 2 = (demo_block False 2500 10000 100)\<lparr>pb_max_entry_speed_sqr := 2500\<rparr>"
    "pn_head demo_after = 3"
    by (simp_all add: demo_after_def demo_slowed_def demo_planner_def block_at_def)
  note after = this
  have "forward_entry (block_at demo_after 0) (block_at demo_after 1) = None"
    "forward_entry (block_at demo_after 1) (block_at demo_after 2) = None"
    by (simp_all add: after forward_entry_def Let_def gains)
  then have steps: "forward_step 0 1 (demo_after\<lparr>pn_planned := n\<rparr>) = demo_after\<lparr>pn_planned := 1\<rparr>"
    "forward_step 1 2 (demo_after\<lparr>pn_planned := n\<rparr>) = demo_after\<lparr>pn_planned := 2\<rparr>" for n
    by (simp_all add: forward_step_def Let_def after)
  have following: "plan_next_block_index (demo_plan_env 50) 1 = 2" "plan_next_block_index (demo_plan_env 50) 2 = 3"
    by (simp_all add: plan_next_block_index_def)
  have fwd: "forward_pass 4 (demo_plan_env 50) 0 1 p1 = Some (demo_after\<lparr>pn_planned := 2\<rparr>)"
    unfolding four p1_def forward_pass.simps steps following by (simp add: after)
  have last: "set_entry 2 2500 (demo_slowed\<lparr>pn_planned := 0\<rparr>) = p1"
    by (simp add: p1_def demo_after_def demo_slowed_def demo_planner_def set_entry_def set_block_def
        demo_block_def zero_block_def)
  have slow: "pn_head demo_slowed = 3" "pn_tail demo_slowed = 0" "pn_planned p1 = 0"
    "block_at demo_slowed 2 = (demo_block False 10000 10000 100)\<lparr>pb_max_entry_speed_sqr := 2500\<rparr>"
    by (simp_all add: demo_slowed_def demo_planner_def block_at_def p1_def)
  have before: "plan_prev_block_index (demo_plan_env 50) 3 = 2" "plan_prev_block_index (demo_plan_env 50) 2 = 1"
    by (simp_all add: plan_prev_block_index_def)
  have slowed_gain: "speed_gain ((demo_block False 10000 10000 100)\<lparr>pb_max_entry_speed_sqr := 2500\<rparr>) = 10000"
    by (simp add: speed_gain_def demo_block_def zero_block_def gains)
  show ?thesis
    unfolding planner_recalculate_def
    using rev fwd last following by (simp add: Let_def slow slowed_gain before plan_next_block_index_def)
qed

theorem override_breaks_the_plan:
  "planner_ok (demo_plan_env 100) demo_planner \<and>
   (\<exists>p. plan_update_velocity_profile_parameters (demo_plan_env 50) demo_planner = Some p
      \<and> ring_count (demo_plan_env 50) p = 3
      \<and> entry_of (demo_plan_env 50) p 2 + gain_of (demo_plan_env 50) p 1 < entry_of (demo_plan_env 50) p 1)"
proof -
  have "plan_cycle_reinitialize (demo_plan_env 50) demo_slowed = Some (demo_after\<lparr>pn_planned := 2\<rparr>)"
    using demo_recalculate
    by (simp add: plan_cycle_reinitialize_def Let_def update_plan_block_parameters_def demo_slowed_def demo_planner_def)
  moreover have "demo_slowed\<lparr>pn_previous_nominal_speed := 50\<rparr> = demo_slowed"
    by (simp add: demo_slowed_def)
  ultimately have "plan_update_velocity_profile_parameters (demo_plan_env 50) demo_planner = Some (demo_after\<lparr>pn_planned := 2\<rparr>)"
    using demo_update
    by (simp add: plan_update_velocity_profile_parameters_def demo_views Let_def demo_slowed_def demo_planner_def)
  moreover have "ring_count (demo_plan_env 50) (demo_after\<lparr>pn_planned := 2\<rparr>) = 3"
    by (simp add: ring_count_def demo_after_def demo_slowed_def demo_planner_def)
  moreover have "entry_of (demo_plan_env 50) (demo_after\<lparr>pn_planned := 2\<rparr>) 2
       + gain_of (demo_plan_env 50) (demo_after\<lparr>pn_planned := 2\<rparr>) 1
     < entry_of (demo_plan_env 50) (demo_after\<lparr>pn_planned := 2\<rparr>) 1"
    by (simp add: entry_of_def gain_of_def ring_ix_def demo_after_def demo_slowed_def demo_planner_def block_at_def
        fmul_def float_simps)
  ultimately show ?thesis using demo_planner_ok by blast
qed

end
