(* ===== verification/MotionExample.thy ===== *)
theory MotionExample
  imports ArcGap PlannerOverride
begin

text \<open>
  A machine at rest with an empty plan, and a half circle on it, at which the hypotheses of the
  properties of the motion chain are met.
\<close>

definition idle_planner :: planner where
  "idle_planner = plan_reset (demo_plan_env 100) demo_planner"

lemma idle_planner_ok:
  "planner_ok (demo_plan_env f) idle_planner" "pending (demo_plan_env f) idle_planner = []"
  "ring_count (demo_plan_env f) idle_planner = 0" "\<not> plan_check_full_buffer idle_planner"
proof -
  have i: "idle_planner = plan_reset (demo_plan_env f) demo_planner"
    by (simp add: idle_planner_def plan_reset_def demo_plan_env_def)
  show "planner_ok (demo_plan_env f) idle_planner" "pending (demo_plan_env f) idle_planner = []"
    unfolding i using fresh_planner [of "demo_plan_env f" demo_planner] by (simp_all add: demo_views)
  show "ring_count (demo_plan_env f) idle_planner = 0" "\<not> plan_check_full_buffer idle_planner"
    by (simp_all add: idle_planner_def plan_reset_def plan_reset_buffer_def ring_count_def plan_check_full_buffer_def)
qed

lemma idle_reached: "planner_reach (demo_plan_env f) idle_planner"
proof -
  have i: "idle_planner = plan_reset (demo_plan_env f) demo_planner"
    by (simp add: idle_planner_def plan_reset_def demo_plan_env_def)
  show ?thesis unfolding i by (rule planner_reach.reset) (simp_all add: demo_views)
qed

definition demo_move :: plan_line where
  "demo_move = plan_line_zero\<lparr>pl_feed_rate := 100\<rparr>"

lemma demo_move_fields [simp]:
  "pl_systemMotion demo_move = False" "pl_is_jog demo_move = False" "pl_limits_checked demo_move = False"
  by (simp_all add: demo_move_def plan_line_zero_def)

definition idle_world :: mc_world where
  "idle_world = \<lparr>mw_env = demo_plan_env 100, mw_planner = idle_planner, mw_inflight = None, mw_soft_limit = None\<rparr>"

lemma idle_world_fields [simp]:
  "mw_env idle_world = demo_plan_env 100" "mw_planner idle_world = idle_planner" "mw_soft_limit idle_world = None"
  by (simp_all add: idle_world_def)

lemma idle_can_move: "can_move demo_move idle_world" "motion_ok idle_world"
  by (simp_all add: can_move_def plan_sound_def idle_planner_ok) (simp add: demo_plan_env_def)

text \<open>While the code waits, the machine ends its first block.\<close>

definition end_block_round :: rt_round where
  "end_block_round = \<lparr>rr_machine = (\<lambda>(e, p). if ring_count e p = 0 then (e, p)
       else (between_blocks e, plan_discard_current_block e p)),
     rr_cancel_jog = False, rr_abort = False\<rparr>"

lemma end_block_keeps: "round_keeps end_block_round"
  unfolding round_keeps_def
proof (intro allI impI)
  fix e p e' p'
  assume ok: "plan_sound e p" and run: "rr_machine end_block_round (e, p) = (e', p')"
  show "plan_sound e' p' \<and> same_axes e e' \<and> pn_position p' = pn_position p"
  proof (cases "ring_count e p = 0")
    case True
    then show ?thesis using ok run by (simp add: end_block_round_def)
  next
    case False
    then have e: "e' = between_blocks e" "p' = plan_discard_current_block e p"
      using run by (simp_all add: end_block_round_def)
    have "planner_ok (between_blocks e) (plan_discard_current_block e p)"
      using end_of_block(1) ok False by (auto simp: plan_sound_def)
    then show ?thesis
      unfolding e by (simp add: plan_sound_def same_axes_def between_blocks_def plan_discard_current_block_def Let_def)
  qed
qed

definition free_obs :: arc_obs where
  "free_obs = \<lparr>ao_rounds = (\<lambda>_. [end_block_round]), ao_stop = (\<lambda>_. False)\<rparr>"

lemma free_undisturbed: "undisturbed free_obs"
proof -
  have "wait_for_block [end_block_round] w \<noteq> None" if ok: "motion_ok w" for w
  proof (cases "plan_check_full_buffer (mw_planner w)")
    case False
    then show ?thesis by simp
  next
    case True
    have wf: "wf_ring (mw_env w) (mw_planner w)" using ok by (simp add: plan_sound_def planner_ok_def)
    have full: "ring_count (mw_env w) (mw_planner w) \<noteq> 0"
      using True full_when_none_available [OF wf] available_blocks [OF wf] wf_ring_blocks [OF wf] by auto
    let ?q = "plan_discard_current_block (mw_env w) (mw_planner w)"
    have q: "wf_ring (mw_env w) ?q" "ring_count (mw_env w) ?q = ring_count (mw_env w) (mw_planner w) - 1"
      using discard_views [OF wf] full by auto
    have "\<not> plan_check_full_buffer ?q"
      using full_when_none_available [OF q(1)] available_blocks [OF q(1)] q(2) full ring_count_blocks [OF wf] by auto
    moreover have "mw_planner (realtime_round end_block_round w) = ?q"
      using full by (simp add: realtime_round_def end_block_round_def)
    moreover have "\<not> rr_abort end_block_round" by (simp add: end_block_round_def)
    ultimately have "wait_for_block [end_block_round] w = Some (False, realtime_round end_block_round w)"
      using True by (simp add: Let_def)
    then show ?thesis by simp
  qed
  moreover have "unbroken [end_block_round]"
    using end_block_keeps by (simp add: unbroken_def) (simp add: end_block_round_def)
  ultimately show ?thesis by (auto simp: undisturbed_def free_obs_def)
qed

text \<open>The half circle from (1, 0) around the origin to (-1, 0), on axes without soft limits.\<close>

definition open_env :: mc_env where
  "open_env = \<lparr>me_kin = \<lparr>kn_n_axis = 3, kn_soft_limits = [False, False, False], kn_homing = [None, None, None],
       kn_max_travel = [100, 100, 100], kn_pulloff = [1, 1, 1], kn_mpos = [1, 0, 0],
       kn_pos_limit_mask = 0, kn_neg_limit_mask = 0\<rparr>,
     me_check_mode = False, me_arc_tolerance = 1\<rparr>"

lemma open_env_fields [simp]:
  "me_check_mode open_env = False" "me_arc_tolerance open_env = 1" "kn_n_axis (me_kin open_env) = 3"
  "kn_soft_limits (me_kin open_env) = [False, False, False]"
  by (simp_all add: open_env_def)

lemma half_circle_allowed:
  "invalid_arc (me_kin open_env) \<lparr>arc_target = t, arc_position = p, arc_center = c, arc_radius = r,
     arc_axes = (0, 1, 2), arc_clockwise = cw, arc_rotations = n\<rparr> = None"
  by (simp add: invalid_arc_def split: prod.split)

lemma half_circle_segments:
  "arc_segments (arc_angular_travel (1, 0) (- 1, 0) False 1) 1 1 \<noteq> None"
proof -
  have one: "fmul 1 1 = 1" "fmul 0 0 = 0" "fmul 1 (- 1) = - 1" "fmul 1 0 = 0" "fmul 0 (- 1) = 0"
    "fsub 0 0 = 0" "fadd (- 1) 0 = - 1" "fmul 2 1 = 2" "fsub 2 1 = 1" "fsqrt 1 = 1"
    by (simp_all add: fmul_def fsub_def fadd_def fsqrt_def float_simps)
  have f: "fatan2 0 (- 1) = f32 pi" by (simp add: fatan2_def)
  define angle where "angle = arc_angular_travel (1, 0) (- 1, 0) False 1"
  have pi4: "0 \<le> f32 pi" "f32 pi \<le> 4"
    using f32_nonneg [of pi] f32_mono [of pi 4] pi_less_4 by (simp_all add: float_simps)
  have tau: "0 \<le> fmul 2 (f32 pi)" "fmul 2 (f32 pi) \<le> 8"
    using pi4 f32_mono [of "2 * f32 pi" 8] by (simp_all add: fmul_def f32_nonneg float_simps)
  have "0 \<le> angle \<and> angle \<le> 12"
    using pi4 tau f32_mono [of "f32 pi + fmul 2 (f32 pi)" 12]
    unfolding angle_def arc_angular_travel_def
    by (simp add: Let_def one f fadd_def f32_nonneg float_simps)
  then have "0 \<le> fmul (1 / 2) angle" "fmul (1 / 2) angle \<le> 12"
    using f32_mono [of "1 / 2 * angle" 12] by (simp_all add: fmul_def f32_nonneg float_simps)
  then have "0 \<le> fmul (fmul (1 / 2) angle) 1" "fmul (fmul (1 / 2) angle) 1 \<le> 12"
    using f32_mono [of "fmul (1 / 2) angle" 12] by (simp_all add: fmul_def [of _ 1] f32_nonneg float_simps)
  then have "fdiv \<bar>fmul (fmul (1 / 2) angle) 1\<bar> 1 \<le> 12"
    using f32_mono [of "fmul (fmul (1 / 2) angle) 1" 12] by (simp add: fdiv_def float_simps)
  then have "\<lfloor>fdiv \<bar>fmul (fmul (1 / 2) angle) 1\<bar> 1\<rfloor> < 65536" by linarith
  then show ?thesis unfolding angle_def [symmetric] by (simp add: arc_segments_def Let_def one)
qed

text \<open>The quarter circle from (1, 0) to (0, 1), inside limits from 0 to 1.\<close>

definition quarter_env :: kin_env where
  "quarter_env = \<lparr>kn_n_axis = 3, kn_soft_limits = [True, True, False], kn_homing = [Some (0, False), Some (0, False), None],
     kn_max_travel = [1, 1, 1], kn_pulloff = [1, 1, 1], kn_mpos = [1, 0, 0],
     kn_pos_limit_mask = 0, kn_neg_limit_mask = 0\<rparr>"

definition quarter_arc :: arc where
  "quarter_arc = \<lparr>arc_target = [0, 1, 0], arc_position = [1, 0, 0], arc_center = (0, 0), arc_radius = 1,
     arc_axes = (0, 1, 2), arc_clockwise = False, arc_rotations = 1\<rparr>"

lemma quarter_limits:
  "limitsMinPosition quarter_env 0 = 0" "limitsMaxPosition quarter_env 0 = 1"
  "limitsMinPosition quarter_env (Suc 0) = 0" "limitsMaxPosition quarter_env (Suc 0) = 1"
  by (simp_all add: limitsMinPosition_def limitsMaxPosition_def quarter_env_def fadd_def)

lemma quarter_axes: "kn_n_axis quarter_env = 3" "kn_soft_limits quarter_env = [True, True, False]"
  by (simp_all add: quarter_env_def)

lemma quarter_fields [simp]:
  "arc_target quarter_arc = [0, 1, 0]" "arc_position quarter_arc = [1, 0, 0]" "arc_center quarter_arc = (0, 0)"
  "arc_radius quarter_arc = 1" "arc_axes quarter_arc = (0, 1, 2)" "arc_clockwise quarter_arc = False"
  "arc_rotations quarter_arc = 1"
  by (simp_all add: quarter_arc_def)

lemma quarter_accepted: "invalid_arc quarter_env quarter_arc = None"
proof -
  have "arc_crosses quarter_arc = no_crossing\<lparr>cr_p1 := True\<rparr>"
    by (simp add: arc_crosses_def arc_crossings_def fsub_def)
  then show ?thesis
    by (simp add: quarter_axes invalid_arc_def arc_axis_invalid_def check_extent_def no_crossing_def quarter_limits fadd_def Let_def)
qed

lemma is_f32_1: "is_f32 1"
  by (simp add: is_f32_def)

lemma quarter_points:
  "on_circle quarter_arc (arc_position quarter_arc) 0" "on_circle quarter_arc (arc_target quarter_arc) (pi / 2)"
  by (simp_all add: on_circle_def is_f32_1)

text \<open>A millimetre along the first axis.\<close>

lemma demo_steps: "motor_pos_to_steps (demo_plan_env f) 0 1 = 100"
proof -
  have "fmul 1 100 = 100" by (simp add: fmul_def float_simps)
  then show ?thesis using lround_of_int [of 100] by (simp add: motor_pos_to_steps_def demo_plan_env_def)
qed

lemma demo_queued: "\<exists>p'. plan_buffer_line (demo_plan_env f) [1, 0] demo_move idle_planner = Some (BrQueued, p')"
proof -
  let ?e = "demo_plan_env f"
  obtain r p' where run: "plan_buffer_line ?e [1, 0] demo_move idle_planner = Some (r, p')"
    using new_motion [OF idle_planner_ok(1) idle_planner_ok(4)] by (metis demo_plan_fields(2))
  define p0 where "p0 = set_block (pn_head idle_planner) (\<lambda>_. block_of_line demo_move) idle_planner"
  have env: "pe_n_axis ?e = 2" "\<not> pe_unhomed_axes ?e" by (simp_all add: demo_plan_env_def)
  have pos: "pn_position p0 = [0, 0]"
    by (simp add: p0_def set_block_def idle_planner_def plan_reset_def plan_reset_buffer_def)
      (simp add: demo_plan_env_def numeral_2_eq_2)
  have d: "line_deltas ?e [1, 0] demo_move p0 = [100, motor_pos_to_steps ?e (Suc 0) 0]"
    by (simp add: line_deltas_def move_steps_def env pos demo_steps upt_rec)
  have "pb_step_event_count (with_distance ?e (line_deltas ?e [1, 0] demo_move p0) (block_of_line demo_move)) \<noteq> 0"
    using foldl_max_0 [of 0 "map (\<lambda>d. word_of_int \<bar>sint d\<bar>) (line_deltas ?e [1, 0] demo_move p0)"]
    by (auto simp: with_distance_def Let_def d)
  then have "r = BrQueued"
    using run env by (auto simp: plan_buffer_line_def Let_def p0_def [symmetric] split: prod.splits if_splits)
  then show ?thesis using run by blast
qed

end
