(* ===== verification/NgcPrecedence.thy ===== *)
theory NgcPrecedence
  imports NgcExpression
begin

text \<open>
  What an expression means: a tree whose operators respect the precedences, the operations
  of one level grouped to the left. The evaluator, with its two arrays, is first related to
  a machine over one list of pairs (\<open>climb\<close>), which is then shown to compute the value of
  every such tree whose text it reads.
\<close>

subsection \<open>The reference semantics\<close>

datatype expr_tree = Operand real | Operation expr_tree ngc_binary_op expr_tree

primrec tree_ops :: "expr_tree \<Rightarrow> ngc_binary_op set" where
  "tree_ops (Operand v) = {}"
| "tree_ops (Operation l op r) = insert op (tree_ops l \<union> tree_ops r)"

primrec well_grouped :: "expr_tree \<Rightarrow> bool" where
  "well_grouped (Operand v) \<longleftrightarrow> True"
| "well_grouped (Operation l op r) \<longleftrightarrow> well_grouped l \<and> well_grouped r \<and> op \<noteq> Binary_RightBracket
     \<and> (\<forall>p \<in> tree_ops l. precedence op \<le> precedence p)
     \<and> (\<forall>p \<in> tree_ops r. precedence op < precedence p)"

primrec eval_tree :: "expr_tree \<Rightarrow> gc_error + real" where
  "eval_tree (Operand v) = Inr v"
| "eval_tree (Operation l op r) =
     (case eval_tree l of Inl e \<Rightarrow> Inl e | Inr a \<Rightarrow>
        (case eval_tree r of Inl e \<Rightarrow> Inl e | Inr b \<Rightarrow> execute_binary a op b))"

text \<open>The text is the yield of the tree: its operands and operators from left to right.\<close>

inductive reads_tree :: "(string \<Rightarrow> (real \<times> string) option) \<Rightarrow> expr_tree \<Rightarrow> string \<Rightarrow> string \<Rightarrow> bool"
  for num where
  operand: "num line = Some (v, rest) \<Longrightarrow> reads_tree num (Operand v) line rest"
| operation: "reads_tree num l line l1 \<Longrightarrow> read_operation l1 = Inr (op, l2) \<Longrightarrow>
     reads_tree num r l2 rest \<Longrightarrow> reads_tree num (Operation l op r) line rest"

subsection \<open>A machine over one list\<close>

fun absorb :: "(real \<times> ngc_binary_op) list \<Rightarrow> real \<Rightarrow> ngc_binary_op
    \<Rightarrow> gc_error + (real \<times> ngc_binary_op) list" where
  "absorb [] v op = Inr [(v, op)]"
| "absorb ((a, p) # stack) v op =
     (if precedence op \<le> precedence p then
        case execute_binary a p v of Inl e \<Rightarrow> Inl e | Inr x \<Rightarrow> absorb stack x op
      else Inr ((v, op) # (a, p) # stack))"

fun climb :: "(string \<Rightarrow> (real \<times> string) option) \<Rightarrow> nat \<Rightarrow> (real \<times> ngc_binary_op) list \<Rightarrow> string
    \<Rightarrow> (gc_error, real) reading" where
  "climb num 0 stack line = None"
| "climb num (Suc n) stack line =
     (if stack \<noteq> [] \<and> snd (last stack) = Binary_RightBracket then Some (Inr (fst (last stack), line))
      else case num line of
        None \<Rightarrow> Some (Inl EBadNumberFormat)
      | Some (v, line) \<Rightarrow>
          (case read_operation line of
             Inl e \<Rightarrow> Some (Inl e)
           | Inr (op, line) \<Rightarrow>
               (case absorb stack v op of
                  Inl e \<Rightarrow> Some (Inl e)
                | Inr stack \<Rightarrow> climb num n stack line)))"

definition stack_of :: "nat \<Rightarrow> real list \<Rightarrow> ngc_binary_op list \<Rightarrow> (real \<times> ngc_binary_op) list" where
  "stack_of si vals ops = rev (zip (take si vals) (take si ops))"

lemma stack_of_Suc: "si < length vals \<Longrightarrow> si < length ops \<Longrightarrow>
    stack_of (Suc si) vals ops = (vals ! si, ops ! si) # stack_of si vals ops"
  by (simp add: stack_of_def take_Suc_conv_app_nth)

lemma stack_of_update [simp]: "si \<le> i \<Longrightarrow> stack_of si (vals[i := v]) (ops[i := p]) = stack_of si vals ops"
  by (simp add: stack_of_def)

lemma stack_of_0 [simp]: "stack_of 0 vals ops = []"
  by (simp add: stack_of_def)

lemma stack_of_last:
  "0 < si \<Longrightarrow> vals \<noteq> [] \<Longrightarrow> ops \<noteq> [] \<Longrightarrow> last (stack_of si vals ops) = (vals ! 0, ops ! 0)"
  by (cases vals; cases ops; cases si) (simp_all add: stack_of_def)

lemma reduce_stack_absorb:
  assumes "1 \<le> si" "si < length vals" "si < length ops"
    "precedence (ops ! si) \<le> precedence (ops ! (si - 1))"
  shows "absorb (stack_of si vals ops) (vals ! si) (ops ! si)
    = (case reduce_stack si vals ops of Inl e \<Rightarrow> Inl e
       | Inr (si', vals', ops') \<Rightarrow> Inr (stack_of si' vals' ops'))"
  using assms
proof (induction si vals ops rule: reduce_stack.induct)
  case (1 si vals ops)
  have top: "stack_of si vals ops = (vals ! (si - 1), ops ! (si - 1)) # stack_of (si - 1) vals ops"
    using stack_of_Suc [of "si - 1" vals ops] 1(2-4) by simp
  show ?case
  proof (cases "execute_binary (vals ! (si - 1)) (ops ! (si - 1)) (vals ! si)")
    case (Inl e)
    then show ?thesis
      by (subst reduce_stack.simps) (simp only: top absorb.simps 1(5) if_True sum.case)
  next
    case (Inr lhs)
    define vs os where "vs = vals[si - 1 := lhs]" and "os = ops[si - 1 := ops ! si]"
    have step: "reduce_stack si vals ops =
        (if 1 < si \<and> precedence (os ! (si - 1)) \<le> precedence (os ! (si - 2))
         then reduce_stack (si - 1) vs os else Inr (si, vs, os))"
      by (subst reduce_stack.simps) (simp only: 1(5) Inr vs_def os_def Let_def sum.case if_True)
    have nth: "vs ! (si - 1) = lhs" "os ! (si - 1) = ops ! si" "length vs = length vals"
      "length os = length ops" using 1(2-4) by (simp_all add: vs_def os_def)
    have same: "stack_of (si - 1) vs os = stack_of (si - 1) vals ops" by (simp add: vs_def os_def)
    have whole: "stack_of si vs os = (lhs, ops ! si) # stack_of (si - 1) vals ops"
      using stack_of_Suc [of "si - 1" vs os] 1(2-4) by (simp add: nth same del: One_nat_def)
    have lhs: "absorb (stack_of si vals ops) (vals ! si) (ops ! si)
        = absorb (stack_of (si - 1) vals ops) lhs (ops ! si)"
      by (simp only: top absorb.simps 1(5) Inr if_True sum.case)
    show ?thesis
    proof (cases "1 < si \<and> precedence (os ! (si - 1)) \<le> precedence (os ! (si - 2))")
      case True
      then have "absorb (stack_of (si - 1) vs os) (vs ! (si - 1)) (os ! (si - 1))
          = (case reduce_stack (si - 1) vs os of Inl e \<Rightarrow> Inl e
             | Inr (si', vals', ops') \<Rightarrow> Inr (stack_of si' vals' ops'))"
        unfolding vs_def os_def
        by (intro 1(1) [OF 1(5) Inr refl refl]) (use 1(3,4) in \<open>auto simp: numeral_2_eq_2\<close>)
      moreover have "reduce_stack si vals ops = reduce_stack (si - 1) vs os" using True step by simp
      ultimately show ?thesis by (simp only: lhs nth same)
    next
      case False
      have "absorb (stack_of (si - 1) vals ops) lhs (ops ! si)
          = Inr ((lhs, ops ! si) # stack_of (si - 1) vals ops)"
      proof (cases "si = 1")
        case big: False
        then have "stack_of (si - 1) vals ops = (vals ! (si - 2), ops ! (si - 2)) # stack_of (si - 2) vals ops"
          using stack_of_Suc [of "si - 2" vals ops] 1(2-4) by (simp add: numeral_2_eq_2 Suc_diff_Suc)
        moreover have "os ! (si - 2) = ops ! (si - 2)" using big 1(2) by (simp add: os_def)
        ultimately show ?thesis using False big 1(2) by (simp add: nth del: One_nat_def)
      qed simp
      then show ?thesis using False by (simp only: lhs step if_False sum.case prod.case whole)
    qed
  qed
qed

lemma loop_climb:
  assumes "4 * length line + 4 \<le> n" "stack_ok si vals ops"
  shows "expression_loop pget pexists n si vals ops line
    = climb (ngc_number pget pexists True) n (stack_of si vals ops) line"
  using assms
proof (induction n arbitrary: si vals ops line)
  case (Suc n)
  let ?num = "ngc_number pget pexists True"
  have len: "1 \<le> si" "length vals = MAX_STACK" "length ops = MAX_STACK"
    using Suc.prems(2) by (simp_all add: stack_ok_def)
  have "vals \<noteq> []" "ops \<noteq> []" using len by (auto simp: MAX_STACK_def)
  with len have ne: "stack_of si vals ops \<noteq> []" "last (stack_of si vals ops) = (vals ! 0, ops ! 0)"
    by (simp_all add: stack_of_last) (simp add: stack_of_def)
  show ?case
  proof (cases "ops ! 0 = Binary_RightBracket")
    case True
    then show ?thesis by (simp add: reading_defs ne)
  next
    case False
    then have si: "si \<le> 5" "si < MAX_STACK"
      using stack_ok_index [OF Suc.prems(2)] by (simp_all add: MAX_STACK_def)
    have num: "read_number pget pexists n True line
        = Some (case ?num line of None \<Rightarrow> Inl () | Some r \<Rightarrow> Inr r)"
      by (rule read_number_fuel) (use Suc.prems(1) in simp)
    show ?thesis
    proof (cases "?num line")
      case None
      then show ?thesis using False si by (simp add: reading_defs ne num)
    next
      case (Some r)
      then obtain v l1 where v: "?num line = Some (v, l1)" by (cases r) auto
      show ?thesis
      proof (cases "read_operation l1")
        case (Inl e)
        then show ?thesis using False si v by (simp add: reading_defs ne num)
      next
        case (Inr opl)
        then obtain op l2 where op: "read_operation l1 = Inr (op, l2)" by (cases opl) auto
        let ?vs = "vals[si := v]" and ?os = "ops[si := op]"
        have fuel: "4 * length l2 + 4 \<le> n"
          using ngc_number_length [OF v] read_operation_length [OF op] Suc.prems(1) by simp
        have nth: "?vs ! si = v" "?os ! si = op" "?os ! (si - 1) = ops ! (si - 1)"
          using len si by (auto simp: nth_list_update)
        have top: "stack_of si vals ops = (vals ! (si - 1), ops ! (si - 1)) # stack_of (si - 1) vals ops"
          using stack_of_Suc [of "si - 1" vals ops] len si by simp
        have step: "expression_loop pget pexists (Suc n) si vals ops line =
            (if precedence (ops ! (si - 1)) < precedence op then
               expression_loop pget pexists n (si + 1) ?vs ?os l2
             else case reduce_stack si ?vs ?os of Inl e \<Rightarrow> Some (Inl e)
               | Inr (si, vals, ops) \<Rightarrow> expression_loop pget pexists n si vals ops l2)"
          using False si by (simp add: reading_defs num v op nth Let_def del: One_nat_def)
        have abs: "climb ?num (Suc n) (stack_of si vals ops) line =
            (case absorb (stack_of si vals ops) v op of Inl e \<Rightarrow> Some (Inl e)
             | Inr stack \<Rightarrow> climb ?num n stack l2)"
          using False by (simp add: ne v op)
        show ?thesis
        proof (cases "precedence (ops ! (si - 1)) < precedence op")
          case True
          then have "expression_loop pget pexists n (si + 1) ?vs ?os l2
              = climb ?num n (stack_of (si + 1) ?vs ?os) l2"
            by (intro Suc.IH fuel stack_ok_push Suc.prems(2) si)
          moreover have "stack_of (si + 1) ?vs ?os = (v, op) # stack_of si vals ops"
            using stack_of_Suc [of si ?vs ?os] len si by (simp add: nth)
          ultimately show ?thesis using True step abs by (simp add: top del: One_nat_def)
        next
          case False
          have "absorb (stack_of si ?vs ?os) (?vs ! si) (?os ! si)
              = (case reduce_stack si ?vs ?os of Inl e \<Rightarrow> Inl e
                 | Inr (si', vals', ops') \<Rightarrow> Inr (stack_of si' vals' ops'))"
            by (rule reduce_stack_absorb) (use len si False in \<open>simp_all add: nth del: One_nat_def\<close>)
          then have "absorb (stack_of si vals ops) v op
              = (case reduce_stack si ?vs ?os of Inl e \<Rightarrow> Inl e
                 | Inr (si', vals', ops') \<Rightarrow> Inr (stack_of si' vals' ops'))"
            by (simp add: nth)
          moreover have "expression_loop pget pexists n si' vals' ops' l2
              = climb ?num n (stack_of si' vals' ops') l2"
            if "reduce_stack si ?vs ?os = Inr (si', vals', ops')" for si' vals' ops'
            using reduce_stack_ok [OF stack_ok_update [OF Suc.prems(2)] that] False fuel
            by (intro Suc.IH) (simp_all add: nth not_less del: One_nat_def)
          ultimately show ?thesis using step abs False by (auto split: sum.split)
        qed
      qed
    qed
  qed
qed simp

lemma expression_climb:
  assumes "peek line = CHR ''[''"
  shows "expression pget pexists (fuel_for line) line
    = climb (ngc_number pget pexists True) (4 * length line + 4) [] (tl line)"
proof -
  let ?num = "ngc_number pget pexists True"
  define n where "n = 4 * length line + 3"
  have f: "fuel_for line = Suc n" "4 * length line + 4 = Suc n" by (simp_all add: fuel_for_def n_def)
  have num: "read_number pget pexists n True (tl line)
      = Some (case ?num (tl line) of None \<Rightarrow> Inl () | Some r \<Rightarrow> Inr r)"
    by (rule read_number_fuel) (simp add: n_def)
  have loop: "expression_loop pget pexists n 1 ((replicate MAX_STACK 0)[0 := v])
        ((replicate MAX_STACK Binary_NoOp)[0 := op]) l2 = climb ?num n [(v, op)] l2"
    if "?num (tl line) = Some (v, l1)" "read_operation l1 = Inr (op, l2)" for v l1 op l2
  proof -
    have "4 * length l2 + 4 \<le> n"
      using ngc_number_length [OF that(1)] read_operation_length [OF that(2)] by (simp add: n_def)
    from loop_climb [OF this stack_ok_start, of pget pexists v op] show ?thesis
      by (simp add: stack_of_def MAX_STACK_def numeral_eq_Suc)
  qed
  show ?thesis
    unfolding f reading_defs using assms
    by (auto simp: num loop simp del: One_nat_def split: option.split sum.split)
qed

subsection \<open>The machine computes the tree\<close>

definition loose :: "(real \<times> ngc_binary_op) list \<Rightarrow> expr_tree \<Rightarrow> bool" where
  "loose stack t \<longleftrightarrow> stack = [] \<or> snd (last stack) \<noteq> Binary_RightBracket
     \<and> (\<forall>p \<in> tree_ops t. precedence (snd (hd stack)) < precedence p)"

lemma absorb_push: "stack = [] \<or> precedence (snd (hd stack)) < precedence op \<Longrightarrow>
    absorb stack v op = Inr ((v, op) # stack)"
  by (cases stack) auto

lemma climb_tree:
  assumes "reads_tree num t line rest" "well_grouped t" "read_operation rest = Inr (op', rest')"
    "\<forall>p \<in> tree_ops t. precedence op' \<le> precedence p" "loose stack t" "length line < n"
    "\<And>l v r. num l = Some (v, r) \<Longrightarrow> length r < length l"
  shows "\<exists>m. length rest' < m \<and> climb num n stack line =
    (case eval_tree t of Inl e \<Rightarrow> Some (Inl e)
     | Inr v \<Rightarrow> (case absorb stack v op' of Inl e \<Rightarrow> Some (Inl e)
                | Inr stack' \<Rightarrow> climb num m stack' rest'))"
  using assms(1-6)
proof (induction arbitrary: stack n op' rest' rule: reads_tree.induct)
  case (operand line v rest)
  then obtain m where n: "n = Suc m" by (cases n) auto
  have "length rest' < m"
    using assms(7) [OF operand.hyps] read_operation_length [OF operand.prems(2)] operand.prems(5) n
    by simp
  then show ?case using operand by (intro exI [of _ m]) (auto simp: n loose_def)
next
  case (operation l line l1 op l2 r rest)
  from operation.prems(1,4) have top: "loose stack l"
      "stack = [] \<or> precedence (snd (hd stack)) < precedence op"
    by (auto simp: loose_def)
  obtain m1 where m1: "length l2 < m1" "climb num n stack line =
      (case eval_tree l of Inl e \<Rightarrow> Some (Inl e)
       | Inr a \<Rightarrow> (case absorb stack a op of Inl e \<Rightarrow> Some (Inl e)
                  | Inr stack' \<Rightarrow> climb num m1 stack' l2))"
    using operation.IH(1) [OF _ operation.hyps(2) _ top(1) operation.prems(5)] operation.prems(1) by auto
  show ?case
  proof (cases "eval_tree l")
    case (Inl e)
    then show ?thesis using m1 by auto
  next
    case (Inr a)
    have lr: "loose ((a, op) # stack) r" using operation.prems(1) top operation.prems(4)
      by (auto simp: loose_def)
    obtain m2 where m2: "length rest' < m2" "climb num m1 ((a, op) # stack) l2 =
        (case eval_tree r of Inl e \<Rightarrow> Some (Inl e)
         | Inr b \<Rightarrow> (case absorb ((a, op) # stack) b op' of Inl e \<Rightarrow> Some (Inl e)
                    | Inr stack' \<Rightarrow> climb num m2 stack' rest'))"
      using operation.IH(2) [OF _ operation.prems(2) _ lr m1(1)] operation.prems(1,3) by auto
    have "precedence op' \<le> precedence op" using operation.prems(3) by simp
    then show ?thesis using m1(2) m2 Inr absorb_push [OF top(2), of a]
      by (intro exI [of _ m2]) (auto split: sum.split)
  qed
qed

theorem expression_tree:
  assumes "reads_tree (ngc_number pget pexists True) t line rest" "well_grouped t"
    "read_operation rest = Inr (Binary_RightBracket, rest')"
  shows "ngc_expression pget pexists (CHR ''['' # line)
    = (case eval_tree t of Inl e \<Rightarrow> Inl e | Inr v \<Rightarrow> Inr (v, rest'))"
proof -
  let ?num = "ngc_number pget pexists True" and ?line = "CHR ''['' # line"
  have "\<exists>m. length rest' < m \<and> climb ?num (4 * length ?line + 4) [] line =
    (case eval_tree t of Inl e \<Rightarrow> Some (Inl e)
     | Inr v \<Rightarrow> (case absorb [] v Binary_RightBracket of Inl e \<Rightarrow> Some (Inl e)
                | Inr stack' \<Rightarrow> climb ?num m stack' rest'))"
    by (rule climb_tree [OF assms(1,2,3)])
      (auto simp: loose_def precedence_bounds(1) [unfolded One_nat_def] dest: ngc_number_length)
  then obtain m where "length rest' < m" "climb ?num (4 * length ?line + 4) [] line =
    (case eval_tree t of Inl e \<Rightarrow> Some (Inl e)
     | Inr v \<Rightarrow> climb ?num m [(v, Binary_RightBracket)] rest')"
    by (simp only: absorb.simps sum.case) blast
  moreover from this obtain k where "m = Suc k" by (cases m) auto
  ultimately show ?thesis
    using expression_climb [of ?line pget pexists]
    by (simp add: ngc_expression_def split: sum.split)
qed

subsection \<open>Every result comes from a tree\<close>

text \<open>
  The trees behind the stack: entry by entry the operand is the value of a tree that was
  read, its operators bind no looser than the operator of the entry and tighter than the
  one of the entry below.
\<close>

fun grown :: "(string \<Rightarrow> (real \<times> string) option) \<Rightarrow> string \<Rightarrow> (real \<times> ngc_binary_op) list
    \<Rightarrow> string \<Rightarrow> bool" where
  "grown num line [] rest \<longleftrightarrow> rest = line"
| "grown num line ((a, op) # stack) rest \<longleftrightarrow>
     (\<exists>t l1 l2. grown num line stack l1 \<and> reads_tree num t l1 l2 \<and> well_grouped t
        \<and> eval_tree t = Inr a \<and> read_operation l2 = Inr (op, rest)
        \<and> (\<forall>p \<in> tree_ops t. precedence op \<le> precedence p)
        \<and> (stack \<noteq> [] \<longrightarrow> snd (hd stack) \<noteq> Binary_RightBracket
             \<and> precedence (snd (hd stack)) < precedence op
             \<and> (\<forall>p \<in> tree_ops t. precedence (snd (hd stack)) < precedence p)))"

lemma absorb_grown:
  assumes "absorb stack v op = Inr stack'" "grown num line stack l1" "reads_tree num t l1 l2"
    "well_grouped t" "eval_tree t = Inr v" "read_operation l2 = Inr (op, rest)"
    "\<forall>p \<in> tree_ops t. precedence op \<le> precedence p"
    "stack \<noteq> [] \<longrightarrow> snd (hd stack) \<noteq> Binary_RightBracket
       \<and> (\<forall>p \<in> tree_ops t. precedence (snd (hd stack)) < precedence p)"
  shows "grown num line stack' rest"
  using assms
proof (induction stack v op arbitrary: l1 t rule: absorb.induct)
  case (1 v op)
  then show ?case by fastforce
next
  case (2 a q stack v op)
  from "2.prems"(2) obtain ta k1 k2 where ta: "grown num line stack k1" "reads_tree num ta k1 k2"
    "well_grouped ta" "eval_tree ta = Inr a" "read_operation k2 = Inr (q, l1)"
    "\<forall>p \<in> tree_ops ta. precedence q \<le> precedence p"
    "stack \<noteq> [] \<longrightarrow> snd (hd stack) \<noteq> Binary_RightBracket
       \<and> precedence (snd (hd stack)) < precedence q
       \<and> (\<forall>p \<in> tree_ops ta. precedence (snd (hd stack)) < precedence p)" by auto
  show ?case
  proof (cases "precedence op \<le> precedence q")
    case True
    then obtain x where x: "execute_binary a q v = Inr x" "absorb stack x op = Inr stack'"
      using "2.prems"(1) by (auto split: sum.splits)
    let ?t = "Operation ta q t"
    have q: "q \<noteq> Binary_RightBracket" "\<forall>p \<in> tree_ops t. precedence q < precedence p"
      using "2.prems"(8) by auto
    have "reads_tree num ?t k1 l2" using ta(2,5) "2.prems"(3) by (rule reads_tree.operation)
    moreover have "well_grouped ?t" using ta(3,6) "2.prems"(4) q by simp
    moreover have "eval_tree ?t = Inr x" using ta(4) "2.prems"(5) x(1) by simp
    moreover have "\<forall>p \<in> tree_ops ?t. precedence op \<le> precedence p"
      using ta(6) q(2) True by fastforce
    moreover have "stack \<noteq> [] \<longrightarrow> snd (hd stack) \<noteq> Binary_RightBracket
       \<and> (\<forall>p \<in> tree_ops ?t. precedence (snd (hd stack)) < precedence p)"
      using ta(7) q(2) by fastforce
    ultimately show ?thesis using "2.IH" [OF True x(1) x(2) ta(1)] "2.prems"(6) by blast
  next
    case False
    then have "stack' = (v, op) # (a, q) # stack" using "2.prems"(1) by simp
    with "2.prems" False show ?thesis by fastforce
  qed
qed

lemma grown_below: "grown num line (e # stack) rest \<Longrightarrow> x \<in> set stack \<Longrightarrow> snd x \<noteq> Binary_RightBracket"
proof (induction stack arbitrary: e rest)
  case (Cons f stack)
  obtain a op where e: "e = (a, op)" by (cases e)
  from Cons.prems(1) obtain l1 where "grown num line (f # stack) l1" "snd f \<noteq> Binary_RightBracket"
    unfolding e grown.simps(2) by auto
  with Cons.IH [of f l1] Cons.prems(2) show ?case by auto
qed simp

lemma grown_last:
  assumes "grown num line stack rest" "stack \<noteq> []" "snd (last stack) = Binary_RightBracket"
  shows "\<exists>a. stack = [(a, Binary_RightBracket)]"
proof (cases stack)
  case (Cons e es)
  have "es = []"
  proof (rule ccontr)
    assume "es \<noteq> []"
    then have "last stack \<in> set es" by (simp add: Cons)
    with grown_below [of num line e es rest] assms(1,3) Cons show False by blast
  qed
  with assms(3) Cons show ?thesis by (cases e) simp
qed (use assms(2) in simp)

lemma climb_grown:
  assumes "climb num n stack line = Some (Inr (v, rest))" "grown num line0 stack line"
    "stack = [] \<or> snd (last stack) = Binary_RightBracket \<or> snd (hd stack) \<noteq> Binary_RightBracket"
  shows "\<exists>t l. reads_tree num t line0 l \<and> well_grouped t \<and> eval_tree t = Inr v
    \<and> read_operation l = Inr (Binary_RightBracket, rest)"
  using assms
proof (induction num n stack line rule: climb.induct)
  case (2 num n stack line)
  show ?case
  proof (cases "stack \<noteq> [] \<and> snd (last stack) = Binary_RightBracket")
    case True
    then obtain a where "stack = [(a, Binary_RightBracket)]" using grown_last [OF "2.prems"(2)] by blast
    with True "2.prems" show ?thesis by auto
  next
    case False
    then obtain x l1 op l2 stack' where r: "num line = Some (x, l1)" "read_operation l1 = Inr (op, l2)"
      "absorb stack x op = Inr stack'" "climb num n stack' l2 = Some (Inr (v, rest))"
      using "2.prems"(1) by (auto split: option.splits sum.splits)
    have g: "grown num line0 stack' l2"
      by (rule absorb_grown [OF r(3) "2.prems"(2) reads_tree.operand [of num line x l1, OF r(1)]])
        (use r False "2.prems"(3) in auto)
    moreover have "stack' = [] \<or> snd (last stack') = Binary_RightBracket \<or> snd (hd stack') \<noteq> Binary_RightBracket"
    proof (cases stack')
      case (Cons e es)
      then obtain a p where "stack' = (a, p) # es" by (cases e) auto
      with g show ?thesis by (cases "es = []") (auto simp: less_le_not_le dest: order.strict_trans2)
    qed simp
    ultimately show ?thesis using "2.IH" r False by blast
  qed
qed simp

theorem expression_result:
  assumes "ngc_expression pget pexists (CHR ''['' # line) = Inr (v, rest)"
  shows "\<exists>t l. reads_tree (ngc_number pget pexists True) t line l \<and> well_grouped t
    \<and> eval_tree t = Inr v \<and> read_operation l = Inr (Binary_RightBracket, rest)"
proof -
  let ?line = "CHR ''['' # line"
  have "expression pget pexists (fuel_for ?line) ?line = Some (Inr (v, rest))"
    using expression_fuel [of ?line "fuel_for ?line" pget pexists] assms by (simp add: fuel_for_def)
  then have "climb (ngc_number pget pexists True) (4 * length ?line + 4) [] line = Some (Inr (v, rest))"
    using expression_climb [of ?line pget pexists] by simp
  then show ?thesis by (rule climb_grown) simp_all
qed

end
