(* ===== verification/ParamBehaviour.thy ===== *)
theory ParamBehaviour
  imports NgcParameters
begin

text \<open>
  What the parameters promise: a user parameter that was set is read back, whatever its kind,
  and setting it disturbs no other.
\<close>

subsection \<open>Numbers\<close>

lemma axis_id_low:
  assumes "unat i \<le> 5000" "5000 < unat key" "unat key \<le> 10000"
  shows "\<not> is_axis (axis_from_id i key)"
proof -
  have "i < key" using assms by (simp add: word_less_nat_alt)
  then have "unat (i - key) = unat i + 2 ^ 32 - unat key"
    by (simp add: unat_sub_if' word_le_nat_alt word_less_nat_alt)
  then show ?thesis
    using assms by (simp add: axis_from_id_def is_axis_def MAX_N_AXIS_def)
qed

lemma find_axis_low: "unat i \<le> 5000 \<Longrightarrow> find_axis_param i axis_params = None"
  by (simp add: axis_params_def axis_id_low Let_def)

text \<open>The parameters that programs own: numbers from 31 to 5000 and plain names.\<close>

definition user_param :: "param_ref \<Rightarrow> bool" where
  "user_param r \<longleftrightarrow>
     (if pr_name r = [] then 31 \<le> unat (pr_id r) \<and> unat (pr_id r) \<le> 5000
      else hd (pr_name r) \<noteq> CHR ''/'' \<and> hd (pr_name r) \<noteq> CHR ''_'')"

text \<open>
  Two references to one parameter: names of a job differ in case, global names do not.
\<close>

definition same_param :: "gc_world \<Rightarrow> param_ref \<Rightarrow> param_ref \<Rightarrow> bool" where
  "same_param w r s \<longleftrightarrow>
     (if pr_name r = [] then pr_name s = [] \<and> pr_id s = pr_id r
      else pr_name s \<noteq> [] \<and> (if job_active w then pr_name s = pr_name r
                             else upper (pr_name s) = upper (pr_name r)))"

lemma param_bounds:
  fixes i :: u32
  assumes "31 \<le> unat i" "unat i \<le> 5000"
  shows "1 \<le> i" "31 \<le> i" "i \<le> 5000" "i \<noteq> 5220" "i \<noteq> 5400" "i \<noteq> 5399" "i \<noteq> 5070"
  using assms by (auto simp: word_le_nat_alt)

lemma get_user_number:
  assumes "31 \<le> unat i" "unat i \<le> 5000"
  shows "get_numbered_param env w i = gw_float_params w i"
  using assms param_bounds [OF assms]
  by (simp add: get_numbered_param_def find_axis_low axis_id_low can_read_float_param_def Let_def)

lemma set_user_number:
  assumes "31 \<le> unat i" "unat i \<le> 5000"
  shows "set_numbered_param i v w = (True, w\<lparr>gw_float_params := (gw_float_params w)(i \<mapsto> v)\<rparr>)"
  using assms param_bounds [OF assms]
  by (simp add: set_numbered_param_def find_axis_low axis_id_low can_write_float_param_def Let_def)

lemma get_user_param:
  assumes "user_param r"
  shows "get_param env w r =
    (if pr_name r = [] then gw_float_params w (pr_id r)
     else if job_active w then js_local_params (hd (gw_jobs w)) (pr_name r)
     else gw_named w (upper (pr_name r)))"
  using assms
  by (cases "pr_name r")
    (auto simp: get_param_def user_param_def get_user_number job_get_param_def get_global_named_param_def)

lemma set_user_param:
  assumes "user_param r" "set_param env r v w = (ok, w')"
  shows "ok \<and> user_param s \<longrightarrow> get_param env w' s = (if same_param w r s then Some v else get_param env w s)"
proof (intro impI)
  assume "ok \<and> user_param s"
  then have s: "user_param s" by simp
  show "get_param env w' s = (if same_param w r s then Some v else get_param env w s)"
  proof (cases "pr_name r")
    case Nil
    then have "w' = w\<lparr>gw_float_params := (gw_float_params w)(pr_id r \<mapsto> v)\<rparr>"
      using assms by (simp add: set_param_def user_param_def set_user_number)
    with Nil show ?thesis by (simp add: get_user_param [OF s] same_param_def job_active_def)
  next
    case (Cons c cs)
    have c: "c \<noteq> CHR ''/''" "c \<noteq> CHR ''_''" using assms(1) Cons by (simp_all add: user_param_def)
    show ?thesis
    proof (cases "gw_jobs w")
      case Nil
      then have "w' = w\<lparr>gw_named := (gw_named w)(upper (pr_name r) \<mapsto> v)\<rparr>"
        using assms Cons c by (simp add: set_param_def set_named_param_def job_active_def)
      with Nil Cons show ?thesis by (simp add: get_user_param [OF s] same_param_def job_active_def)
    next
      case jobs: (Cons j js)
      then have "w' = w\<lparr>gw_jobs := j\<lparr>js_local_params := (js_local_params j)(pr_name r \<mapsto> v)\<rparr> # js\<rparr>"
        using assms Cons c by (simp add: set_param_def job_set_param_def job_active_def)
      with jobs Cons show ?thesis by (simp add: get_user_param [OF s] same_param_def job_active_def)
    qed
  qed
qed

lemma set_user_param_ok:
  assumes "user_param r" "set_param env r v w = (ok, w')"
  shows "ok"
  using assms
  by (cases "pr_name r"; cases "gw_jobs w")
    (auto simp: set_param_def user_param_def set_user_number set_named_param_def job_set_param_def job_active_def)

end
