(* ===== verification/Regexpr.thy ===== *)
theory Regexpr
  imports StringUtil
begin

text \<open>
  The matcher for setting names (\<^verbatim>\<open>Regexpr.cpp\<close>): literals, \<open>*\<close> for any text, \<open>^\<close> and
  \<open>$\<close> for the ends. The loops over the text are the recursion of \<open>matchStar\<close> and
  \<open>matchAnywhere\<close>; they end because a call shortens the pattern or the text. The lemmas show that the search
  finds a match whenever the declarative reading of the pattern has one.
\<close>

definition same_char :: "bool \<Rightarrow> char \<Rightarrow> char \<Rightarrow> bool" where
  "same_char case_sensitive a b \<longleftrightarrow> (if case_sensitive then a = b else tolower a = tolower b)"

function matchStar :: "string \<Rightarrow> string \<Rightarrow> bool \<Rightarrow> bool"
  and matchHere :: "string \<Rightarrow> string \<Rightarrow> bool \<Rightarrow> bool" where
  "matchStar regexp txt case_sensitive =
     (if matchHere regexp txt case_sensitive then True
      else case txt of [] \<Rightarrow> False | c # cs \<Rightarrow> matchStar regexp cs case_sensitive)"
| "matchHere regexp txt case_sensitive =
     (case regexp of
        [] \<Rightarrow> True
      | r # rs \<Rightarrow>
          if r = CHR ''*'' then matchStar rs txt case_sensitive
          else if r = CHR ''$'' \<and> rs = [] then txt = []
          else case txt of
                 [] \<Rightarrow> False
               | c # cs \<Rightarrow> if same_char case_sensitive r c then matchHere rs cs case_sensitive else False)"
  by pat_completeness auto
termination
  by (relation "measure (\<lambda>p. case p of
        Inl (r, t, b) \<Rightarrow> 2 * (length r + length t) + 1
      | Inr (r, t, b) \<Rightarrow> 2 * (length r + length t))") auto

declare matchStar.simps [simp del] matchHere.simps [simp del]

fun matchAnywhere :: "string \<Rightarrow> string \<Rightarrow> bool \<Rightarrow> bool" where
  "matchAnywhere regexp [] case_sensitive = matchHere regexp [] case_sensitive"
| "matchAnywhere regexp (c # cs) case_sensitive =
     (if matchHere regexp (c # cs) case_sensitive then True else matchAnywhere regexp cs case_sensitive)"

definition regexMatch :: "string \<Rightarrow> string \<Rightarrow> bool \<Rightarrow> bool" where
  "regexMatch regexp txt case_sensitive =
     (case regexp of
        [] \<Rightarrow> matchAnywhere regexp txt case_sensitive
      | r # rs \<Rightarrow> if r = CHR ''^'' then matchHere rs txt case_sensitive
                  else matchAnywhere regexp txt case_sensitive)"

subsection \<open>What a pattern means\<close>

text \<open>A text that starts with an instance of the pattern.\<close>

inductive starts_with :: "bool \<Rightarrow> string \<Rightarrow> string \<Rightarrow> bool" for cs where
  sw_empty: "starts_with cs [] t"
| sw_star: "starts_with cs r t \<Longrightarrow> starts_with cs (CHR ''*'' # r) (u @ t)"
| sw_end: "starts_with cs ''$'' []"
| sw_char: "a \<noteq> CHR ''*'' \<Longrightarrow> \<not> (a = CHR ''$'' \<and> r = []) \<Longrightarrow> same_char cs a b \<Longrightarrow> starts_with cs r t \<Longrightarrow>
    starts_with cs (a # r) (b # t)"

inductive_simps starts_with_simps:
  "starts_with cs [] t" "starts_with cs (a # r) t"

lemma match_sound:
  "matchStar r t cs \<Longrightarrow> \<exists>u t'. t = u @ t' \<and> starts_with cs r t'"
  "matchHere r t cs \<Longrightarrow> starts_with cs r t"
proof (induction r t cs and r t cs rule: matchStar_matchHere.induct)
  case (1 r t cs)
  show ?case
  proof (cases "matchHere r t cs")
    case True
    with 1(1) show ?thesis by (intro exI [of _ "[]"] exI [of _ t]) simp
  next
    case False
    with 1(3) obtain c t1 where t: "t = c # t1" "matchStar r t1 cs"
      by (subst (asm) matchStar.simps) (auto split: list.splits)
    with 1(2) [OF False t(1)] obtain u t' where "t1 = u @ t'" "starts_with cs r t'" by blast
    with t(1) show ?thesis by (intro exI [of _ "c # u"] exI [of _ t']) simp
  qed
next
  case (2 r t cs)
  show ?case
  proof (cases r)
    case Nil
    then show ?thesis by (simp add: starts_with_simps)
  next
    case (Cons a rs)
    have "(if a = CHR ''*'' then matchStar rs t cs
        else if a = CHR ''$'' \<and> rs = [] then t = []
        else case t of [] \<Rightarrow> False
          | c # ds \<Rightarrow> if same_char cs a c then matchHere rs ds cs else False)"
      using 2(3) unfolding Cons by (subst (asm) matchHere.simps) simp
    then show ?thesis using 2(1,2) Cons
      by (auto simp: starts_with_simps split: if_splits list.splits)
  qed
qed

lemma matchStar_suffix: "matchHere r t cs \<Longrightarrow> matchStar r (u @ t) cs"
proof (induction u)
  case Nil
  then show ?case by (subst matchStar.simps) simp
next
  case (Cons c u)
  then show ?case by (subst matchStar.simps) simp
qed

lemma matchHere_complete: "starts_with cs r t \<Longrightarrow> matchHere r t cs"
proof (induction rule: starts_with.induct)
  case (sw_star r t u)
  then show ?case by (subst matchHere.simps) (simp add: matchStar_suffix)
next
  case (sw_char a r b t)
  then show ?case by (subst matchHere.simps) auto
qed (subst matchHere.simps, simp)+

lemma matchHere_iff: "matchHere r t cs \<longleftrightarrow> starts_with cs r t"
  using match_sound(2) matchHere_complete by blast

lemma matchAnywhere_iff: "matchAnywhere r t cs \<longleftrightarrow> (\<exists>u t'. t = u @ t' \<and> starts_with cs r t')"
proof (induction t)
  case (Cons c t)
  show ?case
  proof
    assume "matchAnywhere r (c # t) cs"
    then consider "starts_with cs r (c # t)" | u t' where "t = u @ t'" "starts_with cs r t'"
      using Cons by (auto simp: matchHere_iff split: if_splits)
    then show "\<exists>u t'. c # t = u @ t' \<and> starts_with cs r t'"
      by cases (metis append_Nil, metis append_Cons)
  next
    assume "\<exists>u t'. c # t = u @ t' \<and> starts_with cs r t'"
    then obtain u t' where "c # t = u @ t'" "starts_with cs r t'" by blast
    with Cons show "matchAnywhere r (c # t) cs" by (cases u) (auto simp: matchHere_iff)
  qed
qed (simp add: matchHere_iff)

lemma regexMatch_iff:
  "regexMatch r t cs \<longleftrightarrow>
     (if take 1 r = ''^'' then starts_with cs (drop 1 r) t
      else \<exists>u t'. t = u @ t' \<and> starts_with cs r t')"
  by (cases r) (auto simp: regexMatch_def matchAnywhere_iff matchHere_iff)

end
