(* ===== verification/Scenario.thy ===== *)
theory Scenario
  imports ControllerBehaviour SimDiel
begin

text \<open>
  A concrete session over the CAN link, at which the properties with hypotheses are
  instantiated: power up, a cut request, the supply's status frame, the settling tick.
  Every state in it is reachable by the calls of the firmware.
\<close>

definition status_frame :: can_frame where
  "status_frame = (mk_frame ID_PSU_STATUS 13)\<lparr>cf_data := put_u16 (replicate 64 0) 5 1\<rparr>"

definition demo_start :: "(can_psu_link, sim_diel) edm_controller" where
  "demo_start = controller_init can_psu_init servo_config_default mode_table_default
     controller_timers_default"

definition demo_requested :: "(can_psu_link, sim_diel) edm_controller" where
  "demo_requested = requestCut can_psu_ops 10 demo_start"

definition demo_online :: "(can_psu_link, sim_diel) edm_controller" where
  "demo_online = demo_requested\<lparr>ctl_link := can_onFrame status_frame (ctl_link demo_requested)\<rparr>"

definition demo_settled :: "(can_psu_link, sim_diel) edm_controller" where
  "demo_settled = tick can_psu_ops sim_diel_ops 0 demo_online"

definition demo_started :: "(can_psu_link, sim_diel) edm_controller" where
  "demo_started = tick can_psu_ops sim_diel_ops 1 demo_settled"

lemma decode_status_frame: "decodePsuStatus status_frame =
    Some \<lparr>ps_state = 0, ps_fpga_version = 0, ps_mcu_version = 0, ps_protocol_version = 1,
          ps_uptime_s = 0, ps_fault_count = 0\<rparr>"
  by (simp add: decodePsuStatus_def status_frame_def mk_frame_def codec_simps get_u8_def get_u16_def
      get_u32_def put_u16_def)

lemma can_status_frame:
  "can_onFrame status_frame l = l\<lparr>cpl_heartbeat_seen := True, cpl_protocol_ok := True\<rparr>"
proof -
  have "cf_id status_frame = ID_PSU_STATUS" by (simp add: status_frame_def)
  then show ?thesis
    by (simp add: can_onFrame_def decode_status_frame psu_id_defs kProtocolVersion_def)
qed

lemma demo_start_fields:
  "ctl_state demo_start = StIdle" "ctl_link demo_start = can_psu_init" "\<not> ctl_have_sent demo_start"
  "ctl_wire_break_sev demo_start = 0" "ctl_diel demo_start = None"
  "ctl_t demo_start = controller_timers_default" "\<not> ctl_have_window demo_start"
  "ctl_modes demo_start = mode_table_default" "ctl_now demo_start = 0"
  "ctl_last_window_change_ms demo_start = 0" "ctl_servo_cfg demo_start = servo_config_default"
  by (simp_all add: demo_start_def controller_init_def)

lemma requestCut_keeps:
  "ctl_wire_break_sev (requestCut ops s c) = ctl_wire_break_sev c"
  "ctl_diel (requestCut ops s c) = ctl_diel c" "ctl_t (requestCut ops s c) = ctl_t c"
  "ctl_have_window (requestCut ops s c) = ctl_have_window c"
  "ctl_last_window_change_ms (requestCut ops s c) = ctl_last_window_change_ms c"
  "ctl_servo_cfg (requestCut ops s c) = ctl_servo_cfg c"
  by (simp_all add: requestCut_def requestStop_def Let_def)

lemma requestCut_arms:
  assumes "ctl_state c \<noteq> StFault" "ctl_state c \<noteq> StStallFault" "s \<noteq> 0"
  shows "ctl_state (requestCut ops s c) = StArmed" "ctl_arm_fresh (requestCut ops s c)"
  using assms by (simp_all add: requestCut_def Let_def modeForSword_idle_iff)

lemma demo_requested_fields:
  "ctl_state demo_requested = StArmed" "ctl_arm_fresh demo_requested"
  "ctl_wire_break_sev demo_requested = 0" "ctl_diel demo_requested = None"
  "ctl_t demo_requested = controller_timers_default" "\<not> ctl_have_window demo_requested"
  "ctl_last_window_change_ms demo_requested = 0"
  "cpl_events (ctl_link demo_requested) = []" "\<not> cpl_stats_valid (ctl_link demo_requested)"
  "cpl_last_ack_status (ctl_link demo_requested) = 0"
  by (simp_all add: demo_requested_def requestCut_keeps requestCut_arms demo_start_fields)
    (simp_all add: demo_start_def controller_init_def can_psu_init_def requestCut_def Let_def
      maybeSendModeBounds_def can_psu_ops_def can_setModeBounds_def requestStop_def can_stopCut_def)

lemma demo_online_fields:
  "ctl_state demo_online = StArmed" "ctl_arm_fresh demo_online" "ctl_wire_break_sev demo_online = 0"
  "ctl_diel demo_online = None" "ctl_t demo_online = controller_timers_default"
  "\<not> ctl_have_window demo_online" "ctl_last_window_change_ms demo_online = 0"
  "cpl_events (ctl_link demo_online) = []" "\<not> cpl_stats_valid (ctl_link demo_online)"
  "cpl_last_ack_status (ctl_link demo_online) = 0" "cpl_heartbeat_seen (ctl_link demo_online)"
  "cpl_protocol_ok (ctl_link demo_online)"
  by (simp_all add: demo_online_def can_status_frame demo_requested_fields)

lemma demo_reach:
  "ctl_reach can_psu_ops sim_diel_ops can_env can_psu_init demo_start"
  "ctl_reach can_psu_ops sim_diel_ops can_env can_psu_init demo_requested"
  "ctl_reach can_psu_ops sim_diel_ops can_env can_psu_init demo_online"
  "ctl_reach can_psu_ops sim_diel_ops can_env can_psu_init demo_settled"
  "ctl_reach can_psu_ops sim_diel_ops can_env can_psu_init demo_started"
proof -
  show s: "ctl_reach can_psu_ops sim_diel_ops can_env can_psu_init demo_start"
    unfolding demo_start_def by (rule cr_init)
  show r: "ctl_reach can_psu_ops sim_diel_ops can_env can_psu_init demo_requested"
    unfolding demo_requested_def by (rule cr_step [OF s cs_cut])
  have "can_env (ctl_link demo_requested) (can_onFrame status_frame (ctl_link demo_requested))"
    by (auto simp: can_env_def)
  then have "ctl_step can_psu_ops sim_diel_ops can_env demo_requested demo_online"
    unfolding demo_online_def by (rule cs_link)
  with r show o: "ctl_reach can_psu_ops sim_diel_ops can_env can_psu_init demo_online"
    by (rule cr_step)
  show d: "ctl_reach can_psu_ops sim_diel_ops can_env can_psu_init demo_settled"
    unfolding demo_settled_def by (rule cr_step [OF o cs_tick])
  show "ctl_reach can_psu_ops sim_diel_ops can_env can_psu_init demo_started"
    unfolding demo_started_def by (rule cr_step [OF d cs_tick])
qed

text \<open>Without telemetry the health check asks for the protocol version and the heartbeat only.\<close>

lemma can_no_events: "cpl_events l = [] \<Longrightarrow> po_popEvent can_psu_ops l = None"
  by (simp add: can_psu_ops_def can_popEvent_def deque_pop_def)

lemma healthy_without_stats:
  assumes "cpl_events (ctl_link c) = []" "\<not> cpl_stats_valid (ctl_link c)" "\<not> ctl_have_window c"
    "cpl_heartbeat_seen (ctl_link c)" "cpl_protocol_ok (ctl_link c)"
  shows "psu_healthy can_psu_ops (ctl_t c)
    (ctl_have_window (tick_gathered can_psu_ops dops now_ms c))
    (telemetry_age (tick_gathered can_psu_ops dops now_ms c)) (ctl_link c)"
  using assms tick_drained_none [OF can_no_events [OF assms(1)]]
  by (simp add: psu_healthy_def tick_gathered_def tick_telemetry_def Let_def can_psu_ops_sel
      can_latestStats_def)

lemma tick_window_none:
  assumes "po_popEvent ops (ctl_link c) = None" "po_latestStats ops (ctl_link c) = None"
    "ctl_state c = StArmed"
  shows "ctl_have_window (tick ops dops now_ms c) = ctl_have_window c"
proof -
  define g where "g = tick_gathered ops dops now_ms c"
  have g: "ctl_have_window g = ctl_have_window c"
    using assms by (simp add: g_def tick_gathered_def tick_drained_none tick_telemetry_def Let_def)
  have f: "ctl_have_window (tick_health ops tv d) = ctl_have_window d"
    "ctl_have_window (tick_diel_loss ops tv d) = ctl_have_window d"
    "ctl_have_window (tick_armed ops tv d) = ctl_have_window d"
    "ctl_have_window (tick_relief d) = ctl_have_window d"
    "ctl_have_window (servo_touchoff ops inp d) = ctl_have_window d"
    "ctl_have_window (servo_lost_gap inp d) = ctl_have_window d"
    for tv inp and d :: "('a, 'b) edm_controller"
    by (simp_all add: tick_health_def tick_diel_loss_def tick_armed_def tick_relief_def
        servo_touchoff_def servo_lost_gap_def Let_def)
  have s: "ctl_have_window (servo_stall ops inp out d) = ctl_have_window d"
    for inp out and d :: "('a, 'b) edm_controller"
    by (simp add: servo_stall_def Let_def)
  have "ctl_have_window (tick_guarded ops dops now_ms c) = ctl_have_window c"
    by (simp add: tick_guarded_def tick_guards_def f g flip: g_def)
  moreover have "ctl_have_window (snd (tick_servo ops tv d)) = ctl_have_window d"
    for tv and d :: "('a, 'b) edm_controller"
    by (simp add: tick_servo_def Let_def f s)
  ultimately show ?thesis by (simp add: tick_split Let_def tick_report_def)
qed

lemma demo_settled_fields:
  "ctl_state demo_settled = StArmed" "\<not> ctl_arm_fresh demo_settled"
  "ctl_link demo_settled = ctl_link demo_online" "ctl_diel demo_settled = None"
  "\<not> ctl_have_window demo_settled"
proof -
  have n: "po_popEvent can_psu_ops (ctl_link demo_online) = None"
    by (rule can_no_events) (rule demo_online_fields)
  have p: "po_protocolCompatible can_psu_ops (ctl_link demo_online)"
    "po_latestStats can_psu_ops (ctl_link demo_online) = None"
    using demo_online_fields by (simp_all add: can_psu_ops_def can_latestStats_def)
  note h = healthy_without_stats [OF demo_online_fields(8,9,6,11,12), of sim_diel_ops 0]
  note s = tick_settles [OF n demo_online_fields(1-3) p(1) h, folded demo_settled_def]
  show "ctl_state demo_settled = StArmed" "\<not> ctl_arm_fresh demo_settled"
    "ctl_link demo_settled = ctl_link demo_online" "ctl_diel demo_settled = None"
    using s demo_online_fields by simp_all
  show "\<not> ctl_have_window demo_settled"
    using tick_window_none [OF n p(2) demo_online_fields(1), of sim_diel_ops 0, folded demo_settled_def]
      demo_online_fields by simp
qed

lemma demo_permitted: "cut_permitted can_psu_ops sim_diel_ops demo_settled"
  using demo_settled_fields demo_online_fields
  by (simp add: cut_permitted_def diel_ok_def can_psu_ops_def)

lemma demo_settled_quiet:
  "po_popEvent can_psu_ops (ctl_link demo_settled) = None"
  "psu_healthy can_psu_ops (ctl_t demo_settled)
     (ctl_have_window (tick_gathered can_psu_ops sim_diel_ops 1 demo_settled))
     (telemetry_age (tick_gathered can_psu_ops sim_diel_ops 1 demo_settled)) (ctl_link demo_settled)"
  "\<not> can_spark (ctl_link demo_settled)"
proof -
  show "po_popEvent can_psu_ops (ctl_link demo_settled) = None"
    by (rule can_no_events) (simp add: demo_settled_fields demo_online_fields)
  show "psu_healthy can_psu_ops (ctl_t demo_settled)
     (ctl_have_window (tick_gathered can_psu_ops sim_diel_ops 1 demo_settled))
     (telemetry_age (tick_gathered can_psu_ops sim_diel_ops 1 demo_settled)) (ctl_link demo_settled)"
    by (rule healthy_without_stats) (simp_all add: demo_settled_fields demo_online_fields)
  have "\<not> can_spark (ctl_link demo_requested)"
    by (simp add: demo_requested_def demo_start_def controller_init_def can_psu_init_def requestCut_def
        Let_def maybeSendModeBounds_def can_psu_ops_def can_setModeBounds_def requestStop_def
        can_stopCut_def can_spark_def spark_step_def ID_SET_MODE_BOUNDS_def ID_CONTROL_def
        mode_table_default_def modeForSword_def)
  then show "\<not> can_spark (ctl_link demo_settled)"
    by (simp add: demo_settled_fields demo_online_def can_onFrame_spark)
qed

lemma can_init_ok: "can_linv can_psu_init" "\<not> can_spark can_psu_init"
  by (simp_all add: can_linv_def can_psu_init_def can_spark_def)

lemma can_reach_safe:
  "ctl_reach can_psu_ops dops can_env can_psu_init c \<Longrightarrow> spark_safe can_spark can_linv c"
  by (rule can_link.reach_spark_safe [OF can_env_ok can_init_ok])

lemma sim_reach_safe:
  "ctl_reach sim_psu_ops dops sim_env sim_init c \<Longrightarrow> spark_safe sim_cutting sim_linv c"
  by (rule sim_link.reach_spark_safe [OF sim_env_ok sim_init_linv]) (simp add: sim_init_def)

text \<open>The same session with a critical wire break queued.\<close>

definition break_frame :: can_frame where
  "break_frame = (mk_frame ID_WIRE_BREAK 14)\<lparr>cf_data := (replicate 64 0)[0 := 3]\<rparr>"

definition demo_broken :: "(can_psu_link, sim_diel) edm_controller" where
  "demo_broken = demo_online\<lparr>ctl_link := can_onFrame break_frame (ctl_link demo_online)\<rparr>"

lemma demo_broken_reach:
  "ctl_reach can_psu_ops sim_diel_ops can_env can_psu_init demo_broken"
proof -
  have "can_env (ctl_link demo_online) (can_onFrame break_frame (ctl_link demo_online))"
    by (auto simp: can_env_def)
  then have "ctl_step can_psu_ops sim_diel_ops can_env demo_online demo_broken"
    unfolding demo_broken_def by (rule cs_link)
  with demo_reach(3) show ?thesis by (rule cr_step)
qed

definition demo_break :: wire_break_imminent where
  "demo_break = \<lparr>wb_severity = 3, wb_cause_flags = 0, wb_recent_short_count = 0, wb_recent_arc_count = 0,
          wb_ignition_delay_var_ns2 = 0, wb_timestamp_ms_since_start = 0\<rparr>"

lemma demo_break_severity [simp]: "wb_severity demo_break = 3"
  by (simp add: demo_break_def)

lemma decode_break_frame: "decodeWireBreak break_frame = Some demo_break"
  by (simp add: demo_break_def decodeWireBreak_def break_frame_def get_u8_def get_u16_def get_u32_def)

lemma can_break_frame:
  "cpl_events l = [] \<Longrightarrow> cpl_events (can_onFrame break_frame l) =
     [EvWireBreak demo_break]"
proof -
  have "cf_id break_frame = ID_WIRE_BREAK" by (simp add: break_frame_def)
  moreover assume "cpl_events l = []"
  ultimately show ?thesis
    by (simp add: can_onFrame_events event_of_frame_def decode_break_frame deque_push_def kMaxEvents_def)
qed

lemma demo_broken_facts:
  "servo_limits_ok (ctl_servo_cfg demo_broken)"
  "3 \<le> rp_wire_break_sev (ctl_report (tick can_psu_ops sim_diel_ops 1 demo_broken))"
proof -
  have cfg: "ctl_servo_cfg demo_broken = servo_config_default"
    "ctl_t demo_broken = controller_timers_default" "ctl_wire_break_sev demo_broken = 0"
    by (simp_all add: demo_broken_def demo_online_def demo_requested_def requestCut_keeps demo_start_fields)
  then show "servo_limits_ok (ctl_servo_cfg demo_broken)" by (simp add: servo_limits_ok_default)
  have ev: "cpl_events (ctl_link demo_broken) = [EvWireBreak demo_break]"
    using demo_online_fields(8) by (simp add: demo_broken_def can_break_frame)
  have "ctl_wire_break_sev (tick_drained can_psu_ops 1 demo_broken) = 3"
    "ctl_sev_clear_after (tick_drained can_psu_ops 1 demo_broken) = 501"
    using cfg(2,3) ev
    by (simp_all add: tick_drained_def drain_one_break on_wire_break_def break_response_def Let_def
        maybeSendModeBounds_def controller_timers_default_def)
  then show "3 \<le> rp_wire_break_sev (ctl_report (tick can_psu_ops sim_diel_ops 1 demo_broken))"
    by (simp add: tick_reported_severity word_le_nat_alt)
qed

end
