(* ===== verification/Spec2Isabelle.thy ===== *)
theory Spec2Isabelle
  imports ChannelInput EdmMachine FeedDemo GcodeDemo Mcp2518fd MotionDemo MotionExample NgcPrecedence
    ParamBehaviour Regexpr Scenario
begin

text \<open>
  Verification of FluidEDM, the FluidNC motion firmware with a wire-EDM subsystem.

  The program. The firmware runs on a microcontroller as a set of tasks. Lines of G-code and
  \<open>$\<close> commands arrive on channels (\<^verbatim>\<open>Channel.cpp\<close>), which pick the one-byte realtime
  commands off the stream. The EDM subsystem (\<^verbatim>\<open>FluidNC/src/EDM\<close>) cuts metal with a spark
  across the gap between a wire and the part. \<^verbatim>\<open>EdmSpindle\<close> owns it: the M-codes
  M3, M5 and the \<open>$EDM/*\<close> commands go to the controller, three tasks tick it. The controller
  (\<^verbatim>\<open>EdmController\<close>) is a state machine (idle, armed, touch-off, cutting, hold, break
  relief, stall fault, fault). It talks to the power supply through \<^verbatim>\<open>IPsuLink\<close> and to the
  coolant module through \<^verbatim>\<open>IDielLink\<close>, each with an implementation over CAN and a
  simulator, and runs the gap servo, which turns the pulse counts of the supply into a
  velocity. The motion stage (\<^verbatim>\<open>EdmMotion\<close>) reads that velocity in a loop, advances or
  retracts along the contour with \<^verbatim>\<open>PathSampler\<close> and submits short segments to the planner.
  The wire feed (\<^verbatim>\<open>WireFeed\<close>) keeps the wire under tension with a load cell and two
  step generators, and reads the controller's report to stop on a broken wire.

  How the model is laid out. Every theory translates the files its first paragraph
  names; the operations keep their names in the code, a class is a record of its members, and a
  long function is the composition of one definition per block, in the order of the code.

  \<^item> \<open>Prelude\<close>, \<open>Float32\<close>: the widths of the integer types, \<open>lround\<close>, truncation, and single
    precision as real numbers rounded by \<open>f32\<close>, with the monotonicity, exactness and bound lemmas
    that all numeric proofs share (collection \<open>float_simps\<close>).
  \<^item> \<open>CanFrame\<close>, \<open>PsuProtocol\<close>, \<open>DielProtocol\<close>: frames, byte order, the two message
    catalogues. Lemmas: every decoder inverts the documented layout, every encoder writes it.
  \<^item> \<open>EventQueue\<close>: the locales \<open>event_queue\<close> and \<open>event_source\<close>, interpreted on the
    deque of the CAN links and on the ring buffer of the simulator.
  \<^item> \<open>PsuLink\<close>, \<open>SimPsu\<close>: the locale \<open>psu_link\<close>, the contract the controller relies on (a
    ghost \<open>spark\<close>, switched on by a start only and off by a stop), interpreted on the CAN link
    and on the simulator. \<open>DielLink\<close>, \<open>SimDiel\<close>: the same for \<open>diel_link\<close>.
  \<^item> \<open>ModeTable\<close>, \<open>GapServo\<close>: S-word to cutting mode, and the servo step.
  \<^item> \<open>Controller\<close>: the controller, its requests, the event drain and \<open>tick\<close> as the sequence of its
    blocks. \<open>ControllerSafety\<close>: proved in the context of \<open>psu_link\<close> for any link: which
    blocks switch the spark, the abstract machine \<open>edm_trans\<close>. \<open>ControllerBehaviour\<close>: the
    watchdog, the bounded waits, the feed cap, the drain. \<open>Scenario\<close>: a session over CAN at
    which the hypotheses are met.
  \<^item> \<open>ContourBuffer\<close>, \<open>PathSampler\<close>, \<open>CutMotion\<close>: contour, sampler, cut loop;
    \<open>PathResolution\<close> the resolution of its float arc length, \<open>MotionDemo\<close> concrete cuts.
  \<^item> \<open>Tension\<close>, \<open>Hx711\<close>, \<open>StepGen\<close>, \<open>WireFeed\<close>: the wire, \<open>FeedDemo\<close> a slack reading.
  \<^item> \<open>JsonEncoder\<close>, \<open>EdmReportChannel\<close>, \<open>EdmCommands\<close>, \<open>EdmSpindle\<close>: the operator's side.
    A report is proved to be the rendering of a tree.
  \<^item> \<open>EdmMachine\<close>: all callers together, as any sequence of tasks, M-codes and commands, with
    the locale \<open>machine_invariant\<close> interpreted twice.
  \<^item> \<open>Mcp2518fd\<close>: the register accesses of the CAN-FD chip.
  \<^item> \<open>StringUtil\<close>, \<open>Utf8\<close>, \<open>ChannelInput\<close>, \<open>Regexpr\<close>: parsing of numbers, the UTF-8
    codec, the input side of a channel, the matcher of setting names.
  \<^item> \<open>NgcError\<close>, \<open>NgcNumber\<close>, \<open>NgcOperators\<close>, \<open>NgcExpression\<close>, \<open>NgcParameters\<close>: error codes,
    numbers, expressions and parameters of G-code (\<^verbatim>\<open>NutsBolts.cpp\<close>, \<^verbatim>\<open>Expression.cpp\<close>,
    \<^verbatim>\<open>Parameters.cpp\<close>). \<open>NgcPrecedence\<close>: the evaluator computes the value of the tree that the
    text stands for. \<open>NgcLetters\<close>, \<open>NgcFailure\<close>: what a reader leaves of its text, and which
    codes a failure has. \<open>ParamBehaviour\<close>: a parameter that was set is read back.
  \<^item> \<open>FlowControl\<close>: the O-words over a stack of contexts; \<open>FlowBehaviour\<close>: conditionals and
    REPEAT.
  \<^item> \<open>GcodeState\<close>, \<open>GcodeWords\<close>, \<open>GcodeCheck\<close>, \<open>GcodeExec\<close>: \<open>gc_execute_line\<close> in the four steps of
    \<^verbatim>\<open>GCode.cpp\<close>, one definition per numbered section. \<open>GcodeBehaviour\<close>: a rejected line moves
    nothing. \<open>GcodeInvariants\<close>: lengths of vectors, offsets in use. \<open>GcodeMotion\<close>: which lines
    cut. \<open>GcodeJog\<close>: what a jog leaves alone. \<open>GcodeDemo\<close>: lines run on a concrete machine.
  \<^item> \<open>PlanLine\<close>, \<open>Planner\<close>: the look-ahead planner (\<^verbatim>\<open>Planner.cpp\<close>). \<open>PlannerRing\<close>: its ring seen
    from the tail. \<open>PlannerPlan\<close>: the two passes of \<open>planner_recalculate\<close> end and keep a plan
    that the axes can follow. \<open>PlannerMotion\<close>, \<open>PlannerRun\<close>: so does every operation, in any
    sequence. \<open>PlannerSteps\<close>: the steps of the queued blocks add up to the target.
    \<open>PlannerOverride\<close>: a feed override that breaks the plan.
  \<^item> \<open>Cartesian\<close>, \<open>ArcExtent\<close>: soft limits of lines, arcs and jogs (\<^verbatim>\<open>Limit.cpp\<close>,
    \<^verbatim>\<open>Kinematics/Cartesian.cpp\<close>), and the geometry of the extent of an arc. \<open>MotionControl\<close>: from
    a programmed motion to the planner (\<^verbatim>\<open>MotionControl.cpp\<close>). \<open>MotionBehaviour\<close>: what leaves the
    limits is not planned, and what is planned ends at its target. \<open>ArcGap\<close>: an arc and a jog on
    which the checks and the motion disagree. \<open>MotionExample\<close>: a concrete machine.

  How code becomes definitions. A lock makes each operation of a link atomic, so one call is
  one step, and an interleaving is a list of calls (\<open>ctl_reach\<close>, \<open>spindle_run\<close>). Virtual
  functions are records of operations passed as arguments. What a call does to the outside is a
  trace in the state (frames sent, pin levels, JSON text, actions of the motion loop). What
  comes from outside is an argument: received frames, the clock, the levels of
  a pin, one observation per pass of the cut loop.

  Bounds and fuel. The event loop of a tick has its own budget of eight in the code; \<open>drain_loop\<close>
  recurses on it. The cut loop runs until the world stops it; it consumes a list of
  observations, \<open>None\<close> says that the list ended first, and the properties that conclude a result
  either start from a result or compute it at a concrete list. The mutual recursion of the
  expressions carries fuel, four times the length of the text and four (\<open>fuel_for\<close>), and
  \<open>expression_reading_returns\<close> shows that this is enough for every line. The passes of the planner
  have as much fuel as there are blocks in the ring, at most 255; \<open>planning_a_motion_returns\<close>
  shows that they end within it. A wait of the motion control consumes a list of rounds, and
  \<open>None\<close> says that it still waits. In the flow control \<open>None\<close> is undefined behaviour (the
  top of an empty stack), and for the segments of an arc a conversion that C++ leaves undefined.
  All other loops terminate by a measure proved here (\<open>poll_loop\<close>: the unread bytes; the matcher:
  the lengths of pattern and text).

  Where the model stops. Floats are finite: infinities, NaN and the sign of zero do not occur, no
  fused multiply-add is used, and a division by zero (a scale or a rate configured as 0) gives 0 here; \<open>sqrt\<close>,
  \<open>hypot\<close>, \<open>sin\<close>, \<open>cos\<close> and \<open>atan2\<close> are taken as correctly rounded. A conversion of a float
  to an integer is only faithful in the range of the type, where C++ defines it, and the range is proved where a property needs it.
  Memory that C++ leaves uninitialised reads as zero and is written before it is read. \<open>abs\<close>
  of the least integer wraps. The number parsers of the C library are arguments (\<open>strtof\<close>). Plain log
  lines are left out.

  Not modelled: the segment generator and the interrupt of the stepper, the protocol loop, kinematics other
  than the Cartesian one and the homing moves of the Cartesian one; what these do reaches the
  planner, the motion control and the cut loop through their arguments. The configuration tree, files, web
  server, motors, spindles other than the EDM spindle and pins, which are hardware drivers or input
  and output; the other \<open>$\<close> commands; the messages in G-code comments. \<^verbatim>\<open>send\<close> and \<^verbatim>\<open>poll\<close> of the
  CAN driver are empty in the source.

  The properties below go from the spark and the controller (C1 to C8) over the cut along the
  contour (C9 to C13) to the interpreter of G-code (C14 to C17), the planner and the motion control
  (C18 to C23), expressions, parameters and flow control (C24 to C29), then to the event queues
  (C30, C31), the wire (C32 to C36), the reports, the commands and the input (C37 to C40).
\<close>







text \<open>
  C4: Once its pending events are drained, one tick is one step of the abstract state
  machine edm_trans, for every link, every telemetry and every clock value: no other state
  change can happen.
\<close>

theorem tick_refines_state_machine:
  shows "edm_trans (ctl_state (drainEvents ops (c\<lparr>ctl_now := now_ms\<rparr>)))
    (ctl_state (tick ops dops now_ms c))"
  using tick_trans [of ops now_ms c dops] by (simp only: tick_drained_def)

text \<open>
  C5: A critical wire-break event (severity 3 or more) moves the controller to the break-
  relief state from every state, the latched fault states and idle included: the fault is
  left without clearFault.
\<close>

theorem critical_break_leaves_every_state:
  assumes "cpl_events (ctl_link c) = [EvWireBreak w]" "3 \<le> wb_severity w"
  shows "ctl_state (drainEvents can_psu_ops c) = StBreakRelief"
  by (rule drain_critical_break [OF assms])

lemma critical_break_leaves_every_state_witness:
  "ctl_state (drainEvents can_psu_ops ((enterFault can_psu_ops FrServoStall demo_start)
     \<lparr>ctl_link := can_psu_init\<lparr>cpl_events := [EvWireBreak demo_break]\<rparr>\<rparr>)) = StBreakRelief"
  by (rule critical_break_leaves_every_state [where w = demo_break]) simp_all

text \<open>
  C6: A tick that ends in an active or armed state has seen a healthy supply: the protocol
  version matches, the telemetry does not report the fault state, and the telemetry is not
  older than the fault limit (unless no window was ever received and the link is up).
\<close>

theorem watchdog_faults_unhealthy_supply:
  assumes "ctl_reach can_psu_ops dops can_env can_psu_init c"
    and "\<not> spark_off_state (ctl_state (tick can_psu_ops dops now_ms c))"
  shows "psu_healthy can_psu_ops (ctl_t c) (ctl_have_window (tick_gathered can_psu_ops dops now_ms c))
    (telemetry_age (tick_gathered can_psu_ops dops now_ms c)) (ctl_link c)"
  by (rule can_link.tick_watchdog [OF can_reach_safe [OF assms(1)] assms(2)])

lemma watchdog_faults_unhealthy_supply_witness:
  "psu_healthy can_psu_ops (ctl_t demo_settled)
     (ctl_have_window (tick_gathered can_psu_ops sim_diel_ops 1 demo_settled))
     (telemetry_age (tick_gathered can_psu_ops sim_diel_ops 1 demo_settled)) (ctl_link demo_settled)"
proof (rule watchdog_faults_unhealthy_supply [OF demo_reach(4)])
  show "\<not> spark_off_state (ctl_state (tick can_psu_ops sim_diel_ops 1 demo_settled))"
    using can_link.tick_starts(2) [OF can_reach_safe [OF demo_reach(4)] demo_settled_quiet(1)
        demo_permitted demo_settled_quiet(2)] by (simp add: spark_off_state_def)
qed

text \<open>
  C7: In every reachable controller whose servo limits are sane, a tick that reports an
  active critical wire break reports a velocity that is not an advance.
\<close>

theorem no_advance_during_critical_break:
  assumes "ctl_reach ops dops env l0 c" "servo_limits_ok (ctl_servo_cfg c)"
    and "3 \<le> rp_wire_break_sev (ctl_report (tick ops dops now_ms c))"
  shows "sint (rp_v_cmd_um_s (ctl_report (tick ops dops now_ms c))) \<le> 0"
  by (rule tick_no_advance_in_break [OF ctl_reach_cap [OF assms(1)] assms(2,3)])

lemma no_advance_during_critical_break_witness:
  "sint (rp_v_cmd_um_s (ctl_report (tick can_psu_ops sim_diel_ops 1 demo_broken))) \<le> 0"
  by (rule no_advance_during_critical_break [OF demo_broken_reach]) (rule demo_broken_facts)+

text \<open>
  C8: The spindle as EdmSpindle::init builds it (simulated links), driven by any sequence of
  tasks, M-codes, commands and motion stops, never cuts: the simulator link is never ticked,
  so no telemetry ever arrives and the controller stays in idle, armed, touch-off or fault.
\<close>

theorem simulated_machine_never_cuts:
  assumes "es_ctl (spindle_run strtof evs (edm_init now_ms s)) = Some c"
  shows "ctl_state c \<in> {StIdle, StArmed, StTouchOff, StFault}"
  using machine_silent(2) [OF assms] by (simp add: silent_ctl_def)

lemma simulated_machine_never_cuts_witness:
  "\<exists>c. es_ctl (spindle_run (\<lambda>s. (0, s)) [SeState SpCw 300, SeServo 10]
       (edm_init 0 (edm_spindle_new None None))) = Some c
     \<and> ctl_state c \<in> {StIdle, StArmed, StTouchOff, StFault}"
proof -
  obtain c where c: "es_ctl (edm_init 0 (edm_spindle_new None None)) = Some c"
    using init_ctl by blast
  have "es_ctl (spindle_run (\<lambda>s. (0, s)) [SeState SpCw 300, SeServo 10]
      (edm_init 0 (edm_spindle_new None None)))
      = Some (tick sim_psu_ops sim_diel_ops 10 (requestCut sim_psu_ops 300 c))"
    by (simp add: spindle_run_def edm_setState_def servo_task_def c Let_def)
  then show ?thesis using simulated_machine_never_cuts by blast
qed

text \<open>
  C9: However the commanded velocity and the pass times go, the sampler's position stays on
  the contour and never falls behind the furthest point reached by more than the retract
  limit.
\<close>

theorem sampler_stays_on_path:
  assumes "wf_sampler co c" "sampler_inv co c st"
  shows "startS co \<le> ss_s (sampler_run co c st steps) \<and> ss_s (sampler_run co c st steps) \<le> totalLen co
    \<and> fsub (ss_s_max (sampler_run co c st steps)) (sm_retract_max_mm c) \<le> ss_s (sampler_run co c st steps)"
  using sampler_inv_bounds [OF sampler_run_inv [OF assms, of steps]] by simp

lemma sampler_stays_on_path_witness:
  "ss_s (sampler_run (demo_line 10) sampler_config_default sampler_state_default
     [(2000000, 1), (- 2000000, 1), (5, 0)]) \<le> 10"
  using sampler_stays_on_path [OF demo_sampler demo_start_inv, of 10 "[(2000000, 1), (- 2000000, 1), (5, 0)]"]
  by (simp add: is_f32_def float_simps)



text \<open>
  C11: When the cut loop returns true its last actions are the plan of the final segment and
  the synchronisation, and the sampler stood within the end tolerance of the contour's end:
  the last segment is never dropped.
\<close>

theorem completed_cut_reached_the_end:
  assumes "contour_loop contour cfg b pl obs st prev = (acts, Some True)"
  shows "completed_by contour cfg pl obs acts"
  by (rule contour_loop_true [OF assms])

lemma completed_cut_reached_the_end_witness:
  "completed_by (demo_line 10) demo_config demo_plan [demo_pass]
     [ActPlan (fanOut (poseAt (demo_line 10) 10) (replicate 9 0)) (segment_line demo_plan demo_end_result),
      ActSynchronize]"
  by (rule completed_cut_reached_the_end [OF demo_run [of 0]])



text \<open>
  C13: Appending lines and arcs and evicting below any floor keep a contour well formed (arc
  lengths sorted, representable, within the capacity); appending never shortens it and
  eviction keeps its end.
\<close>

theorem contour_stays_well_formed:
  assumes "wf_contour c" "cb_v c \<noteq> []"
  shows "wf_contour (snd (appendLine e c)) \<and> totalLen c \<le> totalLen (snd (appendLine e c))
    \<and> wf_contour (snd (appendArc e cx cy radius ang tol c))
    \<and> totalLen c \<le> totalLen (snd (appendArc e cx cy radius ang tol c))
    \<and> wf_contour (evictBelow f c) \<and> totalLen (evictBelow f c) = totalLen c
    \<and> startS (evictBelow f c) \<le> max f (startS c)"
  using appendLine_wf(1,3) [OF assms(1)] appendArc_wf [OF assms] evictBelow_keeps [OF assms] assms(2)
  by simp

lemma contour_stays_well_formed_witness:
  "wf_contour (evictBelow 5 (demo_line 10)) \<and> totalLen (evictBelow 5 (demo_line 10)) = 10"
  using contour_stays_well_formed [OF demo_line_wf, of 10] by (simp add: is_f32_def float_simps)









text \<open>
  C18: However motions are queued, blocks are executed, held, restarted and ended, the plan
  can be carried out: from the speed at which a pending block is entered (for the first one,
  the speed the stepper has in it) the machine can brake within the block to the entry speed
  of the next, after the last one to a stop, and can reach that entry speed, and no block
  but the first is entered faster than its junction allows. The stepper is assumed to follow
  the plan, which is what its progress steps say.
\<close>

theorem reachable_plans_can_be_carried_out:
  assumes "planner_reach env p"
  shows "wf_ring env p
    \<and> (\<forall>i<ring_count env p. can_brake env p i \<and> can_reach env p i)
    \<and> (\<forall>i<ring_count env p. 0 < i \<longrightarrow> entry_of env p i \<le> max_of env p i)"
  using reachable_planner_ok [OF assms] by (simp add: planner_ok_def feasible_def)

lemma reachable_plans_can_be_carried_out_witness:
  "\<exists>p. planner_reach (demo_plan_env 100) p \<and> 0 < ring_count (demo_plan_env 100) p
     \<and> can_brake (demo_plan_env 100) p 0"
proof -
  obtain p where p: "plan_buffer_line (demo_plan_env 100) [1, 0] demo_move idle_planner = Some (BrQueued, p)"
    using demo_queued by blast
  have r: "planner_reach (demo_plan_env 100) p"
    by (rule planner_reach.motion [OF idle_reached _ _ p]) (simp_all add: idle_planner_ok)
  obtain c where "map no_entry (pending (demo_plan_env 100) p) = [c]"
    using new_motion [OF idle_planner_ok(1,4), of 100 "[1, 0]" demo_move] p by (auto simp: idle_planner_ok)
  then have "length (map no_entry (pending (demo_plan_env 100) p)) = 1" by simp
  then have "0 < ring_count (demo_plan_env 100) p" by simp
  then show ?thesis using reachable_plans_can_be_carried_out [OF r] r by blast
qed

text \<open>
  C19: Planning a new motion always returns, on every sound planner with room for it: the
  passes end, the planner is sound again, and either exactly one block was added behind the
  pending ones, which keep everything but their entry speeds, or (a motion of the system,
  without steps, or of an axis that is not homed) the pending blocks are the same.
\<close>

theorem planning_a_motion_returns:
  assumes "planner_ok env p" "\<not> plan_check_full_buffer p"
    and "ring_count env p = 0 \<Longrightarrow> pe_executing env = None"
  shows "\<exists>r p'. plan_buffer_line env target l p = Some (r, p') \<and> planner_ok env p'
    \<and> (if r = BrQueued \<and> \<not> pl_systemMotion l
       then \<exists>c. map no_entry (pending env p') = map no_entry (pending env p) @ [c]
       else pending env p' = pending env p)"
proof -
  obtain r p' where "plan_buffer_line env target l p = Some (r, p')" "planner_ok env p'"
    "if r = BrQueued \<and> \<not> pl_systemMotion l
     then \<exists>c. map no_entry (pending env p') = map no_entry (pending env p) @ [c]
     else pending env p' = pending env p"
    using new_motion [OF assms, of target l] by metis
  then show ?thesis by blast
qed

lemma planning_a_motion_returns_witness:
  "\<exists>r p'. plan_buffer_line (demo_plan_env 100) [1, 0] demo_move idle_planner = Some (r, p')
     \<and> planner_ok (demo_plan_env 100) p'"
  using planning_a_motion_returns [OF idle_planner_ok(1,4), of 100 "[1, 0]" demo_move] by auto

text \<open>
  C20: The steps of a queued block, with the sign of its direction bits, take every axis
  from the position of the planner to the steps of the target, also where the step counter
  wraps around, and that is the position of the planner afterwards.
\<close>

theorem block_steps_lead_to_the_target:
  assumes "planner_ok env p" "\<not> plan_check_full_buffer p"
    and "ring_count env p = 0 \<Longrightarrow> pe_executing env = None"
    and "pe_n_axis env \<le> 16" "length (pn_position p) = pe_n_axis env"
    and "\<forall>a<pe_n_axis env. 0 < pe_steps_per_mm env ! a \<and> pe_steps_per_mm env ! a \<le> 2 ^ 100"
    and "\<not> pl_systemMotion l"
    and "plan_buffer_line env target l p = Some (BrQueued, p')" and "a < pe_n_axis env"
  shows "pn_position p' ! a = motor_pos_to_steps env a (target ! a)
    \<and> pn_position p' ! a = pn_position p ! a + block_delta (last (pending env p')) a"
  using assms by (rule steps_lead_to_target)

lemma block_steps_lead_to_the_target_witness:
  "\<exists>p'. plan_buffer_line (demo_plan_env 100) [1, 0] demo_move idle_planner = Some (BrQueued, p')
     \<and> block_delta (last (pending (demo_plan_env 100) p')) 0 = 100"
proof -
  obtain p' where p': "plan_buffer_line (demo_plan_env 100) [1, 0] demo_move idle_planner = Some (BrQueued, p')"
    using demo_queued by blast
  have env: "pe_n_axis (demo_plan_env 100) = 2" "pe_steps_per_mm (demo_plan_env 100) = [100, 100]"
    by (simp_all add: demo_plan_env_def)
  have pos: "pn_position idle_planner = [0, 0]"
    by (simp add: idle_planner_def plan_reset_def plan_reset_buffer_def) (simp add: demo_plan_env_def numeral_2_eq_2)
  have "pn_position p' ! 0 = motor_pos_to_steps (demo_plan_env 100) 0 ([1, 0] ! 0)
    \<and> pn_position p' ! 0 = pn_position idle_planner ! 0 + block_delta (last (pending (demo_plan_env 100) p')) 0"
    by (rule block_steps_lead_to_the_target [OF idle_planner_ok(1,4) _ _ _ _ _ p'])
      (simp_all add: env pos less_2_cases_iff)
  then have "motor_pos_to_steps (demo_plan_env 100) 0 ([1, 0] ! 0)
      = pn_position idle_planner ! 0 + block_delta (last (pending (demo_plan_env 100) p')) 0" by metis
  then show ?thesis using p' pos by (simp add: demo_steps)
qed



text \<open>
  C22: An arc that the fast check of the soft limits accepts stays inside them: every point
  of it (its end points on the circle, taken counterclockwise from the earlier to the later
  one, a whole turn if they are the same) has its plane coordinates, rounded to single
  precision, inside the limits of their axes. The decision tree of sign comparisons thus
  finds every crossing that matters.
\<close>

theorem accepted_arcs_stay_inside_the_limits:
  assumes "invalid_arc env a = None" and "0 < arc_radius a"
    and "on_circle a (arc_position a) from_angle" "on_circle a (arc_target a) to_angle"
    and "(\<alpha>, \<beta>) = (if arc_clockwise a then (to_angle, from_angle) else (from_angle, to_angle))"
    and "\<alpha> \<le> t" "t \<le> (if \<alpha> < \<beta> then \<beta> else \<beta> + 2 * pi)"
    and "arc_center a = (c0, c1)" "arc_axes a = (x, y, z)"
  shows "within_limits env x (f32 (c0 + arc_radius a * cos t))
    \<and> within_limits env y (f32 (c1 + arc_radius a * sin t))"
  using assms by (rule accepted_arc_within)

lemma accepted_arcs_stay_inside_the_limits_witness:
  "within_limits quarter_env 0 (f32 (cos (pi / 4))) \<and> within_limits quarter_env 1 (f32 (sin (pi / 4)))"
  using accepted_arcs_stay_inside_the_limits [OF quarter_accepted _ quarter_points, of 0 "pi / 2" "pi / 4" 0 0 0 1 2]
  by simp

text \<open>
  C23: An arc that the limit check accepts, and whose number of segments fits its 16 bits,
  is submitted to the end if nothing stops it and the planner's buffer drains: the call
  returns, the planner stands at the target of the arc on every axis (whatever the rounding
  of the points on the way), the plan is sound and no limit was reported.
\<close>

theorem arcs_end_at_their_target:
  assumes "undisturbed obs" and "can_move l w" and "\<not> pl_systemMotion l" and "\<not> me_check_mode env"
    and "center = (fadd (position ! x) (offset ! x), fadd (position ! y) (offset ! y))"
    and "invalid_arc (me_kin env) \<lparr>arc_target = target, arc_position = position, arc_center = center,
       arc_radius = radius, arc_axes = (x, y, z), arc_clockwise = clockwise, arc_rotations = rotations\<rparr> = None"
    and "arc_segments (arc_angular_travel (- (offset ! x), - (offset ! y))
       (fsub (target ! x) (fst center), fsub (target ! y) (snd center)) clockwise rotations) radius
       (me_arc_tolerance env) \<noteq> None"
  shows "\<exists>w'. mc_arc env obs target l position offset radius (x, y, z) clockwise rotations w = Some w'
    \<and> motion_ok w' \<and> at_target (mw_env w') target (mw_planner w') \<and> mw_soft_limit w' = mw_soft_limit w"
  using assms by (rule arc_ends_at_target)

lemma arcs_end_at_their_target_witness:
  "\<exists>w'. mc_arc open_env free_obs [- 1, 0, 0] demo_move [1, 0, 0] [- 1, 0, 0] 1 (0, 1, 2) False 1 idle_world = Some w'
     \<and> at_target (mw_env w') [- 1, 0, 0] (mw_planner w')"
proof -
  have c: "(0, 0) = (fadd ([1, 0, 0] ! 0) ([- 1, 0, 0] ! 0), fadd ([1, 0, 0] ! 1) ([- 1, 0, 0] ! 1))"
    by (simp add: fadd_def)
  have s: "arc_segments (arc_angular_travel (- ([- 1, 0, 0] ! 0), - ([- 1, 0, 0] ! 1))
       (fsub ([- 1, 0, 0] ! 0) (fst (0, 0)), fsub ([- 1, 0, 0] ! 1) (snd (0, 0))) False 1) 1 (me_arc_tolerance open_env) \<noteq> None"
    using half_circle_segments by (simp add: fsub_def)
  show ?thesis
    using arcs_end_at_their_target [OF free_undisturbed idle_can_move(1) _ _ c half_circle_allowed s] by auto
qed

text \<open>
  C24: The operator-stack evaluator of bracketed expressions computes exactly the
  declarative meaning: it answers v with the text rest left over if and only if the text
  reads as an expression tree that respects the precedences, with operators of one level
  grouped to the left, followed by the closing bracket and rest, and the tree evaluates to
  v.
\<close>

theorem expressions_mean_their_tree:
  shows "ngc_expression pget pexists (CHR ''['' # line) = Inr (v, rest) \<longleftrightarrow>
    (\<exists>t l. reads_tree (ngc_number pget pexists True) t line l \<and> well_grouped t
       \<and> eval_tree t = Inr v \<and> read_operation l = Inr (Binary_RightBracket, rest))"
  using expression_result [of pget pexists line v rest]
  by (auto simp: expression_tree)

text \<open>
  C25: Reading an expression always returns, whatever the text and the nesting of brackets,
  references and functions: with fuel four times the length of the text the recursive
  readers give a result (which more fuel does not change), and the seven entries of the
  operator stack are never exceeded (the model has no result where the code would write past
  them).
\<close>

theorem expression_reading_returns:
  assumes "4 * length line + 1 \<le> n"
  shows "expression pget pexists n line = Some (ngc_expression pget pexists line)"
  using assms by (rule expression_fuel)

lemma expression_reading_returns_witness:
  "expression (\<lambda>_. None) (\<lambda>_. False) 40 ''[8]'' = Some (Inr (8, []))"
  using expression_reading_returns [of "''[8]''" 40 "\<lambda>_. None" "\<lambda>_. False"]
    bracket_number [of 8 "\<lambda>_. None" "\<lambda>_. False"]
  by (simp add: show_demo fint_exact)

text \<open>
  C26: A decimal integer of at most eight digits, followed by anything that does not
  continue a number, is read as its value rounded to single precision, and the text after it
  is what is left.
\<close>

theorem written_numbers_are_read_back:
  assumes "n < 10 ^ 8" "rest = [] \<or> \<not> isdigit (hd rest) \<and> hd rest \<noteq> CHR ''.''"
  shows "read_float (show_nat n @ rest) = Some (f32 (of_nat n), rest)"
  using read_float_nat [OF assms] by (simp add: fint_def)

lemma written_numbers_are_read_back_witness:
  "read_float ''55X1'' = Some (55, ''X1'')"
  using written_numbers_are_read_back [of 55 "''X1''"]
  by (simp add: show_demo isdigit_def f32_numeral)

text \<open>
  C27: Setting a parameter that belongs to the program (a number from 31 to 5000, or a name
  that starts with neither a slash nor an underscore) succeeds, the parameter then has that
  value, and every other such parameter keeps its own. Names are compared with their case
  inside a job and without it outside.
\<close>

theorem parameters_hold_what_was_set:
  assumes "set_param env r v w = (ok, w')" "user_param r" "user_param s"
  shows "ok \<and> get_param env w' s = (if same_param w r s then Some v else get_param env w s)"
  using set_user_param_ok [OF assms(2,1)] set_user_param [OF assms(2,1), of s] assms(3) by blast

lemma parameters_hold_what_was_set_witness:
  "\<exists>ok w'. set_param demo_env \<lparr>pr_name = [], pr_id = 100\<rparr> 7 demo_world = (ok, w')
     \<and> get_param demo_env w' \<lparr>pr_name = [], pr_id = 100\<rparr> = Some 7
     \<and> get_param demo_env w' \<lparr>pr_name = ''depth'', pr_id = 0\<rparr> = get_param demo_env demo_world \<lparr>pr_name = ''depth'', pr_id = 0\<rparr>"
proof -
  obtain ok w' where run: "set_param demo_env \<lparr>pr_name = [], pr_id = 100\<rparr> 7 demo_world = (ok, w')" by fastforce
  have users: "user_param \<lparr>pr_name = [], pr_id = 100\<rparr>" "user_param \<lparr>pr_name = ''depth'', pr_id = 0\<rparr>"
    by (simp_all add: user_param_def)
  show ?thesis
    using run parameters_hold_what_was_set [OF run users(1)] users by (auto simp: same_param_def)
qed

text \<open>
  C28: Of the branches of an IF, ELSEIF, ELSE chain at most one is executed, whatever its
  bodies do as long as they leave the flow-control stack as they found it, and whatever the
  conditions of the later branches evaluate to; a chain that reaches its ELSE has executed
  exactly one.
\<close>

theorem one_branch_of_a_conditional:
  assumes "if_chain env o_label bs w"
  shows "count_list bs True \<le> 1 \<and>
    (case flow_else o_label w of
       Some (e, w') \<Rightarrow> e = EOk \<longrightarrow> count_list (bs @ [\<not> skipping w']) True = 1
     | None \<Rightarrow> True)"
  using if_chain_one [OF assms] if_chain_else_one [OF assms]
  by (auto split: option.split)

lemma one_branch_of_a_conditional_witness:
  "\<exists>w'. flow_else 1 demo_branch = Some (EOk, w') \<and> skipping w' \<and> count_list [True, \<not> skipping w'] True = 1"
proof -
  obtain w' where w': "flow_else 1 demo_branch = Some (EOk, w')"
    by (simp add: flow_else_def demo_branch_def last_op_def set_top_def top_entry_def stack_push_def Let_def)
  then show ?thesis using one_branch_of_a_conditional [OF demo_chain] by (auto split: if_splits)
qed



text \<open>
  C30: The event loop of a tick returns within its budget of eight and consumes the pending
  events in order: without a fault among the first eight it leaves exactly what follows
  them, and it always shortens a nonempty queue.
\<close>

theorem event_drain_terminates:
  assumes "can_linv (ctl_link c)"
  shows "cpl_events (ctl_link (drainEvents can_psu_ops c)) = undrained 8 (cpl_events (ctl_link c))
    \<and> ((\<forall>f. EvFault f \<notin> set (take 8 (cpl_events (ctl_link c)))) \<longrightarrow>
        undrained 8 (cpl_events (ctl_link c)) = drop 8 (cpl_events (ctl_link c)))
    \<and> (cpl_events (ctl_link c) \<noteq> [] \<longrightarrow>
        length (undrained 8 (cpl_events (ctl_link c))) < length (cpl_events (ctl_link c)))"
  using can_link.drain_pending [OF assms] undrained_length(2) [of 8] undrained_no_fault
  by (simp add: drainEvents_def)

lemma event_drain_terminates_witness:
  "cpl_events (ctl_link (drainEvents can_psu_ops
     (demo_start\<lparr>ctl_link := can_psu_init\<lparr>cpl_events := [EvInfo [], EvWireBreak demo_break]\<rparr>\<rparr>))) = []"
proof -
  have "cpl_events (ctl_link (drainEvents can_psu_ops
     (demo_start\<lparr>ctl_link := can_psu_init\<lparr>cpl_events := [EvInfo [], EvWireBreak demo_break]\<rparr>\<rparr>)))
     = undrained 8 [EvInfo [], EvWireBreak demo_break]"
    using event_drain_terminates [of "demo_start\<lparr>ctl_link
        := can_psu_init\<lparr>cpl_events := [EvInfo [], EvWireBreak demo_break]\<rparr>\<rparr>"]
    by (simp add: can_linv_def can_psu_init_def kMaxEvents_def)
  then show ?thesis by (simp add: numeral_eq_Suc)
qed

text \<open>
  C31: The ring buffer of the simulator refines a bounded queue: after any burst of pushes
  it holds the youngest eight of the old contents and the burst, in order.
\<close>

theorem event_ring_keeps_the_youngest:
  assumes "ring_inv kEvtCap r"
  shows "ring_contents kEvtCap (fold (ring_push kEvtCap) es r) = lastn kEvtCap (ring_contents kEvtCap r @ es)"
  using sim_events.burst [OF assms] by blast

lemma event_ring_keeps_the_youngest_witness:
  "ring_contents kEvtCap (fold (ring_push kEvtCap) [1, 2, 3, 4, 5, 6, 7, 8, 9]
     \<lparr>rg_evts = replicate kEvtCap 0, rg_head = 0, rg_count = 0\<rparr>) = [2, 3, 4, 5, 6, 7, 8, 9 :: nat]"
  by (subst event_ring_keeps_the_youngest)
    (simp_all add: ring_inv_def ring_contents_def kEvtCap_def lastn_def)



text \<open>
  C33: For a sane configuration the step rates of the feed and tension motors, as the signed
  integers the step generators get, stay inside the configured limits, the PI correction
  stays inside its clamp, and the integrator never winds past it over any run.
\<close>

theorem wire_rates_are_bounded:
  assumes "wf_tension_config c" "\<bar>ts_integ s\<bar> \<le> fdiv (tc_pi_clamp_sps c) (tc_Ki c)"
  shows "0 \<le> sint (to_feed_steps_per_s (tension_step c s inp))
    \<and> sint (to_feed_steps_per_s (tension_step c s inp)) \<le> lround (tc_feed_max_sps c)
    \<and> lround (tc_tension_min_sps c) \<le> sint (to_tension_steps_per_s (tension_step c s inp))
    \<and> sint (to_tension_steps_per_s (tension_step c s inp)) \<le> lround (tc_tension_max_sps c)
    \<and> \<bar>to_pi_sps (tension_step c s inp)\<bar> \<le> tc_pi_clamp_sps c
    \<and> \<bar>ts_integ (tension_run c s inps)\<bar> \<le> fdiv (tc_pi_clamp_sps c) (tc_Ki c)"
  using tension_step_feed_bounds [OF assms(1)] tension_step_tension_bounds [OF assms(1)]
    tension_pi_bounds [of c s inp] tension_run_integ_ok [OF assms(1), of s inps] assms
  by (simp add: tension_integ_ok_def wf_tension_config_def)

lemma wire_rates_are_bounded_witness:
  "sint (to_feed_steps_per_s (tension_step tension_config_default tension_reset
     (tension_input_default\<lparr>ti_cutting := True\<rparr>))) \<le> 4000"
  using wire_rates_are_bounded [OF wf_tension_config_default, of tension_reset
      "tension_input_default\<lparr>ti_cutting := True\<rparr>" "[]"] lround_of_int [of 4000]
  by (simp add: tension_config_default_def fdiv_def f32_nonneg)

text \<open>
  C34: The mechanical collapse of the wire only latches after readings that were slack for
  at least the debounce time since the last reading that was not.
\<close>

theorem wire_collapse_is_not_spurious:
  assumes "\<not> ts_collapse_latched s" "ts_collapse_latched (tension_run c s inps)"
  shows "\<exists>k \<le> length inps.
    unat (tc_collapse_ms c) \<le> slack_time c (unat (ts_collapse_accum_ms s)) (take k inps)"
  by (rule tension_run_collapse_sound [OF assms])

lemma wire_collapse_is_not_spurious_witness:
  "\<exists>k \<le> 1. 30 \<le> slack_time tension_config_default 0 (take k [demo_slack])"
  using wire_collapse_is_not_spurious [of tension_reset tension_config_default "[demo_slack]"]
    demo_slack_collapses
  by (simp add: tension_config_default_def)

text \<open>
  C35: Once collapsed, the wire feed stays collapsed and its motor parked and disabled
  through every later tick, whatever the controller reports and the load cell reads, until
  it is reset.
\<close>

theorem collapse_latches_the_feed_off:
  assumes "tensionCollapsed w"
  shows "tensionCollapsed (feed_loop ts w) \<and> (ts \<noteq> [] \<longrightarrow> feed_stopped (feed_loop ts w))"
  by (rule feed_loop_collapsed [OF assms])

lemma collapse_latches_the_feed_off_witness:
  "feed_stopped (feed_loop [\<lparr>ft_ctl = None, ft_level = False, ft_dout = (\<lambda>_. False), ft_now = 12\<rparr>]
     (wire_feed_new\<lparr>wf_state := tension_reset\<lparr>ts_collapse_latched := True\<rparr>\<rparr>))"
  using collapse_latches_the_feed_off [of "wire_feed_new\<lparr>wf_state := tension_reset
      \<lparr>ts_collapse_latched := True\<rparr>\<rparr>" "[\<lparr>ft_ctl = None, ft_level = False,
      ft_dout = (\<lambda>_. False), ft_now = 12\<rparr>]"]
  by (simp add: tensionCollapsed_def del: feed_loop.simps)



text \<open>
  C37: The streaming encoder, which keeps counters per nesting level and flushes a 100-byte
  buffer, sends exactly the text of the recursive reference renderer, in non-empty packets
  of at most 100 bytes, with nothing left over, for every document nested less than 15 deep.
\<close>

theorem json_encoder_writes_the_document:
  assumes "members_depth ms < 15" "members_small ms" "members_count ms < 2 ^ 32"
  shows "json_sent (json_document tag ms) = ''{'' @ render_members ms False @ ''}''
    \<and> je_linebuf (json_document tag ms) = [] \<and> list_all packet_ok (je_out (json_document tag ms))"
  using json_document_text [OF assms] by simp

lemma json_encoder_writes_the_document_witness:
  "je_linebuf (json_document ''tag'' (MCons ''a'' (JStr ''b'') (MCons ''c''
     (JObj (MCons ''d'' (JRaw ''1'') MNil)) MNil))) = []"
  using json_encoder_writes_the_document [of "MCons ''a'' (JStr ''b'') (MCons ''c''
     (JObj (MCons ''d'' (JRaw ''1'') MNil)) MNil)" "''tag''"] by simp



text \<open>
  C39: Polling a channel picks the realtime bytes off the stream and assembles the others:
  the line it returns, if any, and the partial line it leaves are those of the stream
  without the realtime bytes, and it only gives up when the stream is used up.
\<close>

theorem realtime_bytes_do_not_disturb_lines:
  assumes "poll_loop rtok jg rg True incoming c = (line, acts, rest, c')"
  shows "\<exists>used. stream incoming c = used @ stream rest c'
    \<and> fst (assemble (line_bytes rtok used) c) = (case line of None \<Rightarrow> [] | Some l \<Rightarrow> [l])
    \<and> same_line (snd (assemble (line_bytes rtok used) c)) c' \<and> (line = None \<longrightarrow> stream rest c' = [])"
  by (rule poll_loop_assemble [OF assms])

lemma realtime_bytes_do_not_disturb_lines_witness:
  "\<exists>line acts rest c'. poll_loop (\<lambda>_. True) False (\<lambda>_. False) True [0x47, 0x3f, 0x0a] channel_new = (line, acts, rest, c')
     \<and> (\<exists>used. [0x47, 0x3f, 0x0a] = used @ stream rest c'
         \<and> fst (assemble (line_bytes (\<lambda>_. True) used) channel_new) = (case line of None \<Rightarrow> [] | Some l \<Rightarrow> [l]))"
proof -
  obtain line acts rest c' where r: "poll_loop (\<lambda>_. True) False (\<lambda>_. False) True [0x47, 0x3f, 0x0a] channel_new
      = (line, acts, rest, c')" by (metis prod_cases4)
  from realtime_bytes_do_not_disturb_lines [OF r] r show ?thesis
    by (simp add: stream_def channel_new_def) blast
qed

text \<open>
  C40: The backtracking matcher of setting names finds a match exactly when the pattern,
  read declaratively (a star is any text, a caret and a dollar the ends), has one.
\<close>

theorem setting_matcher_is_complete:
  shows "regexMatch r t cs \<longleftrightarrow>
     (if take 1 r = ''^'' then starts_with cs (drop 1 r) t
      else \<exists>u t'. t = u @ t' \<and> starts_with cs r t')"
  by (rule regexMatch_iff)

subsection \<open>Further facts\<close>

text \<open>
  Switching the pump sets the flush level back to the configured default, whatever level was
  selected before: the level is not preserved.
\<close>

theorem pump_command_resets_the_flush_level:
  assumes "es_ctl s = Some c" "ctl_diel c = Some d" "parse_on_off v = Some on" "v \<noteq> []"
    and "(ucast (es_diel_default_flush_level s) :: u8) \<le> 3"
  shows "\<exists>s'. edm_pump (Some v) (Some s) = (ErrOk, [], Some s')
    \<and> spindle_flush_level s' = Some (ucast (es_diel_default_flush_level s))"
  by (rule edm_pump_resets_flush [OF assms])

lemma pump_command_resets_the_flush_level_witness:
  "\<exists>s'. edm_pump (Some ''on'') (Some (edm_init 0 (edm_spindle_new None None))) = (ErrOk, [], Some s')
     \<and> spindle_flush_level s' = Some 2"
proof -
  define s where "s = edm_init 0 (edm_spindle_new None None)"
  obtain c d where c: "es_ctl s = Some c" "ctl_diel c = Some d" unfolding s_def using init_ctl by blast
  have l: "es_diel_default_flush_level s = 2"
    by (simp add: s_def edm_init_def Let_def spindle_setDiel_def edm_spindle_new_def edm_diel_config_default_def)
  have "parse_on_off ''on'' = Some True" by code_simp
  from pump_command_resets_the_flush_level [OF c this] show ?thesis by (simp add: l flip: s_def)
qed

text \<open>
  The unsigned parser accepts every decimal number, however large, and returns it modulo
  2^32: overflow is not reported.
\<close>

theorem unsigned_parse_wraps:
  shows "from_decimal_u32 (show_nat n) = (True, word_of_nat n)"
  by (rule from_decimal_u32_show)

text \<open>
  The SetModeBounds frame has its identifier, its 24-byte length and every field of the
  command at its documented offset: two commands with the same frame are the same command.
\<close>

theorem mode_bounds_frame_determines_the_command:
  shows "cf_id (encodeSetModeBounds m) = ID_SET_MODE_BOUNDS \<and> cf_len (encodeSetModeBounds m) = 24
    \<and> cf_data (encodeSetModeBounds m) = layoutSetModeBounds m @ replicate 40 0
    \<and> (encodeSetModeBounds m = encodeSetModeBounds m') = (m = m')"
  using layoutSetModeBounds_read [of m "replicate 40 0"] layoutSetModeBounds_read [of m' "replicate 40 0"]
    encodeSetModeBounds_layout [of m] encodeSetModeBounds_layout [of m']
  by (metis encodeSetModeBounds_frame(1,2))

text \<open>
  Escaping a string without NUL and reading it back with the JSON escapes gives the string.
\<close>

theorem json_string_roundtrip:
  assumes "CHR 0x00 \<notin> set s"
  shows "\<exists>body. json_quote s @ rest = CHR 0x22 # body \<and> json_unquote body = Some (s, rest)"
  by (rule json_quote_roundtrip [OF assms])

lemma json_string_roundtrip_witness:
  "\<exists>body. json_quote ''a\"b'' @ ''!'' = CHR 0x22 # body \<and> json_unquote body = Some (''a\"b'', ''!'')"
  by (rule json_string_roundtrip) simp

text \<open>
  Any number of passes during a feed hold do nothing but restart the clock: the loop
  continues from the same sampler state with the time of the last holding pass, so no
  phantom step follows the hold.
\<close>

theorem hold_freezes_the_sampler:
  assumes "\<And>ob. ob \<in> set holds \<Longrightarrow> \<not> ob_abort ob \<and> \<not> ob_alarm ob
      \<and> \<not> spark_off_state (ob_reported ob) \<and> \<not> ob_running ob"
  shows "contour_loop contour cfg b pl (holds @ obs) st prev =
    contour_loop contour cfg b pl obs st (if holds = [] then prev else ob_now (last holds))"
  by (rule contour_loop_hold [OF assms])

lemma hold_freezes_the_sampler_witness:
  "snd (contour_loop (demo_line 10) demo_config 16 demo_plan
     ([demo_pass\<lparr>ob_running := False, ob_now := 7\<rparr>, demo_pass\<lparr>ob_running := False, ob_now := 99\<rparr>]
        @ [demo_pass]) demo_near_end 0) = Some True"
proof -
  have "contour_loop (demo_line 10) demo_config 16 demo_plan
     ([demo_pass\<lparr>ob_running := False, ob_now := 7\<rparr>, demo_pass\<lparr>ob_running := False, ob_now := 99\<rparr>]
        @ [demo_pass]) demo_near_end 0
    = contour_loop (demo_line 10) demo_config 16 demo_plan [demo_pass] demo_near_end 99"
    by (subst hold_freezes_the_sampler) (auto simp: demo_pass_def spark_off_state_def
      simp del: contour_loop.simps append.simps)
  then show ?thesis by (simp only: demo_run snd_conv)
qed

text \<open>
  A UTF-8 character from U+0180 on that arrives on a channel acts as the realtime command
  whose code is the low byte of its code point: the cast to the 8-bit enumeration drops the
  rest.
\<close>

theorem characters_act_as_commands:
  assumes "0x180 \<le> v" "v < 0x110000" "u_state (cn_utf8 c) = 0"
  shows "fst (push_all jg rg (utf8_encode v) c) = execute_realtime_command jg (rt_cmd_of (ucast v))"
  by (rule push_character [OF assms])

lemma characters_act_as_commands_witness:
  "fst (push_all False (\<lambda>_. False) (utf8_encode 0x418) channel_new) = [SendEvent RtResetEvent]"
  by (subst characters_act_as_commands)
    (simp_all add: channel_new_def utf8_new_def rt_cmd_of_def rt_cmd_table_def)

text \<open>
  Conversely readings that are slack for the debounce time, soon enough after the wire was
  loaded, latch the collapse.
\<close>

theorem wire_collapse_is_detected:
  assumes "\<forall>inp \<in> set inps. slack_reading c inp" "inps \<noteq> []"
    and "unat (ts_since_loaded_ms s) + total_ms inps \<le> unat (tc_loaded_recent_ms c)"
    and "unat (ts_collapse_accum_ms s) + total_ms inps < 2 ^ 32"
    and "unat (tc_collapse_ms c) \<le> unat (ts_collapse_accum_ms s) + total_ms inps"
  shows "ts_collapse_latched (tension_run c s inps)"
  by (rule tension_run_collapse_complete [OF assms])

lemma wire_collapse_is_detected_witness:
  "ts_collapse_latched (tension_run tension_config_default tension_reset [demo_slack])"
  by (rule wire_collapse_is_detected)
    (simp_all add: demo_slack_reading, simp_all add: demo_slack_def tension_config_default_def)

text \<open>
  Without a pending event a tick never leaves idle, fault or stall-fault: only a request or
  an event does.
\<close>

theorem stopped_states_are_stable:
  assumes "spark_off_state (ctl_state c)" "po_popEvent ops (ctl_link c) = None"
  shows "ctl_state (tick ops dops now_ms c) = ctl_state c"
  by (rule tick_off_stays [OF assms])

lemma stopped_states_are_stable_witness:
  "ctl_state (tick can_psu_ops sim_diel_ops 5 (enterFault can_psu_ops FrPsuFault demo_start)) = StFault"
proof -
  have "ctl_state (tick can_psu_ops sim_diel_ops 5 (enterFault can_psu_ops FrPsuFault demo_start))
      = ctl_state (enterFault can_psu_ops FrPsuFault demo_start)"
    by (rule stopped_states_are_stable) (simp_all add: spark_off_state_def can_no_events
        demo_start_fields can_psu_init_def can_psu_ops_sel can_stopCut_def can_popEvent_def deque_pop_def)
  then show ?thesis by simp
qed

text \<open>
  The same over the in-firmware power-supply simulator, whatever its gap does and whatever
  events are queued.
\<close>

theorem sim_spark_off_when_stopped:
  assumes "ctl_reach sim_psu_ops dops sim_env sim_init c" "spark_off_state (ctl_state c)"
  shows "\<not> sim_cutting (ctl_link c)"
  using sim_reach_safe [OF assms(1)] assms(2) by (simp add: spark_safe_def)

lemma sim_spark_off_when_stopped_witness:
  "\<not> sim_cutting (ctl_link (notifyCutComplete sim_psu_ops (controller_init sim_init
     servo_config_default mode_table_default controller_timers_default
     :: (sim_psu, sim_diel) edm_controller)))"
proof (rule sim_spark_off_when_stopped)
  show "ctl_reach sim_psu_ops sim_diel_ops sim_env sim_init (notifyCutComplete sim_psu_ops
      (controller_init sim_init servo_config_default mode_table_default controller_timers_default))"
    by (rule cr_step [OF cr_init cs_complete])
qed (simp add: notifyCutComplete_def requestStop_def controller_init_def spark_off_state_def Let_def)

text \<open>
  Every code point below 0x110000, encoded and fed to an idle decoder byte by byte, is
  decoded to itself.
\<close>

theorem utf8_encode_decode:
  assumes "v < 0x110000" "u_state u = 0"
  shows "fst (utf8_decode_all (utf8_encode v) u) = Some v"
  by (rule utf8_roundtrip [OF assms])

lemma utf8_encode_decode_witness: "fst (utf8_decode_all (utf8_encode 0x418) utf8_new) = Some 0x418"
  by (rule utf8_encode_decode) (simp_all add: utf8_new_def)

text \<open>
  Arming ends: a tick at or after the acknowledge deadline of a settled controller leaves
  the armed state, by starting the cut or by a fault (the clock is read as the code reads
  it, so the statement is about the 32-bit values).
\<close>

theorem armed_wait_is_bounded:
  assumes "\<not> ctl_arm_fresh c" "ctl_arm_deadline c \<le> now_ms"
  shows "ctl_state (tick ops dops now_ms c) \<noteq> StArmed"
  by (rule tick_arm_decides [OF assms])

lemma armed_wait_is_bounded_witness:
  "ctl_state (tick can_psu_ops sim_diel_ops 200
     (demo_requested\<lparr>ctl_arm_fresh := False, ctl_arm_deadline := 200\<rparr>)) \<noteq> StArmed"
  by (rule armed_wait_is_bounded) simp_all

text \<open>
  For servo limits of at most 16000 mm/min the velocity sent to the motion stage is the
  rounded conversion of the clamped velocity, bounded by 266667 um/s, so the cast to int32_t
  cannot wrap.
\<close>

theorem servo_velocity_conversion_exact:
  assumes "servo_limits_ok c"
  shows "sint (go_v_s_um_s (servo_step c s inp)) = um_per_s (go_v_cmd_mm_min (servo_step c s inp))
    \<and> \<bar>um_per_s (go_v_cmd_mm_min (servo_step c s inp))\<bar> \<le> 266667
    \<and> - sc_v_retract c \<le> go_v_cmd_mm_min (servo_step c s inp)
    \<and> go_v_cmd_mm_min (servo_step c s inp) \<le> sc_v_feed_max c"
  using servo_velocity_int [OF assms] cap_velocity_bounds [of c inp] assms
  by (simp add: servo_step_proj(1) servo_limits_ok_def)

lemma servo_velocity_conversion_exact_witness:
  "- 6 \<le> go_v_cmd_mm_min (servo_step servo_config_default gap_servo_reset gap_servo_input_default)"
  using servo_velocity_conversion_exact [OF servo_limits_ok_default, of gap_servo_reset gap_servo_input_default]
  by (simp add: servo_config_default_def)

text \<open>
  With a required dielectric and a nonzero minimum flow the simulated machine never starts
  the spark: the flow of the simulated module only rises while a cut is active, and a cut
  needs the flow.
\<close>

theorem interlock_blocks_every_cut:
  assumes "es_diel_cfg s = Some d" "ed_required d" "(ucast (ed_flow_min_clpm d) :: u16) \<noteq> 0"
    and "es_ctl (spindle_run strtof evs (edm_init now_ms s)) = Some c"
  shows "ctl_state c \<in> {StIdle, StArmed, StFault} \<and> \<not> sim_cutting (ctl_link c)"
  using machine_dry [OF assms] by (simp add: dry_ctl_def)

lemma interlock_blocks_every_cut_witness:
  "\<exists>c. es_ctl (spindle_run (\<lambda>s. (0, s)) [SeState SpCw 300, SeDiel, SeServo 10]
       (edm_init 0 (edm_spindle_new None (Some (edm_diel_config_default\<lparr>ed_required := True\<rparr>))))) = Some c
     \<and> ctl_state c \<in> {StIdle, StArmed, StFault} \<and> \<not> sim_cutting (ctl_link c)"
proof -
  define d where "d = edm_diel_config_default\<lparr>ed_required := True\<rparr>"
  obtain c where c: "es_ctl (edm_init 0 (edm_spindle_new None (Some d))) = Some c"
    using init_ctl by blast
  define c1 where "c1 = tick sim_psu_ops sim_diel_ops 10 (diel_task_ctl (requestCut sim_psu_ops 300 c))"
  have "es_ctl (spindle_run (\<lambda>s. (0, s)) [SeState SpCw 300, SeDiel, SeServo 10]
      (edm_init 0 (edm_spindle_new None (Some d)))) = Some c1"
    by (simp add: spindle_run_def edm_setState_def servo_task_def diel_task_def c c1_def Let_def)
  moreover from this have "ctl_state c1 \<in> {StIdle, StArmed, StFault} \<and> \<not> sim_cutting (ctl_link c1)"
    by (rule interlock_blocks_every_cut [where d = d, rotated 3])
      (simp_all add: edm_spindle_new_def d_def edm_diel_config_default_def)
  ultimately show ?thesis unfolding d_def by blast
qed

text \<open>
  Between 128 and 256 mm along a contour, passes of at most a millisecond at a commanded
  velocity of at most 7 um/s never move the sampler, however many there are: the movement of
  a pass is below half a unit in the last place of the float that holds the position.
\<close>

theorem slow_cut_stalls_past_128_mm:
  assumes "stalled co st" "list_all slow_pass steps"
  shows "ss_s (sampler_run co sampler_config_default st steps) = ss_s st"
  by (rule slow_run [OF assms])

lemma slow_cut_stalls_past_128_mm_witness:
  "ss_s (sampler_run (demo_line 250) sampler_config_default demo_far
     (replicate 1000000 (7, f32 0.001))) = 200"
proof -
  have "list_all slow_pass (replicate n (7, f32 0.001))" for n
    by (induction n) (simp_all add: slow_pass_def)
  from slow_cut_stalls_past_128_mm [OF demo_far_stalled this] show ?thesis
    by (simp only: demo_far_def sampler_state.simps)
qed

text \<open>
  The machine-readable EDM report is one complete JSON document: the encoder's output is the
  rendering of the list of fields, whose keys are distinct, with the buffer empty at the end
  and every packet within the channel's line limit.
\<close>

theorem telemetry_report_is_one_document:
  shows "json_sent (report_edm_stats r feed) = ''{'' @ render_members (mk_members (update_fields r feed)) False @ ''}''
    \<and> je_linebuf (report_edm_stats r feed) = [] \<and> list_all packet_ok (je_out (report_edm_stats r feed))
    \<and> distinct (map fst (update_fields r feed))"
  using report_edm_stats_text [where r = r and feed = feed] update_fields_distinct [of r feed] by simp

text \<open>
  The same lines come out whether they end in LF, CR or CR-LF, as long as each fits the 254
  bytes of the line buffer and has no control bytes of the protocol; nothing is left over,
  and the line never outgrows its buffer.
\<close>

theorem line_endings_agree:
  assumes "list_all (\<lambda>l. list_all text_byte l \<and> length l < maxLine) ls" "line_end e"
    and "cn_line c = []" "cn_lastWasCR c \<Longrightarrow> e \<noteq> [0x0a]"
  shows "fst (assemble (concat (map (\<lambda>l. l @ e) ls)) c) = ls
    \<and> cn_line (snd (assemble (concat (map (\<lambda>l. l @ e) ls)) c)) = []
    \<and> length (cn_line (snd (assemble bs c))) < maxLine"
  using assemble_lines [OF assms] assemble_bound [of c bs] assms(3) by (auto simp: maxLine_def)

lemma line_endings_agree_witness:
  "fst (assemble [0x47, 0x30, 0x0d, 0x0a, 0x4d, 0x35, 0x0d, 0x0a] channel_new) = [[0x47, 0x30], [0x4d, 0x35]]"
  using line_endings_agree [of "[[0x47, 0x30], [0x4d, 0x35]]" "[0x0d, 0x0a]" channel_new]
  by (simp add: text_byte_def line_end_def maxLine_def channel_new_def del: assemble.simps)

end
